(* ===== verification/JsDate.thy ===== *)
theory JsDate
  imports Prelude
begin

text \<open>
  The part of JavaScript's \<open>Date\<close> the program uses, as the language defines it: a time value is the
  number of milliseconds since the epoch (an \<^typ>\<open>int\<close>); \<open>Date.UTC\<close>, the \<open>getUTC\<close> accessors and
  \<open>setUTCDate\<close> are the calendar algorithms of the ECMAScript specification; \<open>toISOString\<close> prints and
  \<open>Date.parse\<close> reads. \<open>parse_date\<close> reads the spellings the program's timestamps have: a date, or a
  date and a time ending in \<open>Z\<close> with or without milliseconds (what GitHub, \<open>toISOString\<close> and the
  date input of the dashboard send). A day of the month up to 31 is accepted in every month and
  carries over, as Node's parser does. \<open>None\<close> is an invalid date.

  Shown here: the calendar fields determine the day and are in range, a printed instant parses back
  to itself, and printing keeps the order of instants, which is what lets the program compare its
  timestamps as strings.
\<close>

section \<open>The calendar\<close>

abbreviation DAY_MS :: int where "DAY_MS \<equiv> 86400000"

definition day_of :: "int \<Rightarrow> int" where
  "day_of t = t div DAY_MS"

definition day_from_year :: "int \<Rightarrow> int" where
  "day_from_year y =
     365 * (y - 1970) + (y - 1969) div 4 - (y - 1901) div 100 + (y - 1601) div 400"

definition is_leap :: "int \<Rightarrow> bool" where
  "is_leap y \<longleftrightarrow> y mod 4 = 0 \<and> (y mod 100 \<noteq> 0 \<or> y mod 400 = 0)"

text \<open>The year a day falls in: an estimate that is at most one off, corrected.\<close>

definition year_from_day :: "int \<Rightarrow> int" where
  "year_from_day n =
     (let c = 1970 + (400 * n) div 146097 in
      if day_from_year c > n then c - 1
      else if day_from_year (c + 1) \<le> n then c + 1
      else c)"

text \<open>Days of the year before the first of a month; months count from 0, as in the language.\<close>

definition month_start :: "bool \<Rightarrow> int \<Rightarrow> int" where
  "month_start leap m =
     (if m \<le> 0 then 0 else if m = 1 then 31
      else (if m = 2 then 59 else if m = 3 then 90 else if m = 4 then 120 else if m = 5 then 151
            else if m = 6 then 181 else if m = 7 then 212 else if m = 8 then 243
            else if m = 9 then 273 else if m = 10 then 304 else if m = 11 then 334 else 365)
           + (if leap then 1 else 0))"

definition month_from_yday :: "bool \<Rightarrow> int \<Rightarrow> int" where
  "month_from_yday leap d =
     (if d < month_start leap 1 then 0 else if d < month_start leap 2 then 1
      else if d < month_start leap 3 then 2 else if d < month_start leap 4 then 3
      else if d < month_start leap 5 then 4 else if d < month_start leap 6 then 5
      else if d < month_start leap 7 then 6 else if d < month_start leap 8 then 7
      else if d < month_start leap 9 then 8 else if d < month_start leap 10 then 9
      else if d < month_start leap 11 then 10 else 11)"

text \<open>Fields of a day, and of a time value.\<close>

definition day_year :: "int \<Rightarrow> int" where
  "day_year n = year_from_day n"

definition day_month :: "int \<Rightarrow> int" where
  "day_month n = month_from_yday (is_leap (day_year n)) (n - day_from_year (day_year n))"

definition day_date :: "int \<Rightarrow> int" where
  "day_date n =
     n - day_from_year (day_year n) - month_start (is_leap (day_year n)) (day_month n) + 1"

definition utc_full_year :: "int \<Rightarrow> int" where
  "utc_full_year t = day_year (day_of t)"

definition utc_month :: "int \<Rightarrow> int" where
  "utc_month t = day_month (day_of t)"

definition utc_date :: "int \<Rightarrow> int" where
  "utc_date t = day_date (day_of t)"

text \<open>\<open>getUTCDay\<close>: Sunday is 0; the epoch was a Thursday.\<close>

definition utc_day :: "int \<Rightarrow> int" where
  "utc_day t = (day_of t + 4) mod 7"

text \<open>\<open>MakeDay\<close>, for a month within the year, and \<open>Date.UTC(y, m, d)\<close>, which reads the years 0 to 99
  as 1900 to 1999.\<close>

definition make_day :: "int \<Rightarrow> int \<Rightarrow> int \<Rightarrow> int" where
  "make_day y m d = day_from_year y + month_start (is_leap y) m + d - 1"

definition date_utc :: "int \<Rightarrow> int \<Rightarrow> int \<Rightarrow> int" where
  "date_utc y m d = make_day (if 0 \<le> y \<and> y \<le> 99 then 1900 + y else y) m d * DAY_MS"

definition set_utc_date :: "int \<Rightarrow> int \<Rightarrow> int" where
  "set_utc_date t d = make_day (utc_full_year t) (utc_month t) d * DAY_MS + t mod DAY_MS"

subsection \<open>The year of a day\<close>

lemma div_succ:
  assumes k: "0 < (k::int)"
  shows "(x + 1) div k = x div k + (if (x + 1) mod k = 0 then 1 else 0)"
proof -
  define q r where "q = x div k" and "r = x mod k"
  have x: "x + 1 = k * q + (r + 1)" by (simp add: q_def r_def)
  have r: "0 \<le> r" "r < k" using k by (simp_all add: r_def)
  show ?thesis
  proof (cases "r + 1 = k")
    case True
    then have "x + 1 = k * (q + 1)" using x by (simp add: distrib_left)
    then show ?thesis using k by (simp add: q_def)
  next
    case False
    then have r': "0 < r + 1" "r + 1 < k" using r by linarith+
    then have "(x + 1) mod k = r + 1" "(x + 1) div k = q"
      unfolding x by (simp_all add: mod_pos_pos_trivial div_pos_pos_trivial del: add.commute)
    with r'(1) show ?thesis by (simp add: q_def)
  qed
qed
lemma mod_shift: "(y - k * a) mod k = y mod (k::int)"
  using mod_mult_self2 [of y k "- a"] by simp

lemma day_from_year_Suc: "day_from_year (y + 1) = day_from_year y + (if is_leap y then 366 else 365)"
proof -
  have a: "(y - 1968) div 4 = (y - 1969) div 4 + (if y mod 4 = 0 then 1 else 0)"
    using div_succ [of 4 "y - 1969"] mod_shift [of y 4 492] by simp
  have b: "(y - 1900) div 100 = (y - 1901) div 100 + (if y mod 100 = 0 then 1 else 0)"
    using div_succ [of 100 "y - 1901"] mod_shift [of y 100 19] by simp
  have c: "(y - 1600) div 400 = (y - 1601) div 400 + (if y mod 400 = 0 then 1 else 0)"
    using div_succ [of 400 "y - 1601"] mod_shift [of y 400 4] by simp
  have d: "y mod 400 = 0 \<Longrightarrow> y mod 100 = 0" "y mod 100 = 0 \<Longrightarrow> y mod 4 = 0"
    using dvd_trans [of 100 400 y] dvd_trans [of 4 100 y] by (simp_all add: mod_eq_0_iff_dvd)
  have e: "day_from_year (y + 1) =
      365 * (y - 1970) + 365 + (y - 1968) div 4 - (y - 1900) div 100 + (y - 1600) div 400"
    by (simp add: day_from_year_def)
  show ?thesis
    unfolding e a b c using d
    by (cases "y mod 4 = 0"; cases "y mod 100 = 0"; cases "y mod 400 = 0")
      (simp_all add: is_leap_def day_from_year_def)
qed

lemma day_from_year_step: "day_from_year y < day_from_year (y + 1)"
  by (simp add: day_from_year_Suc)

lemma day_from_year_mono_nat: "day_from_year y \<le> day_from_year (y + int k)"
proof (induction k)
  case 0
  then show ?case by simp
next
  case (Suc k)
  have "day_from_year (y + int k) < day_from_year (y + int k + 1)" by (rule day_from_year_step)
  with Suc show ?case by (simp add: algebra_simps)
qed

lemma day_from_year_mono: "y \<le> z \<Longrightarrow> day_from_year y \<le> day_from_year z"
  using day_from_year_mono_nat [of y "nat (z - y)"] by simp

lemma day_from_year_bounds:
  "400 * day_from_year y \<le> 146097 * (y - 1970) + 600"
  "146097 * (y - 1970) - 600 \<le> 400 * day_from_year y"
proof -
  define a where "a = (y - 1969) div 4"
  define b where "b = (y - 1901) div 100"
  define c where "c = (y - 1601) div 400"
  have a: "4 * a \<le> y - 1969" "y - 1969 \<le> 4 * a + 3"
    unfolding a_def by (simp_all add: minus_mod_eq_mult_div [symmetric])
  have b: "100 * b \<le> y - 1901" "y - 1901 \<le> 100 * b + 99"
    unfolding b_def by (simp_all add: minus_mod_eq_mult_div [symmetric])
  have c: "400 * c \<le> y - 1601" "y - 1601 \<le> 400 * c + 399"
    unfolding c_def by (simp_all add: minus_mod_eq_mult_div [symmetric])
  have d: "day_from_year y = 365 * (y - 1970) + a - b + c"
    by (simp add: day_from_year_def a_def b_def c_def)
  show "400 * day_from_year y \<le> 146097 * (y - 1970) + 600"
    using a b c unfolding d by (simp add: algebra_simps)
  show "146097 * (y - 1970) - 600 \<le> 400 * day_from_year y"
    using a b c unfolding d by (simp add: algebra_simps)
qed

lemma year_from_day_bounds:
  "day_from_year (year_from_day n) \<le> n \<and> n < day_from_year (year_from_day n + 1)"
proof -
  define q where "q = (400 * n) div 146097"
  define c where "c = 1970 + q"
  have q: "146097 * q \<le> 400 * n" "400 * n < 146097 * q + 146097"
    unfolding q_def by (simp_all add: minus_mod_eq_mult_div [symmetric])
  have lo: "day_from_year (c - 1) \<le> n"
    using day_from_year_bounds(1) [of "c - 1"] q unfolding c_def by simp
  have hi: "n < day_from_year (2 + c)"
    using day_from_year_bounds(2) [of "2 + c"] q unfolding c_def by simp
  show ?thesis
    using lo hi by (auto simp: year_from_day_def Let_def c_def [symmetric] q_def [symmetric])
qed

lemma year_from_day_unique:
  assumes "day_from_year y \<le> n" "n < day_from_year (y + 1)"
  shows "year_from_day n = y"
proof (rule ccontr)
  assume "year_from_day n \<noteq> y"
  then consider "year_from_day n + 1 \<le> y" | "y + 1 \<le> year_from_day n" by linarith
  then show False
    using assms year_from_day_bounds [of n] day_from_year_mono by cases fastforce+
qed

lemma year_from_day_mono: "m \<le> n \<Longrightarrow> year_from_day m \<le> year_from_day n"
proof (rule ccontr)
  assume mn: "m \<le> n" and "\<not> year_from_day m \<le> year_from_day n"
  then have "year_from_day n + 1 \<le> year_from_day m" by simp
  then have "day_from_year (year_from_day n + 1) \<le> day_from_year (year_from_day m)"
    by (rule day_from_year_mono)
  with mn year_from_day_bounds [of m] year_from_day_bounds [of n] show False by linarith
qed

lemma yday_range:
  "0 \<le> n - day_from_year (day_year n)"
  "n - day_from_year (day_year n) < (if is_leap (day_year n) then 366 else 365)"
  using year_from_day_bounds [of n] by (simp_all add: day_year_def day_from_year_Suc)

subsection \<open>The fields determine the day\<close>

lemma make_day_fields: "make_day (day_year n) (day_month n) (day_date n + k) = n + k"
  by (simp add: make_day_def day_date_def)

lemma day_month_range: "0 \<le> day_month n" "day_month n \<le> 11"
  by (simp_all add: day_month_def month_from_yday_def)

lemma month_start_le_yday:
  assumes "0 \<le> d" shows "month_start leap (month_from_yday leap d) \<le> d"
  using assms by (simp add: month_from_yday_def month_start_def)

lemma yday_lt_next:
  assumes "d < (if leap then 366 else 365)"
  shows "d < month_start leap (month_from_yday leap d + 1)"
  using assms by (simp add: month_from_yday_def month_start_def split: if_splits)

lemma month_length: "0 \<le> m \<Longrightarrow> m \<le> 11 \<Longrightarrow> month_start leap (m + 1) - month_start leap m \<le> 31"
  by (simp add: month_start_def)

lemma day_date_range: "1 \<le> day_date n" "day_date n \<le> 31"
proof -
  let ?l = "is_leap (day_year n)" and ?d = "n - day_from_year (day_year n)"
  have m: "day_month n = month_from_yday ?l ?d" by (simp add: day_month_def)
  have 1: "month_start ?l (day_month n) \<le> ?d"
    unfolding m by (rule month_start_le_yday) (rule yday_range)
  have 2: "?d < month_start ?l (day_month n + 1)"
    unfolding m by (rule yday_lt_next) (rule yday_range)
  have 3: "month_start ?l (day_month n + 1) - month_start ?l (day_month n) \<le> 31"
    by (rule month_length) (rule day_month_range)+
  from 1 2 3 show "1 \<le> day_date n" "day_date n \<le> 31"
    by (simp_all add: day_date_def)
qed

text \<open>\<open>setUTCDate(getUTCDate() + k)\<close> moves by \<open>k\<close> days, whatever the month.\<close>

lemma set_utc_date_add: "set_utc_date t (utc_date t + k) = t + k * DAY_MS"
proof -
  have "make_day (utc_full_year t) (utc_month t) (utc_date t + k) = day_of t + k"
    by (simp add: utc_full_year_def utc_month_def utc_date_def make_day_fields)
  then have "set_utc_date t (utc_date t + k) = (t div DAY_MS) * DAY_MS + t mod DAY_MS + k * DAY_MS"
    unfolding set_utc_date_def by (simp add: day_of_def algebra_simps)
  then show ?thesis by (simp only: div_mult_mod_eq)
qed

text \<open>\<open>Date.UTC\<close> of a day's year and month, with the date shifted by \<open>k\<close>.\<close>

lemma date_utc_shift:
  assumes "utc_full_year t < 0 \<or> 99 < utc_full_year t"
  shows "date_utc (utc_full_year t) (utc_month t) (utc_date t + k) = (day_of t + k) * DAY_MS"
  using assms by (auto simp: date_utc_def utc_full_year_def utc_month_def utc_date_def make_day_fields)


section \<open>Printing and parsing\<close>

text \<open>A zero-padded decimal field.\<close>

definition pad_num :: "nat \<Rightarrow> int \<Rightarrow> string" where
  "pad_num w i = pad_zero w (nat_str (nat i))"

definition iso_year :: "int \<Rightarrow> string" where
  "iso_year y =
     (if 0 \<le> y \<and> y \<le> 9999 then pad_num 4 y
      else (if y < 0 then ''-'' else ''+'') @ pad_num 6 \<bar>y\<bar>)"

definition iso_date :: "int \<Rightarrow> string" where
  "iso_date n = iso_year (day_year n) @ ''-'' @ pad_num 2 (day_month n + 1) @ ''-'' @ pad_num 2 (day_date n)"

definition tod_hour :: "int \<Rightarrow> int" where "tod_hour r = r div 3600000"
definition tod_minute :: "int \<Rightarrow> int" where "tod_minute r = r div 60000 mod 60"
definition tod_second :: "int \<Rightarrow> int" where "tod_second r = r div 1000 mod 60"
definition tod_milli :: "int \<Rightarrow> int" where "tod_milli r = r mod 1000"

definition iso_time :: "int \<Rightarrow> string" where
  "iso_time r = ''T'' @ pad_num 2 (tod_hour r) @ '':'' @ pad_num 2 (tod_minute r) @ '':'' @
     pad_num 2 (tod_second r) @ ''.'' @ pad_num 3 (tod_milli r) @ ''Z''"

definition to_iso :: "int \<Rightarrow> string" where
  "to_iso t = iso_date (day_of t) @ iso_time (t mod DAY_MS)"

text \<open>A shape: \<open>d\<close> stands for a digit, any other character for itself.\<close>

definition has_shape :: "string \<Rightarrow> string \<Rightarrow> bool" where
  "has_shape p s = list_all2 (\<lambda>t c. if t = CHR ''d'' then is_digit c else c = t) p s"

definition parse_tod :: "string \<Rightarrow> int option" where
  "parse_tod s =
     (if s = [] then Some 0
      else if has_shape ''Tdd:dd:ddZ'' s \<or> has_shape ''Tdd:dd:dd.dddZ'' s then
        (let h = int (digits_val (take 2 (drop 1 s))); m = int (digits_val (take 2 (drop 4 s)));
             c = int (digits_val (take 2 (drop 7 s)));
             ms = (if length s = 14 then int (digits_val (take 3 (drop 10 s))) else 0) in
         if (h \<le> 23 \<and> m \<le> 59 \<and> c \<le> 59) \<or> (h = 24 \<and> m = 0 \<and> c = 0 \<and> ms = 0)
         then Some (h * 3600000 + m * 60000 + c * 1000 + ms) else None)
      else None)"

definition parse_day :: "string \<Rightarrow> int option" where
  "parse_day s =
     (if has_shape ''dddd-dd-dd'' s then
        (let y = int (digits_val (take 4 s)); m = int (digits_val (take 2 (drop 5 s)));
             d = int (digits_val (take 2 (drop 8 s))) in
         if 1 \<le> m \<and> m \<le> 12 \<and> 1 \<le> d \<and> d \<le> 31 then Some (make_day y (m - 1) d) else None)
      else None)"

definition parse_date :: "string \<Rightarrow> int option" where
  "parse_date s =
     (case parse_day (take 10 s) of None \<Rightarrow> None
      | Some n \<Rightarrow> (case parse_tod (drop 10 s) of None \<Rightarrow> None | Some r \<Rightarrow> Some (n * DAY_MS + r)))"

subsection \<open>Fields of fixed width\<close>

lemma digits_val_Cons: "digits_val (c # s) = digit_val c * 10 ^ length s + digits_val s"
proof (induction s rule: rev_induct)
  case Nil
  then show ?case by (simp add: digits_val_def)
next
  case (snoc x s)
  have "digits_val (c # s @ [x]) = 10 * digits_val (c # s) + digit_val x"
    using digits_val_append [of "c # s" x] by simp
  with snoc show ?case by (simp add: digits_val_append algebra_simps)
qed

lemma digit_val_less: "is_digit c \<Longrightarrow> digit_val c < 10"
  unfolding is_digit_def digit_val_def by linarith

lemma digits_val_less: "list_all is_digit s \<Longrightarrow> digits_val s < 10 ^ length s"
proof (induction s)
  case Nil
  then show ?case by (simp add: digits_val_def)
next
  case (Cons c s)
  then have "digit_val c \<le> 9" "digits_val s < 10 ^ length s"
    using digit_val_less [of c] by auto
  then have "digit_val c * 10 ^ length s + digits_val s < 9 * 10 ^ length s + 10 ^ length s"
    by (meson add_le_less_mono mult_le_mono1)
  then show ?case by (simp add: digits_val_Cons)
qed

lemma digit_less: "is_digit c \<Longrightarrow> is_digit d \<Longrightarrow> c < d \<longleftrightarrow> digit_val c < digit_val d"
  by (auto simp: is_digit_def digit_val_def less_char_def)

lemma digit_eq: "is_digit c \<Longrightarrow> is_digit d \<Longrightarrow> c = d \<longleftrightarrow> digit_val c = digit_val d"
  using digit_less [of c d] digit_less [of d c] by force

text \<open>Strings of digits of one length are ordered as the numbers they denote.\<close>

lemma digits_less_iff:
  "length s = length s' \<Longrightarrow> list_all is_digit s \<Longrightarrow> list_all is_digit s' \<Longrightarrow>
   s < s' \<longleftrightarrow> digits_val s < digits_val s'"
proof (induction s s' rule: list_induct2)
  case Nil
  then show ?case by (simp add: digits_val_def)
next
  case (Cons c s d s')
  have b: "digits_val s < 10 ^ length s'" "digits_val s' < 10 ^ length s'"
    using digits_val_less [of s] digits_val_less [of s'] Cons by auto
  have step: "digit_val x * 10 ^ length s' + m < digit_val y * 10 ^ length s' + n"
    if "digit_val x < digit_val y" "m < 10 ^ length s'" for x y m and n :: nat
  proof -
    have "digit_val x * 10 ^ length s' + m < Suc (digit_val x) * 10 ^ length s'" using that(2) by simp
    also have "\<dots> \<le> digit_val y * 10 ^ length s'" using that(1) by (intro mult_le_mono1) simp
    finally show ?thesis by simp
  qed
  consider "digit_val c < digit_val d" | "digit_val d < digit_val c" | "digit_val c = digit_val d"
    by linarith
  then show ?case
  proof cases
    case 1
    with Cons step [of c d "digits_val s" "digits_val s'"] b show ?thesis
      by (auto simp: digits_val_Cons digit_less)
  next
    case 2
    with Cons step [of d c "digits_val s'" "digits_val s"] b show ?thesis
      by (auto simp: digits_val_Cons digit_less digit_eq)
  next
    case 3
    with Cons show ?thesis by (auto simp: digits_val_Cons digit_less digit_eq)
  qed
qed

lemma digits_val_replicate_zero: "digits_val (replicate k (CHR ''0'') @ s) = digits_val s"
  by (induction k) (simp_all add: digits_val_Cons digit_val_def)

lemma nat_str_length: "0 < w \<Longrightarrow> n < 10 ^ w \<Longrightarrow> length (nat_str n) \<le> w"
proof (induction n arbitrary: w rule: nat_str.induct)
  case (1 n)
  show ?case
  proof (cases "n < 10")
    case True
    with 1 show ?thesis by (subst nat_str.simps) simp
  next
    case False
    obtain v where w: "w = Suc v" using 1 by (cases w) auto
    with 1 False have "0 < v" by (cases v) auto
    moreover have "n div 10 < 10 ^ v" using 1 w by (simp add: less_mult_imp_div_less mult.commute)
    ultimately have "length (nat_str (n div 10)) \<le> v" using 1 False by simp
    with False w show ?thesis by (subst nat_str.simps) simp
  qed
qed

lemma pad_num_length: "0 < w \<Longrightarrow> i < 10 ^ w \<Longrightarrow> length (pad_num w i) = w"
  using nat_str_length [of w "nat i"] by (simp add: pad_num_def pad_zero_def nat_less_iff)

lemma pad_num_digits [simp]: "list_all is_digit (pad_num w i)"
  by (auto simp: pad_num_def pad_zero_def list_all_iff is_digit_def [of "CHR ''0''"] nat_str_digits)

lemma pad_num_val [simp]: "digits_val (pad_num w i) = nat i"
  by (simp add: pad_num_def pad_zero_def digits_val_replicate_zero)

lemma pad_num_less:
  assumes "0 < w" "0 \<le> i" "i < 10 ^ w" "0 \<le> j" "j < 10 ^ w"
  shows "pad_num w i < pad_num w j \<longleftrightarrow> i < j"
proof -
  have "pad_num w i < pad_num w j \<longleftrightarrow> digits_val (pad_num w i) < digits_val (pad_num w j)"
    using assms by (intro digits_less_iff) (simp_all add: pad_num_length)
  with assms show ?thesis by auto
qed

lemma pad_num_inject:
  "0 \<le> i \<Longrightarrow> 0 \<le> j \<Longrightarrow> pad_num w i = pad_num w j \<longleftrightarrow> i = j"
  by (metis eq_nat_nat_iff pad_num_val)

lemma append_less_append:
  fixes u u' v v' :: "'a :: linorder list"
  shows "length u = length u' \<Longrightarrow> u @ v < u' @ v' \<longleftrightarrow> u < u' \<or> u = u' \<and> v < v'"
  by (induction u u' rule: list_induct2) auto


subsection \<open>A printed instant parses back to itself\<close>

text \<open>The instants whose year prints with four digits.\<close>

definition common_era :: "int \<Rightarrow> bool" where
  "common_era t \<longleftrightarrow> 0 \<le> utc_full_year t \<and> utc_full_year t \<le> 9999"

lemma pad_lengths [simp]:
  "i < 100 \<Longrightarrow> length (pad_num 2 i) = 2" "i < 1000 \<Longrightarrow> length (pad_num 3 i) = 3"
  "i < 10000 \<Longrightarrow> length (pad_num 4 i) = 4"
  by (simp_all add: pad_num_length)

lemma has_shape_append:
  "length p = length s \<Longrightarrow> has_shape (p @ q) (s @ t) \<longleftrightarrow> has_shape p s \<and> has_shape q t"
  by (simp add: has_shape_def list_all2_append)

lemma has_shape_digits:
  "list_all is_digit s \<Longrightarrow> length s = n \<Longrightarrow> has_shape (replicate n (CHR ''d'')) s"
  by (auto simp: has_shape_def list_all2_conv_all_nth list_all_length)

lemma has_shape_lit: "CHR ''d'' \<notin> set p \<Longrightarrow> has_shape p p"
  by (auto simp: has_shape_def list_all2_same)

lemma tod_ranges:
  assumes "0 \<le> r" "r < DAY_MS"
  shows "0 \<le> tod_hour r" "tod_hour r \<le> 23" "0 \<le> tod_minute r" "tod_minute r \<le> 59"
    "0 \<le> tod_second r" "tod_second r \<le> 59" "0 \<le> tod_milli r" "tod_milli r \<le> 999"
  using assms by (simp_all add: tod_hour_def tod_minute_def tod_second_def tod_milli_def)

lemma tod_compose:
  "tod_hour r * 3600000 + tod_minute r * 60000 + tod_second r * 1000 + tod_milli r = r"
proof -
  have "r div 60000 = 60 * tod_hour r + tod_minute r"
    using mult_div_mod_eq [of 60 "r div 60000"] zdiv_zmult2_eq [of 60 r 60000]
    by (simp add: tod_hour_def tod_minute_def)
  moreover have "r div 1000 = 60 * (r div 60000) + tod_second r"
    using mult_div_mod_eq [of 60 "r div 1000"] zdiv_zmult2_eq [of 60 r 1000]
    by (simp add: tod_second_def)
  moreover have "r = 1000 * (r div 1000) + tod_milli r"
    by (simp add: tod_milli_def)
  ultimately show ?thesis by linarith
qed

lemma iso_year_common: "0 \<le> y \<Longrightarrow> y \<le> 9999 \<Longrightarrow> iso_year y = pad_num 4 y"
  by (simp add: iso_year_def)

lemma iso_date_length:
  "0 \<le> day_year n \<Longrightarrow> day_year n \<le> 9999 \<Longrightarrow> length (iso_date n) = 10"
  using day_month_range [of n] day_date_range [of n] by (simp add: iso_date_def iso_year_common)

lemma parse_day_iso_date:
  assumes "0 \<le> day_year n" "day_year n \<le> 9999"
  shows "parse_day (iso_date n) = Some n"
proof -
  note m = day_month_range [of n] and d = day_date_range [of n]
  have "has_shape (replicate 4 (CHR ''d'') @ ''-'' @ replicate 2 (CHR ''d'') @ ''-'' @ replicate 2 (CHR ''d''))
      (iso_date n)"
    using assms m d
    by (simp add: iso_date_def iso_year_common has_shape_append has_shape_digits has_shape_lit
        del: replicate_Suc append_Cons append_Nil)
  then have "has_shape ''dddd-dd-dd'' (iso_date n)" by (simp add: numeral_eq_Suc)
  moreover have "take 4 (iso_date n) = pad_num 4 (day_year n)"
    "take 2 (drop 5 (iso_date n)) = pad_num 2 (day_month n + 1)"
    "take 2 (drop 8 (iso_date n)) = pad_num 2 (day_date n)"
    using assms m d by (simp_all add: iso_date_def iso_year_common)
  moreover have "make_day (day_year n) (day_month n) (day_date n) = n"
    using make_day_fields [of n 0] by simp
  ultimately show ?thesis
    using assms m d by (simp add: parse_day_def Let_def)
qed

lemma parse_tod_iso_time:
  assumes "0 \<le> r" "r < DAY_MS"
  shows "parse_tod (iso_time r) = Some r"
proof -
  note b = tod_ranges [OF assms]
  have "has_shape (''T'' @ replicate 2 (CHR ''d'') @ '':'' @ replicate 2 (CHR ''d'') @ '':'' @
      replicate 2 (CHR ''d'') @ ''.'' @ replicate 3 (CHR ''d'') @ ''Z'') (iso_time r)"
    using b by (simp add: iso_time_def has_shape_append has_shape_digits has_shape_lit
        del: replicate_Suc append_Cons append_Nil)
  then have "has_shape ''Tdd:dd:dd.dddZ'' (iso_time r)" by (simp add: numeral_eq_Suc)
  moreover have "take 2 (drop 1 (iso_time r)) = pad_num 2 (tod_hour r)"
    "take 2 (drop 4 (iso_time r)) = pad_num 2 (tod_minute r)"
    "take 2 (drop 7 (iso_time r)) = pad_num 2 (tod_second r)"
    "take 3 (drop 10 (iso_time r)) = pad_num 3 (tod_milli r)"
    "length (iso_time r) = 14"
    using b by (simp_all add: iso_time_def)
  moreover have "iso_time r \<noteq> []" by (simp add: iso_time_def)
  ultimately show ?thesis
    using b tod_compose [of r] by (simp add: parse_tod_def Let_def)
qed

lemma parse_to_iso:
  assumes "common_era t"
  shows "parse_date (to_iso t) = Some t"
proof -
  have y: "0 \<le> day_year (day_of t)" "day_year (day_of t) \<le> 9999"
    using assms by (simp_all add: common_era_def utc_full_year_def)
  have "0 \<le> t mod DAY_MS" "t mod DAY_MS < DAY_MS" by simp_all
  then have "parse_tod (iso_time (t mod DAY_MS)) = Some (t mod DAY_MS)"
    by (rule parse_tod_iso_time)
  then show ?thesis
    using y by (simp add: parse_date_def to_iso_def iso_date_length parse_day_iso_date day_of_def)
qed

subsection \<open>Printing keeps the order\<close>

lemma iso_date_mono:
  assumes "m < n" "0 \<le> day_year m" "day_year n \<le> 9999"
  shows "iso_date m < iso_date n"
proof -
  note rm = day_month_range [of m] day_date_range [of m]
  note rn = day_month_range [of n] day_date_range [of n]
  have y: "day_year m \<le> day_year n"
    using assms(1) by (simp add: day_year_def year_from_day_mono)
  have r: "0 \<le> day_year m" "day_year m \<le> 9999" "0 \<le> day_year n" "day_year n \<le> 9999"
    using assms y by linarith+
  consider "day_year m < day_year n"
    | "day_year m = day_year n" "day_month m < day_month n"
    | "day_year m = day_year n" "day_month m = day_month n" "day_date m < day_date n"
  proof -
    have "day_month m \<le> day_month n" if e: "day_year m = day_year n"
      using assms(1) unfolding day_month_def e month_from_yday_def by simp
    moreover have "day_date m < day_date n"
      if "day_year m = day_year n" "day_month m = day_month n"
      using assms(1) that by (simp add: day_date_def)
    ultimately show ?thesis using that y by fastforce
  qed
  then show ?thesis
    using r rm rn
    by cases (simp_all add: iso_date_def iso_year_common append_less_append pad_num_less pad_num_inject)
qed

lemma iso_time_mono:
  assumes "q < r" "0 \<le> q" "r < DAY_MS"
  shows "iso_time q < iso_time r"
proof -
  have bq: "0 \<le> q" "q < DAY_MS" and br: "0 \<le> r" "r < DAY_MS" using assms by simp_all
  note rq = tod_ranges [OF bq] and rr = tod_ranges [OF br]
  note c = tod_compose [of q] tod_compose [of r]
  have "tod_hour q \<le> tod_hour r"
    using assms(1) c rq rr by linarith
  moreover have "tod_minute q \<le> tod_minute r" if "tod_hour q = tod_hour r"
    using assms(1) that c rq rr by linarith
  moreover have "tod_second q \<le> tod_second r"
    if "tod_hour q = tod_hour r" "tod_minute q = tod_minute r"
    using assms(1) that c rq rr by linarith
  moreover have "tod_milli q < tod_milli r"
    if "tod_hour q = tod_hour r" "tod_minute q = tod_minute r" "tod_second q = tod_second r"
    using assms(1) that c by linarith
  ultimately have "tod_hour q < tod_hour r \<or>
      (tod_hour q = tod_hour r \<and> (tod_minute q < tod_minute r \<or>
      (tod_minute q = tod_minute r \<and> (tod_second q < tod_second r \<or>
      (tod_second q = tod_second r \<and> tod_milli q < tod_milli r)))))"
    by (auto simp: le_less)
  then show ?thesis
    using rq rr by (auto simp: iso_time_def append_less_append pad_num_less pad_num_inject)
qed

lemma to_iso_mono:
  assumes "s < t" "common_era s" "common_era t"
  shows "to_iso s < to_iso t"
proof -
  have y: "0 \<le> day_year (day_of s)" "day_year (day_of s) \<le> 9999"
      "0 \<le> day_year (day_of t)" "day_year (day_of t) \<le> 9999"
    using assms by (simp_all add: common_era_def utc_full_year_def)
  consider "day_of s < day_of t" | "day_of s = day_of t" "s mod DAY_MS < t mod DAY_MS"
  proof -
    have "day_of s \<le> day_of t" using assms(1) by (simp add: day_of_def zdiv_mono1)
    moreover have "s mod DAY_MS < t mod DAY_MS" if "day_of s = day_of t"
      using assms(1) that div_mult_mod_eq [of s DAY_MS] div_mult_mod_eq [of t DAY_MS]
      unfolding day_of_def by linarith
    ultimately show ?thesis using that by fastforce
  qed
  then show ?thesis
    using y by cases (simp_all add: to_iso_def append_less_append iso_date_length iso_date_mono iso_time_mono)
qed

lemma to_iso_less_iff:
  "common_era s \<Longrightarrow> common_era t \<Longrightarrow> to_iso s < to_iso t \<longleftrightarrow> s < t"
  by (metis less_asym linorder_neqE_linordered_idom to_iso_mono)

lemma to_iso_inject: "common_era s \<Longrightarrow> common_era t \<Longrightarrow> to_iso s = to_iso t \<longleftrightarrow> s = t"
  by (metis option.inject parse_to_iso)

end
