(* ===== verification/Http.thy ===== *)
theory Http
  imports JsDate Complex_Main
begin

text \<open>
  JSON values, the replies of the HTTP routes and the helpers every route uses
  (\<open>server/src/routes/helpers.ts\<close>), with the pattern \<open>UUID\<close> of \<open>server/src/config.ts\<close>.

  A call of a store yields \<open>Inl message\<close> when the database refuses it or cannot be reached, and
  \<open>Inr value\<close> otherwise; \<open>guard\<close> turns the first into the reply 503.
\<close>

datatype json =
    JNull
  | JBool bool
  | JNum rat
  | JStr string
  | JArr "json list"
  | JObj "(string \<times> json) list"

record reply =
  code :: nat
  payload :: "json option"

text \<open>\<open>Number.isInteger\<close>.\<close>

definition is_integer :: "rat \<Rightarrow> bool" where
  "is_integer q \<longleftrightarrow> of_int \<lfloor>q\<rfloor> = q"

section \<open>\<open>Number\<close> of a string\<close>

text \<open>
  \<open>Number(s)\<close>: \<open>None\<close> is \<open>NaN\<close>, or an infinity, which no caller tells apart from it (all of them ask
  \<open>Number.isInteger\<close> or \<open>Number.isFinite\<close> next). Values are exact; the rounding of a literal with
  more than 17 significant digits is not modelled.
\<close>

definition is_binary :: "char \<Rightarrow> bool" where
  "is_binary c \<longleftrightarrow> c = CHR ''0'' \<or> c = CHR ''1''"

definition is_octal :: "char \<Rightarrow> bool" where
  "is_octal c \<longleftrightarrow> is_digit c \<and> (of_char c :: nat) \<le> 55"

definition hex_val :: "char \<Rightarrow> nat" where
  "hex_val c = (if is_digit c then digit_val c else of_char (lower_char c) - 87)"

definition radix_val :: "nat \<Rightarrow> string \<Rightarrow> nat" where
  "radix_val b s = fold (\<lambda>c n. b * n + hex_val c) s 0"

definition signed :: "string \<Rightarrow> int \<times> string" where
  "signed s = (case s of c # cs \<Rightarrow>
      if c = CHR ''-'' then (- 1, cs) else if c = CHR ''+'' then (1, cs) else (1, s)
    | [] \<Rightarrow> (1, s))"

definition exponent_of :: "string \<Rightarrow> int option" where
  "exponent_of s = (case signed s of (sg, ds) \<Rightarrow>
     if ds \<noteq> [] \<and> list_all is_digit ds then Some (sg * int (digits_val ds)) else None)"

definition scale10 :: "rat \<Rightarrow> int \<Rightarrow> rat" where
  "scale10 q e = (if 0 \<le> e then q * 10 ^ nat e else q / 10 ^ nat (- e))"

definition mantissa_of :: "string \<Rightarrow> rat option" where
  "mantissa_of s = (case split_on (CHR ''.'') s of
      [i] \<Rightarrow> if i \<noteq> [] \<and> list_all is_digit i then Some (of_nat (digits_val i)) else None
    | [i, f] \<Rightarrow> if i @ f \<noteq> [] \<and> list_all is_digit (i @ f)
                then Some (of_nat (digits_val (i @ f)) / 10 ^ length f) else None
    | _ \<Rightarrow> None)"

definition decimal_of :: "string \<Rightarrow> rat option" where
  "decimal_of s =
     (let m = takeWhile (\<lambda>c. c \<noteq> CHR ''e'' \<and> c \<noteq> CHR ''E'') s; r = drop (length m) s in
      case mantissa_of m of None \<Rightarrow> None
      | Some q \<Rightarrow> (case r of [] \<Rightarrow> Some q
                  | _ # ds \<Rightarrow> map_option (scale10 q) (exponent_of ds)))"

definition js_number :: "string \<Rightarrow> rat option" where
  "js_number s =
     (let t = js_trim s; p = js_lower (take 2 t); ds = drop 2 t in
      if t = [] then Some 0
      else if p = ''0x'' then (if ds \<noteq> [] \<and> list_all is_hex_i ds then Some (of_nat (radix_val 16 ds)) else None)
      else if p = ''0o'' then (if ds \<noteq> [] \<and> list_all is_octal ds then Some (of_nat (radix_val 8 ds)) else None)
      else if p = ''0b'' then (if ds \<noteq> [] \<and> list_all is_binary ds then Some (of_nat (radix_val 2 ds)) else None)
      else (case signed t of (sg, u) \<Rightarrow> map_option (\<lambda>q. of_int sg * q) (decimal_of u)))"

section \<open>Bodies and replies\<close>

text \<open>Member access on a parsed object: \<open>None\<close> is \<open>undefined\<close>. Later duplicates win, as in \<open>JSON.parse\<close>.\<close>

definition member_of :: "string \<Rightarrow> (string \<times> json) list \<Rightarrow> json option" where
  "member_of k m = map_of (rev m) k"

definition body :: "json option \<Rightarrow> (string \<times> json) list" where
  "body raw = (case raw of Some (JObj m) \<Rightarrow> m | _ \<Rightarrow> [])"

definition bad :: "string \<Rightarrow> string \<Rightarrow> nat \<Rightarrow> reply" where
  "bad c err st = \<lparr>code = st, payload = Some (JObj [(''error'', JStr err), (''code'', JStr c)])\<rparr>"

abbreviation bad400 :: "string \<Rightarrow> string \<Rightarrow> reply" where
  "bad400 c err \<equiv> bad c err 400"

definition send :: "nat \<Rightarrow> json \<Rightarrow> reply" where
  "send st j = \<lparr>code = st, payload = Some j\<rparr>"

definition guard :: "string + 'a \<Rightarrow> reply + 'a" where
  "guard r = (case r of Inl e \<Rightarrow> Inl (bad ''UNAVAILABLE'' e 503) | Inr v \<Rightarrow> Inr v)"

definition json_opt :: "('a \<Rightarrow> json) \<Rightarrow> 'a option \<Rightarrow> json" where
  "json_opt f x = (case x of None \<Rightarrow> JNull | Some v \<Rightarrow> f v)"

text \<open>\<open>/^[0-9a-f]{8}-[0-9a-f]{4}-[0-9a-f]{4}-[0-9a-f]{4}-[0-9a-f]{12}$/i\<close>: \<open>x\<close> stands for a digit.\<close>

definition is_uuid :: "string \<Rightarrow> bool" where
  "is_uuid s = list_all2 (\<lambda>t c. if t = CHR ''x'' then is_hex_i c else c = t)
     ''xxxxxxxx-xxxx-xxxx-xxxx-xxxxxxxxxxxx'' s"

text \<open>A uuid column holds a 128-bit value; the lower-case text stands for it.\<close>

type_synonym uuid = string

definition uuid_value :: "string \<Rightarrow> uuid" where
  "uuid_value s = js_lower s"

lemma guard_simps [simp]:
  "guard (Inl e) = Inl (bad ''UNAVAILABLE'' e 503)" "guard (Inr v) = Inr v"
  by (simp_all add: guard_def)

lemma code_bad [simp]: "code (bad c e st) = st"
  by (simp add: bad_def)

lemma code_send [simp]: "code (send st j) = st"
  by (simp add: send_def)

lemma list_all2_set: "list_all2 P xs ys \<Longrightarrow> y \<in> set ys \<Longrightarrow> \<exists>x \<in> set xs. P x y"
  by (metis in_set_conv_nth list_all2_conv_all_nth)

text \<open>A uuid is made of hexadecimal digits and dashes.\<close>

lemma is_uuid_chars: "is_uuid s \<Longrightarrow> c \<in> set s \<Longrightarrow> is_hex_i c \<or> c = CHR ''-''"
  unfolding is_uuid_def by (drule (1) list_all2_set) (auto split: if_splits)

lemma is_uuid_length: "is_uuid s \<Longrightarrow> length s = 36"
  unfolding is_uuid_def by (drule list_all2_lengthD) simp

end
