(* ===== verification/JobStore.thy ===== *)
theory JobStore
  imports Http
begin

text \<open>
  The job board's store, \<open>server/src/db/job-store.ts\<close>: each statement of a method is one atomic step
  on the table \<open>job\<close> (a list of rows), an instant of the database is in microseconds, and what the
  database supplies is an argument: \<open>now\<close> for \<open>now()\<close>, the value of \<open>gen_random_uuid()\<close>, and the
  rows other claimers hold locked, which \<open>for update skip locked\<close> passes over. The result of a
  method that the database refuses is \<open>Inl\<close> of its message: a \<open>text\<close> parameter that holds the
  character 0, an \<open>int\<close> parameter out of range, an author that is no account.

  The board built on these statements, its invariants and its fencing are \<open>JobBoard\<close>, \<open>JobFence\<close> and
  \<open>JobLife\<close>.
\<close>

section \<open>The table\<close>

datatype job_status = JQueued | JRunning | JStandby | JSucceeded | JFailed | JDead

record job_row =
  jr_org_id :: string
  jr_id :: uuid
  jr_command :: string
  jr_status :: job_status
  jr_attempts :: int
  jr_max_attempts :: int
  jr_claimed_by :: "string option"
  jr_created_by :: "uuid option"
  jr_lease_token :: "uuid option"
  jr_lease_expires_at :: int
  jr_session_id :: "uuid option"
  jr_remote_session_id :: "string option"
  jr_exit_code :: "int option"
  jr_output :: "string option"
  jr_created_at :: int
  jr_started_at :: "int option"
  jr_finished_at :: "int option"

type_synonym job_table = "job_row list"

text \<open>What a worker may report: \<open>JobOutcome\<close>.\<close>

datatype job_outcome = OSucceeded | OFailed

fun status_of_outcome :: "job_outcome \<Rightarrow> job_status" where
  "status_of_outcome OSucceeded = JSucceeded"
| "status_of_outcome OFailed = JFailed"

datatype lease_result = LOk | LLost | LMissing
datatype resume_result = ROk | RMissing | RConflict

fun status_str :: "job_status \<Rightarrow> string" where
  "status_str JQueued = ''queued''"
| "status_str JRunning = ''running''"
| "status_str JStandby = ''standby''"
| "status_str JSucceeded = ''succeeded''"
| "status_str JFailed = ''failed''"
| "status_str JDead = ''dead''"

text \<open>The parameters PostgreSQL accepts: \<open>text\<close> cannot hold the character 0, \<open>int\<close> has 32 bits.\<close>

definition pg_text :: "string \<Rightarrow> bool" where
  "pg_text s \<longleftrightarrow> CHR 0x00 \<notin> set s"

definition pg_int4 :: "int \<Rightarrow> bool" where
  "pg_int4 i \<longleftrightarrow> -2147483648 \<le> i \<and> i \<le> 2147483647"

abbreviation text_error :: string where
  "text_error \<equiv> ''invalid byte sequence for encoding UTF8: 0x00''"
abbreviation int4_error :: string where
  "int4_error \<equiv> ''value out of range for type integer''"
abbreviation creator_error :: string where
  "creator_error \<equiv> ''insert or update on table job violates foreign key constraint job_creator_fk''"

definition opt_ok :: "('a \<Rightarrow> bool) \<Rightarrow> 'a option \<Rightarrow> bool" where
  "opt_ok p x = (case x of None \<Rightarrow> True | Some v \<Rightarrow> p v)"

section \<open>Rows as the application reads them\<close>

text \<open>\<open>Date.toISOString\<close> of a timestamp: a JavaScript date keeps milliseconds.\<close>

definition iso_us :: "int \<Rightarrow> string" where
  "iso_us t = to_iso (t div 1000)"

record job =
  job_id :: uuid
  job_command :: string
  job_status :: job_status
  job_attempts :: int
  job_maxAttempts :: int
  job_claimedBy :: "string option"
  job_createdBy :: "uuid option"
  job_sessionId :: "uuid option"
  job_remoteSessionId :: "string option"
  job_exitCode :: "int option"
  job_output :: "string option"
  job_createdAt :: string
  job_startedAt :: "string option"
  job_finishedAt :: "string option"

definition to_job :: "job_row \<Rightarrow> job" where
  "to_job row =
     \<lparr>job_id = jr_id row, job_command = jr_command row, job_status = jr_status row,
      job_attempts = jr_attempts row, job_maxAttempts = jr_max_attempts row,
      job_claimedBy = jr_claimed_by row, job_createdBy = jr_created_by row,
      job_sessionId = jr_session_id row, job_remoteSessionId = jr_remote_session_id row,
      job_exitCode = jr_exit_code row, job_output = jr_output row,
      job_createdAt = iso_us (jr_created_at row),
      job_startedAt = map_option iso_us (jr_started_at row),
      job_finishedAt = map_option iso_us (jr_finished_at row)\<rparr>"

record claim =
  cl_id :: uuid
  cl_command :: string
  cl_attempts :: int
  cl_leaseToken :: uuid
  cl_leaseExpiresAt :: string
  cl_userId :: "uuid option"
  cl_workspacePath :: "string option"
  cl_resumeSessionId :: "uuid option"

section \<open>The statements\<close>

definition owned :: "string \<Rightarrow> uuid \<Rightarrow> job_row \<Rightarrow> bool" where
  "owned org i r \<longleftrightarrow> jr_org_id r = org \<and> jr_id r = i"

definition held_under :: "string \<Rightarrow> uuid \<Rightarrow> uuid \<Rightarrow> job_row \<Rightarrow> bool" where
  "held_under org i tok r \<longleftrightarrow> owned org i r \<and> jr_status r = JRunning \<and> jr_lease_token r = Some tok"

definition job_exists :: "string \<Rightarrow> uuid \<Rightarrow> job_table \<Rightarrow> bool" where
  "job_exists org i t = sql_exists (owned org i) t"

definition lost_or_missing :: "string \<Rightarrow> uuid \<Rightarrow> job_table \<Rightarrow> lease_result" where
  "lost_or_missing org i t = (if job_exists org i t then LLost else LMissing)"

text \<open>\<open>insert into job (org_id, command, created_by)\<close>, the other columns at their defaults.\<close>

definition fresh_job :: "string \<Rightarrow> uuid \<Rightarrow> int \<Rightarrow> string \<Rightarrow> uuid option \<Rightarrow> job_row" where
  "fresh_job org i now cmd by =
     \<lparr>jr_org_id = org, jr_id = i, jr_command = cmd, jr_status = JQueued, jr_attempts = 0,
      jr_max_attempts = 3, jr_claimed_by = None, jr_created_by = by, jr_lease_token = None,
      jr_lease_expires_at = now, jr_session_id = None, jr_remote_session_id = None,
      jr_exit_code = None, jr_output = None, jr_created_at = now, jr_started_at = None,
      jr_finished_at = None\<rparr>"

definition job_create ::
  "string \<Rightarrow> uuid set \<Rightarrow> uuid \<Rightarrow> int \<Rightarrow> string \<Rightarrow> uuid option \<Rightarrow> job_table \<Rightarrow> (string + uuid) \<times> job_table"
where
  "job_create org users i now cmd by t =
     (if \<not> pg_text cmd then (Inl text_error, t)
      else if \<not> opt_ok (\<lambda>u. u \<in> users) by then (Inl creator_error, t)
      else (Inr i, t @ [fresh_job org i now cmd by]))"

text \<open>The first statement of a claim retires what has burned its attempts.\<close>

definition exhausted :: "string \<Rightarrow> int \<Rightarrow> job_row \<Rightarrow> bool" where
  "exhausted org now r \<longleftrightarrow> jr_org_id r = org \<and> jr_status r = JRunning
     \<and> jr_lease_expires_at r \<le> now \<and> jr_max_attempts r \<le> jr_attempts r"

definition retire_row :: "int \<Rightarrow> job_row \<Rightarrow> job_row" where
  "retire_row now r = r\<lparr>jr_status := JDead, jr_finished_at := Some now, jr_lease_token := None\<rparr>"

definition retire :: "string \<Rightarrow> int \<Rightarrow> job_table \<Rightarrow> job_table" where
  "retire org now t = sql_update (exhausted org now) (retire_row now) t"

text \<open>The second takes the oldest claimable row no other claimer holds.\<close>

definition claimable :: "string \<Rightarrow> int \<Rightarrow> job_row \<Rightarrow> bool" where
  "claimable org now r \<longleftrightarrow> jr_org_id r = org \<and> jr_status r \<in> {JQueued, JRunning}
     \<and> jr_lease_expires_at r \<le> now \<and> jr_attempts r < jr_max_attempts r"

definition claim_row :: "string \<Rightarrow> uuid \<Rightarrow> int \<Rightarrow> int \<Rightarrow> job_row \<Rightarrow> job_row" where
  "claim_row worker tok now lease r =
     r\<lparr>jr_status := JRunning, jr_claimed_by := Some worker, jr_lease_token := Some tok,
       jr_attempts := jr_attempts r + 1, jr_started_at := Some now,
       jr_session_id := (if jr_status r = JQueued then jr_session_id r else None),
       jr_remote_session_id := (if jr_status r = JQueued then jr_remote_session_id r else None),
       jr_lease_expires_at := now + lease * 1000000\<rparr>"

definition claim_candidates :: "string \<Rightarrow> int \<Rightarrow> (job_row \<Rightarrow> bool) \<Rightarrow> job_table \<Rightarrow> job_row list" where
  "claim_candidates org now locked t =
     sort_key (\<lambda>r. (jr_created_at r, jr_id r)) (filter (\<lambda>r. claimable org now r \<and> \<not> locked r) t)"

definition take_job ::
  "string \<Rightarrow> string \<Rightarrow> uuid \<Rightarrow> int \<Rightarrow> int \<Rightarrow> (job_row \<Rightarrow> bool) \<Rightarrow> job_table \<Rightarrow> job_row option \<times> job_table"
where
  "take_job org worker tok now lease locked t =
     (case claim_candidates org now locked t of
        [] \<Rightarrow> (None, t)
      | r # _ \<Rightarrow> (Some (claim_row worker tok now lease r),
                  sql_update (owned org (jr_id r)) (claim_row worker tok now lease) t))"

definition to_claim :: "string \<Rightarrow> bool \<Rightarrow> uuid \<Rightarrow> job_row \<Rightarrow> claim" where
  "to_claim org hasWorkspaces tok row =
     \<lparr>cl_id = jr_id row, cl_command = jr_command row, cl_attempts = jr_attempts row,
      cl_leaseToken = tok, cl_leaseExpiresAt = iso_us (jr_lease_expires_at row),
      cl_userId = jr_created_by row,
      cl_workspacePath =
        (if hasWorkspaces then map_option (\<lambda>u. org @ ''/'' @ u) (jr_created_by row) else None),
      cl_resumeSessionId = jr_session_id row\<rparr>"

definition job_claim ::
  "string \<Rightarrow> bool \<Rightarrow> string \<Rightarrow> uuid \<Rightarrow> int \<Rightarrow> int \<Rightarrow> (job_row \<Rightarrow> bool) \<Rightarrow> job_table
    \<Rightarrow> (string + claim option) \<times> job_table"
where
  "job_claim org hasWorkspaces worker tok now lease locked t =
     (let t1 = retire org now t in
      if \<not> pg_text worker then (Inl text_error, t1)
      else (case take_job org worker tok now lease locked t1 of
              (row, t2) \<Rightarrow> (Inr (map_option (to_claim org hasWorkspaces tok) row), t2)))"

definition beat_row :: "int \<Rightarrow> int \<Rightarrow> job_row \<Rightarrow> job_row" where
  "beat_row now lease r = r\<lparr>jr_lease_expires_at := now + lease * 1000000\<rparr>"

definition job_heartbeat ::
  "string \<Rightarrow> uuid \<Rightarrow> uuid \<Rightarrow> int \<Rightarrow> int \<Rightarrow> job_table
    \<Rightarrow> (string + lease_result \<times> string option) \<times> job_table"
where
  "job_heartbeat org i tok now lease t =
     (if sql_exists (held_under org i tok) t
      then (Inr (LOk, Some (iso_us (now + lease * 1000000))),
            sql_update (held_under org i tok) (beat_row now lease) t)
      else (Inr (lost_or_missing org i t, None), t))"

definition session_row :: "uuid \<Rightarrow> string option \<Rightarrow> job_row \<Rightarrow> job_row" where
  "session_row s remote r =
     r\<lparr>jr_session_id := Some s,
       jr_remote_session_id := (case remote of None \<Rightarrow> jr_remote_session_id r | Some x \<Rightarrow> Some x)\<rparr>"

definition job_session ::
  "string \<Rightarrow> uuid \<Rightarrow> uuid \<Rightarrow> uuid \<Rightarrow> string option \<Rightarrow> job_table \<Rightarrow> (string + lease_result) \<times> job_table"
where
  "job_session org i tok s remote t =
     (if \<not> opt_ok pg_text remote then (Inl text_error, t)
      else if sql_exists (held_under org i tok) t
      then (Inr LOk, sql_update (held_under org i tok) (session_row s remote) t)
      else (Inr (lost_or_missing org i t), t))"

definition suspend_row :: "int \<Rightarrow> job_row \<Rightarrow> job_row" where
  "suspend_row now r =
     r\<lparr>jr_status := JStandby, jr_lease_token := None, jr_lease_expires_at := now,
       jr_attempts := max (jr_attempts r - 1) 0\<rparr>"

definition job_suspend ::
  "string \<Rightarrow> uuid \<Rightarrow> uuid \<Rightarrow> int \<Rightarrow> job_table \<Rightarrow> (string + lease_result) \<times> job_table"
where
  "job_suspend org i tok now t =
     (if sql_exists (held_under org i tok) t
      then (Inr LOk, sql_update (held_under org i tok) (suspend_row now) t)
      else (Inr (lost_or_missing org i t), t))"

definition on_standby :: "string \<Rightarrow> uuid \<Rightarrow> job_row \<Rightarrow> bool" where
  "on_standby org i r \<longleftrightarrow> owned org i r \<and> jr_status r = JStandby"

definition job_resume :: "string \<Rightarrow> uuid \<Rightarrow> job_table \<Rightarrow> (string + resume_result) \<times> job_table" where
  "job_resume org i t =
     (if sql_exists (on_standby org i) t
      then (Inr ROk, sql_update (on_standby org i) (\<lambda>r. r\<lparr>jr_status := JQueued\<rparr>) t)
      else (Inr (if job_exists org i t then RConflict else RMissing), t))"

definition complete_row ::
  "job_outcome \<Rightarrow> int option \<Rightarrow> string option \<Rightarrow> int \<Rightarrow> job_row \<Rightarrow> job_row"
where
  "complete_row res exitc out now r =
     r\<lparr>jr_status := status_of_outcome res, jr_exit_code := exitc, jr_output := out,
       jr_finished_at := Some now, jr_lease_token := None\<rparr>"

definition job_complete ::
  "string \<Rightarrow> uuid \<Rightarrow> uuid \<Rightarrow> job_outcome \<Rightarrow> int option \<Rightarrow> string option \<Rightarrow> int \<Rightarrow> job_table
    \<Rightarrow> (string + lease_result) \<times> job_table"
where
  "job_complete org i tok res exitc out now t =
     (if \<not> opt_ok pg_int4 exitc then (Inl int4_error, t)
      else if \<not> opt_ok pg_text out then (Inl text_error, t)
      else if sql_exists (held_under org i tok) t
      then (Inr LOk, sql_update (held_under org i tok) (complete_row res exitc out now) t)
      else (Inr (lost_or_missing org i t), t))"

definition job_get :: "string \<Rightarrow> uuid \<Rightarrow> job_table \<Rightarrow> string + job option" where
  "job_get org i t = Inr (map_option to_job (sql_first (owned org i) t))"

text \<open>\<open>order by created_at desc, id limit n\<close>; \<open>output\<close> is not selected, and reads as null.\<close>

definition job_list :: "string \<Rightarrow> job_status option \<Rightarrow> nat \<Rightarrow> job_table \<Rightarrow> string + job list" where
  "job_list org st limit t =
     Inr (map (\<lambda>r. to_job (r\<lparr>jr_output := None\<rparr>))
       (take limit (sort_key (\<lambda>r. (- jr_created_at r, jr_id r))
         (filter (\<lambda>r. jr_org_id r = org \<and> opt_ok (\<lambda>s. jr_status r = s) st) t))))"

end
