(* ===== verification/JobBoard.thy ===== *)
theory JobBoard
  imports JobStore
begin

text \<open>
  The job board as a state machine: the table, the instant, the accounts and the lease tokens handed
  out so far, with one event per SQL statement of \<open>server/src/db/job-store.ts\<close> (a claim is two). An
  event may occur when what the database supplies is as documented: \<open>gen_random_uuid()\<close> yields a value
  not seen before, and time does not run backwards.

  \<open>row_ok\<close> and \<open>board_ok\<close> are the invariants; \<open>row_change\<close> is what an event may do to one row, and
  every statement but the insert is shown to change the table by it, row by row.
\<close>

section \<open>Events\<close>

record board =
  bd_jobs :: job_table
  bd_now :: int
  bd_users :: "uuid set"
  bd_issued :: "uuid set"

datatype job_event =
    ETick int
  | ECreate string uuid string "uuid option"
  | ERetire string
  | ETake string string uuid int "job_row \<Rightarrow> bool"
  | EBeat string uuid uuid int
  | ESession string uuid uuid uuid "string option"
  | ESuspend string uuid uuid
  | EResume string uuid
  | EComplete string uuid uuid job_outcome "int option" "string option"

fun board_apply :: "job_event \<Rightarrow> board \<Rightarrow> board" where
  "board_apply (ETick d) b = b\<lparr>bd_now := bd_now b + d\<rparr>"
| "board_apply (ECreate org i cmd by) b =
     b\<lparr>bd_jobs := snd (job_create org (bd_users b) i (bd_now b) cmd by (bd_jobs b))\<rparr>"
| "board_apply (ERetire org) b = b\<lparr>bd_jobs := retire org (bd_now b) (bd_jobs b)\<rparr>"
| "board_apply (ETake org worker tok lease locked) b =
     b\<lparr>bd_jobs := snd (take_job org worker tok (bd_now b) lease locked (bd_jobs b)),
       bd_issued := insert tok (bd_issued b)\<rparr>"
| "board_apply (EBeat org i tok lease) b =
     b\<lparr>bd_jobs := snd (job_heartbeat org i tok (bd_now b) lease (bd_jobs b))\<rparr>"
| "board_apply (ESession org i tok s remote) b =
     b\<lparr>bd_jobs := snd (job_session org i tok s remote (bd_jobs b))\<rparr>"
| "board_apply (ESuspend org i tok) b =
     b\<lparr>bd_jobs := snd (job_suspend org i tok (bd_now b) (bd_jobs b))\<rparr>"
| "board_apply (EResume org i) b = b\<lparr>bd_jobs := snd (job_resume org i (bd_jobs b))\<rparr>"
| "board_apply (EComplete org i tok res x out) b =
     b\<lparr>bd_jobs := snd (job_complete org i tok res x out (bd_now b) (bd_jobs b))\<rparr>"

fun event_ok :: "job_event \<Rightarrow> board \<Rightarrow> bool" where
  "event_ok (ETick d) b = (0 \<le> d)"
| "event_ok (ECreate org i cmd by) b = (\<not> list_ex (\<lambda>r. jr_id r = i) (bd_jobs b))"
| "event_ok (ETake org worker tok lease locked) b = (tok \<notin> bd_issued b \<and> 0 \<le> lease)"
| "event_ok (EBeat org i tok lease) b = (0 \<le> lease)"
| "event_ok e b = True"

inductive board_step :: "board \<Rightarrow> board \<Rightarrow> bool" where
  event: "event_ok e b \<Longrightarrow> board_step b (board_apply e b)"

definition empty_board :: "uuid set \<Rightarrow> int \<Rightarrow> board" where
  "empty_board users now = \<lparr>bd_jobs = [], bd_now = now, bd_users = users, bd_issued = {}\<rparr>"

inductive board_reach :: "board \<Rightarrow> bool" where
  start: "board_reach (empty_board users now)"
| step: "board_reach b \<Longrightarrow> board_step b b' \<Longrightarrow> board_reach b'"

fun board_run :: "job_event list \<Rightarrow> board \<Rightarrow> board" where
  "board_run [] b = b"
| "board_run (e # es) b = board_run es (board_apply e b)"

fun run_ok :: "job_event list \<Rightarrow> board \<Rightarrow> bool" where
  "run_ok [] b = True"
| "run_ok (e # es) b = (event_ok e b \<and> run_ok es (board_apply e b))"

inductive_cases board_stepE: "board_step b b'"

lemma reach_run: "run_ok es b \<Longrightarrow> board_reach b \<Longrightarrow> board_reach (board_run es b)"
  by (induction es arbitrary: b) (auto intro: board_reach.step board_step.event)

lemma steps_run: "run_ok es b \<Longrightarrow> board_step\<^sup>*\<^sup>* b (board_run es b)"
proof (induction es arbitrary: b)
  case (Cons e es)
  then have "board_step b (board_apply e b)" "board_step\<^sup>*\<^sup>* (board_apply e b) (board_run es (board_apply e b))"
    by (auto intro: board_step.event)
  then show ?case by (simp add: converse_rtranclp_into_rtranclp)
qed simp

text \<open>A claim is its two statements in this order, with no event between them.\<close>

lemma claim_is_retire_take:
  "pg_text worker \<Longrightarrow>
   snd (job_claim org ws worker tok (bd_now b) lease locked (bd_jobs b)) =
   bd_jobs (board_run [ERetire org, ETake org worker tok lease locked] b)"
  by (simp add: job_claim_def Let_def split: prod.splits)

section \<open>The row invariant\<close>

definition row_ok :: "job_row \<Rightarrow> bool" where
  "row_ok r \<longleftrightarrow>
     (jr_lease_token r \<noteq> None \<longleftrightarrow> jr_status r = JRunning) \<and>
     0 \<le> jr_attempts r \<and> jr_attempts r \<le> jr_max_attempts r \<and>
     (jr_status r = JRunning \<longrightarrow> 1 \<le> jr_attempts r \<and> jr_claimed_by r \<noteq> None \<and> jr_started_at r \<noteq> None) \<and>
     (jr_status r \<in> {JQueued, JStandby} \<longrightarrow> jr_attempts r < jr_max_attempts r) \<and>
     (jr_finished_at r \<noteq> None \<longleftrightarrow> jr_status r \<in> {JSucceeded, JFailed, JDead}) \<and>
     (jr_status r \<notin> {JSucceeded, JFailed} \<longrightarrow> jr_exit_code r = None \<and> jr_output r = None) \<and>
     (jr_remote_session_id r \<noteq> None \<longrightarrow> jr_session_id r \<noteq> None)"

definition terminal :: "job_row \<Rightarrow> bool" where
  "terminal r \<longleftrightarrow> jr_status r \<in> {JSucceeded, JFailed, JDead}"

lemmas row_defs = row_ok_def terminal_def held_under_def owned_def on_standby_def exhausted_def
  claimable_def retire_row_def claim_row_def beat_row_def session_row_def suspend_row_def
  complete_row_def

lemma row_ok_fresh: "row_ok (fresh_job org i now cmd by)"
  by (simp add: fresh_job_def row_ok_def)

lemma row_ok_retire: "row_ok r \<Longrightarrow> exhausted org now r \<Longrightarrow> row_ok (retire_row now r)"
  by (simp add: row_defs)

lemma row_ok_claim: "row_ok r \<Longrightarrow> claimable org now r \<Longrightarrow> row_ok (claim_row w tok now lease r)"
  by (auto simp: row_defs)

lemma row_ok_beat: "row_ok r \<Longrightarrow> row_ok (beat_row now lease r)"
  by (simp add: row_defs)

lemma row_ok_session: "row_ok r \<Longrightarrow> row_ok (session_row s remote r)"
  by (simp add: row_defs)

lemma row_ok_suspend: "row_ok r \<Longrightarrow> held_under org i tok r \<Longrightarrow> row_ok (suspend_row now r)"
  by (auto simp: row_defs)

lemma row_ok_resume: "row_ok r \<Longrightarrow> on_standby org i r \<Longrightarrow> row_ok (r\<lparr>jr_status := JQueued\<rparr>)"
  by (simp add: row_defs)

lemma row_ok_complete: "row_ok r \<Longrightarrow> held_under org i tok r \<Longrightarrow> row_ok (complete_row res x out now r)"
  by (cases res) (auto simp: row_defs)

lemmas row_ok_ops = row_ok_retire row_ok_claim row_ok_beat row_ok_session row_ok_suspend
  row_ok_resume row_ok_complete

section \<open>What the statements do to the table\<close>

lemma candidates_hd:
  assumes "claim_candidates org now locked t = r # rs"
  shows "r \<in> set t" "claimable org now r" "\<not> locked r"
  using sort_key_hd_mem [OF assms [unfolded claim_candidates_def]] by auto

lemma candidates_oldest:
  assumes "claim_candidates org now locked t = r # rs"
    and "q \<in> set t" "claimable org now q" "\<not> locked q"
  shows "(jr_created_at r, jr_id r) \<le> (jr_created_at q, jr_id q)"
  using sort_key_hd_le [OF assms(1) [unfolded claim_candidates_def], of q] assms by auto

lemma candidates_Nil:
  "claim_candidates org now locked t = [] \<longleftrightarrow> (\<forall>r \<in> set t. claimable org now r \<longrightarrow> locked r)"
  by (auto simp: claim_candidates_def filter_empty_conv)

text \<open>
  Every statement but the insert rewrites rows in place: row by row, the new row is the old one or
  the image under the statement's assignment of a row its \<open>where\<close> clause selects.
\<close>

inductive row_change :: "board \<Rightarrow> job_event \<Rightarrow> job_row \<Rightarrow> job_row \<Rightarrow> bool" for b where
  same: "row_change b e r r"
| retired: "exhausted org (bd_now b) r \<Longrightarrow> row_change b (ERetire org) r (retire_row (bd_now b) r)"
| taken: "claim_candidates org (bd_now b) locked (bd_jobs b) = r # rs \<Longrightarrow>
    row_change b (ETake org w tok lease locked) r (claim_row w tok (bd_now b) lease r)"
| beaten: "held_under org i tok r \<Longrightarrow>
    row_change b (EBeat org i tok lease) r (beat_row (bd_now b) lease r)"
| reported: "held_under org i tok r \<Longrightarrow> row_change b (ESession org i tok s remote) r (session_row s remote r)"
| parked: "held_under org i tok r \<Longrightarrow> row_change b (ESuspend org i tok) r (suspend_row (bd_now b) r)"
| resumed: "on_standby org i r \<Longrightarrow> row_change b (EResume org i) r (r\<lparr>jr_status := JQueued\<rparr>)"
| completed: "held_under org i tok r \<Longrightarrow>
    row_change b (EComplete org i tok res x out) r (complete_row res x out (bd_now b) r)"

definition row_key :: "job_row \<Rightarrow> string \<times> uuid" where
  "row_key r = (jr_org_id r, jr_id r)"

definition keys_unique :: "job_table \<Rightarrow> bool" where
  "keys_unique t \<longleftrightarrow> distinct (map row_key t)"

lemma key_kept [simp]:
  "row_key (retire_row now r) = row_key r" "row_key (claim_row w tok now lease r) = row_key r"
  "row_key (beat_row now lease r) = row_key r" "row_key (session_row s remote r) = row_key r"
  "row_key (suspend_row now r) = row_key r" "row_key (complete_row res x out now r) = row_key r"
  "row_key (r\<lparr>jr_status := st\<rparr>) = row_key r"
  by (simp_all add: row_key_def row_defs)

lemma owned_key: "owned org i r \<longleftrightarrow> row_key r = (org, i)"
  by (auto simp: owned_def row_key_def)

lemma sql_update_pointwise:
  "list_all2 (\<lambda>r r'. r' = r \<or> p r \<and> r' = f r) t (sql_update p f t)"
  by (auto simp: sql_update_def list_all2_conv_all_nth)

lemma sql_update_change:
  assumes "\<And>r. r \<in> set t \<Longrightarrow> p r \<Longrightarrow> row_change b e r (f r)"
  shows "list_all2 (row_change b e) t (sql_update p f t)"
  using assms by (auto simp: sql_update_def list_all2_conv_all_nth intro: row_change.same)

lemma all_same: "list_all2 (row_change b e) t t"
  by (simp add: list_all2_refl row_change.same)

text \<open>A take rewrites exactly the row it picked, because the key is unique.\<close>

lemma take_job_change:
  assumes "keys_unique (bd_jobs b)"
  shows "list_all2 (row_change b (ETake org w tok lease locked)) (bd_jobs b)
     (snd (take_job org w tok (bd_now b) lease locked (bd_jobs b)))"
proof (cases "claim_candidates org (bd_now b) locked (bd_jobs b)")
  case Nil
  then show ?thesis by (simp add: take_job_def all_same)
next
  case (Cons r rs)
  note hd = candidates_hd [OF Cons]
  have one: "q = r" if "q \<in> set (bd_jobs b)" "owned org (jr_id r) q" for q
  proof -
    have "row_key q = row_key r"
      using that(2) hd(2) by (simp add: owned_key row_key_def claimable_def)
    then show ?thesis using distinct_key_unique that(1) hd(1) assms unfolding keys_unique_def by metis
  qed
  have "row_change b (ETake org w tok lease locked) q (claim_row w tok (bd_now b) lease q)"
    if "q \<in> set (bd_jobs b)" "owned org (jr_id r) q" for q
    using one [OF that] row_change.taken [OF Cons] by simp
  then show ?thesis
    using Cons by (auto simp: take_job_def intro!: sql_update_change)
qed

lemma apply_change:
  assumes "keys_unique (bd_jobs b)" "\<And>org i cmd by. e \<noteq> ECreate org i cmd by"
  shows "list_all2 (row_change b e) (bd_jobs b) (bd_jobs (board_apply e b))"
proof (cases e)
  case (ETake org w tok lease locked)
  then show ?thesis using take_job_change [OF assms(1)] by simp
next
  case (ERetire org)
  then show ?thesis by (auto simp: retire_def intro!: sql_update_change row_change.retired)
next
  case (EBeat org i tok lease)
  then show ?thesis
    by (auto simp: job_heartbeat_def all_same intro!: sql_update_change row_change.beaten)
next
  case (ESession org i tok s remote)
  then show ?thesis
    by (auto simp: job_session_def all_same intro!: sql_update_change row_change.reported)
next
  case (ESuspend org i tok)
  then show ?thesis
    by (auto simp: job_suspend_def all_same intro!: sql_update_change row_change.parked)
next
  case (EResume org i)
  then show ?thesis
    by (auto simp: job_resume_def all_same intro!: sql_update_change row_change.resumed)
next
  case (EComplete org i tok res x out)
  then show ?thesis
    by (auto simp: job_complete_def all_same intro!: sql_update_change row_change.completed)
qed (use assms(2) in \<open>auto simp: all_same\<close>)

lemma create_jobs:
  "bd_jobs (board_apply (ECreate org i cmd by) b) = bd_jobs b \<or>
   bd_jobs (board_apply (ECreate org i cmd by) b) = bd_jobs b @ [fresh_job org i (bd_now b) cmd by]"
  by (simp add: job_create_def)

lemma row_change_key: "row_change b e r r' \<Longrightarrow> row_key r' = row_key r"
  by (induction rule: row_change.induct) simp_all

lemma row_change_ok: "row_change b e r r' \<Longrightarrow> row_ok r \<Longrightarrow> row_ok r'"
  by (induction rule: row_change.induct) (auto dest: candidates_hd(2) simp: row_ok_ops)

lemma row_change_terminal: "row_change b e r r' \<Longrightarrow> terminal r \<Longrightarrow> r' = r"
  by (induction rule: row_change.induct) (auto dest!: candidates_hd(2) simp: row_defs)

text \<open>Tokens only come from a take, and that hands its token to one row.\<close>

fun token_of :: "job_event \<Rightarrow> uuid option" where
  "token_of (ETake org w tok lease locked) = Some tok"
| "token_of e = None"

lemma row_change_token:
  "row_change b e r r' \<Longrightarrow> jr_lease_token r' = Some k \<Longrightarrow>
   jr_lease_token r = Some k \<or> token_of e = Some k \<and> r' \<noteq> r"
  by (induction rule: row_change.induct)
    (auto simp: row_defs split: if_splits dest: arg_cong [where f = jr_attempts])

lemma row_change_taken:
  "row_change b e r r' \<Longrightarrow> row_change b e q q' \<Longrightarrow> token_of e = Some k \<Longrightarrow>
   jr_lease_token r \<noteq> Some k \<Longrightarrow> jr_lease_token q \<noteq> Some k \<Longrightarrow>
   jr_lease_token r' = Some k \<Longrightarrow> jr_lease_token q' = Some k \<Longrightarrow> r' = q'"
  by (auto elim!: row_change.cases)

section \<open>The board invariant\<close>

definition board_ok :: "board \<Rightarrow> bool" where
  "board_ok b \<longleftrightarrow> keys_unique (bd_jobs b) \<and> list_all row_ok (bd_jobs b) \<and>
     (\<forall>r k. r \<in> set (bd_jobs b) \<longrightarrow> jr_lease_token r = Some k \<longrightarrow> k \<in> bd_issued b) \<and>
     (\<forall>r q k. r \<in> set (bd_jobs b) \<longrightarrow> q \<in> set (bd_jobs b) \<longrightarrow>
        jr_lease_token r = Some k \<longrightarrow> jr_lease_token q = Some k \<longrightarrow> r = q)"

lemma board_okI_change:
  assumes ok: "board_ok b" and e: "event_ok e b"
    and ch: "list_all2 (row_change b e) (bd_jobs b) t'"
    and iss: "issued' = bd_issued b \<union> set_option (token_of e)"
  shows "board_ok (b'\<lparr>bd_jobs := t', bd_issued := issued'\<rparr>)"
proof -
  let ?t = "bd_jobs b"
  have src: "\<exists>r \<in> set ?t. row_change b e r r'" if "r' \<in> set t'" for r'
    using list_all2_set [OF ch that] by blast
  have keys: "map row_key t' = map row_key ?t"
    using ch by (induction rule: list_all2_induct) (auto dest: row_change_key)
  have new: "k \<notin> bd_issued b" if "token_of e = Some k" for k
    using e that by (cases e) auto
  have rows: "list_all row_ok t'"
    using src ok by (fastforce simp: board_ok_def list_all_iff dest: row_change_ok)
  have tok: "k \<in> issued'" if "r' \<in> set t'" "jr_lease_token r' = Some k" for r' k
    using src [OF that(1)] that(2) ok unfolding iss board_ok_def by (auto dest!: row_change_token)
  have uniq: "r' = q'"
    if r': "r' \<in> set t'" "jr_lease_token r' = Some k" and q': "q' \<in> set t'" "jr_lease_token q' = Some k"
    for r' q' k
  proof -
    obtain r q where r: "r \<in> set ?t" "row_change b e r r'" and q: "q \<in> set ?t" "row_change b e q q'"
      using src r'(1) q'(1) by blast
    show ?thesis
    proof (cases "token_of e = Some k")
      case True
      then have "jr_lease_token r \<noteq> Some k" "jr_lease_token q \<noteq> Some k"
        using new r(1) q(1) ok by (auto simp: board_ok_def)
      with row_change_taken [OF r(2) q(2) True] r' q' show ?thesis by blast
    next
      case False
      then have "r = q" using row_change_token [OF r(2) r'(2)] row_change_token [OF q(2) q'(2)] r(1) q(1) ok
        unfolding board_ok_def by blast
      then have "row_key r' = row_key q'" using r(2) q(2) by (simp add: row_change_key)
      moreover have "distinct (map row_key t')" using keys ok by (simp add: board_ok_def keys_unique_def)
      ultimately show ?thesis using distinct_key_unique r'(1) q'(1) by metis
    qed
  qed
  show ?thesis
    using keys rows tok uniq ok unfolding board_ok_def keys_unique_def by auto
qed

lemma apply_issued: "bd_issued (board_apply e b) = bd_issued b \<union> set_option (token_of e)"
  by (cases e) auto

lemma board_ok_apply: "board_ok b \<Longrightarrow> event_ok e b \<Longrightarrow> board_ok (board_apply e b)"
proof -
  assume ok: "board_ok b" and e: "event_ok e b"
  show ?thesis
  proof (cases "\<exists>org i cmd by. e = ECreate org i cmd by")
    case True
    then obtain org i cmd by' where E: "e = ECreate org i cmd by'" by blast
    have new: "(org, i) \<notin> row_key ` set (bd_jobs b)"
      using e unfolding E by (auto simp: list_ex_iff row_key_def)
    have f: "row_key (fresh_job org i (bd_now b) cmd by') = (org, i)"
      "jr_lease_token (fresh_job org i (bd_now b) cmd by') = None"
      by (simp_all add: fresh_job_def row_key_def)
    show ?thesis
      using create_jobs [of org i cmd by' b] ok new f
      unfolding E board_ok_def keys_unique_def by (auto simp: row_ok_fresh)
  next
    case False
    have ch: "list_all2 (row_change b e) (bd_jobs b) (bd_jobs (board_apply e b))"
      using ok False by (intro apply_change) (auto simp: board_ok_def)
    have "board_ok ((board_apply e b)\<lparr>bd_jobs := bd_jobs (board_apply e b),
        bd_issued := bd_issued (board_apply e b)\<rparr>)"
      by (rule board_okI_change [OF ok e ch apply_issued])
    then show ?thesis by simp
  qed
qed

lemma board_ok_empty: "board_ok (empty_board users now)"
  by (simp add: board_ok_def keys_unique_def empty_board_def)

lemma board_ok_step: "board_step b b' \<Longrightarrow> board_ok b \<Longrightarrow> board_ok b'"
  by (induction rule: board_step.induct) (rule board_ok_apply)

lemma board_ok_reach: "board_reach b \<Longrightarrow> board_ok b"
  by (induction rule: board_reach.induct) (auto intro: board_ok_empty board_ok_step)

end
