(* ===== verification/JobFence.thy ===== *)
theory JobFence
  imports JobBoard
begin

text \<open>
  What a store whose writes are guarded by a lease token owes its workers, as a locale
  (\<open>fenced_store\<close>), and the job board as its interpretation: once a claim's token has lost its job,
  no write under it is accepted again, and none changes the board.
\<close>

section \<open>Fencing\<close>

text \<open>
  What a store whose writes are guarded by a lease token owes its workers. \<open>holds s k\<close>: some job is
  held under token \<open>k\<close>; \<open>issued s\<close>: the tokens handed out so far; \<open>guarded w s k\<close>: the state after the
  write \<open>w\<close> under token \<open>k\<close>, and whether it was accepted. A token that has lost its job never gets a
  write accepted again, whatever happens in between.
\<close>

locale fenced_store =
  fixes step :: "'s \<Rightarrow> 's \<Rightarrow> bool"
    and holds :: "'s \<Rightarrow> 'k \<Rightarrow> bool"
    and issued :: "'s \<Rightarrow> 'k set"
    and guarded :: "'w \<Rightarrow> 's \<Rightarrow> 'k \<Rightarrow> bool \<times> 's"
  assumes issued_mono: "step s s' \<Longrightarrow> issued s \<subseteq> issued s'"
    and holds_new: "step s s' \<Longrightarrow> holds s' k \<Longrightarrow> holds s k \<or> k \<notin> issued s"
    and refused: "\<not> holds s k \<Longrightarrow> guarded w s k = (False, s)"
begin

lemma superseded_steps:
  "step\<^sup>*\<^sup>* s s' \<Longrightarrow> k \<in> issued s \<Longrightarrow> \<not> holds s k \<Longrightarrow> k \<in> issued s' \<and> \<not> holds s' k"
proof (induction rule: rtranclp_induct)
  case base
  then show ?case by simp
next
  case (step t u)
  then show ?case using issued_mono holds_new by blast
qed

lemma superseded_refused:
  "step\<^sup>*\<^sup>* s s' \<Longrightarrow> k \<in> issued s \<Longrightarrow> \<not> holds s k \<Longrightarrow> guarded w s' k = (False, s')"
  using superseded_steps refused by blast

end

text \<open>A worker's write on the board: heartbeat, session, suspend and complete.\<close>

datatype worker_write =
    WBeat string uuid int
  | WSession string uuid uuid "string option"
  | WSuspend string uuid
  | WComplete string uuid job_outcome "int option" "string option"

fun write_event :: "worker_write \<Rightarrow> uuid \<Rightarrow> job_event" where
  "write_event (WBeat org i lease) k = EBeat org i k lease"
| "write_event (WSession org i x remote) k = ESession org i k x remote"
| "write_event (WSuspend org i) k = ESuspend org i k"
| "write_event (WComplete org i res x out) k = EComplete org i k res x out"

fun write_accepted :: "worker_write \<Rightarrow> board \<Rightarrow> uuid \<Rightarrow> bool" where
  "write_accepted (WBeat org i lease) b k =
     (\<exists>x. fst (job_heartbeat org i k (bd_now b) lease (bd_jobs b)) = Inr (LOk, x))"
| "write_accepted (WSession org i x remote) b k =
     (fst (job_session org i k x remote (bd_jobs b)) = Inr LOk)"
| "write_accepted (WSuspend org i) b k = (fst (job_suspend org i k (bd_now b) (bd_jobs b)) = Inr LOk)"
| "write_accepted (WComplete org i res x out) b k =
     (fst (job_complete org i k res x out (bd_now b) (bd_jobs b)) = Inr LOk)"

definition board_write :: "worker_write \<Rightarrow> board \<Rightarrow> uuid \<Rightarrow> bool \<times> board" where
  "board_write w b k = (write_accepted w b k, board_apply (write_event w k) b)"

definition board_holds :: "board \<Rightarrow> uuid \<Rightarrow> bool" where
  "board_holds b k \<longleftrightarrow> sql_exists (\<lambda>r. jr_status r = JRunning \<and> jr_lease_token r = Some k) (bd_jobs b)"

text \<open>Steps of the board that satisfy its invariant; the reachable boards take no others.\<close>

definition sound_step :: "board \<Rightarrow> board \<Rightarrow> bool" where
  "sound_step b b' \<longleftrightarrow> board_ok b \<and> board_step b b'"

lemma not_held: "\<not> board_holds b k \<Longrightarrow> \<not> sql_exists (held_under org i k) (bd_jobs b)"
  by (auto simp: board_holds_def sql_exists_iff held_under_def)

lemma lost_or_missing_not_ok [simp]: "lost_or_missing org i t \<noteq> LOk"
  by (simp add: lost_or_missing_def)

lemma write_refused: "\<not> board_holds b k \<Longrightarrow> board_write w b k = (False, b)"
  using not_held [of b k]
  by (cases w) (simp_all add: board_write_def job_heartbeat_def job_session_def job_suspend_def
      job_complete_def)

lemma running_if_token:
  "board_ok b \<Longrightarrow> r \<in> set (bd_jobs b) \<Longrightarrow> jr_lease_token r = Some k \<Longrightarrow> jr_status r = JRunning"
  by (auto simp: board_ok_def list_all_iff row_ok_def)

lemma board_holdsI:
  "board_ok b \<Longrightarrow> r \<in> set (bd_jobs b) \<Longrightarrow> jr_lease_token r = Some k \<Longrightarrow> board_holds b k"
  using running_if_token [of b r k] unfolding board_holds_def sql_exists_iff by blast

lemma fresh_no_token: "jr_lease_token (fresh_job org i now cmd u) = None"
  by (simp add: fresh_job_def)

lemma token_new: "event_ok e b \<Longrightarrow> token_of e = Some k \<Longrightarrow> k \<notin> bd_issued b"
  by (cases e) auto

lemma holds_new_event:
  assumes ok: "board_ok b" and e: "event_ok e b" and h: "board_holds (board_apply e b) k"
  shows "board_holds b k \<or> k \<notin> bd_issued b"
proof -
  obtain r' where r': "r' \<in> set (bd_jobs (board_apply e b))" "jr_lease_token r' = Some k"
    using h by (auto simp: board_holds_def sql_exists_iff)
  show ?thesis
  proof (cases "\<exists>org i cmd by. e = ECreate org i cmd by")
    case True
    then obtain org i cmd u where E: "e = ECreate org i cmd u" by blast
    have "r' \<noteq> fresh_job org i (bd_now b) cmd u" using r'(2) fresh_no_token by auto
    then have "r' \<in> set (bd_jobs b)"
      using create_jobs [of org i cmd u b] r'(1) unfolding E by (auto simp del: board_apply.simps)
    then show ?thesis using r'(2) board_holdsI [OF ok] by simp
  next
    case False
    then have ch: "list_all2 (row_change b e) (bd_jobs b) (bd_jobs (board_apply e b))"
      using ok by (intro apply_change) (auto simp: board_ok_def)
    obtain r where r: "r \<in> set (bd_jobs b)" "row_change b e r r'"
      using list_all2_set [OF ch r'(1)] by blast
    from row_change_token [OF r(2) r'(2)] show ?thesis
      using board_holdsI [OF ok r(1)] token_new [OF e] by auto
  qed
qed

lemma holds_new_step:
  "sound_step b b' \<Longrightarrow> board_holds b' k \<Longrightarrow> board_holds b k \<or> k \<notin> bd_issued b"
  unfolding sound_step_def using holds_new_event by (auto elim!: board_stepE)

interpretation fence: fenced_store sound_step board_holds bd_issued board_write
proof unfold_locales
  show "bd_issued s \<subseteq> bd_issued s'" if "sound_step s s'" for s s'
    using that by (auto simp: sound_step_def apply_issued elim!: board_stepE)
qed (auto intro: write_refused dest: holds_new_step)

lemma sound_steps:
  assumes "board_step\<^sup>*\<^sup>* b b'" "board_ok b"
  shows "sound_step\<^sup>*\<^sup>* b b' \<and> board_ok b'"
  using assms
proof (induction rule: rtranclp_induct)
  case base
  then show ?case by simp
next
  case (step c d)
  then have c: "sound_step\<^sup>*\<^sup>* b c" "board_ok c" by simp_all
  with step have "sound_step c d" "board_ok d"
    using board_ok_step by (simp_all add: sound_step_def)
  with c show ?case by (meson rtranclp.rtrancl_into_rtrancl)
qed

end
