(* ===== verification/JobLife.thy ===== *)
theory JobLife
  imports JobBoard
begin

text \<open>
  The abstract life of one job (\<open>phase_step\<close>), which every statement of the board follows, and the
  account of its attempts over a run: the claims less the parkings.
\<close>

section \<open>The abstract life of a job\<close>

text \<open>
  What a job is to its callers: waiting or parked with the attempts it has used, held under a
  token, or ended. \<open>phase_step m\<close> is the protocol for a job that may be tried \<open>m\<close> times.
\<close>

datatype phase = PWaiting nat | PHeld uuid nat | PParked nat | PEnded job_status

inductive phase_step :: "nat \<Rightarrow> phase \<Rightarrow> phase \<Rightarrow> bool" for m where
  stutter: "phase_step m p p"
| lease: "n < m \<Longrightarrow> phase_step m (PWaiting n) (PHeld k (Suc n))"
| release: "n < m \<Longrightarrow> phase_step m (PHeld k n) (PHeld k' (Suc n))"
| give_up: "m \<le> n \<Longrightarrow> phase_step m (PHeld k n) (PEnded JDead)"
| park: "phase_step m (PHeld k (Suc n)) (PParked n)"
| unpark: "phase_step m (PParked n) (PWaiting n)"
| finish: "phase_step m (PHeld k n) (PEnded (status_of_outcome res))"

inductive_simps ended_step: "phase_step m (PEnded st) p"

definition phase_of :: "job_row \<Rightarrow> phase" where
  "phase_of r =
     (case jr_status r of
        JQueued \<Rightarrow> PWaiting (nat (jr_attempts r))
      | JRunning \<Rightarrow> PHeld (case jr_lease_token r of Some k \<Rightarrow> k | None \<Rightarrow> []) (nat (jr_attempts r))
      | JStandby \<Rightarrow> PParked (nat (jr_attempts r))
      | st \<Rightarrow> PEnded st)"

lemma phase_of_keep:
  "jr_status r' = jr_status r \<Longrightarrow> jr_lease_token r' = jr_lease_token r \<Longrightarrow>
   jr_attempts r' = jr_attempts r \<Longrightarrow> phase_of r' = phase_of r"
  by (cases "jr_status r") (simp_all add: phase_of_def)

lemma row_change_phase:
  assumes "row_change b e r r'" "row_ok r"
  shows "phase_step (nat (jr_max_attempts r)) (phase_of r) (phase_of r')"
  using assms
proof (induction rule: row_change.induct)
  case (same e r)
  show ?case by (rule phase_step.stutter)
next
  case (retired org r)
  then show ?case
    by (auto simp: phase_of_def row_defs intro!: phase_step.give_up)
next
  case (taken org locked r rs w tok lease)
  note hd = candidates_hd(2) [OF taken(1)]
  have n: "nat (jr_attempts r + 1) = Suc (nat (jr_attempts r))"
    and m: "nat (jr_attempts r) < nat (jr_max_attempts r)"
    using taken(2) hd by (auto simp: row_defs)
  from hd have "jr_status r = JQueued \<or> jr_status r = JRunning" by (simp add: claimable_def)
  then show ?case
    using n phase_step.lease [OF m] phase_step.release [OF m] by (auto simp: phase_of_def claim_row_def)
next
  case (parked org i tok r)
  then have "nat (jr_attempts r) = Suc (nat (max (jr_attempts r - 1) 0))"
    by (auto simp: row_defs)
  with parked show ?case
    by (auto simp: phase_of_def held_under_def suspend_row_def intro: phase_step.park)
next
  case (completed org i tok r res x out)
  then show ?case
    using phase_step.finish [of _ tok _ res]
    by (cases res) (auto simp: phase_of_def held_under_def complete_row_def)
next
  case (beaten org i tok r lease)
  have "phase_of (beat_row (bd_now b) lease r) = phase_of r"
    by (rule phase_of_keep) (simp_all add: beat_row_def)
  then show ?case by (simp add: phase_step.stutter)
next
  case (reported org i tok r sid remote)
  have "phase_of (session_row sid remote r) = phase_of r"
    by (rule phase_of_keep) (simp_all add: session_row_def)
  then show ?case by (simp add: phase_step.stutter)
next
  case (resumed org i r)
  then show ?case by (simp add: phase_of_def on_standby_def phase_step.unpark)
qed

section \<open>Attempts\<close>

text \<open>The claims and the parkings of one job over a run; their difference is its attempts.\<close>

definition row_of :: "string \<times> uuid \<Rightarrow> job_table \<Rightarrow> job_row option" where
  "row_of k t = sql_first (\<lambda>r. row_key r = k) t"

definition claimed_by_event :: "string \<times> uuid \<Rightarrow> job_event \<Rightarrow> board \<Rightarrow> bool" where
  "claimed_by_event k e b =
     (case e of
        ETake org w tok lease locked \<Rightarrow>
          (case claim_candidates org (bd_now b) locked (bd_jobs b) of [] \<Rightarrow> False | r # _ \<Rightarrow> row_key r = k)
      | _ \<Rightarrow> False)"

definition parked_by_event :: "string \<times> uuid \<Rightarrow> job_event \<Rightarrow> board \<Rightarrow> bool" where
  "parked_by_event k e b =
     (case e of
        ESuspend org i tok \<Rightarrow> (org, i) = k \<and> sql_exists (held_under org i tok) (bd_jobs b)
      | _ \<Rightarrow> False)"

fun count_events :: "(job_event \<Rightarrow> board \<Rightarrow> bool) \<Rightarrow> job_event list \<Rightarrow> board \<Rightarrow> int" where
  "count_events p [] b = 0"
| "count_events p (e # es) b = (if p e b then 1 else 0) + count_events p es (board_apply e b)"

definition attempts_of :: "string \<times> uuid \<Rightarrow> job_table \<Rightarrow> int" where
  "attempts_of k t = (case row_of k t of None \<Rightarrow> 0 | Some r \<Rightarrow> jr_attempts r)"

lemma row_of_unique:
  assumes "keys_unique t" "r \<in> set t"
  shows "row_of (row_key r) t = Some r"
proof (cases "row_of (row_key r) t")
  case None
  then show ?thesis using assms(2) by (auto simp: row_of_def sql_first_None sql_exists_iff)
next
  case (Some q)
  then have "q \<in> set t" "row_key q = row_key r" by (auto simp: row_of_def dest: sql_first_Some)
  then show ?thesis using Some distinct_key_unique assms unfolding keys_unique_def by metis
qed

lemma row_of_Some: "row_of k t = Some r \<Longrightarrow> r \<in> set t \<and> row_key r = k"
  by (auto simp: row_of_def dest: sql_first_Some)

lemma row_of_update:
  "(\<And>r. row_key (f r) = row_key r) \<Longrightarrow>
   row_of k (sql_update p f t) = map_option (\<lambda>r. if p r then f r else r) (row_of k t)"
  by (induction t) (auto simp: row_of_def sql_first_def sql_update_def)

lemma row_of_append: "row_of k (t @ u) = (case row_of k t of None \<Rightarrow> row_of k u | Some r \<Rightarrow> Some r)"
  by (induction t) (auto simp: row_of_def sql_first_def)

text \<open>An update that leaves the attempts alone, on whatever rows.\<close>

lemma attempts_of_update:
  "(\<And>r. row_key (f r) = row_key r) \<Longrightarrow> (\<And>r. jr_attempts (f r) = jr_attempts r) \<Longrightarrow>
   attempts_of k (sql_update p f t) = attempts_of k t"
  by (simp add: attempts_of_def row_of_update split: option.splits)

lemma attempts_keep [simp]:
  "jr_attempts (retire_row now r) = jr_attempts r" "jr_attempts (beat_row now lease r) = jr_attempts r"
  "jr_attempts (session_row s remote r) = jr_attempts r"
  "jr_attempts (complete_row res x out now r) = jr_attempts r"
  "jr_attempts (claim_row w tok now lease r) = jr_attempts r + 1"
  by (simp_all add: row_defs)

lemma attempts_take:
  assumes "keys_unique (bd_jobs b)"
  shows "attempts_of k (bd_jobs (board_apply (ETake org w tok lease locked) b)) =
     attempts_of k (bd_jobs b) + (if claimed_by_event k (ETake org w tok lease locked) b then 1 else 0)"
proof (cases "claim_candidates org (bd_now b) locked (bd_jobs b)")
  case Nil
  then show ?thesis by (simp add: take_job_def claimed_by_event_def)
next
  case (Cons r rs)
  note hd = candidates_hd [OF Cons]
  have org: "(org, jr_id r) = row_key r" using hd(2) by (simp add: claimable_def row_key_def)
  have r: "row_of (row_key r) (bd_jobs b) = Some r" by (rule row_of_unique [OF assms hd(1)])
  have t: "bd_jobs (board_apply (ETake org w tok lease locked) b)
      = sql_update (\<lambda>q. row_key q = row_key r) (claim_row w tok (bd_now b) lease) (bd_jobs b)"
    using Cons by (simp add: take_job_def owned_key [abs_def] org)
  have c: "claimed_by_event k (ETake org w tok lease locked) b \<longleftrightarrow> row_key r = k"
    using Cons by (simp add: claimed_by_event_def)
  show ?thesis
  proof (cases "row_key r = k")
    case True
    then show ?thesis using r unfolding t c by (simp add: attempts_of_def row_of_update)
  next
    case False
    then have "row_of k (sql_update (\<lambda>q. row_key q = row_key r) (claim_row w tok (bd_now b) lease) (bd_jobs b))
      = row_of k (bd_jobs b)"
      by (cases "row_of k (bd_jobs b)") (use row_of_Some in \<open>auto simp: row_of_update\<close>)
    with False show ?thesis unfolding t c by (simp add: attempts_of_def)
  qed
qed

lemma suspend_table:
  "snd (job_suspend org i tok now t) = sql_update (held_under org i tok) (suspend_row now) t"
  by (cases "sql_exists (held_under org i tok) t") (simp_all add: job_suspend_def sql_update_none)

lemma attempts_suspend:
  assumes "board_ok b"
  shows "attempts_of k (bd_jobs (board_apply (ESuspend org i tok) b)) =
     attempts_of k (bd_jobs b) - (if parked_by_event k (ESuspend org i tok) b then 1 else 0)"
proof (cases "row_of k (bd_jobs b)")
  case None
  then have "\<not> ((org, i) = k \<and> sql_exists (held_under org i tok) (bd_jobs b))"
    by (auto simp: row_of_def sql_first_None sql_exists_iff held_under_def owned_key)
  with None show ?thesis
    by (simp add: attempts_of_def row_of_update job_suspend_def parked_by_event_def)
next
  case (Some r)
  note r = row_of_Some [OF Some]
  have ok: "row_ok r" using assms r by (auto simp: board_ok_def list_all_iff)
  have u: "q = r" if "q \<in> set (bd_jobs b)" "row_key q = k" for q
    using distinct_key_unique [of row_key "bd_jobs b" q r] that r assms
    by (auto simp: board_ok_def keys_unique_def)
  have h: "(org, i) = k \<and> sql_exists (held_under org i tok) (bd_jobs b) \<longleftrightarrow> held_under org i tok r"
  proof
    assume "(org, i) = k \<and> sql_exists (held_under org i tok) (bd_jobs b)"
    then obtain q where q: "q \<in> set (bd_jobs b)" "held_under org i tok q" "(org, i) = k"
      unfolding sql_exists_iff by blast
    then have "row_key q = k" by (simp add: held_under_def owned_key)
    then show "held_under org i tok r" using u [OF q(1)] q(2) by simp
  next
    assume h: "held_under org i tok r"
    then have "(org, i) = k" using r by (simp add: held_under_def owned_key)
    with h r show "(org, i) = k \<and> sql_exists (held_under org i tok) (bd_jobs b)"
      unfolding sql_exists_iff by blast
  qed
  have m: "max (jr_attempts r - 1) 0 = jr_attempts r - 1" if "held_under org i tok r"
    using that ok by (auto simp: held_under_def row_ok_def)
  have "attempts_of k (sql_update (held_under org i tok) (suspend_row (bd_now b)) (bd_jobs b))
      = jr_attempts r - (if held_under org i tok r then 1 else 0)"
    using Some m by (simp add: attempts_of_def row_of_update) (simp add: suspend_row_def)
  then have "attempts_of k (bd_jobs (board_apply (ESuspend org i tok) b))
      = jr_attempts r - (if held_under org i tok r then 1 else 0)"
    by (simp add: suspend_table)
  moreover have "attempts_of k (bd_jobs b) = jr_attempts r" using Some by (simp add: attempts_of_def)
  ultimately show ?thesis using h by (simp add: parked_by_event_def)
qed

lemma attempts_event:
  assumes "board_ok b" "event_ok e b"
  shows "attempts_of k (bd_jobs (board_apply e b)) = attempts_of k (bd_jobs b)
     + (if claimed_by_event k e b then 1 else 0) - (if parked_by_event k e b then 1 else 0)"
proof (cases e)
  case (ETake org w tok lease locked)
  then show ?thesis
    using attempts_take assms(1) by (simp add: board_ok_def parked_by_event_def)
next
  case (ESuspend org i tok)
  then show ?thesis using attempts_suspend [OF assms(1)] by (simp add: claimed_by_event_def)
next
  case (ECreate org i cmd u)
  have "attempts_of k (bd_jobs b @ [fresh_job org i (bd_now b) cmd u]) = attempts_of k (bd_jobs b)"
    by (cases "row_of k (bd_jobs b)")
      (simp_all add: attempts_of_def row_of_append, simp add: row_of_def sql_first_def fresh_job_def)
  then show ?thesis
    using ECreate by (simp add: job_create_def claimed_by_event_def parked_by_event_def)
qed (simp_all add: claimed_by_event_def parked_by_event_def retire_def job_heartbeat_def job_session_def
      job_resume_def job_complete_def attempts_of_update)

lemma attempts_run:
  "board_ok b \<Longrightarrow> run_ok es b \<Longrightarrow>
   attempts_of k (bd_jobs (board_run es b)) = attempts_of k (bd_jobs b)
     + count_events (claimed_by_event k) es b - count_events (parked_by_event k) es b
   \<and> board_ok (board_run es b)"
  by (induction es arbitrary: b) (simp_all add: attempts_event board_ok_apply)

lemma attempts_le_max:
  "board_ok b \<Longrightarrow> row_of k (bd_jobs b) = Some r \<Longrightarrow>
   0 \<le> attempts_of k (bd_jobs b) \<and> attempts_of k (bd_jobs b) \<le> jr_max_attempts r"
  by (auto simp: attempts_of_def board_ok_def list_all_iff row_ok_def dest!: row_of_Some)

section \<open>One job across a statement\<close>

lemma row_of_change:
  "list_all2 (row_change b e) t t' \<Longrightarrow> row_of k t = Some r \<Longrightarrow>
   \<exists>r'. row_of k t' = Some r' \<and> row_change b e r r'"
  by (induction rule: list_all2_induct)
    (auto simp: row_of_def sql_first_def dest: row_change_key split: if_splits)

lemma job_event_row:
  assumes "board_ok b" "event_ok e b" "row_of k (bd_jobs b) = Some r"
  shows "\<exists>r'. row_of k (bd_jobs (board_apply e b)) = Some r' \<and> row_change b e r r'"
proof (cases "\<exists>org i cmd u. e = ECreate org i cmd u")
  case True
  then obtain org i cmd u where E: "e = ECreate org i cmd u" by blast
  have "row_of k (bd_jobs (board_apply e b)) = Some r"
    using create_jobs [of org i cmd u b] assms(3) unfolding E
    by (auto simp: row_of_append simp del: board_apply.simps)
  then show ?thesis by (blast intro: row_change.same)
next
  case False
  then have "list_all2 (row_change b e) (bd_jobs b) (bd_jobs (board_apply e b))"
    using assms(1) by (intro apply_change) (auto simp: board_ok_def)
  then show ?thesis using assms(3) by (rule row_of_change)
qed

lemma row_change_max: "row_change b e r r' \<Longrightarrow> jr_max_attempts r' = jr_max_attempts r"
  by (induction rule: row_change.induct) (simp_all add: row_defs)

lemma job_event_phase:
  assumes "board_ok b" "event_ok e b" "row_of k (bd_jobs b) = Some r"
  shows "\<exists>r'. row_of k (bd_jobs (board_apply e b)) = Some r' \<and> jr_max_attempts r' = jr_max_attempts r
    \<and> phase_step (nat (jr_max_attempts r)) (phase_of r) (phase_of r')"
proof -
  obtain r' where r': "row_of k (bd_jobs (board_apply e b)) = Some r'" "row_change b e r r'"
    using job_event_row [OF assms] by blast
  have "row_ok r" using assms(1) row_of_Some [OF assms(3)] by (auto simp: board_ok_def list_all_iff)
  with r' show ?thesis using row_change_phase row_change_max by blast
qed

end
