(* ===== verification/JobRoutes.thy ===== *)
theory JobRoutes
  imports JobStore
begin

text \<open>
  The handlers of \<open>server/src/routes/jobs.ts\<close>: each takes the request's body, parameters or query and
  the table, and gives the reply and the table after it. \<open>job_ctx\<close> holds what the handler is bound to
  (the organization, whether a workspace root is configured) and what the database supplies to its
  one store call: the accounts, the instant, the value of \<open>gen_random_uuid()\<close>, the rows other
  claimers hold, and a message when it cannot be reached. Fastify's body limits, and its reading of a
  repeated query parameter, are the framework's.
\<close>

section \<open>Store calls\<close>

record job_ctx =
  jc_org :: string
  jc_workspaces :: bool
  jc_users :: "uuid set"
  jc_now :: int
  jc_uuid :: uuid
  jc_locked :: "job_row \<Rightarrow> bool"
  jc_down :: "string option"

definition job_call ::
  "job_ctx \<Rightarrow> (job_table \<Rightarrow> (string + 'a) \<times> job_table) \<Rightarrow> ('a \<Rightarrow> reply) \<Rightarrow> job_table \<Rightarrow> reply \<times> job_table"
where
  "job_call ctx run k t =
     (case (case jc_down ctx of Some m \<Rightarrow> (Inl m, t) | None \<Rightarrow> run t) of
        (res, t') \<Rightarrow> (case guard res of Inl rep \<Rightarrow> (rep, t') | Inr v \<Rightarrow> (k v, t')))"

section \<open>Parsing\<close>

abbreviation COMMAND_LIMIT :: nat where "COMMAND_LIMIT \<equiv> 16384"
abbreviation OUTPUT_LIMIT :: nat where "OUTPUT_LIMIT \<equiv> 64 * 1024"
abbreviation LEASE_SECONDS_DEFAULT :: int where "LEASE_SECONDS_DEFAULT \<equiv> 300"
abbreviation LEASE_SECONDS_MAX :: int where "LEASE_SECONDS_MAX \<equiv> 3600"
abbreviation LIST_LIMIT_DEFAULT :: int where "LIST_LIMIT_DEFAULT \<equiv> 50"
abbreviation LIST_LIMIT_MAX :: int where "LIST_LIMIT_MAX \<equiv> 200"
abbreviation REMOTE_SESSION_LIMIT :: nat where "REMOTE_SESSION_LIMIT \<equiv> 256"

definition STATUSES :: "job_status list" where
  "STATUSES = [JQueued, JRunning, JStandby, JSucceeded, JFailed, JDead]"

definition status_named :: "string \<Rightarrow> job_status option" where
  "status_named s = find (\<lambda>st. status_str st = s) STATUSES"

definition json_str :: "json option \<Rightarrow> string option" where
  "json_str j = (case j of Some (JStr s) \<Rightarrow> Some s | _ \<Rightarrow> None)"

text \<open>\<open>x === undefined || x === null\<close>.\<close>

definition absent :: "json option \<Rightarrow> bool" where
  "absent j \<longleftrightarrow> j = None \<or> j = Some JNull"

definition uuid_str :: "json option \<Rightarrow> string option" where
  "uuid_str j = (case json_str j of Some s \<Rightarrow> if is_uuid s then Some s else None | None \<Rightarrow> None)"

definition leaseSeconds :: "json option \<Rightarrow> int option" where
  "leaseSeconds raw =
     (if absent raw then Some LEASE_SECONDS_DEFAULT
      else case raw of
          Some (JNum q) \<Rightarrow>
            if \<not> is_integer q \<or> q < 1 \<or> of_int LEASE_SECONDS_MAX < q then None else Some \<lfloor>q\<rfloor>
        | _ \<Rightarrow> None)"

abbreviation "bad_id \<equiv> bad400 ''BAD_ID'' ''id must be a uuid''"
abbreviation "bad_token \<equiv> bad400 ''BAD_TOKEN'' ''leaseToken must be a uuid''"
abbreviation "bad_lease \<equiv> bad400 ''BAD_LEASE'' ''leaseSeconds must be an integer 1..3600''"
abbreviation "no_such_job \<equiv> bad ''NOT_FOUND'' ''No such job'' 404"
abbreviation "lease_lost \<equiv> bad ''LEASE_LOST'' ''Lease lost'' 409"

definition lease_reply :: "reply \<Rightarrow> lease_result \<Rightarrow> reply" where
  "lease_reply ok res = (case res of LMissing \<Rightarrow> no_such_job | LLost \<Rightarrow> lease_lost | LOk \<Rightarrow> ok)"

section \<open>Handlers\<close>

definition post_job :: "job_ctx \<Rightarrow> uuid option \<Rightarrow> json option \<Rightarrow> job_table \<Rightarrow> reply \<times> job_table" where
  "post_job ctx caller raw t =
     (case json_str (member_of ''command'' (body raw)) of
        None \<Rightarrow> (bad400 ''BAD_COMMAND'' ''command must be a non-empty string'', t)
      | Some command \<Rightarrow>
          if js_trim command = [] then (bad400 ''BAD_COMMAND'' ''command must be a non-empty string'', t)
          else if length command > COMMAND_LIMIT
            then (bad400 ''BAD_COMMAND'' ''command exceeds 16384 characters'', t)
          else job_call ctx
            (job_create (jc_org ctx) (jc_users ctx) (jc_uuid ctx) (jc_now ctx) command caller)
            (\<lambda>i. send 201 (JObj [(''id'', JStr i), (''status'', JStr ''queued'')])) t)"

definition claim_json :: "claim \<Rightarrow> json" where
  "claim_json c = JObj
     [(''id'', JStr (cl_id c)), (''command'', JStr (cl_command c)),
      (''attempts'', JNum (of_int (cl_attempts c))), (''leaseToken'', JStr (cl_leaseToken c)),
      (''leaseExpiresAt'', JStr (cl_leaseExpiresAt c)), (''userId'', json_opt JStr (cl_userId c)),
      (''workspacePath'', json_opt JStr (cl_workspacePath c)),
      (''resumeSessionId'', json_opt JStr (cl_resumeSessionId c))]"

definition post_claim :: "job_ctx \<Rightarrow> json option \<Rightarrow> job_table \<Rightarrow> reply \<times> job_table" where
  "post_claim ctx raw t =
     (case json_str (member_of ''worker'' (body raw)) of
        None \<Rightarrow> (bad400 ''BAD_WORKER'' ''worker must be a non-empty string'', t)
      | Some worker \<Rightarrow>
          if js_trim worker = [] \<or> length worker > 128
            then (bad400 ''BAD_WORKER'' ''worker must be a non-empty string'', t)
          else case leaseSeconds (member_of ''leaseSeconds'' (body raw)) of
              None \<Rightarrow> (bad_lease, t)
            | Some lease \<Rightarrow> job_call ctx
                (job_claim (jc_org ctx) (jc_workspaces ctx) worker (jc_uuid ctx) (jc_now ctx) lease
                   (jc_locked ctx))
                (\<lambda>c. case c of None \<Rightarrow> \<lparr>code = 204, payload = None\<rparr> | Some cl \<Rightarrow> send 200 (claim_json cl)) t)"

definition post_heartbeat :: "job_ctx \<Rightarrow> string \<Rightarrow> json option \<Rightarrow> job_table \<Rightarrow> reply \<times> job_table" where
  "post_heartbeat ctx i raw t =
     (if \<not> is_uuid i then (bad_id, t)
      else case uuid_str (member_of ''leaseToken'' (body raw)) of
          None \<Rightarrow> (bad_token, t)
        | Some token \<Rightarrow>
            (case leaseSeconds (member_of ''leaseSeconds'' (body raw)) of
               None \<Rightarrow> (bad_lease, t)
             | Some lease \<Rightarrow> job_call ctx
                 (job_heartbeat (jc_org ctx) (uuid_value i) (uuid_value token) (jc_now ctx) lease)
                 (\<lambda>(res, e). lease_reply (send 200 (JObj [(''leaseExpiresAt'', json_opt JStr e)])) res) t))"

definition remote_ok :: "json option \<Rightarrow> bool" where
  "remote_ok j \<longleftrightarrow> absent j \<or>
     (case json_str j of None \<Rightarrow> False | Some s \<Rightarrow> js_trim s \<noteq> [] \<and> length s \<le> REMOTE_SESSION_LIMIT)"

definition post_session :: "job_ctx \<Rightarrow> string \<Rightarrow> json option \<Rightarrow> job_table \<Rightarrow> reply \<times> job_table" where
  "post_session ctx i raw t =
     (if \<not> is_uuid i then (bad_id, t)
      else case uuid_str (member_of ''leaseToken'' (body raw)) of
          None \<Rightarrow> (bad_token, t)
        | Some token \<Rightarrow>
            (case uuid_str (member_of ''sessionId'' (body raw)) of
               None \<Rightarrow> (bad400 ''BAD_SESSION_ID'' ''sessionId must be a uuid'', t)
             | Some sid \<Rightarrow>
                 let remote = member_of ''remoteSessionId'' (body raw) in
                 if \<not> remote_ok remote
                 then (bad400 ''BAD_REMOTE_SESSION_ID''
                   ''remoteSessionId must be a non-empty string of at most 256 characters'', t)
                 else job_call ctx
                   (job_session (jc_org ctx) (uuid_value i) (uuid_value token) (uuid_value sid) (json_str remote))
                   (lease_reply (send 200 (JObj [(''id'', JStr i), (''sessionId'', JStr sid),
                      (''remoteSessionId'', json_opt JStr (json_str remote))]))) t))"

definition post_suspend :: "job_ctx \<Rightarrow> string \<Rightarrow> json option \<Rightarrow> job_table \<Rightarrow> reply \<times> job_table" where
  "post_suspend ctx i raw t =
     (if \<not> is_uuid i then (bad_id, t)
      else case uuid_str (member_of ''leaseToken'' (body raw)) of
          None \<Rightarrow> (bad_token, t)
        | Some token \<Rightarrow> job_call ctx
            (job_suspend (jc_org ctx) (uuid_value i) (uuid_value token) (jc_now ctx))
            (lease_reply (send 200 (JObj [(''id'', JStr i), (''status'', JStr ''standby'')]))) t)"

definition post_resume :: "job_ctx \<Rightarrow> string \<Rightarrow> job_table \<Rightarrow> reply \<times> job_table" where
  "post_resume ctx i t =
     (if \<not> is_uuid i then (bad_id, t)
      else job_call ctx (job_resume (jc_org ctx) (uuid_value i))
        (\<lambda>res. case res of
             RMissing \<Rightarrow> no_such_job
           | RConflict \<Rightarrow> bad ''NOT_STANDBY'' ''Job is not on standby'' 409
           | ROk \<Rightarrow> send 200 (JObj [(''id'', JStr i), (''status'', JStr ''queued'')])) t)"

definition outcome_named :: "json option \<Rightarrow> job_outcome option" where
  "outcome_named j =
     (if j = Some (JStr ''succeeded'') then Some OSucceeded
      else if j = Some (JStr ''failed'') then Some OFailed else None)"

definition exit_code_of :: "json option \<Rightarrow> int option option" where
  "exit_code_of j =
     (if absent j then Some None
      else case j of Some (JNum q) \<Rightarrow> if is_integer q then Some (Some \<lfloor>q\<rfloor>) else None | _ \<Rightarrow> None)"

definition output_of :: "json option \<Rightarrow> string option option" where
  "output_of j = (if absent j then Some None
     else case j of Some (JStr s) \<Rightarrow> Some (Some (take OUTPUT_LIMIT s)) | _ \<Rightarrow> None)"

definition post_complete :: "job_ctx \<Rightarrow> string \<Rightarrow> json option \<Rightarrow> job_table \<Rightarrow> reply \<times> job_table" where
  "post_complete ctx i raw t =
     (if \<not> is_uuid i then (bad_id, t)
      else case uuid_str (member_of ''leaseToken'' (body raw)) of
          None \<Rightarrow> (bad_token, t)
        | Some token \<Rightarrow>
            (case outcome_named (member_of ''status'' (body raw)) of
               None \<Rightarrow> (bad400 ''BAD_STATUS'' (''status must be 'succeeded' or 'failed'' @ [CHR 0x27]), t)
             | Some outcome \<Rightarrow>
                 (case exit_code_of (member_of ''exitCode'' (body raw)) of
                    None \<Rightarrow> (bad400 ''BAD_EXIT_CODE'' ''exitCode must be an integer or null'', t)
                  | Some exitCode \<Rightarrow>
                      (case output_of (member_of ''output'' (body raw)) of
                         None \<Rightarrow> (bad400 ''BAD_OUTPUT'' ''output must be a string or null'', t)
                       | Some out \<Rightarrow> job_call ctx
                           (job_complete (jc_org ctx) (uuid_value i) (uuid_value token) outcome exitCode out
                              (jc_now ctx))
                           (lease_reply (send 200 (JObj [(''id'', JStr i),
                              (''status'', JStr (status_str (status_of_outcome outcome)))]))) t))))"

definition job_json :: "job \<Rightarrow> json" where
  "job_json j = JObj
     [(''id'', JStr (job_id j)), (''command'', JStr (job_command j)),
      (''status'', JStr (status_str (job_status j))),
      (''attempts'', JNum (of_int (job_attempts j))), (''maxAttempts'', JNum (of_int (job_maxAttempts j))),
      (''claimedBy'', json_opt JStr (job_claimedBy j)), (''createdBy'', json_opt JStr (job_createdBy j)),
      (''sessionId'', json_opt JStr (job_sessionId j)),
      (''remoteSessionId'', json_opt JStr (job_remoteSessionId j)),
      (''exitCode'', json_opt (\<lambda>i. JNum (of_int i)) (job_exitCode j)),
      (''output'', json_opt JStr (job_output j)), (''createdAt'', JStr (job_createdAt j)),
      (''startedAt'', json_opt JStr (job_startedAt j)),
      (''finishedAt'', json_opt JStr (job_finishedAt j))]"

definition get_job :: "job_ctx \<Rightarrow> string \<Rightarrow> job_table \<Rightarrow> reply \<times> job_table" where
  "get_job ctx i t =
     (if \<not> is_uuid i then (bad_id, t)
      else job_call ctx (\<lambda>u. (job_get (jc_org ctx) (uuid_value i) u, u))
        (\<lambda>j. case j of None \<Rightarrow> no_such_job | Some v \<Rightarrow> send 200 (job_json v)) t)"

definition list_limit :: "string option \<Rightarrow> int option" where
  "list_limit raw =
     (case (case raw of None \<Rightarrow> Some (of_int LIST_LIMIT_DEFAULT) | Some s \<Rightarrow> js_number s) of
        None \<Rightarrow> None
      | Some q \<Rightarrow> if \<not> is_integer q \<or> q < 1 \<or> of_int LIST_LIMIT_MAX < q then None else Some \<lfloor>q\<rfloor>)"

definition get_jobs ::
  "job_ctx \<Rightarrow> string option \<Rightarrow> string option \<Rightarrow> job_table \<Rightarrow> reply \<times> job_table"
where
  "get_jobs ctx status limit t =
     (if \<not> opt_ok (\<lambda>s. status_named s \<noteq> None) status
      then (bad400 ''BAD_STATUS''
        (''status must be one of '' @ join_with '', '' (map status_str STATUSES)), t)
      else case list_limit limit of
          None \<Rightarrow> (bad400 ''BAD_LIMIT'' ''limit must be an integer 1..200'', t)
        | Some n \<Rightarrow> job_call ctx
            (\<lambda>u. (job_list (jc_org ctx) (Option.bind status status_named) (nat n) u, u))
            (\<lambda>js. send 200 (JObj [(''jobs'', JArr (map job_json js))])) t)"

section \<open>The routes together\<close>

datatype job_request =
    RqCreate "uuid option" "json option"
  | RqClaim "json option"
  | RqHeartbeat string "json option"
  | RqSession string "json option"
  | RqSuspend string "json option"
  | RqResume string
  | RqComplete string "json option"
  | RqGet string
  | RqList "string option" "string option"

fun jobRoutes :: "job_ctx \<Rightarrow> job_request \<Rightarrow> job_table \<Rightarrow> reply \<times> job_table" where
  "jobRoutes ctx (RqCreate caller raw) = post_job ctx caller raw"
| "jobRoutes ctx (RqClaim raw) = post_claim ctx raw"
| "jobRoutes ctx (RqHeartbeat i raw) = post_heartbeat ctx i raw"
| "jobRoutes ctx (RqSession i raw) = post_session ctx i raw"
| "jobRoutes ctx (RqSuspend i raw) = post_suspend ctx i raw"
| "jobRoutes ctx (RqResume i) = post_resume ctx i"
| "jobRoutes ctx (RqComplete i raw) = post_complete ctx i raw"
| "jobRoutes ctx (RqGet i) = get_job ctx i"
| "jobRoutes ctx (RqList status limit) = get_jobs ctx status limit"

subsection \<open>Operations that stay within one organization\<close>

abbreviation mine :: "string \<Rightarrow> job_row \<Rightarrow> bool" where
  "mine org r \<equiv> jr_org_id r = org"

definition org_local :: "string \<Rightarrow> (job_table \<Rightarrow> 'a \<times> job_table) \<Rightarrow> bool" where
  "org_local org op \<longleftrightarrow> (\<forall>t.
     fst (op (filter (mine org) t)) = fst (op t) \<and>
     snd (op (filter (mine org) t)) = filter (mine org) (snd (op t)) \<and>
     filter (\<lambda>r. \<not> mine org r) (snd (op t)) = filter (\<lambda>r. \<not> mine org r) t)"

lemma org_local_update:
  assumes "\<And>r. p r \<Longrightarrow> mine org r" "\<And>r. jr_org_id (f r) = jr_org_id r"
  shows "sql_update p f (filter (mine org) t) = filter (mine org) (sql_update p f t)"
    and "filter (\<lambda>r. \<not> mine org r) (sql_update p f t) = filter (\<lambda>r. \<not> mine org r) t"
  using assms by (induction t) (auto simp: sql_update_def)

lemma org_local_exists:
  assumes "\<And>r. p r \<Longrightarrow> mine org r"
  shows "sql_exists p (filter (mine org) t) = sql_exists p t"
  using assms by (auto simp: sql_exists_iff)

lemma org_local_first:
  assumes "\<And>r. p r \<Longrightarrow> mine org r"
  shows "sql_first p (filter (mine org) t) = sql_first p t"
  using assms by (induction t) (auto simp: sql_first_def)

lemma org_kept [simp]:
  "jr_org_id (retire_row now r) = jr_org_id r" "jr_org_id (claim_row w tok now lease r) = jr_org_id r"
  "jr_org_id (beat_row now lease r) = jr_org_id r" "jr_org_id (session_row s remote r) = jr_org_id r"
  "jr_org_id (suspend_row now r) = jr_org_id r" "jr_org_id (complete_row res x out now r) = jr_org_id r"
  by (simp_all add: retire_row_def claim_row_def beat_row_def session_row_def suspend_row_def
      complete_row_def)

lemma selects_mine:
  "held_under org i tok r \<Longrightarrow> mine org r" "owned org i r \<Longrightarrow> mine org r" "on_standby org i r \<Longrightarrow> mine org r"
  "exhausted org now r \<Longrightarrow> mine org r" "claimable org now r \<Longrightarrow> mine org r"
  by (simp_all add: held_under_def owned_def on_standby_def exhausted_def claimable_def)

lemmas org_local_facts =
  org_local_update [OF selects_mine(1)] org_local_update [OF selects_mine(2)]
  org_local_update [OF selects_mine(3)] org_local_update [OF selects_mine(4)]
  org_local_exists [OF selects_mine(1)] org_local_exists [OF selects_mine(2)]
  org_local_exists [OF selects_mine(3)] org_local_first [OF selects_mine(2)]

lemma lost_or_missing_local [simp]:
  "lost_or_missing org i (filter (mine org) t) = lost_or_missing org i t"
  by (simp add: lost_or_missing_def job_exists_def org_local_facts)

lemma candidates_local [simp]:
  "claim_candidates org now locked (filter (mine org) t) = claim_candidates org now locked t"
proof -
  have "filter (\<lambda>r. claimable org now r \<and> \<not> locked r) (filter (mine org) t)
      = filter (\<lambda>r. claimable org now r \<and> \<not> locked r) t"
    by (auto simp: filter_filter intro!: filter_cong dest: selects_mine(5))
  then show ?thesis by (simp add: claim_candidates_def)
qed

lemma job_create_local: "org_local org (job_create org users i now cmd u)"
  by (auto simp: org_local_def job_create_def fresh_job_def)

lemma take_job_local: "org_local org (take_job org worker tok now lease locked)"
  unfolding org_local_def
proof (intro allI)
  fix t
  show "fst (take_job org worker tok now lease locked (filter (mine org) t))
      = fst (take_job org worker tok now lease locked t) \<and>
    snd (take_job org worker tok now lease locked (filter (mine org) t))
      = filter (mine org) (snd (take_job org worker tok now lease locked t)) \<and>
    filter (\<lambda>r. \<not> mine org r) (snd (take_job org worker tok now lease locked t))
      = filter (\<lambda>r. \<not> mine org r) t"
    by (cases "claim_candidates org now locked t") (auto simp: take_job_def org_local_facts)
qed

lemma org_local_I:
  assumes "org_local org op" "op t = (x, u)"
  shows "op (filter (mine org) t) = (x, filter (mine org) u)"
    and "filter (\<lambda>r. \<not> mine org r) u = filter (\<lambda>r. \<not> mine org r) t"
  using assms unfolding org_local_def by (metis fst_conv prod.collapse snd_conv)+

lemma job_claim_local: "org_local org (job_claim org ws worker tok now lease locked)"
  unfolding org_local_def
proof (intro allI)
  fix t
  obtain row u where u: "take_job org worker tok now lease locked (retire org now t) = (row, u)"
    by fastforce
  have r: "retire org now (filter (mine org) t) = filter (mine org) (retire org now t)"
    "filter (\<lambda>r. \<not> mine org r) (retire org now t) = filter (\<lambda>r. \<not> mine org r) t"
    by (simp_all add: retire_def org_local_facts)
  show "fst (job_claim org ws worker tok now lease locked (filter (mine org) t))
      = fst (job_claim org ws worker tok now lease locked t) \<and>
    snd (job_claim org ws worker tok now lease locked (filter (mine org) t))
      = filter (mine org) (snd (job_claim org ws worker tok now lease locked t)) \<and>
    filter (\<lambda>r. \<not> mine org r) (snd (job_claim org ws worker tok now lease locked t))
      = filter (\<lambda>r. \<not> mine org r) t"
    using org_local_I [OF take_job_local u] u r by (auto simp: job_claim_def Let_def)
qed

lemma guarded_local:
  "org_local org (job_heartbeat org i tok now lease)" "org_local org (job_session org i tok s remote)"
  "org_local org (job_suspend org i tok now)" "org_local org (job_complete org i tok res x out now)"
  by (simp_all add: org_local_def job_heartbeat_def job_session_def job_suspend_def job_complete_def
      org_local_facts)

lemma job_resume_local: "org_local org (job_resume org i)"
  by (simp add: org_local_def job_resume_def org_local_facts job_exists_def)

lemma read_local:
  "org_local org (\<lambda>u. (job_get org i u, u))" "org_local org (\<lambda>u. (job_list org st n u, u))"
  by (simp_all add: org_local_def job_get_def job_list_def org_local_facts conj_commute
      cong: conj_cong)

lemmas store_local = job_create_local job_claim_local guarded_local job_resume_local read_local

lemma org_local_const: "org_local org (\<lambda>t. (x, t))"
  by (simp add: org_local_def)

lemma job_call_local:
  assumes "org_local org run"
  shows "org_local org (job_call ctx run k)"
  unfolding org_local_def
proof (intro allI)
  fix t
  obtain x u where u: "run t = (x, u)" by fastforce
  show "fst (job_call ctx run k (filter (mine org) t)) = fst (job_call ctx run k t) \<and>
    snd (job_call ctx run k (filter (mine org) t)) = filter (mine org) (snd (job_call ctx run k t)) \<and>
    filter (\<lambda>r. \<not> mine org r) (snd (job_call ctx run k t)) = filter (\<lambda>r. \<not> mine org r) t"
    using org_local_I [OF assms u] u by (cases "jc_down ctx"; cases x) (simp_all add: job_call_def)
qed

text \<open>A handler is local when each of its branches is.\<close>

lemma org_local_if:
  "(\<not> c \<Longrightarrow> org_local org g) \<Longrightarrow> (c \<Longrightarrow> org_local org f) \<Longrightarrow> org_local org (\<lambda>t. if c then f t else g t)"
  by (cases c) simp_all

lemma org_local_option:
  "org_local org f \<Longrightarrow> (\<And>v. org_local org (g v)) \<Longrightarrow>
   org_local org (\<lambda>t. case x of None \<Rightarrow> f t | Some v \<Rightarrow> g v t)"
  by (cases x) simp_all

lemmas org_local_cases = org_local_if org_local_option

lemmas route_defs = post_job_def post_claim_def post_heartbeat_def post_session_def post_suspend_def
  post_resume_def post_complete_def get_job_def get_jobs_def

lemma jobRoutes_local: "org_local (jc_org ctx) (jobRoutes ctx rq)"
proof (cases rq)
  case (RqCreate caller raw)
  show ?thesis unfolding RqCreate jobRoutes.simps post_job_def [abs_def]
    by (intro org_local_cases job_call_local store_local org_local_const)
next
  case (RqClaim raw)
  show ?thesis unfolding RqClaim jobRoutes.simps post_claim_def [abs_def]
    by (intro org_local_cases job_call_local store_local org_local_const)
next
  case (RqHeartbeat i raw)
  show ?thesis unfolding RqHeartbeat jobRoutes.simps post_heartbeat_def [abs_def]
    by (intro org_local_cases job_call_local store_local org_local_const)
next
  case (RqSession i raw)
  show ?thesis unfolding RqSession jobRoutes.simps post_session_def [abs_def] Let_def
    by (intro org_local_cases job_call_local store_local org_local_const)
next
  case (RqSuspend i raw)
  show ?thesis unfolding RqSuspend jobRoutes.simps post_suspend_def [abs_def]
    by (intro org_local_cases job_call_local store_local org_local_const)
next
  case (RqResume i)
  show ?thesis unfolding RqResume jobRoutes.simps post_resume_def [abs_def]
    by (intro org_local_cases job_call_local store_local org_local_const)
next
  case (RqComplete i raw)
  show ?thesis unfolding RqComplete jobRoutes.simps post_complete_def [abs_def]
    by (intro org_local_cases job_call_local store_local org_local_const)
next
  case (RqGet i)
  show ?thesis unfolding RqGet jobRoutes.simps get_job_def [abs_def]
    by (intro org_local_cases job_call_local store_local org_local_const)
next
  case (RqList status limit)
  show ?thesis unfolding RqList jobRoutes.simps get_jobs_def [abs_def]
    by (intro org_local_cases job_call_local store_local org_local_const)
qed

subsection \<open>Refusals\<close>

text \<open>A store operation whose table is the old one unless its result is one of \<open>good\<close>.\<close>

definition writes_if :: "('a \<Rightarrow> bool) \<Rightarrow> (job_table \<Rightarrow> (string + 'a) \<times> job_table) \<Rightarrow> bool" where
  "writes_if good run \<longleftrightarrow> (\<forall>t. snd (run t) = t \<or> (\<exists>v. fst (run t) = Inr v \<and> good v))"

lemma writes_if_ops:
  "writes_if (\<lambda>i. True) (job_create org users i now cmd u)"
  "writes_if (\<lambda>(res, e). res = LOk) (job_heartbeat org i tok now lease)"
  "writes_if (\<lambda>res. res = LOk) (job_session org i tok sid remote)"
  "writes_if (\<lambda>res. res = LOk) (job_suspend org i tok now)"
  "writes_if (\<lambda>res. res = ROk) (job_resume org i)"
  "writes_if (\<lambda>res. res = LOk) (job_complete org i tok oc x out now)"
  "writes_if (\<lambda>j. False) (\<lambda>u. (job_get org i u, u))" "writes_if (\<lambda>j. False) (\<lambda>u. (job_list org st n u, u))"
  by (simp_all add: writes_if_def job_create_def job_heartbeat_def job_session_def job_suspend_def
      job_resume_def job_complete_def)

lemma job_call_refused:
  assumes "writes_if good run" "\<And>v. good v \<Longrightarrow> code (k v) = 200 \<or> code (k v) = 201"
    and "job_call ctx run k t = (rep, t')" "code rep \<noteq> 200" "code rep \<noteq> 201"
  shows "t' = t"
proof -
  obtain x u where u: "run t = (x, u)" by fastforce
  have "u = t \<or> (\<exists>v. x = Inr v \<and> good v)" using assms(1) u unfolding writes_if_def by (metis fst_conv snd_conv)
  then show ?thesis
    using assms(2-5) u by (cases "jc_down ctx"; cases x) (auto simp: job_call_def)
qed

lemma claim_refused:
  assumes "job_call ctx (job_claim org ws worker tok now lease locked)
      (\<lambda>c. case c of None \<Rightarrow> \<lparr>code = 204, payload = None\<rparr> | Some cl \<Rightarrow> send 200 (claim_json cl)) t = (rep, t')"
    and "code rep \<noteq> 200"
  shows "t' = t \<or> t' = retire org now t" "code rep = 204 \<Longrightarrow> t' = retire org now t" "code rep \<in> {204, 503}"
  using assms
  by (cases "jc_down ctx"; cases "claim_candidates org now locked (retire org now t)"; cases "pg_text worker";
      auto simp: job_call_def job_claim_def Let_def take_job_def)+

lemmas job_call_refused_ops =
  job_call_refused [OF writes_if_ops(1)] job_call_refused [OF writes_if_ops(2)]
  job_call_refused [OF writes_if_ops(3)] job_call_refused [OF writes_if_ops(4)]
  job_call_refused [OF writes_if_ops(5)] job_call_refused [OF writes_if_ops(6)]
  job_call_refused [OF writes_if_ops(7)] job_call_refused [OF writes_if_ops(8)]

lemma jobRoutes_refused:
  assumes "jobRoutes ctx rq t = (rep, t')" "code rep \<noteq> 200" "code rep \<noteq> 201"
  shows "t' = t \<or>
    (\<exists>raw. rq = RqClaim raw \<and> code rep \<in> {204, 503} \<and> t' = retire (jc_org ctx) (jc_now ctx) t)"
proof (cases rq)
  case (RqClaim raw)
  then show ?thesis
    using assms(1,2) by (auto simp: post_claim_def split: option.splits if_splits dest: claim_refused(1,3))
qed (use assms in \<open>auto simp: route_defs Let_def split: option.splits if_splits
      elim!: job_call_refused_ops [rotated -3] simp: lease_reply_def split: lease_result.splits resume_result.splits\<close>)

end
