(* ===== verification/JobTheorems.thy ===== *)
theory JobTheorems
  imports JobFence JobLife JobRoutes
begin

text \<open>
  The properties of the job board: its store (\<open>JobStore\<close>), its state machine (\<open>JobBoard\<close>, \<open>JobFence\<close>,
  \<open>JobLife\<close>) and its routes (\<open>JobRoutes\<close>).
\<close>

section \<open>Lemmas on the claim\<close>

lemma keys_unique_retire: "keys_unique t \<Longrightarrow> keys_unique (retire org now t)"
  by (simp add: keys_unique_def retire_def)

lemma claimable_not_exhausted: "claimable org now r \<Longrightarrow> \<not> exhausted org now r"
  by (simp add: claimable_def exhausted_def)

lemma claimable_retire:
  "r \<in> set (retire org now t) \<Longrightarrow> claimable org now r \<Longrightarrow> r \<in> set t"
  by (auto simp: retire_def set_sql_update claimable_def retire_row_def split: if_splits)

lemma retire_keeps_claimable: "r \<in> set t \<Longrightarrow> claimable org now r \<Longrightarrow> r \<in> set (retire org now t)"
  using claimable_not_exhausted by (force simp: retire_def set_sql_update)

text \<open>The update of a claim addresses one row.\<close>

lemma owned_update:
  assumes "keys_unique t" "r \<in> set t" "jr_org_id r = org"
  shows "sql_update (owned org (jr_id r)) f t = map (\<lambda>q. if q = r then f r else q) t"
proof -
  have "owned org (jr_id r) q \<longleftrightarrow> q = r" if "q \<in> set t" for q
    using that assms distinct_key_unique [of row_key t q r]
    by (auto simp: keys_unique_def owned_key row_key_def)
  then show ?thesis by (auto simp: sql_update_def)
qed

lemma claim_cases:
  assumes "keys_unique t" "pg_text worker"
  obtains "job_claim org ws worker tok now lease locked t = (Inr None, retire org now t)"
      "\<And>r. r \<in> set t \<Longrightarrow> claimable org now r \<Longrightarrow> locked r"
  | r where "r \<in> set t" "claimable org now r" "\<not> locked r"
      "\<And>q. q \<in> set t \<Longrightarrow> claimable org now q \<Longrightarrow> \<not> locked q \<Longrightarrow>
         (jr_created_at r, jr_id r) \<le> (jr_created_at q, jr_id q)"
      "job_claim org ws worker tok now lease locked t =
         (Inr (Some (to_claim org ws tok (claim_row worker tok now lease r))),
          map (\<lambda>q. if q = r then claim_row worker tok now lease r
                   else if exhausted org now q then retire_row now q else q) t)"
proof (cases "claim_candidates org now locked (retire org now t)")
  case Nil
  have "job_claim org ws worker tok now lease locked t = (Inr None, retire org now t)"
    using assms(2) Nil by (simp add: job_claim_def Let_def take_job_def)
  moreover have "locked r" if "r \<in> set t" "claimable org now r" for r
    using Nil that retire_keeps_claimable by (auto simp: candidates_Nil)
  ultimately show ?thesis by (rule that(1))
next
  case (Cons r rs)
  note hd = candidates_hd [OF Cons]
  have r: "r \<in> set t" using claimable_retire [OF hd(1,2)] .
  have org: "jr_org_id r = org" using hd(2) by (simp add: claimable_def)
  have dead: "retire_row now q \<noteq> r" for q
    using hd(2) by (auto simp: claimable_def retire_row_def)
  have "sql_update (owned org (jr_id r)) (claim_row worker tok now lease) (retire org now t) =
      map (\<lambda>q. if q = r then claim_row worker tok now lease r
                else if exhausted org now q then retire_row now q else q) t"
    unfolding owned_update [OF keys_unique_retire [OF assms(1)] hd(1) org]
    using dead claimable_not_exhausted [OF hd(2)] by (auto simp: retire_def sql_update_def)
  then show ?thesis
    using that(2) [OF r hd(2,3)] candidates_oldest [OF Cons] retire_keeps_claimable assms(2) Cons
    by (simp add: job_claim_def Let_def take_job_def)
qed

text \<open>What a claim reports of the row it took.\<close>

lemma claim_of_row:
  assumes "keys_unique t" "q \<in> set t" "row_key q = (org, jid)"
    and "fst (job_claim org ws worker tok now lease locked t) = Inr (Some cl)" "cl_id cl = jid"
  shows "cl = to_claim org ws tok (claim_row worker tok now lease q)"
proof -
  have ptext: "pg_text worker" using assms(4) by (auto simp: job_claim_def Let_def split: if_splits)
  show ?thesis
  proof (rule claim_cases [OF assms(1) ptext])
    assume "job_claim org ws worker tok now lease locked t = (Inr None, retire org now t)"
    then show ?thesis using assms(4) by simp
  next
    fix r
    assume r: "r \<in> set t" "claimable org now r"
      and eq: "job_claim org ws worker tok now lease locked t =
         (Inr (Some (to_claim org ws tok (claim_row worker tok now lease r))),
          map (\<lambda>q. if q = r then claim_row worker tok now lease r
                   else if exhausted org now q then retire_row now q else q) t)"
    have c: "cl = to_claim org ws tok (claim_row worker tok now lease r)" using assms(4) eq by simp
    then have "row_key r = row_key q"
      using assms(3,5) r(2) by (simp add: row_key_def to_claim_def claim_row_def claimable_def)
    then have "r = q" using distinct_key_unique r(1) assms(1,2) unfolding keys_unique_def by metis
    with c show ?thesis by simp
  qed
qed

section \<open>A run used as an example\<close>

text \<open>A job is queued and claimed, its worker falls silent, and another worker takes it over.\<close>

definition silent_run :: "job_event list" where
  "silent_run =
     [ECreate ''acme'' ''j1'' ''make'' None, ETake ''acme'' ''w1'' ''k1'' 300 (\<lambda>r. False),
      ESession ''acme'' ''j1'' ''k1'' ''s1'' None, ETick 400000000,
      ETake ''acme'' ''w2'' ''k2'' 300 (\<lambda>r. False)]"

definition silent_board :: board where
  "silent_board = board_run silent_run (empty_board {} 0)"

definition held_row :: job_row where
  "held_row = (fresh_job ''acme'' ''j1'' 0 ''make'' None)\<lparr>jr_status := JRunning, jr_attempts := 2,
     jr_claimed_by := Some ''w2'', jr_lease_token := Some ''k2'', jr_lease_expires_at := 700000000,
     jr_started_at := Some 400000000\<rparr>"

lemmas run_simps = silent_run_def board_run.simps board_apply.simps empty_board_def job_create_def
  pg_text_def opt_ok_def take_job_def claim_candidates_def claimable_def claim_row_def fresh_job_def
  sql_update_def owned_def held_under_def job_session_def session_row_def sql_exists_def

lemma silent_run_ok: "run_ok silent_run (empty_board {} 0)"
  by (simp add: run_simps)

lemma silent_board_jobs: "bd_jobs silent_board = [held_row]"
  by (simp add: silent_board_def held_row_def run_simps)

lemma silent_board_simps: "bd_now silent_board = 400000000" "bd_issued silent_board = {''k1'', ''k2''}"
  by (auto simp: silent_board_def run_simps)

lemma silent_board_reach: "board_reach silent_board"
  unfolding silent_board_def using silent_run_ok by (intro reach_run board_reach.start)

lemma silent_board_row: "row_of (''acme'', ''j1'') (bd_jobs silent_board) = Some held_row"
  by (simp add: silent_board_jobs row_of_def sql_first_def held_row_def row_key_def fresh_job_def)

section \<open>Properties of the board\<close>

text \<open>
  C1: On every board reachable from an empty one by the store's statements, job keys are unique, a
  job holds a lease token exactly while it runs, its attempts never exceed its maximum and stay
  below it while it waits or is parked, it has a finishing time exactly when it has ended, only a
  reported outcome carries an exit code or output, every token was issued, and no two jobs share one.
\<close>

theorem board_invariant:
  assumes "board_reach b"
  shows "board_ok b"
  using assms by (rule board_ok_reach)

theorem board_invariant_witness: "board_ok silent_board"
  by (rule board_invariant [OF silent_board_reach])

text \<open>
  C2: Fencing. Once a lease token no longer holds a job, no heartbeat, session report, suspend or
  complete under it is accepted on any later board, and none of them changes the board.
\<close>

theorem superseded_worker_fenced:
  assumes "board_reach b" "k \<in> bd_issued b" "\<not> board_holds b k" "board_step\<^sup>*\<^sup>* b b'"
  shows "board_write w b' k = (False, b')"
proof (rule fence.superseded_refused)
  show "sound_step\<^sup>*\<^sup>* b b'" using sound_steps assms(4) board_ok_reach [OF assms(1)] by blast
qed (use assms in auto)

theorem superseded_worker_fenced_witness:
  "board_write (WComplete ''acme'' ''j1'' OSucceeded (Some 0) None) silent_board ''k1'' = (False, silent_board)"
proof (rule superseded_worker_fenced [OF silent_board_reach])
  show "\<not> board_holds silent_board ''k1''"
    by (simp add: board_holds_def silent_board_jobs sql_exists_def held_row_def)
qed (simp_all add: silent_board_simps)

text \<open>
  C3: A claim takes the oldest job that is queued or whose lease has run out and that has attempts
  left, among those no other claimer holds locked, by creation time and then id; it retires exactly
  the running jobs out of attempts whose lease has run out, changes no other row, and reports no
  work only when every claimable job is locked.
\<close>

theorem claim_takes_oldest:
  assumes "keys_unique t" "pg_text worker"
    and "job_claim org ws worker tok now lease locked t = (res, t')"
  shows "\<exists>picked. res = Inr (map_option (\<lambda>r. to_claim org ws tok (claim_row worker tok now lease r)) picked)
    \<and> t' = map (\<lambda>q. if Some q = picked then claim_row worker tok now lease q
                    else if exhausted org now q then retire_row now q else q) t
    \<and> (case picked of
         None \<Rightarrow> \<forall>r \<in> set t. claimable org now r \<longrightarrow> locked r
       | Some r \<Rightarrow> r \<in> set t \<and> claimable org now r \<and> \<not> locked r \<and>
           (\<forall>q \<in> set t. claimable org now q \<and> \<not> locked q \<longrightarrow>
              (jr_created_at r, jr_id r) \<le> (jr_created_at q, jr_id q)))"
proof (rule claim_cases [OF assms(1,2)])
  assume "job_claim org ws worker tok now lease locked t = (Inr None, retire org now t)"
    and "\<And>r. r \<in> set t \<Longrightarrow> claimable org now r \<Longrightarrow> locked r"
  then show ?thesis using assms(3) by (intro exI [of _ None]) (auto simp: retire_def sql_update_def)
next
  fix r
  assume r: "r \<in> set t" "claimable org now r" "\<not> locked r"
    and old: "\<And>q. q \<in> set t \<Longrightarrow> claimable org now q \<Longrightarrow> \<not> locked q \<Longrightarrow>
         (jr_created_at r, jr_id r) \<le> (jr_created_at q, jr_id q)"
    and eq: "job_claim org ws worker tok now lease locked t =
         (Inr (Some (to_claim org ws tok (claim_row worker tok now lease r))),
          map (\<lambda>q. if q = r then claim_row worker tok now lease r
                   else if exhausted org now q then retire_row now q else q) t)"
  have res: "res = Inr (Some (to_claim org ws tok (claim_row worker tok now lease r)))"
    and t': "t' = map (\<lambda>q. if q = r then claim_row worker tok now lease r
                   else if exhausted org now q then retire_row now q else q) t"
    using eq assms(3) by simp_all
  show ?thesis
    using r old unfolding res t' by (intro exI [of _ "Some r"]) (simp cong: if_cong)
qed

theorem claim_takes_oldest_witness:
  "\<exists>picked. fst (job_claim ''acme'' True ''w3'' ''k3'' 800000000 300 (\<lambda>r. False) [held_row])
     = Inr (map_option (\<lambda>r. to_claim ''acme'' True ''k3'' (claim_row ''w3'' ''k3'' 800000000 300 r)) picked)"
proof -
  have "keys_unique [held_row]" "pg_text ''w3''" by (simp_all add: keys_unique_def pg_text_def)
  from claim_takes_oldest [OF this surjective_pairing] show ?thesis by blast
qed

text \<open>
  C4: A claim never takes or retires a job whose lease is live, nor one of another organization,
  nor one that is parked or ended: each such row is in the table afterwards, unchanged.
\<close>

theorem claim_spares_live_lease:
  assumes "keys_unique t" "q \<in> set t"
    and "now < jr_lease_expires_at q \<or> jr_org_id q \<noteq> org \<or> jr_status q \<notin> {JQueued, JRunning}"
  shows "q \<in> set (snd (job_claim org ws worker tok now lease locked t))"
proof (cases "pg_text worker")
  case True
  have keep: "\<not> claimable org now q" "\<not> exhausted org now q"
    using assms(3) by (auto simp: claimable_def exhausted_def)
  show ?thesis
  proof (rule claim_cases [OF assms(1) True])
    assume "job_claim org ws worker tok now lease locked t = (Inr None, retire org now t)"
    then show ?thesis using keep(2) assms(2) by (force simp: retire_def set_sql_update)
  next
    fix r
    assume "claimable org now r" and eq: "job_claim org ws worker tok now lease locked t =
         (Inr (Some (to_claim org ws tok (claim_row worker tok now lease r))),
          map (\<lambda>q. if q = r then claim_row worker tok now lease r
                   else if exhausted org now q then retire_row now q else q) t)"
    then have "q \<noteq> r" using keep(1) by blast
    then show ?thesis using keep(2) assms(2) unfolding eq by force
  qed
next
  case False
  have "\<not> exhausted org now q" using assms(3) by (auto simp: exhausted_def)
  then show ?thesis using False assms(2) by (force simp: job_claim_def Let_def retire_def set_sql_update)
qed

theorem claim_spares_live_lease_witness:
  "held_row \<in> set (snd (job_claim ''acme'' True ''w3'' ''k3'' 500000000 300 (\<lambda>r. False) [held_row]))"
  by (rule claim_spares_live_lease) (simp_all add: keys_unique_def held_row_def)

text \<open>
  C5: Over any run of statements from an empty board, a job's attempts are the claims that took it
  less the times it was parked, and stay between 0 and its maximum: parking a job any number of
  times costs no attempt, while every lost lease does.
\<close>

theorem attempts_are_claims_less_parkings:
  assumes "run_ok es (empty_board users now)"
    and "row_of k (bd_jobs (board_run es (empty_board users now))) = Some r"
  shows "jr_attempts r = count_events (claimed_by_event k) es (empty_board users now)
           - count_events (parked_by_event k) es (empty_board users now)
     \<and> 0 \<le> jr_attempts r \<and> jr_attempts r \<le> jr_max_attempts r"
proof -
  have a: "attempts_of k (bd_jobs (board_run es (empty_board users now))) = jr_attempts r"
    using assms(2) by (simp add: attempts_of_def)
  have z: "attempts_of k (bd_jobs (empty_board users now)) = 0"
    by (simp add: attempts_of_def row_of_def sql_first_def empty_board_def)
  show ?thesis
    using attempts_run [OF board_ok_empty assms(1), of k] attempts_le_max [OF _ assms(2)] a z by simp
qed

theorem attempts_are_claims_less_parkings_witness:
  "count_events (claimed_by_event (''acme'', ''j1'')) silent_run (empty_board {} 0)
     - count_events (parked_by_event (''acme'', ''j1'')) silent_run (empty_board {} 0) = 2"
  using attempts_are_claims_less_parkings [OF silent_run_ok silent_board_row [unfolded silent_board_def]]
  by (simp add: held_row_def)

text \<open>
  C6: The board implements the abstract life of a job: whatever statement runs, each job on the
  board stays on it, keeps its maximum, and moves by one step of \<open>phase_step\<close>, in which only a claim
  hands out a lease, only a job out of attempts is given up, and an ended job never moves.
\<close>

theorem job_follows_protocol:
  assumes "board_reach b" "event_ok e b" "row_of k (bd_jobs b) = Some r"
  shows "\<exists>r'. row_of k (bd_jobs (board_apply e b)) = Some r' \<and> jr_max_attempts r' = jr_max_attempts r
    \<and> phase_step (nat (jr_max_attempts r)) (phase_of r) (phase_of r')"
  using job_event_phase [OF board_ok_reach [OF assms(1)] assms(2,3)] .

theorem job_follows_protocol_witness:
  "\<exists>r'. row_of (''acme'', ''j1'') (bd_jobs (board_apply (ESuspend ''acme'' ''j1'' ''k2'') silent_board)) = Some r' \<and>
     phase_step 3 (PHeld ''k2'' 2) (phase_of r')"
proof -
  have "phase_of held_row = PHeld ''k2'' 2" "jr_max_attempts held_row = 3"
    by (simp_all add: held_row_def phase_of_def fresh_job_def)
  then show ?thesis
    using job_follows_protocol [OF silent_board_reach _ silent_board_row, of "ESuspend ''acme'' ''j1'' ''k2''"]
    by auto
qed

text \<open>
  C7: The end of a job is final: a job that has succeeded, failed or been given up keeps its row,
  outcome, output and finishing time included, on every later board.
\<close>

theorem ended_job_is_final:
  assumes "board_reach b" "board_step\<^sup>*\<^sup>* b b'" "row_of k (bd_jobs b) = Some r" "terminal r"
  shows "row_of k (bd_jobs b') = Some r"
  using assms(2,3)
proof (induction rule: rtranclp_induct)
  case base
  then show ?case .
next
  case (step c d)
  have "board_ok c" using sound_steps [OF step(1) board_ok_reach [OF assms(1)]] by simp
  moreover obtain e where "event_ok e c" "d = board_apply e c"
    using step(2) by (auto elim: board_stepE)
  ultimately obtain r' where "row_of k (bd_jobs d) = Some r'" "row_change c e r r'"
    using job_event_row [of c e k r] step(3) [OF step(4)] by blast
  then show ?case using row_change_terminal assms(4) by blast
qed

definition done_board :: board where
  "done_board = board_apply (EComplete ''acme'' ''j1'' ''k2'' OFailed (Some 2) None) silent_board"

theorem ended_job_is_final_witness:
  "row_of (''acme'', ''j1'') (bd_jobs (board_apply (EResume ''acme'' ''j1'') done_board))
     = Some (complete_row OFailed (Some 2) None 400000000 held_row)"
proof (rule ended_job_is_final)
  show "board_reach done_board"
    unfolding done_board_def by (rule board_reach.step [OF silent_board_reach board_step.event]) simp
  have "event_ok (EResume ''acme'' ''j1'') done_board" by simp
  then show "board_step\<^sup>*\<^sup>* done_board (board_apply (EResume ''acme'' ''j1'') done_board)"
    by (rule r_into_rtranclp [of board_step, OF board_step.event])
  have h: "held_under ''acme'' ''j1'' ''k2'' held_row"
    by (simp add: held_under_def owned_def held_row_def fresh_job_def)
  have k: "row_key held_row = (''acme'', ''j1'')" by (simp add: row_key_def held_row_def fresh_job_def)
  show "row_of (''acme'', ''j1'') (bd_jobs done_board) = Some (complete_row OFailed (Some 2) None 400000000 held_row)"
    using h k by (simp add: done_board_def job_complete_def opt_ok_def pg_int4_def silent_board_jobs
        sql_exists_def sql_update_def row_of_def sql_first_def silent_board_simps)
  show "terminal (complete_row OFailed (Some 2) None 400000000 held_row)"
    by (simp add: terminal_def complete_row_def)
qed

text \<open>
  C8: Parking keeps the conversation. A job that is parked by its worker, put back in the queue and
  claimed again, by whatever worker, comes back with the session it was parked with and the same
  count of attempts, whereas a job whose lease ran out comes back with no session and one attempt
  more.
\<close>

theorem parked_job_resumes_its_session:
  fixes now :: int
  assumes "keys_unique t" "r \<in> set t" "row_ok r" "jr_org_id r = org" "held_under org (jr_id r) k r"
  defines "t1 \<equiv> snd (job_suspend org (jr_id r) k now t)"
  defines "t2 \<equiv> snd (job_resume org (jr_id r) t1)"
  shows "fst (job_suspend org (jr_id r) k now t) = Inr LOk
    \<and> fst (job_resume org (jr_id r) t1) = Inr ROk
    \<and> (\<forall>ws worker tok now' lease locked c.
         fst (job_claim org ws worker tok now' lease locked t2) = Inr (Some c) \<and> cl_id c = jr_id r \<longrightarrow>
           cl_resumeSessionId c = jr_session_id r \<and> cl_attempts c = jr_attempts r)
    \<and> (\<forall>ws worker tok now' lease locked c.
         fst (job_claim org ws worker tok now' lease locked t) = Inr (Some c) \<and> cl_id c = jr_id r \<longrightarrow>
           cl_resumeSessionId c = None \<and> cl_attempts c = jr_attempts r + 1)"
proof -
  let ?p = "suspend_row now r" and ?q = "(suspend_row now r)\<lparr>jr_status := JQueued\<rparr>"
  have t1: "t1 = sql_update (held_under org (jr_id r) k) (suspend_row now) t"
    unfolding t1_def by (rule suspend_table)
  have u1: "keys_unique t1" using assms(1) by (simp add: t1 keys_unique_def)
  have p: "?p \<in> set t1" using assms(2,5) unfolding t1 set_sql_update by force
  have sb: "on_standby org (jr_id r) ?p" using assms(4) by (simp add: row_defs)
  have e1: "sql_exists (held_under org (jr_id r) k) t" "sql_exists (on_standby org (jr_id r)) t1"
    using assms(2,5) p sb unfolding sql_exists_iff by blast+
  have t2: "t2 = sql_update (on_standby org (jr_id r)) (\<lambda>r. r\<lparr>jr_status := JQueued\<rparr>) t1"
    using e1(2) by (simp add: t2_def job_resume_def)
  have u2: "keys_unique t2" using u1 by (simp add: t2 keys_unique_def)
  have q: "?q \<in> set t2" using p sb unfolding t2 set_sql_update by force
  have k: "row_key ?q = (org, jr_id r)" "row_key r = (org, jr_id r)"
    using assms(4) by (simp_all add: row_key_def suspend_row_def)
  have run: "jr_status r = JRunning" "1 \<le> jr_attempts r"
    using assms(3,5) by (auto simp: held_under_def row_ok_def)
  show ?thesis
  proof (intro conjI allI impI; (elim conjE)?)
    show "fst (job_suspend org (jr_id r) k now t) = Inr LOk" using e1 by (simp add: job_suspend_def)
    show "fst (job_resume org (jr_id r) t1) = Inr ROk" using e1 by (simp add: job_resume_def)
  qed (use claim_of_row [OF u2 q k(1)] claim_of_row [OF assms(1,2) k(2)] run in
      \<open>fastforce simp: to_claim_def claim_row_def suspend_row_def\<close>)+
qed

theorem parked_job_resumes_its_session_witness:
  "fst (job_suspend ''acme'' (jr_id held_row) ''k2'' 500000000 [held_row]) = Inr LOk"
  using parked_job_resumes_its_session [of "[held_row]" held_row "''acme''" "''k2''" 500000000]
  by (simp add: keys_unique_def held_row_def row_ok_def held_under_def owned_def fresh_job_def)

section \<open>Properties of the routes\<close>

text \<open>
  C9: Organizations are isolated: the reply of every route depends only on the jobs of the
  organization it is bound to, the request changes them as if no others existed, and the jobs of all
  other organizations are left as they are.
\<close>

theorem routes_isolate_organizations:
  "fst (jobRoutes ctx rq (filter (mine (jc_org ctx)) t)) = fst (jobRoutes ctx rq t) \<and>
   snd (jobRoutes ctx rq (filter (mine (jc_org ctx)) t)) = filter (mine (jc_org ctx)) (snd (jobRoutes ctx rq t)) \<and>
   filter (\<lambda>r. jr_org_id r \<noteq> jc_org ctx) (snd (jobRoutes ctx rq t)) = filter (\<lambda>r. jr_org_id r \<noteq> jc_org ctx) t"
  using jobRoutes_local [of ctx rq] unfolding org_local_def by blast

text \<open>
  C10: A refused request keeps every job that could still be worked on: unless the reply is 200 or 201 the table is
  as it was, but for one case, a claim that is answered 204 or 503, which may have marked dead the jobs of its
  organization whose attempts are spent. Any other refusal changes nothing at all.
\<close>

theorem refused_request_keeps_the_jobs:
  assumes "jobRoutes ctx rq t = (rep, t')" "code rep \<notin> {200, 201}"
  shows "(code rep \<in> {204, 503} \<and> (\<exists>raw. rq = RqClaim raw) \<longrightarrow> t' = t \<or> t' = retire (jc_org ctx) (jc_now ctx) t) \<and>
    (\<not> (code rep \<in> {204, 503} \<and> (\<exists>raw. rq = RqClaim raw)) \<longrightarrow> t' = t) \<and>
    (\<forall>r \<in> set t. \<not> exhausted (jc_org ctx) (jc_now ctx) r \<longrightarrow> r \<in> set t')"
proof -
  have "t' = t \<or> (\<exists>raw. rq = RqClaim raw \<and> code rep \<in> {204, 503} \<and> t' = retire (jc_org ctx) (jc_now ctx) t)"
    using jobRoutes_refused [OF assms(1)] assms(2) by blast
  then show ?thesis by (auto simp: retire_def sql_update_def)
qed

definition demo_ctx :: job_ctx where
  "demo_ctx = \<lparr>jc_org = ''acme'', jc_workspaces = True, jc_users = {}, jc_now = 800000000, jc_uuid = ''k9'',
     jc_locked = (\<lambda>r. False), jc_down = None\<rparr>"

definition demo_uuid :: string where
  "demo_uuid = ''0b7c1f7e-52a4-4f35-9a4c-0123456789ab''"

theorem refused_request_keeps_the_jobs_witness:
  "snd (jobRoutes demo_ctx (RqResume ''j1'') [held_row]) = [held_row]"
proof -
  have "jobRoutes demo_ctx (RqResume ''j1'') [held_row] = (bad_id, [held_row])"
    by (simp add: post_resume_def is_uuid_def)
  from refused_request_keeps_the_jobs [OF this] this show ?thesis by simp
qed

text \<open>
  A result whose output holds the character 0 among the 65536 that are kept is never recorded:
  the completion of a job that is held under the token it names is answered 503 and the job stays
  running, until its lease runs out and it is run again.
\<close>

theorem nul_output_is_never_recorded:
  assumes "is_uuid i" "uuid_str (member_of ''leaseToken'' (body raw)) = Some token"
    and "outcome_named (member_of ''status'' (body raw)) = Some outcome"
    and "exit_code_of (member_of ''exitCode'' (body raw)) = Some exitCode"
    and "output_of (member_of ''output'' (body raw)) = Some (Some out)" "\<not> pg_text out"
  shows "code (fst (post_complete ctx i raw t)) = 503 \<and> snd (post_complete ctx i raw t) = t"
  using assms
  by (cases "jc_down ctx") (simp_all add: post_complete_def job_call_def job_complete_def opt_ok_def)

definition nul_report :: "json option" where
  "nul_report = Some (JObj [(''leaseToken'', JStr demo_uuid), (''status'', JStr ''succeeded''),
     (''exitCode'', JNum 0), (''output'', JStr [CHR 0x61, CHR 0x00])])"

theorem nul_output_is_never_recorded_witness:
  "code (fst (post_complete demo_ctx demo_uuid nul_report [held_row])) = 503"
proof -
  have "is_uuid demo_uuid" by (simp add: demo_uuid_def is_uuid_def is_hex_i_def is_digit_def lower_char_def)
  then show ?thesis
    using nul_output_is_never_recorded [of demo_uuid nul_report demo_uuid OSucceeded "Some 0" "[CHR 0x61, CHR 0x00]"]
    by (simp add: nul_report_def uuid_str_def json_str_def body_def member_of_def outcome_named_def
        exit_code_of_def absent_def is_integer_def output_of_def pg_text_def)
qed

end
