(* ===== verification/Canonical.thy ===== *)
theory Canonical
  imports JsDate Complex_Main
begin

text \<open>
  The data of the dashboard: the provider-neutral pull request (\<open>core/src/canonical.ts\<close>), the records
  derived from it and the figures computed (\<open>core/src/types.ts\<close>), and the constants of
  \<open>core/src/config.ts\<close> and \<open>core/src/executors.ts\<close>.

  A JavaScript number that counts is an \<^typ>\<open>int\<close>, any other an exact \<^typ>\<open>rat\<close>: the rounding of
  binary floating point is not modelled. A nullable value is an option. Instants are the strings the
  code keeps.
\<close>

section \<open>The provider-neutral pull request\<close>

datatype ProviderId = GitHub | GitLab | Bitbucket
datatype CanonicalPrState = PrOpen | PrClosed | PrMerged
datatype CanonicalReviewState = RPending | RCommented | RApproved | RChangesRequested | RDismissed
datatype PrConnection = CReviews | CReviewThreads | CCommits

record CanonicalActor =
  login_of :: string

record CanonicalReview =
  cr_reviewKey :: string
  cr_author :: "CanonicalActor option"
  cr_state :: CanonicalReviewState
  cr_providerState :: string
  cr_submittedAt :: "string option"

record CanonicalReviewThread =
  ct_threadKey :: string
  ct_isResolved :: bool
  ct_isOutdated :: bool
  ct_firstCommentAuthor :: "CanonicalActor option"
  ct_firstCommentAt :: "string option"
  ct_parentReviewKey :: "string option"

record CanonicalCommit =
  cc_sha :: string
  cc_committedAt :: string

record CanonicalPr =
  cp_provider :: ProviderId
  cp_repo :: string
  cp_number :: int
  cp_title :: string
  cp_state :: CanonicalPrState
  cp_isDraft :: bool
  cp_baseRef :: string
  cp_headRef :: string
  cp_createdAt :: string
  cp_mergedAt :: "string option"
  cp_closedAt :: "string option"
  cp_updatedAt :: string
  cp_additions :: int
  cp_deletions :: int
  cp_changedFiles :: int
  cp_author :: "CanonicalActor option"
  cp_commitCount :: int
  cp_reviewCount :: int
  cp_threadCount :: int
  cp_issueCommentCount :: int
  cp_forcePushCount :: "int option"
  cp_readyAt :: "string option"
  cp_commits :: "CanonicalCommit list"
  cp_reviews :: "CanonicalReview list"
  cp_threads :: "CanonicalReviewThread list"
  cp_labels :: "string list"
  cp_truncated :: "PrConnection list"

record ProviderCapabilities =
  reviewLinkage :: bool

section \<open>Constants\<close>

definition DEFAULT_BOTS :: "string list" where
  "DEFAULT_BOTS = [''claude'', ''claude[bot]'', ''github-actions'', ''github-actions[bot]'',
     ''bellows-frontend-fix-bot'']"

definition AI_LABELS :: "string set" where
  "AI_LABELS = {''bellows-frontend-fix'', ''bellows-backend-fix''}"

definition ALL_CAPABILITIES :: ProviderCapabilities where
  "ALL_CAPABILITIES = \<lparr>reviewLinkage = True\<rparr>"

abbreviation HOUR :: int where "HOUR \<equiv> 3600 * 1000"

text \<open>\<open>/^revert[\s"']/i\<close>.\<close>

definition isRevertHeadline :: "string \<Rightarrow> bool" where
  "isRevertHeadline headline \<longleftrightarrow> js_lower (take 6 headline) = ''revert'' \<and>
     (case drop 6 headline of [] \<Rightarrow> False | c # _ \<Rightarrow> js_space c \<or> c = CHR 0x22 \<or> c = CHR 0x27)"

text \<open>A bucket's bound is \<open>None\<close> for \<open>Infinity\<close>; the dash of the labels is U+2013.\<close>

record SizeBucket =
  sb_label :: string
  sb_max :: "int option"

abbreviation en_dash :: string where
  "en_dash \<equiv> [CHR 0xE2, CHR 0x80, CHR 0x93]"

definition SIZE_BUCKETS :: "SizeBucket list" where
  "SIZE_BUCKETS =
     [\<lparr>sb_label = ''<50'', sb_max = Some 50\<rparr>,
      \<lparr>sb_label = ''50'' @ en_dash @ ''200'', sb_max = Some 200\<rparr>,
      \<lparr>sb_label = ''200'' @ en_dash @ ''1k'', sb_max = Some 1000\<rparr>,
      \<lparr>sb_label = ''1k'' @ en_dash @ ''5k'', sb_max = Some 5000\<rparr>,
      \<lparr>sb_label = ''>5k'', sb_max = None\<rparr>]"

definition EXECUTOR_TYPES :: "string list" where
  "EXECUTOR_TYPES = [''claude-code'', ''opencode'']"

section \<open>Derived records\<close>

record ThreadRecord =
  tr_author :: string
  tr_reviewId :: "string option"
  tr_resolved :: bool
  tr_outdated :: bool

record ThreadStats =
  th_total :: int
  th_threads :: "ThreadRecord list"
  th_bot :: int
  th_human :: int
  th_resolved :: int
  th_unresolvedOutdated :: int
  th_unresolvedLive :: int

record DerivedReview =
  dr_id :: string
  dr_author :: string
  dr_state :: string
  dr_submittedAt :: "string option"
  dr_bodyOnly :: "bool option"

record DerivedPr =
  dp_repo :: string
  dp_number :: int
  dp_title :: string
  dp_author :: string
  dp_authorIsBot :: bool
  dp_baseRefName :: string
  dp_headRefName :: string
  dp_state :: CanonicalPrState
  dp_createdAt :: string
  dp_mergedAt :: "string option"
  dp_labels :: "string list"
  dp_hasAiLabel :: bool
  dp_additions :: int
  dp_deletions :: int
  dp_size :: int
  dp_changedFiles :: int
  dp_commitCount :: int
  dp_issueComments :: int
  dp_reviewCount :: int
  dp_reviews :: "DerivedReview list"
  dp_bodyOnlyReviewCount :: "int option"
  dp_threads :: ThreadStats
  dp_forcePushes :: "int option"
  dp_readyAt :: "string option"
  dp_firstReviewAt :: "string option"
  dp_firstHumanReviewAt :: "string option"
  dp_commitsAfterAnyReview :: int
  dp_commitsAfterHumanReview :: int
  dp_cycleHours :: "rat option"
  dp_cycleFromReadyHours :: "rat option"
  dp_firstReviewWaitHours :: "rat option"
  dp_firstHumanReviewWaitHours :: "rat option"
  dp_lastCommitToMergeHours :: "rat option"
  dp_truncated :: "PrConnection list"

record BranchHistory =
  bh_branch :: string
  bh_since :: string
  bh_commits :: int
  bh_reverts :: int

record TruncatedPr =
  tp_repo :: string
  tp_number :: int
  tp_connections :: "PrConnection list"

record WeekPoint =
  wp_week :: string
  wp_start :: string
  wp_merges :: int
  wp_loc :: int
  wp_resolved :: int
  wp_unresolvedOutdated :: int
  wp_unresolvedLive :: int
  wp_cycleP50 :: "rat option"
  wp_partial :: bool

record ReviewerRow =
  rr_login :: string
  rr_isBot :: bool
  rr_threads :: int
  rr_resolved :: int
  rr_bodyOnlyReviews :: "int option"
  rr_reviews :: int
  rr_prsTouched :: int
  rr_resolvedRatio :: "rat option"

record AuthorRow =
  ar_login :: string
  ar_isBot :: bool
  ar_merged :: int
  ar_medianSize :: "rat option"
  ar_medianCommits :: "rat option"
  ar_cycleP50 :: "rat option"
  ar_reworkRatio :: "rat option"
  ar_threadsReceived :: int
  ar_unresolvedRatio :: "rat option"

section \<open>The figures of the page\<close>

record MetaCounts =
  mc_all :: int
  mc_mergedToBase :: int
  mc_open :: int
  mc_closedUnmerged :: int

record StatsMeta =
  sm_generatedAt :: string
  sm_baseBranch :: string
  sm_truncated :: "TruncatedPr list"
  sm_counts :: MetaCounts
  sm_window_from :: "string option"
  sm_window_to :: "string option"

record Headline =
  hl_unresolvedThreadRatio :: "rat option"
  hl_mergesPerWeek :: "rat option"
  hl_cycleP50 :: "rat option"
  hl_cycleP90 :: "rat option"
  hl_reworkAfterAnyReview :: "rat option"
  hl_reworkAfterHumanReview :: "rat option"
  hl_botThreadsPerPr :: "rat option"
  hl_humanThreadsPerPr :: "rat option"
  hl_medianSize :: "rat option"

record ThreadTotals =
  tt_total :: int
  tt_resolved :: int
  tt_unresolvedOutdated :: int
  tt_unresolvedLive :: int
  tt_bot :: int
  tt_human :: int

record CycleStats =
  cy_p50 :: "rat option"
  cy_p90 :: "rat option"
  cy_p50FromReady :: "rat option"
  cy_firstReviewWaitP50 :: "rat option"
  cy_firstHumanReviewWaitP50 :: "rat option"
  cy_lastCommitToMergeP50 :: "rat option"

record ReworkStats =
  rw_prsWithAnyReview :: int
  rw_prsWithHumanReview :: int
  rw_afterAnyReview :: int
  rw_afterHumanReview :: int
  rw_medianCommitsAfterAnyReview :: "rat option"
  rw_medianCommitsAfterHumanReview :: "rat option"
  rw_forcePushes :: "int option"

record HistogramBar =
  hb_label :: string
  hb_count :: int

record ScatterPoint =
  sp_repo :: string
  sp_number :: int
  sp_size :: int
  sp_hours :: rat
  sp_botThreads :: int

record SizeStats =
  sz_histogram :: "HistogramBar list"
  sz_scatter :: "ScatterPoint list"
  sz_medianChangedFiles :: "rat option"

record QualityStats =
  ql_labelledPrs :: int
  ql_mergedPrs :: int
  ql_instantMerges :: int
  ql_history :: "BranchHistory option"
  ql_revertRatio :: "rat option"

record Stats =
  st_meta :: StatsMeta
  st_headline :: Headline
  st_threads :: ThreadTotals
  st_weekly :: "WeekPoint list"
  st_cycle :: CycleStats
  st_rework :: ReworkStats
  st_size :: SizeStats
  st_commitsHistogram :: "HistogramBar list"
  st_reviewers :: "ReviewerRow list"
  st_authors :: "AuthorRow list"
  st_quality :: QualityStats

section \<open>Agent telemetry\<close>

record SessionBranchSpan =
  ss_sessionId :: string
  ss_repo :: string
  ss_branch :: "string option"
  ss_headSha :: "string option"
  ss_from :: string
  ss_to :: string
  ss_samples :: int

record TokenTotals =
  tk_input :: "rat option"
  tk_output :: "rat option"
  tk_cacheRead :: "rat option"
  tk_cacheCreation :: "rat option"

datatype Granularity = GWindow | GSession

record SessionRollup =
  sr_sessionId :: string
  sr_agent :: string
  sr_repo :: "string option"
  sr_firstSeen :: string
  sr_lastSeen :: string
  sr_tokens :: TokenTotals
  sr_linesAdded :: "rat option"
  sr_linesRemoved :: "rat option"
  sr_editsAccepted :: "rat option"
  sr_editsRejected :: "rat option"
  sr_activeSeconds :: "rat option"
  sr_commits :: "rat option"
  sr_pullRequests :: "rat option"
  sr_granularity :: Granularity

record SessionSpanSplit =
  sl_sessionId :: string
  sl_repo :: string
  sl_branch :: "string option"
  sl_from :: string
  sl_to :: string
  sl_share :: "rat option"
  sl_tokens :: TokenTotals
  sl_linesAdded :: "rat option"
  sl_linesRemoved :: "rat option"
  sl_editsAccepted :: "rat option"
  sl_editsRejected :: "rat option"
  sl_activeSeconds :: "rat option"

record SessionPrLink =
  lk_sessionId :: string
  lk_repo :: string
  lk_prNumber :: int
  lk_at :: string

record Coverage =
  cv_from :: "string option"
  cv_to :: "string option"

record TelemetryInput =
  ti_sessions :: "SessionRollup list"
  ti_spans :: "SessionBranchSpan list"
  ti_splits :: "SessionSpanSplit list"
  ti_links :: "SessionPrLink list"
  ti_coverage :: Coverage

record PrTelemetryKey =
  pk_repo :: string
  pk_number :: int
  pk_author :: string
  pk_headRefName :: string
  pk_createdAt :: string
  pk_mergedAt :: "string option"
  pk_size :: int
  pk_cycleHours :: "rat option"
  pk_commitsAfterHumanReview :: int

datatype Attribution = ALinked | AExact | AShared | ANone

record PrTelemetryRow =
  pt_repo :: string
  pt_number :: int
  pt_branch :: string
  pt_author :: string
  pt_mergedAt :: "string option"
  pt_size :: int
  pt_cycleHours :: "rat option"
  pt_commitsAfterHumanReview :: int
  pt_sessions :: int
  pt_tokens :: TokenTotals
  pt_linesAdded :: "rat option"
  pt_linesRemoved :: "rat option"
  pt_editsAccepted :: "rat option"
  pt_editsRejected :: "rat option"
  pt_acceptRatio :: "rat option"
  pt_activeHours :: "rat option"
  pt_tokensPerLoc :: "rat option"
  pt_attribution :: Attribution

record TelemetryWeekPoint =
  tw_week :: string
  tw_start :: string
  tw_sessions :: int
  tw_tokens :: TokenTotals
  tw_linesAdded :: rat
  tw_linesRemoved :: rat
  tw_partial :: bool

record TelemetryTotals =
  to_sessions :: int
  to_tokens :: TokenTotals
  to_activeHours :: "rat option"
  to_linesAdded :: "rat option"
  to_linesRemoved :: "rat option"
  to_acceptRatio :: "rat option"

record Unmatched =
  um_sessions :: int
  um_tokens :: TokenTotals
  um_branches :: "(string \<times> string) list"

record TelemetryStats =
  ts_totals :: TelemetryTotals
  ts_prs :: "PrTelemetryRow list"
  ts_unmatched :: Unmatched
  ts_prsWithoutTelemetry :: int
  ts_sharedSessions :: int
  ts_linkedSessions :: int
  ts_otherRepoSessions :: int
  ts_sessionsWithoutHook :: int
  ts_weekly :: "TelemetryWeekPoint list"
  ts_coverage :: Coverage

end
