(* ===== verification/Metrics.thy ===== *)
theory Metrics
  imports Canonical
begin

text \<open>
  The pure core of the dashboard, \<open>core/src/metrics.ts\<close>: percentiles, ISO weeks, the record derived
  from a pull request, the weekly series, the tables and \<open>compute\<close>.

  \<open>coll\<close> stands for the host's collation: \<open>a.localeCompare(b)\<close> compares \<open>coll a\<close> with \<open>coll b\<close>, and
  sorting is stable. A bot list is the set of its logins. \<open>derive\<close> is \<open>None\<close> when a figure would be
  \<open>NaN\<close> because a timestamp is not a date; \<open>weeklySeries\<close> and \<open>compute\<close> are \<open>None\<close> where
  \<open>toISOString\<close> throws \<open>RangeError\<close>, on a merge instant that is not a date.
\<close>

section \<open>Percentiles\<close>

text \<open>In arithmetic and in the comparator \<open>null\<close> counts as 0.\<close>

definition num :: "rat option \<Rightarrow> rat" where
  "num v = (case v of None \<Rightarrow> 0 | Some q \<Rightarrow> q)"

text \<open>\<open>sorted[i]\<close>; the code reads within bounds for the percentages it uses, 50 and 90.\<close>

definition at_index :: "rat option list \<Rightarrow> int \<Rightarrow> rat option" where
  "at_index xs i = (if 0 \<le> i \<and> nat i < length xs then xs ! nat i else None)"

definition percentile :: "rat option list \<Rightarrow> rat \<Rightarrow> rat option" where
  "percentile values p =
     (if values = [] then None
      else
        (let sorted = sort_key num values;
             rank = p / 100 * of_int (int (length sorted) - 1);
             low = \<lfloor>rank\<rfloor>; high = \<lceil>rank\<rceil> in
         if low = high then at_index sorted low
         else Some (num (at_index sorted low) +
           (num (at_index sorted high) - num (at_index sorted low)) * (rank - of_int low))))"

definition median :: "rat option list \<Rightarrow> rat option" where
  "median values = percentile values 50"

definition ints :: "int list \<Rightarrow> rat option list" where
  "ints xs = map (\<lambda>i. Some (of_int i)) xs"

text \<open>A number is falsy when it is 0.\<close>

definition ratio :: "int \<Rightarrow> int \<Rightarrow> rat option" where
  "ratio part whole = (if whole \<noteq> 0 then Some (of_int part / of_int whole) else None)"

section \<open>ISO weeks\<close>

definition round_div :: "int \<Rightarrow> int \<Rightarrow> int" where
  "round_div a b = \<lfloor>of_int a / of_int b + 1 / (2 :: rat)\<rfloor>"

definition week_of_ms :: "int \<Rightarrow> string" where
  "week_of_ms d =
     (let day = (utc_day d + 6) mod 7;
          thursday = date_utc (utc_full_year d) (utc_month d) (utc_date d - day + 3);
          jan4 = date_utc (utc_full_year thursday) 0 4;
          firstDay = (utc_day jan4 + 6) mod 7;
          firstThursday = set_utc_date jan4 (utc_date jan4 - firstDay + 3);
          week = 1 + round_div (thursday - firstThursday) (7 * 24 * HOUR) in
      int_str (utc_full_year thursday) @ ''-W'' @ pad_zero 2 (int_str week))"

definition isoWeekKey :: "string \<Rightarrow> string" where
  "isoWeekKey isoDate = (case parse_date isoDate of None \<Rightarrow> ''NaN-WNaN'' | Some d \<Rightarrow> week_of_ms d)"

definition week_start_ms :: "int \<Rightarrow> int" where
  "week_start_ms d =
     date_utc (utc_full_year d) (utc_month d) (utc_date d - (utc_day d + 6) mod 7)"

definition weekStart :: "string \<Rightarrow> int option" where
  "weekStart isoDate = map_option week_start_ms (parse_date isoDate)"

section \<open>One record per pull request\<close>

definition login :: "CanonicalActor option \<Rightarrow> string" where
  "login actor = (case actor of None \<Rightarrow> ''ghost'' | Some a \<Rightarrow> login_of a)"

definition defaultBots :: "string set" where
  "defaultBots = set DEFAULT_BOTS"

definition timeline ::
  "(string \<Rightarrow> 'k :: linorder) \<Rightarrow> CanonicalPr \<Rightarrow> string list \<times> (string \<times> string) list"
where
  "timeline coll pr =
     (sort (map cc_committedAt (cp_commits pr)),
      sort_key (\<lambda>r. coll (fst r))
        (map (\<lambda>r. (the (cr_submittedAt r), login (cr_author r)))
          (filter (\<lambda>r. truthy (cr_submittedAt r)) (cp_reviews pr))))"

definition count_if :: "('a \<Rightarrow> bool) \<Rightarrow> 'a list \<Rightarrow> int" where
  "count_if p xs = int (length (filter p xs))"

definition threadStats :: "string set \<Rightarrow> CanonicalPr \<Rightarrow> ThreadStats" where
  "threadStats bots pr =
     (let threads = map (\<lambda>t. \<lparr>tr_author = login (ct_firstCommentAuthor t),
          tr_reviewId = ct_parentReviewKey t, tr_resolved = ct_isResolved t,
          tr_outdated = ct_isOutdated t\<rparr>) (cp_threads pr) in
      \<lparr>th_total = cp_threadCount pr, th_threads = threads,
       th_bot = count_if (\<lambda>t. (tr_author t \<in> bots) = True) threads,
       th_human = count_if (\<lambda>t. (tr_author t \<in> bots) = False) threads,
       th_resolved = count_if tr_resolved threads,
       th_unresolvedOutdated = count_if (\<lambda>t. \<not> tr_resolved t \<and> tr_outdated t) threads,
       th_unresolvedLive = count_if (\<lambda>t. \<not> tr_resolved t \<and> \<not> tr_outdated t) threads\<rparr>)"

text \<open>Hours between two instants; \<open>None\<close> is \<open>NaN\<close>. \<open>hours_if\<close> is the conditional figure: null or hours.\<close>

definition hours_between :: "string \<Rightarrow> string \<Rightarrow> rat option" where
  "hours_between a b =
     (case (parse_date a, parse_date b) of
        (Some x, Some y) \<Rightarrow> Some (of_int (y - x) / of_int HOUR)
      | _ \<Rightarrow> None)"

definition hours_if :: "bool \<Rightarrow> string option \<Rightarrow> string option \<Rightarrow> rat option option" where
  "hours_if c a b = (if c then map_option Some (hours_between (the a) (the b)) else Some None)"

definition commits_after :: "string list \<Rightarrow> string option \<Rightarrow> int" where
  "commits_after commits mark = (if truthy mark then count_if (\<lambda>c. the mark < c) commits else 0)"

definition thread_review_keys :: "CanonicalPr \<Rightarrow> string set" where
  "thread_review_keys pr = the ` set (filter truthy (map ct_parentReviewKey (cp_threads pr)))"

text \<open>The first review, the first by no bot, and the last commit, as \<open>derive\<close> finds them in the timeline.\<close>

definition first_review :: "(string \<Rightarrow> 'k :: linorder) \<Rightarrow> CanonicalPr \<Rightarrow> (string \<times> string) option" where
  "first_review coll pr = (case snd (timeline coll pr) of [] \<Rightarrow> None | r # _ \<Rightarrow> Some r)"

definition first_human_review ::
  "(string \<Rightarrow> 'k :: linorder) \<Rightarrow> string set \<Rightarrow> CanonicalPr \<Rightarrow> (string \<times> string) option"
where
  "first_human_review coll bots pr = find (\<lambda>r. snd r \<notin> bots) (snd (timeline coll pr))"

definition last_commit :: "(string \<Rightarrow> 'k :: linorder) \<Rightarrow> CanonicalPr \<Rightarrow> string option" where
  "last_commit coll pr =
     (let commits = fst (timeline coll pr) in if commits = [] then None else Some (last commits))"

text \<open>The record, given its five figures in hours.\<close>

definition derived_record ::
  "(string \<Rightarrow> 'k :: linorder) \<Rightarrow> string set \<Rightarrow> ProviderCapabilities \<Rightarrow> CanonicalPr
    \<Rightarrow> rat option \<Rightarrow> rat option \<Rightarrow> rat option \<Rightarrow> rat option \<Rightarrow> rat option \<Rightarrow> DerivedPr"
where
  "derived_record coll bots caps pr cycle cycleReady wait humanWait lastToMerge =
     (let commits = fst (timeline coll pr);
          firstAt = map_option fst (first_review coll pr);
          firstHumanAt = map_option fst (first_human_review coll bots pr);
          keys = thread_review_keys pr in
      \<lparr>dp_repo = cp_repo pr, dp_number = cp_number pr, dp_title = cp_title pr,
        dp_author = login (cp_author pr), dp_authorIsBot = (login (cp_author pr) \<in> bots),
        dp_baseRefName = cp_baseRef pr, dp_headRefName = cp_headRef pr, dp_state = cp_state pr,
        dp_createdAt = cp_createdAt pr, dp_mergedAt = cp_mergedAt pr, dp_labels = cp_labels pr,
        dp_hasAiLabel = list_ex (\<lambda>l. l \<in> AI_LABELS) (cp_labels pr),
        dp_additions = cp_additions pr, dp_deletions = cp_deletions pr,
        dp_size = cp_additions pr + cp_deletions pr, dp_changedFiles = cp_changedFiles pr,
        dp_commitCount = cp_commitCount pr, dp_issueComments = cp_issueCommentCount pr,
        dp_reviewCount = cp_reviewCount pr,
        dp_reviews = map (\<lambda>r. \<lparr>dr_id = cr_reviewKey r, dr_author = login (cr_author r),
          dr_state = cr_providerState r, dr_submittedAt = cr_submittedAt r,
          dr_bodyOnly = (if reviewLinkage caps then Some (cr_reviewKey r \<notin> keys) else None)\<rparr>)
          (cp_reviews pr),
        dp_bodyOnlyReviewCount =
          (if reviewLinkage caps then Some (count_if (\<lambda>r. cr_reviewKey r \<notin> keys) (cp_reviews pr))
           else None),
        dp_threads = threadStats bots pr, dp_forcePushes = cp_forcePushCount pr, dp_readyAt = cp_readyAt pr,
        dp_firstReviewAt = firstAt, dp_firstHumanReviewAt = firstHumanAt,
        dp_commitsAfterAnyReview = commits_after commits firstAt,
        dp_commitsAfterHumanReview = commits_after commits firstHumanAt,
        dp_cycleHours = cycle, dp_cycleFromReadyHours = cycleReady,
        dp_firstReviewWaitHours = wait, dp_firstHumanReviewWaitHours = humanWait,
        dp_lastCommitToMergeHours = lastToMerge, dp_truncated = cp_truncated pr\<rparr>)"

definition derive ::
  "(string \<Rightarrow> 'k :: linorder) \<Rightarrow> string set \<Rightarrow> ProviderCapabilities \<Rightarrow> CanonicalPr \<Rightarrow> DerivedPr option"
where
  "derive coll bots caps pr =
     (let firstAt = map_option fst (first_review coll pr);
          firstHumanAt = map_option fst (first_human_review coll bots pr);
          lastCommit = last_commit coll pr;
          created = Some (cp_createdAt pr); merged = cp_mergedAt pr; isMerged = truthy merged in
      Option.bind (hours_if isMerged created merged) (\<lambda>cycle.
      Option.bind (hours_if (isMerged \<and> truthy (cp_readyAt pr)) (cp_readyAt pr) merged) (\<lambda>cycleReady.
      Option.bind (hours_if (firstAt \<noteq> None) created firstAt) (\<lambda>wait.
      Option.bind (hours_if (firstHumanAt \<noteq> None) created firstHumanAt) (\<lambda>humanWait.
      Option.bind (hours_if (isMerged \<and> truthy lastCommit) lastCommit merged) (\<lambda>lastToMerge.
      Some (derived_record coll bots caps pr cycle cycleReady wait humanWait lastToMerge)))))))"

fun deriveAll ::
  "(string \<Rightarrow> 'k :: linorder) \<Rightarrow> string set \<Rightarrow> ProviderCapabilities \<Rightarrow> CanonicalPr list \<Rightarrow> DerivedPr list option"
where
  "deriveAll coll bots caps [] = Some []"
| "deriveAll coll bots caps (pr # prs) =
     Option.bind (derive coll bots caps pr) (\<lambda>d. map_option (Cons d) (deriveAll coll bots caps prs))"

section \<open>The weekly series\<close>

definition sizeBucket :: "int \<Rightarrow> SizeBucket" where
  "sizeBucket sz =
     (case find (\<lambda>b. case sb_max b of None \<Rightarrow> True | Some m \<Rightarrow> sz < m) SIZE_BUCKETS of
        Some b \<Rightarrow> b | None \<Rightarrow> last SIZE_BUCKETS)"

record WeekBucket =
  wb_week :: string
  wb_start :: string
  wb_merges :: int
  wb_loc :: int
  wb_cycles :: "rat option list"
  wb_resolved :: int
  wb_unresolvedOutdated :: int
  wb_unresolvedLive :: int

text \<open>The bucket of the week of an instant (the code prints the cursor and parses it back).\<close>

definition emptyWeek :: "int \<Rightarrow> WeekBucket" where
  "emptyWeek d =
     \<lparr>wb_week = week_of_ms d, wb_start = take 10 (to_iso (week_start_ms d)), wb_merges = 0, wb_loc = 0,
      wb_cycles = [], wb_resolved = 0, wb_unresolvedOutdated = 0, wb_unresolvedLive = 0\<rparr>"

text \<open>The instants the cursor takes: a step moves it by seven days, so the loop ends.\<close>

function week_cursor :: "int \<Rightarrow> int \<Rightarrow> int list" where
  "week_cursor cursor stop =
     (if cursor \<le> stop then cursor # week_cursor (set_utc_date cursor (utc_date cursor + 7)) stop else [])"
  by pat_completeness auto
termination
  by (relation "measure (\<lambda>(cursor, stop). nat (stop + 1 - cursor))") (auto simp: set_utc_date_add)

declare week_cursor.simps [simp del]

definition seed_weeks :: "int \<Rightarrow> int \<Rightarrow> (string \<times> WeekBucket) list" where
  "seed_weeks earliest latest =
     fold (\<lambda>c weeks. map_set (week_of_ms c) (emptyWeek c) weeks)
       (week_cursor (week_start_ms earliest) (week_start_ms latest)) []"

definition add_to_week :: "DerivedPr \<Rightarrow> WeekBucket \<Rightarrow> WeekBucket" where
  "add_to_week pr b =
     b\<lparr>wb_merges := wb_merges b + 1, wb_loc := wb_loc b + dp_size pr,
       wb_cycles := wb_cycles b @ [dp_cycleHours pr],
       wb_resolved := wb_resolved b + th_resolved (dp_threads pr),
       wb_unresolvedOutdated := wb_unresolvedOutdated b + th_unresolvedOutdated (dp_threads pr),
       wb_unresolvedLive := wb_unresolvedLive b + th_unresolvedLive (dp_threads pr)\<rparr>"

definition week_point :: "string \<Rightarrow> WeekBucket \<Rightarrow> WeekPoint" where
  "week_point current b =
     \<lparr>wp_week = wb_week b, wp_start = wb_start b, wp_merges = wb_merges b, wp_loc = wb_loc b,
      wp_resolved = wb_resolved b, wp_unresolvedOutdated = wb_unresolvedOutdated b,
      wp_unresolvedLive = wb_unresolvedLive b, wp_cycleP50 = median (wb_cycles b),
      wp_partial = (wb_week b = current)\<rparr>"

definition merge_string :: "DerivedPr \<Rightarrow> string" where
  "merge_string pr = the (dp_mergedAt pr)"

definition week_map :: "(DerivedPr \<times> int) list \<Rightarrow> int \<Rightarrow> int \<Rightarrow> (string \<times> WeekBucket) list" where
  "week_map dated earliest latest =
     fold (\<lambda>(pr, ms) weeks. map_bump (week_of_ms ms) (emptyWeek ms) (add_to_week pr) weeks) dated
       (seed_weeks earliest latest)"

definition weeklySeries ::
  "(string \<Rightarrow> 'k :: linorder) \<Rightarrow> DerivedPr list \<Rightarrow> int \<Rightarrow> WeekPoint list option"
where
  "weeklySeries coll merged now =
     (case merged of
        [] \<Rightarrow> Some []
      | first # _ \<Rightarrow>
          (let earliest = fold (\<lambda>pr m. if merge_string pr < m then merge_string pr else m) merged (merge_string first);
               latest = fold (\<lambda>pr m. if m < merge_string pr then merge_string pr else m) merged (merge_string first) in
           case (those (map (\<lambda>pr. map_option (Pair pr) (parse_date (merge_string pr))) merged),
                 parse_date earliest, parse_date latest) of
             (Some dated, Some e, Some l) \<Rightarrow>
               Some (map (week_point (isoWeekKey (to_iso now)))
                 (sort_key (\<lambda>b. coll (wb_week b)) (map snd (week_map dated e l))))
           | _ \<Rightarrow> None))"

section \<open>The tables\<close>

record ReviewerAcc =
  ra_isBot :: bool
  ra_threads :: int
  ra_resolved :: int
  ra_bodyOnlyReviews :: "int option"
  ra_reviews :: int
  ra_prsTouched :: int

type_synonym reviewer_rows = "(string \<times> ReviewerAcc) list"

definition new_reviewer :: "string set \<Rightarrow> string \<Rightarrow> ReviewerAcc" where
  "new_reviewer bots name =
     \<lparr>ra_isBot = (name \<in> bots), ra_threads = 0, ra_resolved = 0, ra_bodyOnlyReviews = Some 0,
      ra_reviews = 0, ra_prsTouched = 0\<rparr>"

definition bump_row ::
  "string set \<Rightarrow> string \<Rightarrow> (ReviewerAcc \<Rightarrow> ReviewerAcc) \<Rightarrow> reviewer_rows \<Rightarrow> reviewer_rows"
where
  "bump_row bots name f rows = map_bump name (new_reviewer bots name) f rows"

definition count_thread :: "ThreadRecord \<Rightarrow> ReviewerAcc \<Rightarrow> ReviewerAcc" where
  "count_thread t r =
     r\<lparr>ra_threads := ra_threads r + 1,
       ra_resolved := (if tr_resolved t then ra_resolved r + 1 else ra_resolved r)\<rparr>"

definition count_review :: "DerivedReview \<Rightarrow> ReviewerAcc \<Rightarrow> ReviewerAcc" where
  "count_review v r =
     r\<lparr>ra_reviews := ra_reviews r + 1,
       ra_bodyOnlyReviews :=
         (case dr_bodyOnly v of
            None \<Rightarrow> None
          | Some b \<Rightarrow> if b then map_option (\<lambda>n. n + 1) (ra_bodyOnlyReviews r) else ra_bodyOnlyReviews r)\<rparr>"

definition count_touched :: "ReviewerAcc \<Rightarrow> ReviewerAcc" where
  "count_touched r = r\<lparr>ra_prsTouched := ra_prsTouched r + 1\<rparr>"

definition review_pr :: "string set \<Rightarrow> DerivedPr \<Rightarrow> reviewer_rows \<Rightarrow> reviewer_rows" where
  "review_pr bots pr rows =
     (let threads = th_threads (dp_threads pr);
          rows1 = fold (\<lambda>t. bump_row bots (tr_author t) (count_thread t)) threads rows;
          rows2 = fold (\<lambda>v. bump_row bots (dr_author v) (count_review v)) (dp_reviews pr) rows1;
          seen = first_seen (map tr_author threads @ map dr_author (dp_reviews pr)) in
      fold (\<lambda>name. bump_row bots name count_touched) seen rows2)"

definition reviewer_row :: "string \<times> ReviewerAcc \<Rightarrow> ReviewerRow" where
  "reviewer_row e =
     (case e of (name, r) \<Rightarrow>
      \<lparr>rr_login = name, rr_isBot = ra_isBot r, rr_threads = ra_threads r, rr_resolved = ra_resolved r,
       rr_bodyOnlyReviews = ra_bodyOnlyReviews r, rr_reviews = ra_reviews r,
       rr_prsTouched = ra_prsTouched r, rr_resolvedRatio = ratio (ra_resolved r) (ra_threads r)\<rparr>)"

definition reviewerTable :: "string set \<Rightarrow> DerivedPr list \<Rightarrow> ReviewerRow list" where
  "reviewerTable bots merged =
     sort_key (\<lambda>r. (- rr_threads r, - rr_reviews r))
       (map reviewer_row (fold (review_pr bots) merged []))"

definition author_groups :: "DerivedPr list \<Rightarrow> (string \<times> DerivedPr list) list" where
  "author_groups merged = fold (\<lambda>pr. map_bump (dp_author pr) [] (\<lambda>prs. prs @ [pr])) merged []"

definition total_of :: "(DerivedPr \<Rightarrow> int) \<Rightarrow> DerivedPr list \<Rightarrow> int" where
  "total_of f prs = fold (\<lambda>pr n. n + f pr) prs 0"

definition author_row :: "string set \<Rightarrow> string \<times> DerivedPr list \<Rightarrow> AuthorRow" where
  "author_row bots e =
     (case e of (name, prs) \<Rightarrow>
      let threadsReceived = total_of (\<lambda>pr. th_total (dp_threads pr)) prs;
          resolvedReceived = total_of (\<lambda>pr. th_resolved (dp_threads pr)) prs in
      \<lparr>ar_login = name, ar_isBot = (name \<in> bots), ar_merged = int (length prs),
       ar_medianSize = median (ints (map dp_size prs)),
       ar_medianCommits = median (ints (map dp_commitCount prs)),
       ar_cycleP50 = median (map dp_cycleHours prs),
       ar_reworkRatio = ratio (count_if (\<lambda>pr. 0 < dp_commitsAfterHumanReview pr) prs) (int (length prs)),
       ar_threadsReceived = threadsReceived,
       ar_unresolvedRatio = ratio (threadsReceived - resolvedReceived) threadsReceived\<rparr>)"

definition authorTable ::
  "(string \<Rightarrow> 'k :: linorder) \<Rightarrow> string set \<Rightarrow> DerivedPr list \<Rightarrow> AuthorRow list"
where
  "authorTable coll bots merged =
     sort_key (\<lambda>r. coll (ar_login r)) (map (author_row bots) (author_groups merged))"

section \<open>The figures\<close>

definition add_totals :: "DerivedPr \<Rightarrow> ThreadTotals \<Rightarrow> ThreadTotals" where
  "add_totals pr acc =
     (let t = dp_threads pr in
      \<lparr>tt_total = tt_total acc + th_total t, tt_resolved = tt_resolved acc + th_resolved t,
       tt_unresolvedOutdated = tt_unresolvedOutdated acc + th_unresolvedOutdated t,
       tt_unresolvedLive = tt_unresolvedLive acc + th_unresolvedLive t,
       tt_bot = tt_bot acc + th_bot t, tt_human = tt_human acc + th_human t\<rparr>)"

definition threadTotals :: "DerivedPr list \<Rightarrow> ThreadTotals" where
  "threadTotals merged =
     fold add_totals merged \<lparr>tt_total = 0, tt_resolved = 0, tt_unresolvedOutdated = 0,
       tt_unresolvedLive = 0, tt_bot = 0, tt_human = 0\<rparr>"

definition size_histogram :: "DerivedPr list \<Rightarrow> HistogramBar list" where
  "size_histogram merged =
     map (\<lambda>b. \<lparr>hb_label = sb_label b,
       hb_count = count_if (\<lambda>pr. sb_label (sizeBucket (dp_size pr)) = sb_label b) merged\<rparr>) SIZE_BUCKETS"

definition size_scatter :: "DerivedPr list \<Rightarrow> ScatterPoint list" where
  "size_scatter merged =
     map (\<lambda>pr. \<lparr>sp_repo = dp_repo pr, sp_number = dp_number pr, sp_size = dp_size pr,
         sp_hours = the (dp_cycleHours pr), sp_botThreads = th_bot (dp_threads pr)\<rparr>)
       (filter (\<lambda>pr. dp_cycleHours pr \<noteq> None \<and> 0 < dp_size pr) merged)"

definition commits_histogram :: "DerivedPr list \<Rightarrow> HistogramBar list" where
  "commits_histogram merged =
     map (\<lambda>(commits, n). \<lparr>hb_label = (if commits = 10 then ''10+'' else int_str commits), hb_count = n\<rparr>)
       (sort_key fst (fold (\<lambda>pr. map_bump (min (dp_commitCount pr) 10) 0 (\<lambda>n. n + 1)) merged []))"

definition force_pushes :: "DerivedPr list \<Rightarrow> int option" where
  "force_pushes merged =
     (if list_ex (\<lambda>pr. dp_forcePushes pr = None) merged then None
      else Some (total_of (\<lambda>pr. the (dp_forcePushes pr)) merged))"

definition merged_to :: "string \<Rightarrow> DerivedPr list \<Rightarrow> DerivedPr list" where
  "merged_to baseBranch all = filter (\<lambda>pr. truthy (dp_mergedAt pr) \<and> dp_baseRefName pr = baseBranch) all"

definition compute ::
  "(string \<Rightarrow> 'k :: linorder) \<Rightarrow> BranchHistory option \<Rightarrow> string \<Rightarrow> string set \<Rightarrow> int \<Rightarrow> DerivedPr list
    \<Rightarrow> Stats option"
where
  "compute coll history baseBranch bots now all =
     (let merged = merged_to baseBranch all;
          truncated = map (\<lambda>pr. \<lparr>tp_repo = dp_repo pr, tp_number = dp_number pr, tp_connections = dp_truncated pr\<rparr>)
            (filter (\<lambda>pr. dp_truncated pr \<noteq> []) all);
          totals = threadTotals merged;
          cycles = map dp_cycleHours merged;
          withAnyReview = filter (\<lambda>pr. truthy (dp_firstReviewAt pr)) merged;
          withHumanReview = filter (\<lambda>pr. truthy (dp_firstHumanReviewAt pr)) merged;
          anyRework = count_if (\<lambda>pr. 0 < dp_commitsAfterAnyReview pr) withAnyReview;
          humanRework = count_if (\<lambda>pr. 0 < dp_commitsAfterHumanReview pr) withHumanReview in
      case weeklySeries coll merged now of
        None \<Rightarrow> None
      | Some weekly \<Rightarrow> Some
        \<lparr>st_meta = \<lparr>sm_generatedAt = to_iso now, sm_baseBranch = baseBranch, sm_truncated = truncated,
           sm_counts = \<lparr>mc_all = int (length all), mc_mergedToBase = int (length merged),
             mc_open = count_if (\<lambda>pr. dp_state pr = PrOpen) all,
             mc_closedUnmerged = count_if (\<lambda>pr. dp_state pr = PrClosed) all\<rparr>,
           sm_window_from = (if merged = [] then None else dp_mergedAt (last merged)),
           sm_window_to = (if merged = [] then None else dp_mergedAt (hd merged))\<rparr>,
         st_headline = \<lparr>hl_unresolvedThreadRatio = ratio (tt_total totals - tt_resolved totals) (tt_total totals),
           hl_mergesPerWeek = median (ints (map wp_merges (filter (\<lambda>w. \<not> wp_partial w) weekly))),
           hl_cycleP50 = percentile cycles 50, hl_cycleP90 = percentile cycles 90,
           hl_reworkAfterAnyReview = ratio anyRework (int (length withAnyReview)),
           hl_reworkAfterHumanReview = ratio humanRework (int (length withHumanReview)),
           hl_botThreadsPerPr = ratio (tt_bot totals) (int (length merged)),
           hl_humanThreadsPerPr = ratio (tt_human totals) (int (length merged)),
           hl_medianSize = median (ints (map dp_size merged))\<rparr>,
         st_threads = totals, st_weekly = weekly,
         st_cycle = \<lparr>cy_p50 = percentile cycles 50, cy_p90 = percentile cycles 90,
           cy_p50FromReady = percentile (filter (\<lambda>c. c \<noteq> None) (map dp_cycleFromReadyHours merged)) 50,
           cy_firstReviewWaitP50 = percentile (map dp_firstReviewWaitHours withAnyReview) 50,
           cy_firstHumanReviewWaitP50 = percentile (map dp_firstHumanReviewWaitHours withHumanReview) 50,
           cy_lastCommitToMergeP50 = percentile (filter (\<lambda>c. c \<noteq> None) (map dp_lastCommitToMergeHours merged)) 50\<rparr>,
         st_rework = \<lparr>rw_prsWithAnyReview = int (length withAnyReview),
           rw_prsWithHumanReview = int (length withHumanReview),
           rw_afterAnyReview = anyRework, rw_afterHumanReview = humanRework,
           rw_medianCommitsAfterAnyReview = median (ints (map dp_commitsAfterAnyReview withAnyReview)),
           rw_medianCommitsAfterHumanReview = median (ints (map dp_commitsAfterHumanReview withHumanReview)),
           rw_forcePushes = force_pushes merged\<rparr>,
         st_size = \<lparr>sz_histogram = size_histogram merged, sz_scatter = size_scatter merged,
           sz_medianChangedFiles = median (ints (map dp_changedFiles merged))\<rparr>,
         st_commitsHistogram = commits_histogram merged,
         st_reviewers = reviewerTable bots merged, st_authors = authorTable coll bots merged,
         st_quality = \<lparr>ql_labelledPrs = count_if dp_hasAiLabel merged, ql_mergedPrs = int (length merged),
           ql_instantMerges = count_if (\<lambda>pr. case dp_cycleHours pr of None \<Rightarrow> False | Some h \<Rightarrow> h < 2 / 60) merged,
           ql_history = history,
           ql_revertRatio = (case history of None \<Rightarrow> None | Some h \<Rightarrow> ratio (bh_reverts h) (bh_commits h))\<rparr>\<rparr>)"

end
