(* ===== verification/IsoWeek.thy ===== *)
theory IsoWeek
  imports Metrics
begin

text \<open>
  ISO weeks: \<open>isoWeekKey\<close> against the definition of ISO 8601 (\<open>iso_week\<close>: the year and the ordinal of
  the week's Thursday), \<open>weekStart\<close> as the Monday of the week, and the cursor of the weekly series.
\<close>

section \<open>The reference\<close>

definition monday_of :: "int \<Rightarrow> int" where
  "monday_of n = n - (n + 3) mod 7"

definition thursday_of :: "int \<Rightarrow> int" where
  "thursday_of n = monday_of n + 3"

definition iso_week :: "int \<Rightarrow> int \<times> int" where
  "iso_week n =
     (let th = thursday_of n in (day_year th, (th - day_from_year (day_year th)) div 7 + 1))"

definition week_label :: "int \<times> int \<Rightarrow> string" where
  "week_label yw = int_str (fst yw) @ ''-W'' @ pad_zero 2 (int_str (snd yw))"

text \<open>Days whose week lies in years that \<open>Date.UTC\<close> takes as they are.\<close>

definition era_day :: "int \<Rightarrow> bool" where
  "era_day n \<longleftrightarrow> 101 \<le> day_year n \<and> day_year n \<le> 9998"

abbreviation era :: "int \<Rightarrow> bool" where
  "era t \<equiv> era_day (day_of t)"

lemma monday_range: "monday_of n \<le> n" "n \<le> monday_of n + 6" "monday_of n \<le> n + 6"
  by (simp_all add: monday_of_def)

lemma monday_mod [simp]: "(monday_of n + 3) mod 7 = 0"
proof -
  have "monday_of n + 3 = 7 * ((n + 3) div 7)"
    using minus_mod_eq_mult_div [of "n + 3" 7] by (simp add: monday_of_def)
  then show ?thesis by simp
qed

lemma thursday_dvd: "(7::int) dvd thursday_of n"
  using monday_mod [of n] by (simp add: thursday_of_def dvd_eq_mod_eq_0)

lemma monday_monday [simp]: "monday_of (monday_of n) = monday_of n"
  using monday_mod [of n] unfolding monday_of_def [of "monday_of n"] by simp

lemma weekday_eq: "(utc_day t + 6) mod 7 = (day_of t + 3) mod 7"
proof -
  have "((day_of t + 4) mod 7 + 6) mod 7 = (day_of t + 4 + 6) mod 7" by (rule mod_add_left_eq)
  also have "\<dots> = (day_of t + 3 + 7) mod 7" by simp
  also have "\<dots> = (day_of t + 3) mod 7" by (rule mod_add_self2)
  finally show ?thesis by (simp add: utc_day_def)
qed

lemma day_of_mult [simp]: "day_of (n * DAY_MS) = n" "day_of (DAY_MS * n) = n"
  by (simp_all add: day_of_def)

lemma day_from_year_len: "day_from_year (y + 1) \<le> day_from_year y + 366"
  "day_from_year y + 365 \<le> day_from_year (y + 1)"
  by (simp_all add: day_from_year_Suc)

lemma day_year_near:
  assumes "\<bar>m - n\<bar> \<le> 6"
  shows "\<bar>day_year m - day_year n\<bar> \<le> 1"
proof -
  have up: "day_year b \<le> day_year a + 1" if "b \<le> a + 6" for a b :: int
  proof (rule ccontr)
    assume "\<not> ?thesis"
    then have "day_year a + 1 + 1 \<le> day_year b" by simp
    then have "day_from_year (day_year a + 1 + 1) \<le> day_from_year (day_year b)"
      by (rule day_from_year_mono)
    moreover have "a < day_from_year (day_year a + 1)" "day_from_year (day_year b) \<le> b"
      using year_from_day_bounds [of a] year_from_day_bounds [of b] by (simp_all add: day_year_def)
    ultimately show False using that day_from_year_len(2) [of "day_year a + 1"] by linarith
  qed
  show ?thesis using up [of m n] up [of n m] assms by linarith
qed

lemma era_year: "era t \<Longrightarrow> utc_full_year t < 0 \<or> 99 < utc_full_year t"
  by (simp add: era_day_def utc_full_year_def)

lemma week_start_ms_eq:
  assumes "era t"
  shows "week_start_ms t = monday_of (day_of t) * DAY_MS"
  using date_utc_shift [OF era_year [OF assms], of "- ((day_of t + 3) mod 7)"]
  by (simp add: week_start_ms_def weekday_eq monday_of_def)

text \<open>\<open>Math.round\<close> of an exact quotient.\<close>

lemma round_div_exact: "0 < b \<Longrightarrow> b dvd a \<Longrightarrow> round_div a b = a div b"
proof -
  assume "0 < b" "b dvd a"
  then have "(of_int a :: rat) / of_int b = of_int (a div b)" by (metis of_int_divide_in_Ints nonzero_mult_div_cancel_left dvd_def of_int_mult order_less_irrefl of_int_0_eq_iff)
  then show ?thesis by (simp add: round_div_def floor_add_int [symmetric] floor_unique)
qed

lemma week_of_ms_eq:
  assumes "era t"
  shows "week_of_ms t = week_label (iso_week (day_of t))"
proof -
  define th where "th = thursday_of (day_of t)"
  define y where "y = day_year th"
  define J where "J = day_from_year y"
  define ft where "ft = thursday_of (J + 3)"
  have th: "date_utc (utc_full_year t) (utc_month t) (utc_date t - (day_of t + 3) mod 7 + 3) = th * DAY_MS"
    using date_utc_shift [OF era_year [OF assms], of "3 - (day_of t + 3) mod 7"]
    by (simp add: th_def thursday_of_def monday_of_def algebra_simps)
  have "\<bar>th - day_of t\<bar> \<le> 6" using monday_range [of "day_of t"] unfolding th_def thursday_of_def by linarith
  then have y99: "99 < y"
    using day_year_near [of th "day_of t"] assms unfolding y_def era_day_def by linarith
  have yth: "utc_full_year (th * DAY_MS) = y" by (simp add: utc_full_year_def y_def)
  have j4: "date_utc y 0 4 = (J + 3) * DAY_MS"
    using y99 by (simp add: date_utc_def make_day_def month_start_def J_def)
  have ft: "set_utc_date ((J + 3) * DAY_MS) (utc_date ((J + 3) * DAY_MS) - ((J + 3) + 3) mod 7 + 3) = ft * DAY_MS"
    using set_utc_date_add [of "(J + 3) * DAY_MS" "3 - ((J + 3) + 3) mod 7"]
    by (simp add: ft_def thursday_of_def monday_of_def algebra_simps)
  have d: "(7::int) dvd th - ft" unfolding th_def ft_def using thursday_dvd by simp
  have sub: "th * DAY_MS - ft * DAY_MS = (th - ft) * DAY_MS" by (simp add: algebra_simps)
  obtain q where q: "th - ft = 7 * q" using d by (elim dvdE)
  have "(th - ft) * DAY_MS = 604800000 * q" using q by simp
  then have r: "round_div (th * DAY_MS - ft * DAY_MS) (7 * 24 * HOUR) = (th - ft) div 7"
    unfolding sub using q by (simp add: round_div_exact)
  have b: "J \<le> ft" "ft \<le> J + 6"
    using monday_range [of "J + 3"] unfolding ft_def thursday_of_def by linarith+
  have "(th - J) div 7 = q"
  proof -
    have "th - J = 7 * q + (ft - J)" using q by linarith
    moreover have "0 \<le> ft - J" "ft - J < 7" using b by linarith+
    ultimately show ?thesis by simp
  qed
  moreover have "(th - ft) div 7 = q" using q by simp
  ultimately have w: "(th - ft) div 7 = (th - J) div 7" by simp
  show ?thesis
    unfolding week_of_ms_def Let_def weekday_eq th yth j4 day_of_mult ft r w
    by (simp add: week_label_def iso_week_def Let_def th_def [symmetric] y_def [symmetric] J_def [symmetric] add.commute)
qed

section \<open>Labels\<close>

lemma iso_week_bounds: "1 \<le> snd (iso_week n)" "snd (iso_week n) \<le> 53"
proof -
  define th where "th = thursday_of n"
  have "day_from_year (day_year th) \<le> th" "th < day_from_year (day_year th + 1)"
    using year_from_day_bounds [of th] by (simp_all add: day_year_def)
  then have "0 \<le> th - day_from_year (day_year th)" "th - day_from_year (day_year th) \<le> 365"
    using day_from_year_len(1) [of "day_year th"] by linarith+
  then show "1 \<le> snd (iso_week n)" "snd (iso_week n) \<le> 53"
    using zdiv_mono1 [of "th - day_from_year (day_year th)" 365 7]
    by (simp_all add: iso_week_def Let_def th_def [symmetric] pos_imp_zdiv_nonneg_iff)
qed

text \<open>Two days are in one ISO week exactly when they have one Monday.\<close>

lemma iso_week_inject: "iso_week m = iso_week n \<longleftrightarrow> monday_of m = monday_of n"
proof
  assume eq: "iso_week m = iso_week n"
  define a b where "a = thursday_of m" and "b = thursday_of n"
  define y where "y = day_year a"
  have y: "day_year b = y" and q1: "(a - day_from_year (day_year a)) div 7 = (b - day_from_year (day_year b)) div 7"
    using eq unfolding iso_week_def Let_def a_def b_def y_def prod.inject by linarith+
  have q: "(a - day_from_year y) div 7 = (b - day_from_year y) div 7"
    using q1 unfolding y y_def [symmetric] .
  obtain i j where ij: "a = 7 * i" "b = 7 * j" using thursday_dvd unfolding a_def b_def by (meson dvdE)
  define s where "s = day_from_year y"
  have "(a - s) mod 7 = (b - s) mod 7" unfolding ij by (metis mod_diff_left_eq mod_mult_self1_is_0)
  then have "a - s = b - s" using q unfolding s_def [symmetric] by (metis mult_div_mod_eq)
  then show "monday_of m = monday_of n" by (simp add: a_def b_def thursday_of_def)
next
  assume "monday_of m = monday_of n"
  then show "iso_week m = iso_week n" by (simp add: iso_week_def thursday_of_def)
qed

lemma pad_zero_val: "digits_val (pad_zero w (nat_str n)) = n"
  by (simp add: pad_zero_def digits_val_replicate_zero)

lemma week_label_common:
  assumes "1000 \<le> y" "y \<le> 9999" "1 \<le> w"
  shows "week_label (y, w) = pad_num 4 y @ ''-W'' @ pad_num 2 w"
proof -
  have "10 \<le> nat y div 10 div 10" "nat y div 10 div 10 div 10 < 10" "nat y \<ge> 10" "nat y div 10 \<ge> 10"
    using assms by linarith+
  then have "length (nat_str (nat y)) = 4"
    by (subst nat_str.simps, simp, subst nat_str.simps, simp, subst nat_str.simps, simp, subst nat_str.simps, simp)
  then have "pad_num 4 y = int_str y" using assms by (simp add: pad_num_def pad_zero_def int_str_def)
  moreover have "pad_zero 2 (int_str w) = pad_num 2 w" using assms by (simp add: pad_num_def int_str_def)
  ultimately show ?thesis by (simp add: week_label_def)
qed

text \<open>A label determines the week, whatever the lengths of its fields.\<close>

lemma digits_then_dash:
  assumes "list_all is_digit u" "list_all is_digit v" "u @ CHR ''-'' # s = v @ CHR ''-'' # t"
  shows "u = v \<and> s = t"
proof -
  have nd: "\<not> is_digit (CHR ''-'')" by (simp add: is_digit_def)
  have "takeWhile is_digit (u @ CHR ''-'' # s) = u" "takeWhile is_digit (v @ CHR ''-'' # t) = v"
    using assms(1,2) nd by (simp_all add: takeWhile_append list_all_iff)
  with assms(3) show ?thesis by auto
qed

lemma week_label_inject:
  assumes "0 \<le> fst a" "0 \<le> fst b" "0 \<le> snd a" "0 \<le> snd b"
  shows "week_label a = week_label b \<longleftrightarrow> a = b"
proof
  assume eq: "week_label a = week_label b"
  have d: "list_all is_digit (nat_str n)" for n using nat_str_digits by (auto simp: list_all_iff)
  have "nat_str (nat (fst a)) @ CHR ''-'' # (''W'' @ pad_zero 2 (nat_str (nat (snd a))))
      = nat_str (nat (fst b)) @ CHR ''-'' # (''W'' @ pad_zero 2 (nat_str (nat (snd b))))"
    using eq assms by (simp add: week_label_def int_str_def)
  note split = digits_then_dash [OF d d this]
  have f: "nat (fst a) = nat (fst b)" using split nat_str_inject by blast
  have "pad_zero 2 (nat_str (nat (snd a))) = pad_zero 2 (nat_str (nat (snd b)))"
    using split by blast
  then have "nat (snd a) = nat (snd b)" by (metis pad_zero_val)
  with f show "a = b" using assms by (simp only: prod_eq_iff eq_nat_nat_iff)
qed simp

lemma thursday_year:
  assumes "era_day n"
  shows "100 \<le> day_year (thursday_of n)" "day_year (thursday_of n) \<le> 9999"
proof -
  have "\<bar>thursday_of n - n\<bar> \<le> 6" using monday_range [of n] unfolding thursday_of_def by linarith
  from day_year_near [OF this] assms show "100 \<le> day_year (thursday_of n)" "day_year (thursday_of n) \<le> 9999"
    unfolding era_day_def by linarith+
qed

lemma week_of_ms_inject:
  assumes "era s" "era t"
  shows "week_of_ms s = week_of_ms t \<longleftrightarrow> week_start_ms s = week_start_ms t"
proof -
  have "0 \<le> fst (iso_week (day_of s))" "0 \<le> fst (iso_week (day_of t))"
    using thursday_year(1) [OF assms(1)] thursday_year(1) [OF assms(2)] by (simp_all add: iso_week_def Let_def)
  moreover have "0 \<le> snd (iso_week n)" for n using iso_week_bounds(1) [of n] by linarith
  ultimately have "week_label (iso_week (day_of s)) = week_label (iso_week (day_of t)) \<longleftrightarrow>
      monday_of (day_of s) = monday_of (day_of t)"
    by (simp add: week_label_inject iso_week_inject)
  then show ?thesis using assms by (simp add: week_of_ms_eq week_start_ms_eq)
qed

section \<open>The cursor\<close>

lemma week_cursor_mondays:
  "c \<in> set (week_cursor a b) \<Longrightarrow> \<exists>k::nat. c = a + int k * (7 * DAY_MS) \<and> c \<le> b"
proof (induction a b rule: week_cursor.induct)
  case (1 a b)
  show ?case
  proof (cases "a \<le> b \<and> c \<noteq> a")
    case True
    then have "c \<in> set (week_cursor (set_utc_date a (utc_date a + 7)) b)"
      using 1(2) by (subst (asm) week_cursor.simps) (simp split: if_splits)
    then obtain k :: nat where "c = set_utc_date a (utc_date a + 7) + int k * (7 * DAY_MS) \<and> c \<le> b"
      using 1(1) True by blast
    then show ?thesis by (intro exI [of _ "Suc k"]) (simp add: set_utc_date_add algebra_simps)
  next
    case False
    then have "c = a \<and> a \<le> b" using 1(2) by (subst (asm) week_cursor.simps) (auto split: if_splits)
    then show ?thesis by (intro exI [of _ 0]) simp
  qed
qed

lemma week_cursor_hits:
  "a + int k * (7 * DAY_MS) \<le> b \<Longrightarrow> a + int k * (7 * DAY_MS) \<in> set (week_cursor a b)"
proof (induction k arbitrary: a)
  case 0
  then show ?case by (subst week_cursor.simps) simp
next
  case (Suc k)
  have e: "a + int (Suc k) * (7 * DAY_MS) = set_utc_date a (utc_date a + 7) + int k * (7 * DAY_MS)"
    by (simp add: set_utc_date_add algebra_simps)
  have "a \<le> b" using Suc(2) by simp
  then show ?case using Suc(1) [of "set_utc_date a (utc_date a + 7)"] Suc(2)
    unfolding e by (subst week_cursor.simps) simp
qed

lemma week_cursor_sorted: "sorted_wrt (<) (week_cursor a b)"
proof (induction a b rule: week_cursor.induct)
  case (1 a b)
  have "a < c" if "c \<in> set (week_cursor (set_utc_date a (utc_date a + 7)) b)" for c
    using week_cursor_mondays [OF that] by (auto simp: set_utc_date_add)
  then show ?case using 1 by (subst week_cursor.simps) simp
qed

end
