(* ===== verification/WeekSeries.thy ===== *)
theory WeekSeries
  imports IsoWeek
begin

text \<open>
  The weekly series against a reference: for instants that compare as their spellings do, the series
  has one point for every week from the first merge to the last, the quiet ones included, each with
  the figures of exactly the pull requests merged in that week.
\<close>

section \<open>Maps with known keys\<close>

lemma map_set_fresh: "k \<notin> fst ` set m \<Longrightarrow> map_set k v m = m @ [(k, v)]"
  by (induction k v m rule: map_set.induct) auto

lemma fold_map_set_fresh:
  "distinct (map key xs) \<Longrightarrow> fst ` set m \<inter> key ` set xs = {} \<Longrightarrow>
   fold (\<lambda>x. map_set (key x) (val x)) xs m = m @ map (\<lambda>x. (key x, val x)) xs"
  by (induction xs arbitrary: m) (auto simp: map_set_fresh)

lemma map_set_present:
  "distinct (map fst m) \<Longrightarrow> k \<in> fst ` set m \<Longrightarrow>
   map_set k v m = map (\<lambda>(a, b). if a = k then (a, v) else (a, b)) m"
  by (induction k v m rule: map_set.induct) (auto simp: image_iff intro!: map_idI [symmetric])

lemma map_bump_present:
  assumes "distinct (map fst m)" "k \<in> fst ` set m"
  shows "map_bump k d f m = map (\<lambda>(a, b). if a = k then (a, f b) else (a, b)) m"
proof -
  obtain v where v: "map_of m k = Some v" using assms(2) by (metis domIff dom_map_of_conv_image_fst not_None_eq)
  have "v = b" if "(k, b) \<in> set m" for b using map_of_is_SomeI [OF assms(1) that] v by simp
  then show ?thesis using v by (auto simp: map_bump_def map_set_present [OF assms])
qed

lemma fold_map_bump_present:
  assumes "distinct (map fst m)" "key ` set xs \<subseteq> fst ` set m"
  shows "fold (\<lambda>x. map_bump (key x) (d x) (f x)) xs m =
    map (\<lambda>(a, b). (a, fold f (filter (\<lambda>x. key x = a) xs) b)) m"
  using assms
proof (induction xs arbitrary: m)
  case Nil
  then show ?case by (simp add: case_prod_beta)
next
  case (Cons x xs)
  have k: "key x \<in> fst ` set m" using Cons.prems(2) by simp
  let ?m = "map_bump (key x) (d x) (f x) m"
  have m: "?m = map (\<lambda>(a, b). if a = key x then (a, f x b) else (a, b)) m"
    by (rule map_bump_present [OF Cons.prems(1) k])
  have "map fst ?m = map fst m" unfolding m by (auto simp: comp_def case_prod_beta)
  then have "distinct (map fst ?m)" "fst ` set ?m = fst ` set m"
    using Cons.prems(1) by (simp_all flip: set_map)
  with Cons.IH [of ?m] Cons.prems(2) show ?case by (auto simp: m)
qed

section \<open>Buckets\<close>

lemma fold_add_to_week:
  "fold add_to_week prs b =
     b\<lparr>wb_merges := wb_merges b + int (length prs), wb_loc := wb_loc b + sum_list (map dp_size prs),
       wb_cycles := wb_cycles b @ map dp_cycleHours prs,
       wb_resolved := wb_resolved b + sum_list (map (\<lambda>p. th_resolved (dp_threads p)) prs),
       wb_unresolvedOutdated := wb_unresolvedOutdated b + sum_list (map (\<lambda>p. th_unresolvedOutdated (dp_threads p)) prs),
       wb_unresolvedLive := wb_unresolvedLive b + sum_list (map (\<lambda>p. th_unresolvedLive (dp_threads p)) prs)\<rparr>"
  by (induction prs arbitrary: b) (simp_all add: add_to_week_def)

text \<open>The reference point of a week: the week's label and Monday, and the figures of its merges.\<close>

definition week_figures :: "int \<Rightarrow> int \<Rightarrow> DerivedPr list \<Rightarrow> WeekPoint" where
  "week_figures now monday prs =
     \<lparr>wp_week = week_of_ms monday, wp_start = take 10 (to_iso monday), wp_merges = int (length prs),
      wp_loc = sum_list (map dp_size prs),
      wp_resolved = sum_list (map (\<lambda>p. th_resolved (dp_threads p)) prs),
      wp_unresolvedOutdated = sum_list (map (\<lambda>p. th_unresolvedOutdated (dp_threads p)) prs),
      wp_unresolvedLive = sum_list (map (\<lambda>p. th_unresolvedLive (dp_threads p)) prs),
      wp_cycleP50 = median (map dp_cycleHours prs),
      wp_partial = (week_of_ms monday = isoWeekKey (to_iso now))\<rparr>"

definition merged_in :: "(DerivedPr \<Rightarrow> int) \<Rightarrow> int \<Rightarrow> DerivedPr list \<Rightarrow> DerivedPr list" where
  "merged_in ms monday prs = filter (\<lambda>p. week_start_ms (ms p) = monday) prs"

section \<open>The least and the greatest spelling\<close>

lemma fold_least:
  "fold (\<lambda>p m. if g p < m then g p else m) ps x \<in> insert x (g ` set ps) \<and>
   (\<forall>y \<in> insert x (g ` set ps). fold (\<lambda>p m. if g p < m then g p else m) ps x \<le> (y :: 'a :: linorder))"
proof (induction ps arbitrary: x)
  case (Cons p ps)
  let ?x = "if g p < x then g p else x"
  from Cons [of ?x] show ?case by (auto split: if_splits)
qed simp

lemma fold_greatest:
  "fold (\<lambda>p m. if m < g p then g p else m) ps x \<in> insert x (g ` set ps) \<and>
   (\<forall>y \<in> insert x (g ` set ps). (y :: 'a :: linorder) \<le> fold (\<lambda>p m. if m < g p then g p else m) ps x)"
proof (induction ps arbitrary: x)
  case (Cons p ps)
  let ?x = "if x < g p then g p else x"
  from Cons [of ?x] show ?case by (auto split: if_splits)
qed simp

section \<open>The weeks between two instants\<close>

lemma era_between: "s \<le> t \<Longrightarrow> t \<le> u \<Longrightarrow> era s \<Longrightarrow> era u \<Longrightarrow> era t"
  using year_from_day_mono [of "day_of s" "day_of t"] year_from_day_mono [of "day_of t" "day_of u"]
  by (simp add: era_day_def day_year_def day_of_def zdiv_mono1)

text \<open>The Mondays the cursor takes from the week of one instant to that of a later one.\<close>

definition mondays :: "int \<Rightarrow> int \<Rightarrow> int list" where
  "mondays e l = week_cursor (week_start_ms e) (week_start_ms l)"

lemma monday_mono: "m \<le> n \<Longrightarrow> monday_of m \<le> monday_of n"
proof -
  assume "m \<le> n"
  have a: "monday_of k = 7 * ((k + 3) div 7) - 3" for k :: int
    using minus_mod_eq_mult_div [of "k + 3" 7] by (simp add: monday_of_def)
  have "(m + 3) div 7 \<le> (n + 3) div 7" using \<open>m \<le> n\<close> by (simp add: zdiv_mono1)
  then show ?thesis by (simp add: a)
qed

lemma mondays_iff:
  assumes "era e" "era l"
  shows "c \<in> set (mondays e l) \<longleftrightarrow>
    (\<exists>m. c = m * DAY_MS \<and> monday_of m = m \<and> week_start_ms e \<le> c \<and> c \<le> week_start_ms l)"
proof
  assume "c \<in> set (mondays e l)"
  then obtain k :: nat where k: "c = week_start_ms e + int k * (7 * DAY_MS)" "c \<le> week_start_ms l"
    unfolding mondays_def using week_cursor_mondays by blast
  let ?m = "monday_of (day_of e) + int k * 7"
  have "(?m + 3) mod 7 = (monday_of (day_of e) + 3) mod 7"
    using mod_mult_self1 [of "monday_of (day_of e) + 3" "int k" 7] by (simp add: algebra_simps)
  then have "monday_of ?m = ?m" by (simp add: monday_of_def [of ?m])
  moreover have "c = ?m * DAY_MS" using k(1) assms(1) by (simp add: week_start_ms_eq algebra_simps)
  ultimately show "\<exists>m. c = m * DAY_MS \<and> monday_of m = m \<and> week_start_ms e \<le> c \<and> c \<le> week_start_ms l"
    using k by (intro exI [of _ ?m]) simp
next
  assume "\<exists>m. c = m * DAY_MS \<and> monday_of m = m \<and> week_start_ms e \<le> c \<and> c \<le> week_start_ms l"
  then obtain m where m: "c = m * DAY_MS" "monday_of m = m" "week_start_ms e \<le> c" "c \<le> week_start_ms l"
    by blast
  let ?e = "monday_of (day_of e)"
  have "(m + 3) mod 7 = 0" "(?e + 3) mod 7 = 0" using monday_mod [of m] m(2) by simp_all
  then have "7 dvd (m + 3) - (?e + 3)" by (intro dvd_diff) (simp_all add: dvd_eq_mod_eq_0)
  then have "7 dvd m - ?e" by simp
  then obtain q where q: "m - ?e = 7 * q" by (elim dvdE)
  have "?e \<le> m" using m(1,3) assms(1) by (simp add: week_start_ms_eq)
  then have "0 \<le> q" using q by linarith
  then have "c = week_start_ms e + int (nat q) * (7 * DAY_MS)"
    using q m(1) assms(1) by (simp add: week_start_ms_eq algebra_simps)
  then show "c \<in> set (mondays e l)"
    unfolding mondays_def using week_cursor_hits [of "week_start_ms e" "nat q" "week_start_ms l"] m(4) by simp
qed

lemma mondays_self:
  assumes "era e" "era l" "c \<in> set (mondays e l)"
  shows "monday_of (day_of c) * DAY_MS = c"
  using assms(3) by (auto simp: mondays_iff [OF assms(1,2)])

lemma mondays_distinct: "distinct (mondays e l)" "sorted (mondays e l)"
  using week_cursor_sorted [of "week_start_ms e" "week_start_ms l"] strict_sorted_iff
  unfolding mondays_def by blast+

lemma week_start_in_mondays:
  assumes "era e" "era l" "e \<le> t" "t \<le> l"
  shows "week_start_ms t \<in> set (mondays e l)"
proof -
  have t: "era t" using era_between [OF assms(3,4,1,2)] .
  have "day_of e \<le> day_of t" "day_of t \<le> day_of l" using assms(3,4) by (simp_all add: day_of_def zdiv_mono1)
  then show ?thesis
    using t by (auto simp: mondays_iff [OF assms(1,2)] week_start_ms_eq assms(1,2) monday_mono
        intro!: exI [of _ "monday_of (day_of t)"])
qed

section \<open>The series\<close>

text \<open>Instants far enough from the ends of the years that print with four digits.\<close>

definition plain_year :: "int \<Rightarrow> bool" where
  "plain_year t \<longleftrightarrow> 1001 \<le> utc_full_year t \<and> utc_full_year t \<le> 9000"

lemma plain_era: "plain_year t \<Longrightarrow> era t"
  by (simp add: plain_year_def era_day_def utc_full_year_def)

lemma plain_monday:
  assumes "plain_year e" "plain_year l" "c \<in> set (mondays e l)"
  shows "era c" "week_start_ms c = c" "1000 \<le> day_year (thursday_of (day_of c))"
    "day_year (thursday_of (day_of c)) \<le> 9999"
proof -
  note el = plain_era [OF assms(1)] plain_era [OF assms(2)]
  obtain m where m: "c = m * DAY_MS" "monday_of m = m" "week_start_ms e \<le> c" "c \<le> week_start_ms l"
    using assms(3) by (auto simp: mondays_iff [OF el])
  have b: "monday_of (day_of e) \<le> m" "m \<le> monday_of (day_of l)"
    using m el by (simp_all add: week_start_ms_eq)
  have th: "thursday_of (day_of e) \<le> m + 3" "m + 3 \<le> thursday_of (day_of l)" using b by (simp_all add: thursday_of_def)
  have "\<bar>thursday_of n - n\<bar> \<le> 6" "\<bar>monday_of n - n\<bar> \<le> 6" for n
    using monday_range [of n] unfolding thursday_of_def by linarith+
  note near = day_year_near [OF this(1)] day_year_near [OF this(2)]
  have y: "1000 \<le> day_year (thursday_of (day_of e))" "day_year (thursday_of (day_of l)) \<le> 9001"
    "1000 \<le> day_year (monday_of (day_of e))" "day_year (monday_of (day_of l)) \<le> 9001"
    using near(1) [of "day_of e"] near(1) [of "day_of l"] near(2) [of "day_of e"] near(2) [of "day_of l"] assms(1,2)
    unfolding plain_year_def utc_full_year_def by linarith+
  have mono: "day_year a \<le> day_year b" if "a \<le> b" for a b
    using that by (simp add: day_year_def year_from_day_mono)
  have "day_year m \<le> 9001" "1000 \<le> day_year m"
    using mono [OF b(1)] mono [OF b(2)] y by linarith+
  then show e: "era c" by (simp add: m(1) era_day_def)
  show "week_start_ms c = c" using e m by (simp add: week_start_ms_eq)
  show "1000 \<le> day_year (thursday_of (day_of c))" "day_year (thursday_of (day_of c)) \<le> 9999"
    using mono [OF th(1)] mono [OF th(2)] y m by (simp_all add: thursday_of_def)
qed

lemma mondays_keys:
  assumes "plain_year e" "plain_year l"
  shows "distinct (map week_of_ms (mondays e l))"
proof -
  have "inj_on week_of_ms (set (mondays e l))"
    by (rule inj_onI) (metis week_of_ms_inject plain_monday(1,2) [OF assms])
  then show ?thesis using mondays_distinct by (simp add: distinct_map)
qed

lemma seed_weeks_eq:
  assumes "plain_year e" "plain_year l"
  shows "seed_weeks e l = map (\<lambda>c. (week_of_ms c, emptyWeek c)) (mondays e l)"
  using fold_map_set_fresh [OF mondays_keys [OF assms], of "[]" emptyWeek]
  by (simp add: seed_weeks_def mondays_def)

lemma week_map_eq:
  assumes "plain_year e" "plain_year l"
    and "\<And>p. p \<in> set merged \<Longrightarrow> plain_year (ms p) \<and> e \<le> ms p \<and> ms p \<le> l"
  shows "week_map (map (\<lambda>p. (p, ms p)) merged) e l =
    map (\<lambda>c. (week_of_ms c, fold add_to_week (merged_in ms c merged) (emptyWeek c))) (mondays e l)"
proof -
  note el = plain_era [OF assms(1)] plain_era [OF assms(2)]
  have in_m: "week_start_ms (ms p) \<in> set (mondays e l)" if "p \<in> set merged" for p
    using week_start_in_mondays [OF el] assms(3) that by blast
  have key: "week_of_ms (ms p) = week_of_ms c \<longleftrightarrow> week_start_ms (ms p) = c"
    if "p \<in> set merged" "c \<in> set (mondays e l)" for p c
    using week_of_ms_inject [of "ms p" c] plain_monday(1,2) [OF assms(1,2) that(2)] assms(3) [OF that(1)] plain_era
    by auto
  have keys: "(\<lambda>p. week_of_ms (ms p)) ` set merged \<subseteq> fst ` set (seed_weeks e l)"
  proof
    fix k assume "k \<in> (\<lambda>p. week_of_ms (ms p)) ` set merged"
    then obtain p where p: "p \<in> set merged" "k = week_of_ms (ms p)" by blast
    then have "k = week_of_ms (week_start_ms (ms p))" using key [OF p(1) in_m [OF p(1)]] by simp
    then show "k \<in> fst ` set (seed_weeks e l)"
      using in_m [OF p(1)] by (force simp: seed_weeks_eq [OF assms(1,2)])
  qed
  have dist: "distinct (map fst (seed_weeks e l))"
    using mondays_keys [OF assms(1,2)] by (simp add: seed_weeks_eq [OF assms(1,2)] comp_def)
  have "week_map (map (\<lambda>p. (p, ms p)) merged) e l =
    map (\<lambda>(a, b). (a, fold add_to_week (filter (\<lambda>p. week_of_ms (ms p) = a) merged) b)) (seed_weeks e l)"
    unfolding week_map_def
    using fold_map_bump_present [OF dist keys, of "\<lambda>p. emptyWeek (ms p)" add_to_week]
    by (simp add: fold_map comp_def)
  also have "\<dots> = map (\<lambda>c. (week_of_ms c, fold add_to_week (merged_in ms c merged) (emptyWeek c))) (mondays e l)"
    using key by (auto simp: seed_weeks_eq [OF assms(1,2)] merged_in_def cong: filter_cong)
  finally show ?thesis .
qed

lemma bucket_figures:
  assumes "plain_year e" "plain_year l" "c \<in> set (mondays e l)"
  shows "week_point (isoWeekKey (to_iso now)) (fold add_to_week prs (emptyWeek c)) = week_figures now c prs"
  using plain_monday(2) [OF assms]
  by (simp add: fold_add_to_week week_point_def week_figures_def emptyWeek_def)

text \<open>
  What the series needs of the collation: labels of weeks, four digits, \<open>-W\<close> and two digits, are
  ordered as their code units are.
\<close>

definition collates_labels :: "(string \<Rightarrow> 'k :: linorder) \<Rightarrow> bool" where
  "collates_labels coll \<longleftrightarrow>
     (\<forall>y w z v. 1000 \<le> y \<and> y \<le> 9999 \<and> 1000 \<le> z \<and> z \<le> 9999 \<and> 1 \<le> w \<and> w \<le> 53 \<and> 1 \<le> v \<and> v \<le> 53 \<and>
        week_label (y, w) \<le> week_label (z, v) \<longrightarrow> coll (week_label (y, w)) \<le> coll (week_label (z, v)))"

lemma week_label_mono:
  assumes "1000 \<le> y" "y \<le> 9999" "1000 \<le> z" "z \<le> 9999" "1 \<le> w" "w \<le> 53" "1 \<le> v" "v \<le> 53"
    and "y < z \<or> y = z \<and> w \<le> v"
  shows "week_label (y, w) \<le> week_label (z, v)"
proof (cases "y = z \<and> w = v")
  case False
  then have "y < z \<or> y = z \<and> w < v" using assms(9) by auto
  then have "week_label (y, w) < week_label (z, v)"
    using assms by (auto simp: week_label_common append_less_append pad_num_less pad_num_inject)
  then show ?thesis by simp
qed simp

lemma labels_sorted:
  assumes "plain_year e" "plain_year l" "collates_labels coll"
  shows "sorted (map (\<lambda>c. coll (week_of_ms c)) (mondays e l))"
proof -
  have "coll (week_of_ms c) \<le> coll (week_of_ms d)"
    if c: "c \<in> set (mondays e l)" and d: "d \<in> set (mondays e l)" and cd: "c \<le> d" for c d
  proof -
    note pc = plain_monday [OF assms(1,2) c] and pd = plain_monday [OF assms(1,2) d]
    let ?a = "thursday_of (day_of c)" and ?b = "thursday_of (day_of d)"
    have "?a \<le> ?b" using cd by (simp add: thursday_of_def monday_mono day_of_def zdiv_mono1)
    then have y: "day_year ?a \<le> day_year ?b" by (simp add: day_year_def year_from_day_mono)
    have "snd (iso_week (day_of c)) \<le> snd (iso_week (day_of d))" if "day_year ?a = day_year ?b"
      using \<open>?a \<le> ?b\<close> that by (simp add: iso_week_def Let_def zdiv_mono1)
    then have "day_year ?a < day_year ?b \<or> day_year ?a = day_year ?b \<and> snd (iso_week (day_of c)) \<le> snd (iso_week (day_of d))"
      using y by linarith
    then have le: "week_label (day_year ?a, snd (iso_week (day_of c))) \<le> week_label (day_year ?b, snd (iso_week (day_of d)))"
      using pc pd by (intro week_label_mono iso_week_bounds) auto
    have w: "week_of_ms t = week_label (day_year (thursday_of (day_of t)), snd (iso_week (day_of t)))" if "era t" for t
      by (simp add: week_of_ms_eq [OF that] iso_week_def Let_def)
    show ?thesis
      using le assms(3) pc pd iso_week_bounds unfolding w [OF pc(1)] w [OF pd(1)] collates_labels_def by blast
  qed
  then show ?thesis
    using mondays_distinct(2) [of e l] by (simp add: sorted_map sorted_wrt_mono_rel [of "mondays e l" "(\<le>)"])
qed

lemma those_map_Some: "(\<And>x. x \<in> set xs \<Longrightarrow> f x = Some (g x)) \<Longrightarrow> those (map f xs) = Some (map g xs)"
  by (induction xs) simp_all

lemma weeklySeries_eq:
  fixes coll :: "string \<Rightarrow> 'k :: linorder"
  assumes "merged \<noteq> []" "collates_labels coll"
    and date: "\<And>p. p \<in> set merged \<Longrightarrow> parse_date (merge_string p) = Some (ms p) \<and> plain_year (ms p)"
    and agree: "\<And>p q. p \<in> set merged \<Longrightarrow> q \<in> set merged \<Longrightarrow> merge_string p < merge_string q \<Longrightarrow> ms p \<le> ms q"
  shows "weeklySeries coll merged now =
    Some (map (\<lambda>c. week_figures now c (merged_in ms c merged))
      (mondays (Min (ms ` set merged)) (Max (ms ` set merged))))"
proof -
  obtain first rest where m: "merged = first # rest" using assms(1) by (cases merged) auto
  define lo where "lo = fold (\<lambda>p m. if merge_string p < m then merge_string p else m) merged (merge_string first)"
  define hi where "hi = fold (\<lambda>p m. if m < merge_string p then merge_string p else m) merged (merge_string first)"
  have ins: "insert (merge_string first) (merge_string ` set merged) = merge_string ` set merged"
    using m by auto
  obtain p where p: "p \<in> set merged" "lo = merge_string p" "\<And>q. q \<in> set merged \<Longrightarrow> lo \<le> merge_string q"
    using fold_least [of merge_string merged "merge_string first"] unfolding lo_def [symmetric] ins by blast
  obtain q where q: "q \<in> set merged" "hi = merge_string q" "\<And>r. r \<in> set merged \<Longrightarrow> merge_string r \<le> hi"
    using fold_greatest [of merge_string merged "merge_string first"] unfolding hi_def [symmetric] ins by blast
  have same: "ms a = ms b" if "a \<in> set merged" "b \<in> set merged" "merge_string a = merge_string b" for a b
    using date [OF that(1)] date [OF that(2)] that(3) by simp
  have least: "ms p \<le> ms r" if "r \<in> set merged" for r
    using p(3) [OF that] agree [OF p(1) that] same [OF p(1) that] p(2) by (auto simp: le_less)
  have most: "ms r \<le> ms q" if "r \<in> set merged" for r
    using q(3) [OF that] agree [OF that q(1)] same [OF that q(1)] q(2) by (auto simp: le_less)
  have e: "Min (ms ` set merged) = ms p" using p(1) least by (intro Min_eqI) auto
  have l: "Max (ms ` set merged) = ms q" using q(1) most by (intro Max_eqI) auto
  let ?C = "mondays (ms p) (ms q)"
  have pl: "plain_year (ms p)" "plain_year (ms q)" using date p(1) q(1) by auto
  have W: "week_map (map (\<lambda>p. (p, ms p)) merged) (ms p) (ms q) =
      map (\<lambda>c. (week_of_ms c, fold add_to_week (merged_in ms c merged) (emptyWeek c))) ?C"
    using pl least most date by (intro week_map_eq) auto
  have "sort_key (\<lambda>b. coll (wb_week b)) (map (\<lambda>c. fold add_to_week (merged_in ms c merged) (emptyWeek c)) ?C)
      = map (\<lambda>c. fold add_to_week (merged_in ms c merged) (emptyWeek c)) ?C"
    using labels_sorted [OF pl assms(2)]
    by (intro sort_key_id_if_sorted) (simp add: comp_def fold_add_to_week emptyWeek_def)
  then have S: "sort_key (\<lambda>b. coll (wb_week b)) (map snd (week_map (map (\<lambda>p. (p, ms p)) merged) (ms p) (ms q)))
      = map (\<lambda>c. fold add_to_week (merged_in ms c merged) (emptyWeek c)) ?C"
    by (simp add: W comp_def)
  have T: "those (map (\<lambda>pr. map_option (Pair pr) (parse_date (merge_string pr))) merged) = Some (map (\<lambda>p. (p, ms p)) merged)"
    using date by (intro those_map_Some) simp
  have P: "parse_date lo = Some (ms p)" "parse_date hi = Some (ms q)" using date p(1,2) q(1,2) by simp_all
  have "weeklySeries coll merged now =
    (case (those (map (\<lambda>pr. map_option (Pair pr) (parse_date (merge_string pr))) merged), parse_date lo, parse_date hi) of
       (Some dated, Some e, Some l) \<Rightarrow>
         Some (map (week_point (isoWeekKey (to_iso now))) (sort_key (\<lambda>b. coll (wb_week b)) (map snd (week_map dated e l))))
     | _ \<Rightarrow> None)"
    unfolding weeklySeries_def lo_def hi_def m Let_def by simp
  also have "\<dots> = Some (map (\<lambda>c. week_figures now c (merged_in ms c merged)) ?C)"
    unfolding T P by (simp add: S bucket_figures [OF pl])
  finally show ?thesis unfolding e l .
qed

end
