(* ===== verification/MetricsFacts.thy ===== *)
theory MetricsFacts
  imports WeekSeries
begin

text \<open>
  Lemmas on percentiles, on the record derived from a pull request, and on what the tables and
  histograms of \<open>compute\<close> add up to.
\<close>

section \<open>Percentiles\<close>

text \<open>The value interpolated at a real rank of a sorted list.\<close>

definition interpolate :: "rat list \<Rightarrow> rat \<Rightarrow> rat" where
  "interpolate xs r = xs ! nat \<lfloor>r\<rfloor> + (xs ! nat \<lceil>r\<rceil> - xs ! nat \<lfloor>r\<rfloor>) * (r - of_int \<lfloor>r\<rfloor>)"

definition rank_of :: "nat \<Rightarrow> rat \<Rightarrow> rat" where
  "rank_of n p = p / 100 * of_int (int n - 1)"

lemma rank_range:
  assumes "0 < n" "0 \<le> p" "p \<le> 100"
  shows "0 \<le> rank_of n p" "rank_of n p \<le> of_int (int n - 1)"
    "nat \<lfloor>rank_of n p\<rfloor> < n" "nat \<lceil>rank_of n p\<rceil> < n" "0 \<le> \<lfloor>rank_of n p\<rfloor>"
proof -
  have n: "(0::rat) \<le> of_int (int n - 1)" using assms(1) by simp
  then show a: "0 \<le> rank_of n p" using assms by (simp add: rank_of_def)
  have "p / 100 * of_int (int n - 1) \<le> 1 * of_int (int n - 1)"
    using assms n by (intro mult_right_mono) simp_all
  then show b: "rank_of n p \<le> of_int (int n - 1)" by (simp add: rank_of_def)
  have "\<lceil>rank_of n p\<rceil> \<le> int n - 1" using b by (simp only: ceiling_le_iff)
  moreover have "\<lfloor>rank_of n p\<rfloor> \<le> \<lceil>rank_of n p\<rceil>" by (rule floor_le_ceiling)
  moreover show "0 \<le> \<lfloor>rank_of n p\<rfloor>" using a by simp
  ultimately show "nat \<lfloor>rank_of n p\<rfloor> < n" "nat \<lceil>rank_of n p\<rceil> < n" using assms(1) by linarith+
qed

lemma percentile_eq:
  assumes "qs \<noteq> []" "0 \<le> p" "p \<le> 100"
  shows "percentile (map Some qs) p = Some (interpolate (sort qs) (rank_of (length qs) p))"
proof -
  have s: "sort_key num (map Some qs) = map Some (sort qs)"
    by (simp add: sort_key_map num_def)
  have n: "0 < length qs" using assms(1) by simp
  note r = rank_range [OF n assms(2,3)]
  have at: "at_index (map Some (sort qs)) i = Some (sort qs ! nat i)" if "0 \<le> i" "nat i < length qs" for i
    using that by (simp add: at_index_def)
  define k where "k = rank_of (length qs) p"
  have c: "0 \<le> \<lceil>k\<rceil>" using r(5) floor_le_ceiling [of k] unfolding k_def by linarith
  have k: "p / 100 * of_int (int (length qs) - 1) = k" by (simp add: k_def rank_of_def)
  have "percentile (map Some qs) p =
    (if \<lfloor>k\<rfloor> = \<lceil>k\<rceil> then at_index (map Some (sort qs)) \<lfloor>k\<rfloor>
     else Some (num (at_index (map Some (sort qs)) \<lfloor>k\<rfloor>) +
       (num (at_index (map Some (sort qs)) \<lceil>k\<rceil>) - num (at_index (map Some (sort qs)) \<lfloor>k\<rfloor>)) * (k - of_int \<lfloor>k\<rfloor>)))"
    using assms(1) unfolding percentile_def Let_def s length_map length_sort k by simp
  also have "\<dots> = Some (interpolate (sort qs) k)"
    using at [of "\<lfloor>k\<rfloor>"] at [of "\<lceil>k\<rceil>"] r c unfolding k_def [symmetric] by (simp add: interpolate_def num_def)
  finally show ?thesis by (simp add: k_def)
qed

lemma sort_nth_mono:
  "i \<le> j \<Longrightarrow> j < length qs \<Longrightarrow> sort (qs :: 'a :: linorder list) ! i \<le> sort qs ! j"
  by (simp add: sorted_nth_mono)

lemma interpolate_between:
  assumes "0 < n" "n = length qs" "0 \<le> r" "r \<le> of_int (int n - 1)"
  shows "sort qs ! nat \<lfloor>r\<rfloor> \<le> interpolate (sort qs) r" "interpolate (sort qs) r \<le> sort qs ! nat \<lceil>r\<rceil>"
proof -
  define a b t where "a = sort qs ! nat \<lfloor>r\<rfloor>" and "b = sort qs ! nat \<lceil>r\<rceil>" and "t = r - of_int \<lfloor>r\<rfloor>"
  have "\<lceil>r\<rceil> \<le> int n - 1" using assms(4) by (simp only: ceiling_le_iff)
  then have "nat \<lceil>r\<rceil> < length qs" using assms(1,2) by linarith
  then have d: "0 \<le> b - a"
    unfolding a_def b_def using floor_le_ceiling [of r] by (simp add: sort_nth_mono nat_mono)
  have t: "0 \<le> t" "t \<le> 1" unfolding t_def by linarith+
  define e where "e = (b - a) * t"
  have "0 \<le> e" "e \<le> b - a" unfolding e_def using d t mult_left_mono [OF t(2) d] by simp_all
  then have "a \<le> a + (b - a) * t" "a + (b - a) * t \<le> b" unfolding e_def [symmetric] by linarith+
  then show "sort qs ! nat \<lfloor>r\<rfloor> \<le> interpolate (sort qs) r" "interpolate (sort qs) r \<le> sort qs ! nat \<lceil>r\<rceil>"
    by (simp_all add: interpolate_def a_def b_def t_def)
qed

lemma interpolate_mono:
  assumes "0 < n" "n = length qs" "0 \<le> r" "r \<le> s" "s \<le> of_int (int n - 1)"
  shows "interpolate (sort qs) r \<le> interpolate (sort qs) s"
proof -
  have r: "r \<le> of_int (int n - 1)" and s: "0 \<le> s" using assms by linarith+
  note br = interpolate_between [OF assms(1,2,3) r] and bs = interpolate_between [OF assms(1,2) s assms(5)]
  have fs: "\<lfloor>r\<rfloor> \<le> \<lfloor>s\<rfloor>" using assms(4) by (rule floor_mono)
  have len: "nat \<lceil>s\<rceil> < length qs" "nat \<lfloor>s\<rfloor> < length qs"
  proof -
    have "\<lceil>s\<rceil> \<le> int n - 1" using assms(5) by (simp only: ceiling_le_iff)
    then show "nat \<lceil>s\<rceil> < length qs" "nat \<lfloor>s\<rfloor> < length qs"
      using assms(1,2) floor_le_ceiling [of s] by linarith+
  qed
  show ?thesis
  proof (cases "\<lfloor>r\<rfloor> = \<lfloor>s\<rfloor>")
    case False
    then have "\<lceil>r\<rceil> \<le> \<lfloor>s\<rfloor>" using fs by (simp add: ceiling_le_iff) linarith
    then have "sort qs ! nat \<lceil>r\<rceil> \<le> sort qs ! nat \<lfloor>s\<rfloor>" using len by (intro sort_nth_mono nat_mono)
    with br(2) bs(1) show ?thesis by linarith
  next
    case True
    show ?thesis
    proof (cases "of_int \<lfloor>r\<rfloor> = r")
      case int: True
      then have "r - of_int \<lfloor>r\<rfloor> = 0" by linarith
      then have "interpolate (sort qs) r = sort qs ! nat \<lfloor>r\<rfloor>"
        by (simp only: interpolate_def mult_zero_right add_0_right)
      with bs(1) True show ?thesis by simp
    next
      case frac: False
      have "of_int \<lfloor>r\<rfloor> < r" using frac of_int_floor_le [of r] by linarith
      then have "of_int \<lfloor>s\<rfloor> < s" using True assms(4) by simp
      with \<open>of_int \<lfloor>r\<rfloor> < r\<close> have c: "\<lceil>r\<rceil> = \<lfloor>r\<rfloor> + 1" "\<lceil>s\<rceil> = \<lfloor>s\<rfloor> + 1"
        by (simp_all add: ceiling_eq_iff) linarith+
      define d where "d = sort qs ! nat \<lceil>s\<rceil> - sort qs ! nat \<lfloor>s\<rfloor>"
      have "0 \<le> d" unfolding d_def using len floor_le_ceiling [of s] by (simp add: sort_nth_mono nat_mono)
      then have "d * (r - of_int \<lfloor>s\<rfloor>) \<le> d * (s - of_int \<lfloor>s\<rfloor>)"
        using assms(4) by (intro mult_left_mono) simp_all
      then show ?thesis using True c unfolding interpolate_def d_def by simp
    qed
  qed
qed

lemma rank_mono: "0 < n \<Longrightarrow> p \<le> q \<Longrightarrow> rank_of n p \<le> rank_of n q"
  unfolding rank_of_def by (intro mult_right_mono divide_right_mono) simp_all

lemma interpolate_ends:
  assumes "qs \<noteq> []"
  shows "interpolate (sort qs) (rank_of (length qs) 0) = Min (set qs)"
    "interpolate (sort qs) (rank_of (length qs) 100) = Max (set qs)"
proof -
  have n: "0 < length qs" using assms by simp
  have idx: "\<exists>i < length qs. x = sort qs ! i" if "x \<in> set qs" for x
    using that by (metis in_set_conv_nth length_sort set_sort)
  have mem: "sort qs ! i \<in> set qs" if "i < length qs" for i
    using that by (metis length_sort nth_mem set_sort)
  have "sort qs ! 0 = Min (set qs)"
    using n by (intro Min_eqI [symmetric] mem) (auto dest!: idx intro: sort_nth_mono)
  then show "interpolate (sort qs) (rank_of (length qs) 0) = Min (set qs)"
    by (simp add: interpolate_def rank_of_def)
  have "sort qs ! (length qs - 1) = Max (set qs)"
    using n by (intro Max_eqI [symmetric] mem) (auto dest!: idx intro: sort_nth_mono)
  moreover have "rank_of (length qs) 100 = of_int (int (length qs) - 1)" by (simp add: rank_of_def)
  moreover have "nat (int (length qs) - 1) = length qs - 1" by simp
  ultimately show "interpolate (sort qs) (rank_of (length qs) 100) = Max (set qs)"
    by (simp add: interpolate_def del: of_int_diff)
qed

section \<open>The derived record\<close>

lemma count_if_split: "count_if p xs + count_if (\<lambda>x. \<not> p x) xs = int (length xs)"
  by (induction xs) (simp_all add: count_if_def)

lemma count_if_nonneg [simp]: "0 \<le> count_if p xs"
  by (simp add: count_if_def)

lemma count_if_le: "count_if p xs \<le> int (length xs)"
  by (simp add: count_if_def)

lemma count_if_mono: "(\<And>x. x \<in> set xs \<Longrightarrow> p x \<Longrightarrow> q x) \<Longrightarrow> count_if p xs \<le> count_if q xs"
  by (induction xs) (auto simp: count_if_def)

definition threads_balance :: "ThreadStats \<Rightarrow> bool" where
  "threads_balance t \<longleftrightarrow>
     th_bot t + th_human t = int (length (th_threads t)) \<and>
     th_resolved t + th_unresolvedOutdated t + th_unresolvedLive t = int (length (th_threads t))"

lemma count_three: "count_if p xs + count_if (\<lambda>x. \<not> p x \<and> q x) xs + count_if (\<lambda>x. \<not> p x \<and> \<not> q x) xs = int (length xs)"
  by (induction xs) (simp_all add: count_if_def)

lemma threadStats_balance: "threads_balance (threadStats bots pr)"
  unfolding threads_balance_def threadStats_def Let_def
  by (simp add: count_if_split count_three)

text \<open>\<open>derive\<close> is total on dates.\<close>

lemma hours_if_total:
  "(c \<Longrightarrow> parse_date (the a) \<noteq> None \<and> parse_date (the b) \<noteq> None) \<Longrightarrow> hours_if c a b \<noteq> None"
  by (cases c; cases "parse_date (the a)"; cases "parse_date (the b)")
    (simp_all add: hours_if_def hours_between_def del: not_None_eq)

lemma timeline_reviews:
  "timeline coll pr = (commits, reviews) \<Longrightarrow> r \<in> set reviews \<Longrightarrow>
   \<exists>v \<in> set (cp_reviews pr). cr_submittedAt v = Some (fst r) \<and> fst r \<noteq> [] \<and> snd r = login (cr_author v)"
  by (auto simp: timeline_def elim!: truthyE) (metis option.sel)

lemma timeline_sorted:
  "timeline coll pr = (commits, reviews) \<Longrightarrow> sorted (map (\<lambda>r. coll (fst r)) reviews)"
  by (auto simp: timeline_def)

lemma find_SomeD: "find p xs = Some x \<Longrightarrow> x \<in> set xs \<and> p x"
  by (metis find_Some_iff nth_mem)

lemma derive_cases:
  assumes "derive coll bots caps pr = Some d"
  obtains c1 c2 c3 c4 c5 where "d = derived_record coll bots caps pr c1 c2 c3 c4 c5"
    "hours_if (truthy (cp_mergedAt pr)) (Some (cp_createdAt pr)) (cp_mergedAt pr) = Some c1"
proof -
  from assms show thesis
    unfolding derive_def Let_def Option.bind_eq_Some_conv option.inject
    by (elim exE conjE) (rule that, erule sym, assumption)
qed

lemma derived_fields:
  "dp_threads (derived_record coll bots caps pr c1 c2 c3 c4 c5) = threadStats bots pr"
  "dp_reviews (derived_record coll bots caps pr c1 c2 c3 c4 c5) =
     map (\<lambda>r. \<lparr>dr_id = cr_reviewKey r, dr_author = login (cr_author r),
          dr_state = cr_providerState r, dr_submittedAt = cr_submittedAt r,
          dr_bodyOnly = (if reviewLinkage caps then Some (cr_reviewKey r \<notin> thread_review_keys pr) else None)\<rparr>)
        (cp_reviews pr)"
  "dp_bodyOnlyReviewCount (derived_record coll bots caps pr c1 c2 c3 c4 c5) = (if reviewLinkage caps
        then Some (count_if (\<lambda>r. cr_reviewKey r \<notin> thread_review_keys pr) (cp_reviews pr)) else None)"
  "dp_firstReviewAt (derived_record coll bots caps pr c1 c2 c3 c4 c5) = map_option fst (first_review coll pr)"
  "dp_firstHumanReviewAt (derived_record coll bots caps pr c1 c2 c3 c4 c5)
     = map_option fst (first_human_review coll bots pr)"
  "dp_cycleHours (derived_record coll bots caps pr c1 c2 c3 c4 c5) = c1"
  by (simp_all add: derived_record_def Let_def)

lemma first_review_least:
  assumes "first_review coll pr = Some (s, a)" "v \<in> set (cp_reviews pr)" "cr_submittedAt v = Some t" "t \<noteq> []"
  shows "coll s \<le> coll t"
proof -
  obtain commits reviews where tl: "timeline coll pr = (commits, reviews)" by fastforce
  obtain rest where r: "reviews = (s, a) # rest"
    using assms(1) tl by (auto simp: first_review_def split: list.splits)
  have "(t, login (cr_author v)) \<in> set reviews"
    using tl assms(2-4) by (force simp: timeline_def truthy_def)
  moreover have "sorted (map (\<lambda>r. coll (fst r)) ((s, a) # rest))"
    using timeline_sorted [OF tl] unfolding r .
  ultimately show ?thesis unfolding r by auto
qed

lemma first_human_after_first:
  assumes "first_human_review coll bots pr = Some (s, a)"
  shows "a \<notin> bots \<and> (\<exists>t b. first_review coll pr = Some (t, b) \<and> coll t \<le> coll s)"
proof -
  obtain commits reviews where tl: "timeline coll pr = (commits, reviews)" by fastforce
  have f: "find (\<lambda>r. snd r \<notin> bots) reviews = Some (s, a)" using assms tl by (simp add: first_human_review_def)
  then have m: "(s, a) \<in> set reviews" "a \<notin> bots" using find_SomeD [OF f] by simp_all
  obtain t b rest where r: "reviews = (t, b) # rest" using m(1) by (cases reviews) auto
  have "sorted (map (\<lambda>r. coll (fst r)) ((t, b) # rest))" using timeline_sorted [OF tl] unfolding r .
  then have "coll t \<le> coll s" using m(1) unfolding r by auto
  then show ?thesis using m(2) tl r by (simp add: first_review_def)
qed

text \<open>The first review by a human: it is one of the submitted reviews by who is no bot, and none of those is earlier.\<close>

lemma timeline_review_iff:
  "timeline coll pr = (commits, reviews) \<Longrightarrow> (t, a) \<in> set reviews \<longleftrightarrow>
     (\<exists>v \<in> set (cp_reviews pr). cr_submittedAt v = Some t \<and> t \<noteq> [] \<and> login (cr_author v) = a)"
  by (force simp: timeline_def truthy_def)

lemma find_sorted:
  assumes "sorted (map f xs)" "y \<in> set xs" "P y" shows "\<exists>x. find P xs = Some x \<and> f x \<le> f y"
  using assms by (induction xs) auto

lemma first_human_is_human:
  assumes "first_human_review coll bots pr = Some (s, a)"
  shows "\<exists>v \<in> set (cp_reviews pr). cr_submittedAt v = Some s \<and> login (cr_author v) \<notin> bots"
proof -
  obtain commits reviews where tl: "timeline coll pr = (commits, reviews)" by fastforce
  have f: "find (\<lambda>r. snd r \<notin> bots) reviews = Some (s, a)" using assms tl by (simp add: first_human_review_def)
  show ?thesis using find_SomeD [OF f] timeline_review_iff [OF tl, of s a] by auto
qed

lemma first_human_least:
  assumes "v \<in> set (cp_reviews pr)" "login (cr_author v) \<notin> bots" "cr_submittedAt v = Some t" "t \<noteq> []"
  shows "\<exists>s a. first_human_review coll bots pr = Some (s, a) \<and> coll s \<le> coll t"
proof -
  obtain commits reviews where tl: "timeline coll pr = (commits, reviews)" by fastforce
  have "(t, login (cr_author v)) \<in> set reviews" using timeline_review_iff [OF tl] assms by blast
  from find_sorted [OF timeline_sorted [OF tl] this, of "\<lambda>r. snd r \<notin> bots"] assms(2)
  show ?thesis by (auto simp: first_human_review_def tl)
qed

section \<open>What the series, tables and histograms add up to\<close>

lemma sum_list_sort_key: "sum_list (map f (sort_key k xs)) = (sum_list (map f xs) :: int)"
proof -
  have "sum_list (map f (insort_key k x ys)) = f x + sum_list (map f ys)" for x ys
    by (induction ys) simp_all
  then show ?thesis by (induction xs) simp_all
qed

lemma fold_keep: "(\<And>x m. x \<in> set xs \<Longrightarrow> P m \<Longrightarrow> P (f x m)) \<Longrightarrow> P m \<Longrightarrow> P (fold f xs m)"
  by (induction xs arbitrary: m) auto

text \<open>A fold of updates that keeps keys distinct and raises a measure by a known amount.\<close>

definition gauge :: "('v \<Rightarrow> int) \<Rightarrow> ('k \<times> 'v) list \<Rightarrow> int" where
  "gauge g m = (\<Sum>e\<leftarrow>m. g (snd e))"

definition keyed :: "('k \<times> 'v) list \<Rightarrow> bool" where
  "keyed m \<longleftrightarrow> distinct (map fst m)"

lemma keyed_Nil [simp]: "keyed []"
  by (simp add: keyed_def)

lemma gauge_Nil [simp]: "gauge g [] = 0"
  by (simp add: gauge_def)

lemma keyed_bump: "keyed m \<Longrightarrow> keyed (map_bump k d f m)"
  by (simp add: keyed_def distinct_map_bump)

lemma gauge_bump:
  "keyed m \<Longrightarrow> g d = 0 \<Longrightarrow> (\<And>v. g (f v) = g v + c) \<Longrightarrow> gauge g (map_bump k d f m) = gauge g m + c"
  unfolding keyed_def gauge_def by (rule sum_map_bump)

lemma gauge_fold:
  assumes "keyed m" "\<And>x m. keyed m \<Longrightarrow> keyed (f x m)"
    and "\<And>x m. keyed m \<Longrightarrow> gauge g (f x m) = gauge g m + c x"
  shows "keyed (fold f xs m) \<and> gauge g (fold f xs m) = gauge g m + sum_list (map c xs)"
  using assms(1)
proof (induction xs arbitrary: m)
  case (Cons x xs)
  have "keyed (f x m)" "gauge g (f x m) = gauge g m + c x" using assms(2,3) Cons.prems by simp_all
  with Cons.IH [of "f x m"] show ?case by simp
qed simp

lemma sum_gauge: "sum_list (map (\<lambda>e. g (snd e)) m) = gauge g m"
  by (simp add: gauge_def)

subsection \<open>The weekly series\<close>

lemma set_map_set: "set (map_set k v m) \<subseteq> insert (k, v) (set m)"
  by (induction k v m rule: map_set.induct) auto

lemma keyed_set: "keyed m \<Longrightarrow> keyed (map_set k v m)"
  by (simp add: keyed_def distinct_map_set)

lemma seed_weeks_gauge:
  fixes g :: "WeekBucket \<Rightarrow> int"
  assumes "\<And>c. g (emptyWeek c) = 0"
  shows "keyed (seed_weeks e l) \<and> gauge g (seed_weeks e l) = 0"
proof -
  define P where "P m \<longleftrightarrow> keyed m \<and> (\<forall>v \<in> set m. g (snd v) = 0)" for m :: "(string \<times> WeekBucket) list"
  have "P (map_set k (emptyWeek c) m)" if "P m" for k c m
    using that set_map_set [of k "emptyWeek c" m] assms [of c] by (auto simp: P_def keyed_set)
  then have "P (seed_weeks e l)"
    unfolding seed_weeks_def by (intro fold_keep [where P = P]) (simp_all add: P_def)
  then have k: "keyed (seed_weeks e l)" and
    z: "map (\<lambda>v. g (snd v)) (seed_weeks e l) = map (\<lambda>v. 0) (seed_weeks e l)"
    by (simp_all add: P_def)
  have "gauge g (seed_weeks e l) = 0" unfolding gauge_def z by (simp add: sum_list_triv)
  with k show ?thesis by simp
qed

lemma week_map_gauge:
  fixes g :: "WeekBucket \<Rightarrow> int"
  assumes "\<And>c. g (emptyWeek c) = 0" "\<And>p v. g (add_to_week p v) = g v + c p"
  shows "gauge g (week_map dated e l) = sum_list (map (\<lambda>d. c (fst d)) dated)"
proof -
  have "keyed (week_map dated e l) \<and> gauge g (week_map dated e l)
      = gauge g (seed_weeks e l) + sum_list (map (\<lambda>d. c (fst d)) dated)"
    unfolding week_map_def
    using seed_weeks_gauge [of g, OF assms(1)] assms
    by (intro gauge_fold) (auto simp: keyed_bump gauge_bump split: prod.splits)
  then show ?thesis using seed_weeks_gauge [of g e l, OF assms(1)] by simp
qed

lemma those_map_pair: "those (map (\<lambda>p. map_option (Pair p) (f p)) ps) = Some ds \<Longrightarrow> map fst ds = ps"
  by (induction ps arbitrary: ds) (auto split: option.splits)

lemma weeklySeries_sum:
  fixes g :: "WeekBucket \<Rightarrow> int"
  assumes "weeklySeries coll merged now = Some ws"
    and "\<And>c. g (emptyWeek c) = 0" "\<And>p v. g (add_to_week p v) = g v + c p"
    and "\<And>cur b. h (week_point cur b) = g b"
  shows "sum_list (map h ws) = sum_list (map c merged)"
proof (cases merged)
  case Nil
  then show ?thesis using assms(1) by (simp add: weeklySeries_def)
next
  case (Cons first rest)
  obtain dated e l where d: "those (map (\<lambda>p. map_option (Pair p) (parse_date (merge_string p))) merged) = Some dated"
    and ws: "ws = map (week_point (isoWeekKey (to_iso now))) (sort_key (\<lambda>b. coll (wb_week b)) (map snd (week_map dated e l)))"
    using assms(1) unfolding weeklySeries_def Cons by (auto simp: Let_def split: option.splits)
  have "sum_list (map h ws) = gauge g (week_map dated e l)"
    unfolding ws by (simp add: assms(4) sum_list_sort_key comp_def gauge_def)
  also have "\<dots> = sum_list (map (\<lambda>d. c (fst d)) dated)" by (rule week_map_gauge [OF assms(2,3)])
  also have "\<dots> = sum_list (map c (map fst dated))" by (simp add: comp_def)
  finally show ?thesis using those_map_pair [OF d] by simp
qed

subsection \<open>The tables\<close>

lemma keyed_bump_row: "keyed rows \<Longrightarrow> keyed (bump_row bots name f rows)"
  by (simp add: bump_row_def keyed_bump)

lemma gauge_bump_row:
  "keyed rows \<Longrightarrow> g (new_reviewer bots name) = 0 \<Longrightarrow> (\<And>v. g (f v) = g v + c) \<Longrightarrow>
   gauge g (bump_row bots name f rows) = gauge g rows + c"
  by (simp add: bump_row_def gauge_bump)

lemma review_pr_gauge:
  assumes "keyed rows" "\<And>name. g (new_reviewer bots name) = 0"
    and "\<And>t v. g (count_thread t v) = g v + a" "\<And>r v. g (count_review r v) = g v + b"
    and "\<And>v. g (count_touched v) = g v"
  shows "keyed (review_pr bots pr rows) \<and> gauge g (review_pr bots pr rows) =
    gauge g rows + a * int (length (th_threads (dp_threads pr))) + b * int (length (dp_reviews pr))"
proof -
  define r1 where "r1 = fold (\<lambda>t. bump_row bots (tr_author t) (count_thread t)) (th_threads (dp_threads pr)) rows"
  define r2 where "r2 = fold (\<lambda>v. bump_row bots (dr_author v) (count_review v)) (dp_reviews pr) r1"
  have 1: "keyed r1 \<and> gauge g r1 = gauge g rows + sum_list (map (\<lambda>t. a) (th_threads (dp_threads pr)))"
    unfolding r1_def using assms by (intro gauge_fold) (auto simp: keyed_bump_row gauge_bump_row)
  have 2: "keyed r2 \<and> gauge g r2 = gauge g r1 + sum_list (map (\<lambda>v. b) (dp_reviews pr))"
    unfolding r2_def using assms 1 by (intro gauge_fold) (auto simp: keyed_bump_row gauge_bump_row)
  have 3: "keyed (fold (\<lambda>n. bump_row bots n count_touched) xs r2) \<and>
      gauge g (fold (\<lambda>n. bump_row bots n count_touched) xs r2) = gauge g r2 + sum_list (map (\<lambda>n. 0) xs)" for xs
    using assms 2 by (intro gauge_fold) (auto simp: keyed_bump_row gauge_bump_row)
  have "review_pr bots pr rows = fold (\<lambda>n. bump_row bots n count_touched)
      (first_seen (map tr_author (th_threads (dp_threads pr)) @ map dr_author (dp_reviews pr))) r2"
    by (simp add: review_pr_def Let_def r1_def r2_def)
  then show ?thesis using 1 2 3 by (simp add: sum_list_triv)
qed

lemma reviewer_rows_gauge:
  assumes "\<And>name. g (new_reviewer bots name) = 0"
    and "\<And>t v. g (count_thread t v) = g v + a" "\<And>r v. g (count_review r v) = g v + b"
    and "\<And>v. g (count_touched v) = g v"
  shows "gauge g (fold (review_pr bots) merged []) =
    sum_list (map (\<lambda>pr. a * int (length (th_threads (dp_threads pr))) + b * int (length (dp_reviews pr))) merged)"
  using gauge_fold [of "[]" "review_pr bots" g] review_pr_gauge [OF _ assms] by (simp add: add.assoc)

lemma reviewerTable_sum:
  assumes "\<And>e. h (reviewer_row e) = g (snd e)"
  shows "sum_list (map h (reviewerTable bots merged)) = gauge g (fold (review_pr bots) merged [])"
  by (simp add: reviewerTable_def sum_list_sort_key comp_def assms gauge_def)

lemma author_groups_gauge:
  assumes "g [] = 0" "\<And>prs pr. g (prs @ [pr]) = g prs + c pr"
  shows "gauge g (author_groups merged) = sum_list (map c merged)"
  using gauge_fold [of "[]" "\<lambda>pr. map_bump (dp_author pr) [] (\<lambda>prs. prs @ [pr])" g c merged]
  by (simp add: author_groups_def keyed_bump gauge_bump assms)

lemma authorTable_sum:
  assumes "\<And>e. h (author_row bots e) = g (snd e)"
  shows "sum_list (map h (authorTable coll bots merged)) = gauge g (author_groups merged)"
  by (simp add: authorTable_def sum_list_sort_key comp_def assms gauge_def)

lemma total_of_sum: "total_of f prs = sum_list (map f prs)"
proof -
  have "fold (\<lambda>pr n. n + f pr) prs k = k + sum_list (map f prs)" for k
    by (induction prs arbitrary: k) simp_all
  then show ?thesis by (simp add: total_of_def)
qed

subsection \<open>Histograms and totals\<close>

lemma sizeBucket_mem: "sizeBucket s \<in> set SIZE_BUCKETS"
  by (auto simp: sizeBucket_def SIZE_BUCKETS_def split: option.splits)

lemma count_by_label:
  assumes "distinct ls" "\<And>x. x \<in> set xs \<Longrightarrow> f x \<in> set ls"
  shows "sum_list (map (\<lambda>l. count_if (\<lambda>x. f x = l) xs) ls) = int (length xs)"
  using assms(2)
proof (induction xs)
  case Nil
  then show ?case by (simp add: count_if_def)
next
  case (Cons x xs)
  have "sum_list (map (\<lambda>l. count_if (\<lambda>y. f y = l) (x # xs)) ls)
      = sum_list (map (\<lambda>l. count_if (\<lambda>y. f y = l) xs + (if f x = l then 1 else 0)) ls)"
    by (intro arg_cong [where f = sum_list] map_cong) (simp_all add: count_if_def)
  also have "\<dots> = int (length xs) + sum_list (map (\<lambda>l. if f x = l then 1 else 0) ls)"
    using Cons by (simp add: sum_list_addf)
  also have "sum_list (map (\<lambda>l. if f x = l then 1 else (0::int)) ls) = 1"
    using assms(1) Cons.prems [of x] by (simp add: sum_list_distinct_conv_sum_set)
  finally show ?case by simp
qed

lemma size_labels_distinct: "distinct (map sb_label SIZE_BUCKETS)"
  by (simp add: SIZE_BUCKETS_def)

lemma size_histogram_sum: "sum_list (map hb_count (size_histogram merged)) = int (length merged)"
proof -
  have "sum_list (map (\<lambda>l. count_if (\<lambda>pr. sb_label (sizeBucket (dp_size pr)) = l) merged) (map sb_label SIZE_BUCKETS))
      = int (length merged)"
    using size_labels_distinct sizeBucket_mem by (intro count_by_label) auto
  then show ?thesis by (simp add: size_histogram_def comp_def)
qed

lemma commits_histogram_sum: "sum_list (map hb_count (commits_histogram merged)) = int (length merged)"
proof -
  have "gauge id (fold (\<lambda>pr. map_bump (min (dp_commitCount pr) 10) 0 (\<lambda>n. n + 1)) merged [])
      = int (length merged)"
    using gauge_fold [of "[]" "\<lambda>pr. map_bump (min (dp_commitCount pr) 10) 0 (\<lambda>n. n + 1)" id "\<lambda>pr. 1" merged]
    by (simp add: keyed_bump gauge_bump sum_list_triv)
  then show ?thesis by (simp add: commits_histogram_def comp_def case_prod_beta sum_list_sort_key gauge_def)
qed

lemma threadTotals_eq:
  "threadTotals merged =
     \<lparr>tt_total = total_of (\<lambda>p. th_total (dp_threads p)) merged,
      tt_resolved = total_of (\<lambda>p. th_resolved (dp_threads p)) merged,
      tt_unresolvedOutdated = total_of (\<lambda>p. th_unresolvedOutdated (dp_threads p)) merged,
      tt_unresolvedLive = total_of (\<lambda>p. th_unresolvedLive (dp_threads p)) merged,
      tt_bot = total_of (\<lambda>p. th_bot (dp_threads p)) merged,
      tt_human = total_of (\<lambda>p. th_human (dp_threads p)) merged\<rparr>"
proof -
  have "fold add_totals merged acc =
     \<lparr>tt_total = tt_total acc + sum_list (map (\<lambda>p. th_total (dp_threads p)) merged),
      tt_resolved = tt_resolved acc + sum_list (map (\<lambda>p. th_resolved (dp_threads p)) merged),
      tt_unresolvedOutdated = tt_unresolvedOutdated acc + sum_list (map (\<lambda>p. th_unresolvedOutdated (dp_threads p)) merged),
      tt_unresolvedLive = tt_unresolvedLive acc + sum_list (map (\<lambda>p. th_unresolvedLive (dp_threads p)) merged),
      tt_bot = tt_bot acc + sum_list (map (\<lambda>p. th_bot (dp_threads p)) merged),
      tt_human = tt_human acc + sum_list (map (\<lambda>p. th_human (dp_threads p)) merged)\<rparr>" for acc
    by (induction merged arbitrary: acc) (simp_all add: add_totals_def Let_def)
  then show ?thesis by (simp add: threadTotals_def total_of_sum)
qed

end
