(* ===== verification/DateRange.thy ===== *)
theory DateRange
  imports Canonical
begin

text \<open>
  Date ranges, \<open>core/src/range.ts\<close>: presets, and what of the pull requests and of the telemetry lies in
  a range. Instants are compared as strings, as the code compares them.
\<close>

datatype RangePreset = PDay | PWeek | P2w | PMonth | PAll | PCustom

record DateRange =
  rg_preset :: RangePreset
  rg_from :: "string option"
  rg_to :: "string option"

fun preset_str :: "RangePreset \<Rightarrow> string" where
  "preset_str PDay = ''day''"
| "preset_str PWeek = ''week''"
| "preset_str P2w = ''2w''"
| "preset_str PMonth = ''month''"
| "preset_str PAll = ''all''"
| "preset_str PCustom = ''custom''"

definition RANGE_PRESETS :: "RangePreset list" where
  "RANGE_PRESETS = [PDay, PWeek, P2w, PMonth, PAll, PCustom]"

definition ALL_TIME :: DateRange where
  "ALL_TIME = \<lparr>rg_preset = PAll, rg_from = None, rg_to = None\<rparr>"

text \<open>\<open>PRESET_DAYS\<close>, for the presets that are rolling lookbacks.\<close>

fun PRESET_DAYS :: "RangePreset \<Rightarrow> int" where
  "PRESET_DAYS PDay = 1"
| "PRESET_DAYS PWeek = 7"
| "PRESET_DAYS P2w = 14"
| "PRESET_DAYS PMonth = 30"
| "PRESET_DAYS _ = 0"

definition isRangePreset :: "string \<Rightarrow> bool" where
  "isRangePreset value \<longleftrightarrow> value \<in> set (map preset_str RANGE_PRESETS)"

definition resolveRange :: "RangePreset \<Rightarrow> int \<Rightarrow> string option \<Rightarrow> string option \<Rightarrow> DateRange" where
  "resolveRange preset now customFrom customTo =
     (if preset = PAll then ALL_TIME
      else if preset = PCustom then \<lparr>rg_preset = preset, rg_from = customFrom, rg_to = customTo\<rparr>
      else \<lparr>rg_preset = preset, rg_from = Some (to_iso (now - PRESET_DAYS preset * DAY_MS)),
            rg_to = Some (to_iso now)\<rparr>)"

definition isAllTime :: "DateRange \<Rightarrow> bool" where
  "isAllTime rng \<longleftrightarrow> rg_from rng = None \<and> rg_to rng = None"

definition in_range :: "string \<Rightarrow> DateRange \<Rightarrow> bool" where
  "in_range s rng =
     (if (case rg_from rng of None \<Rightarrow> False | Some f \<Rightarrow> s < f) then False
      else if (case rg_to rng of None \<Rightarrow> False | Some t \<Rightarrow> t \<le> s) then False
      else True)"

definition overlaps :: "string \<Rightarrow> string \<Rightarrow> DateRange \<Rightarrow> bool" where
  "overlaps a b rng =
     (if (case rg_from rng of None \<Rightarrow> False | Some f \<Rightarrow> b < f) then False
      else if (case rg_to rng of None \<Rightarrow> False | Some t \<Rightarrow> t \<le> a) then False
      else True)"

definition pr_in_range :: "DateRange \<Rightarrow> DerivedPr \<Rightarrow> bool" where
  "pr_in_range rng pr =
     (if truthy (dp_mergedAt pr) then in_range (the (dp_mergedAt pr)) rng
      else if dp_state pr = PrOpen
        then (case rg_to rng of None \<Rightarrow> True | Some t \<Rightarrow> dp_createdAt pr < t)
      else in_range (dp_createdAt pr) rng)"

definition filterPrs :: "DerivedPr list \<Rightarrow> DateRange \<Rightarrow> DerivedPr list" where
  "filterPrs prs rng = (if isAllTime rng then prs else filter (pr_in_range rng) prs)"

definition filterTelemetryInput :: "TelemetryInput \<Rightarrow> DateRange \<Rightarrow> TelemetryInput" where
  "filterTelemetryInput inp rng =
     (if isAllTime rng then inp
      else
        (let sessions = filter (\<lambda>s. overlaps (sr_firstSeen s) (sr_lastSeen s) rng) (ti_sessions inp);
             kept = set (map sr_sessionId sessions) in
         \<lparr>ti_sessions = sessions,
          ti_spans = filter (\<lambda>s. ss_sessionId s \<in> kept \<and> overlaps (ss_from s) (ss_to s) rng) (ti_spans inp),
          ti_splits = filter (\<lambda>s. sl_sessionId s \<in> kept \<and> overlaps (sl_from s) (sl_to s) rng) (ti_splits inp),
          ti_links = filter (\<lambda>l. lk_sessionId l \<in> kept \<and> in_range (lk_at l) rng) (ti_links inp),
          ti_coverage = ti_coverage inp\<rparr>))"

section \<open>Facts\<close>

lemma in_range_iff:
  "in_range s rng \<longleftrightarrow> (\<forall>f. rg_from rng = Some f \<longrightarrow> f \<le> s) \<and> (\<forall>t. rg_to rng = Some t \<longrightarrow> s < t)"
  by (auto simp: in_range_def split: option.splits)

lemma overlaps_iff:
  "overlaps a b rng \<longleftrightarrow> (\<forall>f. rg_from rng = Some f \<longrightarrow> f \<le> b) \<and> (\<forall>t. rg_to rng = Some t \<longrightarrow> a < t)"
  by (auto simp: overlaps_def split: option.splits)

text \<open>Rolling presets: a window of a whole number of days that ends now.\<close>

lemma resolve_rolling:
  assumes "preset \<notin> {PAll, PCustom}" "common_era (now - PRESET_DAYS preset * DAY_MS)" "common_era now" "common_era t"
  shows "in_range (to_iso t) (resolveRange preset now a b) \<longleftrightarrow> now - PRESET_DAYS preset * DAY_MS \<le> t \<and> t < now"
  using assms to_iso_less_iff [OF assms(4,2)] to_iso_less_iff [OF assms(4,3)]
  by (auto simp: in_range_iff resolveRange_def not_less [symmetric])

end
