(* ===== verification/Telemetry.thy ===== *)
theory Telemetry
  imports Metrics DateRange
begin

text \<open>
  The attribution of agent telemetry to pull requests, \<open>core/src/telemetry.ts\<close>: sessions are split by
  the repository their hook reported, a transcript's link to a pull request wins over its branch, and
  every other part of a session goes to the first pull request of its branch that was still open, or
  to none. \<open>attribute\<close> is \<open>None\<close> where the weekly series throws \<open>RangeError\<close>.

  A \<open>Set\<close> the code only asks about or counts is the list of its members in insertion order.
\<close>

section \<open>Sums\<close>

definition sum_values :: "rat option list \<Rightarrow> rat option" where
  "sum_values values =
     (case fold (\<lambda>v (tot, seen). case v of None \<Rightarrow> (tot, seen) | Some q \<Rightarrow> (tot + q, True)) values (0, False)
      of (tot, seen) \<Rightarrow> if seen then Some tot else None)"

definition sumTokens :: "TokenTotals list \<Rightarrow> TokenTotals" where
  "sumTokens items =
     \<lparr>tk_input = sum_values (map tk_input items), tk_output = sum_values (map tk_output items),
      tk_cacheRead = sum_values (map tk_cacheRead items),
      tk_cacheCreation = sum_values (map tk_cacheCreation items)\<rparr>"

definition emptyTokens :: TokenTotals where
  "emptyTokens = \<lparr>tk_input = None, tk_output = None, tk_cacheRead = None, tk_cacheCreation = None\<rparr>"

definition billableTokens :: "TokenTotals \<Rightarrow> rat option" where
  "billableTokens t = sum_values [tk_input t, tk_output t]"

definition ratio_q :: "rat \<Rightarrow> rat \<Rightarrow> rat option" where
  "ratio_q part whole = (if whole \<noteq> 0 then Some (part / whole) else None)"

definition acceptRatio :: "rat option \<Rightarrow> rat option \<Rightarrow> rat option" where
  "acceptRatio accepted rejected =
     (case (sum_values [accepted, rejected], accepted) of
        (Some tot, Some a) \<Rightarrow> ratio_q a tot
      | _ \<Rightarrow> None)"

definition active_hours :: "rat option \<Rightarrow> rat option" where
  "active_hours secs = map_option (\<lambda>s. s * 1000 / of_int HOUR) secs"

section \<open>Keys\<close>

definition prKey :: "string \<Rightarrow> int \<Rightarrow> string" where
  "prKey repo number = repo @ ''#'' @ int_str number"

definition branchKey :: "string \<Rightarrow> string \<Rightarrow> string" where
  "branchKey repo branch = repo @ ''@'' @ branch"

section \<open>The weekly series\<close>

record TelemetryBucket =
  tb_week :: string
  tb_start :: string
  tb_sessions :: int
  tb_tokens :: "TokenTotals list"
  tb_linesAdded :: rat
  tb_linesRemoved :: rat

definition empty_telemetry_week :: "int \<Rightarrow> TelemetryBucket" where
  "empty_telemetry_week d =
     \<lparr>tb_week = week_of_ms d, tb_start = take 10 (to_iso (week_start_ms d)), tb_sessions = 0,
      tb_tokens = [], tb_linesAdded = 0, tb_linesRemoved = 0\<rparr>"

definition add_session :: "SessionRollup \<Rightarrow> TelemetryBucket \<Rightarrow> TelemetryBucket" where
  "add_session s b =
     b\<lparr>tb_sessions := tb_sessions b + 1, tb_tokens := tb_tokens b @ [sr_tokens s],
       tb_linesAdded := tb_linesAdded b + num (sr_linesAdded s),
       tb_linesRemoved := tb_linesRemoved b + num (sr_linesRemoved s)\<rparr>"

definition telemetry_week_point :: "string \<Rightarrow> TelemetryBucket \<Rightarrow> TelemetryWeekPoint" where
  "telemetry_week_point current b =
     \<lparr>tw_week = tb_week b, tw_start = tb_start b, tw_sessions = tb_sessions b,
      tw_tokens = sumTokens (tb_tokens b), tw_linesAdded = tb_linesAdded b,
      tw_linesRemoved = tb_linesRemoved b, tw_partial = (tb_week b = current)\<rparr>"

definition telemetry_week_map ::
  "(SessionRollup \<times> int) list \<Rightarrow> int \<Rightarrow> int \<Rightarrow> (string \<times> TelemetryBucket) list"
where
  "telemetry_week_map dated earliest latest =
     fold (\<lambda>(s, ms) weeks. map_bump (week_of_ms ms) (empty_telemetry_week ms) (add_session s) weeks) dated
       (fold (\<lambda>c weeks. map_set (week_of_ms c) (empty_telemetry_week c) weeks)
          (week_cursor (week_start_ms earliest) (week_start_ms latest)) [])"

definition telemetry_weekly ::
  "(string \<Rightarrow> 'k :: linorder) \<Rightarrow> SessionRollup list \<Rightarrow> int \<Rightarrow> TelemetryWeekPoint list option"
where
  "telemetry_weekly coll sessions now =
     (case sessions of
        [] \<Rightarrow> Some []
      | first # _ \<Rightarrow>
          (let earliest = fold (\<lambda>s m. if sr_firstSeen s < m then sr_firstSeen s else m) sessions (sr_firstSeen first);
               latest = fold (\<lambda>s m. if m < sr_firstSeen s then sr_firstSeen s else m) sessions (sr_firstSeen first) in
           case (those (map (\<lambda>s. map_option (Pair s) (parse_date (sr_firstSeen s))) sessions),
                 parse_date earliest, parse_date latest) of
             (Some dated, Some e, Some l) \<Rightarrow>
               Some (map (telemetry_week_point (isoWeekKey (to_iso now)))
                 (sort_key (\<lambda>b. coll (tb_week b)) (map snd (telemetry_week_map dated e l))))
           | _ \<Rightarrow> None))"

section \<open>Stages of the attribution\<close>

text \<open>The three disjoint groups of sessions. \<open>repos\<close> is \<open>None\<close> when no filter is given.\<close>

definition inRepoScope :: "string list option \<Rightarrow> string \<Rightarrow> bool" where
  "inRepoScope repos name = (case repos of None \<Rightarrow> True | Some rs \<Rightarrow> name \<in> set rs)"

definition in_scope :: "string list option \<Rightarrow> SessionRollup list \<Rightarrow> SessionRollup list" where
  "in_scope repos = filter (\<lambda>s. case sr_repo s of None \<Rightarrow> False | Some r \<Rightarrow> inRepoScope repos r)"

definition other_repo :: "string list option \<Rightarrow> SessionRollup list \<Rightarrow> int" where
  "other_repo repos = count_if (\<lambda>s. case sr_repo s of None \<Rightarrow> False | Some r \<Rightarrow> \<not> inRepoScope repos r)"

definition without_hook :: "SessionRollup list \<Rightarrow> int" where
  "without_hook = count_if (\<lambda>s. sr_repo s = None)"

text \<open>The pull requests each session names, and the sessions that name exactly one.\<close>

definition link_step ::
  "string list option \<Rightarrow> string set \<Rightarrow> string set \<Rightarrow> SessionPrLink \<Rightarrow> (string \<times> string list) list
    \<Rightarrow> (string \<times> string list) list"
where
  "link_step repos scoped prKeys l m =
     (if lk_sessionId l \<notin> scoped then m
      else if \<not> inRepoScope repos (lk_repo l) then m
      else if prKey (lk_repo l) (lk_prNumber l) \<notin> prKeys then m
      else map_bump (lk_sessionId l) []
        (\<lambda>ks. if prKey (lk_repo l) (lk_prNumber l) \<in> set ks then ks else ks @ [prKey (lk_repo l) (lk_prNumber l)]) m)"

definition linked_prs ::
  "string list option \<Rightarrow> string set \<Rightarrow> string set \<Rightarrow> SessionPrLink list \<Rightarrow> (string \<times> string list) list"
where
  "linked_prs repos scoped prKeys links = fold (link_step repos scoped prKeys) links []"

definition linked_by_pr ::
  "(string \<rightharpoonup> SessionRollup) \<Rightarrow> (string \<times> string list) list \<Rightarrow> (string \<times> SessionRollup list) list"
where
  "linked_by_pr byId linked =
     fold (\<lambda>(sid, keys) m.
       case byId sid of None \<Rightarrow> m
       | Some session \<Rightarrow>
           if length keys > 1 then m else map_bump (hd keys) [] (\<lambda>ss. ss @ [session]) m) linked []"

definition ambiguous_links :: "(string \<rightharpoonup> SessionRollup) \<Rightarrow> (string \<times> string list) list \<Rightarrow> string set" where
  "ambiguous_links byId linked =
     (\<Union>(sid, keys) \<in> set linked. if byId sid \<noteq> None \<and> length keys > 1 then set keys else {})"

text \<open>The pull requests of a branch, by the time they stopped accepting work.\<close>

definition closesAt :: "PrTelemetryKey \<Rightarrow> string" where
  "closesAt pr = (case pk_mergedAt pr of None \<Rightarrow> ''9999'' | Some m \<Rightarrow> m)"

definition candidates ::
  "(string \<Rightarrow> 'k :: linorder) \<Rightarrow> PrTelemetryKey list \<Rightarrow> string \<Rightarrow> PrTelemetryKey list"
where
  "candidates coll prs key =
     sort_key (\<lambda>pr. coll (closesAt pr)) (filter (\<lambda>pr. branchKey (pk_repo pr) (pk_headRefName pr) = key) prs)"

definition owner_of ::
  "(string \<Rightarrow> 'k :: linorder) \<Rightarrow> PrTelemetryKey list \<Rightarrow> SessionSpanSplit \<Rightarrow> PrTelemetryKey option"
where
  "owner_of coll prs s =
     (case sl_branch s of
        None \<Rightarrow> None
      | Some b \<Rightarrow> find (\<lambda>pr. sl_from s \<le> closesAt pr) (candidates coll prs (branchKey (sl_repo s) b)))"

definition split_key :: "(string \<Rightarrow> 'k :: linorder) \<Rightarrow> PrTelemetryKey list \<Rightarrow> SessionSpanSplit \<Rightarrow> string option" where
  "split_key coll prs s = map_option (\<lambda>pr. prKey (pk_repo pr) (pk_number pr)) (owner_of coll prs s)"

definition place_split ::
  "(string \<Rightarrow> 'k :: linorder) \<Rightarrow> PrTelemetryKey list \<Rightarrow> SessionSpanSplit
    \<Rightarrow> (string \<times> SessionSpanSplit list) list \<times> SessionSpanSplit list
    \<Rightarrow> (string \<times> SessionSpanSplit list) list \<times> SessionSpanSplit list"
where
  "place_split coll prs s acc =
     (case acc of (byPr, orphans) \<Rightarrow>
        (case split_key coll prs s of
           None \<Rightarrow> (byPr, orphans @ [s])
         | Some key \<Rightarrow> (map_bump key [] (\<lambda>ss. ss @ [s]) byPr, orphans)))"

section \<open>Rows\<close>

text \<open>What a session and a split both contribute to a row.\<close>

record Usage =
  us_tokens :: TokenTotals
  us_linesAdded :: "rat option"
  us_linesRemoved :: "rat option"
  us_editsAccepted :: "rat option"
  us_editsRejected :: "rat option"
  us_activeSeconds :: "rat option"

definition session_usage :: "SessionRollup \<Rightarrow> Usage" where
  "session_usage s =
     \<lparr>us_tokens = sr_tokens s, us_linesAdded = sr_linesAdded s, us_linesRemoved = sr_linesRemoved s,
      us_editsAccepted = sr_editsAccepted s, us_editsRejected = sr_editsRejected s,
      us_activeSeconds = sr_activeSeconds s\<rparr>"

definition split_usage :: "SessionSpanSplit \<Rightarrow> Usage" where
  "split_usage s =
     \<lparr>us_tokens = sl_tokens s, us_linesAdded = sl_linesAdded s, us_linesRemoved = sl_linesRemoved s,
      us_editsAccepted = sl_editsAccepted s, us_editsRejected = sl_editsRejected s,
      us_activeSeconds = sl_activeSeconds s\<rparr>"

definition nullRow :: "PrTelemetryKey \<Rightarrow> Attribution \<Rightarrow> int \<Rightarrow> PrTelemetryRow" where
  "nullRow pr attribution sessions =
     \<lparr>pt_repo = pk_repo pr, pt_number = pk_number pr, pt_branch = pk_headRefName pr,
      pt_author = pk_author pr, pt_mergedAt = pk_mergedAt pr, pt_size = pk_size pr,
      pt_cycleHours = pk_cycleHours pr, pt_commitsAfterHumanReview = pk_commitsAfterHumanReview pr,
      pt_sessions = sessions, pt_tokens = emptyTokens, pt_linesAdded = None, pt_linesRemoved = None,
      pt_editsAccepted = None, pt_editsRejected = None, pt_acceptRatio = None, pt_activeHours = None,
      pt_tokensPerLoc = None, pt_attribution = attribution\<rparr>"

definition full_row ::
  "PrTelemetryKey \<Rightarrow> int \<Rightarrow> Usage list \<Rightarrow> Attribution \<Rightarrow> PrTelemetryRow"
where
  "full_row pr sessions parts attribution =
     (let tokens = sumTokens (map us_tokens parts);
          editsAccepted = sum_values (map us_editsAccepted parts);
          editsRejected = sum_values (map us_editsRejected parts);
          activeSeconds = sum_values (map us_activeSeconds parts) in
      \<lparr>pt_repo = pk_repo pr, pt_number = pk_number pr, pt_branch = pk_headRefName pr,
       pt_author = pk_author pr, pt_mergedAt = pk_mergedAt pr, pt_size = pk_size pr,
       pt_cycleHours = pk_cycleHours pr, pt_commitsAfterHumanReview = pk_commitsAfterHumanReview pr,
       pt_sessions = sessions, pt_tokens = tokens,
       pt_linesAdded = sum_values (map us_linesAdded parts),
       pt_linesRemoved = sum_values (map us_linesRemoved parts),
       pt_editsAccepted = editsAccepted, pt_editsRejected = editsRejected,
       pt_acceptRatio = acceptRatio editsAccepted editsRejected,
       pt_activeHours = active_hours activeSeconds,
       pt_tokensPerLoc =
         (case billableTokens tokens of None \<Rightarrow> None | Some q \<Rightarrow> ratio_q q (of_int (pk_size pr))),
       pt_attribution = attribution\<rparr>)"

definition listed :: "(string \<times> 'a list) list \<Rightarrow> string \<Rightarrow> 'a list" where
  "listed m key = (case map_of m key of None \<Rightarrow> [] | Some xs \<Rightarrow> xs)"

definition pr_row ::
  "string set \<Rightarrow> (string \<times> SessionRollup list) list \<Rightarrow> (string \<times> SessionSpanSplit list) list
    \<Rightarrow> PrTelemetryKey \<Rightarrow> PrTelemetryRow"
where
  "pr_row ambiguous linkedByPr byPr pr =
     (let key = prKey (pk_repo pr) (pk_number pr);
          linked = listed linkedByPr key; matched = listed byPr key;
          parts = map session_usage linked @ map split_usage matched;
          sessions = int (card (set (map sr_sessionId linked @ map sl_sessionId matched))) in
      if key \<in> ambiguous then nullRow pr AShared 0
      else if parts = [] then nullRow pr ANone 0
      else if list_ex (\<lambda>s. sl_share s = None) matched then nullRow pr AShared sessions
      else full_row pr sessions parts (if linked \<noteq> [] then ALinked else AExact))"

definition without_telemetry ::
  "string set \<Rightarrow> (string \<times> SessionRollup list) list \<Rightarrow> (string \<times> SessionSpanSplit list) list
    \<Rightarrow> PrTelemetryKey \<Rightarrow> bool"
where
  "without_telemetry ambiguous linkedByPr byPr pr \<longleftrightarrow>
     (let key = prKey (pk_repo pr) (pk_number pr) in
      key \<notin> ambiguous \<and> listed linkedByPr key = [] \<and> listed byPr key = [])"

definition unmatched_branches ::
  "(string \<Rightarrow> 'k :: linorder) \<Rightarrow> SessionSpanSplit list \<Rightarrow> (string \<times> string) list"
where
  "unmatched_branches coll orphans =
     sort_key (\<lambda>(repo, branch). (coll repo, coll branch))
       (map snd (fold (\<lambda>s m. map_set (branchKey (sl_repo s) (the (sl_branch s))) (sl_repo s, the (sl_branch s)) m)
          (filter (\<lambda>s. sl_branch s \<noteq> None) orphans) []))"

section \<open>The attribution\<close>

definition attribute ::
  "(string \<Rightarrow> 'k :: linorder) \<Rightarrow> string list option \<Rightarrow> int \<Rightarrow> PrTelemetryKey list \<Rightarrow> TelemetryInput
    \<Rightarrow> TelemetryStats option"
where
  "attribute coll repos now prs inp =
     (let inScope = in_scope repos (ti_sessions inp);
          scoped = set (map sr_sessionId inScope);
          byId = map_of (rev (map (\<lambda>s. (sr_sessionId s, s)) inScope));
          prKeys = set (map (\<lambda>pr. prKey (pk_repo pr) (pk_number pr)) prs);
          linkedPrs = linked_prs repos scoped prKeys (ti_links inp);
          linkedByPr = linked_by_pr byId linkedPrs;
          ambiguous = ambiguous_links byId linkedPrs;
          linkedIds = set (map fst linkedPrs);
          splits = filter (\<lambda>s. sl_sessionId s \<in> scoped \<and> sl_sessionId s \<notin> linkedIds) (ti_splits inp);
          (byPr, orphans) = fold (place_split coll prs) splits ([], []) in
      case telemetry_weekly coll inScope now of
        None \<Rightarrow> None
      | Some weekly \<Rightarrow> Some
        \<lparr>ts_totals = \<lparr>to_sessions = int (length inScope),
           to_tokens = sumTokens (map sr_tokens inScope),
           to_activeHours = active_hours (sum_values (map sr_activeSeconds inScope)),
           to_linesAdded = sum_values (map sr_linesAdded inScope),
           to_linesRemoved = sum_values (map sr_linesRemoved inScope),
           to_acceptRatio = acceptRatio (sum_values (map sr_editsAccepted inScope))
             (sum_values (map sr_editsRejected inScope))\<rparr>,
         ts_prs = map (pr_row ambiguous linkedByPr byPr) prs,
         ts_unmatched = \<lparr>um_sessions = int (card (set (map sl_sessionId orphans))),
           um_tokens = sumTokens (map sl_tokens orphans), um_branches = unmatched_branches coll orphans\<rparr>,
         ts_prsWithoutTelemetry = count_if (without_telemetry ambiguous linkedByPr byPr) prs,
         ts_sharedSessions =
           int (card (set (map sl_sessionId (filter (\<lambda>s. sl_share s = None) splits)))) +
           count_if (\<lambda>e. length (snd e) > 1) linkedPrs,
         ts_linkedSessions = count_if (\<lambda>e. length (snd e) = 1) linkedPrs,
         ts_otherRepoSessions = other_repo repos (ti_sessions inp),
         ts_sessionsWithoutHook = without_hook (ti_sessions inp),
         ts_weekly = weekly, ts_coverage = ti_coverage inp\<rparr>)"

section \<open>Facts\<close>

lemma sessions_split:
  "int (length (in_scope repos ss)) + other_repo repos ss + without_hook ss = int (length ss)"
  unfolding in_scope_def other_repo_def without_hook_def count_if_def
  by (induction ss) (auto split: option.splits)

text \<open>The placing of splits is a partition of them by their key.\<close>

lemma listed_bump [simp]:
  "listed (map_bump key [] (\<lambda>xs. xs @ [x]) m) k = (if k = key then listed m k @ [x] else listed m k)"
  by (simp add: listed_def split: option.splits)

lemma place_split_simps:
  "split_key coll prs s = None \<Longrightarrow> place_split coll prs s (m, os) = (m, os @ [s])"
  "split_key coll prs s = Some key \<Longrightarrow>
   place_split coll prs s (m, os) = (map_bump key [] (\<lambda>ss. ss @ [s]) m, os)"
  by (simp_all add: place_split_def)

lemma place_splits:
  "fold (place_split coll prs) splits (m, os) = (byPr, orphans) \<Longrightarrow>
   orphans = os @ filter (\<lambda>s. split_key coll prs s = None) splits \<and>
   (\<forall>key. listed byPr key = listed m key @ filter (\<lambda>s. split_key coll prs s = Some key) splits)"
proof (induction splits arbitrary: m os)
  case Nil
  then show ?case by simp
next
  case (Cons s splits)
  show ?case
  proof (cases "split_key coll prs s")
    case None
    then have "fold (place_split coll prs) splits (m, os @ [s]) = (byPr, orphans)"
      using Cons.prems by (simp add: place_split_simps)
    from Cons.IH [OF this] None show ?thesis by simp
  next
    case (Some key)
    then have "fold (place_split coll prs) splits (map_bump key [] (\<lambda>ss. ss @ [s]) m, os) = (byPr, orphans)"
      using Cons.prems by (simp add: place_split_simps)
    from Cons.IH [OF this] Some show ?thesis by auto
  qed
qed

lemma find_first: "find p xs = Some x \<Longrightarrow> \<exists>ys zs. xs = ys @ x # zs \<and> p x \<and> (\<forall>y \<in> set ys. \<not> p y)"
  by (induction xs) (auto split: if_splits, (metis append_Nil empty_iff list.set(1)), (metis append_Cons set_ConsD))

text \<open>The owner of a split is the first pull request of its branch that was open at its start.\<close>

lemma owner_of_spec:
  assumes "owner_of coll prs s = Some pr"
  shows "\<exists>b. sl_branch s = Some b \<and> pr \<in> set prs \<and>
    branchKey (pk_repo pr) (pk_headRefName pr) = branchKey (sl_repo s) b \<and> sl_from s \<le> closesAt pr \<and>
    (\<forall>q \<in> set prs. branchKey (pk_repo q) (pk_headRefName q) = branchKey (sl_repo s) b \<and> sl_from s \<le> closesAt q
       \<longrightarrow> coll (closesAt pr) \<le> coll (closesAt q))"
proof -
  obtain b where b: "sl_branch s = Some b"
    and f: "find (\<lambda>pr. sl_from s \<le> closesAt pr) (candidates coll prs (branchKey (sl_repo s) b)) = Some pr"
    using assms by (auto simp: owner_of_def split: option.splits)
  obtain ys zs where c: "candidates coll prs (branchKey (sl_repo s) b) = ys @ pr # zs" "sl_from s \<le> closesAt pr"
      "\<forall>y \<in> set ys. \<not> sl_from s \<le> closesAt y"
    using find_first [OF f] by blast
  have mem: "q \<in> set (ys @ pr # zs) \<longleftrightarrow> q \<in> set prs \<and> branchKey (pk_repo q) (pk_headRefName q) = branchKey (sl_repo s) b" for q
    unfolding c(1) [symmetric] by (auto simp: candidates_def)
  have "sorted (map (\<lambda>p. coll (closesAt p)) (ys @ pr # zs))"
    unfolding c(1) [symmetric] candidates_def by simp
  then have "coll (closesAt pr) \<le> coll (closesAt q)" if "q \<in> set (ys @ pr # zs)" "sl_from s \<le> closesAt q" for q
    using that c(3) by (auto simp: sorted_append)
  then show ?thesis using b c(2) mem by auto
qed

lemma owner_of_None:
  "owner_of coll prs s = None \<longleftrightarrow>
   (\<forall>b. sl_branch s = Some b \<longrightarrow> (\<forall>q \<in> set prs. branchKey (pk_repo q) (pk_headRefName q) = branchKey (sl_repo s) b \<longrightarrow>
      closesAt q < sl_from s))"
  by (auto simp: owner_of_def find_None_iff candidates_def not_le split: option.splits)

text \<open>A pull request's key tells repository and number apart.\<close>

lemma prKey_inject:
  assumes "0 \<le> m" "0 \<le> n"
  shows "prKey r m = prKey q n \<longleftrightarrow> r = q \<and> m = n"
proof
  assume eq: "prKey r m = prKey q n"
  have nd: "\<not> is_digit (CHR ''#'')" by (simp add: is_digit_def)
  have d: "list_all is_digit (rev (nat_str k))" for k using nat_str_digits by (auto simp: list_all_iff)
  have t: "takeWhile is_digit (rev (nat_str k) @ CHR ''#'' # s) = rev (nat_str k)" for k s
    using d [of k] nd by (simp add: takeWhile_append list_all_iff)
  have rv: "rev (prKey s k) = rev (nat_str (nat k)) @ CHR ''#'' # rev s" if "0 \<le> k" for s k
    using that by (simp add: prKey_def int_str_def)
  have "rev (nat_str (nat m)) @ CHR ''#'' # rev r = rev (nat_str (nat n)) @ CHR ''#'' # rev q"
    using rv [OF assms(1), of r] rv [OF assms(2), of q] eq by simp
  then have k: "rev (nat_str (nat m)) = rev (nat_str (nat n))" and s: "rev r = rev q"
    using t by (metis, metis append_same_eq list.inject same_append_eq t)
  from k have "nat m = nat n" by simp
  then show "r = q \<and> m = n" using s assms by simp
qed simp

end
