(* ===== verification/CoreTheorems.thy ===== *)
theory CoreTheorems
  imports MetricsFacts Telemetry
begin

text \<open>
  The properties of the dashboard's core: weeks, percentiles, the derived record, the figures of
  \<open>compute\<close>, date ranges and the attribution of telemetry.
\<close>

section \<open>Examples\<close>

definition sample_pr :: "string \<Rightarrow> string \<Rightarrow> CanonicalPr" where
  "sample_pr created merged =
     \<lparr>cp_provider = GitHub, cp_repo = ''acme/app'', cp_number = 7, cp_title = ''t'', cp_state = PrMerged,
      cp_isDraft = False, cp_baseRef = ''dev'', cp_headRef = ''f'', cp_createdAt = created,
      cp_mergedAt = Some merged, cp_closedAt = Some merged, cp_updatedAt = merged, cp_additions = 60,
      cp_deletions = 4, cp_changedFiles = 3, cp_author = Some \<lparr>login_of = ''ann''\<rparr>, cp_commitCount = 2,
      cp_reviewCount = 1, cp_threadCount = 1, cp_issueCommentCount = 0, cp_forcePushCount = Some 0,
      cp_readyAt = None, cp_commits = [],
      cp_reviews = [\<lparr>cr_reviewKey = ''r1'', cr_author = Some \<lparr>login_of = ''bob''\<rparr>, cr_state = RApproved,
         cr_providerState = ''APPROVED'', cr_submittedAt = Some merged\<rparr>],
      cp_threads = [\<lparr>ct_threadKey = ''k1'', ct_isResolved = False, ct_isOutdated = True,
         ct_firstCommentAuthor = None, ct_firstCommentAt = None, ct_parentReviewKey = Some ''r1''\<rparr>],
      cp_labels = [], cp_truncated = []\<rparr>"

definition monday_am :: string where "monday_am = ''2024-12-30T08:00:00Z''"
definition friday_pm :: string where "friday_pm = ''2025-01-03T17:30:00Z''"
definition later_on :: string where "later_on = ''2025-01-15T09:00:00Z''"

lemma example_dates:
  "parse_date monday_am = Some 1735545600000" "parse_date friday_pm = Some 1735925400000"
  "parse_date later_on = Some 1736931600000"
  by (simp_all only: monday_am_def friday_pm_def later_on_def) code_simp+

lemma example_years:
  "utc_full_year 1735545600000 = 2024" "utc_full_year 1735925400000 = 2025" "utc_full_year 1736931600000 = 2025"
  by code_simp+

lemma example_plain: "plain_year 1735545600000" "plain_year 1735925400000" "plain_year 1736931600000"
  by (simp_all add: plain_year_def example_years)

section \<open>Weeks\<close>

text \<open>
  C11: \<open>isoWeekKey\<close> computes the ISO 8601 week: its year is the year of the week's Thursday and its
  number is one more than the whole weeks of that year before the Thursday, for every date whose
  year is at least 101 (\<open>Date.UTC\<close> reads the years 0 to 99 as 1900 to 1999).
\<close>

theorem isoWeekKey_is_iso_8601:
  assumes "parse_date a = Some t" "era t"
  shows "isoWeekKey a = week_label (iso_week (day_of t))"
  using assms by (simp add: isoWeekKey_def week_of_ms_eq)

theorem isoWeekKey_is_iso_8601_witness: "isoWeekKey monday_am = week_label (iso_week (day_of 1735545600000))"
  by (rule isoWeekKey_is_iso_8601 [OF example_dates(1) plain_era [OF example_plain(1)]])

text \<open>
  \<open>weekStart\<close> is the Monday midnight at most seven days before its argument, and two dates have
  one week key exactly when they have one week start, across the turn of a year too.
\<close>

theorem week_key_names_week_start:
  assumes "parse_date a = Some s" "era s" "parse_date b = Some t" "era t"
  shows "(\<exists>m. weekStart a = Some m \<and> m \<le> s \<and> s < m + 7 * DAY_MS \<and> m mod DAY_MS = 0 \<and> utc_day m = 1)
    \<and> (isoWeekKey a = isoWeekKey b) = (weekStart a = weekStart b)"
proof
  have w: "weekStart a = Some (monday_of (day_of s) * DAY_MS)"
    using assms(1,2) by (simp add: weekStart_def week_start_ms_eq)
  have "(monday_of (day_of s) + 3 + 1) mod 7 = 1"
    using mod_add_left_eq [of "monday_of (day_of s) + 3" 7 1] by simp
  then have "utc_day (monday_of (day_of s) * DAY_MS) = 1" by (simp add: utc_day_def add.commute)
  moreover have "monday_of (day_of s) * DAY_MS \<le> s" "s < monday_of (day_of s) * DAY_MS + 7 * DAY_MS"
  proof -
    have "day_of s * DAY_MS \<le> s" "s < day_of s * DAY_MS + DAY_MS"
      using div_mult_mod_eq [of s DAY_MS] pos_mod_bound [of DAY_MS s] pos_mod_sign [of DAY_MS s]
      unfolding day_of_def by linarith+
    then show "monday_of (day_of s) * DAY_MS \<le> s" "s < monday_of (day_of s) * DAY_MS + 7 * DAY_MS"
      using monday_range [of "day_of s"] by linarith+
  qed
  ultimately show "\<exists>m. weekStart a = Some m \<and> m \<le> s \<and> s < m + 7 * DAY_MS \<and> m mod DAY_MS = 0 \<and> utc_day m = 1"
    using w by auto
  show "(isoWeekKey a = isoWeekKey b) = (weekStart a = weekStart b)"
    using week_of_ms_inject [OF assms(2,4)] assms(1,3) by (simp add: isoWeekKey_def weekStart_def)
qed

theorem week_key_names_week_start_witness:
  "(isoWeekKey monday_am = isoWeekKey friday_pm) = (weekStart monday_am = weekStart friday_pm)"
  using week_key_names_week_start [OF example_dates(1) plain_era [OF example_plain(1)]
      example_dates(2) plain_era [OF example_plain(2)]] by (rule conjunct2)

section \<open>The weekly series\<close>

definition merge_ms :: "DerivedPr \<Rightarrow> int" where
  "merge_ms p = the (parse_date (merge_string p))"

text \<open>
  C12: The weekly series is the reference series: for merges whose spellings compare as their
  instants do and a collation that orders week labels as their code units, it has one point for
  every week from the first merge to the last, quiet weeks included and in order, and each point
  counts exactly the pull requests merged in its week, with the median of their cycle times.
\<close>

theorem weeklySeries_is_reference:
  fixes coll :: "string \<Rightarrow> 'k :: linorder"
  assumes "merged \<noteq> []" "collates_labels coll"
    and "\<forall>p \<in> set merged. parse_date (merge_string p) \<noteq> None \<and> plain_year (merge_ms p)"
    and "\<forall>p \<in> set merged. \<forall>q \<in> set merged. merge_string p < merge_string q \<longrightarrow> merge_ms p \<le> merge_ms q"
  shows "weeklySeries coll merged now =
    Some (map (\<lambda>c. week_figures now c (merged_in merge_ms c merged))
      (mondays (Min (merge_ms ` set merged)) (Max (merge_ms ` set merged))))"
  using assms by (intro weeklySeries_eq) (auto simp: merge_ms_def)

definition merged_example :: "DerivedPr list" where
  "merged_example = the (deriveAll (\<lambda>s. s) defaultBots ALL_CAPABILITIES
     [sample_pr monday_am later_on, sample_pr monday_am friday_pm])"

lemma merged_example_strings: "map merge_string merged_example = [later_on, friday_pm]"
  by code_simp

lemma merged_example_dates:
  assumes "p \<in> set merged_example"
  shows "parse_date (merge_string p) = Some (merge_ms p) \<and> plain_year (merge_ms p)"
    and "q \<in> set merged_example \<Longrightarrow> merge_string p < merge_string q \<Longrightarrow> merge_ms p \<le> merge_ms q"
proof -
  have m: "merge_string ` set merged_example = {later_on, friday_pm}"
    unfolding set_map [symmetric] merged_example_strings by simp
  have mem: "merge_string r = later_on \<and> merge_ms r = 1736931600000 \<or>
      merge_string r = friday_pm \<and> merge_ms r = 1735925400000" if "r \<in> set merged_example" for r
  proof -
    have "merge_string r \<in> {later_on, friday_pm}" using that m by blast
    then show ?thesis by (auto simp: merge_ms_def example_dates)
  qed
  have lt: "\<not> later_on < friday_pm" by code_simp
  show "parse_date (merge_string p) = Some (merge_ms p) \<and> plain_year (merge_ms p)"
    using mem [OF assms] example_dates example_plain by auto
  show "merge_ms p \<le> merge_ms q" if "q \<in> set merged_example" "merge_string p < merge_string q"
    using mem [OF assms] mem [OF that(1)] that(2) lt by auto
qed

theorem weeklySeries_is_reference_witness:
  "\<exists>ws. weeklySeries (\<lambda>s. s) merged_example 0 = Some ws"
proof -
  have c: "collates_labels (\<lambda>s. s)" by (simp add: collates_labels_def)
  have ne: "merged_example \<noteq> []" using merged_example_strings by auto
  have "weeklySeries (\<lambda>s. s) merged_example 0 = Some (map (\<lambda>c. week_figures 0 c (merged_in merge_ms c merged_example))
      (mondays (Min (merge_ms ` set merged_example)) (Max (merge_ms ` set merged_example))))"
    using merged_example_dates by (intro weeklySeries_is_reference [OF ne c]) auto
  then show ?thesis by blast
qed

section \<open>Percentiles\<close>

text \<open>
  A percentile of measured values lies between the least and the greatest of them, which are
  the percentiles 0 and 100, never falls as the percentage grows, and does not depend on the order
  of the values.
\<close>

theorem percentile_sound:
  assumes "qs \<noteq> []" "0 \<le> p" "p \<le> q" "q \<le> 100" "sort qs = sort rs"
  shows "\<exists>a b. percentile (map Some qs) p = Some a \<and> percentile (map Some qs) q = Some b
    \<and> Min (set qs) \<le> a \<and> a \<le> b \<and> b \<le> Max (set qs)
    \<and> percentile (map Some qs) 0 = Some (Min (set qs)) \<and> percentile (map Some qs) 100 = Some (Max (set qs))
    \<and> percentile (map Some rs) p = Some a"
proof -
  have n: "0 < length qs" using assms(1) by simp
  have len: "length rs = length qs" using assms(5) by (metis length_sort)
  then have rs: "rs \<noteq> []" using n by auto
  note r = rank_range [OF n, of p] rank_range [OF n, of q] rank_range [OF n, of 0] rank_range [OF n, of 100]
  let ?f = "\<lambda>x. interpolate (sort qs) (rank_of (length qs) x)"
  have mono: "?f x \<le> ?f y" if "0 \<le> x" "x \<le> y" "y \<le> 100" for x y
    using rank_range [OF n, of x] rank_range [OF n, of y] rank_mono [OF n that(2)] that n
    by (intro interpolate_mono [OF n refl]) auto
  have "?f 0 \<le> ?f p" "?f p \<le> ?f q" "?f q \<le> ?f 100" using mono assms(2-4) by auto
  then show ?thesis
    using percentile_eq [OF assms(1)] percentile_eq [OF rs] interpolate_ends [OF assms(1)] assms(2-5) len by simp
qed

theorem percentile_sound_witness:
  "\<exists>a b. percentile (map Some [3, 1, 2]) 50 = Some a \<and> percentile (map Some [3, 1, 2]) 90 = Some b \<and> a \<le> b \<and> b \<le> 3"
  using percentile_sound [of "[3, 1, 2]" 50 90 "[1, 2, 3]"] by auto

section \<open>The derived record\<close>

text \<open>
  C13: \<open>derive\<close> keeps its figures consistent: every review thread is counted once as a bot's or a
  human's and once as resolved, outdated or live; the count of body-only reviews is the number of
  reviews marked so, and both are null exactly when reviews cannot be linked to threads; there is a
  cycle time exactly when the pull request was merged; the first review is no later than any
  submitted review, and than the first by a human; that is a submitted review whose author is no bot, no review by such an author is
  earlier, and there is one whenever such an author submitted a review.
\<close>

theorem derive_consistent:
  fixes coll :: "string \<Rightarrow> 'k :: linorder"
  assumes "derive coll bots caps pr = Some d"
  shows "threads_balance (dp_threads d) \<and> length (th_threads (dp_threads d)) = length (cp_threads pr)
    \<and> (if reviewLinkage caps
       then dp_bodyOnlyReviewCount d = Some (count_if (\<lambda>r. dr_bodyOnly r = Some True) (dp_reviews d))
       else dp_bodyOnlyReviewCount d = None \<and> list_all (\<lambda>r. dr_bodyOnly r = None) (dp_reviews d))
    \<and> (dp_cycleHours d \<noteq> None) = truthy (cp_mergedAt pr)
    \<and> (\<forall>s v t. dp_firstReviewAt d = Some s \<and> v \<in> set (cp_reviews pr) \<and> cr_submittedAt v = Some t \<and> t \<noteq> []
         \<longrightarrow> coll s \<le> coll t)
    \<and> (\<forall>h. dp_firstHumanReviewAt d = Some h \<longrightarrow> (\<exists>s. dp_firstReviewAt d = Some s \<and> coll s \<le> coll h)
         \<and> (\<exists>v \<in> set (cp_reviews pr). cr_submittedAt v = Some h \<and> login (cr_author v) \<notin> bots))
    \<and> (\<forall>v t. v \<in> set (cp_reviews pr) \<and> login (cr_author v) \<notin> bots \<and> cr_submittedAt v = Some t \<and> t \<noteq> []
         \<longrightarrow> (\<exists>h. dp_firstHumanReviewAt d = Some h \<and> coll h \<le> coll t))"
proof -
  obtain c1 c2 c3 c4 c5 where d: "d = derived_record coll bots caps pr c1 c2 c3 c4 c5"
    and c1: "hours_if (truthy (cp_mergedAt pr)) (Some (cp_createdAt pr)) (cp_mergedAt pr) = Some c1"
    using derive_cases [OF assms] by blast
  have n: "length (th_threads (threadStats bots pr)) = length (cp_threads pr)"
    by (simp add: threadStats_def Let_def)
  have cyc: "(c1 \<noteq> None) = truthy (cp_mergedAt pr)" using c1 by (auto simp: hours_if_def split: if_splits)
  have body: "count_if (\<lambda>r. dr_bodyOnly r = Some True) (map (\<lambda>r. \<lparr>dr_id = cr_reviewKey r, dr_author = login (cr_author r),
          dr_state = cr_providerState r, dr_submittedAt = cr_submittedAt r,
          dr_bodyOnly = Some (cr_reviewKey r \<notin> thread_review_keys pr)\<rparr>) (cp_reviews pr))
      = count_if (\<lambda>r. cr_reviewKey r \<notin> thread_review_keys pr) (cp_reviews pr)"
    by (simp add: count_if_def filter_map comp_def)
  have first: "coll s \<le> coll t" if "map_option fst (first_review coll pr) = Some s" "v \<in> set (cp_reviews pr)"
      "cr_submittedAt v = Some t" "t \<noteq> []" for s v t
    using that first_review_least [of coll pr s _ v t] by auto
  have human: "\<exists>s. map_option fst (first_review coll pr) = Some s \<and> coll s \<le> coll h"
    if "map_option fst (first_human_review coll bots pr) = Some h" for h
    using that first_human_after_first [of coll bots pr h] by auto
  have no_bot: "\<exists>v \<in> set (cp_reviews pr). cr_submittedAt v = Some h \<and> login (cr_author v) \<notin> bots"
    if "map_option fst (first_human_review coll bots pr) = Some h" for h
    using that first_human_is_human [of coll bots pr h] by auto
  have earliest: "\<exists>h. map_option fst (first_human_review coll bots pr) = Some h \<and> coll h \<le> coll t"
    if "v \<in> set (cp_reviews pr)" "login (cr_author v) \<notin> bots" "cr_submittedAt v = Some t" "t \<noteq> []" for v t
    using first_human_least [of v pr bots t coll] that by fastforce
  have humans: "\<forall>h. map_option fst (first_human_review coll bots pr) = Some h \<longrightarrow>
        (\<exists>s. map_option fst (first_review coll pr) = Some s \<and> coll s \<le> coll h) \<and>
        (\<exists>v \<in> set (cp_reviews pr). cr_submittedAt v = Some h \<and> login (cr_author v) \<notin> bots)"
      "\<forall>v t. v \<in> set (cp_reviews pr) \<and> login (cr_author v) \<notin> bots \<and> cr_submittedAt v = Some t \<and> t \<noteq> []
        \<longrightarrow> (\<exists>h. map_option fst (first_human_review coll bots pr) = Some h \<and> coll h \<le> coll t)"
    using human no_bot earliest by blast+
  have firsts: "\<forall>s v t. map_option fst (first_review coll pr) = Some s \<and> v \<in> set (cp_reviews pr) \<and> cr_submittedAt v = Some t \<and> t \<noteq> []
      \<longrightarrow> coll s \<le> coll t" using first by blast
  show ?thesis
    unfolding d derived_fields using threadStats_balance [of bots pr] n cyc body firsts humans
    by (simp add: list_all_iff)
qed

definition sample_derived :: DerivedPr where
  "sample_derived = the (derive (\<lambda>s. s) defaultBots ALL_CAPABILITIES (sample_pr monday_am friday_pm))"

theorem derive_consistent_witness: "threads_balance (dp_threads sample_derived) \<and> dp_cycleHours sample_derived \<noteq> None"
proof -
  have "derive (\<lambda>s. s) defaultBots ALL_CAPABILITIES (sample_pr monday_am friday_pm) \<noteq> None" by code_simp
  then have "derive (\<lambda>s. s) defaultBots ALL_CAPABILITIES (sample_pr monday_am friday_pm) = Some sample_derived"
    by (auto simp: sample_derived_def)
  from derive_consistent [OF this] show ?thesis by (simp add: sample_pr_def truthy_def friday_pm_def)
qed

definition dated :: "CanonicalPr \<Rightarrow> bool" where
  "dated pr \<longleftrightarrow> parse_date (cp_createdAt pr) \<noteq> None \<and>
     (truthy (cp_mergedAt pr) \<longrightarrow> parse_date (the (cp_mergedAt pr)) \<noteq> None) \<and>
     (truthy (cp_readyAt pr) \<longrightarrow> parse_date (the (cp_readyAt pr)) \<noteq> None) \<and>
     list_all (\<lambda>v. truthy (cr_submittedAt v) \<longrightarrow> parse_date (the (cr_submittedAt v)) \<noteq> None) (cp_reviews pr) \<and>
     list_all (\<lambda>c. parse_date (cc_committedAt c) \<noteq> None) (cp_commits pr)"

text \<open>
  \<open>derive\<close> is total on dates: it yields a record whenever the creation, merge and ready instants,
  the submitted reviews and the commits of a pull request are dates.
\<close>

theorem derive_total:
  assumes "dated pr"
  shows "derive coll bots caps pr \<noteq> None"
proof -
  obtain commits reviews where tl: "timeline coll pr = (commits, reviews)" by fastforce
  have rev: "parse_date (fst r) \<noteq> None" if "r \<in> set reviews" for r
    using timeline_reviews [OF tl that] assms by (auto simp: dated_def list_all_iff truthy_def)
  have c: "set commits = cc_committedAt ` set (cp_commits pr)" using tl by (auto simp: timeline_def)
  have last: "parse_date (the (last_commit coll pr)) \<noteq> None" if "last_commit coll pr \<noteq> None"
  proof -
    have "commits \<noteq> []" "the (last_commit coll pr) = last commits"
      using that tl by (auto simp: last_commit_def split: if_splits)
    then have "the (last_commit coll pr) \<in> set commits" by simp
    then show ?thesis using c assms by (auto simp: dated_def list_all_iff)
  qed
  have any: "parse_date (fst r) \<noteq> None" if "first_review coll pr = Some r" for r
    using that tl rev by (auto simp: first_review_def split: list.splits)
  have human: "parse_date (fst r) \<noteq> None" if "first_human_review coll bots pr = Some r" for r
    using that tl rev find_SomeD [of _ reviews r] by (auto simp: first_human_review_def)
  have "hours_if (truthy (cp_mergedAt pr)) (Some (cp_createdAt pr)) (cp_mergedAt pr) \<noteq> None"
    using assms by (intro hours_if_total) (simp add: dated_def)
  moreover have "hours_if (truthy (cp_mergedAt pr) \<and> truthy (cp_readyAt pr)) (cp_readyAt pr) (cp_mergedAt pr) \<noteq> None"
    using assms by (intro hours_if_total) (simp add: dated_def)
  moreover have "hours_if (map_option fst (first_review coll pr) \<noteq> None) (Some (cp_createdAt pr))
      (map_option fst (first_review coll pr)) \<noteq> None"
    using assms any by (intro hours_if_total) (auto simp: dated_def)
  moreover have "hours_if (map_option fst (first_human_review coll bots pr) \<noteq> None) (Some (cp_createdAt pr))
       (map_option fst (first_human_review coll bots pr)) \<noteq> None"
    using assms human by (intro hours_if_total) (auto simp: dated_def)
  moreover have "hours_if (truthy (cp_mergedAt pr) \<and> truthy (last_commit coll pr)) (last_commit coll pr) (cp_mergedAt pr) \<noteq> None"
    using assms last by (intro hours_if_total) (simp add: dated_def truthy_def)
  ultimately obtain c1 c2 c3 c4 c5 where
    "hours_if (truthy (cp_mergedAt pr)) (Some (cp_createdAt pr)) (cp_mergedAt pr) = Some c1"
    "hours_if (truthy (cp_mergedAt pr) \<and> truthy (cp_readyAt pr)) (cp_readyAt pr) (cp_mergedAt pr) = Some c2"
    "hours_if (map_option fst (first_review coll pr) \<noteq> None) (Some (cp_createdAt pr)) (map_option fst (first_review coll pr)) = Some c3"
    "hours_if (map_option fst (first_human_review coll bots pr) \<noteq> None) (Some (cp_createdAt pr))
       (map_option fst (first_human_review coll bots pr)) = Some c4"
    "hours_if (truthy (cp_mergedAt pr) \<and> truthy (last_commit coll pr)) (last_commit coll pr) (cp_mergedAt pr) = Some c5"
    by blast
  note c = this
  show ?thesis unfolding derive_def Let_def c Option.bind.bind_lunit by simp
qed

theorem derive_total_witness: "derive (\<lambda>s. s) defaultBots ALL_CAPABILITIES (sample_pr monday_am friday_pm) \<noteq> None"
proof -
  have "dated (sample_pr monday_am friday_pm)" by code_simp
  then show ?thesis by (rule derive_total)
qed

section \<open>The figures of the page\<close>

lemma weekly_merges:
  "weeklySeries coll merged now = Some ws \<Longrightarrow> sum_list (map wp_merges ws) = int (length merged)"
  using weeklySeries_sum [of coll merged now ws wb_merges "\<lambda>p. 1" wp_merges]
  by (simp add: emptyWeek_def add_to_week_def week_point_def sum_list_triv)

lemma weekly_loc:
  "weeklySeries coll merged now = Some ws \<Longrightarrow> sum_list (map wp_loc ws) = sum_list (map dp_size merged)"
  using weeklySeries_sum [of coll merged now ws wb_loc dp_size wp_loc]
  by (simp add: emptyWeek_def add_to_week_def week_point_def)

lemma reviewer_threads:
  "sum_list (map rr_threads (reviewerTable bots merged)) =
   sum_list (map (\<lambda>p. int (length (th_threads (dp_threads p)))) merged)"
  using reviewer_rows_gauge [of ra_threads bots 1 0 merged] reviewerTable_sum [of rr_threads ra_threads bots merged]
  by (simp add: new_reviewer_def count_thread_def count_review_def count_touched_def reviewer_row_def case_prod_beta)

lemma reviewer_reviews:
  "sum_list (map rr_reviews (reviewerTable bots merged)) =
   sum_list (map (\<lambda>p. int (length (dp_reviews p))) merged)"
  using reviewer_rows_gauge [of ra_reviews bots 0 1 merged] reviewerTable_sum [of rr_reviews ra_reviews bots merged]
  by (simp add: new_reviewer_def count_thread_def count_review_def count_touched_def reviewer_row_def case_prod_beta)

lemma author_merged:
  "sum_list (map ar_merged (authorTable coll bots merged)) = int (length merged)"
  using author_groups_gauge [of "\<lambda>ps. int (length ps)" "\<lambda>p. 1" merged]
    authorTable_sum [of ar_merged bots "\<lambda>ps. int (length ps)" coll merged]
  by (simp add: author_row_def Let_def case_prod_beta sum_list_triv)

lemma author_threads:
  "sum_list (map ar_threadsReceived (authorTable coll bots merged)) =
   sum_list (map (\<lambda>p. th_total (dp_threads p)) merged)"
  using author_groups_gauge [of "total_of (\<lambda>p. th_total (dp_threads p))" "\<lambda>p. th_total (dp_threads p)" merged]
    authorTable_sum [of ar_threadsReceived bots "total_of (\<lambda>p. th_total (dp_threads p))" coll merged]
  by (simp add: author_row_def Let_def case_prod_beta total_of_sum)

text \<open>
  C14: \<open>compute\<close> loses and invents nothing: the merges of the weekly series, the size histogram, the
  histogram of commits and the authors' merges each add up to the number of pull requests merged to
  the base branch, and the weekly lines to their sizes; the threads of the reviewers' table add up
  to the threads of these pull requests and its reviews to their reviews; and the threads the
  authors received add up to the headline's total.
\<close>

theorem compute_conserves:
  assumes "compute coll history base bots now all = Some st"
  defines "merged \<equiv> merged_to base all"
  shows "mc_mergedToBase (sm_counts (st_meta st)) = int (length merged)
    \<and> sum_list (map wp_merges (st_weekly st)) = int (length merged)
    \<and> sum_list (map wp_loc (st_weekly st)) = sum_list (map dp_size merged)
    \<and> sum_list (map hb_count (sz_histogram (st_size st))) = int (length merged)
    \<and> sum_list (map hb_count (st_commitsHistogram st)) = int (length merged)
    \<and> sum_list (map ar_merged (st_authors st)) = int (length merged)
    \<and> sum_list (map ar_threadsReceived (st_authors st)) = tt_total (st_threads st)
    \<and> sum_list (map rr_threads (st_reviewers st)) = sum_list (map (\<lambda>p. int (length (th_threads (dp_threads p)))) merged)
    \<and> sum_list (map rr_reviews (st_reviewers st)) = sum_list (map (\<lambda>p. int (length (dp_reviews p))) merged)"
proof -
  obtain weekly where w: "weeklySeries coll merged now = Some weekly"
    using assms(1) unfolding merged_def compute_def Let_def by (cases "weeklySeries coll (merged_to base all) now") auto
  then have st: "mc_mergedToBase (sm_counts (st_meta st)) = int (length merged)" "st_weekly st = weekly"
    "sz_histogram (st_size st) = size_histogram merged" "st_commitsHistogram st = commits_histogram merged"
    "st_authors st = authorTable coll bots merged" "st_threads st = threadTotals merged"
    "st_reviewers st = reviewerTable bots merged"
    using assms(1) unfolding merged_def compute_def Let_def by auto
  show ?thesis
    unfolding st using weekly_merges [OF w] weekly_loc [OF w]
    by (simp add: threadTotals_eq total_of_sum size_histogram_sum commits_histogram_sum author_merged
      author_threads reviewer_threads reviewer_reviews)
qed

definition sample_stats :: Stats where
  "sample_stats = the (compute (\<lambda>s. s) None ''dev'' defaultBots 1736931600000 merged_example)"

lemma compute_None: "compute coll history base bots now all = None \<longleftrightarrow> weeklySeries coll (merged_to base all) now = None"
  by (simp add: compute_def Let_def split: option.splits)

lemma merged_example_base: "merged_to ''dev'' merged_example = merged_example"
proof -
  have "list_all (\<lambda>pr. truthy (dp_mergedAt pr) \<and> dp_baseRefName pr = ''dev'') merged_example" by code_simp
  then show ?thesis by (simp add: merged_to_def list_all_iff)
qed

lemma sample_weekly: "weeklySeries (\<lambda>s. s) (merged_to ''dev'' merged_example) now \<noteq> None"
proof -
  have ne: "merged_example \<noteq> []" using merged_example_strings by auto
  have c: "collates_labels (\<lambda>s. s)" by (simp add: collates_labels_def)
  have "weeklySeries (\<lambda>s. s) merged_example now = Some (map (\<lambda>c. week_figures now c (merged_in merge_ms c merged_example))
      (mondays (Min (merge_ms ` set merged_example)) (Max (merge_ms ` set merged_example))))"
    using merged_example_dates by (intro weeklySeries_eq [OF ne c]) auto
  then show ?thesis by (simp add: merged_example_base)
qed

theorem compute_conserves_witness:
  "sum_list (map wp_merges (st_weekly sample_stats)) = 2"
proof -
  have "compute (\<lambda>s. s) None ''dev'' defaultBots 1736931600000 merged_example \<noteq> None"
    using sample_weekly by (simp only: compute_None not_False_eq_True)
  then have "compute (\<lambda>s. s) None ''dev'' defaultBots 1736931600000 merged_example = Some sample_stats"
    by (auto simp: sample_stats_def)
  moreover have "length (merged_to ''dev'' merged_example) = 2" by code_simp
  ultimately show ?thesis using compute_conserves by (metis of_nat_numeral)
qed

section \<open>Date ranges\<close>

text \<open>
  A rolling preset is the window of 1, 7, 14 or 30 whole days that ends now, the start included
  and the end not: the comparison of strings the code makes is the comparison of instants.
\<close>

theorem preset_window:
  assumes "preset \<notin> {PAll, PCustom}" "common_era (now - PRESET_DAYS preset * DAY_MS)" "common_era now" "common_era t"
  shows "in_range (to_iso t) (resolveRange preset now a b) \<longleftrightarrow> now - PRESET_DAYS preset * DAY_MS \<le> t \<and> t < now"
  using assms by (rule resolve_rolling)

lemma example_era: "common_era 1736931600000" "common_era (1736931600000 - 7 * DAY_MS)" "common_era 1735925400000"
  by code_simp+

theorem preset_window_witness:
  "\<not> in_range (to_iso 1735925400000) (resolveRange PWeek 1736931600000 None None)"
  using preset_window [of PWeek 1736931600000 1735925400000 None None] example_era by simp

text \<open>
  Adjacent ranges neither share a landed pull request nor miss one: one that merged, or closed
  without merging, is in the range from one instant to a later one exactly when it is in one, and
  then in only one, of the two ranges an instant between them gives.
\<close>

theorem adjacent_ranges_partition:
  assumes "a \<le> b" "b \<le> c" "truthy (dp_mergedAt pr) \<or> dp_state pr \<noteq> PrOpen"
  defines "r \<equiv> \<lambda>x y. \<lparr>rg_preset = PCustom, rg_from = Some x, rg_to = Some y\<rparr>"
  shows "(pr \<in> set (filterPrs prs (r a c))) = (pr \<in> set (filterPrs prs (r a b)) \<or> pr \<in> set (filterPrs prs (r b c)))
    \<and> \<not> (pr \<in> set (filterPrs prs (r a b)) \<and> pr \<in> set (filterPrs prs (r b c)))"
  using assms(1-3)
  by (auto simp: r_def filterPrs_def isAllTime_def pr_in_range_def in_range_iff not_less [symmetric] dest: less_trans
      split: if_splits)

theorem adjacent_ranges_partition_witness:
  "(sample_derived \<in> set (filterPrs [sample_derived] \<lparr>rg_preset = PCustom, rg_from = Some monday_am, rg_to = Some later_on\<rparr>)) =
   (sample_derived \<in> set (filterPrs [sample_derived] \<lparr>rg_preset = PCustom, rg_from = Some monday_am, rg_to = Some friday_pm\<rparr>) \<or>
    sample_derived \<in> set (filterPrs [sample_derived] \<lparr>rg_preset = PCustom, rg_from = Some friday_pm, rg_to = Some later_on\<rparr>))"
proof -
  have "monday_am \<le> friday_pm" "friday_pm \<le> later_on" "truthy (dp_mergedAt sample_derived)" by code_simp+
  from adjacent_ranges_partition [OF this(1,2) disjI1 [OF this(3)]] show ?thesis by (rule conjunct1)
qed

section \<open>Telemetry\<close>

text \<open>
  C15: The sessions of the store are counted once each: the sessions in scope, those of another
  repository and those without a hook add up to all of them, and the pull requests are listed once
  each, in order.
\<close>

theorem attribution_counts_every_session:
  assumes "attribute coll repos now prs inp = Some st"
  shows "to_sessions (ts_totals st) + ts_otherRepoSessions st + ts_sessionsWithoutHook st = int (length (ti_sessions inp))
    \<and> map (\<lambda>r. (pt_repo r, pt_number r)) (ts_prs st) = map (\<lambda>p. (pk_repo p, pk_number p)) prs"
  using assms sessions_split [of repos "ti_sessions inp"]
  by (auto simp: attribute_def Let_def pr_row_def nullRow_def full_row_def split: prod.splits option.splits)

text \<open>
  The splits of the sessions that no transcript links are partitioned: each goes to the row of
  one pull request, the first of its repository and branch to close of those still open when the
  work began, or, exactly when there is none, to the unmatched work, whose tokens and sessions are
  those of these splits.
\<close>

theorem splits_are_partitioned:
  fixes coll :: "string \<Rightarrow> 'k :: linorder"
  assumes "fold (place_split coll prs) splits ([], []) = (byPr, orphans)"
  shows "(\<forall>key. listed byPr key = filter (\<lambda>s. split_key coll prs s = Some key) splits)
    \<and> orphans = filter (\<lambda>s. owner_of coll prs s = None) splits
    \<and> (\<forall>s \<in> set splits. \<forall>pr. owner_of coll prs s = Some pr \<longrightarrow>
         s \<in> set (listed byPr (prKey (pk_repo pr) (pk_number pr)))
         \<and> pr \<in> set prs \<and> sl_from s \<le> closesAt pr
         \<and> (\<exists>b. sl_branch s = Some b \<and> branchKey (pk_repo pr) (pk_headRefName pr) = branchKey (sl_repo s) b
              \<and> (\<forall>q \<in> set prs. branchKey (pk_repo q) (pk_headRefName q) = branchKey (sl_repo s) b \<and> sl_from s \<le> closesAt q
                   \<longrightarrow> coll (closesAt pr) \<le> coll (closesAt q))))"
proof -
  have 1: "orphans = filter (\<lambda>s. split_key coll prs s = None) splits"
    "listed byPr key = filter (\<lambda>s. split_key coll prs s = Some key) splits" for key
    using place_splits [OF assms] by (simp_all add: listed_def)
  have 2: "s \<in> set (listed byPr (prKey (pk_repo pr) (pk_number pr)))"
    if "s \<in> set splits" "owner_of coll prs s = Some pr" for s pr
    unfolding 1(2) using that by (simp add: split_key_def)
  have 3: "orphans = filter (\<lambda>s. owner_of coll prs s = None) splits"
    unfolding 1(1) by (simp add: split_key_def)
  show ?thesis using 1(2) 2 3 owner_of_spec [of coll prs] by blast
qed

definition demo_split :: SessionSpanSplit where
  "demo_split = \<lparr>sl_sessionId = ''s1'', sl_repo = ''acme/app'', sl_branch = Some ''f'', sl_from = monday_am,
     sl_to = friday_pm, sl_share = Some 1, sl_tokens = emptyTokens, sl_linesAdded = None,
     sl_linesRemoved = None, sl_editsAccepted = None, sl_editsRejected = None, sl_activeSeconds = None\<rparr>"

definition demo_key :: "int \<Rightarrow> string option \<Rightarrow> PrTelemetryKey" where
  "demo_key n merged = \<lparr>pk_repo = ''acme/app'', pk_number = n, pk_author = ''ann'', pk_headRefName = ''f'',
     pk_createdAt = monday_am, pk_mergedAt = merged, pk_size = 10, pk_cycleHours = None,
     pk_commitsAfterHumanReview = 0\<rparr>"

theorem splits_are_partitioned_witness:
  "listed (fst (fold (place_split (\<lambda>s. s) [demo_key 1 None, demo_key 2 (Some friday_pm)]) [demo_split] ([], [])))
     (prKey ''acme/app'' 2) = [demo_split]"
proof -
  have k: "split_key (\<lambda>s. s) [demo_key 1 None, demo_key 2 (Some friday_pm)] demo_split = Some (prKey ''acme/app'' 2)"
    by code_simp
  show ?thesis
    using splits_are_partitioned [OF surjective_pairing, of "\<lambda>s. s" "[demo_key 1 None, demo_key 2 (Some friday_pm)]" "[demo_split]"] k
    by simp
qed

definition demo_session :: SessionRollup where
  "demo_session = \<lparr>sr_sessionId = ''s1'', sr_agent = ''claude'', sr_repo = None, sr_firstSeen = monday_am,
     sr_lastSeen = friday_pm, sr_tokens = emptyTokens, sr_linesAdded = None, sr_linesRemoved = None,
     sr_editsAccepted = None, sr_editsRejected = None, sr_activeSeconds = None, sr_commits = None,
     sr_pullRequests = None, sr_granularity = GSession\<rparr>"

definition demo_telemetry :: TelemetryInput where
  "demo_telemetry = \<lparr>ti_sessions = [demo_session], ti_spans = [], ti_splits = [demo_split], ti_links = [],
     ti_coverage = \<lparr>cv_from = None, cv_to = None\<rparr>\<rparr>"

theorem attribution_counts_every_session_witness:
  "\<exists>st. attribute (\<lambda>s. s) None 1736931600000 [demo_key 1 None] demo_telemetry = Some st \<and>
     to_sessions (ts_totals st) + ts_otherRepoSessions st + ts_sessionsWithoutHook st = 1"
proof -
  have "attribute (\<lambda>s. s) None 1736931600000 [demo_key 1 None] demo_telemetry \<noteq> None"
    by (simp add: attribute_def Let_def demo_telemetry_def in_scope_def demo_session_def telemetry_weekly_def
        case_prod_beta)
  then obtain st where st: "attribute (\<lambda>s. s) None 1736931600000 [demo_key 1 None] demo_telemetry = Some st" by blast
  have "length (ti_sessions demo_telemetry) = 1" by (simp add: demo_telemetry_def)
  then show ?thesis using attribution_counts_every_session [OF st] st by simp
qed

end
