(* ===== verification/Env.thy ===== *)
theory Env
  imports Http
begin

text \<open>
  What the two configurations (\<open>driver/src/config.ts\<close> and \<open>server/src/config.ts\<close>) share: the environment,
  a map from the names that are set to their values, the reading of a variable with its white space
  removed, and the bind of the error sum (\<open>Inl\<close> is the message of a thrown error).
\<close>

type_synonym env = "string \<Rightarrow> string option"

definition quoted :: "string \<Rightarrow> string" where
  "quoted s = [CHR 0x22] @ s @ [CHR 0x22]"

text \<open>\<open>(env.X ?? '').trim()\<close>, and the same with a fallback for the empty text.\<close>

definition env_trim :: "string option \<Rightarrow> string" where
  "env_trim raw = js_trim (case raw of None \<Rightarrow> [] | Some s \<Rightarrow> s)"

definition trim_or :: "string option \<Rightarrow> string \<Rightarrow> string" where
  "trim_or raw fallback = (if env_trim raw \<noteq> [] then env_trim raw else fallback)"

definition trim_or_null :: "string option \<Rightarrow> string option" where
  "trim_or_null raw = (if env_trim raw \<noteq> [] then Some (env_trim raw) else None)"

text \<open>\<open>s.replace(/\/+$/, '')\<close>.\<close>

definition strip_slashes :: "string \<Rightarrow> string" where
  "strip_slashes s = rev (dropWhile (\<lambda>c. c = CHR ''/'') (rev s))"

definition and_then :: "'e + 'a \<Rightarrow> ('a \<Rightarrow> 'e + 'b) \<Rightarrow> 'e + 'b" where
  "and_then r f = (case r of Inl e \<Rightarrow> Inl e | Inr v \<Rightarrow> f v)"

text \<open>\<open>if (refused) throw new Error(message)\<close>.\<close>

definition throw_if :: "bool \<Rightarrow> string \<Rightarrow> string + unit" where
  "throw_if refused message = (if refused then Inl message else Inr ())"

lemma and_then_Inr [simp]: "and_then r f = Inr v \<longleftrightarrow> (\<exists>u. r = Inr u \<and> f u = Inr v)"
  by (cases r) (simp_all add: and_then_def)

lemma throw_if_Inr [simp]: "throw_if b m = Inr u \<longleftrightarrow> \<not> b"
  by (simp add: throw_if_def)

lemma trim_or_nonempty: "d \<noteq> [] \<Longrightarrow> trim_or raw d \<noteq> []"
  by (simp add: trim_or_def)

lemma strip_slashes_end: "strip_slashes s \<noteq> t @ ''/''"
proof
  assume "strip_slashes s = t @ ''/''"
  then have "dropWhile (\<lambda>c. c = CHR ''/'') (rev s) = CHR ''/'' # rev t"
    by (metis rev.simps(2) rev_rev_ident strip_slashes_def append_Nil rev_append rev_singleton_conv append_Cons)
  then show False using hd_dropWhile [of "\<lambda>c. c = CHR ''/''" "rev s"] by simp
qed

end
