(* ===== verification/DriverConfig.thy ===== *)
theory DriverConfig
  imports Env
begin

text \<open>
  The driver's configuration, \<open>driver/src/config.ts\<close>, read from the environment: \<open>env\<close> maps the names
  that are set to their values, \<open>pid\<close> is the process id. \<open>url_protocol\<close> stands for the platform's
  \<open>new URL(s).protocol\<close>, \<open>None\<close> where it throws. A refused configuration is \<open>Inl\<close> of the message.
\<close>

datatype runner_cli = ClaudeCode | OpenCode

record DriverConfig =
  dc_boardUrl :: string
  dc_boardToken :: string
  dc_worker :: string
  dc_image :: string
  dc_cli :: runner_cli
  dc_workspaceVolume :: string
  dc_workspaceMount :: string
  dc_network :: "string option"
  dc_concurrency :: int
  dc_pollMs :: int
  dc_leaseSeconds :: int
  dc_jobTimeoutMs :: int
  dc_skipPermissions :: bool
  dc_remoteControl :: bool
  dc_idleMs :: int
  dc_authVolume :: string
  dc_passEnv :: "string list"

text \<open>\<open>DEFAULTS\<close>.\<close>

definition default_boardUrl :: string where "default_boardUrl = ''http://127.0.0.1:8080''"
definition default_image :: string where "default_image = ''claude-executor''"
definition default_workspaceVolume :: string where "default_workspaceVolume = ''factory-ai_workspaces''"
definition default_workspaceMount :: string where "default_workspaceMount = ''/workspaces''"
definition default_authVolume :: string where "default_authVolume = ''claude-executor-auth''"
definition default_passEnv :: string where "default_passEnv = ''CLAUDE_CODE_OAUTH_TOKEN,ANTHROPIC_API_KEY''"

definition env_int :: "string option \<Rightarrow> string \<Rightarrow> int \<Rightarrow> int \<Rightarrow> int \<Rightarrow> string + int" where
  "env_int raw label fallback mn mx =
     (case raw of
        None \<Rightarrow> Inr fallback
      | Some s \<Rightarrow>
          if s = [] then Inr fallback
          else (case js_number s of
              Some q \<Rightarrow>
                if \<not> is_integer q \<or> q < of_int mn \<or> of_int mx < q
                then Inl (label @ '' must be an integer '' @ int_str mn @ ''..'' @ int_str mx @ '', got '' @ quoted s)
                else Inr \<lfloor>q\<rfloor>
            | None \<Rightarrow> Inl (label @ '' must be an integer '' @ int_str mn @ ''..'' @ int_str mx @ '', got '' @ quoted s)))"

definition env_flag :: "string option \<Rightarrow> bool" where
  "env_flag raw = (case raw of None \<Rightarrow> False | Some s \<Rightarrow> s \<noteq> [] \<and> s \<noteq> ''0'' \<and> js_lower s \<noteq> ''false'')"

definition env_text :: "string option \<Rightarrow> string \<Rightarrow> string \<Rightarrow> string + string" where
  "env_text raw label fallback =
     (let v = (if env_trim raw \<noteq> [] then env_trim raw else fallback) in
      if v = [] then Inl (label @ '' must not be empty'') else Inr v)"

definition cli_named :: "string \<Rightarrow> runner_cli option" where
  "cli_named s = (if s = ''claude-code'' then Some ClaudeCode
     else if s = ''opencode'' then Some OpenCode else None)"

definition remote_refusal :: string where
  "remote_refusal = ''RUNNER_REMOTE_CONTROL is not supported under RUNNER_CLI=opencode: Remote Control is '' @
     ''claude-code's bridge, and opencode has nothing that answers to it. Only '' @
     ''RUNNER_CLI=claude-code can be driven.''"

definition permissions_refusal :: string where
  "permissions_refusal = ''RUNNER_SKIP_PERMISSIONS is not supported under RUNNER_CLI=opencode: it appends a '' @
     ''claude-code flag, and opencode takes its permissions from the opencode.json '' @
     ''baked into its image.''"

text \<open>The two checks that come before the record is built.\<close>

definition board_url :: "(string \<Rightarrow> string option) \<Rightarrow> env \<Rightarrow> string + string" where
  "board_url url_protocol env =
     and_then (env_text (env ''JOB_BOARD_URL'') ''JOB_BOARD_URL'' default_boardUrl) (\<lambda>raw.
       let u = strip_slashes raw; scheme = url_protocol u in
       if scheme \<noteq> Some ''http:'' \<and> scheme \<noteq> Some ''https:''
       then Inl (''JOB_BOARD_URL must be an http(s) URL, got '' @ quoted u)
       else Inr u)"

definition runner_cli_of :: "env \<Rightarrow> string + runner_cli" where
  "runner_cli_of env =
     (let cliRaw = (if env_trim (env ''RUNNER_CLI'') \<noteq> [] then env_trim (env ''RUNNER_CLI'') else ''claude-code'') in
      case cli_named cliRaw of
        None \<Rightarrow> Inl (''RUNNER_CLI must be one of claude-code, opencode, got '' @ quoted cliRaw)
      | Some cli \<Rightarrow>
          if cli = OpenCode \<and> env_flag (env ''RUNNER_REMOTE_CONTROL'') then Inl remote_refusal
          else if cli = OpenCode \<and> env_flag (env ''RUNNER_SKIP_PERMISSIONS'') then Inl permissions_refusal
          else Inr cli)"

definition pass_env_of :: "string \<Rightarrow> string list" where
  "pass_env_of s = filter (\<lambda>n. n \<noteq> []) (map js_trim (split_on (CHR '','') s))"

definition loadDriverConfig :: "(string \<Rightarrow> string option) \<Rightarrow> nat \<Rightarrow> env \<Rightarrow> string + DriverConfig" where
  "loadDriverConfig url_protocol pid env =
     and_then (board_url url_protocol env) (\<lambda>boardUrl.
     and_then (runner_cli_of env) (\<lambda>cli.
     and_then (env_int (env ''DRIVER_LEASE_SECONDS'') ''DRIVER_LEASE_SECONDS'' 300 10 3600) (\<lambda>leaseSeconds.
     and_then (env_int (env ''DRIVER_JOB_TIMEOUT_MS'') ''DRIVER_JOB_TIMEOUT_MS'' (30 * 60000) 1000 (24 * 3600000)) (\<lambda>jobTimeoutMs.
     and_then (env_text (env ''DRIVER_WORKER'') ''DRIVER_WORKER'' (''driver-'' @ nat_str pid)) (\<lambda>worker.
     and_then (env_text (env ''EXECUTOR_IMAGE'') ''EXECUTOR_IMAGE''
       (if cli = OpenCode then ''opencode-executor'' else default_image)) (\<lambda>image.
     and_then (env_text (env ''WORKSPACE_VOLUME'') ''WORKSPACE_VOLUME'' default_workspaceVolume) (\<lambda>volume.
     and_then (env_text (env ''WORKSPACE_MOUNT'') ''WORKSPACE_MOUNT'' default_workspaceMount) (\<lambda>mount.
     and_then (env_int (env ''DRIVER_CONCURRENCY'') ''DRIVER_CONCURRENCY'' 2 1 32) (\<lambda>concurrency.
     and_then (env_int (env ''DRIVER_POLL_MS'') ''DRIVER_POLL_MS'' 5000 250 300000) (\<lambda>pollMs.
     and_then (env_int (env ''RUNNER_IDLE_MS'') ''RUNNER_IDLE_MS'' (60 * 60000) 1000 (24 * 3600000)) (\<lambda>idleMs.
     and_then (env_text (env ''RUNNER_AUTH_VOLUME'') ''RUNNER_AUTH_VOLUME'' default_authVolume) (\<lambda>authVolume.
     and_then (env_text (env ''RUNNER_ENV'') ''RUNNER_ENV'' default_passEnv) (\<lambda>passEnv.
     Inr \<lparr>dc_boardUrl = boardUrl, dc_boardToken = env_trim (env ''JOB_BOARD_TOKEN''), dc_worker = worker,
       dc_image = image, dc_cli = cli, dc_workspaceVolume = volume, dc_workspaceMount = mount,
       dc_network = (if env_trim (env ''RUNNER_NETWORK'') \<noteq> [] then Some (env_trim (env ''RUNNER_NETWORK'')) else None),
       dc_concurrency = concurrency, dc_pollMs = pollMs, dc_leaseSeconds = leaseSeconds,
       dc_jobTimeoutMs = jobTimeoutMs, dc_skipPermissions = env_flag (env ''RUNNER_SKIP_PERMISSIONS''),
       dc_remoteControl = env_flag (env ''RUNNER_REMOTE_CONTROL''), dc_idleMs = idleMs,
       dc_authVolume = authVolume, dc_passEnv = pass_env_of passEnv\<rparr>)))))))))))))"

section \<open>Facts\<close>

text \<open>What a configuration that loads satisfies.\<close>

definition config_ok :: "DriverConfig \<Rightarrow> bool" where
  "config_ok c \<longleftrightarrow>
     (dc_cli c = OpenCode \<longrightarrow> \<not> dc_remoteControl c \<and> \<not> dc_skipPermissions c) \<and>
     10 \<le> dc_leaseSeconds c \<and> dc_leaseSeconds c \<le> 3600 \<and>
     1000 \<le> dc_jobTimeoutMs c \<and> dc_jobTimeoutMs c \<le> 86400000 \<and>
     1 \<le> dc_concurrency c \<and> dc_concurrency c \<le> 32 \<and>
     250 \<le> dc_pollMs c \<and> dc_pollMs c \<le> 300000 \<and>
     1000 \<le> dc_idleMs c \<and> dc_idleMs c \<le> 86400000 \<and>
     dc_worker c \<noteq> [] \<and> dc_image c \<noteq> [] \<and> dc_workspaceVolume c \<noteq> [] \<and> dc_workspaceMount c \<noteq> [] \<and>
     dc_authVolume c \<noteq> [] \<and> dc_network c \<noteq> Some [] \<and> [] \<notin> set (dc_passEnv c) \<and>
     (\<forall>s. dc_boardUrl c \<noteq> s @ ''/'')"

lemma env_int_range:
  assumes "env_int raw label fb mn mx = Inr n" "mn \<le> fb" "fb \<le> mx"
  shows "mn \<le> n \<and> n \<le> mx"
proof (cases "raw = None \<or> raw = Some []")
  case True
  then show ?thesis using assms by (auto simp: env_int_def)
next
  case False
  then obtain s where s: "raw = Some s" "s \<noteq> []" by auto
  then obtain q where "js_number s = Some q" "\<not> (\<not> is_integer q \<or> q < of_int mn \<or> of_int mx < q)" "n = \<lfloor>q\<rfloor>"
    using assms(1) by (auto simp: env_int_def split: option.splits if_splits)
  then show ?thesis by (simp add: le_floor_iff not_less floor_le_iff)
qed

lemma env_text_nonempty: "env_text raw label fb = Inr v \<Longrightarrow> v \<noteq> []"
  by (auto simp: env_text_def Let_def split: if_splits)

lemma board_url_shape: "board_url up env = Inr u \<Longrightarrow> u \<noteq> s @ ''/'' \<and> up u \<in> {Some ''http:'', Some ''https:''}"
  using strip_slashes_end by (auto simp: board_url_def Let_def split: if_splits)

lemma runner_cli_of_ok:
  "runner_cli_of env = Inr cli \<Longrightarrow> cli = OpenCode \<Longrightarrow>
   \<not> env_flag (env ''RUNNER_REMOTE_CONTROL'') \<and> \<not> env_flag (env ''RUNNER_SKIP_PERMISSIONS'')"
  by (auto simp: runner_cli_of_def Let_def split: option.splits if_splits)

lemma pass_env_nonempty: "[] \<notin> set (pass_env_of s)"
  by (simp add: pass_env_of_def)

lemma loadDriverConfig_ok:
  assumes "loadDriverConfig up pid env = Inr c"
  shows "config_ok c \<and> up (dc_boardUrl c) \<in> {Some ''http:'', Some ''https:''}"
proof -
  from assms obtain u cli ls jt w im vol mt cc pm im2 av pe where
    u: "board_url up env = Inr u" and cli: "runner_cli_of env = Inr cli"
    and ints: "env_int (env ''DRIVER_LEASE_SECONDS'') ''DRIVER_LEASE_SECONDS'' 300 10 3600 = Inr ls"
      "env_int (env ''DRIVER_JOB_TIMEOUT_MS'') ''DRIVER_JOB_TIMEOUT_MS'' (30 * 60000) 1000 (24 * 3600000) = Inr jt"
      "env_int (env ''DRIVER_CONCURRENCY'') ''DRIVER_CONCURRENCY'' 2 1 32 = Inr cc"
      "env_int (env ''DRIVER_POLL_MS'') ''DRIVER_POLL_MS'' 5000 250 300000 = Inr pm"
      "env_int (env ''RUNNER_IDLE_MS'') ''RUNNER_IDLE_MS'' (60 * 60000) 1000 (24 * 3600000) = Inr im2"
    and texts: "w \<noteq> []" "im \<noteq> []" "vol \<noteq> []" "mt \<noteq> []" "av \<noteq> []"
    and c: "c = \<lparr>dc_boardUrl = u, dc_boardToken = env_trim (env ''JOB_BOARD_TOKEN''), dc_worker = w,
       dc_image = im, dc_cli = cli, dc_workspaceVolume = vol, dc_workspaceMount = mt,
       dc_network = (if env_trim (env ''RUNNER_NETWORK'') \<noteq> [] then Some (env_trim (env ''RUNNER_NETWORK'')) else None),
       dc_concurrency = cc, dc_pollMs = pm, dc_leaseSeconds = ls,
       dc_jobTimeoutMs = jt, dc_skipPermissions = env_flag (env ''RUNNER_SKIP_PERMISSIONS''),
       dc_remoteControl = env_flag (env ''RUNNER_REMOTE_CONTROL''), dc_idleMs = im2,
       dc_authVolume = av, dc_passEnv = pass_env_of pe\<rparr>"
    unfolding loadDriverConfig_def and_then_Inr sum.inject
    by (elim exE conjE) (rule that, assumption+, (erule env_text_nonempty)+, erule sym)
  show ?thesis
    unfolding c config_ok_def
    using board_url_shape [OF u] runner_cli_of_ok [OF cli] texts pass_env_nonempty
      env_int_range [OF ints(1)] env_int_range [OF ints(2)] env_int_range [OF ints(3)]
      env_int_range [OF ints(4)] env_int_range [OF ints(5)]
    by auto
qed

end
