(* ===== verification/Fetch.thy ===== *)
theory Fetch
  imports Http
begin

text \<open>
  HTTP requests as the clients of the code make them. \<open>fetch\<close> is the platform's: it takes a request and
  the world it acts on, and gives a response or the message it rejects with. A response carries its
  text and what \<open>response.json()\<close> yields, \<open>None\<close> where that throws.
\<close>

record http_request =
  hq_method :: string
  hq_url :: string
  hq_headers :: "(string \<times> string) list"
  hq_body :: "json option"

record http_response =
  hr_status :: nat
  hr_text :: string
  hr_json :: "json option"

type_synonym 'w fetch = "http_request \<Rightarrow> 'w \<Rightarrow> (string + http_response) \<times> 'w"

definition response_ok :: "http_response \<Rightarrow> bool" where
  "response_ok r \<longleftrightarrow> 200 \<le> hr_status r \<and> hr_status r \<le> 299"

abbreviation json_error :: string where "json_error \<equiv> ''Unexpected token in JSON''"

text \<open>A member that is a text, and a member that is a text or counts as empty.\<close>

definition str_member :: "string \<Rightarrow> (string \<times> json) list \<Rightarrow> string option" where
  "str_member k m = (case member_of k m of Some (JStr s) \<Rightarrow> Some s | _ \<Rightarrow> None)"

definition text_member :: "string \<Rightarrow> (string \<times> json) list \<Rightarrow> string" where
  "text_member k m = (case str_member k m of Some s \<Rightarrow> s | None \<Rightarrow> [])"

section \<open>Percent encoding\<close>

text \<open>The UTF-8 bytes of a string, as \<open>Buffer.from(s)\<close> and \<open>encodeURIComponent\<close> take them.\<close>

definition utf8_char :: "char \<Rightarrow> string" where
  "utf8_char c =
     (let n = (of_char c :: nat) in
      if n < 128 then [c] else [char_of (192 + n div 64), char_of (128 + n mod 64)])"

definition utf8 :: "string \<Rightarrow> string" where
  "utf8 s = concat (map utf8_char s)"

definition uri_plain :: "char \<Rightarrow> bool" where
  "uri_plain c \<longleftrightarrow> is_digit c \<or> is_lower (lower_char c) \<or> c \<in> set ''-_.!~*'' \<or> c \<in> {CHR 0x27, CHR 0x28, CHR 0x29}"

definition hex_digit :: "nat \<Rightarrow> char" where
  "hex_digit n = (if n < 10 then char_of (48 + n) else char_of (55 + n))"

definition percent_byte :: "char \<Rightarrow> string" where
  "percent_byte b = [CHR ''%'', hex_digit ((of_char b :: nat) div 16), hex_digit ((of_char b :: nat) mod 16)]"

definition encodeURIComponent :: "string \<Rightarrow> string" where
  "encodeURIComponent s = concat (map (\<lambda>c. if uri_plain c then [c] else concat (map percent_byte (utf8_char c))) s)"

lemma hex_digit_plain: "n < 16 \<Longrightarrow> uri_plain (hex_digit n)"
proof (cases "n < 10")
  case True
  then show ?thesis by (simp add: hex_digit_def uri_plain_def is_digit_def)
next
  case False
  assume "n < 16"
  then have "is_lower (lower_char (char_of (55 + n)))" using False by (simp add: is_lower_def lower_char_def)
  then show ?thesis using False by (simp add: hex_digit_def uri_plain_def)
qed

text \<open>An encoded component holds no character that has a meaning in a URL.\<close>

lemma encodeURIComponent_plain: "c \<in> set (encodeURIComponent s) \<Longrightarrow> uri_plain c \<or> c = CHR ''%''"
proof -
  have byte: "d \<in> set (percent_byte b) \<Longrightarrow> uri_plain d \<or> d = CHR ''%''" for b d
    using hex_digit_plain [of "(of_char b :: nat) div 16"] hex_digit_plain [of "(of_char b :: nat) mod 16"]
    by (auto simp: percent_byte_def less_mult_imp_div_less)
  show "c \<in> set (encodeURIComponent s) \<Longrightarrow> uri_plain c \<or> c = CHR ''%''"
    using byte by (auto simp: encodeURIComponent_def split: if_splits)
qed

lemma not_uri_plain: "\<not> uri_plain (CHR ''/'')" "\<not> uri_plain (CHR ''?'')" "\<not> uri_plain (CHR ''#'')" "\<not> uri_plain (CHR ''&'')"
  by (simp_all add: uri_plain_def is_digit_def is_lower_def lower_char_def)

end
