(* ===== verification/BoardClient.thy ===== *)
theory BoardClient
  imports Fetch
begin

text \<open>
  The driver's client of the job board, \<open>driver/src/board.ts\<close>, over the platform's \<open>fetch\<close>. Every
  operation is the one POST it makes; \<open>Inl\<close> is the error it throws.

  A member of a claim that the board always sends is read as a text; one of another type, which the
  code does not check for, reads as empty here.
\<close>

record BoardJob =
  bj_id :: string
  bj_command :: string
  bj_attempts :: rat
  bj_leaseToken :: string
  bj_leaseExpiresAt :: string
  bj_resumeSessionId :: "string option"
  bj_userId :: "string option"
  bj_workspacePath :: "string option"

datatype LeaseState = Held | Lost

record board_options =
  bo_url :: string
  bo_leaseSeconds :: int
  bo_token :: "string option"

definition board_request :: "board_options \<Rightarrow> string \<Rightarrow> json \<Rightarrow> http_request" where
  "board_request opts path b =
     \<lparr>hq_method = ''POST'', hq_url = bo_url opts @ path,
      hq_headers = (''content-type'', ''application/json'') #
        (if truthy (bo_token opts) then [(''authorization'', ''Bearer '' @ the (bo_token opts))] else []),
      hq_body = Some b\<rparr>"

definition board_post ::
  "board_options \<Rightarrow> 'w fetch \<Rightarrow> string \<Rightarrow> json \<Rightarrow> 'w \<Rightarrow> (string + http_response) \<times> 'w"
where
  "board_post opts fetch path b w =
     (case fetch (board_request opts path b) w of
        (Inl e, w') \<Rightarrow> (Inl e, w')
      | (Inr r, w') \<Rightarrow>
          if \<not> response_ok r \<and> hr_status r \<noteq> 409
          then (Inl (path @ '' answered '' @ nat_str (hr_status r) @ '': '' @ take 200 (hr_text r)), w')
          else (Inr r, w'))"

definition read_claim :: "json \<Rightarrow> BoardJob" where
  "read_claim j =
     (let m = body (Some j) in
      \<lparr>bj_id = text_member ''id'' m, bj_command = text_member ''command'' m,
       bj_attempts = (case member_of ''attempts'' m of Some (JNum q) \<Rightarrow> q | _ \<Rightarrow> 0),
       bj_leaseToken = text_member ''leaseToken'' m,
       bj_leaseExpiresAt = text_member ''leaseExpiresAt'' m,
       bj_resumeSessionId = str_member ''resumeSessionId'' m,
       bj_userId = str_member ''userId'' m, bj_workspacePath = str_member ''workspacePath'' m\<rparr>)"

definition board_claim ::
  "board_options \<Rightarrow> 'w fetch \<Rightarrow> string \<Rightarrow> 'w \<Rightarrow> (string + BoardJob option) \<times> 'w"
where
  "board_claim opts fetch worker w =
     (case board_post opts fetch ''/api/jobs/claim''
        (JObj [(''worker'', JStr worker), (''leaseSeconds'', JNum (of_int (bo_leaseSeconds opts)))]) w of
        (Inl e, w') \<Rightarrow> (Inl e, w')
      | (Inr r, w') \<Rightarrow>
          if hr_status r = 204 then (Inr None, w')
          else (case hr_json r of
              None \<Rightarrow> (Inl json_error, w')
            | Some j \<Rightarrow> (Inr (Some (read_claim j)), w')))"

definition verdict :: "(string + http_response) \<times> 'w \<Rightarrow> (string + LeaseState) \<times> 'w" where
  "verdict x = (case x of (Inl e, w) \<Rightarrow> (Inl e, w)
     | (Inr r, w) \<Rightarrow> (Inr (if hr_status r = 409 then Lost else Held), w))"

definition job_path :: "BoardJob \<Rightarrow> string \<Rightarrow> string" where
  "job_path job op = ''/api/jobs/'' @ bj_id job @ ''/'' @ op"

definition board_heartbeat :: "board_options \<Rightarrow> 'w fetch \<Rightarrow> BoardJob \<Rightarrow> 'w \<Rightarrow> (string + LeaseState) \<times> 'w" where
  "board_heartbeat opts fetch job w =
     verdict (board_post opts fetch (job_path job ''heartbeat'')
       (JObj [(''leaseToken'', JStr (bj_leaseToken job)),
              (''leaseSeconds'', JNum (of_int (bo_leaseSeconds opts)))]) w)"

definition board_session ::
  "board_options \<Rightarrow> 'w fetch \<Rightarrow> BoardJob \<Rightarrow> string \<Rightarrow> string option \<Rightarrow> 'w \<Rightarrow> (string + LeaseState) \<times> 'w"
where
  "board_session opts fetch job sessionId remote w =
     verdict (board_post opts fetch (job_path job ''session'')
       (JObj [(''leaseToken'', JStr (bj_leaseToken job)), (''sessionId'', JStr sessionId),
              (''remoteSessionId'', json_opt JStr remote)]) w)"

definition board_suspend :: "board_options \<Rightarrow> 'w fetch \<Rightarrow> BoardJob \<Rightarrow> 'w \<Rightarrow> (string + LeaseState) \<times> 'w" where
  "board_suspend opts fetch job w =
     verdict (board_post opts fetch (job_path job ''suspend'')
       (JObj [(''leaseToken'', JStr (bj_leaseToken job))]) w)"

datatype run_status = RunSucceeded | RunFailed

fun run_status_str :: "run_status \<Rightarrow> string" where
  "run_status_str RunSucceeded = ''succeeded''"
| "run_status_str RunFailed = ''failed''"

definition board_complete ::
  "board_options \<Rightarrow> 'w fetch \<Rightarrow> BoardJob \<Rightarrow> run_status \<Rightarrow> int option \<Rightarrow> string \<Rightarrow> 'w
    \<Rightarrow> (string + LeaseState) \<times> 'w"
where
  "board_complete opts fetch job status exitCode out w =
     verdict (board_post opts fetch (job_path job ''complete'')
       (JObj [(''leaseToken'', JStr (bj_leaseToken job)), (''status'', JStr (run_status_str status)),
              (''exitCode'', json_opt (\<lambda>i. JNum (of_int i)) exitCode), (''output'', JStr out)]) w)"

end
