(* ===== verification/Docker.thy ===== *)
theory Docker
  imports DriverConfig BoardClient
begin

text \<open>
  The driver's runner, \<open>driver/src/docker.ts\<close>: the argument lists it hands to \<open>docker\<close>, what it reads
  back, and a run as a state machine over the events of its child process and timers. A thrown error
  is \<open>Inl\<close> of its message. \<open>json_parse\<close> stands for \<open>JSON.parse\<close>, \<open>None\<close> where it throws.
\<close>

record RunOutcome =
  ro_exitCode :: "int option"
  ro_output :: string
  ro_timedOut :: bool
  ro_idled :: bool

record RunSession =
  rs_id :: string
  rs_resume :: bool

section \<open>What may enter a command line\<close>

text \<open>\<open>WORKSPACE_PATH\<close>: an organization of up to 39 characters, a slash and a uuid, in either case.\<close>

definition is_alnum_i :: "char \<Rightarrow> bool" where
  "is_alnum_i c \<longleftrightarrow> is_digit c \<or> is_lower (lower_char c)"

definition org_half :: "string \<Rightarrow> bool" where
  "org_half s \<longleftrightarrow> (case s of [] \<Rightarrow> False
     | c # cs \<Rightarrow> is_alnum_i c \<and> length cs \<le> 38 \<and>
         list_all (\<lambda>d. is_alnum_i d \<or> d = CHR ''_'' \<or> d = CHR ''-'') cs)"

definition is_workspace_path :: "string \<Rightarrow> bool" where
  "is_workspace_path s \<longleftrightarrow>
     (let org = takeWhile (\<lambda>c. c \<noteq> CHR ''/'') s; r = drop (length org) s in
      org_half org \<and> (case r of [] \<Rightarrow> False | _ # u \<Rightarrow> is_uuid u))"

definition containerName :: "BoardJob \<Rightarrow> string" where
  "containerName job = ''factory-job-'' @ bj_id job"

definition remoteSessionArgs :: "BoardJob \<Rightarrow> string \<Rightarrow> string + string list" where
  "remoteSessionArgs job sessionId =
     (if \<not> is_uuid sessionId then Inl (''refusing to read a session id that is not a uuid: '' @ sessionId)
      else Inr [''exec'', containerName job, ''sh'', ''-c'',
        ''cat '' @ quoted ''$CLAUDE_CONFIG_DIR'' @ ''/projects/*/'' @ sessionId @
        ''.jsonl 2>/dev/null | grep bridge-session | tail -1''])"

definition parseRemoteSessionId :: "(string \<Rightarrow> json option) \<Rightarrow> string \<Rightarrow> string option" where
  "parseRemoteSessionId json_parse line =
     (let t = js_trim line in
      if t = [] then None
      else (case json_parse t of
          Some (JObj m) \<Rightarrow>
            (case member_of ''bridgeSessionId'' m of Some (JStr s) \<Rightarrow> if s \<noteq> [] then Some s else None | _ \<Rightarrow> None)
        | _ \<Rightarrow> None))"

abbreviation RUN_OUTPUT_LIMIT :: nat where "RUN_OUTPUT_LIMIT \<equiv> 64 * 1024"
abbreviation AUTH_MOUNT :: string where "AUTH_MOUNT \<equiv> ''/home/node/.claude''"

definition workspacePathOf :: "BoardJob \<Rightarrow> string option" where
  "workspacePathOf job =
     (case bj_workspacePath job of None \<Rightarrow> None | Some p \<Rightarrow> if is_workspace_path p then Some p else None)"

definition workspacePath :: "BoardJob \<Rightarrow> string + string" where
  "workspacePath job =
     (case workspacePathOf job of
        Some p \<Rightarrow> Inr p
      | None \<Rightarrow> Inl (''refusing to run job '' @ bj_id job @ '': the board reported no usable workspace path ('' @
          (case bj_workspacePath job of None \<Rightarrow> ''null'' | Some p \<Rightarrow> p) @ '')''))"

section \<open>The argument list of a run\<close>

definition base_args :: "DriverConfig \<Rightarrow> BoardJob \<Rightarrow> string \<Rightarrow> string list" where
  "base_args config job path =
     [''run'', ''--rm'', ''--name'', containerName job, ''--label'', ''factory.job='' @ bj_id job, ''-e'',
      ''WORKDIR='' @ dc_workspaceMount config @ ''/'' @ path, ''-v'',
      dc_workspaceVolume config @ '':'' @ dc_workspaceMount config]"

definition credential_args :: "DriverConfig \<Rightarrow> string list" where
  "credential_args config =
     (if dc_remoteControl config
      then [''-t'', ''-v'', dc_authVolume config @ '':'' @ AUTH_MOUNT, ''-e'', ''TRUST_WORKDIR=1'']
      else concat (map (\<lambda>name. [''-e'', name]) (dc_passEnv config)))"

definition network_args :: "DriverConfig \<Rightarrow> string list" where
  "network_args config = (if truthy (dc_network config) then [''--network'', the (dc_network config)] else [])"

definition session_args :: "DriverConfig \<Rightarrow> BoardJob \<Rightarrow> RunSession \<Rightarrow> string list" where
  "session_args config job session =
     [dc_image config, if rs_resume session then ''--resume'' else ''--session-id'', rs_id session] @
     (if dc_skipPermissions config then [''--dangerously-skip-permissions''] else []) @
     (if dc_remoteControl config then [''--remote-control'', containerName job]
      else if \<not> rs_resume session then [''-p''] else []) @
     (if \<not> rs_resume session then [bj_command job] else [])"

definition dockerArgs :: "DriverConfig \<Rightarrow> BoardJob \<Rightarrow> RunSession option \<Rightarrow> string + string list" where
  "dockerArgs config job session =
     and_then (workspacePath job) (\<lambda>path.
       let args = base_args config job path @ credential_args config @ network_args config in
       if dc_cli config = OpenCode
       then (if session \<noteq> None
             then Inl (''refusing to run job '' @ bj_id job @ '': the opencode runner cannot adopt a session'')
             else Inr (args @ [dc_image config, ''run'', bj_command job]))
       else (case session of
           None \<Rightarrow> Inl (''refusing to run job '' @ bj_id job @ '': the claude-code runner runs every job as a session'')
         | Some s \<Rightarrow> Inr (args @ session_args config job s)))"

section \<open>A run\<close>

text \<open>
  The state of one run: the clock, when its idle timer and its timeout are due, what it has read,
  whether each timer has fired, how often the container was killed, and how its promise settled
  (\<open>Inl\<close> rejected). Timers are due when the clock reaches them.
\<close>

record run_state =
  rn_now :: int
  rn_idleAt :: "int option"
  rn_timeoutAt :: "int option"
  rn_output :: string
  rn_timedOut :: bool
  rn_idled :: bool
  rn_kills :: nat
  rn_result :: "(string + RunOutcome) option"

datatype run_event = EvTime int | EvChunk string | EvError string | EvClose "int option"

definition run_start :: "DriverConfig \<Rightarrow> int \<Rightarrow> run_state" where
  "run_start config now =
     \<lparr>rn_now = now, rn_idleAt = (if dc_remoteControl config then Some (now + dc_idleMs config) else None),
      rn_timeoutAt = (if dc_remoteControl config then None else Some (now + dc_jobTimeoutMs config)),
      rn_output = [], rn_timedOut = False, rn_idled = False, rn_kills = 0, rn_result = None\<rparr>"

definition fire_idle :: "run_state \<Rightarrow> run_state" where
  "fire_idle s = (case rn_idleAt s of
      Some t \<Rightarrow> if t \<le> rn_now s then s\<lparr>rn_idleAt := None, rn_idled := True, rn_kills := rn_kills s + 1\<rparr> else s
    | None \<Rightarrow> s)"

definition fire_timeout :: "run_state \<Rightarrow> run_state" where
  "fire_timeout s = (case rn_timeoutAt s of
      Some t \<Rightarrow> if t \<le> rn_now s then s\<lparr>rn_timeoutAt := None, rn_timedOut := True, rn_kills := rn_kills s + 1\<rparr> else s
    | None \<Rightarrow> s)"

definition tail_of :: "string \<Rightarrow> string" where
  "tail_of s = (if length s > RUN_OUTPUT_LIMIT then drop (length s - RUN_OUTPUT_LIMIT) s else s)"

definition run_done :: "string + RunOutcome \<Rightarrow> run_state \<Rightarrow> run_state" where
  "run_done r s =
     s\<lparr>rn_idleAt := None, rn_timeoutAt := None,
       rn_result := (case rn_result s of None \<Rightarrow> Some r | Some x \<Rightarrow> Some x)\<rparr>"

fun run_step :: "DriverConfig \<Rightarrow> run_event \<Rightarrow> run_state \<Rightarrow> run_state" where
  "run_step config (EvTime d) s = fire_timeout (fire_idle (s\<lparr>rn_now := rn_now s + d\<rparr>))"
| "run_step config (EvChunk c) s =
     s\<lparr>rn_output := tail_of (rn_output s @ c),
       rn_idleAt := (if dc_remoteControl config then Some (rn_now s + dc_idleMs config) else rn_idleAt s)\<rparr>"
| "run_step config (EvError m) s = run_done (Inl m) s"
| "run_step config (EvClose exitc) s =
     run_done (Inr \<lparr>ro_exitCode = exitc, ro_output = rn_output s, ro_timedOut = rn_timedOut s,
       ro_idled = rn_idled s\<rparr>) s"

definition run_all :: "DriverConfig \<Rightarrow> run_event list \<Rightarrow> run_state \<Rightarrow> run_state" where
  "run_all config es s = fold (run_step config) es s"

end
