(* ===== verification/DriverLoop.thy ===== *)
theory DriverLoop
  imports Docker
begin

text \<open>
  The driver's loop, \<open>driver/src/loop.ts\<close>, as two state machines whose events are the answers its
  awaits get: the attempt of one job (\<open>runJob\<close> with its heartbeat and its watch for the remote
  session, which run concurrently and are interleaved here), and the polling loop (\<open>start\<close>, \<open>stop\<close>).
  A step is \<open>None\<close> when the event cannot happen in that state. Log lines are left out. The calls made
  are recorded in the state's trace, newest first.
\<close>

abbreviation REMOTE_POLL_MS :: int where "REMOTE_POLL_MS \<equiv> 3000"
abbreviation REMOTE_LOOKUPS :: nat where "REMOTE_LOOKUPS \<equiv> 40"

section \<open>The attempt of one job\<close>

datatype job_call =
    CallRun "RunSession option"
  | CallBeat
  | CallKill
  | CallLookup
  | CallSession string "string option"
  | CallSuspend
  | CallComplete run_status "int option" string

text \<open>The heartbeat's period.\<close>

definition beat_every :: "DriverConfig \<Rightarrow> int" where
  "beat_every config = max 1000 ((dc_leaseSeconds config * 1000) div 3)"

definition session_for :: "DriverConfig \<Rightarrow> BoardJob \<Rightarrow> string \<Rightarrow> RunSession option" where
  "session_for config job minted =
     (if dc_cli config = OpenCode then None
      else if truthy (bj_resumeSessionId job)
        then Some \<lparr>rs_id = the (bj_resumeSessionId job), rs_resume = True\<rparr>
      else Some \<lparr>rs_id = minted, rs_resume = False\<rparr>)"

text \<open>
  \<open>AtStart\<close>: about to report a fresh session; \<open>AtRun\<close>: the container runs; \<open>AtSettle\<close>: it has ended and
  the heartbeat and the watch are being waited for; \<open>AtReport\<close>: the report is under way; \<open>AtEnd\<close>.
  The watch is idle, reading the container, reporting what it read, or over.
\<close>

datatype attempt_at = AtStart | AtRun | AtSettle "string + RunOutcome" | AtReport | AtEnd
datatype watch_at = WatchWait nat | WatchRead nat | WatchTell | WatchOver

record attempt =
  at_place :: attempt_at
  at_lost :: bool
  at_beating :: bool
  at_watch :: watch_at
  at_session :: "RunSession option"
  at_trace :: "job_call list"

definition finished :: "attempt \<Rightarrow> bool" where
  "finished a \<longleftrightarrow> (case at_place a of AtStart \<Rightarrow> False | AtRun \<Rightarrow> False | _ \<Rightarrow> True)"

datatype attempt_event =
    EvSessionTold "string + LeaseState"
  | EvBeatSent
  | EvBeatBack "string + LeaseState"
  | EvLookup
  | EvLookedUp "string + string option"
  | EvRemoteTold "string + LeaseState"
  | EvRunEnds "string + RunOutcome"
  | EvSettled
  | EvReported "string + LeaseState"

definition call :: "job_call \<Rightarrow> attempt \<Rightarrow> attempt" where
  "call c a = a\<lparr>at_trace := c # at_trace a\<rparr>"

definition is_fresh :: "RunSession option \<Rightarrow> bool" where
  "is_fresh s = (case s of None \<Rightarrow> False | Some x \<Rightarrow> \<not> rs_resume x)"

definition runJob :: "DriverConfig \<Rightarrow> BoardJob \<Rightarrow> string \<Rightarrow> attempt" where
  "runJob config job minted =
     (let s = session_for config job minted;
          a = \<lparr>at_place = AtStart, at_lost = False, at_beating = False,
               at_watch = (if dc_remoteControl config \<and> s \<noteq> None then WatchWait REMOTE_LOOKUPS else WatchOver),
               at_session = s, at_trace = []\<rparr> in
      if is_fresh s then call (CallSession (rs_id (the s)) None) a
      else call (CallRun s) (a\<lparr>at_place := AtRun\<rparr>))"

definition report_of :: "DriverConfig \<Rightarrow> RunOutcome \<Rightarrow> job_call" where
  "report_of config r =
     (if ro_idled r then CallSuspend
      else CallComplete
        (if ro_exitCode r = Some 0 \<and> \<not> ro_timedOut r then RunSucceeded else RunFailed)
        (ro_exitCode r)
        (if ro_timedOut r
         then ro_output r @ [CHR 0x0A] @ ''[driver] killed after '' @ int_str (dc_jobTimeoutMs config) @ ''ms''
         else ro_output r))"

fun attempt_step :: "DriverConfig \<Rightarrow> attempt_event \<Rightarrow> attempt \<Rightarrow> attempt option" where
  "attempt_step config (EvSessionTold r) a =
     (if at_place a = AtStart then Some (call (CallRun (at_session a)) (a\<lparr>at_place := AtRun\<rparr>)) else None)"
| "attempt_step config EvBeatSent a =
     (if \<not> finished a \<and> \<not> at_lost a \<and> \<not> at_beating a then Some (call CallBeat (a\<lparr>at_beating := True\<rparr>)) else None)"
| "attempt_step config (EvBeatBack r) a =
     (if at_beating a
      then Some (if r = Inr Lost then call CallKill (a\<lparr>at_beating := False, at_lost := True\<rparr>)
                 else a\<lparr>at_beating := False\<rparr>)
      else None)"
| "attempt_step config EvLookup a =
     (case at_watch a of
        WatchWait (Suc n) \<Rightarrow>
          if finished a then None else Some (call CallLookup (a\<lparr>at_watch := WatchRead n\<rparr>))
      | _ \<Rightarrow> None)"
| "attempt_step config (EvLookedUp r) a =
     (case at_watch a of
        WatchRead n \<Rightarrow>
          (case r of
             Inl e \<Rightarrow> Some (a\<lparr>at_watch := WatchOver\<rparr>)
           | Inr remote \<Rightarrow>
               if truthy remote
               then Some (call (CallSession (rs_id (the (at_session a))) remote) (a\<lparr>at_watch := WatchTell\<rparr>))
               else Some (a\<lparr>at_watch := (if n = 0 \<or> at_lost a then WatchOver else WatchWait n)\<rparr>))
      | _ \<Rightarrow> None)"
| "attempt_step config (EvRemoteTold r) a =
     (if at_watch a = WatchTell then Some (a\<lparr>at_watch := WatchOver\<rparr>) else None)"
| "attempt_step config (EvRunEnds r) a =
     (if at_place a = AtRun then Some (a\<lparr>at_place := AtSettle r\<rparr>) else None)"
| "attempt_step config EvSettled a =
     (case at_place a of
        AtSettle r \<Rightarrow>
          if at_beating a \<or> at_watch a = WatchTell \<or> (\<exists>n. at_watch a = WatchRead n) then None
          else (case r of
              Inl e \<Rightarrow> Some (a\<lparr>at_place := AtEnd\<rparr>)
            | Inr outcome \<Rightarrow>
                if at_lost a then Some (a\<lparr>at_place := AtEnd\<rparr>)
                else Some (call (report_of config outcome) (a\<lparr>at_place := AtReport\<rparr>)))
      | _ \<Rightarrow> None)"
| "attempt_step config (EvReported r) a =
     (if at_place a = AtReport then Some (a\<lparr>at_place := AtEnd\<rparr>) else None)"

fun attempt_run :: "DriverConfig \<Rightarrow> attempt_event list \<Rightarrow> attempt \<Rightarrow> attempt option" where
  "attempt_run config [] a = Some a"
| "attempt_run config (e # es) a =
     (case attempt_step config e a of None \<Rightarrow> None | Some b \<Rightarrow> attempt_run config es b)"

section \<open>The polling loop\<close>

datatype triage = NoWorkspace | ForeignSession | RunIt

definition triage_of :: "DriverConfig \<Rightarrow> BoardJob \<Rightarrow> triage" where
  "triage_of config job =
     (if workspacePathOf job = None then NoWorkspace
      else if dc_cli config = OpenCode \<and> truthy (bj_resumeSessionId job) then ForeignSession
      else RunIt)"

definition no_workspace_output :: string where
  "no_workspace_output =
     ''This job has no workspace. It was queued by an account this board cannot resolve a checkout '' @
     ''directory for, or the board has no workspace root configured.''"

definition foreign_session_output :: string where
  "foreign_session_output =
     ''This job was parked with an agent session by a claude-code driver, and this driver runs '' @
     ''opencode, whose runner cannot restore that session. Re-queue the job to run it fresh.''"

datatype loop_call =
    LoopClaim
  | LoopSleep int
  | LoopTrack BoardJob
  | LoopFail BoardJob run_status "int option" string

datatype loop_at = AtPoll | AtClaim | AtSleep | AtFail

record loop_state =
  lp_running :: bool
  lp_at :: loop_at
  lp_active :: "BoardJob list"
  lp_trace :: "loop_call list"

datatype loop_event =
    EvPoll
  | EvClaimed "string + BoardJob option"
  | EvWoke
  | EvFailTold "string + LeaseState"
  | EvJobDone BoardJob
  | EvStop

definition loop_start :: loop_state where
  "loop_start = \<lparr>lp_running = True, lp_at = AtPoll, lp_active = [], lp_trace = []\<rparr>"

definition noted :: "loop_call \<Rightarrow> loop_state \<Rightarrow> loop_state" where
  "noted c s = s\<lparr>lp_trace := c # lp_trace s\<rparr>"

definition take_claimed :: "DriverConfig \<Rightarrow> BoardJob \<Rightarrow> loop_state \<Rightarrow> loop_state" where
  "take_claimed config job s =
     (case triage_of config job of
        NoWorkspace \<Rightarrow> noted (LoopFail job RunFailed None no_workspace_output) (s\<lparr>lp_at := AtFail\<rparr>)
      | ForeignSession \<Rightarrow> noted (LoopFail job RunFailed None foreign_session_output) (s\<lparr>lp_at := AtFail\<rparr>)
      | RunIt \<Rightarrow> noted (LoopTrack job) (s\<lparr>lp_at := AtPoll, lp_active := job # lp_active s\<rparr>))"

text \<open>\<open>EvPoll\<close> is one turn of the \<open>while\<close>; while the slots are full the loop waits for a job to end.\<close>

fun loop_step :: "DriverConfig \<Rightarrow> loop_event \<Rightarrow> loop_state \<Rightarrow> loop_state option" where
  "loop_step config EvPoll s =
     (if lp_running s \<and> lp_at s = AtPoll \<and> int (length (lp_active s)) < dc_concurrency config
      then Some (noted LoopClaim (s\<lparr>lp_at := AtClaim\<rparr>)) else None)"
| "loop_step config (EvClaimed r) s =
     (if lp_at s = AtClaim
      then (case r of
          Inr (Some job) \<Rightarrow> Some (take_claimed config job s)
        | _ \<Rightarrow> Some (noted (LoopSleep (dc_pollMs config)) (s\<lparr>lp_at := AtSleep\<rparr>)))
      else None)"
| "loop_step config EvWoke s = (if lp_at s = AtSleep then Some (s\<lparr>lp_at := AtPoll\<rparr>) else None)"
| "loop_step config (EvFailTold r) s = (if lp_at s = AtFail then Some (s\<lparr>lp_at := AtPoll\<rparr>) else None)"
| "loop_step config (EvJobDone job) s =
     (if job \<in> set (lp_active s) then Some (s\<lparr>lp_active := remove1 job (lp_active s)\<rparr>) else None)"
| "loop_step config EvStop s = Some (s\<lparr>lp_running := False\<rparr>)"

fun loop_run :: "DriverConfig \<Rightarrow> loop_event list \<Rightarrow> loop_state \<Rightarrow> loop_state option" where
  "loop_run config [] s = Some s"
| "loop_run config (e # es) s =
     (case loop_step config e s of None \<Rightarrow> None | Some u \<Rightarrow> loop_run config es u)"

text \<open>\<open>start\<close> resolves once nothing is claimed any more and every job has ended.\<close>

definition drained :: "loop_state \<Rightarrow> bool" where
  "drained s \<longleftrightarrow> \<not> lp_running s \<and> lp_at s = AtPoll \<and> lp_active s = []"

end
