(* ===== verification/DriverFacts.thy ===== *)
theory DriverFacts
  imports DriverLoop
begin

text \<open>
  Lemmas on the driver: what a workspace path can be, the options of an argument list for \<open>docker run\<close>,
  the invariants of a run, of an attempt and of the polling loop.
\<close>

section \<open>Workspace paths\<close>

definition path_char :: "char \<Rightarrow> bool" where
  "path_char c \<longleftrightarrow> is_alnum_i c \<or> c = CHR ''_'' \<or> c = CHR ''-''"

lemma lower_char_digit: "is_digit c \<Longrightarrow> lower_char c = c"
  by (auto simp: is_digit_def lower_char_def)

lemma hex_path_char: "is_hex_i c \<Longrightarrow> path_char c"
  by (auto simp: is_hex_i_def path_char_def is_alnum_i_def is_lower_def)

lemma not_path_char: "\<not> path_char (CHR ''.'')" "\<not> path_char (CHR ''/'')" "\<not> path_char (CHR '' '')"
  by (simp_all add: path_char_def is_alnum_i_def is_digit_def is_lower_def lower_char_def)

lemma workspace_path_shape:
  assumes "is_workspace_path s"
  shows "\<exists>org u. s = org @ ''/'' @ u \<and> org \<noteq> [] \<and> is_uuid u \<and> list_all path_char org \<and> list_all path_char u"
proof -
  define org where "org = takeWhile (\<lambda>c. c \<noteq> CHR ''/'') s"
  have o: "org_half org" and r: "case drop (length org) s of [] \<Rightarrow> False | _ # u \<Rightarrow> is_uuid u"
    using assms by (simp_all add: is_workspace_path_def Let_def org_def)
  have d: "drop (length org) s = dropWhile (\<lambda>c. c \<noteq> CHR ''/'') s"
    unfolding org_def by (metis dropWhile_eq_drop)
  then obtain c u where cu: "drop (length org) s = c # u" "is_uuid u" using r by (auto split: list.splits)
  have "dropWhile (\<lambda>c. c \<noteq> CHR ''/'') s = c # u" using d cu(1) by simp
  then have "c = CHR ''/''" by (simp add: dropWhile_eq_Cons_conv)
  moreover have "s = org @ drop (length org) s"
    unfolding org_def by (metis takeWhile_dropWhile_id dropWhile_eq_drop)
  ultimately have s: "s = org @ ''/'' @ u" using cu(1) by simp
  have "org \<noteq> [] \<and> list_all path_char org"
    using o by (auto simp: org_half_def path_char_def list_all_iff split: list.splits)
  moreover have "list_all path_char u"
    using is_uuid_chars [OF cu(2)] hex_path_char by (auto simp: list_all_iff path_char_def)
  ultimately show ?thesis using s cu(2) by blast
qed

section \<open>The options of a run\<close>

text \<open>
  The options an argument list hands to \<open>docker run\<close> before the image, each with its value, and the command after it.
\<close>

definition run_options :: "DriverConfig \<Rightarrow> string \<Rightarrow> string \<Rightarrow> string list list" where
  "run_options c job_id path =
     [[''--name'', ''factory-job-'' @ job_id], [''--label'', ''factory.job='' @ job_id],
      [''-e'', ''WORKDIR='' @ dc_workspaceMount c @ ''/'' @ path],
      [''-v'', dc_workspaceVolume c @ '':'' @ dc_workspaceMount c]] @
     (if dc_remoteControl c
      then [[''-t''], [''-v'', dc_authVolume c @ '':'' @ AUTH_MOUNT], [''-e'', ''TRUST_WORKDIR=1'']]
      else map (\<lambda>n. [''-e'', n]) (dc_passEnv c)) @
     (if truthy (dc_network c) then [[''--network'', the (dc_network c)]] else [])"

lemma dockerArgs_options:
  assumes "dockerArgs c job session = Inr args" "bj_workspacePath job = Some path"
  shows "is_workspace_path path" "\<exists>cmd. args = [''run'', ''--rm''] @ concat (run_options c (bj_id job) path) @ dc_image c # cmd"
proof -
  show path: "is_workspace_path path"
    using assms by (auto simp: dockerArgs_def workspacePath_def workspacePathOf_def and_then_def split: option.splits if_splits)
  then have w: "workspacePath job = Inr path" using assms(2) by (simp add: workspacePath_def workspacePathOf_def)
  show "\<exists>cmd. args = [''run'', ''--rm''] @ concat (run_options c (bj_id job) path) @ dc_image c # cmd"
    using assms(1) w
    by (auto simp: dockerArgs_def Let_def session_args_def base_args_def credential_args_def network_args_def
        run_options_def containerName_def split: if_splits option.splits)
qed

lemma dockerArgs_path: "dockerArgs c job session = Inr args \<Longrightarrow> \<exists>path. bj_workspacePath job = Some path"
  by (auto simp: dockerArgs_def workspacePath_def workspacePathOf_def and_then_def split: option.splits)

lemma mounts_of_run:
  "{v. [''-v'', v] \<in> set (run_options c i path)} =
     {dc_workspaceVolume c @ '':'' @ dc_workspaceMount c} \<union>
     (if dc_remoteControl c then {dc_authVolume c @ '':'' @ AUTH_MOUNT} else {})"
  by (auto simp: run_options_def)

lemma variables_of_run:
  "{v. [''-e'', v] \<in> set (run_options c i path)} =
     {''WORKDIR='' @ dc_workspaceMount c @ ''/'' @ path} \<union>
     (if dc_remoteControl c then {''TRUST_WORKDIR=1''} else set (dc_passEnv c))"
  by (auto simp: run_options_def)

section \<open>A run\<close>

lemma tail_of_tail: "tail_of (tail_of a @ b) = tail_of (a @ b)"
  by (auto simp: tail_of_def drop_append add.commute)

definition chunks_of :: "run_event list \<Rightarrow> string" where
  "chunks_of es = concat (map (\<lambda>e. case e of EvChunk c \<Rightarrow> c | _ \<Rightarrow> []) es)"

lemma tail_of_idem [simp]: "tail_of (tail_of s) = tail_of s"
  using tail_of_tail [of s "[]"] by simp

lemma fire_keeps [simp]:
  "rn_output (fire_idle s) = rn_output s" "rn_output (fire_timeout s) = rn_output s"
  "rn_result (fire_idle s) = rn_result s" "rn_result (fire_timeout s) = rn_result s"
  "rn_now (fire_idle s) = rn_now s" "rn_now (fire_timeout s) = rn_now s"
  "rn_timedOut (fire_idle s) = rn_timedOut s" "rn_idled (fire_timeout s) = rn_idled s"
  "rn_timeoutAt (fire_idle s) = rn_timeoutAt s" "rn_idleAt (fire_timeout s) = rn_idleAt s"
  by (auto simp: fire_idle_def fire_timeout_def split: option.splits)

lemma run_output:
  "rn_output s = tail_of (rn_output s) \<Longrightarrow> rn_output (run_all c es s) = tail_of (rn_output s @ chunks_of es)"
  unfolding run_all_def
proof (induction es arbitrary: s)
  case Nil
  then show ?case by (simp add: chunks_of_def)
next
  case (Cons e es)
  show ?case
  proof (cases e)
    case (EvChunk x)
    then show ?thesis
      using Cons.IH [of "run_step c e s"] tail_of_tail [of "rn_output s @ x" "chunks_of es"]
      by (simp add: chunks_of_def)
  qed (use Cons.IH [of "run_step c e s"] Cons.prems in \<open>simp_all add: chunks_of_def run_done_def\<close>)
qed

text \<open>
  The invariant of a run that started at \<open>t0\<close>: each timer is armed only in its mode, has fired only
  once it was due, and the promise keeps its first result.
\<close>

definition run_inv :: "DriverConfig \<Rightarrow> int \<Rightarrow> run_state \<Rightarrow> bool" where
  "run_inv c t0 s \<longleftrightarrow>
     (rn_timeoutAt s \<noteq> None \<longrightarrow> \<not> dc_remoteControl c \<and> rn_timeoutAt s = Some (t0 + dc_jobTimeoutMs c)) \<and>
     (rn_timedOut s \<longrightarrow> \<not> dc_remoteControl c \<and> t0 + dc_jobTimeoutMs c \<le> rn_now s) \<and>
     (rn_idleAt s \<noteq> None \<longrightarrow> dc_remoteControl c) \<and> (rn_idled s \<longrightarrow> dc_remoteControl c)"

lemma run_inv_start: "run_inv c t0 (run_start c t0)"
  by (simp add: run_inv_def run_start_def)

lemma run_inv_step:
  assumes "run_inv c t0 s" "\<And>d. e = EvTime d \<Longrightarrow> 0 \<le> d"
  shows "run_inv c t0 (run_step c e s)"
proof (cases e)
  case (EvTime d)
  let ?s = "s\<lparr>rn_now := rn_now s + d\<rparr>"
  have d: "0 \<le> d" using assms(2) EvTime .
  have 1: "run_inv c t0 ?s" using assms(1) d by (auto simp: run_inv_def)
  have 2: "run_inv c t0 (fire_idle ?s)" using 1 by (auto simp: run_inv_def fire_idle_def split: option.splits)
  have "run_inv c t0 (fire_timeout (fire_idle ?s))"
    using 2 unfolding run_inv_def fire_timeout_def by (auto split: option.splits)
  then show ?thesis using EvTime by simp
qed (use assms(1) in \<open>auto simp: run_inv_def run_done_def\<close>)

definition times_ok :: "run_event list \<Rightarrow> bool" where
  "times_ok es \<longleftrightarrow> list_all (\<lambda>e. case e of EvTime d \<Rightarrow> 0 \<le> d | _ \<Rightarrow> True) es"

lemma run_inv_all: "run_inv c t0 s \<Longrightarrow> times_ok es \<Longrightarrow> run_inv c t0 (run_all c es s)"
  unfolding run_all_def times_ok_def
proof (induction es arbitrary: s)
  case (Cons e es)
  have "run_inv c t0 (run_step c e s)" using Cons.prems by (intro run_inv_step) auto
  then show ?case using Cons by simp
qed simp

text \<open>How long a stretch of events takes, and a stretch in which the container writes nothing.\<close>

definition elapsed :: "run_event list \<Rightarrow> int" where
  "elapsed es = sum_list (map (\<lambda>e. case e of EvTime d \<Rightarrow> d | _ \<Rightarrow> 0) es)"

definition silent :: "run_event list \<Rightarrow> bool" where
  "silent es \<longleftrightarrow> list_all (\<lambda>e. case e of EvChunk c \<Rightarrow> False | _ \<Rightarrow> True) es"

lemma elapsed_append [simp]: "elapsed (xs @ ys) = elapsed xs + elapsed ys"
  by (simp add: elapsed_def)

definition idle_inv :: "DriverConfig \<Rightarrow> int \<Rightarrow> run_event list \<Rightarrow> run_state \<Rightarrow> bool" where
  "idle_inv c t0 es s \<longleftrightarrow> rn_now s = t0 + elapsed es \<and>
     (\<forall>t. rn_idleAt s = Some t \<longrightarrow>
        (\<exists>us vs. es = us @ vs \<and> silent vs \<and> t + elapsed vs = rn_now s + dc_idleMs c)) \<and>
     (rn_idled s \<longrightarrow> (\<exists>us vs ws. es = us @ vs @ ws \<and> silent vs \<and> dc_idleMs c \<le> elapsed vs))"

lemma idle_inv_keep:
  assumes "idle_inv c t0 es s" "rn_idleAt s' = rn_idleAt s \<or> rn_idleAt s' = None" "rn_idled s' = rn_idled s"
    "silent [e]" "rn_now s' = rn_now s + elapsed [e]"
  shows "idle_inv c t0 (es @ [e]) s'"
proof -
  have "\<exists>us vs. es @ [e] = us @ vs \<and> silent vs \<and> t + elapsed vs = rn_now s' + dc_idleMs c" if "rn_idleAt s' = Some t" for t
  proof -
    have "rn_idleAt s = Some t" using assms(2) \<open>rn_idleAt s' = Some t\<close> by simp
    then obtain us vs where "es = us @ vs" "silent vs" "t + elapsed vs = rn_now s + dc_idleMs c"
      using assms(1) unfolding idle_inv_def by blast
    then show ?thesis using assms(4,5) by (intro exI [of _ us] exI [of _ "vs @ [e]"]) (simp add: silent_def)
  qed
  moreover have "\<exists>us vs ws. es @ [e] = us @ vs @ ws \<and> silent vs \<and> dc_idleMs c \<le> elapsed vs" if "rn_idled s"
  proof -
    obtain us vs ws where "es = us @ vs @ ws" "silent vs" "dc_idleMs c \<le> elapsed vs"
      using assms(1) \<open>rn_idled s\<close> unfolding idle_inv_def by blast
    then show ?thesis by (intro exI [of _ us] exI [of _ vs] exI [of _ "ws @ [e]"]) simp
  qed
  ultimately show ?thesis using assms(1,3,5) by (simp add: idle_inv_def elapsed_def)
qed

lemma idle_inv_fire:
  assumes "idle_inv c t0 es s"
  shows "idle_inv c t0 es (fire_idle s)"
proof (cases "\<exists>t. rn_idleAt s = Some t \<and> t \<le> rn_now s")
  case True
  then obtain t where t: "rn_idleAt s = Some t" "t \<le> rn_now s" by blast
  then obtain us vs where uv: "es = us @ vs" "silent vs" "t + elapsed vs = rn_now s + dc_idleMs c"
    using assms unfolding idle_inv_def by blast
  then have "es = us @ vs @ [] \<and> silent vs \<and> dc_idleMs c \<le> elapsed vs" using t(2) by simp
  then have "\<exists>us vs ws. es = us @ vs @ ws \<and> silent vs \<and> dc_idleMs c \<le> elapsed vs" by blast
  then show ?thesis using assms t unfolding idle_inv_def by (simp add: fire_idle_def)
next
  case False
  then have "fire_idle s = s" by (auto simp: fire_idle_def split: option.splits)
  then show ?thesis using assms by simp
qed

lemma idle_inv_step:
  assumes "idle_inv c t0 es s" "rn_idleAt s \<noteq> None \<longrightarrow> dc_remoteControl c"
  shows "idle_inv c t0 (es @ [e]) (run_step c e s)"
proof (cases e)
  case (EvTime d)
  have 1: "idle_inv c t0 (es @ [e]) (s\<lparr>rn_now := rn_now s + d\<rparr>)"
    by (rule idle_inv_keep [OF assms(1)]) (simp_all add: EvTime silent_def elapsed_def)
  have "idle_inv c t0 xs (fire_timeout u)" if "idle_inv c t0 xs u" for xs u
    using that unfolding idle_inv_def fire_keeps .
  then show ?thesis using idle_inv_fire [OF 1] EvTime by simp
next
  case (EvChunk x)
  have 1: "idle_inv c t0 (es @ [e]) (s\<lparr>rn_idleAt := None\<rparr>)" if "\<not> dc_remoteControl c"
  proof -
    have "rn_idled s \<longrightarrow> (\<exists>us vs ws. es @ [e] = us @ vs @ ws \<and> silent vs \<and> dc_idleMs c \<le> elapsed vs)"
      using assms(1) unfolding idle_inv_def by (metis append_assoc)
    then show ?thesis using assms(1) EvChunk by (simp add: idle_inv_def elapsed_def)
  qed
  have 2: "\<exists>us vs. es @ [e] = us @ vs \<and> silent vs \<and> elapsed vs = 0"
    by (intro exI [of _ "es @ [e]"] exI [of _ "[]"]) (simp add: silent_def elapsed_def)
  have 3: "rn_idled s \<longrightarrow> (\<exists>us vs ws. es @ [e] = us @ vs @ ws \<and> silent vs \<and> dc_idleMs c \<le> elapsed vs)"
    using assms(1) unfolding idle_inv_def by (metis append_assoc)
  have now: "rn_now s = t0 + elapsed (es @ [e])" using assms(1) EvChunk by (simp add: idle_inv_def elapsed_def)
  show ?thesis
    using 2 3 now assms(2) unfolding EvChunk [symmetric] by (auto simp: idle_inv_def EvChunk)
next
  case (EvError m)
  show ?thesis
    by (rule idle_inv_keep [OF assms(1)]) (simp_all add: EvError silent_def elapsed_def run_done_def)
next
  case (EvClose x)
  show ?thesis
    by (rule idle_inv_keep [OF assms(1)]) (simp_all add: EvClose silent_def elapsed_def run_done_def)
qed

lemma idle_inv_all:
  "idle_inv c t0 pre s \<Longrightarrow> run_inv c t0 s \<Longrightarrow> times_ok es \<Longrightarrow> idle_inv c t0 (pre @ es) (run_all c es s)"
  unfolding run_all_def
proof (induction es arbitrary: pre s)
  case (Cons e es)
  have "run_inv c t0 (run_step c e s)"
    using Cons.prems by (intro run_inv_step) (auto simp: times_ok_def)
  moreover have "idle_inv c t0 (pre @ [e]) (run_step c e s)"
    using Cons.prems(1,2) by (intro idle_inv_step) (simp_all add: run_inv_def)
  moreover have "times_ok es" using Cons.prems(3) by (simp add: times_ok_def)
  ultimately show ?case using Cons.IH [of "pre @ [e]"] by simp
qed simp

lemma idle_inv_start: "idle_inv c t0 [] (run_start c t0)"
  by (simp add: idle_inv_def run_start_def elapsed_def silent_def)

lemma run_result_kept: "rn_result s = Some r \<Longrightarrow> rn_result (run_all c es s) = Some r"
  unfolding run_all_def
proof (induction es arbitrary: s)
  case (Cons e es)
  have "rn_result (run_step c e s) = Some r" using Cons.prems by (cases e) (simp_all add: run_done_def)
  then show ?case using Cons.IH by simp
qed simp

text \<open>What a run that resolved reports is what its state was when its child closed.\<close>

definition outcome_ok :: "DriverConfig \<Rightarrow> run_state \<Rightarrow> bool" where
  "outcome_ok c s \<longleftrightarrow> (\<forall>r. rn_result s = Some (Inr r) \<longrightarrow>
     (ro_timedOut r \<longrightarrow> \<not> dc_remoteControl c) \<and> (ro_idled r \<longrightarrow> dc_remoteControl c) \<and>
     length (ro_output r) \<le> RUN_OUTPUT_LIMIT)"

lemma outcome_ok_step:
  assumes "outcome_ok c s" "run_inv c t0 s" "length (rn_output s) \<le> RUN_OUTPUT_LIMIT"
  shows "outcome_ok c (run_step c e s) \<and> length (rn_output (run_step c e s)) \<le> RUN_OUTPUT_LIMIT"
proof (cases e)
  case (EvClose x)
  then show ?thesis using assms by (auto simp: outcome_ok_def run_inv_def run_done_def split: option.splits)
qed (use assms in \<open>auto simp: outcome_ok_def run_done_def tail_of_def split: option.splits\<close>)

lemma outcome_ok_all:
  "outcome_ok c s \<Longrightarrow> run_inv c t0 s \<Longrightarrow> length (rn_output s) \<le> RUN_OUTPUT_LIMIT \<Longrightarrow> times_ok es \<Longrightarrow>
   outcome_ok c (run_all c es s)"
  unfolding run_all_def
proof (induction es arbitrary: s)
  case (Cons e es)
  have "run_inv c t0 (run_step c e s)"
    using Cons.prems by (intro run_inv_step) (auto simp: times_ok_def)
  moreover have "times_ok es" using Cons.prems(4) by (simp add: times_ok_def)
  ultimately show ?case
    using Cons.IH [of "run_step c e s"] outcome_ok_step [OF Cons.prems(1-3), of e] by simp
qed simp

section \<open>An attempt\<close>

fun is_report :: "job_call \<Rightarrow> bool" where
  "is_report CallSuspend = True"
| "is_report (CallComplete st x out) = True"
| "is_report _ = False"

fun is_run :: "job_call \<Rightarrow> bool" where
  "is_run (CallRun s) = True"
| "is_run _ = False"

fun is_remote_report :: "job_call \<Rightarrow> bool" where
  "is_remote_report (CallSession s r) = (r \<noteq> None)"
| "is_remote_report _ = False"

definition calls :: "(job_call \<Rightarrow> bool) \<Rightarrow> attempt \<Rightarrow> nat" where
  "calls p a = length (filter p (at_trace a))"

fun lookups_left :: "watch_at \<Rightarrow> nat" where
  "lookups_left (WatchWait n) = n"
| "lookups_left (WatchRead n) = n"
| "lookups_left _ = 0"

definition attempt_ok :: "DriverConfig \<Rightarrow> attempt \<Rightarrow> bool" where
  "attempt_ok c a \<longleftrightarrow>
     calls is_report a = (if at_place a = AtReport then 1 else if at_place a = AtEnd then calls is_report a else 0) \<and>
     calls is_report a \<le> 1 \<and>
     (at_lost a \<longrightarrow> calls is_report a = 0 \<and> \<not> at_beating a) \<and>
     (at_place a \<in> {AtReport, AtEnd} \<longrightarrow> \<not> at_beating a \<and> at_watch a \<noteq> WatchTell \<and> (\<forall>n. at_watch a \<noteq> WatchRead n)) \<and>
     calls (\<lambda>x. x = CallKill) a = (if at_lost a then 1 else 0) \<and>
     calls is_run a = (if at_place a = AtStart then 0 else 1) \<and>
     calls (\<lambda>x. x = CallLookup) a + lookups_left (at_watch a) \<le> REMOTE_LOOKUPS \<and>
     (at_watch a \<noteq> WatchOver \<longrightarrow> dc_remoteControl c) \<and>
     calls is_remote_report a \<le> (if at_watch a \<in> {WatchTell, WatchOver} then 1 else 0) \<and>
     (\<not> dc_remoteControl c \<longrightarrow> calls is_remote_report a = 0 \<and> calls (\<lambda>x. x = CallLookup) a = 0)"

lemma calls_call [simp]:
  "calls p (call x a) = (if p x then 1 else 0) + calls p a"
  "calls p (a\<lparr>at_place := pl\<rparr>) = calls p a" "calls p (a\<lparr>at_lost := l\<rparr>) = calls p a"
  "calls p (a\<lparr>at_beating := bt\<rparr>) = calls p a" "calls p (a\<lparr>at_watch := w\<rparr>) = calls p a"
  by (simp_all add: calls_def call_def)

lemma call_fields [simp]:
  "at_place (call x a) = at_place a" "at_lost (call x a) = at_lost a" "at_beating (call x a) = at_beating a"
  "at_watch (call x a) = at_watch a" "at_session (call x a) = at_session a"
  by (simp_all add: call_def)

lemma report_is_report [simp]:
  "is_report (report_of c r)" "\<not> is_run (report_of c r)" "\<not> is_remote_report (report_of c r)"
  "report_of c r \<noteq> CallKill" "report_of c r \<noteq> CallLookup"
  by (simp_all add: report_of_def)

lemma attempt_ok_start: "attempt_ok c (runJob c job minted)"
  by (auto simp: attempt_ok_def runJob_def Let_def call_def calls_def)

lemma attempt_ok_step:
  assumes "attempt_ok c a" "attempt_step c e a = Some a'"
  shows "attempt_ok c a'"
proof (cases e)
  case (EvSessionTold r)
  then have "at_place a = AtStart" "a' = call (CallRun (at_session a)) (a\<lparr>at_place := AtRun\<rparr>)"
    using assms(2) by (simp_all split: if_splits)
  then show ?thesis using assms(1) by (simp add: attempt_ok_def)
next
  case EvBeatSent
  then have "\<not> finished a" "\<not> at_lost a" "a' = call CallBeat (a\<lparr>at_beating := True\<rparr>)"
    using assms(2) by (simp_all split: if_splits)
  then show ?thesis using assms(1) by (cases "at_place a") (simp_all add: attempt_ok_def finished_def)
next
  case (EvBeatBack r)
  then have b: "at_beating a" and a': "a' = (if r = Inr Lost then call CallKill (a\<lparr>at_beating := False, at_lost := True\<rparr>)
      else a\<lparr>at_beating := False\<rparr>)"
    using assms(2) by (simp_all split: if_splits)
  have l: "\<not> at_lost a" using assms(1) b by (simp add: attempt_ok_def)
  have p: "at_place a \<notin> {AtReport, AtEnd}" using assms(1) b by (simp add: attempt_ok_def)
  show ?thesis
  proof (cases "r = Inr Lost")
    case True
    then show ?thesis using assms(1) l p by (simp add: a' attempt_ok_def)
  next
    case False
    then show ?thesis using assms(1) l p by (simp add: a' attempt_ok_def)
  qed
next
  case EvLookup
  then obtain n where n: "at_watch a = WatchWait (Suc n)" "\<not> finished a" "a' = call CallLookup (a\<lparr>at_watch := WatchRead n\<rparr>)"
    using assms(2) by (auto split: if_splits watch_at.splits nat.splits)
  then show ?thesis using assms(1) by (cases "at_place a") (simp_all add: attempt_ok_def finished_def)
next
  case (EvLookedUp r)
  then obtain n where n: "at_watch a = WatchRead n" using assms(2) by (auto split: watch_at.splits)
  have ok: "attempt_ok c (a\<lparr>at_watch := w\<rparr>)" if "w \<in> {WatchOver, WatchWait n}" for w
    using assms(1) n that by (cases "at_place a") (auto simp: attempt_ok_def)
  have tell: "attempt_ok c (call (CallSession x y) (a\<lparr>at_watch := WatchTell\<rparr>))" for x y
    using assms(1) n by (cases "at_place a") (auto simp: attempt_ok_def)
  show ?thesis
    using assms(2) n ok tell EvLookedUp by (cases r) (auto split: if_splits)
next
  case (EvRemoteTold r)
  then have "at_watch a = WatchTell" "a' = a\<lparr>at_watch := WatchOver\<rparr>" using assms(2) by (simp_all split: if_splits)
  then show ?thesis using assms(1) by (cases "at_place a") (simp_all add: attempt_ok_def)
next
  case (EvRunEnds r)
  then have "at_place a = AtRun" "a' = a\<lparr>at_place := AtSettle r\<rparr>" using assms(2) by (simp_all split: if_splits)
  then show ?thesis using assms(1) by (simp add: attempt_ok_def)
next
  case EvSettled
  then obtain r where r: "at_place a = AtSettle r" "\<not> at_beating a" "at_watch a \<noteq> WatchTell" "\<forall>n. at_watch a \<noteq> WatchRead n"
    using assms(2) by (auto split: attempt_at.splits if_splits)
  have none: "calls is_report a = 0" using assms(1) r(1) by (simp add: attempt_ok_def)
  have "attempt_ok c (a\<lparr>at_place := AtEnd\<rparr>)"
    using assms(1) r none by (simp add: attempt_ok_def)
  moreover have "attempt_ok c (call (report_of c x) (a\<lparr>at_place := AtReport\<rparr>))" if "\<not> at_lost a" for x
    using assms(1) r none that by (simp add: attempt_ok_def)
  ultimately show ?thesis
    using assms(2) r EvSettled by (cases r) (auto split: if_splits sum.splits)
next
  case (EvReported r)
  then have "at_place a = AtReport" "a' = a\<lparr>at_place := AtEnd\<rparr>" using assms(2) by (simp_all split: if_splits)
  then show ?thesis using assms(1) by (cases "at_watch a") (auto simp: attempt_ok_def)
qed

lemma attempt_ok_run: "attempt_ok c a \<Longrightarrow> attempt_run c es a = Some a' \<Longrightarrow> attempt_ok c a'"
  by (induction es arbitrary: a) (auto split: option.splits intro: attempt_ok_step)

text \<open>Where the report of an attempt comes from, after the events \<open>es\<close>.\<close>

definition attempt_told :: "DriverConfig \<Rightarrow> attempt_event list \<Rightarrow> attempt \<Rightarrow> bool" where
  "attempt_told c es a \<longleftrightarrow>
     (\<forall>r. at_place a = AtSettle r \<longrightarrow> EvRunEnds r \<in> set es) \<and>
     (at_place a = AtReport \<longrightarrow> calls is_report a \<noteq> 0) \<and>
     (at_place a = AtEnd \<longrightarrow> at_lost a \<or> calls is_report a \<noteq> 0 \<or> (\<exists>m. EvRunEnds (Inl m) \<in> set es)) \<and>
     (\<forall>x \<in> set (at_trace a). is_report x \<longrightarrow> (\<exists>r. EvRunEnds (Inr r) \<in> set es \<and> x = report_of c r))"

lemma attempt_told_start: "attempt_told c [] (runJob c job minted)"
  by (simp add: attempt_told_def runJob_def Let_def call_def)

lemma call_trace [simp]: "at_trace (call x a) = x # at_trace a"
  by (simp add: call_def)

lemma attempt_told_keep:
  assumes "attempt_told c es a" "at_place b = at_place a" "at_lost a \<longrightarrow> at_lost b"
    "at_trace b = at_trace a \<or> (\<exists>x. \<not> is_report x \<and> at_trace b = x # at_trace a)"
  shows "attempt_told c (es @ [e]) b"
proof -
  have "calls is_report b = calls is_report a" using assms(4) by (auto simp: calls_def)
  then show ?thesis using assms unfolding attempt_told_def by (auto 0 4)
qed

lemma attempt_told_step:
  assumes "attempt_told c es a" "attempt_step c e a = Some b"
  shows "attempt_told c (es @ [e]) b"
proof (cases e)
  case (EvSessionTold r)
  then show ?thesis using assms by (auto simp: attempt_told_def split: if_splits)
next
  case (EvRunEnds r)
  then show ?thesis using assms by (auto simp: attempt_told_def split: if_splits)
next
  case EvSettled
  then obtain r where r: "at_place a = AtSettle r" using assms(2) by (auto split: attempt_at.splits)
  have told: "EvRunEnds r \<in> set es" using assms(1) r by (simp add: attempt_told_def)
  show ?thesis
  proof (cases r)
    case (Inl m)
    then have "b = a\<lparr>at_place := AtEnd\<rparr>" using assms(2) r EvSettled by (auto split: if_splits)
    then show ?thesis using assms(1) told Inl by (auto simp: attempt_told_def)
  next
    case (Inr x)
    then have "b = a\<lparr>at_place := AtEnd\<rparr> \<and> at_lost a \<or> b = call (report_of c x) (a\<lparr>at_place := AtReport\<rparr>)"
      using assms(2) r EvSettled by (auto split: if_splits)
    then show ?thesis using assms(1) told Inr by (elim disjE conjE) (auto simp: attempt_told_def)
  qed
next
  case (EvReported r)
  then show ?thesis using assms by (auto simp: attempt_told_def split: if_splits)
qed (rule attempt_told_keep [OF assms(1)];
     use assms(2) in \<open>auto split: if_splits watch_at.splits nat.splits sum.splits\<close>)+

lemma attempt_told_run:
  "attempt_told c es a \<Longrightarrow> attempt_run c fs a = Some b \<Longrightarrow> attempt_told c (es @ fs) b"
proof (induction fs arbitrary: es a)
  case (Cons f fs)
  then obtain d where "attempt_step c f a = Some d" "attempt_run c fs d = Some b" by (auto split: option.splits)
  then show ?case using Cons.IH [OF attempt_told_step [OF Cons.prems(1)]] by simp
qed simp

lemma attempt_trace_grows: "attempt_run c es a = Some b \<Longrightarrow> \<exists>new. at_trace b = new @ at_trace a"
proof (induction es arbitrary: a)
  case (Cons e es)
  then obtain d where d: "attempt_step c e a = Some d" "attempt_run c es d = Some b" by (auto split: option.splits)
  have "\<exists>new. at_trace d = new @ at_trace a"
    using d(1) by (cases e) (auto split: if_splits watch_at.splits nat.splits sum.splits attempt_at.splits)
  then show ?case using Cons.IH [OF d(2)] by auto
qed simp

text \<open>An attempt can always be brought to its end by the answers it waits for.\<close>

lemma attempt_run_append:
  "attempt_run c (es @ fs) a = (case attempt_run c es a of None \<Rightarrow> None | Some b \<Rightarrow> attempt_run c fs b)"
  by (induction es arbitrary: a) (auto split: option.splits)

definition settle_events :: "attempt \<Rightarrow> attempt_event list" where
  "settle_events a =
     (if at_beating a then [EvBeatBack (Inr Held)] else []) @
     (case at_watch a of WatchRead n \<Rightarrow> [EvLookedUp (Inr None)] | WatchTell \<Rightarrow> [EvRemoteTold (Inr Held)] | _ \<Rightarrow> [])"

lemma settle_events_run:
  "\<exists>b. attempt_run c (settle_events a) a = Some b \<and> at_place b = at_place a \<and> at_lost b = at_lost a \<and>
     \<not> at_beating b \<and> at_watch b \<noteq> WatchTell \<and> (\<forall>n. at_watch b \<noteq> WatchRead n)"
  by (cases "at_watch a") (auto simp: settle_events_def truthy_def)

definition end_events :: "RunOutcome \<Rightarrow> attempt \<Rightarrow> attempt_event list" where
  "end_events r a =
     (case at_place a of
        AtStart \<Rightarrow> [EvSessionTold (Inr Held), EvRunEnds (Inr r)] | AtRun \<Rightarrow> [EvRunEnds (Inr r)] | _ \<Rightarrow> []) @
     (case at_place a of AtReport \<Rightarrow> [] | AtEnd \<Rightarrow> [] | _ \<Rightarrow> [EvSettled]) @
     (case at_place a of AtEnd \<Rightarrow> [] | AtSettle (Inl m) \<Rightarrow> []
        | AtReport \<Rightarrow> [EvReported (Inr Held)]
        | _ \<Rightarrow> if at_lost a then [] else [EvReported (Inr Held)])"

lemma end_events_run:
  assumes "\<not> at_beating a" "at_watch a \<noteq> WatchTell" "\<forall>n. at_watch a \<noteq> WatchRead n"
  shows "\<exists>b. attempt_run c (end_events r a) a = Some b \<and> at_place b = AtEnd"
  using assms by (cases "at_place a") (auto simp: end_events_def split: sum.splits)

lemma attempt_can_end:
  "\<exists>fs b. length fs \<le> 6 \<and> attempt_run c fs a = Some b \<and> at_place b = AtEnd"
proof -
  obtain d where d: "attempt_run c (settle_events a) a = Some d" "\<not> at_beating d" "at_watch d \<noteq> WatchTell"
      "\<forall>n. at_watch d \<noteq> WatchRead n"
    using settle_events_run by blast
  obtain r :: RunOutcome where "r = r" by blast
  obtain b where b: "attempt_run c (end_events r d) d = Some b" "at_place b = AtEnd"
    using end_events_run [OF d(2-4)] by blast
  have "length (settle_events a @ end_events r d) \<le> 6"
    by (auto simp: settle_events_def end_events_def split: watch_at.splits attempt_at.splits sum.splits)
  moreover have "attempt_run c (settle_events a @ end_events r d) a = Some b"
    using d(1) b(1) by (simp add: attempt_run_append)
  ultimately show ?thesis using b(2) by blast
qed

section \<open>The polling loop\<close>

definition loop_ok :: "DriverConfig \<Rightarrow> loop_state \<Rightarrow> bool" where
  "loop_ok c s \<longleftrightarrow>
     int (length (lp_active s)) + (if lp_at s = AtClaim then 1 else 0) \<le> dc_concurrency c \<and>
     list_all (\<lambda>j. triage_of c j = RunIt) (lp_active s) \<and>
     (\<forall>j. LoopTrack j \<in> set (lp_trace s) \<longrightarrow> triage_of c j = RunIt)"

lemma noted_fields [simp]:
  "lp_running (noted x s) = lp_running s" "lp_at (noted x s) = lp_at s" "lp_active (noted x s) = lp_active s"
  "lp_trace (noted x s) = x # lp_trace s"
  by (simp_all add: noted_def)

lemma loop_ok_step:
  assumes "loop_ok c s" "loop_step c e s = Some s'"
  shows "loop_ok c s'"
proof (cases e)
  case (EvJobDone j)
  then show ?thesis
    using assms set_remove1_subset [of j "lp_active s"]
    by (auto simp: loop_ok_def length_remove1 list_all_iff split: if_splits)
next
  case (EvClaimed r)
  then show ?thesis
    using assms by (auto simp: loop_ok_def take_claimed_def split: if_splits sum.splits option.splits triage.splits)
qed (use assms in \<open>auto simp: loop_ok_def split: if_splits\<close>)

lemma loop_ok_run: "loop_ok c s \<Longrightarrow> loop_run c es s = Some s' \<Longrightarrow> loop_ok c s'"
  by (induction es arbitrary: s) (auto split: option.splits intro: loop_ok_step)

lemma stopped_claims:
  "loop_run c es s = Some s' \<Longrightarrow> \<not> lp_running s \<Longrightarrow>
   \<not> lp_running s' \<and> count_list (lp_trace s') LoopClaim = count_list (lp_trace s) LoopClaim"
proof (induction es arbitrary: s)
  case (Cons e es)
  then obtain u where u: "loop_step c e s = Some u" "loop_run c es u = Some s'" by (auto split: option.splits)
  have "\<not> lp_running u \<and> count_list (lp_trace u) LoopClaim = count_list (lp_trace s) LoopClaim"
    using u(1) Cons.prems(2)
    by (cases e) (auto simp: take_claimed_def split: if_splits sum.splits option.splits triage.splits)
  then show ?case using Cons.IH [OF u(2)] by simp
qed simp


lemma stop_stops: "loop_run c es s = Some s' \<Longrightarrow> EvStop \<in> set es \<Longrightarrow> \<not> lp_running s'"
proof (induction es arbitrary: s)
  case (Cons e es)
  then obtain u where u: "loop_step c e s = Some u" "loop_run c es u = Some s'" by (auto split: option.splits)
  show ?case
  proof (cases "e = EvStop")
    case True
    then have "\<not> lp_running u" using u(1) by auto
    then show ?thesis using stopped_claims [OF u(2)] by simp
  next
    case False
    then show ?thesis using Cons.IH [OF u(2)] Cons.prems(2) by simp
  qed
qed simp

end
