(* ===== verification/DriverTheorems.thy ===== *)
theory DriverTheorems
  imports DriverFacts
begin

text \<open>
  The properties of the driver: its configuration, the container it starts for a job, a run, the
  attempt of a job and the polling loop.
\<close>

section \<open>A sample driver and job\<close>

definition sample_config :: DriverConfig where
  "sample_config =
     \<lparr>dc_boardUrl = ''http://b'', dc_boardToken = [], dc_worker = ''driver-7'', dc_image = ''claude-executor'',
      dc_cli = ClaudeCode, dc_workspaceVolume = ''factory-ai_workspaces'', dc_workspaceMount = ''/workspaces'',
      dc_network = None, dc_concurrency = 2, dc_pollMs = 5000, dc_leaseSeconds = 300, dc_jobTimeoutMs = 1800000,
      dc_skipPermissions = False, dc_remoteControl = False, dc_idleMs = 3600000,
      dc_authVolume = ''claude-executor-auth'', dc_passEnv = [''CLAUDE_CODE_OAUTH_TOKEN'', ''ANTHROPIC_API_KEY'']\<rparr>"

definition sample_uuid :: string where
  "sample_uuid = ''00000000-0000-4000-8000-00000000000a''"

definition sample_job :: BoardJob where
  "sample_job =
     \<lparr>bj_id = sample_uuid, bj_command = ''fix the build'', bj_attempts = 1, bj_leaseToken = sample_uuid,
      bj_leaseExpiresAt = ''2026-01-01T00:00:00.000Z'', bj_resumeSessionId = None,
      bj_userId = Some sample_uuid, bj_workspacePath = Some (''acme/'' @ sample_uuid)\<rparr>"

definition fresh_session :: RunSession where
  "fresh_session = \<lparr>rs_id = sample_uuid, rs_resume = False\<rparr>"

lemma sample_path: "workspacePathOf sample_job = Some (''acme/'' @ sample_uuid)"
  by code_simp

lemma sample_args:
  "\<exists>args. dockerArgs sample_config sample_job (Some fresh_session) = Inr args"
  by (simp add: dockerArgs_def workspacePath_def sample_path and_then_def sample_config_def)

section \<open>Configuration\<close>

text \<open>
  A configuration that loads is within its bounds: every number in the range its variable names,
  the texts that must not be empty are not, the address of the board has the scheme http or https and no trailing slash,
  and the opencode runner is neither driven remotely nor told to skip permissions.
\<close>

theorem loaded_config_is_consistent:
  assumes "loadDriverConfig url_protocol pid env = Inr c"
  shows "(dc_cli c = OpenCode \<longrightarrow> \<not> dc_remoteControl c \<and> \<not> dc_skipPermissions c) \<and>
     dc_leaseSeconds c \<in> {10..3600} \<and> dc_jobTimeoutMs c \<in> {1000..86400000} \<and> dc_concurrency c \<in> {1..32} \<and>
     dc_pollMs c \<in> {250..300000} \<and> dc_idleMs c \<in> {1000..86400000} \<and>
     [] \<notin> {dc_worker c, dc_image c, dc_workspaceVolume c, dc_workspaceMount c, dc_authVolume c} \<and>
     dc_network c \<noteq> Some [] \<and> [] \<notin> set (dc_passEnv c) \<and>
     (\<forall>s. dc_boardUrl c \<noteq> s @ ''/'') \<and> url_protocol (dc_boardUrl c) \<in> {Some ''http:'', Some ''https:''} \<and>
     beat_every c < dc_leaseSeconds c * 1000"
proof -
  have ok: "config_ok c" "url_protocol (dc_boardUrl c) \<in> {Some ''http:'', Some ''https:''}"
    using loadDriverConfig_ok [OF assms] by auto
  have "beat_every c < dc_leaseSeconds c * 1000"
  proof -
    have "10 \<le> dc_leaseSeconds c" using ok(1) by (simp add: config_ok_def)
    then show ?thesis using int_div_less_self [of "dc_leaseSeconds c * 1000" 3] by (simp add: beat_every_def)
  qed
  then show ?thesis using ok unfolding config_ok_def by auto
qed

lemma sample_config_loads:
  "loadDriverConfig (\<lambda>_. Some ''http:'') 7 [''JOB_BOARD_URL'' \<mapsto> '' http://b//''] = Inr sample_config"
  by code_simp

theorem loaded_config_is_consistent_witness:
  "dc_leaseSeconds sample_config \<in> {10..3600} \<and> beat_every sample_config = 100000"
  using loaded_config_is_consistent [OF sample_config_loads] by (simp add: beat_every_def sample_config_def)

section \<open>What a runner is started with\<close>



text \<open>
  A command is delivered once. A fresh run carries it as its last argument; a run that resumes
  a session starts the same container whatever the command is; the session's id goes to claude-code
  only, and claude-code never runs without one.
\<close>

theorem command_is_delivered_once:
  assumes "dockerArgs c job session = Inr args"
  shows "case session of
      None \<Rightarrow> dc_cli c = OpenCode \<and> (\<exists>pre. args = pre @ [dc_image c, ''run'', bj_command job])
    | Some s \<Rightarrow> dc_cli c = ClaudeCode \<and>
        (\<exists>pre post. args = pre @ [dc_image c, if rs_resume s then ''--resume'' else ''--session-id'', rs_id s] @ post \<and>
           (if rs_resume s then (\<forall>x. dockerArgs c (job\<lparr>bj_command := x\<rparr>) session = Inr args)
            else last args = bj_command job))"
proof -
  obtain path where p: "workspacePathOf job = Some path"
    using assms by (auto simp: dockerArgs_def workspacePath_def split: option.splits)
  then have w: "workspacePath job = Inr path" "workspacePath (job\<lparr>bj_command := x\<rparr>) = Inr path" for x
    by (simp_all add: workspacePath_def workspacePathOf_def)
  show ?thesis
  proof (cases session)
    case None
    then show ?thesis using assms w by (auto simp: dockerArgs_def and_then_def Let_def split: if_splits)
  next
    case (Some s)
    then have cli: "dc_cli c = ClaudeCode"
      and a: "args = base_args c job path @ credential_args c @ network_args c @ session_args c job s"
      using assms w by (auto simp: dockerArgs_def and_then_def Let_def split: if_splits runner_cli.splits intro: runner_cli.exhaust)
    have "dockerArgs c (job\<lparr>bj_command := x\<rparr>) session = Inr args" if "rs_resume s" for x
      using that Some cli a w
      by (simp add: dockerArgs_def and_then_def base_args_def session_args_def containerName_def)
    moreover have "last args = bj_command job" if "\<not> rs_resume s"
      using that by (simp add: a session_args_def)
    moreover have "\<exists>post. args = (base_args c job path @ credential_args c @ network_args c) @
        [dc_image c, if rs_resume s then ''--resume'' else ''--session-id'', rs_id s] @ post"
      by (simp add: a session_args_def)
    ultimately show ?thesis using Some cli by (simp only: option.case if_split) blast
  qed
qed

theorem command_is_delivered_once_witness:
  "\<exists>args. dockerArgs sample_config sample_job (Some fresh_session) = Inr args \<and> last args = ''fix the build''"
  using sample_args command_is_delivered_once [of sample_config sample_job "Some fresh_session"]
  by (fastforce simp: fresh_session_def sample_job_def)


text \<open>
  The lookup of a remote session lets nothing into its shell command but a uuid: the session id
  it accepts has 36 characters, hex digits and dashes, any other id is refused with an error, and
  what the lookup reads back is never the empty text.
\<close>

lemma remote_lookup_is_shell_safe:
  "(case remoteSessionArgs job sid of
      Inl e \<Rightarrow> \<not> is_uuid sid
    | Inr args \<Rightarrow> length sid = 36 \<and> list_all (\<lambda>ch. is_hex_i ch \<or> ch = CHR ''-'') sid \<and>
        (\<exists>pre post. last args = pre @ sid @ post \<and>
           (\<forall>sid'. is_uuid sid' \<longrightarrow> remoteSessionArgs job sid' = Inr (butlast args @ [pre @ sid' @ post])))) \<and>
   parseRemoteSessionId json_parse line \<noteq> Some []"
proof -
  have parse: "parseRemoteSessionId json_parse line \<noteq> Some []"
    by (auto simp: parseRemoteSessionId_def Let_def split: option.splits json.splits if_splits)
  show ?thesis
  proof (cases "is_uuid sid")
    case True
    then have "list_all (\<lambda>ch. is_hex_i ch \<or> ch = CHR ''-'') sid"
      using is_uuid_chars by (auto simp: list_all_iff)
    moreover have "\<exists>pre post. last [''sh'', ''cat '' @ quoted ''$CLAUDE_CONFIG_DIR'' @ ''/projects/*/'' @ sid @
          ''.jsonl 2>/dev/null | grep bridge-session | tail -1''] = pre @ sid @ post \<and>
        (\<forall>sid'. is_uuid sid' \<longrightarrow> remoteSessionArgs job sid' =
            Inr ([''exec'', containerName job, ''sh'', ''-c''] @ [pre @ sid' @ post]))"
      by (intro exI [of _ "''cat '' @ quoted ''$CLAUDE_CONFIG_DIR'' @ ''/projects/*/''"]
          exI [of _ "''.jsonl 2>/dev/null | grep bridge-session | tail -1''"]) (simp add: remoteSessionArgs_def)
    ultimately show ?thesis using True is_uuid_length [OF True] parse by (simp add: remoteSessionArgs_def)
  qed (use parse in \<open>simp add: remoteSessionArgs_def\<close>)
qed

section \<open>A run\<close>

text \<open>
  What a run reports is true of it. Its output is the last 64 KiB of all it wrote before it closed, a
  timeout is reported only of a headless run that reached its limit, a parking only of a driven run
  after a stretch of the idle time in which it wrote nothing, and no later event changes the report.
\<close>

theorem run_report_is_true:
  assumes "times_ok es" "rn_result (run_all c es (run_start c t0)) = None"
    and "run_step c (EvClose x) (run_all c es (run_start c t0)) = s" "rn_result s = Some (Inr r)"
  shows "ro_exitCode r = x \<and> ro_output r = tail_of (chunks_of es) \<and> length (ro_output r) \<le> 65536 \<and>
     (ro_timedOut r \<longrightarrow> \<not> dc_remoteControl c \<and> dc_jobTimeoutMs c \<le> elapsed es) \<and>
     (ro_idled r \<longrightarrow> dc_remoteControl c \<and>
        (\<exists>us vs ws. es = us @ vs @ ws \<and> silent vs \<and> dc_idleMs c \<le> elapsed vs)) \<and>
     rn_result (run_all c fs s) = Some (Inr r)"
proof -
  let ?u = "run_all c es (run_start c t0)"
  have r: "r = \<lparr>ro_exitCode = x, ro_output = rn_output ?u, ro_timedOut = rn_timedOut ?u, ro_idled = rn_idled ?u\<rparr>"
    using assms(2-4) by (auto simp: run_done_def)
  have out: "rn_output ?u = tail_of (chunks_of es)"
    using run_output [of "run_start c t0" c es] by (simp add: run_start_def tail_of_def)
  have inv: "run_inv c t0 ?u" by (rule run_inv_all [OF run_inv_start assms(1)])
  have idle: "idle_inv c t0 es ?u" using idle_inv_all [OF idle_inv_start run_inv_start assms(1)] by simp
  have "length (tail_of (chunks_of es)) \<le> 65536" by (simp add: tail_of_def)
  moreover have "rn_timedOut ?u \<longrightarrow> \<not> dc_remoteControl c \<and> dc_jobTimeoutMs c \<le> elapsed es"
    using inv idle unfolding run_inv_def idle_inv_def by auto
  moreover have "rn_idled ?u \<longrightarrow> dc_remoteControl c \<and>
        (\<exists>us vs ws. es = us @ vs @ ws \<and> silent vs \<and> dc_idleMs c \<le> elapsed vs)"
    using inv idle unfolding run_inv_def idle_inv_def by blast
  ultimately show ?thesis using run_result_kept [OF assms(4)] out by (simp add: r)
qed

theorem run_report_is_true_witness:
  "length (''hello'' :: string) \<le> 65536 \<and>
   ro_timedOut \<lparr>ro_exitCode = Some 137, ro_output = ''hello'', ro_timedOut = True, ro_idled = False\<rparr>"
proof -
  let ?c = "sample_config" and ?es = "[EvChunk ''hello'', EvTime 1800000]"
  let ?r = "\<lparr>ro_exitCode = Some 137, ro_output = ''hello'', ro_timedOut = True, ro_idled = False\<rparr>"
  have u: "run_all ?c ?es (run_start ?c 0) =
      \<lparr>rn_now = 1800000, rn_idleAt = None, rn_timeoutAt = None, rn_output = ''hello'', rn_timedOut = True,
       rn_idled = False, rn_kills = 1, rn_result = None\<rparr>"
    by (simp add: run_all_def run_start_def sample_config_def fire_idle_def fire_timeout_def tail_of_def)
  have "rn_result (run_step ?c (EvClose (Some 137)) (run_all ?c ?es (run_start ?c 0))) = Some (Inr ?r)"
    unfolding u by (simp add: run_done_def)
  moreover have "times_ok ?es" by (simp add: times_ok_def)
  moreover have "rn_result (run_all ?c ?es (run_start ?c 0)) = None" unfolding u by simp
  ultimately show ?thesis using run_report_is_true [of ?es ?c 0 "Some 137" _ ?r "[]"] by simp
qed


section \<open>An attempt\<close>

text \<open>
  C17: However the answers of an attempt arrive, it starts at most one container; the loop itself asks docker to kill
  it once if it learns that the lease was lost and never otherwise (the timeout and the idle timer of the runner, which
  are in its run, kill besides; a lease lost before the container exists leaves the request without effect, which is
  \<open>lost_before_start_runs_unkilled\<close>). It reports at most once and never after it learnt of the loss, and what it reports
  is the outcome its run had; it ends without a report only if the lease was lost or the container
  could not be run; it looks for the remote session at most 40 times, and only when driven remotely.
\<close>

theorem attempt_reports_its_run_once:
  assumes "attempt_run c es (runJob c job minted) = Some a"
  shows "calls is_run a \<le> 1 \<and> calls is_report a \<le> 1 \<and>
     calls (\<lambda>x. x = CallKill) a = (if at_lost a then 1 else 0) \<and>
     (at_lost a \<longrightarrow> calls is_report a = 0) \<and>
     (\<forall>x \<in> set (at_trace a). is_report x \<longrightarrow> (\<exists>r. EvRunEnds (Inr r) \<in> set es \<and> x = report_of c r)) \<and>
     (at_place a = AtEnd \<longrightarrow>
        at_lost a \<or> calls is_report a = 1 \<or> (\<exists>m. EvRunEnds (Inl m) \<in> set es)) \<and>
     calls (\<lambda>x. x = CallLookup) a \<le> 40 \<and> calls is_remote_report a \<le> 1 \<and>
     (\<not> dc_remoteControl c \<longrightarrow> calls (\<lambda>x. x = CallLookup) a = 0)"
proof -
  have ok: "attempt_ok c a" by (rule attempt_ok_run [OF attempt_ok_start assms])
  have told: "attempt_told c es a" using attempt_told_run [OF attempt_told_start assms] by simp
  have 1: "calls is_run a \<le> 1 \<and> calls is_report a \<le> 1 \<and>
      calls (\<lambda>x. x = CallKill) a = (if at_lost a then 1 else 0) \<and> (at_lost a \<longrightarrow> calls is_report a = 0) \<and>
      calls (\<lambda>x. x = CallLookup) a \<le> 40 \<and> calls is_remote_report a \<le> 1 \<and>
      (\<not> dc_remoteControl c \<longrightarrow> calls (\<lambda>x. x = CallLookup) a = 0)"
    using ok unfolding attempt_ok_def by (auto split: if_splits)
  have 2: "at_place a = AtEnd \<longrightarrow> at_lost a \<or> calls is_report a = 1 \<or> (\<exists>m. EvRunEnds (Inl m) \<in> set es)"
    using told 1 unfolding attempt_told_def by (metis One_nat_def le_Suc_eq le_zero_eq)
  show ?thesis using 1 2 told unfolding attempt_told_def by blast
qed

definition good_run :: RunOutcome where
  "good_run = \<lparr>ro_exitCode = Some 0, ro_output = ''done'', ro_timedOut = False, ro_idled = False\<rparr>"

definition sample_end :: attempt where
  "sample_end =
     \<lparr>at_place = AtEnd, at_lost = False, at_beating = False, at_watch = WatchOver,
      at_session = Some fresh_session,
      at_trace = [CallComplete RunSucceeded (Some 0) ''done'', CallBeat, CallRun (Some fresh_session),
        CallSession sample_uuid None]\<rparr>"

lemma sample_attempt:
  "attempt_run sample_config
     [EvSessionTold (Inr Held), EvBeatSent, EvBeatBack (Inl ''fetch failed''), EvRunEnds (Inr good_run), EvSettled,
      EvReported (Inr Held)]
     (runJob sample_config sample_job sample_uuid) =
   Some sample_end"
  by (simp add: runJob_def session_for_def sample_config_def sample_job_def truthy_def is_fresh_def call_def
      finished_def report_of_def good_run_def fresh_session_def sample_end_def)

theorem attempt_reports_its_run_once_witness:
  "at_place sample_end = AtEnd \<and> calls is_run sample_end \<le> 1 \<and> calls is_report sample_end \<le> 1 \<and>
   CallComplete RunSucceeded (Some 0) ''done'' = report_of sample_config good_run"
  using attempt_reports_its_run_once [OF sample_attempt] by (auto simp: sample_end_def)

text \<open>
  An attempt is never stuck: in whatever state it is, at most six answers to the calls it waits for bring
  it to its end.
\<close>

theorem attempt_reaches_its_end:
  assumes "attempt_run c es (runJob c job minted) = Some a"
  shows "\<exists>fs b. length fs \<le> 6 \<and> attempt_run c (es @ fs) (runJob c job minted) = Some b \<and> at_place b = AtEnd"
proof -
  obtain fs b where "length fs \<le> 6" "attempt_run c fs a = Some b" "at_place b = AtEnd"
    using attempt_can_end by blast
  then show ?thesis using assms by (intro exI [of _ fs] exI [of _ b]) (simp add: attempt_run_append)
qed

theorem attempt_reaches_its_end_witness:
  "\<exists>b. attempt_run sample_config [] (runJob sample_config sample_job sample_uuid) = Some b \<and>
     (\<exists>fs b'. length fs \<le> 6 \<and>
        attempt_run sample_config ([] @ fs) (runJob sample_config sample_job sample_uuid) = Some b' \<and>
        at_place b' = AtEnd)"
  by (rule exI, rule conjI, rule attempt_run.simps(1),
      rule attempt_reaches_its_end [of sample_config "[]" sample_job sample_uuid], rule attempt_run.simps(1))

text \<open>
  A lease lost while a fresh session is still being reported does not stop the run: the kill comes before the
  container exists, the container is started all the same, and no later event ever kills it.
\<close>

theorem lost_before_start_runs_unkilled:
  assumes "dc_cli c = ClaudeCode" "\<not> truthy (bj_resumeSessionId job)"
  shows "\<exists>a s. attempt_run c [EvBeatSent, EvBeatBack (Inr Lost), EvSessionTold (Inr Lost)] (runJob c job minted) = Some a \<and>
     rev (at_trace a) = [CallSession minted None, CallBeat, CallKill, CallRun (Some s)] \<and> at_place a = AtRun \<and>
     (\<forall>fs b. attempt_run c fs a = Some b \<longrightarrow>
        filter (\<lambda>x. x = CallKill \<or> is_run x) (rev (at_trace b)) = [CallKill, CallRun (Some s)])"
proof -
  let ?s = "\<lparr>rs_id = minted, rs_resume = False\<rparr>"
  let ?w = "if dc_remoteControl c then WatchWait REMOTE_LOOKUPS else WatchOver"
  define a where "a = \<lparr>at_place = AtRun, at_lost = True, at_beating = False, at_watch = ?w, at_session = Some ?s,
     at_trace = [CallRun (Some ?s), CallKill, CallBeat, CallSession minted None]\<rparr>"
  have a: "attempt_run c [EvBeatSent, EvBeatBack (Inr Lost), EvSessionTold (Inr Lost)] (runJob c job minted) = Some a"
    using assms by (simp add: runJob_def session_for_def is_fresh_def call_def finished_def a_def)
  have more: "filter p (rev (at_trace b)) = filter p (rev (at_trace a))"
    if b: "attempt_run c fs a = Some b" and p: "p = (\<lambda>x. x = CallKill \<or> is_run x)" for fs b p
  proof -
    have ok: "attempt_ok c b" by (rule attempt_ok_run [OF attempt_ok_run [OF attempt_ok_start a] b])
    obtain new where new: "at_trace b = new @ at_trace a"
      using attempt_trace_grows [OF b] by blast
    have "calls (\<lambda>x. x = CallKill) b \<le> 1" "calls is_run b \<le> 1"
      using ok unfolding attempt_ok_def by (auto split: if_splits)
    then have "filter (\<lambda>x. x = CallKill) new = []" "filter is_run new = []"
      by (auto simp: calls_def new a_def)
    then have "filter p new = []" by (auto simp: p filter_empty_conv)
    then have "filter p (rev new) = []" by (auto simp: filter_empty_conv)
    then show ?thesis by (simp add: new)
  qed
  show ?thesis
    by (rule exI [of _ a], rule exI [of _ ?s]) (use a more in \<open>auto simp: a_def\<close>)
qed

theorem lost_before_start_runs_unkilled_witness:
  "\<exists>a. attempt_run sample_config [EvBeatSent, EvBeatBack (Inr Lost), EvSessionTold (Inr Lost)]
     (runJob sample_config sample_job sample_uuid) = Some a \<and> at_place a = AtRun"
proof -
  have "dc_cli sample_config = ClaudeCode" "\<not> truthy (bj_resumeSessionId sample_job)"
    by (simp_all add: sample_config_def sample_job_def truthy_def)
  from lost_before_start_runs_unkilled [OF this, of sample_uuid] show ?thesis by blast
qed

section \<open>The polling loop\<close>

text \<open>
  C18: However its events arrive, the polling loop runs at most its concurrency of jobs, counting the one it is
  claiming, runs only jobs that have a workspace and whose session its runner can restore, and after it was told to stop claims no
  further job.
\<close>

theorem loop_keeps_its_bounds:
  assumes "loop_run c es loop_start = Some s" "0 < dc_concurrency c"
  shows "int (length (lp_active s)) + (if lp_at s = AtClaim then 1 else 0) \<le> dc_concurrency c \<and>
     (\<forall>j. LoopTrack j \<in> set (lp_trace s) \<longrightarrow>
        (\<exists>p. bj_workspacePath j = Some p \<and> is_workspace_path p) \<and>
        (dc_cli c = OpenCode \<longrightarrow> \<not> truthy (bj_resumeSessionId j))) \<and>
     (EvStop \<in> set es \<longrightarrow> (\<forall>fs u. loop_run c fs s = Some u \<longrightarrow>
        count_list (lp_trace u) LoopClaim = count_list (lp_trace s) LoopClaim))"
proof -
  have ok: "loop_ok c s"
    by (rule loop_ok_run [OF _ assms(1)]) (use assms(2) in \<open>simp add: loop_ok_def loop_start_def\<close>)
  have ws: "\<exists>p. bj_workspacePath j = Some p \<and> is_workspace_path p" "dc_cli c = OpenCode \<Longrightarrow> \<not> truthy (bj_resumeSessionId j)"
    if "triage_of c j = RunIt" for j
    using that by (auto simp: triage_of_def workspacePathOf_def split: if_splits option.splits)
  have "count_list (lp_trace u) LoopClaim = count_list (lp_trace s) LoopClaim"
    if "EvStop \<in> set es" "loop_run c fs s = Some u" for fs u
    using stopped_claims [OF that(2) stop_stops [OF assms(1) that(1)]] by simp
  then show ?thesis using ok ws unfolding loop_ok_def by blast
qed

theorem loop_keeps_its_bounds_witness:
  "\<exists>s. loop_run sample_config [EvPoll, EvClaimed (Inr (Some sample_job)), EvStop] loop_start = Some s \<and>
     lp_active s = [sample_job] \<and> int (length (lp_active s)) \<le> 2"
proof -
  have "triage_of sample_config sample_job = RunIt"
    using sample_path by (simp add: triage_of_def sample_config_def)
  then have run: "loop_run sample_config [EvPoll, EvClaimed (Inr (Some sample_job)), EvStop] loop_start =
      Some \<lparr>lp_running = False, lp_at = AtPoll, lp_active = [sample_job],
            lp_trace = [LoopTrack sample_job, LoopClaim]\<rparr>"
    by (simp add: loop_start_def noted_def take_claimed_def) (simp add: sample_config_def)
  show ?thesis using loop_keeps_its_bounds [OF run] run by (simp add: sample_config_def)
qed

end
