(* ===== verification/AuthStore.thy ===== *)
theory AuthStore
  imports JobStore
begin

text \<open>
  Accounts, memberships, sessions and worker tokens, \<open>server/src/auth/store.ts\<close>. Each statement is one atomic
  step on the database; a method with several statements runs them in order, each committed on its own,
  so that a refused one leaves the effect of those before it. The database supplies \<open>now()\<close> (in
  microseconds) and \<open>gen_random_uuid()\<close>, which are arguments. A refused statement is \<open>Inl\<close> of its message.
\<close>

section \<open>Tables\<close>

datatype Role = RAdmin | RMember

record user_row =
  us_id :: uuid
  us_github_user_id :: int
  us_github_login :: string
  us_display_name :: "string option"
  us_avatar_url :: "string option"
  us_last_login_at :: "int option"

record member_row =
  mb_org_id :: string
  mb_github_login :: string
  mb_user_id :: "uuid option"
  mb_role :: Role
  mb_claimed_at :: "int option"

record session_row =
  ss_token_hash :: string
  ss_user_id :: uuid
  ss_expires_at :: int

record worker_row =
  wk_org_id :: string
  wk_id :: uuid
  wk_token_hash :: string
  wk_name :: string
  wk_created_at :: int
  wk_last_used_at :: "int option"
  wk_revoked_at :: "int option"

record auth_db =
  db_orgs :: "string list"
  db_users :: "user_row list"
  db_members :: "member_row list"
  db_sessions :: "session_row list"
  db_workers :: "worker_row list"

record GitHubIdentity =
  gi_githubUserId :: rat
  gi_login :: string
  gi_displayName :: "string option"
  gi_avatarUrl :: "string option"

record AuthUser =
  ur_id :: uuid
  ur_githubUserId :: int
  ur_login :: string
  ur_displayName :: "string option"

record Caller =
  cr_user :: AuthUser
  cr_role :: Role

record WorkerIdentity =
  wi_orgId :: string
  wi_id :: uuid
  wi_name :: string

definition toCaller :: "user_row \<Rightarrow> member_row \<Rightarrow> Caller" where
  "toCaller u m =
     \<lparr>cr_user = \<lparr>ur_id = us_id u, ur_githubUserId = us_github_user_id u, ur_login = us_github_login u,
        ur_displayName = us_display_name u\<rparr>, cr_role = mb_role m\<rparr>"

abbreviation bigint_error :: string where "bigint_error \<equiv> ''invalid input syntax for type bigint''"
abbreviation org_fk_error :: string where
  "org_fk_error \<equiv> ''insert or update on table violates foreign key constraint to organization''"
abbreviation user_fk_error :: string where
  "user_fk_error \<equiv> ''insert or update on table session violates foreign key constraint session_user_fk''"
abbreviation unique_error :: string where
  "unique_error \<equiv> ''duplicate key value violates unique constraint''"

definition pg_int8 :: "rat \<Rightarrow> bool" where
  "pg_int8 q \<longleftrightarrow> is_integer q \<and> -9223372036854775808 \<le> q \<and> q \<le> 9223372036854775807"

section \<open>Sign-in\<close>

definition is_user :: "uuid \<Rightarrow> user_row \<Rightarrow> bool" where
  "is_user i u \<longleftrightarrow> us_id u = i"

definition in_org :: "string \<Rightarrow> uuid \<Rightarrow> member_row \<Rightarrow> bool" where
  "in_org org i m \<longleftrightarrow> mb_org_id m = org \<and> mb_user_id m = Some i"

definition memberOf :: "uuid \<Rightarrow> string \<Rightarrow> auth_db \<Rightarrow> Caller option" where
  "memberOf i org db =
     (case sql_first (in_org org i) (db_members db) of
        None \<Rightarrow> None
      | Some m \<Rightarrow> map_option (\<lambda>u. toCaller u m) (sql_first (is_user i) (db_users db)))"

text \<open>The upsert of the account, keyed on GitHub's numeric id; its result is the account's id.\<close>

definition user_of_identity :: "uuid \<Rightarrow> int \<Rightarrow> GitHubIdentity \<Rightarrow> user_row" where
  "user_of_identity fresh now g =
     \<lparr>us_id = fresh, us_github_user_id = \<lfloor>gi_githubUserId g\<rfloor>, us_github_login = js_lower (gi_login g),
      us_display_name = gi_displayName g, us_avatar_url = gi_avatarUrl g, us_last_login_at = Some now\<rparr>"

definition relabel :: "int \<Rightarrow> GitHubIdentity \<Rightarrow> user_row \<Rightarrow> user_row" where
  "relabel now g u =
     u\<lparr>us_github_login := js_lower (gi_login g), us_display_name := gi_displayName g,
       us_avatar_url := gi_avatarUrl g, us_last_login_at := Some now\<rparr>"

definition has_github_id :: "int \<Rightarrow> user_row \<Rightarrow> bool" where
  "has_github_id n u \<longleftrightarrow> us_github_user_id u = n"

definition upsert_user :: "uuid \<Rightarrow> int \<Rightarrow> GitHubIdentity \<Rightarrow> auth_db \<Rightarrow> (string + uuid) \<times> auth_db" where
  "upsert_user fresh now g db =
     (let n = \<lfloor>gi_githubUserId g\<rfloor> in
      if \<not> pg_text (gi_login g) \<or> \<not> opt_ok pg_text (gi_displayName g) \<or> \<not> opt_ok pg_text (gi_avatarUrl g)
      then (Inl text_error, db)
      else if \<not> pg_int8 (gi_githubUserId g) then (Inl bigint_error, db)
      else (case sql_first (has_github_id n) (db_users db) of
          Some u \<Rightarrow> (Inr (us_id u), db\<lparr>db_users := sql_update (has_github_id n) (relabel now g) (db_users db)\<rparr>)
        | None \<Rightarrow> (Inr fresh, db\<lparr>db_users := user_of_identity fresh now g # db_users db\<rparr>)))"

text \<open>The claim of the invites waiting for a login.\<close>

definition claimable_invite :: "uuid \<Rightarrow> string \<Rightarrow> member_row list \<Rightarrow> member_row \<Rightarrow> bool" where
  "claimable_invite i login ms m \<longleftrightarrow>
     mb_github_login m = login \<and> mb_user_id m = None \<and> \<not> sql_exists (in_org (mb_org_id m) i) ms"

definition claim_member :: "uuid \<Rightarrow> int \<Rightarrow> member_row \<Rightarrow> member_row" where
  "claim_member i now m = m\<lparr>mb_user_id := Some i, mb_claimed_at := Some now\<rparr>"

definition claim_invites :: "uuid \<Rightarrow> string \<Rightarrow> int \<Rightarrow> auth_db \<Rightarrow> auth_db" where
  "claim_invites i login now db =
     db\<lparr>db_members := sql_update (claimable_invite i login (db_members db)) (claim_member i now) (db_members db)\<rparr>"

text \<open>The membership of a self-admitted account.\<close>

definition member_key :: "string \<Rightarrow> string \<Rightarrow> member_row \<Rightarrow> bool" where
  "member_key org login m \<longleftrightarrow> mb_org_id m = org \<and> mb_github_login m = login"

definition auto_join :: "uuid \<Rightarrow> string \<Rightarrow> string \<Rightarrow> int \<Rightarrow> auth_db \<Rightarrow> (string + unit) \<times> auth_db" where
  "auto_join i org login now db =
     (if sql_exists (member_key org login) (db_members db) then (Inr (), db)
      else if sql_exists (in_org org i) (db_members db) then (Inl unique_error, db)
      else if org \<notin> set (db_orgs db) then (Inl org_fk_error, db)
      else (Inr (), db\<lparr>db_members :=
        \<lparr>mb_org_id = org, mb_github_login = login, mb_user_id = Some i, mb_role = RMember, mb_claimed_at = Some now\<rparr>
          # db_members db\<rparr>))"

definition signIn ::
  "uuid \<Rightarrow> int \<Rightarrow> GitHubIdentity \<Rightarrow> string \<Rightarrow> bool \<Rightarrow> auth_db \<Rightarrow> (string + Caller option) \<times> auth_db"
where
  "signIn fresh now g org autoJoin db =
     (case upsert_user fresh now g db of
        (Inl e, db1) \<Rightarrow> (Inl e, db1)
      | (Inr i, db1) \<Rightarrow>
          (let login = js_lower (gi_login g); db2 = claim_invites i login now db1 in
           if memberOf i org db2 \<noteq> None \<or> \<not> autoJoin then (Inr (memberOf i org db2), db2)
           else (case auto_join i org login now db2 of
               (Inl e, db3) \<Rightarrow> (Inl e, db3)
             | (Inr u, db3) \<Rightarrow> (Inr (memberOf i org db3), db3))))"

section \<open>Sessions\<close>

definition createSession :: "string \<Rightarrow> uuid \<Rightarrow> int \<Rightarrow> auth_db \<Rightarrow> (string + unit) \<times> auth_db" where
  "createSession tokenHash i expiresAt db =
     (if sql_exists (\<lambda>s. ss_token_hash s = tokenHash) (db_sessions db) then (Inl unique_error, db)
      else if \<not> sql_exists (is_user i) (db_users db) then (Inl user_fk_error, db)
      else (Inr (), db\<lparr>db_sessions :=
        \<lparr>ss_token_hash = tokenHash, ss_user_id = i, ss_expires_at = expiresAt\<rparr> # db_sessions db\<rparr>))"

definition live_session :: "string \<Rightarrow> int \<Rightarrow> session_row \<Rightarrow> bool" where
  "live_session tokenHash now s \<longleftrightarrow> ss_token_hash s = tokenHash \<and> now < ss_expires_at s"

definition findSession :: "string \<Rightarrow> string \<Rightarrow> int \<Rightarrow> auth_db \<Rightarrow> Caller option" where
  "findSession tokenHash org now db =
     (case sql_first (live_session tokenHash now) (db_sessions db) of
        None \<Rightarrow> None | Some s \<Rightarrow> memberOf (ss_user_id s) org db)"

definition deleteSession :: "string \<Rightarrow> auth_db \<Rightarrow> auth_db" where
  "deleteSession tokenHash db = db\<lparr>db_sessions := sql_delete (\<lambda>s. ss_token_hash s = tokenHash) (db_sessions db)\<rparr>"

definition localCaller :: "string \<Rightarrow> auth_db \<Rightarrow> Caller option" where
  "localCaller org db =
     (case sql_first (has_github_id 0) (db_users db) of None \<Rightarrow> None | Some u \<Rightarrow> memberOf (us_id u) org db)"

section \<open>Worker tokens\<close>

definition live_worker :: "string \<Rightarrow> worker_row \<Rightarrow> bool" where
  "live_worker tokenHash w \<longleftrightarrow> wk_token_hash w = tokenHash \<and> wk_revoked_at w = None"

definition findWorkerToken :: "string \<Rightarrow> int \<Rightarrow> auth_db \<Rightarrow> WorkerIdentity option \<times> auth_db" where
  "findWorkerToken tokenHash now db =
     (map_option (\<lambda>w. \<lparr>wi_orgId = wk_org_id w, wi_id = wk_id w, wi_name = wk_name w\<rparr>)
        (sql_first (live_worker tokenHash) (db_workers db)),
      db\<lparr>db_workers := sql_update (live_worker tokenHash) (\<lambda>w. w\<lparr>wk_last_used_at := Some now\<rparr>) (db_workers db)\<rparr>)"

definition createWorkerToken ::
  "string \<Rightarrow> string \<Rightarrow> string \<Rightarrow> uuid \<Rightarrow> int \<Rightarrow> auth_db \<Rightarrow> (string + uuid) \<times> auth_db"
where
  "createWorkerToken org name tokenHash fresh now db =
     (if \<not> pg_text name then (Inl text_error, db)
      else if sql_exists (\<lambda>w. wk_token_hash w = tokenHash) (db_workers db) then (Inl unique_error, db)
      else if org \<notin> set (db_orgs db) then (Inl org_fk_error, db)
      else (Inr fresh, db\<lparr>db_workers :=
        \<lparr>wk_org_id = org, wk_id = fresh, wk_token_hash = tokenHash, wk_name = name, wk_created_at = now,
         wk_last_used_at = None, wk_revoked_at = None\<rparr> # db_workers db\<rparr>))"

datatype revoke_result = Revoked | NoToken

definition revocable :: "string \<Rightarrow> string \<Rightarrow> worker_row \<Rightarrow> bool" where
  "revocable org name w \<longleftrightarrow> wk_org_id w = org \<and> wk_name w = name \<and> wk_revoked_at w = None"

definition revokeWorkerToken :: "string \<Rightarrow> string \<Rightarrow> int \<Rightarrow> auth_db \<Rightarrow> revoke_result \<times> auth_db" where
  "revokeWorkerToken org name now db =
     (if sql_exists (revocable org name) (db_workers db) then Revoked else NoToken,
      db\<lparr>db_workers := sql_update (revocable org name) (\<lambda>w. w\<lparr>wk_revoked_at := Some now\<rparr>) (db_workers db)\<rparr>)"

record worker_info =
  wf_name :: string
  wf_createdAt :: string
  wf_revoked :: bool

definition listWorkerTokens :: "string \<Rightarrow> auth_db \<Rightarrow> worker_info list" where
  "listWorkerTokens org db =
     map (\<lambda>w. \<lparr>wf_name = wk_name w, wf_createdAt = iso_us (wk_created_at w), wf_revoked = (wk_revoked_at w \<noteq> None)\<rparr>)
       (sort_key wk_created_at (filter (\<lambda>w. wk_org_id w = org) (db_workers db)))"

section \<open>Members\<close>

datatype invite_result = InviteCreated | InviteUpdated
datatype remove_result = Removed | NoMember

definition invite :: "string \<Rightarrow> string \<Rightarrow> Role \<Rightarrow> auth_db \<Rightarrow> (string + invite_result) \<times> auth_db" where
  "invite org login role db =
     (let l = js_lower login in
      if \<not> pg_text login then (Inl text_error, db)
      else if sql_exists (member_key org l) (db_members db)
      then (Inr InviteUpdated,
            db\<lparr>db_members := sql_update (member_key org l) (\<lambda>m. m\<lparr>mb_role := role\<rparr>) (db_members db)\<rparr>)
      else if org \<notin> set (db_orgs db) then (Inl org_fk_error, db)
      else (Inr InviteCreated, db\<lparr>db_members :=
        \<lparr>mb_org_id = org, mb_github_login = l, mb_user_id = None, mb_role = role, mb_claimed_at = None\<rparr>
          # db_members db\<rparr>))"

definition delete_member :: "string \<Rightarrow> string \<Rightarrow> auth_db \<Rightarrow> auth_db" where
  "delete_member org login db = db\<lparr>db_members := sql_delete (member_key org (js_lower login)) (db_members db)\<rparr>"

definition delete_sessions_of :: "uuid \<Rightarrow> auth_db \<Rightarrow> auth_db" where
  "delete_sessions_of i db = db\<lparr>db_sessions := sql_delete (\<lambda>s. ss_user_id s = i) (db_sessions db)\<rparr>"

definition removeMember :: "string \<Rightarrow> string \<Rightarrow> auth_db \<Rightarrow> remove_result \<times> auth_db" where
  "removeMember org login db =
     (case sql_first (member_key org (js_lower login)) (db_members db) of
        None \<Rightarrow> (NoMember, delete_member org login db)
      | Some m \<Rightarrow>
          (Removed, case mb_user_id m of
             None \<Rightarrow> delete_member org login db
           | Some i \<Rightarrow> delete_sessions_of i (delete_member org login db)))"

record member_info =
  mi_login :: string
  mi_role :: Role
  mi_claimed :: bool

text \<open>\<open>coll\<close> is the collation of the database.\<close>

definition listMembers :: "(string \<Rightarrow> 'k :: linorder) \<Rightarrow> string \<Rightarrow> auth_db \<Rightarrow> member_info list" where
  "listMembers coll org db =
     map (\<lambda>m. \<lparr>mi_login = mb_github_login m, mi_role = mb_role m, mi_claimed = (mb_claimed_at m \<noteq> None)\<rparr>)
       (sort_key (\<lambda>m. coll (mb_github_login m)) (filter (\<lambda>m. mb_org_id m = org) (db_members db)))"

end
