(* ===== verification/AuthFacts.thy ===== *)
theory AuthFacts
  imports AuthStore
begin

text \<open>
  The accounts database as a machine whose steps are the statements of the store: its invariant, that
  every statement keeps it, and what a statement can do to a membership somebody holds.
\<close>

section \<open>Statements as steps\<close>

datatype auth_op =
    OpUpsert uuid int GitHubIdentity
  | OpClaim uuid string int
  | OpJoin uuid string string int
  | OpCreateSession string uuid int
  | OpDeleteSession string
  | OpUseWorker string int
  | OpCreateWorker string string string uuid int
  | OpRevokeWorker string string int
  | OpInvite string string Role
  | OpDeleteMember string string
  | OpDeleteSessionsOf uuid

fun auth_do :: "auth_op \<Rightarrow> auth_db \<Rightarrow> auth_db" where
  "auth_do (OpUpsert fresh now g) db = snd (upsert_user fresh now g db)"
| "auth_do (OpClaim i login now) db = claim_invites i login now db"
| "auth_do (OpJoin i org login now) db = snd (auto_join i org login now db)"
| "auth_do (OpCreateSession h i t) db = snd (createSession h i t db)"
| "auth_do (OpDeleteSession h) db = deleteSession h db"
| "auth_do (OpUseWorker h now) db = snd (findWorkerToken h now db)"
| "auth_do (OpCreateWorker org name h fresh now) db = snd (createWorkerToken org name h fresh now db)"
| "auth_do (OpRevokeWorker org name now) db = snd (revokeWorkerToken org name now db)"
| "auth_do (OpInvite org login role) db = snd (invite org login role db)"
| "auth_do (OpDeleteMember org login) db = delete_member org login db"
| "auth_do (OpDeleteSessionsOf i) db = delete_sessions_of i db"

text \<open>
  What the callers and the database guarantee of a statement's arguments: a generated id is new, the
  account a sign-in claims for exists, and the login it claims is in lower case.
\<close>

fun auth_op_ok :: "auth_op \<Rightarrow> auth_db \<Rightarrow> bool" where
  "auth_op_ok (OpUpsert fresh now g) db \<longleftrightarrow> fresh \<notin> us_id ` set (db_users db)"
| "auth_op_ok (OpClaim i login now) db \<longleftrightarrow> i \<in> us_id ` set (db_users db)"
| "auth_op_ok (OpJoin i org login now) db \<longleftrightarrow> i \<in> us_id ` set (db_users db) \<and> js_lower login = login"
| "auth_op_ok _ db \<longleftrightarrow> True"

fun auth_run :: "auth_op list \<Rightarrow> auth_db \<Rightarrow> auth_db" where
  "auth_run [] db = db"
| "auth_run (a # as) db = auth_run as (auth_do a db)"

fun auth_ops_ok :: "auth_op list \<Rightarrow> auth_db \<Rightarrow> bool" where
  "auth_ops_ok [] db \<longleftrightarrow> True"
| "auth_ops_ok (a # as) db \<longleftrightarrow> auth_op_ok a db \<and> auth_ops_ok as (auth_do a db)"

definition fresh_auth :: "string list \<Rightarrow> auth_db" where
  "fresh_auth orgs = \<lparr>db_orgs = orgs, db_users = [], db_members = [], db_sessions = [], db_workers = []\<rparr>"

section \<open>The invariant\<close>

definition row_member_key :: "member_row \<Rightarrow> string \<times> string" where
  "row_member_key m = (mb_org_id m, mb_github_login m)"

definition users_ok :: "user_row list \<Rightarrow> bool" where
  "users_ok us \<longleftrightarrow> distinct (map us_id us) \<and> distinct (map us_github_user_id us)"

definition member_row_ok :: "uuid set \<Rightarrow> member_row \<Rightarrow> bool" where
  "member_row_ok ids m \<longleftrightarrow> js_lower (mb_github_login m) = mb_github_login m \<and>
     (mb_claimed_at m = None \<longleftrightarrow> mb_user_id m = None) \<and> (\<forall>i. mb_user_id m = Some i \<longrightarrow> i \<in> ids)"

definition members_ok :: "uuid set \<Rightarrow> member_row list \<Rightarrow> bool" where
  "members_ok ids ms \<longleftrightarrow> distinct (map row_member_key ms) \<and> (\<forall>m \<in> set ms. member_row_ok ids m) \<and>
     (\<forall>m \<in> set ms. \<forall>m' \<in> set ms. \<forall>org i. in_org org i m \<longrightarrow> in_org org i m' \<longrightarrow> m = m')"

definition sessions_ok :: "uuid set \<Rightarrow> session_row list \<Rightarrow> bool" where
  "sessions_ok ids ss \<longleftrightarrow> distinct (map ss_token_hash ss) \<and> (\<forall>s \<in> set ss. ss_user_id s \<in> ids)"

definition auth_inv :: "auth_db \<Rightarrow> bool" where
  "auth_inv db \<longleftrightarrow> users_ok (db_users db) \<and>
     members_ok (us_id ` set (db_users db)) (db_members db) \<and>
     sessions_ok (us_id ` set (db_users db)) (db_sessions db) \<and>
     distinct (map wk_token_hash (db_workers db))"

lemma js_lower_idem [simp]: "js_lower (js_lower s) = js_lower s"
proof -
  have "lower_char (lower_char c) = lower_char c" for c
  proof (cases "65 \<le> (of_char c :: nat) \<and> (of_char c :: nat) \<le> 90")
    case True
    then have "(of_char c + 32 :: nat) mod 256 = of_char c + 32" by simp
    then show ?thesis using True by (simp add: lower_char_def)
  qed (auto simp: lower_char_def)
  then show ?thesis by (simp add: js_lower_def)
qed

lemma members_okD:
  assumes "members_ok ids ms"
  shows "distinct (map row_member_key ms)" "m \<in> set ms \<Longrightarrow> member_row_ok ids m"
    "m \<in> set ms \<Longrightarrow> m' \<in> set ms \<Longrightarrow> in_org org i m \<Longrightarrow> in_org org i m' \<Longrightarrow> m = m'"
  using assms unfolding members_ok_def by blast+

lemma members_ok_map:
  assumes "distinct (map row_member_key (map g ms))" "\<And>m. m \<in> set ms \<Longrightarrow> member_row_ok ids (g m)"
    and "\<And>m m' org j. m \<in> set ms \<Longrightarrow> m' \<in> set ms \<Longrightarrow> in_org org j (g m) \<Longrightarrow> in_org org j (g m') \<Longrightarrow> g m = g m'"
  shows "members_ok ids (map g ms)"
  unfolding members_ok_def using assms by auto

lemmas members_ok_update = members_ok_map [where g = "\<lambda>m. if p m then f m else m" for p f, folded sql_update_def]

lemma members_ok_mono: "members_ok ids ms \<Longrightarrow> ids \<subseteq> ids' \<Longrightarrow> members_ok ids' ms"
  unfolding members_ok_def member_row_ok_def by blast

lemma sessions_ok_mono: "sessions_ok ids ss \<Longrightarrow> ids \<subseteq> ids' \<Longrightarrow> sessions_ok ids' ss"
  unfolding sessions_ok_def by blast

lemma relabel_keys [simp]: "us_id (relabel now g u) = us_id u" "us_github_user_id (relabel now g u) = us_github_user_id u"
  by (simp_all add: relabel_def)

lemma ids_sql_update:
  assumes "\<And>u. us_id (f u) = us_id u"
  shows "us_id ` set (sql_update p f us) = us_id ` set us"
proof -
  have "map us_id (sql_update p f us) = map us_id us" using assms by simp
  then show ?thesis by (metis set_map)
qed

lemma upsert_inv:
  assumes "auth_inv db" "fresh \<notin> us_id ` set (db_users db)"
  shows "auth_inv (snd (upsert_user fresh now g db))"
proof -
  let ?n = "\<lfloor>gi_githubUserId g\<rfloor>"
  have upd: "auth_inv (db\<lparr>db_users := sql_update (has_github_id ?n) (relabel now g) (db_users db)\<rparr>)"
    using assms(1) by (simp add: auth_inv_def users_ok_def ids_sql_update)
  have ins: "auth_inv (db\<lparr>db_users := user_of_identity fresh now g # db_users db\<rparr>)"
    if "\<not> sql_exists (has_github_id ?n) (db_users db)"
    using assms that members_ok_mono [of "us_id ` set (db_users db)" "db_members db" "insert fresh (us_id ` set (db_users db))"]
      sessions_ok_mono [of "us_id ` set (db_users db)" "db_sessions db" "insert fresh (us_id ` set (db_users db))"]
    by (auto simp: auth_inv_def users_ok_def user_of_identity_def has_github_id_def sql_exists_iff)
  show ?thesis
    using upd ins assms(1) by (auto simp: upsert_user_def Let_def sql_first_None split: option.splits)
qed

lemma claim_keys [simp]: "row_member_key (claim_member i now m) = row_member_key m"
  by (simp add: claim_member_def row_member_key_def)

lemma claim_members_ok:
  assumes ok: "members_ok ids ms" and i: "i \<in> ids"
  shows "members_ok ids (sql_update (claimable_invite i login ms) (claim_member i now) ms)"
proof -
  let ?f = "\<lambda>m. if claimable_invite i login ms m then claim_member i now m else m"
  have keys: "row_member_key (?f m) = row_member_key m" for m by simp
  have rows: "member_row_ok ids (?f m)" if "m \<in> set ms" for m
    using members_okD(2) [OF ok that] i by (simp add: claim_member_def member_row_ok_def)
  have uniq: "?f m = ?f m'" if m: "m \<in> set ms" "m' \<in> set ms" and org: "in_org org j (?f m)" "in_org org j (?f m')" for m m' org j
  proof (cases "claimable_invite i login ms m"; cases "claimable_invite i login ms m'")
    assume c: "claimable_invite i login ms m" "claimable_invite i login ms m'"
    then have "row_member_key m = row_member_key m'"
      using org by (simp add: claimable_invite_def in_org_def claim_member_def row_member_key_def)
    then have "m = m'" using distinct_key_unique [OF members_okD(1) [OF ok] m] by blast
    then show ?thesis by simp
  next
    assume c: "claimable_invite i login ms m" "\<not> claimable_invite i login ms m'"
    then have "in_org (mb_org_id m) i m'" using org by (simp add: in_org_def claim_member_def)
    then show ?thesis using c(1) m(2) by (auto simp: claimable_invite_def sql_exists_iff)
  next
    assume c: "\<not> claimable_invite i login ms m" "claimable_invite i login ms m'"
    then have "in_org (mb_org_id m') i m" using org by (simp add: in_org_def claim_member_def)
    then show ?thesis using c(2) m(1) by (auto simp: claimable_invite_def sql_exists_iff)
  next
    assume c: "\<not> claimable_invite i login ms m" "\<not> claimable_invite i login ms m'"
    then have "in_org org j m" "in_org org j m'" using org by simp_all
    then have "m = m'" using members_okD(3) [OF ok m] by blast
    then show ?thesis by simp
  qed
  have "distinct (map row_member_key (sql_update (claimable_invite i login ms) (claim_member i now) ms))"
    using members_okD(1) [OF ok] by simp
  then show ?thesis
    using rows uniq by (rule members_ok_update)
qed

lemma insert_members_ok:
  assumes "members_ok ids ms" "\<not> sql_exists (member_key (mb_org_id m) (mb_github_login m)) ms"
    "member_row_ok ids m" "\<And>i. mb_user_id m = Some i \<Longrightarrow> \<not> sql_exists (in_org (mb_org_id m) i) ms"
  shows "members_ok ids (m # ms)"
proof -
  have "row_member_key m \<notin> row_member_key ` set ms"
    using assms(2) by (auto simp: sql_exists_iff member_key_def row_member_key_def)
  moreover have "\<not> in_org org i m'" if "in_org org i m" "m' \<in> set ms" for org i m'
    using assms(4) that by (auto simp: sql_exists_iff in_org_def)
  ultimately show ?thesis using assms(1,3) unfolding members_ok_def by auto
qed

lemma role_members_ok:
  assumes ok: "members_ok ids ms"
  shows "members_ok ids (sql_update p (\<lambda>m. m\<lparr>mb_role := r\<rparr>) ms)"
proof -
  let ?f = "\<lambda>m. if p m then m\<lparr>mb_role := r\<rparr> else m"
  have "distinct (map row_member_key (sql_update p (\<lambda>m. m\<lparr>mb_role := r\<rparr>) ms))"
    using members_okD(1) [OF ok] by (simp add: row_member_key_def)
  moreover have "member_row_ok ids (?f m)" if "m \<in> set ms" for m
    using members_okD(2) [OF ok that] by (simp add: member_row_ok_def)
  moreover have "?f m = ?f m'" if "m \<in> set ms" "m' \<in> set ms" "in_org org j (?f m)" "in_org org j (?f m')" for m m' org j
  proof -
    have "in_org org j m" "in_org org j m'" using that(3,4) by (simp_all add: in_org_def split: if_splits)
    then have "m = m'" using members_okD(3) [OF ok that(1,2)] by blast
    then show ?thesis by simp
  qed
  ultimately show ?thesis by (rule members_ok_update)
qed

lemma delete_members_ok: "members_ok ids ms \<Longrightarrow> members_ok ids (sql_delete p ms)"
  unfolding members_ok_def by (auto simp: sql_simps distinct_map_sql_delete)

lemma auth_do_inv:
  assumes "auth_inv db" "auth_op_ok a db"
  shows "auth_inv (auth_do a db)"
proof (cases a)
  case (OpUpsert fresh now g)
  then show ?thesis using assms upsert_inv by simp
next
  case (OpClaim i login now)
  then show ?thesis using assms claim_members_ok by (simp add: auth_inv_def claim_invites_def)
next
  case (OpJoin i org login now)
  then show ?thesis using assms by (auto simp: auth_inv_def auto_join_def member_row_ok_def intro!: insert_members_ok)
next
  case (OpCreateSession h i t)
  then show ?thesis
    using assms by (auto simp: auth_inv_def createSession_def sessions_ok_def sql_exists_iff is_user_def)
next
  case (OpDeleteSession h)
  then show ?thesis
    using assms by (auto simp: auth_inv_def deleteSession_def sessions_ok_def sql_simps distinct_map_sql_delete)
next
  case (OpUseWorker h now)
  then show ?thesis using assms by (simp add: auth_inv_def findWorkerToken_def)
next
  case (OpCreateWorker org name h fresh now)
  then show ?thesis using assms by (auto simp: auth_inv_def createWorkerToken_def sql_exists_iff)
next
  case (OpRevokeWorker org name now)
  then show ?thesis using assms by (simp add: auth_inv_def revokeWorkerToken_def)
next
  case (OpInvite org login role)
  then show ?thesis
    using assms by (auto simp: auth_inv_def invite_def Let_def role_members_ok member_row_ok_def intro!: insert_members_ok)
next
  case (OpDeleteMember org login)
  then show ?thesis using assms by (simp add: auth_inv_def delete_member_def delete_members_ok)
next
  case (OpDeleteSessionsOf i)
  then show ?thesis
    using assms by (auto simp: auth_inv_def delete_sessions_of_def sessions_ok_def sql_simps distinct_map_sql_delete)
qed

lemma auth_run_inv: "auth_inv db \<Longrightarrow> auth_ops_ok as db \<Longrightarrow> auth_inv (auth_run as db)"
  by (induction as arbitrary: db) (auto intro: auth_do_inv)

lemma fresh_auth_inv: "auth_inv (fresh_auth orgs)"
  by (simp add: auth_inv_def fresh_auth_def users_ok_def members_ok_def sessions_ok_def)


section \<open>Memberships that are held\<close>

definition removes :: "string \<times> string \<Rightarrow> auth_op \<Rightarrow> bool" where
  "removes k a \<longleftrightarrow> (case a of OpDeleteMember org login \<Rightarrow> k = (org, js_lower login) | _ \<Rightarrow> False)"

definition held_by :: "string \<times> string \<Rightarrow> uuid \<Rightarrow> auth_db \<Rightarrow> bool" where
  "held_by k i db \<longleftrightarrow> (\<exists>m \<in> set (db_members db). row_member_key m = k \<and> mb_user_id m = Some i)"

lemma held_by_update:
  assumes "\<exists>m \<in> set ms. row_member_key m = k \<and> mb_user_id m = Some i"
    "\<And>m. m \<in> set ms \<Longrightarrow> row_member_key m = k \<Longrightarrow> mb_user_id m = Some i \<Longrightarrow> p m \<Longrightarrow>
       row_member_key (f m) = k \<and> mb_user_id (f m) = Some i"
  shows "\<exists>m \<in> set (sql_update p f ms). row_member_key m = k \<and> mb_user_id m = Some i"
proof -
  obtain m where m: "m \<in> set ms" "row_member_key m = k" "mb_user_id m = Some i" using assms(1) by blast
  then have "(if p m then f m else m) \<in> set (sql_update p f ms)" unfolding set_sql_update by blast
  then show ?thesis using m assms(2) [OF m] by (cases "p m") auto
qed

lemma held_by_step:
  assumes "held_by k i db" "\<not> removes k a"
  shows "held_by k i (auth_do a db)"
proof (cases a)
  case (OpUpsert fresh now g)
  then show ?thesis using assms(1) by (simp add: held_by_def upsert_user_def Let_def split: option.splits)
next
  case (OpClaim j login now)
  have "\<exists>m \<in> set (sql_update (claimable_invite j login (db_members db)) (claim_member j now) (db_members db)).
      row_member_key m = k \<and> mb_user_id m = Some i"
    by (rule held_by_update) (use assms(1) in \<open>auto simp: held_by_def claimable_invite_def\<close>)
  then show ?thesis using OpClaim by (simp add: held_by_def claim_invites_def)
next
  case (OpJoin j org login now)
  then show ?thesis using assms(1) by (auto simp: held_by_def auto_join_def)
next
  case (OpInvite org login role)
  have "\<exists>m \<in> set (sql_update (member_key org (js_lower login)) (\<lambda>m. m\<lparr>mb_role := role\<rparr>) (db_members db)).
      row_member_key m = k \<and> mb_user_id m = Some i"
    by (rule held_by_update) (use assms(1) in \<open>auto simp: held_by_def row_member_key_def\<close>)
  then show ?thesis using OpInvite assms(1) by (auto simp: held_by_def invite_def Let_def)
next
  case (OpDeleteMember org login)
  then show ?thesis
    using assms by (auto simp: held_by_def delete_member_def removes_def sql_simps member_key_def row_member_key_def)
qed (use assms(1) in \<open>auto simp: held_by_def createSession_def deleteSession_def findWorkerToken_def
       createWorkerToken_def revokeWorkerToken_def delete_sessions_of_def\<close>)

lemma held_by_run: "held_by k i db \<Longrightarrow> list_all (\<lambda>a. \<not> removes k a) as \<Longrightarrow> held_by k i (auth_run as db)"
  by (induction as arbitrary: db) (auto intro: held_by_step)

lemma held_by_unique:
  "auth_inv db \<Longrightarrow> held_by k i db \<Longrightarrow> held_by k j db \<Longrightarrow> i = j"
proof -
  assume inv: "auth_inv db" and h: "held_by k i db" "held_by k j db"
  obtain m m' where m: "m \<in> set (db_members db)" "row_member_key m = k" "mb_user_id m = Some i"
    and m': "m' \<in> set (db_members db)" "row_member_key m' = k" "mb_user_id m' = Some j"
    using h unfolding held_by_def by blast
  have "distinct (map row_member_key (db_members db))" using inv by (simp add: auth_inv_def members_ok_def)
  then have "m = m'" using distinct_key_unique m(1,2) m'(1,2) by metis
  then show "i = j" using m(3) m'(3) by simp
qed

section \<open>Reading a caller\<close>

lemma sql_first_unique:
  assumes "distinct (map k t)" "r \<in> set t" "p r" "\<And>q. q \<in> set t \<Longrightarrow> p q \<Longrightarrow> k q = k r"
  shows "sql_first p t = Some r"
proof -
  have "sql_first p t \<noteq> None" using assms(2,3) by (auto simp: sql_first_None sql_exists_iff)
  then obtain q where q: "sql_first p t = Some q" by blast
  note q' = sql_first_Some [OF q]
  have "q = r" by (rule distinct_key_unique [OF assms(1)]) (use q' assms(2,4) in blast)+
  then show ?thesis using q by simp
qed

lemma memberOf_iff:
  assumes "auth_inv db"
  shows "memberOf i org db = Some c \<longleftrightarrow>
    (\<exists>m u. m \<in> set (db_members db) \<and> in_org org i m \<and> u \<in> set (db_users db) \<and> us_id u = i \<and> c = toCaller u m)"
proof
  assume "memberOf i org db = Some c"
  then obtain m u where m: "sql_first (in_org org i) (db_members db) = Some m"
    and u: "sql_first (is_user i) (db_users db) = Some u" and c: "c = toCaller u m"
    by (auto simp: memberOf_def split: option.splits)
  then show "\<exists>m u. m \<in> set (db_members db) \<and> in_org org i m \<and> u \<in> set (db_users db) \<and> us_id u = i \<and> c = toCaller u m"
    using sql_first_Some [OF m] sql_first_Some [OF u] c by (auto simp: is_user_def)
next
  assume "\<exists>m u. m \<in> set (db_members db) \<and> in_org org i m \<and> u \<in> set (db_users db) \<and> us_id u = i \<and> c = toCaller u m"
  then obtain m u where m: "m \<in> set (db_members db)" "in_org org i m" and u: "u \<in> set (db_users db)" "us_id u = i"
    and c: "c = toCaller u m" by blast
  have ok: "members_ok (us_id ` set (db_users db)) (db_members db)" "distinct (map us_id (db_users db))"
    using assms by (simp_all add: auth_inv_def users_ok_def)
  have "sql_first (in_org org i) (db_members db) = Some m"
    by (rule sql_first_unique [where p = "in_org org i", OF members_okD(1) [OF ok(1)] m])
      (use members_okD(3) [OF ok(1)] m in blast)
  moreover have "sql_first (is_user i) (db_users db) = Some u"
    by (rule sql_first_unique [OF ok(2) u(1)]) (use u(2) in \<open>simp_all add: is_user_def\<close>)
  ultimately show "memberOf i org db = Some c" by (simp add: memberOf_def c)
qed

lemma toCaller_id [simp]: "ur_id (cr_user (toCaller u m)) = us_id u" "cr_role (toCaller u m) = mb_role m"
  "ur_githubUserId (cr_user (toCaller u m)) = us_github_user_id u"
  by (simp_all add: toCaller_def)

lemma findSession_iff:
  assumes "auth_inv db"
  shows "findSession h org now db = Some c \<longleftrightarrow>
    (\<exists>s m u. s \<in> set (db_sessions db) \<and> ss_token_hash s = h \<and> now < ss_expires_at s \<and>
       m \<in> set (db_members db) \<and> in_org org (ss_user_id s) m \<and> u \<in> set (db_users db) \<and> us_id u = ss_user_id s \<and>
       c = toCaller u m)"
proof
  assume "findSession h org now db = Some c"
  then obtain s where "sql_first (live_session h now) (db_sessions db) = Some s" "memberOf (ss_user_id s) org db = Some c"
    by (auto simp: findSession_def split: option.splits)
  then show "\<exists>s m u. s \<in> set (db_sessions db) \<and> ss_token_hash s = h \<and> now < ss_expires_at s \<and>
       m \<in> set (db_members db) \<and> in_org org (ss_user_id s) m \<and> u \<in> set (db_users db) \<and> us_id u = ss_user_id s \<and>
       c = toCaller u m"
    using sql_first_Some [of "live_session h now" "db_sessions db" s] memberOf_iff [OF assms]
    unfolding live_session_def by blast
next
  assume "\<exists>s m u. s \<in> set (db_sessions db) \<and> ss_token_hash s = h \<and> now < ss_expires_at s \<and>
       m \<in> set (db_members db) \<and> in_org org (ss_user_id s) m \<and> u \<in> set (db_users db) \<and> us_id u = ss_user_id s \<and>
       c = toCaller u m"
  then obtain s where s: "s \<in> set (db_sessions db)" "ss_token_hash s = h" "now < ss_expires_at s"
    and m: "memberOf (ss_user_id s) org db = Some c" using memberOf_iff [OF assms] by blast
  have "distinct (map ss_token_hash (db_sessions db))" using assms by (simp add: auth_inv_def sessions_ok_def)
  then have "sql_first (live_session h now) (db_sessions db) = Some s"
    by (rule sql_first_unique [OF _ s(1)]) (use s in \<open>simp_all add: live_session_def\<close>)
  then show "findSession h org now db = Some c" using m by (simp add: findSession_def)
qed

end
