(* ===== verification/NodePath.thy ===== *)
theory NodePath
  imports Prelude
begin

text \<open>
  The functions of \<open>node:path\<close> (POSIX) that the server uses, from their documentation: \<open>isAbsolute\<close>,
  \<open>normalize\<close> and \<open>join\<close>. A path is split at its slashes; empty and \<open>.\<close> segments are dropped and \<open>..\<close>
  removes the segment before it.
\<close>

definition isAbsolute :: "string \<Rightarrow> bool" where
  "isAbsolute p \<longleftrightarrow> starts_with p ''/''"

text \<open>The segments kept so far, last first.\<close>

fun path_push :: "bool \<Rightarrow> string \<Rightarrow> string list \<Rightarrow> string list" where
  "path_push up seg [] =
     (if seg = [] \<or> seg = ''.'' then [] else if seg = ''..'' then (if up then [''..''] else []) else [seg])"
| "path_push up seg (t # ts) =
     (if seg = [] \<or> seg = ''.'' then t # ts
      else if seg = ''..'' then (if t = ''..'' then seg # t # ts else ts)
      else seg # t # ts)"

definition path_segments :: "bool \<Rightarrow> string \<Rightarrow> string list" where
  "path_segments up p = rev (fold (path_push up) (split_on (CHR ''/'') p) [])"

definition path_normalize :: "string \<Rightarrow> string" where
  "path_normalize p =
     (if p = [] then ''.''
      else let absolute = isAbsolute p; trailing = ends_with p ''/'';
               t = join_with ''/'' (path_segments (\<not> absolute) p) in
           if t = [] then (if absolute then ''/'' else if trailing then ''./'' else ''.'')
           else (if absolute then ''/'' else []) @ t @ (if trailing then ''/'' else []))"

definition path_join :: "string list \<Rightarrow> string" where
  "path_join ps =
     (let qs = filter (\<lambda>p. p \<noteq> []) ps in if qs = [] then ''.'' else path_normalize (join_with ''/'' qs))"

section \<open>Facts\<close>

definition plain_segment :: "string \<Rightarrow> bool" where
  "plain_segment s \<longleftrightarrow> s \<noteq> [] \<and> s \<noteq> ''.'' \<and> s \<noteq> ''..'' \<and> CHR ''/'' \<notin> set s"

lemma split_on_plain: "CHR ''/'' \<notin> set s \<Longrightarrow> split_on (CHR ''/'') s = [s]"
  by (induction s) auto

lemma split_on_append:
  "split_on d (s @ d # t) = split_on d s @ split_on d t"
proof (induction s)
  case (Cons c s)
  then show ?case by (cases "split_on d s") auto
qed simp

lemma fold_push_plain:
  "list_all plain_segment ps \<Longrightarrow> fold (path_push up) ps acc = rev ps @ acc"
proof (induction ps arbitrary: acc)
  case (Cons p ps)
  then have "path_push up p acc = p # acc" by (cases acc) (auto simp: plain_segment_def)
  then show ?case using Cons by simp
qed simp

lemma split_join_plain:
  "list_all plain_segment ps \<Longrightarrow> ps \<noteq> [] \<Longrightarrow> split_on (CHR ''/'') (join_with ''/'' ps) = ps"
proof (induction ps)
  case (Cons p ps)
  then show ?case
    by (cases ps) (auto simp: split_on_plain plain_segment_def split_on_append [of "CHR ''/''" p, simplified])
qed simp

lemma isAbsolute_append [simp]: "isAbsolute ([CHR ''/''] @ s)" "isAbsolute (CHR ''/'' # s)"
  by (simp_all add: isAbsolute_def)

end
