(* ===== verification/ServerConfig.thy ===== *)
theory ServerConfig
  imports Env NodePath Canonical
begin

text \<open>
  The server's configuration, \<open>server/src/config.ts\<close>. \<open>url_parse\<close> stands for the platform's \<open>new URL(s)\<close>
  (\<open>None\<close> where it throws), \<open>utf8_text\<close> for the decoding of bytes in \<open>toString('utf8')\<close>, and \<open>read_file\<close> for
  \<open>readFileSync\<close>, whose error carries a code. A refused configuration is \<open>Inl\<close> of the message.
\<close>

section \<open>Data\<close>

record Repo =
  repo_owner :: string
  repo_name :: string

definition fullName :: "Repo \<Rightarrow> string" where
  "fullName repo = repo_owner repo @ ''/'' @ repo_name repo"

record GitHubApp =
  ga_appId :: string
  ga_installationId :: "string option"
  ga_privateKeyPem :: string
  ga_apiUrl :: string

datatype GitHubConfig = GitHubNone | GitHubAppMode GitHubApp

record GitHubAuth =
  gh_clientId :: string
  gh_clientSecret :: string
  gh_sessionSecret :: string
  gh_sessionTtlMs :: int
  gh_cookieSecure :: bool
  gh_publicUrl :: string
  gh_bootstrapAdmin :: "string option"
  gh_autoJoinGithubOrg :: "string option"
  gh_ingestToken :: "string option"
  gh_authorizeUrl :: string
  gh_tokenUrl :: string
  gh_userUrl :: string

datatype AuthConfig = AuthNone "string option" | AuthGitHub GitHubAuth

definition auth_ingestToken :: "AuthConfig \<Rightarrow> string option" where
  "auth_ingestToken a = (case a of AuthNone t \<Rightarrow> t | AuthGitHub g \<Rightarrow> gh_ingestToken g)"

datatype TelemetrySource = TsPostgres | TsFixture | TsOff

record AppConfig =
  ac_orgId :: string
  ac_orgName :: string
  ac_github :: GitHubConfig
  ac_baseBranch :: string
  ac_bots :: "string list"
  ac_syncTtlMs :: int
  ac_port :: int
  ac_host :: string
  ac_webRoot :: "string option"
  ac_telemetrySource :: TelemetrySource
  ac_databaseUrl :: string
  ac_telemetryTtlMs :: int
  ac_workspaceRoot :: "string option"
  ac_auth :: AuthConfig

record url_parts =
  up_protocol :: string
  up_origin :: string
  up_pathname :: string

section \<open>Constants and patterns\<close>

abbreviation MIN_TELEMETRY_TTL_SECONDS :: int where "MIN_TELEMETRY_TTL_SECONDS \<equiv> 5"
abbreviation MIN_SYNC_TTL_SECONDS_PER_REPO :: int where "MIN_SYNC_TTL_SECONDS_PER_REPO \<equiv> 60"
abbreviation MIN_SESSION_SECRET_LENGTH :: nat where "MIN_SESSION_SECRET_LENGTH \<equiv> 32"
abbreviation DEFAULT_SESSION_TTL_HOURS :: int where "DEFAULT_SESSION_TTL_HOURS \<equiv> 24 * 14"
abbreviation DEFAULT_ORG_ID :: string where "DEFAULT_ORG_ID \<equiv> ''default''"
abbreviation RESERVED_ORG_PREFIX :: string where "RESERVED_ORG_PREFIX \<equiv> ''__''"

definition DISPOSABLE_DATABASE :: "string \<Rightarrow> bool" where
  "DISPOSABLE_DATABASE name \<longleftrightarrow>
     list_ex (ends_with name) [''_test'', ''_seed'', ''_synthetic'', ''_demo'', ''_e2e'']"

definition is_org_id :: "string \<Rightarrow> bool" where
  "is_org_id s \<longleftrightarrow> (case s of [] \<Rightarrow> False
     | c # cs \<Rightarrow> (is_lower c \<or> is_digit c) \<and> length cs \<le> 38 \<and>
         list_all (\<lambda>d. is_lower d \<or> is_digit d \<or> d = CHR ''_'' \<or> d = CHR ''-'') cs)"

definition LOOPBACK_HOSTS :: "string list" where
  "LOOPBACK_HOSTS = [''127.0.0.1'', ''::1'', ''localhost'']"

text \<open>The em dash of the messages, as its UTF-8 bytes.\<close>

definition em_dash :: string where
  "em_dash = '' '' @ [CHR 0xE2, CHR 0x80, CHR 0x94] @ '' ''"

section \<open>Reading one value\<close>

definition databaseName :: "(string \<Rightarrow> url_parts option) \<Rightarrow> string \<Rightarrow> string option" where
  "databaseName url_parse url =
     (case url_parse url of None \<Rightarrow> None
      | Some u \<Rightarrow>
          let p = (if starts_with (up_pathname u) ''/'' then drop 1 (up_pathname u) else up_pathname u) in
          if p = [] then None else Some p)"

definition pos_int :: "string option \<Rightarrow> int \<Rightarrow> string \<Rightarrow> string + int" where
  "pos_int raw fallback label =
     (case raw of None \<Rightarrow> Inr fallback
      | Some s \<Rightarrow>
          if s = [] then Inr fallback
          else (case js_number s of
              Some q \<Rightarrow>
                if \<not> is_integer q \<or> q \<le> 0 then Inl (label @ '' must be a positive integer, got '' @ quoted s)
                else Inr \<lfloor>q\<rfloor>
            | None \<Rightarrow> Inl (label @ '' must be a positive integer, got '' @ quoted s)))"

definition workspaceRootOf :: "env \<Rightarrow> string + string option" where
  "workspaceRootOf env =
     (let raw = env_trim (env ''ORG_WORKSPACE_ROOT''); home = env_trim (env ''HOME'') in
      if raw = [] then Inr None
      else
        let tilde = (raw = ''~'' \<or> starts_with raw ''~/'') in
        and_then (throw_if (tilde \<and> home = [])
            (''ORG_WORKSPACE_ROOT is '' @ quoted raw @ '' but HOME is not set, so '' @ quoted ''~'' @ '' cannot be expanded''))
          (\<lambda>_.
        let path = (if \<not> tilde then raw else if raw = ''~'' then home else path_join [home, drop 2 raw]) in
        and_then (throw_if (\<not> isAbsolute path)
            (''ORG_WORKSPACE_ROOT must be an absolute path (or start with '' @ quoted ''~/'' @ ''), got '' @ quoted raw @
             em_dash @ ''a relative one would mean a different directory when run from the repo root, from server/, and in the container''))
          (\<lambda>_. Inr (Some path))))"

definition env_bool :: "string option \<Rightarrow> bool \<Rightarrow> string \<Rightarrow> string + bool" where
  "env_bool raw fallback label =
     (let v = env_trim raw in
      if v = [] then Inr fallback
      else if v \<in> set [''1'', ''true'', ''yes''] then Inr True
      else if v \<in> set [''0'', ''false'', ''no''] then Inr False
      else Inl (label @ '' must be a boolean ('' @ quoted ''1'' @ ''/'' @ quoted ''true'' @ '' or '' @ quoted ''0'' @
                ''/'' @ quoted ''false'' @ ''), got '' @ quoted (the raw)))"

text \<open>\<open>Buffer.from(s, 'base64')\<close>: either alphabet, every other character skipped; the bytes as characters.\<close>

definition base64_val :: "char \<Rightarrow> nat option" where
  "base64_val c =
     (let n = (of_char c :: nat) in
      if 65 \<le> n \<and> n \<le> 90 then Some (n - 65)
      else if 97 \<le> n \<and> n \<le> 122 then Some (n - 71)
      else if 48 \<le> n \<and> n \<le> 57 then Some (n + 4)
      else if n = 43 \<or> n = 45 then Some 62
      else if n = 47 \<or> n = 95 then Some 63
      else None)"

fun base64_bytes :: "nat list \<Rightarrow> nat list" where
  "base64_bytes (a # b # c # d # r) =
     [a * 4 + b div 16, (b mod 16) * 16 + c div 4, (c mod 4) * 64 + d] @ base64_bytes r"
| "base64_bytes [a, b, c] = [a * 4 + b div 16, (b mod 16) * 16 + c div 4]"
| "base64_bytes [a, b] = [a * 4 + b div 16]"
| "base64_bytes _ = []"

definition base64_decode :: "string \<Rightarrow> string" where
  "base64_decode s = map char_of (base64_bytes (List.map_filter base64_val s))"

section \<open>The GitHub App\<close>

definition app_unset :: "string \<Rightarrow> string" where
  "app_unset label =
     ''GITHUB_MODE is '' @ quoted ''app'' @ '' but '' @ label @ '' is not set. A half-configured App is fatal rather '' @
     ''than falling back to fetching nothing, which would present as an empty dashboard rather than as a '' @
     ''missing credential. Set GITHUB_MODE=none to serve stored data deliberately.''"

definition pem_of :: "(string \<Rightarrow> string) \<Rightarrow> string \<Rightarrow> string" where
  "pem_of utf8_text key = (if \<not> includes_str key ''-----BEGIN'' then js_trim (utf8_text (base64_decode key)) else key)"

definition is_pem :: "string \<Rightarrow> bool" where
  "is_pem s \<longleftrightarrow> starts_with s ''-----BEGIN'' \<and> includes_str s ''PRIVATE KEY-----''"

definition loadGitHub :: "(string \<Rightarrow> string) \<Rightarrow> env \<Rightarrow> string + GitHubConfig" where
  "loadGitHub utf8_text env =
     (let mode = trim_or (env ''GITHUB_MODE'') ''app'' in
      if mode \<noteq> ''none'' \<and> mode \<noteq> ''app''
      then Inl (''GITHUB_MODE must be '' @ quoted ''app'' @ '' or '' @ quoted ''none'' @ '', got '' @ quoted (the (env ''GITHUB_MODE'')))
      else if mode = ''none'' then Inr GitHubNone
      else
        let appId = env_trim (env ''GITHUB_APP_ID''); privateKey = env_trim (env ''GITHUB_APP_PRIVATE_KEY'') in
        and_then (throw_if (appId = []) (app_unset ''GITHUB_APP_ID'')) (\<lambda>_.
        and_then (throw_if (privateKey = []) (app_unset ''GITHUB_APP_PRIVATE_KEY'')) (\<lambda>_.
        let pem = pem_of utf8_text privateKey in
        and_then (throw_if (\<not> is_pem pem)
          (''GITHUB_APP_PRIVATE_KEY is not a PEM private key. Paste the contents of the .pem GitHub gave you when '' @
           ''you generated the key, or its base64, or point GITHUB_APP_PRIVATE_KEY_FILE at the file.'')) (\<lambda>_.
        let installationId = trim_or_null (env ''GITHUB_APP_INSTALLATION_ID'') in
        and_then (throw_if (case installationId of None \<Rightarrow> False | Some i \<Rightarrow> \<not> list_all is_digit i)
          (''GITHUB_APP_INSTALLATION_ID must be a number, got '' @ quoted (the installationId))) (\<lambda>_.
        Inr (GitHubAppMode \<lparr>ga_appId = appId, ga_installationId = installationId, ga_privateKeyPem = pem,
          ga_apiUrl = strip_slashes (trim_or (env ''GITHUB_API_URL'') ''https://api.github.com'')\<rparr>))))))"


section \<open>Accounts\<close>

definition public_bind_refusal :: "string \<Rightarrow> string" where
  "public_bind_refusal host =
     ''AUTH_MODE is '' @ quoted ''none'' @ '' but HOST is '' @ quoted host @ '', which is reachable from off this machine. '' @
     ''With no auth every route is open to anyone who can reach the port, including POST /api/jobs, which runs '' @
     ''shell commands. Set AUTH_MODE=github, or bind to 127.0.0.1, or set AUTH_ALLOW_PUBLIC_BIND=1 if something '' @
     ''else in front of this port is doing the authenticating.''"

definition auth_unset :: "string \<Rightarrow> string" where
  "auth_unset label =
     ''AUTH_MODE is '' @ quoted ''github'' @ '' but '' @ label @ '' is not set. Half-configured auth is fatal rather than '' @
     ''falling back to an open deployment, which would be the one failure nobody notices.''"

definition public_url_refusal :: "string \<Rightarrow> string" where
  "public_url_refusal host =
     ''AUTH_MODE is '' @ quoted ''github'' @ '' and HOST is '' @ quoted host @ '', so PUBLIC_URL must be set: it is the origin '' @
     ''GitHub redirects back to, and it cannot be derived from the request's Host header without letting the '' @
     ''caller choose the redirect target.''"

definition public_origin :: "(string \<Rightarrow> url_parts option) \<Rightarrow> string \<Rightarrow> string + string" where
  "public_origin url_parse publicUrl =
     (case url_parse publicUrl of
        None \<Rightarrow> Inl (''PUBLIC_URL must be an absolute URL, got '' @ quoted publicUrl)
      | Some origin \<Rightarrow>
          if up_protocol origin \<noteq> ''http:'' \<and> up_protocol origin \<noteq> ''https:''
          then Inl (''PUBLIC_URL must be http or https, got '' @ quoted publicUrl)
          else Inr (up_origin origin))"

definition loadAuth ::
  "(string \<Rightarrow> url_parts option) \<Rightarrow> env \<Rightarrow> string \<Rightarrow> int \<Rightarrow> string + AuthConfig"
where
  "loadAuth url_parse env host port =
     (let ingestToken = trim_or_null (env ''INGEST_TOKEN''); mode = trim_or (env ''AUTH_MODE'') ''none'' in
      if mode \<noteq> ''none'' \<and> mode \<noteq> ''github''
      then Inl (''AUTH_MODE must be '' @ quoted ''github'' @ '' or '' @ quoted ''none'' @ '', got '' @ quoted (the (env ''AUTH_MODE'')))
      else if mode = ''none'' then
        (if host \<in> set LOOPBACK_HOSTS then Inr (AuthNone ingestToken)
         else and_then (env_bool (env ''AUTH_ALLOW_PUBLIC_BIND'') False ''AUTH_ALLOW_PUBLIC_BIND'') (\<lambda>allowed.
              and_then (throw_if (\<not> allowed) (public_bind_refusal host)) (\<lambda>_. Inr (AuthNone ingestToken))))
      else
        let clientId = env_trim (env ''GITHUB_OAUTH_CLIENT_ID'');
            clientSecret = env_trim (env ''GITHUB_OAUTH_CLIENT_SECRET'');
            sessionSecret = env_trim (env ''SESSION_SECRET'');
            publicUrl = trim_or (env ''PUBLIC_URL'')
              (if host \<in> set LOOPBACK_HOSTS then ''http://'' @ host @ '':'' @ int_str port else []) in
        and_then (throw_if (clientId = []) (auth_unset ''GITHUB_OAUTH_CLIENT_ID'')) (\<lambda>_.
        and_then (throw_if (clientSecret = []) (auth_unset ''GITHUB_OAUTH_CLIENT_SECRET'')) (\<lambda>_.
        and_then (throw_if (sessionSecret = []) (auth_unset ''SESSION_SECRET'')) (\<lambda>_.
        and_then (throw_if (length sessionSecret < MIN_SESSION_SECRET_LENGTH)
          (''SESSION_SECRET must be at least '' @ nat_str MIN_SESSION_SECRET_LENGTH @ '' characters, got '' @
           nat_str (length sessionSecret))) (\<lambda>_.
        and_then (throw_if (publicUrl = []) (public_url_refusal host)) (\<lambda>_.
        and_then (public_origin url_parse publicUrl) (\<lambda>origin.
        and_then (pos_int (env ''SESSION_TTL_HOURS'') DEFAULT_SESSION_TTL_HOURS ''SESSION_TTL_HOURS'') (\<lambda>ttl.
        and_then (env_bool (env ''COOKIE_SECURE'') False ''COOKIE_SECURE'') (\<lambda>secure.
        Inr (AuthGitHub \<lparr>gh_clientId = clientId, gh_clientSecret = clientSecret, gh_sessionSecret = sessionSecret,
          gh_sessionTtlMs = ttl * 3600 * 1000, gh_cookieSecure = secure, gh_publicUrl = origin,
          gh_bootstrapAdmin = map_option js_lower (trim_or_null (env ''AUTH_BOOTSTRAP_ADMIN'')),
          gh_autoJoinGithubOrg = trim_or_null (env ''AUTH_AUTO_JOIN_GITHUB_ORG''),
          gh_ingestToken = ingestToken,
          gh_authorizeUrl = trim_or (env ''GITHUB_OAUTH_AUTHORIZE_URL'') ''https://github.com/login/oauth/authorize'',
          gh_tokenUrl = trim_or (env ''GITHUB_OAUTH_TOKEN_URL'') ''https://github.com/login/oauth/access_token'',
          gh_userUrl = trim_or (env ''GITHUB_OAUTH_USER_URL'') ''https://api.github.com/user''\<rparr>))))))))))"

section \<open>The configuration\<close>

text \<open>The keys that are refused because something replaced them, in the order they are looked for.\<close>

definition removed_keys :: "env \<Rightarrow> string + unit" where
  "removed_keys env =
     and_then (throw_if (truthy (env ''DATA_SOURCE''))
       (''DATA_SOURCE is no longer supported (got '' @ quoted (the (env ''DATA_SOURCE'')) @ ''). The database is the only '' @
        ''source the dashboard reads. For data without a GitHub token, seed a disposable database: npm run seed.'')) (\<lambda>_.
     and_then (throw_if (truthy (env ''GITHUB_TOKEN''))
       (''GITHUB_TOKEN is no longer supported: the repo-read credential is a GitHub App installation now, which also '' @
        ''reports which repositories it can see. Set GITHUB_MODE=app with GITHUB_APP_ID and GITHUB_APP_PRIVATE_KEY, '' @
        ''or GITHUB_MODE=none to serve stored data. See docs/configuration.md.'')) (\<lambda>_.
     and_then (throw_if (truthy (env ''GITHUB_REPOS'') \<or> truthy (env ''ORG_REPOS''))
       ((if truthy (env ''ORG_REPOS'') then ''ORG_REPOS'' else ''GITHUB_REPOS'') @
        '' is no longer supported: the repo list is whatever the GitHub App installation reports, and each member '' @
        ''chooses which of those to check out from the dashboard. Remove the line; install the App on the '' @
        ''repositories you want measured instead. See GET /api/repos.'')) (\<lambda>_.
     throw_if (truthy (env ''GITHUB_OWNER''))
       (''GITHUB_OWNER is no longer supported: the installation reports each repository with its own owner, so there '' @
        ''is no default owner for a bare name to take. Remove the line. Use ORG_NAME to change what the page calls '' @
        ''this organization.''))))"

definition cache_ttl_refusal :: string where
  "cache_ttl_refusal =
     ''CACHE_TTL_SECONDS is no longer supported: refreshes are incremental now, so SYNC_TTL_SECONDS is the only '' @
     ''cache floor. Rename it.''"

definition org_id_refusal :: "string \<Rightarrow> string" where
  "org_id_refusal orgId =
     ''ORG_ID must be 1-39 characters of lowercase letters, digits, '' @ quoted ''-'' @ '' or '' @ quoted ''_'' @
     '', starting with a letter or digit, and may not begin with '' @ quoted ''__'' @ em_dash @
     ''it is a database key and a URL parameter, so it is rejected rather than normalised'' @ em_dash @ ''got '' @ quoted orgId"

definition telemetry_source_of :: "env \<Rightarrow> string + TelemetrySource" where
  "telemetry_source_of env =
     (let s = (case env ''TELEMETRY_SOURCE'' of None \<Rightarrow> ''postgres'' | Some v \<Rightarrow> v) in
      if s = ''postgres'' then Inr TsPostgres else if s = ''fixture'' then Inr TsFixture
      else if s = ''off'' then Inr TsOff
      else Inl (''TELEMETRY_SOURCE must be '' @ quoted ''postgres'' @ '', '' @ quoted ''fixture'' @ '', or '' @ quoted ''off'' @
                '', got '' @ quoted s))"

definition database_refusal :: string where
  "database_refusal =
     ''DATABASE_URL is required: the database is the only source the dashboard reads. Start one with '' @
     ''`docker compose up -d timescale`, then either let it sync from GitHub or seed it with `npm run seed`.''"

definition disposable_refusal :: "string \<Rightarrow> string" where
  "disposable_refusal name =
     ''DATABASE_URL points at '' @ quoted name @ '', which is disposable: the db suite truncates it and `npm run seed` writes '' @
     ''synthetic pull requests into it. Refusing to persist real fetched history there. Use a database without a '' @
     ''_test/_seed/_synthetic/_demo/_e2e suffix, or set GITHUB_MODE=none to read what is already stored.''"

definition bots_of :: "env \<Rightarrow> string list" where
  "bots_of env =
     (if truthy (env ''BOTS'')
      then filter (\<lambda>b. b \<noteq> []) (map js_trim (split_on (CHR '','') (the (env ''BOTS''))))
      else DEFAULT_BOTS)"

definition loadConfig ::
  "(string \<Rightarrow> url_parts option) \<Rightarrow> (string \<Rightarrow> string) \<Rightarrow> env \<Rightarrow> string + AppConfig"
where
  "loadConfig url_parse utf8_text env =
     and_then (removed_keys env) (\<lambda>_.
     let orgId = trim_or (env ''ORG_ID'') DEFAULT_ORG_ID in
     and_then (throw_if (\<not> is_org_id orgId \<or> starts_with orgId RESERVED_ORG_PREFIX) (org_id_refusal orgId)) (\<lambda>_.
     and_then (workspaceRootOf env) (\<lambda>workspaceRoot.
     and_then (throw_if (truthy (env ''CACHE_TTL_SECONDS'')) cache_ttl_refusal) (\<lambda>_.
     and_then (telemetry_source_of env) (\<lambda>telemetrySource.
     and_then (pos_int (env ''TELEMETRY_TTL_SECONDS'') 30 ''TELEMETRY_TTL_SECONDS'') (\<lambda>telemetryTtl.
     and_then (throw_if (telemetryTtl < MIN_TELEMETRY_TTL_SECONDS)
       (''TELEMETRY_TTL_SECONDS must be at least '' @ int_str MIN_TELEMETRY_TTL_SECONDS)) (\<lambda>_.
     and_then (pos_int (env ''SYNC_TTL_SECONDS'') MIN_SYNC_TTL_SECONDS_PER_REPO ''SYNC_TTL_SECONDS'') (\<lambda>syncTtl.
     and_then (throw_if (syncTtl < MIN_SYNC_TTL_SECONDS_PER_REPO)
       (''SYNC_TTL_SECONDS must be at least '' @ int_str MIN_SYNC_TTL_SECONDS_PER_REPO @
        ''; an incremental sync still costs a few rate-limit points per repo'')) (\<lambda>_.
     and_then (throw_if (\<not> truthy (env ''DATABASE_URL'')) database_refusal) (\<lambda>_.
     let databaseUrl = the (env ''DATABASE_URL'') in
     and_then (loadGitHub utf8_text env) (\<lambda>github.
     let name = (case databaseName url_parse databaseUrl of None \<Rightarrow> [] | Some n \<Rightarrow> n) in
     and_then (throw_if (github \<noteq> GitHubNone \<and> DISPOSABLE_DATABASE name) (disposable_refusal name)) (\<lambda>_.
     and_then (pos_int (env ''PORT'') 8080 ''PORT'') (\<lambda>port.
     let host = (case env ''HOST'' of None \<Rightarrow> ''127.0.0.1'' | Some h \<Rightarrow> h) in
     and_then (loadAuth url_parse env host port) (\<lambda>auth.
     Inr \<lparr>ac_orgId = orgId, ac_orgName = trim_or (env ''ORG_NAME'') orgId, ac_github = github,
       ac_baseBranch = (case env ''BASE_BRANCH'' of None \<Rightarrow> ''dev'' | Some b \<Rightarrow> b), ac_bots = bots_of env,
       ac_syncTtlMs = syncTtl * 1000, ac_port = port, ac_host = host, ac_webRoot = env ''WEB_ROOT'',
       ac_telemetrySource = telemetrySource, ac_databaseUrl = databaseUrl, ac_telemetryTtlMs = telemetryTtl * 1000,
       ac_workspaceRoot = workspaceRoot, ac_auth = auth\<rparr>))))))))))))))"

text \<open>\<open>resolveConfig\<close>: the key file is read into the environment, and whatever that throws is reported as unreadable.\<close>

definition unreadable :: "string \<Rightarrow> string option \<Rightarrow> string" where
  "unreadable path errcode =
     ''GITHUB_APP_PRIVATE_KEY_FILE points at '' @ path @ '', which could not be read ('' @
     (case errcode of None \<Rightarrow> ''unknown error'' | Some c \<Rightarrow> c) @ '')''"

definition resolveConfig ::
  "(string \<Rightarrow> url_parts option) \<Rightarrow> (string \<Rightarrow> string) \<Rightarrow> (string \<Rightarrow> string option + string) \<Rightarrow> env \<Rightarrow> string + AppConfig"
where
  "resolveConfig url_parse utf8_text read_file env =
     (let path = env_trim (env ''GITHUB_APP_PRIVATE_KEY_FILE'') in
      if path = [] \<or> truthy (env ''GITHUB_APP_PRIVATE_KEY'') then loadConfig url_parse utf8_text env
      else (case read_file path of
          Inl errcode \<Rightarrow> Inl (unreadable path errcode)
        | Inr content \<Rightarrow>
            (case loadConfig url_parse utf8_text (env(''GITHUB_APP_PRIVATE_KEY'' \<mapsto> js_trim content)) of
               Inl e \<Rightarrow> Inl (unreadable path None)
             | Inr c \<Rightarrow> Inr c)))"


section \<open>Facts\<close>

lemma pos_int_pos: "pos_int raw fb label = Inr n \<Longrightarrow> 0 < fb \<Longrightarrow> 0 < n"
  by (auto simp: pos_int_def is_integer_def split: option.splits if_splits)

lemma ends_with_iff: "ends_with s p \<longleftrightarrow> (\<exists>t. s = t @ p)"
  by (metis ends_with_def rev_append rev_rev_ident starts_with_iff)

lemma workspaceRootOf_absolute: "workspaceRootOf env = Inr (Some p) \<Longrightarrow> isAbsolute p"
  by (auto simp: workspaceRootOf_def Let_def split: if_splits)

text \<open>What an accepted authentication is, given the host it was accepted for.\<close>

definition auth_ok :: "env \<Rightarrow> string \<Rightarrow> AuthConfig \<Rightarrow> bool" where
  "auth_ok env host a = (case a of
      AuthNone t \<Rightarrow> host \<in> set LOOPBACK_HOSTS \<or> env_bool (env ''AUTH_ALLOW_PUBLIC_BIND'') False ''AUTH_ALLOW_PUBLIC_BIND'' = Inr True
    | AuthGitHub g \<Rightarrow> gh_clientId g \<noteq> [] \<and> gh_clientSecret g \<noteq> [] \<and> 32 \<le> length (gh_sessionSecret g) \<and>
        0 < gh_sessionTtlMs g \<and>
        (host \<in> set LOOPBACK_HOSTS \<or> env_trim (env ''PUBLIC_URL'') \<noteq> []))"

lemma loadAuth_ok:
  assumes "loadAuth url_parse env host port = Inr a"
  shows "auth_ok env host a"
proof -
  have "pos_int (env ''SESSION_TTL_HOURS'') DEFAULT_SESSION_TTL_HOURS ''SESSION_TTL_HOURS'' = Inr ttl \<Longrightarrow> 0 < ttl" for ttl
    using pos_int_pos by fastforce
  then show ?thesis
    using assms by (auto simp: loadAuth_def Let_def auth_ok_def trim_or_def split: if_splits)
qed

lemma loadGitHub_ok:
  "loadGitHub utf8_text env = Inr (GitHubAppMode g) \<Longrightarrow>
   ga_appId g \<noteq> [] \<and> is_pem (ga_privateKeyPem g) \<and> (\<forall>i. ga_installationId g = Some i \<longrightarrow> i \<noteq> [] \<and> list_all is_digit i) \<and>
   (\<forall>s. ga_apiUrl g \<noteq> s @ ''/'')"
  using strip_slashes_end
  by (auto simp: loadGitHub_def Let_def trim_or_null_def split: if_splits option.splits)

lemma org_id_not_reserved: "is_org_id s \<Longrightarrow> \<not> starts_with s RESERVED_ORG_PREFIX"
  by (auto simp: is_org_id_def is_lower_def is_digit_def split: list.splits)

text \<open>The parts a configuration that loads was made from.\<close>

lemma loadConfig_parts:
  assumes "loadConfig url_parse utf8_text env = Inr c"
  shows "removed_keys env = Inr ()" "is_org_id (ac_orgId c)"
    "workspaceRootOf env = Inr (ac_workspaceRoot c)" "\<not> truthy (env ''CACHE_TTL_SECONDS'')"
    "5000 \<le> ac_telemetryTtlMs c" "60000 \<le> ac_syncTtlMs c" "truthy (env ''DATABASE_URL'')"
    "ac_databaseUrl c = the (env ''DATABASE_URL'')" "loadGitHub utf8_text env = Inr (ac_github c)"
    "ac_github c = GitHubNone \<or>
       \<not> DISPOSABLE_DATABASE (case databaseName url_parse (ac_databaseUrl c) of None \<Rightarrow> [] | Some n \<Rightarrow> n)"
    "0 < ac_port c" "loadAuth url_parse env (ac_host c) (ac_port c) = Inr (ac_auth c)" "ac_orgName c \<noteq> []"
proof -
  have port: "pos_int (env ''PORT'') 8080 ''PORT'' = Inr p \<Longrightarrow> 0 < p" for p using pos_int_pos [of _ 8080] by simp
  have org: "is_org_id (trim_or (env ''ORG_ID'') DEFAULT_ORG_ID) \<Longrightarrow> trim_or (env ''ORG_NAME'') (trim_or (env ''ORG_ID'') DEFAULT_ORG_ID) \<noteq> []"
    by (auto simp: is_org_id_def trim_or_def split: if_splits)
  show "removed_keys env = Inr ()" "is_org_id (ac_orgId c)"
    "workspaceRootOf env = Inr (ac_workspaceRoot c)" "\<not> truthy (env ''CACHE_TTL_SECONDS'')"
    "5000 \<le> ac_telemetryTtlMs c" "60000 \<le> ac_syncTtlMs c" "truthy (env ''DATABASE_URL'')"
    "ac_databaseUrl c = the (env ''DATABASE_URL'')" "loadGitHub utf8_text env = Inr (ac_github c)"
    "ac_github c = GitHubNone \<or>
       \<not> DISPOSABLE_DATABASE (case databaseName url_parse (ac_databaseUrl c) of None \<Rightarrow> [] | Some n \<Rightarrow> n)"
    "0 < ac_port c" "loadAuth url_parse env (ac_host c) (ac_port c) = Inr (ac_auth c)" "ac_orgName c \<noteq> []"
    using assms port org unfolding loadConfig_def Let_def and_then_Inr throw_if_Inr
    by (elim exE conjE; force)+
qed

end
