(* ===== verification/Session.thy ===== *)
theory Session
  imports ServerConfig Fetch
begin

text \<open>
  Signed values, the OAuth state and the cookies, \<open>server/src/auth/session.ts\<close>. Bytes are characters
  below 256. The cryptographic functions of the platform are parameters: \<open>hmac key message\<close> (HMAC-SHA256, its
  digest as bytes) and, where tokens are stored, \<open>sha256\<close>; \<open>json_text\<close> and \<open>json_parse\<close> stand for
  \<open>JSON.stringify\<close> and \<open>JSON.parse\<close> (\<open>None\<close> where it throws), \<open>utf8_text\<close> for \<open>toString('utf8')\<close>. Random bytes are arguments.
\<close>

section \<open>Bytes and base64url\<close>

definition b64_char :: "nat \<Rightarrow> char" where
  "b64_char n = (if n < 26 then char_of (n + 65) else if n < 52 then char_of (n + 71)
     else if n < 62 then char_of (n - 4) else if n = 62 then CHR ''-'' else CHR ''_'')"

fun sextets :: "nat list \<Rightarrow> nat list" where
  "sextets (a # b # c # r) =
     [a div 4, (a mod 4) * 16 + b div 16, (b mod 16) * 4 + c div 64, c mod 64] @ sextets r"
| "sextets [a, b] = [a div 4, (a mod 4) * 16 + b div 16, (b mod 16) * 4]"
| "sextets [a] = [a div 4, (a mod 4) * 16]"
| "sextets [] = []"

definition b64url :: "string \<Rightarrow> string" where
  "b64url bs = map b64_char (sextets (map of_char bs))"

section \<open>Signed values\<close>

abbreviation SESSION_COOKIE :: string where "SESSION_COOKIE \<equiv> ''factory_session''"
abbreviation OAUTH_COOKIE :: string where "OAUTH_COOKIE \<equiv> ''factory_oauth''"
abbreviation OAUTH_TTL_SECONDS :: int where "OAUTH_TTL_SECONDS \<equiv> 600"

type_synonym digest = "string \<Rightarrow> string"
type_synonym keyed_digest = "string \<Rightarrow> string \<Rightarrow> string"

definition mintToken :: "string \<Rightarrow> string" where
  "mintToken random32 = b64url random32"

definition hashToken :: "digest \<Rightarrow> string \<Rightarrow> string" where
  "hashToken sha256 token = sha256 (utf8 token)"

definition mac :: "keyed_digest \<Rightarrow> string \<Rightarrow> string \<Rightarrow> string" where
  "mac hmac value secret = b64url (hmac (utf8 secret) (utf8 value))"

definition sign :: "keyed_digest \<Rightarrow> string \<Rightarrow> string \<Rightarrow> string" where
  "sign hmac value secret = value @ ''.'' @ mac hmac value secret"

text \<open>\<open>s.lastIndexOf(c)\<close>, and the comparison of two texts as bytes, with its length check.\<close>

definition lastIndexOf :: "char \<Rightarrow> string \<Rightarrow> int" where
  "lastIndexOf c s =
     (if c \<in> set s then int (length s) - 1 - int (length (takeWhile (\<lambda>d. d \<noteq> c) (rev s))) else - 1)"

definition same_bytes :: "string \<Rightarrow> string \<Rightarrow> bool" where
  "same_bytes a b \<longleftrightarrow> (if length (utf8 a) \<noteq> length (utf8 b) then False else utf8 a = utf8 b)"

definition unsign :: "keyed_digest \<Rightarrow> string option \<Rightarrow> string \<Rightarrow> string option" where
  "unsign hmac signed_value secret =
     (if \<not> truthy signed_value then None
      else let s = the signed_value; cut_at = lastIndexOf (CHR ''.'') s in
        if cut_at \<le> 0 then None
        else let value = take (nat cut_at) s in
          if same_bytes (drop (nat cut_at + 1) s) (mac hmac value secret) then Some value else None)"

definition safeReturnPath :: "string option \<Rightarrow> string" where
  "safeReturnPath raw =
     (if \<not> truthy raw \<or> \<not> starts_with (the raw) ''/'' \<or> starts_with (the raw) ''//'' then ''/'' else the raw)"

section \<open>The OAuth state\<close>

definition state_payload :: "string \<Rightarrow> string \<Rightarrow> json" where
  "state_payload nonce returnTo =
     JObj [(''n'', JStr (b64url nonce)), (''r'', JStr (safeReturnPath (Some returnTo)))]"

definition encodeState :: "keyed_digest \<Rightarrow> (json \<Rightarrow> string) \<Rightarrow> string \<Rightarrow> string \<Rightarrow> string \<Rightarrow> string" where
  "encodeState hmac json_text nonce returnTo secret =
     sign hmac (b64url (utf8 (json_text (state_payload nonce returnTo)))) secret"

text \<open>
  \<open>safeReturnPath(payload.r)\<close> on whatever was parsed: \<open>None\<close> is the error of reading a member of \<open>null\<close> or
  of calling \<open>startsWith\<close> on a truthy value that is not a string.
\<close>

definition payload_path :: "json \<Rightarrow> string option" where
  "payload_path j =
     (case j of
        JNull \<Rightarrow> None
      | JObj m \<Rightarrow>
          (case member_of ''r'' m of
             Some (JStr s) \<Rightarrow> Some (safeReturnPath (Some s))
           | Some (JBool True) \<Rightarrow> None
           | Some (JNum q) \<Rightarrow> if q = 0 then Some (safeReturnPath None) else None
           | Some (JArr a) \<Rightarrow> None
           | Some (JObj o') \<Rightarrow> None
           | _ \<Rightarrow> Some (safeReturnPath None))
      | _ \<Rightarrow> Some (safeReturnPath None))"

definition decodeState ::
  "keyed_digest \<Rightarrow> (string \<Rightarrow> string) \<Rightarrow> (string \<Rightarrow> json option) \<Rightarrow> string option \<Rightarrow> string \<Rightarrow> string option"
where
  "decodeState hmac utf8_text json_parse signed_value secret =
     (case unsign hmac signed_value secret of
        None \<Rightarrow> None
      | Some value \<Rightarrow>
          if value = [] then None
          else (case json_parse (utf8_text (base64_decode value)) of
              None \<Rightarrow> None
            | Some parsed \<Rightarrow> payload_path parsed))"

definition statesMatch :: "string option \<Rightarrow> string option \<Rightarrow> bool" where
  "statesMatch fromQuery fromCookie \<longleftrightarrow>
     truthy fromQuery \<and> truthy fromCookie \<and> same_bytes (the fromQuery) (the fromCookie)"

section \<open>Cookies\<close>

record cookie_options =
  ck_path :: string
  ck_httpOnly :: bool
  ck_sameSite :: string
  ck_secure :: bool
  ck_maxAge :: int

definition sessionCookieOptions :: "bool \<Rightarrow> int \<Rightarrow> cookie_options" where
  "sessionCookieOptions secure maxAgeSeconds =
     \<lparr>ck_path = ''/'', ck_httpOnly = True, ck_sameSite = ''lax'', ck_secure = secure, ck_maxAge = maxAgeSeconds\<rparr>"

definition oauthCookieOptions :: "bool \<Rightarrow> cookie_options" where
  "oauthCookieOptions secure =
     \<lparr>ck_path = ''/api/auth'', ck_httpOnly = True, ck_sameSite = ''lax'', ck_secure = secure, ck_maxAge = OAUTH_TTL_SECONDS\<rparr>"

section \<open>Facts\<close>

lemma base64_val_char: "n < 64 \<Longrightarrow> base64_val (b64_char n) = Some n"
  by (auto simp: b64_char_def base64_val_def Let_def)

lemma b64_char_no_dot: "n < 64 \<Longrightarrow> b64_char n \<noteq> CHR ''.''"
proof
  assume "n < 64" "b64_char n = CHR ''.''"
  then have "base64_val (CHR ''.'') = Some n" using base64_val_char [of n] by simp
  then show False by (simp add: base64_val_def)
qed

lemma sextet_bound:
  fixes a b c :: nat
  assumes "a < 256" "b < 256" "c < 256"
  shows "a div 4 < 64" "(a mod 4) * 16 + b div 16 < 64" "(b mod 16) * 4 + c div 64 < 64" "c mod 64 < 64"
    "(a mod 4) * 16 < 64" "(b mod 16) * 4 < 64"
proof -
  have "a mod 4 < 4" "b mod 16 < 16" by simp_all
  moreover have "a div 4 < 64" "b div 16 < 16" "c div 64 < 4" using assms by (simp_all add: less_mult_imp_div_less)
  ultimately show "a div 4 < 64" "(a mod 4) * 16 + b div 16 < 64" "(b mod 16) * 4 + c div 64 < 64" "c mod 64 < 64"
    "(a mod 4) * 16 < 64" "(b mod 16) * 4 < 64" by linarith+
qed

lemma sextets_bound: "list_all (\<lambda>n. n < 256) xs \<Longrightarrow> list_all (\<lambda>n. n < 64) (sextets xs)"
proof (induction xs rule: sextets.induct)
  case (1 a b c r)
  then show ?case using sextet_bound [of a b c] by simp
next
  case (2 a b)
  then show ?case using sextet_bound [of a b 0] by simp
next
  case (3 a)
  then show ?case using sextet_bound [of a 0 0] by simp
qed simp

lemma sextet_bytes:
  fixes a b c :: nat
  assumes "a < 256" "b < 256" "c < 256"
  shows "(a div 4) * 4 + ((a mod 4) * 16 + b div 16) div 16 = a"
    "(((a mod 4) * 16 + b div 16) mod 16) * 16 + ((b mod 16) * 4 + c div 64) div 4 = b"
    "(((b mod 16) * 4 + c div 64) mod 4) * 64 + c mod 64 = c"
proof -
  have d: "b div 16 < 16" "c div 64 < 4" using assms by (simp_all add: less_mult_imp_div_less)
  show "(a div 4) * 4 + ((a mod 4) * 16 + b div 16) div 16 = a" using d(1) by simp
  have "((a mod 4) * 16 + b div 16) mod 16 = b div 16" using d(1) by simp
  moreover have "((b mod 16) * 4 + c div 64) div 4 = b mod 16" using d(2) by simp
  ultimately show "(((a mod 4) * 16 + b div 16) mod 16) * 16 + ((b mod 16) * 4 + c div 64) div 4 = b" by simp
  have "((b mod 16) * 4 + c div 64) mod 4 = c div 64" using d(2) by simp
  then show "(((b mod 16) * 4 + c div 64) mod 4) * 64 + c mod 64 = c" by simp
qed

lemma bytes_of_sextets: "list_all (\<lambda>n. n < 256) xs \<Longrightarrow> base64_bytes (sextets xs) = xs"
proof (induction xs rule: sextets.induct)
  case (1 a b c r)
  then show ?case using sextet_bytes [of a b c] by simp
next
  case (2 a b)
  then show ?case using sextet_bytes(1) [of a b 0] sextet_bytes(2) [of a b 0] by simp
next
  case (3 a)
  then show ?case using sextet_bytes(1) [of a 0 0] by simp
qed simp

lemma byte_list: "list_all (\<lambda>n. n < 256) (map (of_char :: char \<Rightarrow> nat) bs)"
  by (simp add: list_all_iff)

lemma map_filter_base64: "list_all (\<lambda>n. n < 64) ns \<Longrightarrow> List.map_filter base64_val (map b64_char ns) = ns"
  by (induction ns) (auto simp: List.map_filter_simps base64_val_char)

text \<open>Decoding undoes encoding, and an encoded text has no dot.\<close>

lemma base64_roundtrip: "base64_decode (b64url bs) = bs"
  using bytes_of_sextets [OF byte_list [of bs]] map_filter_base64 [OF sextets_bound [OF byte_list [of bs]]]
  by (simp add: base64_decode_def b64url_def o_def)

lemma b64url_no_dot: "CHR ''.'' \<notin> set (b64url bs)"
  using sextets_bound [OF byte_list [of bs]] b64_char_no_dot by (force simp: b64url_def list_all_iff)

lemma b64url_Nil: "b64url bs = [] \<longleftrightarrow> bs = []"
  by (metis base64_roundtrip b64url_def list.map_disc_iff map_is_Nil_conv sextets.simps(4) list.simps(8))


text \<open>The UTF-8 bytes determine the string.\<close>

lemma utf8_char_prefix: "utf8_char c @ xs = utf8_char d @ ys \<Longrightarrow> c = d \<and> xs = ys"
proof -
  assume eq: "utf8_char c @ xs = utf8_char d @ ys"
  define m n where "m = (of_char c :: nat)" and "n = (of_char d :: nat)"
  have lt: "m < 256" "n < 256" by (simp_all add: m_def n_def)
  have cd: "c = char_of m" "d = char_of n" by (simp_all add: m_def n_def)
  have hi: "(192 + k div 64) mod 256 = 192 + k div 64 \<and> (128 + k mod 64) mod 256 = 128 + k mod 64" if "k < 256" for k :: nat
    using that by auto
  have hd_c: "of_char (hd (utf8_char c @ xs)) = (if m < 128 then m else 192 + m div 64)"
    using hi [OF lt(1)] lt(1) by (simp add: utf8_char_def m_def Let_def of_char_of)
  have hd_d: "of_char (hd (utf8_char d @ ys)) = (if n < 128 then n else 192 + n div 64)"
    using hi [OF lt(2)] lt(2) by (simp add: utf8_char_def n_def Let_def of_char_of)
  have e1: "(if m < 128 then m else 192 + m div 64) = (if n < 128 then n else 192 + n div 64)"
    using hd_c hd_d eq by simp
  show "c = d \<and> xs = ys"
  proof (cases "m < 128")
    case True
    then have "n < 128" using e1 by (simp split: if_splits)
    then show ?thesis using True e1 eq by (simp add: utf8_char_def Let_def m_def n_def)
  next
    case False
    then have n: "\<not> n < 128" using e1 by (simp split: if_splits)
    have len: "utf8_char c = [char_of (192 + m div 64), char_of (128 + m mod 64)]"
        "utf8_char d = [char_of (192 + n div 64), char_of (128 + n mod 64)]"
      using False n by (simp_all add: utf8_char_def Let_def m_def n_def)
    then have "(char_of (128 + m mod 64) :: char) = char_of (128 + n mod 64)" and tails: "xs = ys" using eq by simp_all
    then have "(128 + m mod 64) mod 256 = (128 + n mod 64) mod 256" by (metis of_char_of)
    then have "m mod 64 = n mod 64" using hi [OF lt(1)] hi [OF lt(2)] by simp
    moreover have "m div 64 = n div 64" using e1 False n by simp
    ultimately have "m = n" by (metis div_mult_mod_eq)
    then show ?thesis using cd tails by simp
  qed
qed

lemma utf8_inject: "utf8 s = utf8 t \<Longrightarrow> s = t"
proof (induction s arbitrary: t)
  case Nil
  then show ?case by (cases t) (auto simp: utf8_def utf8_char_def Let_def split: if_splits)
next
  case (Cons c s)
  then obtain d u where t: "t = d # u" by (cases t) (auto simp: utf8_def utf8_char_def Let_def split: if_splits)
  have "utf8_char c @ utf8 s = utf8_char d @ utf8 u" using Cons.prems t by (simp add: utf8_def)
  then show ?case using Cons.IH utf8_char_prefix t by blast
qed

lemma same_bytes_eq [simp]: "same_bytes a b \<longleftrightarrow> a = b"
  using utf8_inject by (auto simp: same_bytes_def)

lemma takeWhile_rev_last:
  "c \<notin> set m \<Longrightarrow> takeWhile (\<lambda>d. d \<noteq> c) (rev (v @ c # m)) = rev m"
  by (simp add: takeWhile_append)

lemma lastIndexOf_last: "c \<notin> set m \<Longrightarrow> lastIndexOf c (v @ c # m) = int (length v)"
  unfolding lastIndexOf_def takeWhile_rev_last by simp

lemma split_at_last:
  assumes "c \<in> set s"
  shows "s = take (nat (lastIndexOf c s)) s @ c # drop (nat (lastIndexOf c s) + 1) s"
proof -
  obtain v m where s: "s = v @ c # m" "c \<notin> set m" using split_list_last [OF assms] by blast
  then show ?thesis using lastIndexOf_last [OF s(2), of v] by simp
qed

lemma mac_no_dot: "CHR ''.'' \<notin> set (mac hmac v k)"
  by (simp add: mac_def b64url_no_dot)

lemma unsign_iff:
  "unsign hmac sv secret = Some v \<longleftrightarrow> v \<noteq> [] \<and> sv = Some (sign hmac v secret)"
proof
  assume u: "unsign hmac sv secret = Some v"
  then obtain s where s: "sv = Some s" by (auto simp: unsign_def truthy_def split: if_splits)
  let ?i = "lastIndexOf (CHR ''.'') s"
  have i: "0 < ?i" "v = take (nat ?i) s" "drop (nat ?i + 1) s = mac hmac v secret"
    using u s by (auto simp: unsign_def Let_def split: if_splits)
  have "CHR ''.'' \<in> set s" using i(1) by (simp add: lastIndexOf_def split: if_splits)
  from split_at_last [OF this] have eq: "s = v @ CHR ''.'' # mac hmac v secret" using i(2,3) by metis
  have "?i = int (length v)" using lastIndexOf_last [OF mac_no_dot] eq by metis
  then show "v \<noteq> [] \<and> sv = Some (sign hmac v secret)" using i(1) s eq by (auto simp: sign_def)
next
  assume "v \<noteq> [] \<and> sv = Some (sign hmac v secret)"
  then show "unsign hmac sv secret = Some v"
    using lastIndexOf_last [OF mac_no_dot, of v hmac v secret]
    by (simp add: unsign_def sign_def truthy_def Let_def)
qed

definition local_path :: "string \<Rightarrow> bool" where
  "local_path p \<longleftrightarrow> starts_with p ''/'' \<and> \<not> starts_with p ''//''"

lemma safeReturnPath_local: "local_path (safeReturnPath raw)"
  by (auto simp: safeReturnPath_def local_path_def)

lemma safeReturnPath_idem [simp]: "safeReturnPath (Some (safeReturnPath raw)) = safeReturnPath raw"
  by (auto simp: safeReturnPath_def truthy_def)

lemma payload_path_local: "payload_path j = Some p \<Longrightarrow> local_path p"
  using safeReturnPath_local by (auto simp: payload_path_def split: json.splits option.splits bool.splits if_splits)

lemma state_roundtrip:
  assumes "json_parse (utf8_text (utf8 (json_text (state_payload nonce r)))) = Some (state_payload nonce r)"
    and "json_text (state_payload nonce r) \<noteq> []"
  shows "decodeState hmac utf8_text json_parse (Some (encodeState hmac json_text nonce r secret)) secret =
    Some (safeReturnPath (Some r))"
proof -
  let ?v = "b64url (utf8 (json_text (state_payload nonce r)))"
  have ne: "?v \<noteq> []" using assms(2) utf8_inject [of "json_text (state_payload nonce r)" "[]"] by (auto simp: b64url_Nil utf8_def)
  have "unsign hmac (Some (sign hmac ?v secret)) secret = Some ?v" using ne by (simp add: unsign_iff)
  then show ?thesis
    using ne assms(1)
    by (simp add: decodeState_def encodeState_def base64_roundtrip payload_path_def state_payload_def member_of_def)
qed

end
