(* ===== verification/AuthPlugin.thy ===== *)
theory AuthPlugin
  imports Session AuthStore
begin

text \<open>
  Who is making a request and whether it continues, \<open>server/src/auth/plugin.ts\<close>: the table of requirements,
  the resolution of a user and the \<open>onRequest\<close> hook. The stand-in account of \<open>AUTH_MODE=none\<close> is read
  from the store once: what that read came to, a refusal of the database included, is what the resolver keeps.
\<close>

datatype Principal = PrUser Caller | PrWorker WorkerIdentity

record request =
  rq_url :: string
  rq_cookie :: "string \<Rightarrow> string option"
  rq_authorization :: "string option"
  rq_ingestToken :: "string option"

section \<open>The requirement of a path\<close>

datatype Requirement = NeedsNothing | NeedsUser | NeedsWorker | NeedsIngest

definition is_worker_route :: "string \<Rightarrow> bool" where
  "is_worker_route p \<longleftrightarrow> p = ''/api/jobs/claim'' \<or>
     (case split_on (CHR ''/'') p of
        [e, a, j, i, act] \<Rightarrow> e = [] \<and> a = ''api'' \<and> j = ''jobs'' \<and> i \<noteq> [] \<and>
          act \<in> set [''heartbeat'', ''session'', ''suspend'', ''complete'']
      | _ \<Rightarrow> False)"

definition is_ingest_route :: "string \<Rightarrow> bool" where
  "is_ingest_route p \<longleftrightarrow> starts_with p ''/api/otlp/'' \<or> p = ''/api/sessions/branch''"

definition is_open_route :: "string \<Rightarrow> bool" where
  "is_open_route p \<longleftrightarrow> p = ''/api/health'' \<or> starts_with p ''/api/auth/''"

definition requirementFor :: "string \<Rightarrow> Requirement" where
  "requirementFor path =
     (if \<not> starts_with path ''/api/'' then NeedsNothing
      else if is_open_route path then NeedsNothing
      else if is_worker_route path then NeedsWorker
      else if is_ingest_route path then NeedsIngest
      else NeedsUser)"

definition pathOf :: "string \<Rightarrow> string" where
  "pathOf url = takeWhile (\<lambda>c. c \<noteq> CHR ''?'') url"

definition secretsMatch :: "string \<Rightarrow> string \<Rightarrow> bool" where
  "secretsMatch provided expected \<longleftrightarrow> same_bytes provided expected"

definition bearer :: "request \<Rightarrow> string option" where
  "bearer req =
     (case rq_authorization req of
        None \<Rightarrow> None
      | Some h \<Rightarrow>
          if \<not> starts_with h ''Bearer '' then None
          else if js_trim (drop 7 h) = [] then None else Some (js_trim (drop 7 h)))"

section \<open>The hook\<close>

text \<open>
  What the hook needs: the digests of the platform, the time of the database, the message with which it refuses
  a statement when it does, and what the resolver kept of its read of the stand-in account.
\<close>

record auth_env =
  ae_hmac :: keyed_digest
  ae_sha256 :: digest
  ae_now :: int
  ae_down :: "string option"
  ae_local :: "(string + Caller option) option"

definition auth_read :: "auth_env \<Rightarrow> 'a \<Rightarrow> string + 'a" where
  "auth_read env v = (case ae_down env of Some e \<Rightarrow> Inl e | None \<Rightarrow> Inr v)"

definition local_answer :: "AppConfig \<Rightarrow> auth_env \<Rightarrow> auth_db \<Rightarrow> string + Caller option" where
  "local_answer config env db =
     (case ae_local env of
        Some kept \<Rightarrow> kept
      | None \<Rightarrow> auth_read env (localCaller (ac_orgId config) db))"

definition resolveUser :: "AppConfig \<Rightarrow> auth_env \<Rightarrow> request \<Rightarrow> auth_db \<Rightarrow> string + Caller option" where
  "resolveUser config env req db =
     (case ac_auth config of
        AuthNone t \<Rightarrow> local_answer config env db
      | AuthGitHub g \<Rightarrow>
          (case unsign (ae_hmac env) (rq_cookie req SESSION_COOKIE) (gh_sessionSecret g) of
             None \<Rightarrow> Inr None
           | Some token \<Rightarrow>
               if token = [] then Inr None
               else auth_read env (findSession (hashToken (ae_sha256 env) token) (ac_orgId config) (ae_now env) db)))"

text \<open>The resolver after a request it answered.\<close>

definition resolver_after :: "AppConfig \<Rightarrow> auth_env \<Rightarrow> auth_db \<Rightarrow> auth_env" where
  "resolver_after config env db =
     (case ac_auth config of AuthNone t \<Rightarrow> env\<lparr>ae_local := Some (local_answer config env db)\<rparr> | AuthGitHub g \<Rightarrow> env)"

text \<open>A hook that throws ends the request with a 500.\<close>

datatype hook_result = Continues "Principal option" | Answers reply | Throws string

definition unauthenticated :: "string \<Rightarrow> reply" where
  "unauthenticated err = bad ''UNAUTHENTICATED'' err 401"

definition worker_hook :: "AppConfig \<Rightarrow> auth_env \<Rightarrow> request \<Rightarrow> auth_db \<Rightarrow> hook_result \<times> auth_db" where
  "worker_hook config env req db =
     (case ac_auth config of
        AuthNone t \<Rightarrow> (Continues None, db)
      | AuthGitHub g \<Rightarrow>
          (case bearer req of
             None \<Rightarrow> (Answers (unauthenticated ''Invalid worker token''), db)
           | Some token \<Rightarrow>
               (case (case ae_down env of Some e \<Rightarrow> (Inl e, db)
                      | None \<Rightarrow> map_prod Inr id (findWorkerToken (hashToken (ae_sha256 env) token) (ae_now env) db)) of
                  (Inl e, db') \<Rightarrow> (Throws e, db')
                | (Inr worker, db') \<Rightarrow>
                    (case worker of
                       None \<Rightarrow> (Answers (unauthenticated ''Invalid worker token''), db')
                     | Some w \<Rightarrow>
                         if wi_orgId w \<noteq> ac_orgId config then (Answers (unauthenticated ''Invalid worker token''), db')
                         else (Continues (Some (PrWorker w)), db')))))"

definition ingest_hook :: "AppConfig \<Rightarrow> request \<Rightarrow> hook_result" where
  "ingest_hook config req =
     (if \<not> truthy (auth_ingestToken (ac_auth config)) then Continues None
      else (case rq_ingestToken req of
          Some provided \<Rightarrow>
            if secretsMatch provided (the (auth_ingestToken (ac_auth config))) then Continues None
            else Answers (unauthenticated ''Invalid ingest token'')
        | None \<Rightarrow> Answers (unauthenticated ''Invalid ingest token'')))"

definition onRequest :: "AppConfig \<Rightarrow> auth_env \<Rightarrow> request \<Rightarrow> auth_db \<Rightarrow> hook_result \<times> auth_db" where
  "onRequest config env req db =
     (case requirementFor (pathOf (rq_url req)) of
        NeedsNothing \<Rightarrow> (Continues None, db)
      | NeedsIngest \<Rightarrow> (ingest_hook config req, db)
      | NeedsWorker \<Rightarrow> worker_hook config env req db
      | NeedsUser \<Rightarrow>
          (case resolveUser config env req db of
             Inl e \<Rightarrow> (Throws e, db)
           | Inr None \<Rightarrow> (Answers (unauthenticated ''Sign in required''), db)
           | Inr (Some caller) \<Rightarrow> (Continues (Some (PrUser caller)), db)))"

definition callerOf :: "Principal option \<Rightarrow> Caller option" where
  "callerOf auth = (case auth of Some (PrUser c) \<Rightarrow> Some c | _ \<Rightarrow> None)"

text \<open>
  Without accounts, a database that cannot answer the first request keeps the server from answering any
  later one, however long it has been back.
\<close>

lemma refused_local_read_is_kept:
  assumes "ac_auth config = AuthNone t" "ae_local env = None" "ae_down env = Some e"
  shows "resolveUser config ((resolver_after config env db)\<lparr>ae_down := None\<rparr>) req db' = Inl e"
  using assms by (simp add: resolver_after_def resolveUser_def local_answer_def auth_read_def)

end
