(* ===== verification/OAuthClient.thy ===== *)
theory OAuthClient
  imports ServerConfig Fetch AuthStore
begin

text \<open>
  The two calls of the OAuth exchange and the membership lookup, \<open>server/src/auth/github.ts\<close>, over the
  platform's \<open>fetch\<close>. \<open>with_params\<close> stands for \<open>new URL(s)\<close> with its search parameters set in the order given.
  A member of a response that the code takes for a text and that is of another type reads as absent.
\<close>

definition callbackPath :: string where
  "callbackPath = ''/api/auth/github/callback''"

definition redirectUri :: "GitHubAuth \<Rightarrow> string" where
  "redirectUri auth = gh_publicUrl auth @ callbackPath"

definition authorizeUrl :: "(string \<Rightarrow> (string \<times> string) list \<Rightarrow> string) \<Rightarrow> GitHubAuth \<Rightarrow> string \<Rightarrow> string" where
  "authorizeUrl with_params auth state =
     with_params (gh_authorizeUrl auth)
       ([(''client_id'', gh_clientId auth), (''redirect_uri'', redirectUri auth), (''state'', state)] @
        (if truthy (gh_autoJoinGithubOrg auth) then [(''scope'', ''read:org'')] else []))"

text \<open>Reading a member of the body: an error when the body is \<open>null\<close>.\<close>

definition body_members :: "http_response \<Rightarrow> string + (string \<times> json) list" where
  "body_members r =
     (case hr_json r of
        None \<Rightarrow> Inl json_error
      | Some JNull \<Rightarrow> Inl ''Cannot read properties of null''
      | Some (JObj m) \<Rightarrow> Inr m
      | Some _ \<Rightarrow> Inr [])"

definition exchange_request :: "GitHubAuth \<Rightarrow> string \<Rightarrow> http_request" where
  "exchange_request auth authCode =
     \<lparr>hq_method = ''POST'', hq_url = gh_tokenUrl auth,
      hq_headers = [(''accept'', ''application/json''), (''content-type'', ''application/json'')],
      hq_body = Some (JObj [(''client_id'', JStr (gh_clientId auth)), (''client_secret'', JStr (gh_clientSecret auth)),
        (''code'', JStr authCode), (''redirect_uri'', JStr (redirectUri auth))])\<rparr>"

definition token_of_body :: "(string \<times> json) list \<Rightarrow> string + string" where
  "token_of_body m =
     (if truthy (str_member ''access_token'' m) then Inr (the (str_member ''access_token'' m))
      else Inl (case str_member ''error_description'' m of Some s \<Rightarrow> s
                | None \<Rightarrow> (case str_member ''error'' m of Some s \<Rightarrow> s | None \<Rightarrow> ''no access token returned'')))"

definition exchange :: "GitHubAuth \<Rightarrow> 'w fetch \<Rightarrow> string \<Rightarrow> 'w \<Rightarrow> (string + string) \<times> 'w" where
  "exchange auth fetch authCode w =
     (case fetch (exchange_request auth authCode) w of
        (Inl e, w') \<Rightarrow> (Inl e, w')
      | (Inr r, w') \<Rightarrow>
          if \<not> response_ok r then (Inl (''token exchange failed with '' @ nat_str (hr_status r)), w')
          else (and_then (body_members r) token_of_body, w'))"

definition api_request :: "string \<Rightarrow> string \<Rightarrow> http_request" where
  "api_request accessToken url =
     \<lparr>hq_method = ''GET'', hq_url = url,
      hq_headers = [(''authorization'', ''Bearer '' @ accessToken), (''accept'', ''application/vnd.github+json''),
        (''user-agent'', ''factory-ai'')],
      hq_body = None\<rparr>"

definition identity_of_body :: "(string \<times> json) list \<Rightarrow> string + GitHubIdentity" where
  "identity_of_body m =
     (case member_of ''id'' m of
        Some (JNum n) \<Rightarrow>
          if truthy (str_member ''login'' m)
          then Inr \<lparr>gi_githubUserId = n, gi_login = the (str_member ''login'' m),
                 gi_displayName = str_member ''name'' m, gi_avatarUrl = str_member ''avatar_url'' m\<rparr>
          else Inl ''identity response carried no id or login''
      | _ \<Rightarrow> Inl ''identity response carried no id or login'')"

definition identity_lookup :: "GitHubAuth \<Rightarrow> 'w fetch \<Rightarrow> string \<Rightarrow> 'w \<Rightarrow> (string + GitHubIdentity) \<times> 'w" where
  "identity_lookup auth fetch accessToken w =
     (case fetch (api_request accessToken (gh_userUrl auth)) w of
        (Inl e, w') \<Rightarrow> (Inl e, w')
      | (Inr r, w') \<Rightarrow>
          if \<not> response_ok r then (Inl (''identity lookup failed with '' @ nat_str (hr_status r)), w')
          else (and_then (body_members r) identity_of_body, w'))"

datatype OrgMembership = OmActive | OmPending | OmNone

definition membership_of_body :: "(string \<times> json) list \<Rightarrow> OrgMembership" where
  "membership_of_body m =
     (if str_member ''state'' m = Some ''active'' then OmActive
      else if str_member ''state'' m = Some ''pending'' then OmPending else OmNone)"

definition orgMembership :: "GitHubAuth \<Rightarrow> 'w fetch \<Rightarrow> string \<Rightarrow> string \<Rightarrow> 'w \<Rightarrow> (string + OrgMembership) \<times> 'w" where
  "orgMembership auth fetch accessToken org w =
     (case fetch (api_request accessToken (gh_userUrl auth @ ''/memberships/orgs/'' @ encodeURIComponent org)) w of
        (Inl e, w') \<Rightarrow> (Inl e, w')
      | (Inr r, w') \<Rightarrow>
          if hr_status r = 404 \<or> hr_status r = 403 then (Inr OmNone, w')
          else if \<not> response_ok r then (Inl (''org membership lookup failed with '' @ nat_str (hr_status r)), w')
          else (map_sum id membership_of_body (body_members r), w'))"

end
