(* ===== verification/FileSystem.thy ===== *)
theory FileSystem
  imports NodePath
begin

text \<open>
  What the server uses of \<open>node:fs\<close>: a file system is the list of its entries by absolute path, and the
  paths the operating system refuses to write to. \<open>Inl\<close> is the error a call throws.
\<close>

datatype fs_node = FsDir | FsFile string

record fs =
  fs_nodes :: "(string \<times> fs_node) list"
  fs_refuses :: "string \<Rightarrow> bool"

definition fs_at :: "string \<Rightarrow> fs \<Rightarrow> fs_node option" where
  "fs_at p f = map_of (fs_nodes f) p"

definition existsSync :: "string \<Rightarrow> fs \<Rightarrow> bool" where
  "existsSync p f \<longleftrightarrow> fs_at p f \<noteq> None"

definition fs_put :: "string \<Rightarrow> fs_node \<Rightarrow> fs \<Rightarrow> fs" where
  "fs_put p n f = f\<lparr>fs_nodes := map_set p n (fs_nodes f)\<rparr>"

text \<open>The paths \<open>p\<close> goes through, outermost first, and whether a path lies at or below another.\<close>

definition path_prefixes :: "string \<Rightarrow> string list" where
  "path_prefixes p =
     (let ss = path_segments False p in
      map (\<lambda>n. ''/'' @ join_with ''/'' (take n ss)) [1..<length ss + 1])"

definition at_or_below :: "string \<Rightarrow> string \<Rightarrow> bool" where
  "at_or_below p q \<longleftrightarrow> q = p \<or> starts_with q (p @ ''/'')"

text \<open>\<open>mkdirSync(p, { recursive: true })\<close>: the first directory it made, or none.\<close>

fun make_dirs :: "string list \<Rightarrow> string option \<Rightarrow> fs \<Rightarrow> (string + string option) \<times> fs" where
  "make_dirs [] made f = (Inr made, f)"
| "make_dirs (p # ps) made f =
     (case fs_at p f of
        Some FsDir \<Rightarrow> make_dirs ps made f
      | Some (FsFile c) \<Rightarrow> (Inl (''EEXIST: file already exists, mkdir '' @ p), f)
      | None \<Rightarrow>
          if fs_refuses f p then (Inl (''EACCES: permission denied, mkdir '' @ p), f)
          else make_dirs ps (case made of None \<Rightarrow> Some p | Some q \<Rightarrow> Some q) (fs_put p FsDir f))"

definition mkdirSync :: "string \<Rightarrow> fs \<Rightarrow> (string + string option) \<times> fs" where
  "mkdirSync p f = make_dirs (path_prefixes p) None f"

definition writeFileSync :: "string \<Rightarrow> string \<Rightarrow> fs \<Rightarrow> (string + unit) \<times> fs" where
  "writeFileSync p content f =
     (if fs_at p f = Some FsDir then (Inl (''EISDIR: illegal operation on a directory, open '' @ p), f)
      else if fs_refuses f p then (Inl (''EACCES: permission denied, open '' @ p), f)
      else (Inr (), fs_put p (FsFile content) f))"

text \<open>\<open>rmSync(p, { recursive: true, force: true })\<close>, \<open>renameSync\<close> and \<open>readdirSync\<close>.\<close>

definition rmSync :: "string \<Rightarrow> fs \<Rightarrow> fs" where
  "rmSync p f = f\<lparr>fs_nodes := filter (\<lambda>(q, n). \<not> at_or_below p q) (fs_nodes f)\<rparr>"

definition renameSync :: "string \<Rightarrow> string \<Rightarrow> fs \<Rightarrow> (string + unit) \<times> fs" where
  "renameSync p q f =
     (if \<not> existsSync p f then (Inl (''ENOENT: no such file or directory, rename '' @ p), f)
      else (Inr (), f\<lparr>fs_nodes :=
        map (\<lambda>(r, n). (if at_or_below p r then q @ drop (length p) r else r, n))
          (filter (\<lambda>(r, n). \<not> at_or_below q r) (fs_nodes f))\<rparr>))"

definition child_of :: "string \<Rightarrow> string \<Rightarrow> string option" where
  "child_of p q =
     (if starts_with q (p @ ''/'') \<and> CHR ''/'' \<notin> set (drop (length p + 1) q) \<and> drop (length p + 1) q \<noteq> []
      then Some (drop (length p + 1) q) else None)"

definition readdirSync :: "string \<Rightarrow> fs \<Rightarrow> string + string list" where
  "readdirSync p f =
     (if fs_at p f = Some FsDir then Inr (List.map_filter (child_of p) (map fst (fs_nodes f)))
      else Inl (''ENOENT: no such file or directory, scandir '' @ p))"

section \<open>Facts\<close>

lemma fs_at_put [simp]: "fs_at q (fs_put p n f) = (if q = p then Some n else fs_at q f)"
  by (simp add: fs_at_def fs_put_def)

lemma fs_refuses_put [simp]: "fs_refuses (fs_put p n f) = fs_refuses f"
  by (simp add: fs_put_def)

lemma map_of_filter_key: "map_of (filter (\<lambda>(q, n). P q) xs) p = (if P p then map_of xs p else None)"
  by (induction xs) auto

lemma fs_at_rm: "fs_at q (rmSync p f) = (if at_or_below p q then None else fs_at q f)"
  by (simp add: fs_at_def rmSync_def map_of_filter_key)

text \<open>Directories that are there already are all that \<open>mkdir\<close> needs to leave the file system alone.\<close>

lemma make_dirs_present: "\<forall>p \<in> set ps. fs_at p f = Some FsDir \<Longrightarrow> make_dirs ps made f = (Inr made, f)"
  by (induction ps arbitrary: made) auto

lemma make_dirs_keeps:
  "make_dirs ps made f = (r, f') \<Longrightarrow> fs_at q f \<noteq> None \<Longrightarrow> fs_at q f' = fs_at q f"
proof (induction ps arbitrary: made f)
  case (Cons p ps)
  show ?case
  proof (cases "fs_at p f")
    case None
    then have "q \<noteq> p" using Cons.prems(2) by auto
    then show ?thesis using Cons.prems None Cons.IH [of _ "fs_put p FsDir f"] by (auto split: if_splits)
  next
    case (Some n)
    then show ?thesis using Cons.prems Cons.IH [of made f] by (cases n) auto
  qed
qed simp

lemma make_dirs_only:
  "make_dirs ps made f = (r, f') \<Longrightarrow> q \<notin> set ps \<Longrightarrow> fs_at q f' = fs_at q f"
proof (induction ps arbitrary: made f)
  case (Cons p ps)
  then show ?case
    by (cases "fs_at p f") (auto split: if_splits fs_node.splits dest!: Cons.IH)
qed simp

lemma make_dirs_done:
  "make_dirs ps made f = (Inr m, f') \<Longrightarrow> p \<in> set ps \<Longrightarrow> fs_at p f' = Some FsDir"
proof (induction ps arbitrary: made f)
  case (Cons q ps)
  show ?case
  proof (cases "fs_at q f")
    case None
    then have run: "make_dirs ps (case made of None \<Rightarrow> Some q | Some r \<Rightarrow> Some r) (fs_put q FsDir f) = (Inr m, f')"
      using Cons.prems(1) by (auto split: if_splits)
    show ?thesis
    proof (cases "p = q")
      case True
      then show ?thesis using make_dirs_keeps [OF run, of p] by simp
    next
      case False
      then show ?thesis using Cons.IH [OF run] Cons.prems(2) by simp
    qed
  next
    case (Some n)
    then have run: "make_dirs ps made f = (Inr m, f')" and n: "n = FsDir"
      using Cons.prems(1) by (auto split: fs_node.splits)
    then show ?thesis
      using Cons.IH [OF run] Cons.prems(2) make_dirs_keeps [OF run, of q] Some by auto
  qed
qed simp

end
