(* ===== verification/Workspace.thy ===== *)
theory Workspace
  imports FileSystem ServerConfig JsDate
begin

text \<open>
  A member's directory and the clone of one repository into it, \<open>server/src/workspace/provision.ts\<close> and
  \<open>server/src/workspace/reconcile.ts\<close>, with the sweep of \<open>server/src/workspace/queue.ts\<close>. \<open>git\<close> stands for the
  program: what it does to the file system given its arguments and environment, and whether it failed. \<open>json_pretty\<close>
  stands for \<open>JSON.stringify(\<dots>, null, 2)\<close>. Log lines are left out.
\<close>

section \<open>Directories\<close>

definition workspaceDir :: "string \<Rightarrow> string \<Rightarrow> string \<Rightarrow> string + string" where
  "workspaceDir rootDir orgId userId =
     (if \<not> is_uuid userId
      then Inl (''refusing to build a workspace path from a user id that is not a uuid: '' @ userId)
      else Inr (path_join [rootDir, orgId, userId]))"

abbreviation BREADCRUMB :: string where "BREADCRUMB \<equiv> ''.factory-workspace.json''"

record ProvisionOptions =
  po_root :: "string option"
  po_orgId :: string
  po_userId :: string
  po_login :: string
  po_githubUserId :: int
  po_rewriteBreadcrumb :: bool

definition breadcrumb :: "(json \<Rightarrow> string) \<Rightarrow> int \<Rightarrow> ProvisionOptions \<Rightarrow> string" where
  "breadcrumb json_pretty now opts =
     json_pretty (JObj [(''userId'', JStr (po_userId opts)), (''githubUserId'', JNum (of_int (po_githubUserId opts))),
       (''login'', JStr (po_login opts)), (''updatedAt'', JStr (to_iso now))]) @ [CHR 0x0A]"

definition ensureUserWorkspace ::
  "(json \<Rightarrow> string) \<Rightarrow> int \<Rightarrow> ProvisionOptions \<Rightarrow> fs \<Rightarrow> (string + string option) \<times> fs"
where
  "ensureUserWorkspace json_pretty now opts f =
     (if \<not> truthy (po_root opts) then (Inr None, f)
      else (case workspaceDir (the (po_root opts)) (po_orgId opts) (po_userId opts) of
          Inl e \<Rightarrow> (Inl e, f)
        | Inr dir \<Rightarrow>
            (case mkdirSync dir f of
               (Inl e, f1) \<Rightarrow> (Inl e, f1)
             | (Inr created, f1) \<Rightarrow>
                 if created \<noteq> None \<or> po_rewriteBreadcrumb opts
                 then (case writeFileSync (path_join [dir, BREADCRUMB]) (breadcrumb json_pretty now opts) f1 of
                         (Inl e, f2) \<Rightarrow> (Inl e, f2)
                       | (Inr u, f2) \<Rightarrow> (Inr (Some dir), f2))
                 else (Inr (Some dir), f1))))"

section \<open>One clone\<close>

abbreviation TOKEN_VAR :: string where "TOKEN_VAR \<equiv> ''GIT_WORKSPACE_TOKEN''"

datatype CloneOutcome = Cloned | Present

type_synonym git = "string list \<Rightarrow> env \<Rightarrow> fs \<Rightarrow> (string + unit) \<times> fs"

record CloneOptions =
  co_root :: string
  co_orgId :: string
  co_userId :: string
  co_repo :: Repo
  co_token :: "string option"

definition httpsUrl :: "Repo \<Rightarrow> string" where
  "httpsUrl repo = ''https://github.com/'' @ repo_owner repo @ ''/'' @ repo_name repo @ ''.git''"

definition credential_helper :: string where
  "credential_helper =
     ''credential.helper=!f(){ test '' @ quoted ''$1'' @ '' = get && echo username=x-access-token && echo '' @
     quoted (''password=${'' @ TOKEN_VAR @ ''}'') @ ''; }; f''"

definition gitArgs :: "string \<Rightarrow> string \<Rightarrow> bool \<Rightarrow> string list" where
  "gitArgs url dest authenticated =
     [''-c'', ''credential.helper=''] @ (if authenticated then [''-c'', credential_helper] else []) @
     [''clone'', ''--origin'', ''origin'', ''--'', url, dest]"

definition clone_env :: "env \<Rightarrow> string option \<Rightarrow> env" where
  "clone_env process_env token =
     (let e = process_env(''GIT_TERMINAL_PROMPT'' \<mapsto> ''0'') in
      if truthy token then e(TOKEN_VAR \<mapsto> the token) else e)"

definition stagingDir :: "string \<Rightarrow> nat \<Rightarrow> string" where
  "stagingDir dest pid = dest @ ''.tmp-'' @ nat_str pid"

text \<open>The clone itself, once the directory is known to be free: aside, then renamed into place.\<close>

definition clone_into ::
  "git \<Rightarrow> env \<Rightarrow> nat \<Rightarrow> CloneOptions \<Rightarrow> string \<Rightarrow> string \<Rightarrow> fs \<Rightarrow> (string + CloneOutcome) \<times> fs"
where
  "clone_into git process_env pid opts userDir dest f =
     (let staging = stagingDir dest pid in
      case mkdirSync userDir (rmSync staging f) of
        (Inl e, f1) \<Rightarrow> (Inl e, f1)
      | (Inr made, f1) \<Rightarrow>
          (case git (gitArgs (httpsUrl (co_repo opts)) staging (truthy (co_token opts)))
                  (clone_env process_env (co_token opts)) f1 of
             (Inl e, f2) \<Rightarrow> (Inl e, rmSync staging f2)
           | (Inr u, f2) \<Rightarrow>
               (case renameSync staging dest f2 of
                  (Inl e, f3) \<Rightarrow> (Inl e, rmSync staging f3)
                | (Inr v, f3) \<Rightarrow> (Inr Cloned, f3))))"

definition cloneRepo ::
  "git \<Rightarrow> env \<Rightarrow> nat \<Rightarrow> CloneOptions \<Rightarrow> fs \<Rightarrow> (string + CloneOutcome) \<times> fs"
where
  "cloneRepo git process_env pid opts f =
     (case workspaceDir (co_root opts) (co_orgId opts) (co_userId opts) of
        Inl e \<Rightarrow> (Inl e, f)
      | Inr userDir \<Rightarrow>
          (let dest = path_join [userDir, repo_name (co_repo opts)] in
           if existsSync (path_join [dest, ''.git'']) f then (Inr Present, f)
           else if existsSync dest f
             then (Inl (dest @ '' exists and is not a git checkout'' @ em_dash @ ''refusing to clone over it''), f)
           else clone_into git process_env pid opts userDir dest f))"

section \<open>The sweep of staging directories\<close>

text \<open>\<open>/\.tmp-\d+$/\<close>.\<close>

definition is_staging_name :: "string \<Rightarrow> bool" where
  "is_staging_name s \<longleftrightarrow>
     (let d = takeWhile is_digit (rev s) in d \<noteq> [] \<and> ends_with (take (length s - length d) s) ''.tmp-'')"

definition sweep_user :: "string \<Rightarrow> string \<Rightarrow> nat \<times> fs \<Rightarrow> nat \<times> fs" where
  "sweep_user orgDir user s =
     (case readdirSync (path_join [orgDir, user]) (snd s) of
        Inl e \<Rightarrow> s
      | Inr entries \<Rightarrow>
          fold (\<lambda>entry (n, f). if is_staging_name entry then (n + 1, rmSync (path_join [orgDir, user, entry]) f) else (n, f))
            entries s)"

definition sweepStaging :: "string \<Rightarrow> string \<Rightarrow> fs \<Rightarrow> nat \<times> fs" where
  "sweepStaging rootDir orgId f =
     (let orgDir = path_join [rootDir, orgId] in
      case readdirSync orgDir f of
        Inl e \<Rightarrow> (0, f)
      | Inr users \<Rightarrow> fold (sweep_user orgDir) users (0, f))"

end
