(* ===== verification/AuthRoutes.thy ===== *)
theory AuthRoutes
  imports AuthPlugin OAuthClient Workspace
begin

text \<open>
  The sign-in routes, \<open>server/src/routes/auth.ts\<close>. Their state is the accounts database, the file system the
  workspaces live in and the world \<open>fetch\<close> acts on. A redirect is a reply 302 with its location; the
  cookies a reply sets or clears are listed in order. Random bytes and generated ids are arguments.
\<close>

datatype cookie_action = SetCookie string string cookie_options | ClearCookie string cookie_options

record auth_reply =
  ar_code :: nat
  ar_location :: "string option"
  ar_payload :: "json option"
  ar_cookies :: "cookie_action list"

record 'w server =
  sv_db :: auth_db
  sv_fs :: fs
  sv_world :: 'w

text \<open>What the platform supplies to one request.\<close>

record platform =
  pf_auth :: auth_env
  pf_jsonText :: "json \<Rightarrow> string"
  pf_jsonPretty :: "json \<Rightarrow> string"
  pf_jsonParse :: "string \<Rightarrow> json option"
  pf_utf8Text :: "string \<Rightarrow> string"
  pf_withParams :: "string \<Rightarrow> (string \<times> string) list \<Rightarrow> string"
  pf_nonce :: string
  pf_random32 :: string
  pf_uuid :: uuid
  pf_nowMs :: int

definition redirect :: "string \<Rightarrow> cookie_action list \<Rightarrow> auth_reply" where
  "redirect url cs = \<lparr>ar_code = 302, ar_location = Some url, ar_payload = None, ar_cookies = cs\<rparr>"

definition failure :: "string \<Rightarrow> string \<Rightarrow> string" where
  "failure returnTo reason = safeReturnPath (Some returnTo) @ ''?auth_error='' @ encodeURIComponent reason"

fun role_str :: "Role \<Rightarrow> string" where
  "role_str RAdmin = ''admin''" | "role_str RMember = ''member''"

definition mode_str :: "AuthConfig \<Rightarrow> string" where
  "mode_str a = (case a of AuthNone t \<Rightarrow> ''none'' | AuthGitHub g \<Rightarrow> ''github'')"

definition get_me :: "AppConfig \<Rightarrow> platform \<Rightarrow> request \<Rightarrow> 'w server \<Rightarrow> auth_reply" where
  "get_me config pf req s =
     (case resolveUser config (pf_auth pf) req (sv_db s) of
        Inl e \<Rightarrow> \<lparr>ar_code = 401, ar_location = None, ar_payload = payload (unauthenticated ''Sign in required''), ar_cookies = []\<rparr>
      | Inr None \<Rightarrow> \<lparr>ar_code = 401, ar_location = None, ar_payload = payload (unauthenticated ''Sign in required''), ar_cookies = []\<rparr>
      | Inr (Some c) \<Rightarrow> \<lparr>ar_code = 200, ar_location = None, ar_payload = Some (JObj
          [(''user'', JObj [(''id'', JStr (ur_id (cr_user c))), (''login'', JStr (ur_login (cr_user c))),
             (''name'', json_opt JStr (ur_displayName (cr_user c)))]),
           (''role'', JStr (role_str (cr_role c))),
           (''organization'', JObj [(''id'', JStr (ac_orgId config)), (''name'', JStr (ac_orgName config))]),
           (''mode'', JStr (mode_str (ac_auth config)))]), ar_cookies = []\<rparr>)"

definition session_cookie :: "GitHubAuth \<Rightarrow> cookie_options" where
  "session_cookie g = sessionCookieOptions (gh_cookieSecure g) (gh_sessionTtlMs g div 1000)"

definition get_github :: "GitHubAuth \<Rightarrow> platform \<Rightarrow> string option \<Rightarrow> auth_reply" where
  "get_github g pf returnTo =
     (let state = encodeState (ae_hmac (pf_auth pf)) (pf_jsonText pf) (pf_nonce pf) (safeReturnPath returnTo) (gh_sessionSecret g) in
      redirect (authorizeUrl (pf_withParams pf) g state)
        [SetCookie OAUTH_COOKIE state (oauthCookieOptions (gh_cookieSecure g))])"

record callback_query =
  cq_code :: "string option"
  cq_state :: "string option"
  cq_error :: "string option"

text \<open>The exchange, the identity and the sign-in; the first call that throws ends it.\<close>

definition admit ::
  "AppConfig \<Rightarrow> GitHubAuth \<Rightarrow> platform \<Rightarrow> 'w fetch \<Rightarrow> string \<Rightarrow> 'w server \<Rightarrow> (string + Caller option) \<times> 'w server"
where
  "admit config g pf fetch authCode s =
     (let now = ae_now (pf_auth pf) in
      case exchange g fetch authCode (sv_world s) of
        (Inl e, w1) \<Rightarrow> (Inl e, s\<lparr>sv_world := w1\<rparr>)
      | (Inr accessToken, w1) \<Rightarrow>
         (case identity_lookup g fetch accessToken w1 of
            (Inl e, w2) \<Rightarrow> (Inl e, s\<lparr>sv_world := w2\<rparr>)
          | (Inr who, w2) \<Rightarrow>
             (case signIn (pf_uuid pf) now who (ac_orgId config) False (sv_db s) of
                (Inl e, db1) \<Rightarrow> (Inl e, s\<lparr>sv_world := w2, sv_db := db1\<rparr>)
              | (Inr caller, db1) \<Rightarrow>
                 if caller \<noteq> None \<or> \<not> truthy (gh_autoJoinGithubOrg g)
                 then (Inr caller, s\<lparr>sv_world := w2, sv_db := db1\<rparr>)
                 else (case orgMembership g fetch accessToken (the (gh_autoJoinGithubOrg g)) w2 of
                     (Inl e, w3) \<Rightarrow> (Inl e, s\<lparr>sv_world := w3, sv_db := db1\<rparr>)
                   | (Inr membership, w3) \<Rightarrow>
                      if membership = OmActive
                      then (case signIn (pf_uuid pf) now who (ac_orgId config) True db1 of
                          (r, db2) \<Rightarrow> (r, s\<lparr>sv_world := w3, sv_db := db2\<rparr>))
                      else (Inr None, s\<lparr>sv_world := w3, sv_db := db1\<rparr>)))))"

definition provision_of :: "AppConfig \<Rightarrow> Caller \<Rightarrow> bool \<Rightarrow> ProvisionOptions" where
  "provision_of config caller rewrite =
     \<lparr>po_root = ac_workspaceRoot config, po_orgId = ac_orgId config, po_userId = ur_id (cr_user caller),
      po_login = ur_login (cr_user caller), po_githubUserId = ur_githubUserId (cr_user caller),
      po_rewriteBreadcrumb = rewrite\<rparr>"

text \<open>
  The session of an admitted caller: the directory, whose failure is only logged, then the row and the
  cookie. A refused insert rejects the handler, which the framework answers with a 500.
\<close>

definition open_session ::
  "AppConfig \<Rightarrow> GitHubAuth \<Rightarrow> platform \<Rightarrow> cookie_action list \<Rightarrow> string \<Rightarrow> Caller \<Rightarrow> 'w server \<Rightarrow> auth_reply \<times> 'w server"
where
  "open_session config g pf cleared returnTo caller s =
     (let f = snd (ensureUserWorkspace (pf_jsonPretty pf) (pf_nowMs pf) (provision_of config caller True) (sv_fs s));
          token = mintToken (pf_random32 pf) in
      case createSession (hashToken (ae_sha256 (pf_auth pf)) token) (ur_id (cr_user caller))
             ((pf_nowMs pf + gh_sessionTtlMs g) * 1000) (sv_db s) of
        (Inl e, db) \<Rightarrow>
          (\<lparr>ar_code = 500, ar_location = None, ar_payload = None, ar_cookies = cleared\<rparr>, s\<lparr>sv_fs := f, sv_db := db\<rparr>)
      | (Inr u, db) \<Rightarrow>
          (redirect returnTo (cleared @ [SetCookie SESSION_COOKIE (sign (ae_hmac (pf_auth pf)) token (gh_sessionSecret g))
             (session_cookie g)]), s\<lparr>sv_fs := f, sv_db := db\<rparr>))"

definition get_callback ::
  "AppConfig \<Rightarrow> GitHubAuth \<Rightarrow> platform \<Rightarrow> 'w fetch \<Rightarrow> callback_query \<Rightarrow> request \<Rightarrow> 'w server \<Rightarrow> auth_reply \<times> 'w server"
where
  "get_callback config g pf fetch q req s =
     (let cookied = rq_cookie req OAUTH_COOKIE;
          cleared = [ClearCookie OAUTH_COOKIE (oauthCookieOptions (gh_cookieSecure g))];
          decoded = decodeState (ae_hmac (pf_auth pf)) (pf_utf8Text pf) (pf_jsonParse pf) cookied (gh_sessionSecret g);
          returnTo = (case decoded of None \<Rightarrow> ''/'' | Some p \<Rightarrow> p) in
      if truthy (cq_error q) then (redirect (failure returnTo ''denied'') cleared, s)
      else if decoded = None \<or> \<not> statesMatch (cq_state q) cookied then (redirect (failure returnTo ''state'') cleared, s)
      else if \<not> truthy (cq_code q) then (redirect (failure returnTo ''state'') cleared, s)
      else (case admit config g pf fetch (the (cq_code q)) s of
          (Inl e, s1) \<Rightarrow> (redirect (failure returnTo ''github'') cleared, s1)
        | (Inr None, s1) \<Rightarrow> (redirect (failure returnTo ''no_membership'') cleared, s1)
        | (Inr (Some caller), s1) \<Rightarrow> open_session config g pf cleared returnTo caller s1))"

definition post_logout :: "GitHubAuth \<Rightarrow> platform \<Rightarrow> request \<Rightarrow> 'w server \<Rightarrow> auth_reply \<times> 'w server" where
  "post_logout g pf req s =
     (let token = unsign (ae_hmac (pf_auth pf)) (rq_cookie req SESSION_COOKIE) (gh_sessionSecret g);
          db = (if truthy token then deleteSession (hashToken (ae_sha256 (pf_auth pf)) (the token)) (sv_db s) else sv_db s) in
      (\<lparr>ar_code = 204, ar_location = None, ar_payload = None, ar_cookies = [ClearCookie SESSION_COOKIE (session_cookie g)]\<rparr>,
       s\<lparr>sv_db := db\<rparr>))"

end
