(* ===== verification/AuthTheorems.thy ===== *)
theory AuthTheorems
  imports AuthFacts AuthRoutes
begin

text \<open>
  The properties of the server's configuration, of signed values, of accounts and of the wall in front
  of the API.
\<close>

section \<open>The server's configuration\<close>

text \<open>
  C20: A server configuration that loads is safe to run: the organization id is one the database and a URL accept, a
  server without accounts is reachable only from the machine itself unless the operator said otherwise, one with accounts
  has its client, its secret of at least 32 characters and an origin that is given or local, a process that fetches never writes to a
  disposable database and has a private key, and the refresh times keep their floors.
\<close>

theorem loaded_server_config_is_safe:
  assumes "loadConfig url_parse utf8_text env = Inr c"
  shows "is_org_id (ac_orgId c) \<and> \<not> starts_with (ac_orgId c) ''__'' \<and> ac_orgName c \<noteq> [] \<and>
     60000 \<le> ac_syncTtlMs c \<and> 5000 \<le> ac_telemetryTtlMs c \<and> 0 < ac_port c \<and> ac_databaseUrl c \<noteq> [] \<and>
     (\<forall>p. ac_workspaceRoot c = Some p \<longrightarrow> isAbsolute p) \<and>
     (case ac_github c of GitHubNone \<Rightarrow> True
      | GitHubAppMode g \<Rightarrow> ga_appId g \<noteq> [] \<and> is_pem (ga_privateKeyPem g) \<and>
          \<not> DISPOSABLE_DATABASE (case databaseName url_parse (ac_databaseUrl c) of None \<Rightarrow> [] | Some n \<Rightarrow> n)) \<and>
     (case ac_auth c of
        AuthNone t \<Rightarrow> ac_host c \<in> set LOOPBACK_HOSTS \<or> env_trim (env ''AUTH_ALLOW_PUBLIC_BIND'') \<in> {''1'', ''true'', ''yes''}
      | AuthGitHub g \<Rightarrow> gh_clientId g \<noteq> [] \<and> gh_clientSecret g \<noteq> [] \<and> 32 \<le> length (gh_sessionSecret g) \<and>
          0 < gh_sessionTtlMs g \<and> (ac_host c \<in> set LOOPBACK_HOSTS \<or> env_trim (env ''PUBLIC_URL'') \<noteq> []))"
proof -
  note parts = loadConfig_parts [OF assms]
  have hatch: "env_trim raw \<in> {''1'', ''true'', ''yes''}" if "env_bool raw False l = Inr True" for raw l
    using that by (simp add: env_bool_def Let_def split: if_splits)
  have github: "case ac_github c of GitHubNone \<Rightarrow> True
      | GitHubAppMode g \<Rightarrow> ga_appId g \<noteq> [] \<and> is_pem (ga_privateKeyPem g) \<and>
          \<not> DISPOSABLE_DATABASE (case databaseName url_parse (ac_databaseUrl c) of None \<Rightarrow> [] | Some n \<Rightarrow> n)"
    using parts(9,10) loadGitHub_ok [of utf8_text env] by (cases "ac_github c") auto
  have auth: "case ac_auth c of
        AuthNone t \<Rightarrow> ac_host c \<in> set LOOPBACK_HOSTS \<or> env_trim (env ''AUTH_ALLOW_PUBLIC_BIND'') \<in> {''1'', ''true'', ''yes''}
      | AuthGitHub g \<Rightarrow> gh_clientId g \<noteq> [] \<and> gh_clientSecret g \<noteq> [] \<and> 32 \<le> length (gh_sessionSecret g) \<and>
          0 < gh_sessionTtlMs g \<and> (ac_host c \<in> set LOOPBACK_HOSTS \<or> env_trim (env ''PUBLIC_URL'') \<noteq> [])"
    using loadAuth_ok [OF parts(12)] hatch unfolding auth_ok_def by (cases "ac_auth c") auto
  have "ac_databaseUrl c \<noteq> []" using parts(7,8) by (auto simp: truthy_def)
  moreover have "\<forall>p. ac_workspaceRoot c = Some p \<longrightarrow> isAbsolute p" using parts(3) workspaceRootOf_absolute by metis
  ultimately show ?thesis using parts(2,5,6,11,13) org_id_not_reserved [OF parts(2)] github auth by blast
qed

definition sample_env :: env where
  "sample_env = [''DATABASE_URL'' \<mapsto> ''postgres://db/factory_seed'', ''GITHUB_MODE'' \<mapsto> ''none'', ''ORG_ID'' \<mapsto> '' acme '']"

lemma sample_server_config: "\<exists>c. loadConfig (\<lambda>_. None) id sample_env = Inr c \<and> ac_orgId c = ''acme''"
proof -
  have "case loadConfig (\<lambda>_. None) id sample_env of Inl e \<Rightarrow> False | Inr c \<Rightarrow> ac_orgId c = ''acme''" by code_simp
  then show ?thesis by (auto split: sum.splits)
qed

theorem loaded_server_config_is_safe_witness:
  "\<exists>c. loadConfig (\<lambda>_. None) id sample_env = Inr c \<and> is_org_id (ac_orgId c) \<and> 60000 \<le> ac_syncTtlMs c"
  using sample_server_config loaded_server_config_is_safe by blast

text \<open>
  A configuration refused while the private key came from a file is reported as a file that could not be
  read, whatever the refusal said.
\<close>

lemma key_file_hides_refusal:
  assumes "env_trim (env ''GITHUB_APP_PRIVATE_KEY_FILE'') = path" "path \<noteq> []" "\<not> truthy (env ''GITHUB_APP_PRIVATE_KEY'')"
    and "read_file path = Inr content"
    and "loadConfig url_parse utf8_text (env(''GITHUB_APP_PRIVATE_KEY'' \<mapsto> js_trim content)) = Inl message"
  shows "resolveConfig url_parse utf8_text read_file env =
    Inl (''GITHUB_APP_PRIVATE_KEY_FILE points at '' @ path @ '', which could not be read (unknown error)'')"
  using assms by (simp add: resolveConfig_def unreadable_def)

text \<open>
  A return path that begins with a slash and a backslash is kept, and a browser reads the backslash as a second
  slash; a reason appended to a path with a fragment ends up in the fragment.
\<close>

lemma backslash_path_is_kept: "safeReturnPath (Some (''/'' @ [CHR 0x5C] @ host)) = ''/'' @ [CHR 0x5C] @ host"
  by (simp add: safeReturnPath_def truthy_def)

lemma reason_lands_in_fragment:
  assumes "local_path (p @ ''#'' @ h)"
  shows "failure (p @ ''#'' @ h) reason = p @ ''#'' @ h @ ''?auth_error='' @ encodeURIComponent reason"
proof -
  have "safeReturnPath (Some s) = s" if "local_path s" for s
    using that by (auto simp: safeReturnPath_def truthy_def local_path_def)
  then show ?thesis using assms by (simp add: failure_def)
qed

section \<open>Sign-in\<close>

lemma upsert_result:
  assumes "upsert_user fresh now g db = (Inr i, db1)"
  shows "db_members db1 = db_members db" "db_sessions db1 = db_sessions db"
    "\<exists>u \<in> set (db_users db1). us_id u = i \<and> us_github_user_id u = \<lfloor>gi_githubUserId g\<rfloor>"
    "us_id ` set (db_users db) \<subseteq> us_id ` set (db_users db1)"
    "i = fresh \<or> (\<exists>u \<in> set (db_users db). us_id u = i \<and> us_github_user_id u = \<lfloor>gi_githubUserId g\<rfloor>)"
proof -
  let ?n = "\<lfloor>gi_githubUserId g\<rfloor>"
  consider (old) u where "sql_first (has_github_id ?n) (db_users db) = Some u" "i = us_id u"
      "db1 = db\<lparr>db_users := sql_update (has_github_id ?n) (relabel now g) (db_users db)\<rparr>"
    | (new) "i = fresh" "db1 = db\<lparr>db_users := user_of_identity fresh now g # db_users db\<rparr>"
    using assms by (auto simp: upsert_user_def Let_def split: if_splits option.splits)
  note c = this
  show "db_members db1 = db_members db" "db_sessions db1 = db_sessions db" using c by (cases; simp)+
  show "us_id ` set (db_users db) \<subseteq> us_id ` set (db_users db1)"
    using c by cases (auto simp: ids_sql_update)
  show "i = fresh \<or> (\<exists>u \<in> set (db_users db). us_id u = i \<and> us_github_user_id u = ?n)"
    using c by cases (auto dest!: sql_first_Some simp: has_github_id_def)
  show "\<exists>u \<in> set (db_users db1). us_id u = i \<and> us_github_user_id u = ?n"
    using c
  proof cases
    case old
    note u = sql_first_Some [OF old(1)]
    then have "relabel now g u \<in> set (db_users db1)"
      using old(3) by (force simp: set_sql_update)
    then show ?thesis using u old(2) by (intro bexI [of _ "relabel now g u"]) (simp_all add: has_github_id_def)
  next
    case new
    then show ?thesis by (simp add: user_of_identity_def)
  qed
qed

lemma claim_invites_member:
  assumes "m \<in> set (db_members (claim_invites i login now db))" "in_org org i m"
  shows "(m \<in> set (db_members db)) \<or>
    (\<exists>m0 \<in> set (db_members db). member_key org login m0 \<and> mb_user_id m0 = None \<and> mb_role m0 = mb_role m)"
  using assms by (auto simp: claim_invites_def set_sql_update claimable_invite_def claim_member_def in_org_def member_key_def
      split: if_splits)

lemma member_key_claim: "sql_exists (member_key org login) (db_members (claim_invites i l now db)) =
    sql_exists (member_key org login) (db_members db)"
proof -
  have "sql_exists p (sql_update q f t) = sql_exists p t" if "\<And>m. p (f m) = p m"
    for p q and f :: "member_row \<Rightarrow> member_row" and t
    by (induction t) (simp_all add: sql_exists_def sql_update_def that)
  then show ?thesis by (simp add: claim_invites_def member_key_def claim_member_def)
qed

text \<open>The two statements of a sign-in keep the invariant, and the account stays.\<close>

lemma signIn_parts:
  assumes "auth_inv db" "fresh \<notin> us_id ` set (db_users db)" "upsert_user fresh now g db = (Inr i, db1)"
  shows "auth_inv db1" "auth_inv (claim_invites i (js_lower (gi_login g)) now db1)"
    "\<exists>u \<in> set (db_users (claim_invites i (js_lower (gi_login g)) now db1)).
       us_id u = i \<and> us_github_user_id u = \<lfloor>gi_githubUserId g\<rfloor>"
proof -
  show 1: "auth_inv db1" using upsert_inv [OF assms(1,2), of now g] assms(3) by simp
  have "i \<in> us_id ` set (db_users db1)" using upsert_result(3) [OF assms(3)] by blast
  then show "auth_inv (claim_invites i (js_lower (gi_login g)) now db1)"
    using auth_do_inv [OF 1, of "OpClaim i (js_lower (gi_login g)) now"] by simp
  show "\<exists>u \<in> set (db_users (claim_invites i (js_lower (gi_login g)) now db1)).
       us_id u = i \<and> us_github_user_id u = \<lfloor>gi_githubUserId g\<rfloor>"
    using upsert_result(3) [OF assms(3)] by (simp add: claim_invites_def)
qed

lemma memberOf_github_id:
  assumes "auth_inv db" "memberOf i org db = Some c" "u \<in> set (db_users db)" "us_id u = i"
  shows "ur_githubUserId (cr_user c) = us_github_user_id u \<and> ur_id (cr_user c) = i"
proof -
  obtain v m where v: "v \<in> set (db_users db)" "us_id v = i" "c = toCaller v m"
    using assms(2) memberOf_iff [OF assms(1)] by blast
  have "distinct (map us_id (db_users db))" using assms(1) by (simp add: auth_inv_def users_ok_def)
  then have "v = u" using distinct_key_unique [of us_id "db_users db" v u] v(1,2) assms(3,4) by simp
  then show ?thesis using v by simp
qed

lemma auto_join_result:
  assumes "auto_join i org login now db = (Inr u, db')" "memberOf i org db = None" "memberOf i org db' = Some c" "auth_inv db'"
  shows "cr_role c = RMember \<and> \<not> sql_exists (member_key org login) (db_members db)"
proof (cases "sql_exists (member_key org login) (db_members db)")
  case True
  then have "db' = db" using assms(1) by (simp add: auto_join_def)
  then show ?thesis using assms(2,3) by simp
next
  case False
  let ?m = "\<lparr>mb_org_id = org, mb_github_login = login, mb_user_id = Some i, mb_role = RMember, mb_claimed_at = Some now\<rparr>"
  have db': "db' = db\<lparr>db_members := ?m # db_members db\<rparr>"
    using assms(1) False by (auto simp: auto_join_def split: if_splits)
  obtain m v where m: "m \<in> set (db_members db')" "in_org org i m" "c = toCaller v m"
    using assms(3) memberOf_iff [OF assms(4)] by blast
  have "members_ok (us_id ` set (db_users db')) (db_members db')" using assms(4) by (simp add: auth_inv_def)
  then have "m = ?m"
    by (rule members_okD(3) [OF _ m(1) _ m(2)]) (simp_all add: db' in_org_def)
  then show ?thesis using False m(3) by simp
qed


lemma signIn_cases:
  assumes inv: "auth_inv db" "fresh \<notin> us_id ` set (db_users db)"
    and s: "signIn fresh now g org aj db = (Inr r, db')"
  obtains i db1 db2 where "upsert_user fresh now g db = (Inr i, db1)" "auth_inv db'"
      "db2 = claim_invites i (js_lower (gi_login g)) now db1" "auth_inv db2"
      "db_members db1 = db_members db" "r = memberOf i org db'"
      "db' = db2 \<or> (aj \<and> memberOf i org db2 = None \<and> auto_join i org (js_lower (gi_login g)) now db2 = (Inr (), db'))"
      "\<exists>u \<in> set (db_users db'). us_id u = i \<and> us_github_user_id u = \<lfloor>gi_githubUserId g\<rfloor>"
      "i = fresh \<or> (\<exists>u \<in> set (db_users db). us_id u = i \<and> us_github_user_id u = \<lfloor>gi_githubUserId g\<rfloor>)"
proof -
  obtain i db1 where up: "upsert_user fresh now g db = (Inr i, db1)"
    using s by (auto simp: signIn_def split: prod.splits sum.splits)
  let ?l = "js_lower (gi_login g)"
  define db2 where "db2 = claim_invites i ?l now db1"
  note parts = signIn_parts [OF inv up, folded db2_def]
  show ?thesis
  proof (cases "memberOf i org db2 \<noteq> None \<or> \<not> aj")
    case True
    then have "db' = db2" "r = memberOf i org db2"
      using s up by (auto simp: signIn_def Let_def db2_def)
    then show ?thesis using that [OF up _ db2_def] parts upsert_result(1,5) [OF up] by blast
  next
    case False
    then obtain db3 where aj: "aj" "memberOf i org db2 = None" "auto_join i org ?l now db2 = (Inr (), db')" "r = memberOf i org db'"
      using s up by (auto simp: signIn_def Let_def db2_def split: prod.splits sum.splits)
    have "i \<in> us_id ` set (db_users db2)" using parts(3) by blast
    then have inv': "auth_inv db'" using auth_do_inv [OF parts(2), of "OpJoin i org ?l now"] aj(3) by simp
    have "db_users db' = db_users db2" using aj(3) by (auto simp: auto_join_def split: if_splits)
    then have "\<exists>u \<in> set (db_users db'). us_id u = i \<and> us_github_user_id u = \<lfloor>gi_githubUserId g\<rfloor>" using parts(3) by simp
    then show ?thesis using that [OF up inv' db2_def parts(2) upsert_result(1) [OF up] aj(4) _ _ upsert_result(5) [OF up]] aj by blast
  qed
qed

text \<open>
  Whoever a sign-in admits is the GitHub account that signed in, and either was a member already, with that
  role, or takes an invite to the login nobody had claimed, with the invite's role, or was let in by GitHub's
  organization under a login that had no membership, as an ordinary member.
\<close>

lemma signIn_admits:
  assumes "auth_inv db" "fresh \<notin> us_id ` set (db_users db)"
    and "signIn fresh now g org autoJoin db = (Inr (Some c), db')"
  shows "ur_githubUserId (cr_user c) = \<lfloor>gi_githubUserId g\<rfloor> \<and>
    ((\<exists>m \<in> set (db_members db). in_org org (ur_id (cr_user c)) m \<and> mb_role m = cr_role c \<and>
        (\<exists>u \<in> set (db_users db). us_id u = ur_id (cr_user c) \<and> us_github_user_id u = \<lfloor>gi_githubUserId g\<rfloor>)) \<or>
     (\<exists>m \<in> set (db_members db). member_key org (js_lower (gi_login g)) m \<and> mb_user_id m = None \<and> mb_role m = cr_role c) \<or>
     (autoJoin \<and> cr_role c = RMember \<and> \<not> sql_exists (member_key org (js_lower (gi_login g))) (db_members db)))"
proof -
  let ?l = "js_lower (gi_login g)"
  obtain i db1 db2 where up: "upsert_user fresh now g db = (Inr i, db1)" and inv': "auth_inv db'"
    and db2: "db2 = claim_invites i ?l now db1" "auth_inv db2" and ms: "db_members db1 = db_members db"
    and r: "Some c = memberOf i org db'"
    and how: "db' = db2 \<or> (autoJoin \<and> memberOf i org db2 = None \<and> auto_join i org ?l now db2 = (Inr (), db'))"
    and acc: "\<exists>u \<in> set (db_users db'). us_id u = i \<and> us_github_user_id u = \<lfloor>gi_githubUserId g\<rfloor>"
    and was: "i = fresh \<or> (\<exists>u \<in> set (db_users db). us_id u = i \<and> us_github_user_id u = \<lfloor>gi_githubUserId g\<rfloor>)"
    by (rule signIn_cases [OF assms])
  have id: "ur_githubUserId (cr_user c) = \<lfloor>gi_githubUserId g\<rfloor>" "ur_id (cr_user c) = i"
    using memberOf_github_id [OF inv' r [symmetric]] acc by auto
  from how show ?thesis
  proof
    assume "db' = db2"
    then obtain m v where m: "m \<in> set (db_members db2)" "in_org org i m" "c = toCaller v m"
      using r memberOf_iff [OF db2(2)] by metis
    from claim_invites_member [OF m(1) [unfolded db2(1)] m(2)] show ?thesis
    proof
      assume here: "m \<in> set (db_members db1)"
      have "i \<noteq> fresh"
      proof
        assume "i = fresh"
        moreover have "i \<in> us_id ` set (db_users db)"
          using assms(1) here m(2) by (auto simp: ms auth_inv_def members_ok_def member_row_ok_def in_org_def)
        ultimately show False using assms(2) by simp
      qed
      then show ?thesis using id was here m(2,3) ms by auto
    next
      assume "\<exists>m0 \<in> set (db_members db1). member_key org ?l m0 \<and> mb_user_id m0 = None \<and> mb_role m0 = mb_role m"
      then show ?thesis using id m(3) ms by auto
    qed
  next
    assume aj: "autoJoin \<and> memberOf i org db2 = None \<and> auto_join i org ?l now db2 = (Inr (), db')"
    have "cr_role c = RMember \<and> \<not> sql_exists (member_key org ?l) (db_members db2)"
      using auto_join_result [OF _ _ r [symmetric] inv'] aj by blast
    then show ?thesis using id aj by (simp add: db2(1) member_key_claim ms)
  qed
qed


text \<open>
  C21: Whoever a sign-in admits is the GitHub account that signed in, and either was a member already, with that
  role, or takes an invite to the login nobody had claimed, with the invite's role, or was let in by GitHub's
  organization under a login that had no membership, as an ordinary member.
\<close>

theorem signIn_admits_only_invited:
  assumes "auth_inv db" "fresh \<notin> us_id ` set (db_users db)"
    and "signIn fresh now g org autoJoin db = (Inr (Some c), db')"
  shows "ur_githubUserId (cr_user c) = \<lfloor>gi_githubUserId g\<rfloor> \<and>
    ((\<exists>m \<in> set (db_members db). in_org org (ur_id (cr_user c)) m \<and> mb_role m = cr_role c \<and>
        (\<exists>u \<in> set (db_users db). us_id u = ur_id (cr_user c) \<and> us_github_user_id u = \<lfloor>gi_githubUserId g\<rfloor>)) \<or>
     (\<exists>m \<in> set (db_members db). member_key org (js_lower (gi_login g)) m \<and> mb_user_id m = None \<and> mb_role m = cr_role c) \<or>
     (autoJoin \<and> cr_role c = RMember \<and> \<not> sql_exists (member_key org (js_lower (gi_login g))) (db_members db)))"
  by (rule signIn_admits [OF assms])

text \<open>A deployment in which alice, since renamed to alicia, holds the membership she was invited to.\<close>

definition demo_uuid :: "nat \<Rightarrow> uuid" where
  "demo_uuid n = ''00000000-0000-4000-8000-00000000000'' @ nat_str n"

definition alice :: user_row where
  "alice = \<lparr>us_id = demo_uuid 1, us_github_user_id = 7, us_github_login = ''alicia'', us_display_name = None,
     us_avatar_url = None, us_last_login_at = Some 5\<rparr>"

definition alice_member :: member_row where
  "alice_member = \<lparr>mb_org_id = ''acme'', mb_github_login = ''alice'', mb_user_id = Some (demo_uuid 1), mb_role = RAdmin,
     mb_claimed_at = Some 5\<rparr>"

definition bob_invite :: member_row where
  "bob_invite = \<lparr>mb_org_id = ''acme'', mb_github_login = ''bob'', mb_user_id = None, mb_role = RAdmin, mb_claimed_at = None\<rparr>"

definition demo_db :: auth_db where
  "demo_db = \<lparr>db_orgs = [''acme''], db_users = [alice], db_members = [alice_member, bob_invite],
     db_sessions = [\<lparr>ss_token_hash = ''h1'', ss_user_id = demo_uuid 1, ss_expires_at = 100\<rparr>],
     db_workers = [\<lparr>wk_org_id = ''acme'', wk_id = demo_uuid 3, wk_token_hash = ''w1'', wk_name = ''box'', wk_created_at = 1,
       wk_last_used_at = None, wk_revoked_at = None\<rparr>]\<rparr>"

definition github_account :: "rat \<Rightarrow> string \<Rightarrow> GitHubIdentity" where
  "github_account n login = \<lparr>gi_githubUserId = n, gi_login = login, gi_displayName = None, gi_avatarUrl = None\<rparr>"

lemma demo_uuid_inject [simp]: "demo_uuid m = demo_uuid n \<longleftrightarrow> m = n"
  by (simp add: demo_uuid_def)

lemma demo_lower: "js_lower ''alice'' = ''alice''" "js_lower ''bob'' = ''bob''" "js_lower ''Bob'' = ''bob''"
  by code_simp+

lemma demo_inv: "auth_inv demo_db"
  by (auto simp: auth_inv_def demo_db_def users_ok_def members_ok_def member_row_ok_def sessions_ok_def alice_def
      alice_member_def bob_invite_def row_member_key_def in_org_def demo_lower)

lemma demo_fresh: "demo_uuid 2 \<notin> us_id ` set (db_users demo_db)"
  by (simp add: demo_db_def alice_def)

lemma bob_signs_in:
  "signIn (demo_uuid 2) 9 (github_account 8 ''Bob'') ''acme'' False demo_db =
   (Inr (Some \<lparr>cr_user = \<lparr>ur_id = demo_uuid 2, ur_githubUserId = 8, ur_login = ''bob'', ur_displayName = None\<rparr>,
      cr_role = RAdmin\<rparr>),
    demo_db\<lparr>db_users := [user_of_identity (demo_uuid 2) 9 (github_account 8 ''Bob''), alice],
      db_members := [alice_member, claim_member (demo_uuid 2) 9 bob_invite]\<rparr>)"
  by (simp add: signIn_def upsert_user_def github_account_def demo_db_def alice_def alice_member_def bob_invite_def pg_text_def
      opt_ok_def pg_int8_def is_integer_def sql_first_def has_github_id_def Let_def claim_invites_def sql_update_def
      claimable_invite_def sql_exists_def in_org_def memberOf_def toCaller_def user_of_identity_def is_user_def
      claim_member_def demo_lower)

theorem signIn_admits_only_invited_witness:
  "ur_githubUserId \<lparr>ur_id = demo_uuid 2, ur_githubUserId = 8, ur_login = ''bob'', ur_displayName = None\<rparr> =
     \<lfloor>gi_githubUserId (github_account 8 ''Bob'')\<rfloor> \<and>
   (\<exists>m \<in> set (db_members demo_db). member_key ''acme'' ''bob'' m \<and> mb_user_id m = None)"
  using signIn_admits_only_invited [OF demo_inv demo_fresh bob_signs_in]
  by (auto simp: github_account_def demo_lower demo_db_def alice_member_def bob_invite_def member_key_def in_org_def)

text \<open>
  A membership somebody holds is theirs until it is removed: whatever statements run, none of them the removal
  of that membership, the same account holds it afterwards, and no other. A different account that has taken over the login and is no
  member is refused, also when GitHub's organization would let it in.
\<close>

theorem held_membership_is_not_taken_over:
  assumes "auth_inv db" "auth_ops_ok ops db" "held_by (org, js_lower (gi_login g)) i db"
    and "list_all (\<lambda>a. \<not> removes (org, js_lower (gi_login g)) a) ops"
  shows "(\<forall>j. held_by (org, js_lower (gi_login g)) j (auth_run ops db) \<longleftrightarrow> j = i) \<and>
    (\<forall>fresh now autoJoin r db'. fresh \<notin> us_id ` set (db_users (auth_run ops db)) \<longrightarrow>
       (\<forall>u \<in> set (db_users (auth_run ops db)). us_github_user_id u = \<lfloor>gi_githubUserId g\<rfloor> \<longrightarrow>
          \<not> sql_exists (in_org org (us_id u)) (db_members (auth_run ops db))) \<longrightarrow>
       signIn fresh now g org autoJoin (auth_run ops db) = (Inr r, db') \<longrightarrow> r = None)"
proof -
  let ?k = "(org, js_lower (gi_login g))"
  let ?db = "auth_run ops db"
  have inv: "auth_inv ?db" by (rule auth_run_inv [OF assms(1,2)])
  have held: "held_by ?k i ?db" by (rule held_by_run [OF assms(3,4)])
  then obtain m where m: "m \<in> set (db_members ?db)" "row_member_key m = ?k" "mb_user_id m = Some i"
    unfolding held_by_def by blast
  have keys: "distinct (map row_member_key (db_members ?db))" using inv by (simp add: auth_inv_def members_ok_def)
  have "r = None" if "fresh \<notin> us_id ` set (db_users ?db)"
    and out: "\<forall>u \<in> set (db_users ?db). us_github_user_id u = \<lfloor>gi_githubUserId g\<rfloor> \<longrightarrow>
      \<not> sql_exists (in_org org (us_id u)) (db_members ?db)"
    and s: "signIn fresh now g org autoJoin ?db = (Inr r, db')" for fresh now autoJoin r db'
  proof (rule ccontr)
    assume "r \<noteq> None"
    then obtain c where c: "r = Some c" by blast
    have unclaimed: "\<not> (member_key org (js_lower (gi_login g)) m' \<and> mb_user_id m' = None)" if "m' \<in> set (db_members ?db)" for m'
    proof
      assume k: "member_key org (js_lower (gi_login g)) m' \<and> mb_user_id m' = None"
      then have "row_member_key m' = row_member_key m" using m(2) by (simp add: member_key_def row_member_key_def)
      then have "m' = m" using distinct_key_unique [OF keys that m(1)] by simp
      then show False using k m(3) by simp
    qed
    have taken: "sql_exists (member_key org (js_lower (gi_login g))) (db_members ?db)"
      using m(1,2) by (auto simp: sql_exists_iff member_key_def row_member_key_def)
    from signIn_admits [OF inv that(1) s [unfolded c], THEN conjunct2] show False
    proof (elim disjE bexE conjE)
      fix m' u
      assume "m' \<in> set (db_members ?db)" "in_org org (ur_id (cr_user c)) m'" "u \<in> set (db_users ?db)"
        "us_id u = ur_id (cr_user c)" "us_github_user_id u = \<lfloor>gi_githubUserId g\<rfloor>"
      then show False using out by (auto simp: sql_exists_iff)
    next
      fix m'
      assume "m' \<in> set (db_members ?db)" "member_key org (js_lower (gi_login g)) m'" "mb_user_id m' = None"
      then show False using unclaimed by blast
    next
      assume "\<not> sql_exists (member_key org (js_lower (gi_login g))) (db_members ?db)"
      then show False using taken by blast
    qed
  qed
  then show ?thesis using held held_by_unique [OF inv] by blast
qed

lemma demo_held: "held_by (''acme'', js_lower (gi_login (github_account 9 ''alice''))) (demo_uuid 1) demo_db"
  by (simp add: held_by_def demo_db_def alice_member_def row_member_key_def github_account_def demo_lower)

theorem held_membership_is_not_taken_over_witness:
  "held_by (''acme'', ''alice'') (demo_uuid 1) (auth_run [OpDeleteSession ''h1'', OpInvite ''acme'' ''carol'' RMember] demo_db)"
  using held_membership_is_not_taken_over [OF demo_inv _ demo_held, of "[OpDeleteSession ''h1'', OpInvite ''acme'' ''carol'' RMember]"]
  by (simp add: removes_def github_account_def demo_lower)


text \<open>
  Removing a member ends their access at once: no session token finds them in that organization any more,
  whatever the time, and none of their sessions is left; every other member's sessions work as before.
\<close>

theorem removal_ends_access_at_once:
  assumes "auth_inv db" "held_by (org, js_lower login) i db" "removeMember org login db = (r, db')"
  shows "r = Removed \<and>
    (\<forall>h now c. findSession h org now db' = Some c \<longrightarrow> ur_id (cr_user c) \<noteq> i) \<and>
    (\<forall>s \<in> set (db_sessions db'). ss_user_id s \<noteq> i) \<and>
    (\<forall>h now c. findSession h org now db = Some c \<longrightarrow> ur_id (cr_user c) \<noteq> i \<longrightarrow> findSession h org now db' = Some c)"
proof -
  let ?p = "member_key org (js_lower login)"
  obtain m where m: "m \<in> set (db_members db)" "row_member_key m = (org, js_lower login)" "mb_user_id m = Some i"
    using assms(2) unfolding held_by_def by blast
  have ok: "members_ok (us_id ` set (db_users db)) (db_members db)" using assms(1) by (simp add: auth_inv_def)
  have pm: "?p q \<longleftrightarrow> row_member_key q = row_member_key m" for q
    by (simp add: m(2)) (simp add: member_key_def row_member_key_def)
  have first: "sql_first ?p (db_members db) = Some m"
    by (rule sql_first_unique [where p = ?p, OF members_okD(1) [OF ok] m(1)]) (simp_all add: pm)
  have r: "r = Removed" and db': "db' = delete_sessions_of i (delete_member org login db)"
    using assms(3) first m(3) by (auto simp: removeMember_def)
  have inv1: "auth_inv (delete_member org login db)"
    using auth_do_inv [OF assms(1), of "OpDeleteMember org login"] by simp
  then have inv': "auth_inv db'" using auth_do_inv [of _ "OpDeleteSessionsOf i"] by (simp add: db')
  have ms: "set (db_members db') = {q \<in> set (db_members db). \<not> ?p q}"
    by (simp add: db' delete_sessions_of_def delete_member_def sql_simps)
  have ss: "set (db_sessions db') = {s \<in> set (db_sessions db). ss_user_id s \<noteq> i}"
    by (simp add: db' delete_sessions_of_def delete_member_def sql_simps)
  have us: "db_users db' = db_users db" by (simp add: db' delete_sessions_of_def delete_member_def)
  have gone: "ur_id (cr_user c) \<noteq> i" if "findSession h org now db' = Some c" for h now c
  proof -
    from that [unfolded findSession_iff [OF inv']]
    obtain s q u where "s \<in> set (db_sessions db')" "u \<in> set (db_users db')" "us_id u = ss_user_id s" "c = toCaller u q"
      by blast
    then show ?thesis by (auto simp: ss)
  qed
  have kept: "findSession h org now db' = Some c" if "findSession h org now db = Some c" "ur_id (cr_user c) \<noteq> i" for h now c
  proof -
    from that(1) [unfolded findSession_iff [OF assms(1)]]
    obtain s q u where q: "s \<in> set (db_sessions db)" "ss_token_hash s = h" "now < ss_expires_at s"
      "q \<in> set (db_members db)" "in_org org (ss_user_id s) q" "u \<in> set (db_users db)" "us_id u = ss_user_id s" "c = toCaller u q"
      by blast
    have i: "ss_user_id s \<noteq> i" using that(2) q(7,8) by simp
    have np: "\<not> ?p q"
    proof
      assume "?p q"
      then have "q = m" using distinct_key_unique [OF members_okD(1) [OF ok] q(4) m(1)] pm by simp
      then show False using q(5) m(3) i by (simp add: in_org_def)
    qed
    have "s \<in> set (db_sessions db')" "q \<in> set (db_members db')" "u \<in> set (db_users db')"
      using q(1,4,6) i np by (simp_all add: ms ss us)
    then show ?thesis unfolding findSession_iff [OF inv'] using q(2,3,5,7,8) by blast
  qed
  have "\<forall>s \<in> set (db_sessions db'). ss_user_id s \<noteq> i" by (simp add: ss)
  then show ?thesis using r gone kept by blast
qed

lemma demo_session: "findSession ''h1'' ''acme'' 50 demo_db = Some (toCaller alice alice_member)"
  by (simp add: findSession_def demo_db_def sql_first_def live_session_def memberOf_def in_org_def alice_member_def is_user_def
      alice_def bob_invite_def)

theorem removal_ends_access_at_once_witness:
  "findSession ''h1'' ''acme'' 50 demo_db \<noteq> None \<and>
   findSession ''h1'' ''acme'' 50 (snd (removeMember ''acme'' ''alice'' demo_db)) = None"
proof -
  have "held_by (''acme'', js_lower ''alice'') (demo_uuid 1) demo_db" using demo_held by (simp add: github_account_def)
  from removal_ends_access_at_once [OF demo_inv this surjective_pairing]
  have none: "\<forall>s \<in> set (db_sessions (snd (removeMember ''acme'' ''alice'' demo_db))). ss_user_id s \<noteq> demo_uuid 1" by blast
  have "set (db_sessions (snd (removeMember ''acme'' ''alice'' demo_db))) \<subseteq> set (db_sessions demo_db)"
    by (auto simp: removeMember_def delete_member_def delete_sessions_of_def sql_simps split: option.splits)
  moreover have "\<forall>s \<in> set (db_sessions demo_db). ss_user_id s = demo_uuid 1" by (simp add: demo_db_def)
  ultimately have "db_sessions (snd (removeMember ''acme'' ''alice'' demo_db)) = []"
    using none by (metis list.set_intros(1) neq_Nil_conv subsetD)
  then have "findSession ''h1'' ''acme'' 50 (snd (removeMember ''acme'' ''alice'' demo_db)) = None"
    by (simp add: findSession_def sql_first_def)
  then show ?thesis by (simp add: demo_session)
qed

section \<open>The wall\<close>

text \<open>
  C22: A request gets past the wall of a deployment with accounts only with the credential its path asks for: on a
  path for users, the session cookie this server signed for a token whose session is live and whose account is a member;
  on a path for workers, a bearer token that is on record for this organization and not revoked; neither stands
  in for the other; on an ingest path, the ingest token when there is one.
\<close>

theorem wall_asks_for_the_right_credential:
  assumes "auth_inv db" "ac_auth config = AuthGitHub g" "onRequest config env req db = (Continues p, db')"
  shows "case requirementFor (pathOf (rq_url req)) of
      NeedsNothing \<Rightarrow> p = None
    | NeedsIngest \<Rightarrow> p = None \<and> (gh_ingestToken g = None \<or> gh_ingestToken g = Some [] \<or> rq_ingestToken req = gh_ingestToken g)
    | NeedsWorker \<Rightarrow> (\<exists>token w. bearer req = Some token \<and> w \<in> set (db_workers db) \<and>
        wk_token_hash w = hashToken (ae_sha256 env) token \<and> wk_revoked_at w = None \<and> wk_org_id w = ac_orgId config \<and>
        p = Some (PrWorker \<lparr>wi_orgId = wk_org_id w, wi_id = wk_id w, wi_name = wk_name w\<rparr>))
    | NeedsUser \<Rightarrow> (\<exists>token s m u. rq_cookie req SESSION_COOKIE = Some (sign (ae_hmac env) token (gh_sessionSecret g)) \<and>
        s \<in> set (db_sessions db) \<and> ss_token_hash s = hashToken (ae_sha256 env) token \<and> ae_now env < ss_expires_at s \<and>
        m \<in> set (db_members db) \<and> in_org (ac_orgId config) (ss_user_id s) m \<and> u \<in> set (db_users db) \<and>
        us_id u = ss_user_id s \<and> p = Some (PrUser (toCaller u m)) \<and> db' = db)"
proof (cases "requirementFor (pathOf (rq_url req))")
  case NeedsNothing
  then show ?thesis using assms(3) by (simp add: onRequest_def)
next
  case NeedsIngest
  then show ?thesis
    using assms(2,3)
    by (auto simp: onRequest_def ingest_hook_def auth_ingestToken_def truthy_def secretsMatch_def split: if_splits option.splits)
next
  case NeedsWorker
  then obtain token w where tw: "bearer req = Some token"
      "sql_first (live_worker (hashToken (ae_sha256 env) token)) (db_workers db) = Some w" "wk_org_id w = ac_orgId config"
      "p = Some (PrWorker \<lparr>wi_orgId = wk_org_id w, wi_id = wk_id w, wi_name = wk_name w\<rparr>)"
    using assms(2,3)
    by (auto simp: onRequest_def worker_hook_def findWorkerToken_def split: option.splits if_splits)
  then show ?thesis using NeedsWorker sql_first_Some [OF tw(2)] by (auto simp: live_worker_def)
next
  case NeedsUser
  then obtain c where c: "resolveUser config env req db = Inr (Some c)" "p = Some (PrUser c)" "db' = db"
    using assms(3) by (auto simp: onRequest_def split: option.splits sum.splits)
  then obtain token where t: "unsign (ae_hmac env) (rq_cookie req SESSION_COOKIE) (gh_sessionSecret g) = Some token"
      "findSession (hashToken (ae_sha256 env) token) (ac_orgId config) (ae_now env) db = Some c"
    using assms(2) by (auto simp: resolveUser_def auth_read_def split: option.splits if_splits)
  have cookie: "rq_cookie req SESSION_COOKIE = Some (sign (ae_hmac env) token (gh_sessionSecret g))"
    using t(1) unfolding unsign_iff by blast
  from t(2) show ?thesis
    unfolding findSession_iff [OF assms(1)] using cookie c(2,3) NeedsUser by (simp add: c(2)) blast
qed

definition demo_auth :: GitHubAuth where
  "demo_auth = \<lparr>gh_clientId = ''id'', gh_clientSecret = ''cs'', gh_sessionSecret = ''01234567890123456789012345678901'',
     gh_sessionTtlMs = 1000, gh_cookieSecure = True, gh_publicUrl = ''https://f'', gh_bootstrapAdmin = None,
     gh_autoJoinGithubOrg = None, gh_ingestToken = None, gh_authorizeUrl = ''a'', gh_tokenUrl = ''t'', gh_userUrl = ''u''\<rparr>"

definition demo_config :: AppConfig where
  "demo_config = \<lparr>ac_orgId = ''acme'', ac_orgName = ''Acme'', ac_github = GitHubNone, ac_baseBranch = ''dev'', ac_bots = [],
     ac_syncTtlMs = 60000, ac_port = 8080, ac_host = ''127.0.0.1'', ac_webRoot = None, ac_telemetrySource = TsOff,
     ac_databaseUrl = ''postgres://db/x'', ac_telemetryTtlMs = 30000, ac_workspaceRoot = Some ''/w'',
     ac_auth = AuthGitHub demo_auth\<rparr>"

text \<open>A keyed digest and a digest for the demonstration: the message with a prefix, and the first two characters.\<close>

definition demo_env :: auth_env where
  "demo_env = \<lparr>ae_hmac = (\<lambda>k v. ''m'' @ v), ae_sha256 = take 2, ae_now = 50, ae_down = None, ae_local = None\<rparr>"

definition worker_request :: request where
  "worker_request = \<lparr>rq_url = ''/api/jobs/claim?x=1'', rq_cookie = (\<lambda>_. None), rq_authorization = Some ''Bearer w1'',
     rq_ingestToken = None\<rparr>"

lemma worker_passes:
  "onRequest demo_config demo_env worker_request demo_db =
   (Continues (Some (PrWorker \<lparr>wi_orgId = ''acme'', wi_id = demo_uuid 3, wi_name = ''box''\<rparr>)),
    snd (findWorkerToken ''w1'' 50 demo_db))"
proof -
  have "requirementFor (pathOf (rq_url worker_request)) = NeedsWorker" by code_simp
  moreover have "bearer worker_request = Some ''w1''" by code_simp
  ultimately show ?thesis
    by (simp add: onRequest_def worker_hook_def demo_config_def demo_env_def hashToken_def utf8_def utf8_char_def Let_def
        findWorkerToken_def demo_db_def sql_first_def live_worker_def)
qed

lemma requirement_worker: "requirementFor (pathOf (rq_url worker_request)) = NeedsWorker"
  by code_simp

theorem wall_asks_for_the_right_credential_witness:
  "\<exists>token w. bearer worker_request = Some token \<and> w \<in> set (db_workers demo_db) \<and> wk_org_id w = ''acme''"
proof -
  have "ac_auth demo_config = AuthGitHub demo_auth" by (simp add: demo_config_def)
  from wall_asks_for_the_right_credential [OF demo_inv this worker_passes]
  have "\<exists>token w. bearer worker_request = Some token \<and> w \<in> set (db_workers demo_db) \<and> wk_org_id w = ac_orgId demo_config"
    using requirement_worker by auto
  then show ?thesis by (simp add: demo_config_def)
qed

text \<open>The decoding of a path by the router: a percent sign and two hexadecimal digits stand for a character.\<close>

fun path_decode :: "string \<Rightarrow> string" where
  "path_decode (p # a # b # s) =
     (if p = CHR ''%'' \<and> is_hex_i a \<and> is_hex_i b then char_of (16 * hex_val a + hex_val b) # path_decode s
      else p # path_decode (a # b # s))"
| "path_decode s = s"

text \<open>
  The wall reads the path as it was sent, not as it is routed: when the first letter of \<open>/api/\<close> is
  percent-encoded, every deployment lets the request through without any credential and with no caller, while the decoded path is the
  route that was meant.
\<close>

theorem encoded_path_passes_the_wall:
  "path_decode (''/%61pi/'' @ rest) = ''/api/'' @ path_decode rest \<and>
   onRequest config env (req\<lparr>rq_url := ''/%61pi/'' @ rest\<rparr>) db = (Continues None, db) \<and>
   callerOf None = None"
proof -
  have a: "(char_of (97 :: nat) :: char) = CHR ''a''" by code_simp
  have "\<not> starts_with (pathOf (''/%61pi/'' @ rest)) ''/api/''" by (simp add: pathOf_def)
  moreover have "path_decode (''/%61pi/'' @ rest) = ''/api/'' @ path_decode rest"
    by (cases rest; cases "tl rest") (simp_all add: is_hex_i_def is_digit_def lower_char_def hex_val_def digit_val_def a)
  ultimately show ?thesis by (simp add: onRequest_def requirementFor_def callerOf_def)
qed

end
