(* ===== verification/RepoStore.thy ===== *)
theory RepoStore
  imports JobStore ServerConfig
begin

text \<open>
  The repositories members selected, \<open>server/src/db/user-repo-store.ts\<close>, and the executors they configured,
  \<open>server/src/db/user-executor-store.ts\<close>, with the constraints of \<open>011_user_workspace.sql\<close> and
  \<open>012_user_executors.sql\<close> that a statement can violate. A transaction that fails leaves the table as it was. \<open>accounts\<close>
  tells which user ids have an account, \<open>coll\<close> is the collation of the database.
\<close>

section \<open>Selected repositories\<close>

datatype CloneStatus = CsQueued | CsCloning | CsReady | CsFailed

record repo_row =
  rr_org_id :: string
  rr_user_id :: uuid
  rr_owner :: string
  rr_name :: string
  rr_status :: CloneStatus
  rr_error :: "string option"
  rr_attempts :: int
  rr_selected_at :: int
  rr_deselected_at :: "int option"
  rr_started_at :: "int option"
  rr_ready_at :: "int option"

record UserRepo =
  ur_repo :: Repo
  ur_status :: CloneStatus
  ur_error :: "string option"
  ur_attempts :: int
  ur_selectedAt :: string
  ur_startedAt :: "string option"
  ur_readyAt :: "string option"

record PendingClone =
  pc_userId :: uuid
  pc_repo :: Repo

definition toUserRepo :: "repo_row \<Rightarrow> UserRepo" where
  "toUserRepo row =
     \<lparr>ur_repo = \<lparr>repo_owner = rr_owner row, repo_name = rr_name row\<rparr>, ur_status = rr_status row, ur_error = rr_error row,
      ur_attempts = rr_attempts row, ur_selectedAt = iso_us (rr_selected_at row),
      ur_startedAt = map_option iso_us (rr_started_at row), ur_readyAt = map_option iso_us (rr_ready_at row)\<rparr>"

definition of_member :: "string \<Rightarrow> uuid \<Rightarrow> repo_row \<Rightarrow> bool" where
  "of_member org u r \<longleftrightarrow> rr_org_id r = org \<and> rr_user_id r = u"

definition is_repo :: "string \<Rightarrow> uuid \<Rightarrow> Repo \<Rightarrow> repo_row \<Rightarrow> bool" where
  "is_repo org u repo r \<longleftrightarrow> of_member org u r \<and> rr_owner r = repo_owner repo \<and> rr_name r = repo_name repo"

definition same_dir :: "string \<Rightarrow> uuid \<Rightarrow> Repo \<Rightarrow> repo_row \<Rightarrow> bool" where
  "same_dir org u repo r \<longleftrightarrow> of_member org u r \<and> rr_name r = repo_name repo"

abbreviation name_check_error :: string where
  "name_check_error \<equiv> ''new row for relation user_repo violates check constraint user_repo_name_ck''"
abbreviation dir_unique_error :: string where
  "dir_unique_error \<equiv> ''duplicate key value violates unique constraint user_repo_dir_uk''"
abbreviation twice_error :: string where
  "twice_error \<equiv> ''ON CONFLICT DO UPDATE command cannot affect row a second time''"
abbreviation account_fk_error :: string where
  "account_fk_error \<equiv> ''insert or update on table user_repo violates foreign key constraint user_repo_user_fk''"

text \<open>\<open>user_repo_name_ck\<close> on one of the two names.\<close>

definition segment_ok :: "string \<Rightarrow> bool" where
  "segment_ok s \<longleftrightarrow> s \<noteq> [] \<and> CHR ''/'' \<notin> set s \<and> CHR 0x5C \<notin> set s \<and> hd s \<noteq> CHR ''-'' \<and> hd s \<noteq> CHR ''.''"

definition new_repo :: "string \<Rightarrow> uuid \<Rightarrow> int \<Rightarrow> Repo \<Rightarrow> repo_row" where
  "new_repo org u now repo =
     \<lparr>rr_org_id = org, rr_user_id = u, rr_owner = repo_owner repo, rr_name = repo_name repo, rr_status = CsQueued,
      rr_error = None, rr_attempts = 0, rr_selected_at = now, rr_deselected_at = None, rr_started_at = None, rr_ready_at = None\<rparr>"

definition reselect :: "int \<Rightarrow> repo_row \<Rightarrow> repo_row" where
  "reselect now r =
     r\<lparr>rr_deselected_at := None, rr_selected_at := now,
       rr_status := (if rr_status r = CsReady then CsReady else CsQueued),
       rr_error := (if rr_status r = CsReady then rr_error r else None)\<rparr>"

text \<open>The insert of one row of the statement, then of all: the rows it has touched come with it.\<close>

definition upsert_repo ::
  "string \<Rightarrow> uuid \<Rightarrow> int \<Rightarrow> Repo \<Rightarrow> Repo list \<Rightarrow> repo_row list \<Rightarrow> string + repo_row list"
where
  "upsert_repo org u now repo touched t =
     (if \<not> pg_text (repo_owner repo) \<or> \<not> pg_text (repo_name repo) then Inl text_error
      else if \<not> segment_ok (repo_owner repo) \<or> \<not> segment_ok (repo_name repo) then Inl name_check_error
      else if repo \<in> set touched then Inl twice_error
      else if sql_exists (is_repo org u repo) t then Inr (sql_update (is_repo org u repo) (reselect now) t)
      else if sql_exists (same_dir org u repo) t then Inl dir_unique_error
      else Inr (new_repo org u now repo # t))"

fun upsert_repos ::
  "string \<Rightarrow> uuid \<Rightarrow> int \<Rightarrow> Repo list \<Rightarrow> Repo list \<Rightarrow> repo_row list \<Rightarrow> string + repo_row list"
where
  "upsert_repos org u now [] touched t = Inr t"
| "upsert_repos org u now (repo # repos) touched t =
     (case upsert_repo org u now repo touched t of
        Inl e \<Rightarrow> Inl e
      | Inr t' \<Rightarrow> upsert_repos org u now repos (repo # touched) t')"

definition full_key :: "repo_row \<Rightarrow> string" where
  "full_key r = rr_owner r @ ''/'' @ rr_name r"

definition deselected :: "string \<Rightarrow> uuid \<Rightarrow> string list \<Rightarrow> repo_row \<Rightarrow> bool" where
  "deselected org u keys r \<longleftrightarrow> of_member org u r \<and> rr_deselected_at r = None \<and> full_key r \<notin> set keys"

definition select_repos ::
  "string \<Rightarrow> (uuid \<Rightarrow> bool) \<Rightarrow> uuid \<Rightarrow> int \<Rightarrow> Repo list \<Rightarrow> repo_row list \<Rightarrow> (string + unit) \<times> repo_row list"
where
  "select_repos org accounts u now repos t =
     (if repos \<noteq> [] \<and> \<not> accounts u then (Inl account_fk_error, t)
      else (case upsert_repos org u now repos [] t of
          Inl e \<Rightarrow> (Inl e, t)
        | Inr t' \<Rightarrow> (Inr (),
            sql_update (deselected org u (map fullName repos)) (\<lambda>r. r\<lparr>rr_deselected_at := Some now\<rparr>) t')))"

definition list_repos :: "(string \<Rightarrow> 'k :: linorder) \<Rightarrow> string \<Rightarrow> uuid \<Rightarrow> repo_row list \<Rightarrow> UserRepo list" where
  "list_repos coll org u t =
     map toUserRepo (sort_key (\<lambda>r. (coll (rr_owner r), coll (rr_name r)))
       (filter (\<lambda>r. of_member org u r \<and> rr_deselected_at r = None) t))"

definition orphaned_repos :: "(string \<Rightarrow> 'k :: linorder) \<Rightarrow> string \<Rightarrow> uuid \<Rightarrow> repo_row list \<Rightarrow> UserRepo list" where
  "orphaned_repos coll org u t =
     map toUserRepo (sort_key (\<lambda>r. (coll (rr_owner r), coll (rr_name r)))
       (filter (\<lambda>r. of_member org u r \<and> rr_deselected_at r \<noteq> None) t))"

section \<open>The queue's statements\<close>

definition pending :: "string \<Rightarrow> repo_row \<Rightarrow> bool" where
  "pending org r \<longleftrightarrow> rr_org_id r = org \<and> rr_status r = CsQueued \<and> rr_deselected_at r = None"

definition row_repo :: "repo_row \<Rightarrow> Repo" where
  "row_repo r = \<lparr>repo_owner = rr_owner r, repo_name = rr_name r\<rparr>"

definition start_clone :: "int \<Rightarrow> repo_row \<Rightarrow> repo_row" where
  "start_clone now r =
     r\<lparr>rr_status := CsCloning, rr_started_at := Some now, rr_attempts := rr_attempts r + 1, rr_error := None\<rparr>"

definition pending_picked :: "string \<Rightarrow> int \<Rightarrow> (repo_row \<Rightarrow> bool) \<Rightarrow> repo_row list \<Rightarrow> repo_row list" where
  "pending_picked org limit locked t =
     take (nat limit) (sort_key rr_selected_at (filter (\<lambda>r. pending org r \<and> \<not> locked r) t))"

definition claimPending ::
  "string \<Rightarrow> int \<Rightarrow> int \<Rightarrow> (repo_row \<Rightarrow> bool) \<Rightarrow> repo_row list \<Rightarrow> PendingClone list \<times> repo_row list"
where
  "claimPending org limit now locked t =
     (if limit \<le> 0 then ([], t)
      else let picked = pending_picked org limit locked t in
        (map (\<lambda>r. \<lparr>pc_userId = rr_user_id r, pc_repo = row_repo r\<rparr>) picked,
         sql_update (\<lambda>r. list_ex (\<lambda>c. is_repo org (rr_user_id c) (row_repo c) r) picked) (start_clone now) t))"

definition markReady :: "string \<Rightarrow> int \<Rightarrow> uuid \<Rightarrow> Repo \<Rightarrow> repo_row list \<Rightarrow> repo_row list" where
  "markReady org now u repo t =
     sql_update (is_repo org u repo) (\<lambda>r. r\<lparr>rr_status := CsReady, rr_ready_at := Some now, rr_error := None\<rparr>) t"

definition markFailed :: "string \<Rightarrow> uuid \<Rightarrow> Repo \<Rightarrow> string \<Rightarrow> repo_row list \<Rightarrow> (string + unit) \<times> repo_row list" where
  "markFailed org u repo err t =
     (if \<not> pg_text (take 2000 err) then (Inl text_error, t)
      else (Inr (), sql_update (is_repo org u repo) (\<lambda>r. r\<lparr>rr_status := CsFailed, rr_error := Some (take 2000 err)\<rparr>) t))"

definition stranded :: "string \<Rightarrow> repo_row \<Rightarrow> bool" where
  "stranded org r \<longleftrightarrow> rr_org_id r = org \<and> rr_status r = CsCloning"

definition requeueStranded :: "string \<Rightarrow> repo_row list \<Rightarrow> nat \<times> repo_row list" where
  "requeueStranded org t =
     (length (filter (stranded org) t),
      sql_update (stranded org) (\<lambda>r. r\<lparr>rr_status := CsQueued, rr_error := None\<rparr>) t)"

section \<open>Executors\<close>

record executor_row =
  xr_org_id :: string
  xr_user_id :: uuid
  xr_name :: string
  xr_type :: string
  xr_config :: json
  xr_created_at :: int
  xr_updated_at :: int

record UserExecutor =
  xu_name :: string
  xu_type :: string
  xu_createdAt :: string
  xu_updatedAt :: string

record executor_body =
  xb_name :: string
  xb_type :: string
  xb_config :: "(string \<times> json) list"

definition toUserExecutor :: "executor_row \<Rightarrow> UserExecutor" where
  "toUserExecutor r =
     \<lparr>xu_name = xr_name r, xu_type = xr_type r, xu_createdAt = iso_us (xr_created_at r), xu_updatedAt = iso_us (xr_updated_at r)\<rparr>"

definition executor_row_of :: "string \<Rightarrow> uuid \<Rightarrow> int \<Rightarrow> executor_body \<Rightarrow> executor_row" where
  "executor_row_of org u now x =
     \<lparr>xr_org_id = org, xr_user_id = u, xr_name = xb_name x, xr_type = xb_type x, xr_config = JObj (xb_config x),
      xr_created_at = now, xr_updated_at = now\<rparr>"

abbreviation executor_check_error :: string where
  "executor_check_error \<equiv> ''new row for relation user_executor violates a check constraint''"
abbreviation executor_unique_error :: string where
  "executor_unique_error \<equiv> ''duplicate key value violates unique constraint user_executor_pk''"

definition replace_executors ::
  "string \<Rightarrow> string list \<Rightarrow> (uuid \<Rightarrow> bool) \<Rightarrow> uuid \<Rightarrow> int \<Rightarrow> executor_body list \<Rightarrow> executor_row list \<Rightarrow>
    (string + unit) \<times> executor_row list"
where
  "replace_executors org stored_types accounts u now xs t =
     (if list_ex (\<lambda>x. \<not> pg_text (xb_name x)) xs then (Inl text_error, t)
      else if list_ex (\<lambda>x. \<not> segment_ok (xb_name x) \<or> xb_type x \<notin> set stored_types) xs then (Inl executor_check_error, t)
      else if \<not> distinct (map xb_name xs) then (Inl executor_unique_error, t)
      else if xs \<noteq> [] \<and> \<not> accounts u then (Inl account_fk_error, t)
      else (Inr (), map (executor_row_of org u now) xs @ sql_delete (\<lambda>r. xr_org_id r = org \<and> xr_user_id r = u) t))"

definition list_executors :: "(string \<Rightarrow> 'k :: linorder) \<Rightarrow> string \<Rightarrow> uuid \<Rightarrow> executor_row list \<Rightarrow> UserExecutor list" where
  "list_executors coll org u t =
     map toUserExecutor (sort_key (\<lambda>r. (xr_created_at r, coll (xr_name r)))
       (filter (\<lambda>r. xr_org_id r = org \<and> xr_user_id r = u) t))"

end
