(* ===== verification/CloneQueue.thy ===== *)
theory CloneQueue
  imports RepoStore Workspace
begin

text \<open>
  The queue that clones what members selected, \<open>server/src/workspace/queue.ts\<close>, as a state machine. One pass at
  a time asks the store for as many rows as there are free slots; each row it gets is a clone of its own,
  which runs in two steps: the clone on disk, then what is recorded of it. Between two steps anything else
  may happen: a selection saved by the route, a kick, a tick of the timer, another clone's step.

  The closures in flight are \<open>qu_running\<close>, with what each has got to; \<open>qu_passing\<close> is the pass in flight with
  the rows it asks for (0 when it returned before asking), \<open>qu_waiting\<close> says that the polling loop waits for
  it. \<open>qu_idles\<close> counts the calls of \<open>onIdle\<close>. Log lines are left out.
\<close>

section \<open>The state\<close>

abbreviation DEFAULT_CLONE_CONCURRENCY :: int where "DEFAULT_CLONE_CONCURRENCY \<equiv> 2"

datatype clone_stage = Fetching | Fetched "string + unit"

record queue_config =
  qc_root :: string
  qc_orgId :: string
  qc_concurrency :: int
  qc_git :: git
  qc_env :: env
  qc_pid :: nat

record clone_queue =
  qu_stopped :: bool
  qu_timer :: bool
  qu_inFlight :: int
  qu_passing :: "int option"
  qu_waiting :: bool
  qu_running :: "(PendingClone \<times> clone_stage) list"
  qu_idles :: nat

record queue_world =
  qw_queue :: clone_queue
  qw_rows :: "repo_row list"
  qw_fs :: fs

definition new_queue :: clone_queue where
  "new_queue =
     \<lparr>qu_stopped = False, qu_timer = False, qu_inFlight = 0, qu_passing = None, qu_waiting = False, qu_running = [],
      qu_idles = 0\<rparr>"

section \<open>Passes\<close>

definition settle :: "clone_queue \<Rightarrow> clone_queue" where
  "settle q = (if qu_passing q = None \<and> qu_inFlight q = 0 then q\<lparr>qu_idles := qu_idles q + 1\<rparr> else q)"

text \<open>What a pass does before it first waits: the free slots, none of them when it returns at once.\<close>

definition pass_room :: "queue_config \<Rightarrow> clone_queue \<Rightarrow> int" where
  "pass_room cfg q = (if qu_stopped q then 0 else max 0 (qc_concurrency cfg - qu_inFlight q))"

definition runPass :: "queue_config \<Rightarrow> clone_queue \<Rightarrow> clone_queue" where
  "runPass cfg q = (case qu_passing q of Some r \<Rightarrow> q | None \<Rightarrow> q\<lparr>qu_passing := Some (pass_room cfg q)\<rparr>)"

text \<open>The rest of a pass, once the store has answered; \<open>refused\<close> is the message when it could not.\<close>

definition start_clones :: "PendingClone list \<Rightarrow> clone_queue \<Rightarrow> clone_queue" where
  "start_clones claimed q =
     q\<lparr>qu_running := qu_running q @ map (\<lambda>c. (c, Fetching)) claimed, qu_inFlight := qu_inFlight q + int (length claimed)\<rparr>"

definition end_pass :: "clone_queue \<Rightarrow> clone_queue" where
  "end_pass q =
     (let q' = settle (q\<lparr>qu_passing := None\<rparr>) in
      if qu_waiting q' then q'\<lparr>qu_waiting := False, qu_timer := \<not> qu_stopped q'\<rparr> else q')"

definition pass ::
  "queue_config \<Rightarrow> int \<Rightarrow> (repo_row \<Rightarrow> bool) \<Rightarrow> string option \<Rightarrow> queue_world \<Rightarrow> queue_world"
where
  "pass cfg now locked refused w =
     (case qu_passing (qw_queue w) of
        None \<Rightarrow> w
      | Some room \<Rightarrow>
          if room \<le> 0 \<or> refused \<noteq> None then w\<lparr>qw_queue := end_pass (qw_queue w)\<rparr>
          else (case claimPending (qc_orgId cfg) room now locked (qw_rows w) of
              (claimed, t) \<Rightarrow> w\<lparr>qw_queue := end_pass (start_clones claimed (qw_queue w)), qw_rows := t\<rparr>))"

section \<open>One clone\<close>

text \<open>The token, then the clone: the first failure is what the closure's \<open>catch\<close> gets.\<close>

definition clone_options :: "queue_config \<Rightarrow> PendingClone \<Rightarrow> string option \<Rightarrow> CloneOptions" where
  "clone_options cfg job token =
     \<lparr>co_root = qc_root cfg, co_orgId = qc_orgId cfg, co_userId = pc_userId job, co_repo = pc_repo job, co_token = token\<rparr>"

definition fetch_clone ::
  "queue_config \<Rightarrow> string + string option \<Rightarrow> PendingClone \<Rightarrow> fs \<Rightarrow> (string + unit) \<times> fs"
where
  "fetch_clone cfg token job f =
     (case token of
        Inl e \<Rightarrow> (Inl e, f)
      | Inr tok \<Rightarrow>
          (case cloneRepo (qc_git cfg) (qc_env cfg) (qc_pid cfg) (clone_options cfg job tok) f of
             (Inl e, f') \<Rightarrow> (Inl e, f')
           | (Inr outcome, f') \<Rightarrow> (Inr (), f')))"

definition clone_step :: "queue_config \<Rightarrow> string + string option \<Rightarrow> nat \<Rightarrow> queue_world \<Rightarrow> queue_world" where
  "clone_step cfg token i w =
     (let q = qw_queue w in
      if i < length (qu_running q) \<and> snd (qu_running q ! i) = Fetching
      then (case fetch_clone cfg token (fst (qu_running q ! i)) (qw_fs w) of
          (r, f) \<Rightarrow> w\<lparr>qw_queue := q\<lparr>qu_running := (qu_running q)[i := (fst (qu_running q ! i), Fetched r)]\<rparr>, qw_fs := f\<rparr>)
      else w)"

text \<open>
  What is recorded: \<open>markReady\<close>, or on any failure, its own included, \<open>markFailed\<close> with the first line of the
  message, whose failure is swallowed. The two messages are those of a store that could not be reached.
\<close>

definition first_line :: "string \<Rightarrow> string" where
  "first_line s = takeWhile (\<lambda>c. c \<noteq> CHR 0x0A) s"

definition record_failure :: "string \<Rightarrow> PendingClone \<Rightarrow> string \<Rightarrow> string option \<Rightarrow> repo_row list \<Rightarrow> repo_row list" where
  "record_failure org job message refused t =
     (case refused of Some e \<Rightarrow> t | None \<Rightarrow> snd (markFailed org (pc_userId job) (pc_repo job) (first_line message) t))"

definition record_outcome ::
  "string \<Rightarrow> int \<Rightarrow> PendingClone \<Rightarrow> string + unit \<Rightarrow> string option \<Rightarrow> string option \<Rightarrow> repo_row list \<Rightarrow> repo_row list"
where
  "record_outcome org now job r refused1 refused2 t =
     (case r of
        Inl e \<Rightarrow> record_failure org job e refused2 t
      | Inr u \<Rightarrow>
          (case refused1 of
             Some e \<Rightarrow> record_failure org job e refused2 t
           | None \<Rightarrow> markReady org now (pc_userId job) (pc_repo job) t))"

definition drop_nth :: "nat \<Rightarrow> 'a list \<Rightarrow> 'a list" where
  "drop_nth i xs = take i xs @ drop (Suc i) xs"

definition free_slot :: "queue_config \<Rightarrow> nat \<Rightarrow> clone_queue \<Rightarrow> clone_queue" where
  "free_slot cfg i q =
     (let q' = q\<lparr>qu_running := drop_nth i (qu_running q), qu_inFlight := qu_inFlight q - 1\<rparr> in
      if qu_stopped q' then settle q' else runPass cfg q')"

definition record_step ::
  "queue_config \<Rightarrow> int \<Rightarrow> string option \<Rightarrow> string option \<Rightarrow> nat \<Rightarrow> queue_world \<Rightarrow> queue_world"
where
  "record_step cfg now refused1 refused2 i w =
     (let q = qw_queue w in
      if i < length (qu_running q)
      then (case qu_running q ! i of
          (job, Fetching) \<Rightarrow> w
        | (job, Fetched r) \<Rightarrow>
            w\<lparr>qw_queue := free_slot cfg i q,
              qw_rows := record_outcome (qc_orgId cfg) now job r refused1 refused2 (qw_rows w)\<rparr>)
      else w)"

section \<open>The queue's own operations\<close>

definition poll :: "queue_config \<Rightarrow> clone_queue \<Rightarrow> clone_queue" where
  "poll cfg q = (if qu_stopped q then q else (runPass cfg q)\<lparr>qu_waiting := True\<rparr>)"

definition tick :: "queue_config \<Rightarrow> clone_queue \<Rightarrow> clone_queue" where
  "tick cfg q = (if qu_timer q then poll cfg (q\<lparr>qu_timer := False\<rparr>) else q)"

definition start :: "queue_config \<Rightarrow> string option \<Rightarrow> queue_world \<Rightarrow> (string + unit) \<times> queue_world" where
  "start cfg refused w =
     (case refused of
        Some e \<Rightarrow> (Inl e, w)
      | None \<Rightarrow>
          (Inr (), w\<lparr>qw_rows := snd (requeueStranded (qc_orgId cfg) (qw_rows w)),
             qw_fs := snd (sweepStaging (qc_root cfg) (qc_orgId cfg) (qw_fs w)),
             qw_queue := poll cfg (qw_queue w)\<rparr>))"

definition stop :: "clone_queue \<Rightarrow> clone_queue" where
  "stop q = q\<lparr>qu_stopped := True, qu_timer := False\<rparr>"

definition kick :: "queue_config \<Rightarrow> clone_queue \<Rightarrow> clone_queue" where
  "kick cfg q = (if qu_stopped q then q else runPass cfg q)"

section \<open>Events\<close>

text \<open>
  What can happen to a started queue, the selections the route saves included. A statement gets its answer,
  or \<open>Some message\<close> when the store refuses it. \<open>accounts\<close> tells which user ids have an account.
\<close>

datatype queue_event =
    QPass int "repo_row \<Rightarrow> bool" "string option"
  | QClone "string + string option" nat
  | QRecord int "string option" "string option" nat
  | QTick
  | QKick
  | QStop
  | QSelect uuid int "Repo list"

fun queue_do :: "queue_config \<Rightarrow> (uuid \<Rightarrow> bool) \<Rightarrow> queue_event \<Rightarrow> queue_world \<Rightarrow> queue_world" where
  "queue_do cfg accounts (QPass now locked refused) w = pass cfg now locked refused w"
| "queue_do cfg accounts (QClone token i) w = clone_step cfg token i w"
| "queue_do cfg accounts (QRecord now refused1 refused2 i) w = record_step cfg now refused1 refused2 i w"
| "queue_do cfg accounts QTick w = w\<lparr>qw_queue := tick cfg (qw_queue w)\<rparr>"
| "queue_do cfg accounts QKick w = w\<lparr>qw_queue := kick cfg (qw_queue w)\<rparr>"
| "queue_do cfg accounts QStop w = w\<lparr>qw_queue := stop (qw_queue w)\<rparr>"
| "queue_do cfg accounts (QSelect u now repos) w =
     w\<lparr>qw_rows := snd (select_repos (qc_orgId cfg) accounts u now repos (qw_rows w))\<rparr>"

fun queue_run :: "queue_config \<Rightarrow> (uuid \<Rightarrow> bool) \<Rightarrow> queue_event list \<Rightarrow> queue_world \<Rightarrow> queue_world" where
  "queue_run cfg accounts [] w = w"
| "queue_run cfg accounts (ev # evs) w = queue_run cfg accounts evs (queue_do cfg accounts ev w)"

definition boot :: "queue_config \<Rightarrow> repo_row list \<Rightarrow> fs \<Rightarrow> queue_world" where
  "boot cfg t f = snd (start cfg None \<lparr>qw_queue = new_queue, qw_rows = t, qw_fs = f\<rparr>)"

text \<open>
  Whether what a clone came to is recorded by an event: always, but for a failure whose own record is
  refused, or holds a character the column does not take.
\<close>

definition failure_recorded :: "string \<Rightarrow> string option \<Rightarrow> bool" where
  "failure_recorded message refused \<longleftrightarrow> refused = None \<and> pg_text (take 2000 (first_line message))"

definition outcome_recorded :: "string + unit \<Rightarrow> string option \<Rightarrow> string option \<Rightarrow> bool" where
  "outcome_recorded r refused1 refused2 \<longleftrightarrow>
     (case r of
        Inl e \<Rightarrow> failure_recorded e refused2
      | Inr u \<Rightarrow> (case refused1 of None \<Rightarrow> True | Some e \<Rightarrow> failure_recorded e refused2))"

definition event_recorded :: "queue_event \<Rightarrow> queue_world \<Rightarrow> bool" where
  "event_recorded ev w =
     (case ev of
        QRecord now refused1 refused2 i \<Rightarrow>
          (if i < length (qu_running (qw_queue w))
           then (case snd (qu_running (qw_queue w) ! i) of
               Fetching \<Rightarrow> True | Fetched r \<Rightarrow> outcome_recorded r refused1 refused2)
           else True)
      | _ \<Rightarrow> True)"

fun all_recorded :: "queue_config \<Rightarrow> (uuid \<Rightarrow> bool) \<Rightarrow> queue_event list \<Rightarrow> queue_world \<Rightarrow> bool" where
  "all_recorded cfg accounts [] w = True"
| "all_recorded cfg accounts (ev # evs) w =
     (event_recorded ev w \<and> all_recorded cfg accounts evs (queue_do cfg accounts ev w))"

section \<open>A schedule that works the queue off\<close>

definition selected_and_queued :: "queue_config \<Rightarrow> queue_world \<Rightarrow> repo_row list" where
  "selected_and_queued cfg w = filter (pending (qc_orgId cfg)) (qw_rows w)"

definition worked_off :: "queue_config \<Rightarrow> queue_world \<Rightarrow> bool" where
  "worked_off cfg w \<longleftrightarrow> selected_and_queued cfg w = [] \<and> qu_running (qw_queue w) = []"

text \<open>
  The next event when nobody interferes: the oldest clone's step, else the answer of the pass in flight, else the tick
  of the queue's own timer, which does nothing unless the queue has armed it. Nobody kicks the queue.
\<close>

definition next_event :: "int \<Rightarrow> string + string option \<Rightarrow> queue_world \<Rightarrow> queue_event" where
  "next_event now token w =
     (case qu_running (qw_queue w) of
        (job, Fetching) # rest \<Rightarrow> QClone token 0
      | (job, Fetched r) # rest \<Rightarrow> QRecord now None None 0
      | [] \<Rightarrow> (case qu_passing (qw_queue w) of Some room \<Rightarrow> QPass now (\<lambda>r. False) None | None \<Rightarrow> QTick))"

fun schedule ::
  "queue_config \<Rightarrow> int \<Rightarrow> string + string option \<Rightarrow> (uuid \<Rightarrow> bool) \<Rightarrow> nat \<Rightarrow> queue_world \<Rightarrow> queue_event list"
where
  "schedule cfg now token accounts 0 w = []"
| "schedule cfg now token accounts (Suc n) w =
     (if worked_off cfg w then []
      else next_event now token w #
        schedule cfg now token accounts n (queue_do cfg accounts (next_event now token w) w))"

fun stage_work :: "clone_stage \<Rightarrow> nat" where
  "stage_work Fetching = 4" | "stage_work (Fetched r) = 2"

definition pass_work :: "clone_queue \<Rightarrow> nat" where
  "pass_work q = (case qu_passing q of None \<Rightarrow> 1 | Some room \<Rightarrow> if room \<le> 0 then 2 else 0)"

definition queue_work :: "queue_config \<Rightarrow> queue_world \<Rightarrow> nat" where
  "queue_work cfg w =
     6 * length (selected_and_queued cfg w) + sum_list (map (stage_work \<circ> snd) (qu_running (qw_queue w))) +
     pass_work (qw_queue w)"

end
