(* ===== verification/FactsCache.thy ===== *)
theory FactsCache
  imports Http
begin

text \<open>
  What a checkout looks like on disk, \<open>server/src/workspace/facts.ts\<close>: a cache that answers at once with what it
  has and measures in the background, one measurement per checkout at a time. The outputs of \<open>git\<close> and
  \<open>du\<close> come as arguments, \<open>None\<close> for a run that failed; times are milliseconds.
\<close>

record last_commit =
  lc_sha :: string
  lc_at :: string
  lc_headline :: string

record CheckoutFacts =
  cf_branch :: "string option"
  cf_lastCommit :: "last_commit option"
  cf_sizeBytes :: "int option"

definition UNKNOWN_FACTS :: CheckoutFacts where
  "UNKNOWN_FACTS = \<lparr>cf_branch = None, cf_lastCommit = None, cf_sizeBytes = None\<rparr>"

abbreviation HEAD_TTL_MS :: int where "HEAD_TTL_MS \<equiv> 30000"
abbreviation SIZE_TTL_MS :: int where "SIZE_TTL_MS \<equiv> 5 * 60 * 1000"

text \<open>The measurement in flight: whether it reads the head, and whether it reads the size.\<close>

record facts_entry =
  fe_facts :: CheckoutFacts
  fe_headAt :: int
  fe_sizeAt :: int
  fe_pending :: "(bool \<times> bool) option"

type_synonym facts_cache = "(string \<times> facts_entry) list"

section \<open>Reading the outputs\<close>

definition readHead :: "string option \<Rightarrow> string option \<Rightarrow> string option \<times> last_commit option" where
  "readHead branch_out log_out =
     (let branch = (case branch_out of None \<Rightarrow> None | Some s \<Rightarrow> if js_trim s = [] then None else Some (js_trim s));
          log = (case log_out of None \<Rightarrow> [] | Some s \<Rightarrow> js_trim s) in
      (branch,
       (case split_on (CHR 0x00) log of
          sha # stamp # rest \<Rightarrow>
            if sha \<noteq> [] \<and> stamp \<noteq> []
            then Some \<lparr>lc_sha = sha, lc_at = stamp, lc_headline = (case rest of [] \<Rightarrow> [] | h # r \<Rightarrow> h)\<rparr>
            else None
        | _ \<Rightarrow> None)))"

text \<open>\<open>Number.parseInt(s, 10)\<close> of a text without leading white space.\<close>

definition parse_int10 :: "string \<Rightarrow> int option" where
  "parse_int10 s =
     (case signed s of (sg, ds) \<Rightarrow>
        let d = takeWhile is_digit ds in if d = [] then None else Some (sg * int (digits_val d)))"

definition readSize :: "string option \<Rightarrow> int option" where
  "readSize du_out =
     (case du_out of
        None \<Rightarrow> None
      | Some s \<Rightarrow> map_option (\<lambda>kib. kib * 1024) (parse_int10 (takeWhile (\<lambda>c. \<not> js_space c) (js_trim s))))"

section \<open>The cache\<close>

definition refresh_facts :: "int \<Rightarrow> facts_entry \<Rightarrow> facts_entry" where
  "refresh_facts now e =
     (if fe_pending e \<noteq> None then e
      else let wantHead = (now - fe_headAt e \<ge> HEAD_TTL_MS); wantSize = (now - fe_sizeAt e \<ge> SIZE_TTL_MS) in
        if \<not> wantHead \<and> \<not> wantSize then e else e\<lparr>fe_pending := Some (wantHead, wantSize)\<rparr>)"

definition new_entry :: facts_entry where
  "new_entry = \<lparr>fe_facts = UNKNOWN_FACTS, fe_headAt = 0, fe_sizeAt = 0, fe_pending = None\<rparr>"

definition facts_get :: "int \<Rightarrow> string \<Rightarrow> facts_cache \<Rightarrow> CheckoutFacts \<times> facts_cache" where
  "facts_get now dir cache =
     (let e = refresh_facts now (case map_of cache dir of None \<Rightarrow> new_entry | Some e \<Rightarrow> e) in
      (fe_facts e, map_set dir e cache))"

text \<open>The end of a measurement, at \<open>now\<close>.\<close>

definition measured ::
  "int \<Rightarrow> string option \<times> last_commit option \<Rightarrow> int option \<Rightarrow> facts_entry \<Rightarrow> facts_entry"
where
  "measured now git_head sz e =
     (case fe_pending e of
        None \<Rightarrow> e
      | Some (wantHead, wantSize) \<Rightarrow>
          let e1 = (if wantHead
                    then e\<lparr>fe_facts := (fe_facts e)\<lparr>cf_branch := fst git_head, cf_lastCommit := snd git_head\<rparr>, fe_headAt := now\<rparr>
                    else e);
              e2 = (if wantSize then e1\<lparr>fe_facts := (fe_facts e1)\<lparr>cf_sizeBytes := sz\<rparr>, fe_sizeAt := now\<rparr> else e1) in
          e2\<lparr>fe_pending := None\<rparr>)"

definition facts_measured ::
  "int \<Rightarrow> string option \<Rightarrow> string option \<Rightarrow> string option \<Rightarrow> string \<Rightarrow> facts_cache \<Rightarrow> facts_cache"
where
  "facts_measured now branch_out log_out du_out dir cache =
     (case map_of cache dir of
        None \<Rightarrow> cache
      | Some e \<Rightarrow> map_set dir (measured now (readHead branch_out log_out) (readSize du_out) e) cache)"

section \<open>Facts\<close>

text \<open>A read never waits: what it answers is what was cached, and a measurement in flight is not doubled.\<close>

lemma facts_get_answers:
  "fst (facts_get now dir cache) = (case map_of cache dir of None \<Rightarrow> UNKNOWN_FACTS | Some e \<Rightarrow> fe_facts e)"
  by (auto simp: facts_get_def refresh_facts_def new_entry_def Let_def split: option.splits)

lemma facts_get_single_flight:
  "map_of cache dir = Some e \<Longrightarrow> fe_pending e = Some p \<Longrightarrow> map_of (snd (facts_get now dir cache)) dir = Some e"
  by (simp add: facts_get_def refresh_facts_def Let_def)

lemma facts_get_other: "d \<noteq> dir \<Longrightarrow> map_of (snd (facts_get now dir cache)) d = map_of cache d"
  by (simp add: facts_get_def Let_def)

text \<open>A measurement that ended is trusted for its time: nothing is measured again before it has passed.\<close>

lemma measured_is_fresh:
  assumes "map_of cache dir = Some e" "fe_pending e = Some (True, True)"
    "now \<le> now'" "now' < now + HEAD_TTL_MS"
  shows "snd (facts_get now' dir (facts_measured now b l d dir cache)) = facts_measured now b l d dir cache"
proof -
  have same: "map_of m k = Some v \<Longrightarrow> map_set k v m = m" for m :: facts_cache and k v
    by (induction m) auto
  let ?e = "measured now (readHead b l) (readSize d) e"
  have "map_of (facts_measured now b l d dir cache) dir = Some ?e" using assms(1) by (simp add: facts_measured_def)
  moreover have "refresh_facts now' ?e = ?e" using assms(2-) by (simp add: refresh_facts_def measured_def Let_def)
  ultimately show ?thesis using same by (simp add: facts_get_def Let_def)
qed

end
