(* ===== verification/WorkspaceRoutes.thy ===== *)
theory WorkspaceRoutes
  imports AuthRoutes CloneQueue FactsCache Canonical
begin

text \<open>
  A member's checkouts, \<open>server/src/routes/workspace.ts\<close>. \<open>workspace_ctx\<close> holds what a handler is bound to and what
  is supplied to one request: the caller, the instant of the database, the clock, the message of a database
  that cannot be reached, the repositories the installation sees with the last error of asking for them.
  \<open>workspace_state\<close> is what the handlers change. Fastify's body limit is the framework's.
\<close>

abbreviation MAX_REPOS_PER_USER :: nat where "MAX_REPOS_PER_USER \<equiv> 20"
abbreviation MAX_EXECUTORS_PER_USER :: nat where "MAX_EXECUTORS_PER_USER \<equiv> 10"

record workspace_ctx =
  wc_config :: AppConfig
  wc_caller :: "Caller option"
  wc_accounts :: "uuid \<Rightarrow> bool"
  wc_now :: int
  wc_nowMs :: int
  wc_down :: "string option"
  wc_available :: "Repo list"
  wc_lastError :: "string option"
  wc_executors :: bool
  wc_types :: "string list"
  wc_queue :: "queue_config option"
  wc_jsonPretty :: "json \<Rightarrow> string"

record workspace_state =
  ws_rows :: "repo_row list"
  ws_executors :: "executor_row list"
  ws_fs :: fs
  ws_facts :: facts_cache
  ws_queue :: clone_queue

section \<open>Names\<close>

definition badSegment :: "string \<Rightarrow> string \<Rightarrow> string option" where
  "badSegment label v =
     (if v = [] then Some (label @ '' is empty'')
      else if CHR ''/'' \<in> set v \<or> CHR 0x5C \<in> set v then Some (label @ '' contains a path separator'')
      else if hd v = CHR ''-'' \<or> hd v = CHR ''.''
        then Some (label @ '' starts with '' @ quoted ''-'' @ '' or '' @ quoted ''.'')
      else None)"

definition badName :: "Repo \<Rightarrow> string option" where
  "badName repo =
     (case badSegment ''owner'' (repo_owner repo) of
        Some reason \<Rightarrow> Some reason
      | None \<Rightarrow> badSegment ''name'' (repo_name repo))"

section \<open>Reading the bodies\<close>

definition item_member :: "string \<Rightarrow> json \<Rightarrow> json option" where
  "item_member k entry = (case entry of JObj m \<Rightarrow> member_of k m | _ \<Rightarrow> None)"

fun parse_repos :: "json list \<Rightarrow> string + Repo list" where
  "parse_repos [] = Inr []"
| "parse_repos (entry # entries) =
     (case (item_member ''owner'' entry, item_member ''name'' entry) of
        (Some (JStr o'), Some (JStr n)) \<Rightarrow>
          (case parse_repos entries of
             Inl e \<Rightarrow> Inl e
           | Inr rs \<Rightarrow> Inr (\<lparr>repo_owner = o', repo_name = n\<rparr> # rs))
      | _ \<Rightarrow> Inl ''each entry must be { owner: string, name: string }'')"

definition parseSelection :: "json option \<Rightarrow> string + Repo list" where
  "parseSelection raw =
     (case member_of ''repos'' (body raw) of
        Some (JArr repos) \<Rightarrow>
          if length repos > MAX_REPOS_PER_USER then Inl ''at most 20 repositories can be checked out at once''
          else parse_repos repos
      | _ \<Rightarrow> Inl ''repos must be an array of { owner, name }'')"

definition parse_executor :: "json \<Rightarrow> string + executor_body" where
  "parse_executor entry =
     (case (item_member ''name'' entry, item_member ''type'' entry) of
        (Some (JStr n), Some (JStr ty)) \<Rightarrow>
          (case item_member ''config'' entry of
             Some (JObj m) \<Rightarrow>
               if ty \<in> set EXECUTOR_TYPES then Inr \<lparr>xb_name = n, xb_type = ty, xb_config = m\<rparr>
               else Inl (''unknown executor type '' @ quoted ty @ '' (known: '' @ join_with '', '' EXECUTOR_TYPES @ '')'')
           | _ \<Rightarrow> Inl (''config for '' @ quoted n @ '' must be a JSON object''))
      | _ \<Rightarrow> Inl ''each entry must be { name: string, type: string, config: object }'')"

fun parse_executors :: "json list \<Rightarrow> string + executor_body list" where
  "parse_executors [] = Inr []"
| "parse_executors (entry # entries) =
     (case parse_executor entry of
        Inl e \<Rightarrow> Inl e
      | Inr x \<Rightarrow> (case parse_executors entries of Inl e \<Rightarrow> Inl e | Inr xs \<Rightarrow> Inr (x # xs)))"

definition parseExecutors :: "json option \<Rightarrow> string + executor_body list" where
  "parseExecutors raw =
     (case member_of ''executors'' (body raw) of
        Some (JArr items) \<Rightarrow>
          if length items > MAX_EXECUTORS_PER_USER then Inl ''at most 10 executors can be configured at once''
          else parse_executors items
      | _ \<Rightarrow> Inl ''executors must be an array of { name, type, config }'')"

section \<open>Checks of a selection\<close>

fun bad_repo :: "Repo list \<Rightarrow> reply option" where
  "bad_repo [] = None"
| "bad_repo (repo # repos) =
     (case badName repo of
        Some reason \<Rightarrow>
          Some (bad400 ''BAD_REPO_NAME'' (quoted (fullName repo) @ '' cannot become a directory: '' @ reason))
      | None \<Rightarrow> bad_repo repos)"

fun name_conflict :: "(string \<times> string) list \<Rightarrow> Repo list \<Rightarrow> reply option" where
  "name_conflict byName [] = None"
| "name_conflict byName (repo # repos) =
     (if truthy (map_of byName (repo_name repo))
      then Some (bad400 ''REPO_NAME_CONFLICT''
        (quoted (the (map_of byName (repo_name repo)) @ ''/'' @ repo_name repo) @ '' and '' @ quoted (fullName repo) @
         '' share the checkout directory '' @ quoted (repo_name repo)))
      else name_conflict (map_set (repo_name repo) (repo_owner repo) byName) repos)"

definition unknown_repo :: "string list \<Rightarrow> Repo list \<Rightarrow> reply option" where
  "unknown_repo available repos =
     (case find (\<lambda>repo. fullName repo \<notin> set available) repos of
        None \<Rightarrow> None
      | Some repo \<Rightarrow> Some (bad400 ''UNKNOWN_REPO''
          (quoted (fullName repo) @ '' is not one of the repositories this GitHub App installation can see'')))"

definition check_selection :: "workspace_ctx \<Rightarrow> Repo list \<Rightarrow> reply option" where
  "check_selection ctx repos =
     (case bad_repo repos of
        Some rep \<Rightarrow> Some rep
      | None \<Rightarrow>
         (case name_conflict [] repos of
            Some rep \<Rightarrow> Some rep
          | None \<Rightarrow>
              if wc_available ctx = [] \<and> truthy (wc_lastError ctx)
              then Some (bad ''UNAVAILABLE'' (''Cannot check the selection against the GitHub App installation: '' @
                the (wc_lastError ctx)) 503)
              else unknown_repo (map fullName (wc_available ctx)) repos))"

section \<open>Handlers\<close>

definition store_call :: "workspace_ctx \<Rightarrow> (string + 'a) \<times> 's \<Rightarrow> 's \<Rightarrow> (string + 'a) \<times> 's" where
  "store_call ctx run before = (case wc_down ctx of Some e \<Rightarrow> (Inl e, before) | None \<Rightarrow> run)"

definition provision :: "workspace_ctx \<Rightarrow> Caller \<Rightarrow> fs \<Rightarrow> (string + string option) \<times> fs" where
  "provision ctx caller f =
     ensureUserWorkspace (wc_jsonPretty ctx) (wc_nowMs ctx) (provision_of (wc_config ctx) caller False) f"

fun clone_status_str :: "CloneStatus \<Rightarrow> string" where
  "clone_status_str CsQueued = ''queued''"
| "clone_status_str CsCloning = ''cloning''"
| "clone_status_str CsReady = ''ready''"
| "clone_status_str CsFailed = ''failed''"

definition commit_json :: "last_commit \<Rightarrow> json" where
  "commit_json c = JObj [(''sha'', JStr (lc_sha c)), (''at'', JStr (lc_at c)), (''headline'', JStr (lc_headline c))]"

definition describe :: "workspace_ctx \<Rightarrow> string \<Rightarrow> UserRepo \<Rightarrow> facts_cache \<Rightarrow> json \<times> facts_cache" where
  "describe ctx dir row cache =
     (let (onDisk, cache') =
        (if ur_status row = CsReady then facts_get (wc_nowMs ctx) (path_join [dir, repo_name (ur_repo row)]) cache
         else (UNKNOWN_FACTS, cache)) in
      (JObj [(''owner'', JStr (repo_owner (ur_repo row))), (''name'', JStr (repo_name (ur_repo row))),
         (''status'', JStr (clone_status_str (ur_status row))), (''error'', json_opt JStr (ur_error row)),
         (''selectedAt'', JStr (ur_selectedAt row)), (''readyAt'', json_opt JStr (ur_readyAt row)),
         (''branch'', json_opt JStr (cf_branch onDisk)), (''lastCommit'', json_opt commit_json (cf_lastCommit onDisk)),
         (''sizeBytes'', json_opt (\<lambda>n. JNum (of_int n)) (cf_sizeBytes onDisk))], cache'))"

fun describe_all :: "workspace_ctx \<Rightarrow> string \<Rightarrow> UserRepo list \<Rightarrow> facts_cache \<Rightarrow> json list \<times> facts_cache" where
  "describe_all ctx dir [] cache = ([], cache)"
| "describe_all ctx dir (row # rows) cache =
     (let (j, c1) = describe ctx dir row cache; (js, c2) = describe_all ctx dir rows c1 in (j # js, c2))"

definition executors_json :: "UserExecutor list \<Rightarrow> json" where
  "executors_json xs =
     JArr (map (\<lambda>x. JObj [(''name'', JStr (xu_name x)), (''type'', JStr (xu_type x)), (''createdAt'', JStr (xu_createdAt x))]) xs)"

definition repos_json :: "Repo list \<Rightarrow> json" where
  "repos_json rs = JArr (map (\<lambda>r. JObj [(''owner'', JStr (repo_owner r)), (''name'', JStr (repo_name r))]) rs)"

abbreviation workspace_sign_in :: reply where
  "workspace_sign_in \<equiv> bad ''UNAUTHENTICATED'' ''Sign in required'' 401"
abbreviation workspace_disabled :: reply where
  "workspace_disabled \<equiv> bad ''WORKSPACE_DISABLED'' ''This deployment has no workspace root configured'' 409"

definition get_workspace ::
  "(string \<Rightarrow> 'k :: linorder) \<Rightarrow> workspace_ctx \<Rightarrow> workspace_state \<Rightarrow> reply \<times> workspace_state"
where
  "get_workspace coll ctx s =
     (case wc_caller ctx of
        None \<Rightarrow> (workspace_sign_in, s)
      | Some caller \<Rightarrow>
          if \<not> truthy (ac_workspaceRoot (wc_config ctx))
          then (send 200 (JObj [(''root'', JNull), (''repos'', JArr []), (''orphaned'', JArr []), (''executors'', JArr [])]), s)
          else (case provision ctx caller (ws_fs s) of
              (Inl e, f) \<Rightarrow> (bad ''UNAVAILABLE'' e 503, s\<lparr>ws_fs := f\<rparr>)
            | (Inr made, f) \<Rightarrow>
                (case wc_down ctx of
                   Some e \<Rightarrow> (bad ''UNAVAILABLE'' e 503, s\<lparr>ws_fs := f\<rparr>)
                 | None \<Rightarrow>
                     let org = ac_orgId (wc_config ctx); u = ur_id (cr_user caller); dir = the made;
                         (rows, cache) = describe_all ctx dir (list_repos coll org u (ws_rows s)) (ws_facts s) in
                     (send 200 (JObj
                        [(''root'', JStr dir), (''repos'', JArr rows),
                         (''orphaned'', repos_json (map ur_repo (orphaned_repos coll org u (ws_rows s)))),
                         (''executors'', executors_json
                            (if wc_executors ctx then list_executors coll org u (ws_executors s) else []))]),
                      s\<lparr>ws_fs := f, ws_facts := cache\<rparr>))))"

definition put_repos :: "workspace_ctx \<Rightarrow> json option \<Rightarrow> workspace_state \<Rightarrow> reply \<times> workspace_state" where
  "put_repos ctx raw s =
     (case wc_caller ctx of
        None \<Rightarrow> (workspace_sign_in, s)
      | Some caller \<Rightarrow>
          if \<not> truthy (ac_workspaceRoot (wc_config ctx)) then (workspace_disabled, s)
          else (case parseSelection raw of
              Inl e \<Rightarrow> (bad400 (if starts_with e ''at most'' then ''TOO_MANY_REPOS'' else ''BAD_BODY'') e, s)
            | Inr selection \<Rightarrow>
                (case check_selection ctx selection of
                   Some rep \<Rightarrow> (rep, s)
                 | None \<Rightarrow>
                     (case provision ctx caller (ws_fs s) of
                        (Inl e, f) \<Rightarrow> (bad ''UNAVAILABLE'' e 503, s\<lparr>ws_fs := f\<rparr>)
                      | (Inr made, f) \<Rightarrow>
                          (case store_call ctx (select_repos (ac_orgId (wc_config ctx)) (wc_accounts ctx)
                                  (ur_id (cr_user caller)) (wc_now ctx) selection (ws_rows s)) (ws_rows s) of
                             (Inl e, t) \<Rightarrow> (bad ''UNAVAILABLE'' e 503, s\<lparr>ws_fs := f, ws_rows := t\<rparr>)
                           | (Inr u, t) \<Rightarrow>
                               (send 202 (JObj [(''repos'', repos_json selection)]),
                                s\<lparr>ws_fs := f, ws_rows := t,
                                  ws_queue := (case wc_queue ctx of None \<Rightarrow> ws_queue s | Some qc \<Rightarrow> kick qc (ws_queue s))\<rparr>))))))"

fun bad_executor :: "executor_body list \<Rightarrow> reply option" where
  "bad_executor [] = None"
| "bad_executor (x # xs) =
     (case badSegment ''name'' (xb_name x) of
        Some reason \<Rightarrow>
          Some (bad400 ''BAD_EXECUTOR_NAME'' (quoted (xb_name x) @ '' cannot be used as an executor name: '' @ reason))
      | None \<Rightarrow> bad_executor xs)"

definition executors_code :: "string \<Rightarrow> string" where
  "executors_code e =
     (if starts_with e ''at most'' then ''TOO_MANY_EXECUTORS''
      else if starts_with e ''unknown executor type'' then ''BAD_EXECUTOR_TYPE'' else ''BAD_BODY'')"

definition put_executors ::
  "(string \<Rightarrow> 'k :: linorder) \<Rightarrow> workspace_ctx \<Rightarrow> json option \<Rightarrow> workspace_state \<Rightarrow> reply \<times> workspace_state"
where
  "put_executors coll ctx raw s =
     (case wc_caller ctx of
        None \<Rightarrow> (workspace_sign_in, s)
      | Some caller \<Rightarrow>
          if \<not> truthy (ac_workspaceRoot (wc_config ctx)) then (workspace_disabled, s)
          else if \<not> wc_executors ctx
            then (bad ''UNAVAILABLE'' ''No executor store is configured for this deployment'' 503, s)
          else (case parseExecutors raw of
              Inl e \<Rightarrow> (bad400 (executors_code e) e, s)
            | Inr xs \<Rightarrow>
                (case bad_executor xs of
                   Some rep \<Rightarrow> (rep, s)
                 | None \<Rightarrow>
                     if length (first_seen (map xb_name xs)) \<noteq> length xs
                     then (bad400 ''EXECUTOR_NAME_CONFLICT'' ''executor names must be unique'', s)
                     else let org = ac_orgId (wc_config ctx); u = ur_id (cr_user caller) in
                       (case store_call ctx (replace_executors org (wc_types ctx) (wc_accounts ctx) u (wc_now ctx) xs (ws_executors s))
                               (ws_executors s) of
                          (Inl e, t) \<Rightarrow> (bad ''UNAVAILABLE'' e 503, s\<lparr>ws_executors := t\<rparr>)
                        | (Inr v, t) \<Rightarrow>
                            (send 200 (JObj [(''executors'', executors_json (list_executors coll org u t))]),
                             s\<lparr>ws_executors := t\<rparr>)))))"

end
