(* ===== verification/CloneFacts.thy ===== *)
theory CloneFacts
  imports WorkspaceRoutes
begin

text \<open>
  Where a clone writes: the paths of the workspaces, and the effect of the file system's operations on a
  path they are not about.
\<close>

section \<open>Paths\<close>

lemma path_push_plain:
  "list_all plain_segment acc \<Longrightarrow> CHR ''/'' \<notin> set seg \<Longrightarrow> list_all plain_segment (path_push False seg acc)"
  by (cases acc) (auto simp: plain_segment_def)

lemma path_segments_plain: "list_all plain_segment (path_segments False p)"
proof -
  have "list_all plain_segment (fold (path_push False) ws acc)"
    if "list_all plain_segment acc" "\<And>w. w \<in> set ws \<Longrightarrow> CHR ''/'' \<notin> set w" for ws acc
    using that
  proof (induction ws arbitrary: acc)
    case (Cons w ws)
    then show ?case using path_push_plain [of acc w] by simp
  qed simp
  from this [of "[]"] show ?thesis
    unfolding path_segments_def using split_on_no_sep by (fastforce simp: list_all_rev)
qed

lemma path_segments_snoc:
  "plain_segment s \<Longrightarrow> path_segments False (p @ ''/'' @ s) = path_segments False p @ [s]"
  using split_on_append [of "CHR ''/''" p s] fold_push_plain [of "[s]" False]
  by (simp add: path_segments_def split_on_plain plain_segment_def)

text \<open>The path made of segments, and back.\<close>

definition abs_path :: "string list \<Rightarrow> string" where
  "abs_path ss = ''/'' @ join_with ''/'' ss"

lemma join_with_snoc: "ss \<noteq> [] \<Longrightarrow> join_with d (ss @ [s]) = join_with d ss @ d @ s"
  by (induction d ss rule: join_with.induct) simp_all

lemma abs_path_snoc: "ss \<noteq> [] \<Longrightarrow> abs_path (ss @ [s]) = abs_path ss @ ''/'' @ s"
  by (simp add: abs_path_def join_with_snoc)

lemma path_segments_abs:
  assumes "list_all plain_segment ss" "ss \<noteq> []"
  shows "path_segments False (abs_path ss) = ss"
proof -
  have "path_segments False (abs_path ss) = rev (fold (path_push False) ([] # ss) [])"
    using split_join_plain [OF assms] by (simp add: path_segments_def abs_path_def)
  also have "\<dots> = ss" using fold_push_plain [OF assms(1), of False "[]"] by simp
  finally show ?thesis .
qed

lemma ends_with_snoc: "ends_with (xs @ [x]) [y] \<longleftrightarrow> x = y"
  by (simp add: ends_with_def)

lemma normalize_snoc:
  assumes "isAbsolute p" "plain_segment s"
  shows "path_normalize (p @ ''/'' @ s) = abs_path (path_segments False p @ [s])"
proof -
  obtain xs x where s: "s = xs @ [x]" "x \<noteq> CHR ''/''"
    using assms(2) by (cases s rule: rev_cases) (auto simp: plain_segment_def)
  have "p \<noteq> []" "isAbsolute (p @ ''/'' @ s)" using assms(1) by (auto simp: isAbsolute_def starts_with_iff)
  moreover have "\<not> ends_with (p @ ''/'' @ s) ''/''"
    using s ends_with_snoc [of "p @ ''/'' @ xs" x "CHR ''/''"] by simp
  moreover have "join_with ''/'' (path_segments False p @ [s]) \<noteq> []"
    using assms(2) by (cases "path_segments False p = []") (simp_all add: plain_segment_def join_with_snoc)
  ultimately show ?thesis
    using path_segments_snoc [OF assms(2), of p] by (simp add: path_normalize_def abs_path_def Let_def)
qed

lemma path_join_two:
  "isAbsolute p \<Longrightarrow> plain_segment s \<Longrightarrow> path_join [p, s] = abs_path (path_segments False p @ [s])"
  using normalize_snoc [of p s] by (auto simp: path_join_def plain_segment_def isAbsolute_def)

lemma path_join_three:
  assumes "isAbsolute p" "plain_segment s" "plain_segment t"
  shows "path_join [p, s, t] = abs_path (path_segments False p @ [s, t])"
proof -
  have "isAbsolute (p @ ''/'' @ s)" "p \<noteq> []" using assms(1) by (auto simp: isAbsolute_def starts_with_iff)
  then show ?thesis
    using normalize_snoc [of "p @ ''/'' @ s" t] assms path_segments_snoc [OF assms(2), of p]
    by (simp add: path_join_def plain_segment_def)
qed

lemma plain_uuid: "is_uuid u \<Longrightarrow> plain_segment u"
proof -
  assume u: "is_uuid u"
  have "\<not> is_hex_i (CHR ''/'')" by code_simp
  then have "CHR ''/'' \<notin> set u" using is_uuid_chars [OF u] by auto
  then show ?thesis using is_uuid_length [OF u] by (auto simp: plain_segment_def)
qed

lemma plain_org: "is_org_id s \<Longrightarrow> plain_segment s"
proof -
  assume org: "is_org_id s"
  obtain c cs where s: "s = c # cs" "is_lower c \<or> is_digit c" "\<forall>d \<in> set cs. is_lower d \<or> is_digit d \<or> d = CHR ''_'' \<or> d = CHR ''-''"
    using org by (cases s) (auto simp: is_org_id_def list_all_iff)
  have "\<not> is_lower (CHR ''/'')" "\<not> is_digit (CHR ''/'')" "\<not> is_lower (CHR ''.'')" "\<not> is_digit (CHR ''.'')"
    by (simp_all add: is_lower_def is_digit_def)
  then show ?thesis using s by (auto simp: plain_segment_def)
qed

lemma plain_of_badSegment: "badSegment l s = None \<Longrightarrow> plain_segment s"
  by (cases s) (auto simp: badSegment_def plain_segment_def split: if_splits)

text \<open>The route's check of a name and the constraint of the column agree.\<close>

lemma badSegment_is_check: "badSegment l s = None \<longleftrightarrow> segment_ok s"
  by (auto simp: badSegment_def segment_ok_def)

lemma badName_is_check: "badName repo = None \<longleftrightarrow> segment_ok (repo_owner repo) \<and> segment_ok (repo_name repo)"
  using badSegment_is_check [of "''owner''" "repo_owner repo"] badSegment_is_check [of "''name''" "repo_name repo"]
  by (cases "badSegment ''owner'' (repo_owner repo)") (simp_all add: badName_def)

definition member_path :: "string \<Rightarrow> string \<Rightarrow> string \<Rightarrow> string" where
  "member_path rootDir org u = abs_path (path_segments False rootDir @ [org, u])"

lemma workspaceDir_path:
  "isAbsolute rootDir \<Longrightarrow> is_org_id org \<Longrightarrow> workspaceDir rootDir org u = Inr d \<longleftrightarrow> is_uuid u \<and> d = member_path rootDir org u"
  by (auto simp: workspaceDir_def member_path_def path_join_three plain_org plain_uuid)

lemma member_path_segments:
  "is_org_id org \<Longrightarrow> is_uuid u \<Longrightarrow>
   path_segments False (member_path rootDir org u) = path_segments False rootDir @ [org, u]"
  using path_segments_plain [of rootDir] by (simp add: member_path_def path_segments_abs plain_org plain_uuid)

lemma member_path_absolute: "isAbsolute (member_path rootDir org u)"
  by (simp add: member_path_def abs_path_def)

lemma join_in_member:
  assumes "is_org_id org" "is_uuid u" "plain_segment s"
  shows "path_join [member_path rootDir org u, s] = member_path rootDir org u @ ''/'' @ s"
proof -
  let ?ss = "path_segments False rootDir @ [org, u]"
  have "path_join [member_path rootDir org u, s] = abs_path (?ss @ [s])"
    unfolding path_join_two [OF member_path_absolute assms(3)] member_path_segments [OF assms(1,2)] ..
  also have "\<dots> = abs_path ?ss @ ''/'' @ s" by (rule abs_path_snoc) simp
  finally show ?thesis by (simp only: member_path_def)
qed

text \<open>Two members' directories lie beside each other.\<close>

lemma member_path_snoc: "member_path rootDir org u = abs_path (path_segments False rootDir @ [org]) @ ''/'' @ u"
  using abs_path_snoc [of "path_segments False rootDir @ [org]" u] by (simp add: member_path_def)

lemma members_apart:
  assumes "is_uuid u" "is_uuid v" "at_or_below (member_path rootDir org u) q" "at_or_below (member_path rootDir org v) q"
  shows "u = v"
proof -
  have "\<exists>a. q = p @ a" if "at_or_below p q" for p
    using that by (auto simp: at_or_below_def starts_with_iff)
  then obtain a b where "q = member_path rootDir org u @ a" "q = member_path rootDir org v @ b"
    using assms(3,4) by metis
  then have "u @ a = v @ b" by (simp add: member_path_snoc)
  then show ?thesis using is_uuid_length [OF assms(1)] is_uuid_length [OF assms(2)] by simp
qed

lemma prefix_shorter:
  assumes "q \<in> set (path_prefixes p)" "list_all plain_segment ss" "ss \<noteq> []" "p = abs_path ss"
  shows "q = p \<or> length q < length p"
proof -
  have "q \<in> (\<lambda>n. abs_path (take n ss)) ` {1..<length ss + 1}"
    using assms(1) unfolding assms(4) path_prefixes_def path_segments_abs [OF assms(2,3)] Let_def
    by (simp add: abs_path_def del: upt_Suc)
  then obtain n where n: "n \<le> length ss" "q = abs_path (take n ss)" by (metis (no_types, lifting) atLeastLessThan_iff image_iff less_Suc_eq_le Suc_eq_plus1)
  have "length (join_with ''/'' (take n ss)) < length (join_with ''/'' ss)" if "n < length ss"
    using that assms(2)
  proof (induction ss arbitrary: n)
    case (Cons w ss)
    show ?case using Cons.IH [of "n - 1"] Cons.prems
      by (cases n; cases ss; cases "n - 1") (auto simp: plain_segment_def)
  qed simp
  then show ?thesis using n assms(4) by (cases "n < length ss") (auto simp: abs_path_def)
qed

lemma prefix_of_member_outside:
  assumes "is_org_id org" "is_uuid u" "is_uuid v" "u \<noteq> v" "q \<in> set (path_prefixes (member_path rootDir org u))"
  shows "\<not> at_or_below (member_path rootDir org v) q"
proof
  assume below: "at_or_below (member_path rootDir org v) q"
  then have "length (member_path rootDir org v) \<le> length q" by (auto simp: at_or_below_def starts_with_iff)
  moreover have "length (member_path rootDir org v) = length (member_path rootDir org u)"
    using is_uuid_length assms(2,3) by (simp add: member_path_snoc)
  moreover have "q = member_path rootDir org u \<or> length q < length (member_path rootDir org u)"
    by (rule prefix_shorter [OF assms(5) _ _ member_path_def]) (use path_segments_plain assms in \<open>simp_all add: plain_org plain_uuid\<close>)
  ultimately have "q = member_path rootDir org u" by auto
  then have "at_or_below (member_path rootDir org u) q" by (simp add: at_or_below_def)
  then show False using members_apart [OF assms(2,3) _ below] assms(4) by blast
qed

section \<open>Effects\<close>

lemma at_or_below_refl [simp]: "at_or_below p p"
  by (simp add: at_or_below_def)

lemma below_append: "at_or_below (p @ ''/'' @ s) q \<Longrightarrow> at_or_below p q"
  by (auto simp: at_or_below_def starts_with_iff)

lemma at_or_below_moved: "at_or_below p r \<Longrightarrow> at_or_below q (q @ drop (length p) r)"
  by (auto simp: at_or_below_def starts_with_iff)

lemma map_of_rename:
  "\<not> at_or_below p x \<Longrightarrow> \<not> at_or_below q x \<Longrightarrow>
   map_of (map (\<lambda>(r, n). (if at_or_below p r then q @ drop (length p) r else r, n)) (filter (\<lambda>(r, n). \<not> at_or_below q r) xs)) x =
   map_of xs x"
proof (induction xs)
  case (Cons a xs)
  obtain r n where a: "a = (r, n)" by fastforce
  have "at_or_below p r \<Longrightarrow> q @ drop (length p) r \<noteq> x" using at_or_below_moved [of p r q] Cons.prems(2) by auto
  then show ?case using Cons a by auto
qed simp

lemma fs_at_rename_other:
  assumes "renameSync p q f = (r, f')" "\<not> at_or_below p x" "\<not> at_or_below q x"
  shows "fs_at x f' = fs_at x f"
  using assms map_of_rename [OF assms(2,3), of "fs_nodes f"] by (auto simp: renameSync_def fs_at_def split: if_splits)

lemma rename_arrives:
  assumes "renameSync p q f = (Inr u, f')" "\<not> at_or_below q p"
  shows "existsSync q f'"
proof -
  obtain n where "map_of (fs_nodes f) p = Some n" using assms(1) by (auto simp: renameSync_def existsSync_def fs_at_def split: if_splits)
  then have "(p, n) \<in> set (filter (\<lambda>(r, n). \<not> at_or_below q r) (fs_nodes f))" using assms(2) by (auto dest: map_of_SomeD)
  then have "(q, n) \<in> set (fs_nodes f')" using assms(1)
    by (auto simp: renameSync_def split: if_splits intro!: image_eqI [of _ _ "(p, n)"])
  then show ?thesis by (metis existsSync_def fs_at_def map_of_eq_None_iff fst_conv image_eqI)
qed

lemma mkdir_effect:
  assumes "mkdirSync d f = (r, f')" "fs_at q f' \<noteq> fs_at q f"
  shows "q \<in> set (path_prefixes d) \<and> fs_at q f = None"
  using assms make_dirs_only make_dirs_keeps unfolding mkdirSync_def by metis

lemma make_dirs_makes:
  "make_dirs ps made f = (r, f') \<Longrightarrow> fs_at q f' \<noteq> fs_at q f \<Longrightarrow> fs_at q f' = Some FsDir"
proof (induction ps arbitrary: made f)
  case (Cons p ps)
  then show ?case
    by (cases "fs_at p f") (auto split: if_splits fs_node.splits dest!: make_dirs_keeps [where q = p] Cons.IH)
qed simp

text \<open>\<open>git\<close> writes nothing but at or below its last argument.\<close>

definition git_confined :: "git \<Rightarrow> bool" where
  "git_confined git \<longleftrightarrow> (\<forall>args e f r f' q. git args e f = (r, f') \<longrightarrow> \<not> at_or_below (last args) q \<longrightarrow> fs_at q f' = fs_at q f)"

lemma git_confinedD: "git_confined git \<Longrightarrow> git args e f = (r, f') \<Longrightarrow> \<not> at_or_below (last args) q \<Longrightarrow> fs_at q f' = fs_at q f"
  by (simp add: git_confined_def)

lemma last_gitArgs [simp]: "last (gitArgs url dest a) = dest"
  by (simp add: gitArgs_def)

lemma clone_into_effect:
  assumes "clone_into git env pid opts userDir dest f = (r, f')" "git_confined git"
    "\<not> at_or_below dest q" "\<not> at_or_below (stagingDir dest pid) q"
  shows "fs_at q f' = fs_at q f \<or> (q \<in> set (path_prefixes userDir) \<and> fs_at q f = None \<and> fs_at q f' = Some FsDir)"
proof -
  let ?s = "stagingDir dest pid"
  obtain m f1 where m: "mkdirSync userDir (rmSync ?s f) = (m, f1)" by fastforce
  have f1: "fs_at q f1 = fs_at q f \<or> (q \<in> set (path_prefixes userDir) \<and> fs_at q f = None \<and> fs_at q f1 = Some FsDir)"
  proof (cases "fs_at q f1 = fs_at q (rmSync ?s f)")
    case False
    then show ?thesis
      using mkdir_effect [OF m False] make_dirs_makes [OF m [unfolded mkdirSync_def] False] assms(4) by (simp add: fs_at_rm)
  qed (use assms(4) in \<open>simp add: fs_at_rm\<close>)
  have "fs_at q f' = fs_at q f1"
  proof (cases m)
    case (Inl e)
    then show ?thesis using assms(1) m by (simp add: clone_into_def Let_def)
  next
    case (Inr made)
    obtain g f2 where g: "git (gitArgs (httpsUrl (co_repo opts)) ?s (truthy (co_token opts))) (clone_env env (co_token opts)) f1 = (g, f2)"
      by fastforce
    have f2: "fs_at q f2 = fs_at q f1" using git_confinedD [OF assms(2) g] assms(4) by simp
    obtain v f3 where rn: "renameSync ?s dest f2 = (v, f3)" by fastforce
    have f3: "fs_at q f3 = fs_at q f2" using fs_at_rename_other [OF rn assms(4,3)] .
    show ?thesis using assms(1,4) m Inr g rn f2 f3
      by (cases g; cases v) (auto simp: clone_into_def Let_def fs_at_rm)
  qed
  then show ?thesis using f1 by simp
qed

lemma staging_not_dest: "\<not> at_or_below dest (stagingDir dest pid)" "\<not> at_or_below (stagingDir dest pid) dest"
  by (auto simp: at_or_below_def stagingDir_def starts_with_iff)

lemma clone_into_outcome:
  assumes "clone_into git env pid opts userDir dest f = (r, f')" "git_confined git" "\<not> existsSync dest f"
    "dest \<notin> set (path_prefixes userDir)"
  shows "existsSync dest f' \<longleftrightarrow> r = Inr Cloned"
proof -
  let ?s = "stagingDir dest pid"
  obtain m f1 where m: "mkdirSync userDir (rmSync ?s f) = (m, f1)" by fastforce
  have f1: "\<not> existsSync dest f1"
    using mkdir_effect [OF m, of dest] assms(3,4) staging_not_dest(2) [of dest pid]
    by (cases "fs_at dest f1 = fs_at dest (rmSync ?s f)") (simp_all add: existsSync_def fs_at_rm)
  show ?thesis
  proof (cases m)
    case (Inl e)
    then show ?thesis using assms(1) m f1 by (auto simp: clone_into_def Let_def)
  next
    case (Inr made)
    obtain g f2 where g: "git (gitArgs (httpsUrl (co_repo opts)) ?s (truthy (co_token opts))) (clone_env env (co_token opts)) f1 = (g, f2)"
      by fastforce
    have f2: "\<not> existsSync dest f2" using git_confinedD [OF assms(2) g] staging_not_dest(2) f1 by (simp add: existsSync_def)
    obtain v f3 where rn: "renameSync ?s dest f2 = (v, f3)" by fastforce
    have "f3 = f2" if "v = Inl e" for e using rn that by (auto simp: renameSync_def split: if_splits)
    moreover have "existsSync dest f3" if "v = Inr u" for u using rename_arrives rn that staging_not_dest(1) by metis
    ultimately show ?thesis using assms(1) m Inr g rn f2
      by (cases g; cases v) (auto simp: clone_into_def Let_def existsSync_def fs_at_rm split: if_splits)
  qed
qed

end
