(* ===== verification/QueueFacts.thy ===== *)
theory QueueFacts
  imports CloneQueue "HOL-Library.Multiset"
begin

text \<open>
  Facts about the clone queue: the slots it counts are the clones in flight and never more than the setting,
  a row in \<open>cloning\<close> has its clone, the polling loop never stops by itself, and undisturbed work ends.
\<close>

named_theorems queue_defs \<open>definitions of the queue's operations\<close>

lemmas queue_ops [queue_defs] =
  settle_def runPass_def pass_room_def start_clones_def end_pass_def free_slot_def poll_def tick_def stop_def kick_def

section \<open>Slots\<close>

definition slots_ok :: "queue_config \<Rightarrow> clone_queue \<Rightarrow> bool" where
  "slots_ok cfg q \<longleftrightarrow>
     qu_inFlight q = int (length (qu_running q)) \<and> qu_inFlight q \<le> max 0 (qc_concurrency cfg) \<and>
     (case qu_passing q of None \<Rightarrow> True | Some room \<Rightarrow> room \<le> 0 \<or> qu_inFlight q + room \<le> qc_concurrency cfg)"

lemma slots_okD:
  assumes "slots_ok cfg q"
  shows "qu_inFlight q = int (length (qu_running q))" "qu_inFlight q \<le> max 0 (qc_concurrency cfg)"
    "\<And>room. qu_passing q = Some room \<Longrightarrow> room \<le> 0 \<or> qu_inFlight q + room \<le> qc_concurrency cfg"
  using assms by (auto simp: slots_ok_def)

lemma runPass_fields [simp]:
  "qu_running (runPass cfg q) = qu_running q" "qu_inFlight (runPass cfg q) = qu_inFlight q"
  "qu_stopped (runPass cfg q) = qu_stopped q" "qu_passing (runPass cfg q) \<noteq> None"
  by (auto simp: runPass_def split: option.splits)

lemma end_pass_fields [simp]:
  "qu_running (end_pass q) = qu_running q" "qu_inFlight (end_pass q) = qu_inFlight q"
  "qu_stopped (end_pass q) = qu_stopped q" "qu_passing (end_pass q) = None"
  by (auto simp: end_pass_def settle_def Let_def)

lemma settle_fields [simp]:
  "qu_running (settle q) = qu_running q" "qu_inFlight (settle q) = qu_inFlight q"
  "qu_stopped (settle q) = qu_stopped q" "qu_passing (settle q) = qu_passing q"
  by (auto simp: settle_def)

lemma slots_cong:
  "slots_ok cfg q \<Longrightarrow> qu_inFlight q' = qu_inFlight q \<Longrightarrow> qu_running q' = qu_running q \<Longrightarrow> qu_passing q' = qu_passing q \<Longrightarrow>
   slots_ok cfg q'"
  by (auto simp: slots_ok_def split: option.splits)

lemma slots_runPass: "slots_ok cfg q \<Longrightarrow> slots_ok cfg (runPass cfg q)"
  by (auto simp: slots_ok_def runPass_def pass_room_def split: option.splits)

lemma slots_end_pass: "slots_ok cfg q \<Longrightarrow> slots_ok cfg (end_pass q)"
  by (simp add: slots_ok_def)

lemma slots_start_clones:
  assumes "slots_ok cfg q" "qu_passing q = Some room" "int (length claimed) \<le> room" "0 < room"
  shows "slots_ok cfg (end_pass (start_clones claimed q))"
  using assms slots_okD(3) [OF assms(1,2)] by (auto simp: slots_ok_def start_clones_def)

lemma drop_nth_facts: "i < length xs \<Longrightarrow> length (drop_nth i xs) = length xs - 1"
  by (simp add: drop_nth_def)

lemma slots_free_slot:
  assumes "slots_ok cfg q" "i < length (qu_running q)"
  shows "slots_ok cfg (free_slot cfg i q)"
proof -
  let ?q = "q\<lparr>qu_running := drop_nth i (qu_running q), qu_inFlight := qu_inFlight q - 1\<rparr>"
  have q: "slots_ok cfg ?q"
    using assms by (auto simp: slots_ok_def drop_nth_facts split: option.splits)
  then have "slots_ok cfg (settle ?q)" by (rule slots_cong) simp_all
  then show ?thesis
    using slots_runPass [OF q] by (simp add: free_slot_def Let_def)
qed

lemma length_claimPending:
  "claimPending org limit now locked t = (claimed, t') \<Longrightarrow> 0 < limit \<Longrightarrow> int (length claimed) \<le> limit"
  by (auto simp: claimPending_def pending_picked_def Let_def)

lemma pass_slots:
  assumes "slots_ok cfg (qw_queue w)"
  shows "slots_ok cfg (qw_queue (pass cfg now locked refused w))"
proof (cases "qu_passing (qw_queue w)")
  case (Some room)
  show ?thesis
  proof (cases "room \<le> 0 \<or> refused \<noteq> None")
    case False
    obtain claimed t where c: "claimPending (qc_orgId cfg) room now locked (qw_rows w) = (claimed, t)" by fastforce
    have "int (length claimed) \<le> room" using length_claimPending [OF c] False by simp
    then have "slots_ok cfg (end_pass (start_clones claimed (qw_queue w)))"
      using slots_start_clones [OF assms Some] False by simp
    then show ?thesis using Some False c by (simp add: pass_def)
  qed (use assms Some in \<open>auto simp: pass_def slots_end_pass\<close>)
qed (use assms in \<open>simp add: pass_def\<close>)

lemma clone_step_cases:
  obtains (skip) "clone_step cfg token i w = w"
  | (fetched) job r f where "i < length (qu_running (qw_queue w))" "qu_running (qw_queue w) ! i = (job, Fetching)"
      "clone_step cfg token i w =
        w\<lparr>qw_queue := (qw_queue w)\<lparr>qu_running := (qu_running (qw_queue w))[i := (job, Fetched r)]\<rparr>, qw_fs := f\<rparr>"
proof (cases "i < length (qu_running (qw_queue w)) \<and> snd (qu_running (qw_queue w) ! i) = Fetching")
  case True
  obtain r f where rf: "fetch_clone cfg token (fst (qu_running (qw_queue w) ! i)) (qw_fs w) = (r, f)" by fastforce
  obtain job where job: "qu_running (qw_queue w) ! i = (job, Fetching)" using True by (metis prod.collapse)
  show thesis by (rule fetched [OF _ job]) (use True rf job in \<open>simp_all add: clone_step_def Let_def\<close>)
next
  case False
  then have "clone_step cfg token i w = w" unfolding clone_step_def Let_def by (rule if_not_P)
  then show thesis by (rule skip)
qed

lemma map_fst_update: "xs ! i = (a, b) \<Longrightarrow> map fst (xs[i := (a, c)]) = map fst xs"
  by (induction xs arbitrary: i) (auto split: nat.splits simp: nth_Cons)

lemma clone_step_fields:
  "qu_stopped (qw_queue (clone_step cfg token i w)) = qu_stopped (qw_queue w)"
  "qu_inFlight (qw_queue (clone_step cfg token i w)) = qu_inFlight (qw_queue w)"
  "qu_passing (qw_queue (clone_step cfg token i w)) = qu_passing (qw_queue w)"
  "map fst (qu_running (qw_queue (clone_step cfg token i w))) = map fst (qu_running (qw_queue w))"
  "qw_rows (clone_step cfg token i w) = qw_rows w"
  by (cases rule: clone_step_cases [of cfg token i w]; simp add: map_fst_update)+

lemma clone_step_slots:
  assumes "slots_ok cfg (qw_queue w)"
  shows "slots_ok cfg (qw_queue (clone_step cfg token i w))"
proof -
  have "length (qu_running (qw_queue (clone_step cfg token i w))) = length (qu_running (qw_queue w))"
    using arg_cong [OF clone_step_fields(4), of length] by (metis length_map)
  then show ?thesis using assms by (auto simp: slots_ok_def clone_step_fields split: option.splits)
qed

lemma record_step_cases:
  obtains (skip) "record_step cfg now r1 r2 i w = w"
  | (ended) job r where "i < length (qu_running (qw_queue w))" "qu_running (qw_queue w) ! i = (job, Fetched r)"
      "record_step cfg now r1 r2 i w = w\<lparr>qw_queue := free_slot cfg i (qw_queue w),
         qw_rows := record_outcome (qc_orgId cfg) now job r r1 r2 (qw_rows w)\<rparr>"
proof (cases "i < length (qu_running (qw_queue w))")
  case True
  obtain job st where at: "qu_running (qw_queue w) ! i = (job, st)" by fastforce
  show thesis
  proof (cases st)
    case Fetching
    then show thesis using True at by (intro skip) (simp add: record_step_def Let_def)
  next
    case (Fetched r)
    then show thesis using True at by (intro ended [of job r]) (simp_all add: record_step_def Let_def)
  qed
next
  case False
  then show thesis by (intro skip) (simp add: record_step_def Let_def)
qed

lemma record_step_slots: "slots_ok cfg (qw_queue w) \<Longrightarrow> slots_ok cfg (qw_queue (record_step cfg now r1 r2 i w))"
  by (cases rule: record_step_cases [of cfg now r1 r2 i w]) (auto simp: slots_free_slot)

lemma slots_poll: "slots_ok cfg q \<Longrightarrow> slots_ok cfg (poll cfg q)"
  by (simp add: poll_def slots_cong [OF slots_runPass])

lemma slots_step:
  assumes "slots_ok cfg (qw_queue w)"
  shows "slots_ok cfg (qw_queue (queue_do cfg accounts ev w))"
proof (cases ev)
  case QTick
  have "slots_ok cfg (qw_queue w\<lparr>qu_timer := False\<rparr>)" by (rule slots_cong [OF assms]) simp_all
  then show ?thesis using QTick assms slots_poll by (simp add: tick_def)
next
  case QStop
  then show ?thesis by (simp add: stop_def slots_cong [OF assms])
qed (use assms in \<open>simp_all add: pass_slots clone_step_slots record_step_slots kick_def slots_runPass\<close>)

lemma slots_boot: "slots_ok cfg (qw_queue (boot cfg t f))"
  by (auto simp: boot_def start_def poll_def new_queue_def runPass_def slots_ok_def pass_room_def)

lemma slots_run: "slots_ok cfg (qw_queue w) \<Longrightarrow> slots_ok cfg (qw_queue (queue_run cfg accounts evs w))"
  by (induction evs arbitrary: w) (simp_all add: slots_step)

section \<open>A row in cloning has its clone\<close>

definition clone_of :: "repo_row \<Rightarrow> PendingClone \<Rightarrow> bool" where
  "clone_of r c \<longleftrightarrow> pc_userId c = rr_user_id r \<and> pc_repo c = row_repo r"

definition clones_owned :: "string \<Rightarrow> PendingClone list \<Rightarrow> repo_row list \<Rightarrow> bool" where
  "clones_owned org cs t \<longleftrightarrow> (\<forall>r \<in> set t. stranded org r \<longrightarrow> (\<exists>c \<in> set cs. clone_of r c))"

lemma clones_ownedI: "(\<And>r. r \<in> set t \<Longrightarrow> stranded org r \<Longrightarrow> \<exists>c \<in> set cs. clone_of r c) \<Longrightarrow> clones_owned org cs t"
  by (simp add: clones_owned_def)

lemma clones_ownedD: "clones_owned org cs t \<Longrightarrow> r \<in> set t \<Longrightarrow> stranded org r \<Longrightarrow> \<exists>c \<in> set cs. clone_of r c"
  by (simp add: clones_owned_def)

lemma clones_owned_mono: "clones_owned org cs t \<Longrightarrow> set cs \<subseteq> set cs' \<Longrightarrow> clones_owned org cs' t"
  by (meson clones_owned_def subsetD)

lemma sql_updateE:
  assumes "r \<in> set (sql_update p f t)"
  obtains (changed) q where "q \<in> set t" "p q" "r = f q" | (kept) "r \<in> set t" "\<not> p r"
  using assms by (auto simp: set_sql_update split: if_splits)

lemma clones_owned_requeued: "clones_owned org cs (snd (requeueStranded org t))"
proof (rule clones_ownedI)
  fix r assume r: "r \<in> set (snd (requeueStranded org t))" "stranded org r"
  then have "r \<in> set (sql_update (stranded org) (\<lambda>r. r\<lparr>rr_status := CsQueued, rr_error := None\<rparr>) t)"
    by (simp add: requeueStranded_def)
  then have "\<not> stranded org r" by (cases rule: sql_updateE) (simp_all add: stranded_def)
  then show "\<exists>c \<in> set cs. clone_of r c" using r(2) by contradiction
qed

lemma is_repo_row_repo: "is_repo org u (row_repo c) r \<longleftrightarrow>
    of_member org u r \<and> rr_owner r = rr_owner c \<and> rr_name r = rr_name c"
  by (simp add: is_repo_def row_repo_def)

lemma claim_owned:
  assumes "claimPending org limit now locked t = (claimed, t')" "clones_owned org cs t"
  shows "clones_owned org (cs @ claimed) t'"
proof (cases "limit \<le> 0")
  case True
  then show ?thesis using assms by (auto simp: claimPending_def clones_owned_def)
next
  case False
  let ?picked = "pending_picked org limit locked t"
  show ?thesis
  proof (rule clones_ownedI)
    fix r assume r: "r \<in> set t'" "stranded org r"
    have c: "claimed = map (\<lambda>r. \<lparr>pc_userId = rr_user_id r, pc_repo = row_repo r\<rparr>) ?picked"
      and t': "t' = sql_update (\<lambda>r. list_ex (\<lambda>c. is_repo org (rr_user_id c) (row_repo c) r) ?picked) (start_clone now) t"
      using assms(1) False by (auto simp: claimPending_def Let_def)
    from r(1) [unfolded t'] show "\<exists>c \<in> set (cs @ claimed). clone_of r c"
    proof (cases rule: sql_updateE)
      case (changed q)
      then obtain p where p: "p \<in> set ?picked" "is_repo org (rr_user_id p) (row_repo p) q"
        by (auto simp: list_ex_iff)
      then have "clone_of r \<lparr>pc_userId = rr_user_id p, pc_repo = row_repo p\<rparr>"
        unfolding changed(3) is_repo_row_repo of_member_def by (simp add: clone_of_def start_clone_def row_repo_def)
      then show ?thesis using p(1) c by auto
    next
      case kept
      then show ?thesis using r(2) clones_ownedD [OF assms(2)] by auto
    qed
  qed
qed

lemma pass_owned:
  assumes "clones_owned (qc_orgId cfg) (map fst (qu_running (qw_queue w))) (qw_rows w)"
  shows "clones_owned (qc_orgId cfg) (map fst (qu_running (qw_queue (pass cfg now locked refused w))))
    (qw_rows (pass cfg now locked refused w))"
proof -
  obtain claimed t where c: "claimPending (qc_orgId cfg) (the (qu_passing (qw_queue w))) now locked (qw_rows w) = (claimed, t)"
    by fastforce
  show ?thesis
    using assms claim_owned [OF c assms] c
    by (auto simp: pass_def start_clones_def comp_def split: option.splits)
qed

text \<open>A selection never puts a row into \<open>cloning\<close>: each such row it leaves was one before.\<close>

definition same_clone :: "repo_row \<Rightarrow> repo_row \<Rightarrow> bool" where
  "same_clone r q \<longleftrightarrow> rr_user_id q = rr_user_id r \<and> row_repo q = row_repo r"

definition no_new_clone :: "string \<Rightarrow> repo_row list \<Rightarrow> repo_row list \<Rightarrow> bool" where
  "no_new_clone org t t' \<longleftrightarrow> (\<forall>r \<in> set t'. stranded org r \<longrightarrow> (\<exists>q \<in> set t. stranded org q \<and> same_clone r q))"

lemma no_new_clone_refl: "no_new_clone org t t"
  by (auto simp: no_new_clone_def same_clone_def)

lemma no_new_clone_trans: "no_new_clone org t t1 \<Longrightarrow> no_new_clone org t1 t2 \<Longrightarrow> no_new_clone org t t2"
  unfolding no_new_clone_def same_clone_def by metis

lemma no_new_clone_update:
  assumes "\<And>r. p r \<Longrightarrow> stranded org (f r) \<Longrightarrow> stranded org r \<and> same_clone (f r) r"
  shows "no_new_clone org t (sql_update p f t)"
  using assms by (auto simp: no_new_clone_def sql_simps same_clone_def split: if_splits)

lemma no_new_clone_upsert: "upsert_repo org u now repo touched t = Inr t' \<Longrightarrow> no_new_clone org t t'"
proof -
  assume up: "upsert_repo org u now repo touched t = Inr t'"
  then consider "t' = sql_update (is_repo org u repo) (reselect now) t" | "t' = new_repo org u now repo # t"
    by (auto simp: upsert_repo_def split: if_splits)
  then show ?thesis
  proof cases
    case 1
    then show ?thesis by (auto intro!: no_new_clone_update simp: reselect_def stranded_def same_clone_def split: if_splits)
  next
    case 2
    then show ?thesis by (auto simp: no_new_clone_def new_repo_def stranded_def same_clone_def)
  qed
qed

lemma no_new_clone_upserts: "upsert_repos org u now repos touched t = Inr t' \<Longrightarrow> no_new_clone org t t'"
proof (induction repos arbitrary: touched t)
  case (Cons repo repos)
  then obtain t1 where "upsert_repo org u now repo touched t = Inr t1"
    "upsert_repos org u now repos (repo # touched) t1 = Inr t'"
    by (auto split: sum.splits)
  then show ?case using Cons.IH no_new_clone_upsert no_new_clone_trans by blast
qed (simp add: no_new_clone_refl)

lemma no_new_clone_select: "no_new_clone org t (snd (select_repos org accounts u now repos t))"
proof (cases "upsert_repos org u now repos [] t")
  case (Inr t1)
  have "no_new_clone org t1 (sql_update (deselected org u (map fullName repos)) (\<lambda>r. r\<lparr>rr_deselected_at := Some now\<rparr>) t1)"
    by (rule no_new_clone_update) (auto simp: stranded_def same_clone_def row_repo_def)
  then show ?thesis
    using Inr no_new_clone_trans [OF no_new_clone_upserts [OF Inr]] by (auto simp: select_repos_def no_new_clone_refl)
qed (auto simp: select_repos_def no_new_clone_refl)

lemma clones_owned_no_new: "clones_owned org cs t \<Longrightarrow> no_new_clone org t t' \<Longrightarrow> clones_owned org cs t'"
  unfolding clones_owned_def no_new_clone_def same_clone_def clone_of_def by metis

text \<open>Once its outcome is recorded, no row of a clone is left in \<open>cloning\<close>.\<close>

lemma recorded_rows:
  assumes "outcome_recorded r refused1 refused2" "q \<in> set (record_outcome org now job r refused1 refused2 t)" "stranded org q"
  shows "q \<in> set t \<and> \<not> clone_of q job"
proof -
  have mark: "q \<in> set t \<and> \<not> clone_of q job"
    if "q \<in> set (sql_update (is_repo org (pc_userId job) (pc_repo job)) f t)"
      "\<And>r. \<not> stranded org (f r)" for f
    using that assms(3)
    by (auto simp: sql_simps is_repo_def of_member_def clone_of_def row_repo_def stranded_def split: if_splits)
  show ?thesis
    using assms(1,2)
    by (auto simp: outcome_recorded_def failure_recorded_def record_outcome_def record_failure_def markFailed_def
          markReady_def stranded_def split: sum.splits option.splits if_splits intro!: mark dest!: mark)
qed

lemma set_drop_nth: "i < length xs \<Longrightarrow> x \<in> set xs \<Longrightarrow> x \<noteq> xs ! i \<Longrightarrow> x \<in> set (drop_nth i xs)"
  by (metis Un_iff drop_nth_def id_take_nth_drop set_ConsD set_append)

lemma free_slot_running [simp]: "qu_running (free_slot cfg i q) = drop_nth i (qu_running q)"
  by (simp add: free_slot_def Let_def)

lemma record_owned:
  assumes "clones_owned (qc_orgId cfg) (map fst (qu_running (qw_queue w))) (qw_rows w)"
    "event_recorded (QRecord now r1 r2 i) w"
  shows "clones_owned (qc_orgId cfg) (map fst (qu_running (qw_queue (record_step cfg now r1 r2 i w))))
    (qw_rows (record_step cfg now r1 r2 i w))"
proof (cases rule: record_step_cases [of cfg now r1 r2 i w])
  case skip
  then show ?thesis using assms(1) by simp
next
  case (ended job r)
  let ?run = "qu_running (qw_queue w)"
  have rec: "outcome_recorded r r1 r2" using assms(2) ended(1,2) by (simp add: event_recorded_def)
  have "clones_owned (qc_orgId cfg) (map fst (drop_nth i ?run)) (record_outcome (qc_orgId cfg) now job r r1 r2 (qw_rows w))"
  proof (rule clones_ownedI)
    fix q assume q: "q \<in> set (record_outcome (qc_orgId cfg) now job r r1 r2 (qw_rows w))" "stranded (qc_orgId cfg) q"
    from recorded_rows [OF rec q] clones_ownedD [OF assms(1)] q(2)
    obtain c where c: "c \<in> set (map fst ?run)" "clone_of q c" "c \<noteq> job" by metis
    then obtain s where "(c, s) \<in> set ?run" by auto
    then have "(c, s) \<in> set (drop_nth i ?run)" using set_drop_nth [OF ended(1)] c(3) ended(2) by auto
    then show "\<exists>c \<in> set (map fst (drop_nth i ?run)). clone_of q c" using c(2) by force
  qed
  then show ?thesis using ended(3) by simp
qed

lemma owned_step:
  assumes "clones_owned (qc_orgId cfg) (map fst (qu_running (qw_queue w))) (qw_rows w)" "event_recorded ev w"
  shows "clones_owned (qc_orgId cfg) (map fst (qu_running (qw_queue (queue_do cfg accounts ev w)))) (qw_rows (queue_do cfg accounts ev w))"
proof (cases ev)
  case (QRecord now r1 r2 i)
  then show ?thesis using record_owned assms by simp
next
  case (QSelect u now repos)
  then show ?thesis using assms(1) clones_owned_no_new [OF _ no_new_clone_select] by simp
qed (use assms pass_owned in \<open>auto simp: clone_step_fields tick_def poll_def kick_def stop_def\<close>)

lemma owned_run:
  "clones_owned (qc_orgId cfg) (map fst (qu_running (qw_queue w))) (qw_rows w) \<Longrightarrow> all_recorded cfg accounts evs w \<Longrightarrow>
   clones_owned (qc_orgId cfg) (map fst (qu_running (qw_queue (queue_run cfg accounts evs w)))) (qw_rows (queue_run cfg accounts evs w))"
  by (induction evs arbitrary: w) (simp_all add: owned_step)

lemma owned_boot: "clones_owned (qc_orgId cfg) (map fst (qu_running (qw_queue (boot cfg t f)))) (qw_rows (boot cfg t f))"
  by (simp add: boot_def start_def clones_owned_requeued)

section \<open>Undisturbed work ends\<close>

lemma length_filter_update_le:
  "(\<And>r. p r \<Longrightarrow> \<not> P (f r)) \<Longrightarrow> length (filter P (sql_update p f t)) \<le> length (filter P t)"
  by (induction t) (auto simp: sql_update_def)

lemma length_filter_update_sub:
  assumes "\<And>r. p r \<Longrightarrow> \<not> P (f r)" "set xs \<subseteq> {r. P r \<and> p r}" "mset xs \<subseteq># mset (filter P t)"
  shows "length (filter P (sql_update p f t)) + length xs \<le> length (filter P t)"
proof -
  have "filter P (sql_update p f t) = filter (\<lambda>r. P r \<and> \<not> p r) t"
    using assms(1) by (induction t) (auto simp: sql_update_def)
  moreover have "length xs \<le> length (filter (\<lambda>r. P r \<and> p r) t)"
  proof -
    have "mset xs = filter_mset p (mset xs)" using assms(2) by (metis (mono_tags, lifting) filter_id_conv mem_Collect_eq mset_filter subsetD)
    also have "\<dots> \<subseteq># filter_mset p (mset (filter P t))" using assms(3) by (rule multiset_filter_mono)
    also have "\<dots> = mset (filter (\<lambda>r. P r \<and> p r) t)" by (simp add: filter_filter_mset conj_commute)
    finally show ?thesis by (metis size_mset size_mset_mono)
  qed
  moreover have "length (filter P t) = length (filter (\<lambda>r. P r \<and> \<not> p r) t) + length (filter (\<lambda>r. P r \<and> p r) t)"
    by (induction t) auto
  ultimately show ?thesis by simp
qed

lemma mset_take_sort: "mset (take n (sort_key k xs)) \<subseteq># mset xs"
  by (metis append_take_drop_id mset_append mset_sort mset_subset_eq_add_left)

lemma claimPending_count:
  assumes "claimPending org limit now (\<lambda>r. False) t = (claimed, t')" "0 < limit"
  shows "length (filter (pending org) t') + length claimed \<le> length (filter (pending org) t)"
    "filter (pending org) t \<noteq> [] \<Longrightarrow> claimed \<noteq> []"
proof -
  let ?p = "pending_picked org limit (\<lambda>r. False) t"
  have claimed: "claimed = map (\<lambda>r. \<lparr>pc_userId = rr_user_id r, pc_repo = row_repo r\<rparr>) ?p"
    and t': "t' = sql_update (\<lambda>r. list_ex (\<lambda>c. is_repo org (rr_user_id c) (row_repo c) r) ?p) (start_clone now) t"
    using assms by (auto simp: claimPending_def Let_def)
  have sub: "set ?p \<subseteq> {r. pending org r}"
    by (auto simp: pending_picked_def dest!: in_set_takeD)
  have "length (filter (pending org) t') + length ?p \<le> length (filter (pending org) t)"
    unfolding t'
  proof (rule length_filter_update_sub)
    show "\<not> pending org (start_clone now r)" for r by (simp add: pending_def start_clone_def)
    show "set ?p \<subseteq> {r. pending org r \<and> list_ex (\<lambda>c. is_repo org (rr_user_id c) (row_repo c) r) ?p}"
      using sub by (auto simp: list_ex_iff is_repo_row_repo of_member_def pending_def)
    show "mset ?p \<subseteq># mset (filter (pending org) t)"
      by (simp add: pending_picked_def mset_take_sort del: mset_filter)
  qed
  then show "length (filter (pending org) t') + length claimed \<le> length (filter (pending org) t)" by (simp add: claimed)
  assume "filter (pending org) t \<noteq> []"
  then show "claimed \<noteq> []" using assms(2) by (simp add: claimed pending_picked_def)
qed

lemma record_count:
  "length (filter (pending org) (record_outcome org now job r r1 r2 t)) \<le> length (filter (pending org) t)"
  by (auto simp: record_outcome_def record_failure_def markFailed_def markReady_def pending_def
      intro!: length_filter_update_le split: sum.splits option.splits)

lemma pass_work_runPass:
  assumes "slots_ok cfg q" "\<not> qu_stopped q" "qu_inFlight q < qc_concurrency cfg"
  shows "pass_work (runPass cfg q) \<le> pass_work q" "qu_passing q = None \<Longrightarrow> pass_work (runPass cfg q) = 0"
  using assms by (auto simp: pass_work_def runPass_def pass_room_def split: option.splits)

text \<open>
  A queue that was not stopped looks for work again: its timer is armed, or its polling loop waits for the pass in
  flight and arms it at the end.
\<close>

definition poll_ahead :: "clone_queue \<Rightarrow> bool" where
  "poll_ahead q \<longleftrightarrow> qu_stopped q \<or> qu_timer q \<or> (qu_waiting q \<and> qu_passing q \<noteq> None)"

lemma ahead_ops:
  "poll_ahead q \<Longrightarrow> poll_ahead (runPass cfg q)" "poll_ahead q \<Longrightarrow> poll_ahead (end_pass q)"
  "poll_ahead (poll cfg q)" "poll_ahead (stop q)" "poll_ahead q \<Longrightarrow> poll_ahead (settle q)"
  by (auto simp: poll_ahead_def queue_defs Let_def split: option.splits)

lemma ahead_cong:
  "poll_ahead q \<Longrightarrow> qu_stopped q' = qu_stopped q \<Longrightarrow> qu_timer q' = qu_timer q \<Longrightarrow> qu_waiting q' = qu_waiting q \<Longrightarrow>
   qu_passing q' = qu_passing q \<Longrightarrow> poll_ahead q'"
  by (simp add: poll_ahead_def)

lemma ahead_step:
  assumes "poll_ahead (qw_queue w)"
  shows "poll_ahead (qw_queue (queue_do cfg accounts ev w))"
proof (cases ev)
  case (QPass now locked refused)
  have "poll_ahead (start_clones cs (qw_queue w))" for cs
    by (rule ahead_cong [OF assms]) (simp_all add: start_clones_def)
  then show ?thesis using QPass assms by (auto simp: pass_def ahead_ops split: option.splits prod.splits)
next
  case (QClone token i)
  show ?thesis
    by (cases rule: clone_step_cases [of cfg token i w]) (use assms QClone in \<open>auto simp: poll_ahead_def\<close>)
next
  case (QRecord now r1 r2 i)
  let ?q = "(qw_queue w)\<lparr>qu_running := drop_nth i (qu_running (qw_queue w)), qu_inFlight := qu_inFlight (qw_queue w) - 1\<rparr>"
  have "poll_ahead ?q" by (rule ahead_cong [OF assms]) simp_all
  then have "poll_ahead (free_slot cfg i (qw_queue w))" by (simp add: free_slot_def Let_def ahead_ops)
  then show ?thesis
    using QRecord assms by (cases rule: record_step_cases [of cfg now r1 r2 i w]) auto
qed (use assms in \<open>auto simp: tick_def kick_def ahead_ops\<close>)

lemma ahead_boot: "poll_ahead (qw_queue (boot cfg t f))"
  by (simp add: boot_def start_def ahead_ops)

lemma ahead_run: "poll_ahead (qw_queue w) \<Longrightarrow> poll_ahead (qw_queue (queue_run cfg accounts evs w))"
  by (induction evs arbitrary: w) (simp_all add: ahead_step)

definition ready_to_work :: "queue_config \<Rightarrow> queue_world \<Rightarrow> bool" where
  "ready_to_work cfg w \<longleftrightarrow> slots_ok cfg (qw_queue w) \<and> \<not> qu_stopped (qw_queue w) \<and> 1 \<le> qc_concurrency cfg \<and>
     poll_ahead (qw_queue w)"

lemma stage_work_split:
  "i < length xs \<Longrightarrow> sum_list (map (stage_work \<circ> snd) xs) =
     sum_list (map (stage_work \<circ> snd) (drop_nth i xs)) + stage_work (snd (xs ! i))"
  by (subst (1) id_take_nth_drop [of i xs]) (simp_all add: drop_nth_def)

lemma work_fetching:
  assumes "qu_running (qw_queue w) = (job, Fetching) # rest"
  shows "queue_work cfg (clone_step cfg token 0 w) < queue_work cfg w"
proof (cases rule: clone_step_cases [of cfg token 0 w])
  case (fetched job' r f)
  then show ?thesis
    using assms by (simp add: queue_work_def selected_and_queued_def pass_work_def)
next
  case skip
  then show ?thesis using assms clone_step_def
    by (cases "fetch_clone cfg token job (qw_fs w)") (auto simp: clone_step_def Let_def dest: arg_cong [of _ _ "\<lambda>w. qu_running (qw_queue w)"])
qed

lemma work_fetched:
  assumes w: "ready_to_work cfg w" and run: "qu_running (qw_queue w) = (job, Fetched r) # rest"
  shows "queue_work cfg (record_step cfg now None None 0 w) < queue_work cfg w"
proof -
  let ?q = "(qw_queue w)\<lparr>qu_running := rest, qu_inFlight := qu_inFlight (qw_queue w) - 1\<rparr>"
  have slots: "slots_ok cfg (qw_queue w)" "\<not> qu_stopped (qw_queue w)" using w by (auto simp: ready_to_work_def)
  have free: "free_slot cfg 0 (qw_queue w) = runPass cfg ?q"
    using slots(2) run by (simp add: free_slot_def drop_nth_def Let_def)
  have q: "slots_ok cfg ?q" using slots(1) run by (auto simp: slots_ok_def split: option.splits)
  have "qu_inFlight ?q < qc_concurrency cfg" using slots_okD(1,2) [OF slots(1)] run by (auto simp: max_def split: if_splits)
  then have "pass_work (runPass cfg ?q) \<le> pass_work (qw_queue w)"
    using pass_work_runPass(1) [OF q] slots(2) by (simp add: pass_work_def)
  then show ?thesis
    using record_count [of "qc_orgId cfg" now job r None None "qw_rows w"] run
    by (simp add: queue_work_def record_step_def Let_def free selected_and_queued_def)
qed

lemma work_pass:
  assumes w: "ready_to_work cfg w" and run: "qu_running (qw_queue w) = []" "qu_passing (qw_queue w) = Some room"
    and todo: "selected_and_queued cfg w \<noteq> []"
  shows "queue_work cfg (pass cfg now (\<lambda>r. False) None w) < queue_work cfg w"
proof (cases "room \<le> 0")
  case True
  then show ?thesis using run by (simp add: pass_def queue_work_def selected_and_queued_def pass_work_def)
next
  case False
  obtain claimed t where c: "claimPending (qc_orgId cfg) room now (\<lambda>r. False) (qw_rows w) = (claimed, t)" by fastforce
  have "length (filter (pending (qc_orgId cfg)) t) + length claimed \<le> length (selected_and_queued cfg w)" "claimed \<noteq> []"
    using claimPending_count [OF c] False todo by (simp_all add: selected_and_queued_def)
  moreover have "sum_list (map (stage_work \<circ> snd) (map (\<lambda>c. (c, Fetching)) claimed)) = 4 * length claimed"
    by (induction claimed) simp_all
  ultimately show ?thesis
    using False run c by (cases claimed) (simp_all add: pass_def queue_work_def selected_and_queued_def pass_work_def start_clones_def)
qed

lemma work_tick:
  assumes "ready_to_work cfg w" "qu_running (qw_queue w) = []" "qu_passing (qw_queue w) = None"
  shows "queue_work cfg (w\<lparr>qw_queue := tick cfg (qw_queue w)\<rparr>) < queue_work cfg w"
proof -
  let ?q = "qw_queue w\<lparr>qu_timer := False\<rparr>"
  have armed: "qu_timer (qw_queue w)" using assms(1,3) by (auto simp: ready_to_work_def poll_ahead_def)
  have "slots_ok cfg ?q" using assms(1) unfolding ready_to_work_def by (elim conjE) (rule slots_cong; simp)
  then have "pass_work (runPass cfg ?q) = 0"
    using pass_work_runPass(2) [of cfg ?q] slots_okD(1) [of cfg ?q] assms by (simp add: ready_to_work_def)
  then show ?thesis using assms armed
    by (simp add: queue_work_def tick_def poll_def selected_and_queued_def ready_to_work_def pass_work_def)
qed

lemma next_event_works:
  assumes "ready_to_work cfg w" "\<not> worked_off cfg w"
  shows "queue_work cfg (queue_do cfg accounts (next_event now token w) w) < queue_work cfg w"
proof (cases "qu_running (qw_queue w)")
  case (Cons a rest)
  obtain job st where a: "a = (job, st)" by fastforce
  then show ?thesis
    using Cons work_fetching [of w job rest] work_fetched [OF assms(1), of job _ rest]
    by (cases st) (simp_all add: next_event_def)
next
  case Nil
  then have "selected_and_queued cfg w \<noteq> []" using assms(2) by (simp add: worked_off_def)
  then show ?thesis
    using Nil work_pass [OF assms(1) Nil] work_tick [OF assms(1) Nil]
    by (cases "qu_passing (qw_queue w)") (simp_all add: next_event_def)
qed

lemma next_event_ready:
  assumes "ready_to_work cfg w"
  shows "ready_to_work cfg (queue_do cfg accounts (next_event now token w) w)"
proof -
  have "qu_stopped (qw_queue (queue_do cfg accounts (next_event now token w) w)) = qu_stopped (qw_queue w)"
    by (auto simp: next_event_def tick_def poll_def clone_step_fields pass_def start_clones_def record_step_def free_slot_def Let_def
        split: list.splits clone_stage.splits option.splits prod.splits)
  then show ?thesis using assms slots_step [of cfg w accounts] ahead_step [of w cfg accounts] by (simp add: ready_to_work_def)
qed

lemma schedule_ends:
  "ready_to_work cfg w \<Longrightarrow> queue_work cfg w \<le> n \<Longrightarrow>
   worked_off cfg (queue_run cfg accounts (schedule cfg now token accounts n w) w)"
proof (induction n arbitrary: w)
  case 0
  show ?case
  proof (rule ccontr)
    assume "\<not> ?thesis"
    then have "\<not> worked_off cfg w" by simp
    from next_event_works [OF 0(1) this] 0(2) show False by (metis less_nat_zero_code not_less0 order.strict_trans2)
  qed
next
  case (Suc n)
  show ?case
  proof (cases "worked_off cfg w")
    case False
    let ?w = "queue_do cfg accounts (next_event now token w) w"
    have "queue_work cfg ?w \<le> n" using next_event_works [OF Suc.prems(1) False, of accounts now token] Suc.prems(2) by simp
    then show ?thesis using False Suc.IH [OF next_event_ready [OF Suc.prems(1)]] by simp
  qed simp
qed

lemma length_schedule: "length (schedule cfg now token accounts n w) \<le> n"
  by (induction n arbitrary: w) simp_all

end
