(* ===== verification/RepoFacts.thy ===== *)
theory RepoFacts
  imports QueueFacts
begin

text \<open>
  Facts about the table of selections: the constraints it is declared with, which every statement of the
  store keeps, and what a selection makes of a member's rows.
\<close>

section \<open>Constraints of the table\<close>

definition dir_key :: "repo_row \<Rightarrow> string \<times> uuid \<times> string" where
  "dir_key r = (rr_org_id r, rr_user_id r, rr_name r)"

definition repo_table_ok :: "repo_row list \<Rightarrow> bool" where
  "repo_table_ok t \<longleftrightarrow>
     distinct (map dir_key t) \<and> (\<forall>r \<in> set t. segment_ok (rr_owner r) \<and> segment_ok (rr_name r) \<and> 0 \<le> rr_attempts r)"

lemma repo_table_okI:
  "distinct (map dir_key t) \<Longrightarrow> (\<And>r. r \<in> set t \<Longrightarrow> segment_ok (rr_owner r)) \<Longrightarrow> (\<And>r. r \<in> set t \<Longrightarrow> segment_ok (rr_name r)) \<Longrightarrow>
   (\<And>r. r \<in> set t \<Longrightarrow> 0 \<le> rr_attempts r) \<Longrightarrow> repo_table_ok t"
  by (simp add: repo_table_ok_def)

lemma repo_table_okD:
  "repo_table_ok t \<Longrightarrow> distinct (map dir_key t)"
  "repo_table_ok t \<Longrightarrow> r \<in> set t \<Longrightarrow> segment_ok (rr_owner r) \<and> segment_ok (rr_name r) \<and> 0 \<le> rr_attempts r"
  by (simp_all add: repo_table_ok_def)

text \<open>An update that keeps the key of a row keeps the constraints.\<close>

definition keeps_key :: "(repo_row \<Rightarrow> repo_row) \<Rightarrow> bool" where
  "keeps_key f \<longleftrightarrow> (\<forall>r. dir_key (f r) = dir_key r \<and> rr_owner (f r) = rr_owner r \<and> rr_attempts r \<le> rr_attempts (f r))"

lemma repo_table_ok_update:
  assumes "repo_table_ok t" "keeps_key f"
  shows "repo_table_ok (sql_update p f t)"
proof (rule repo_table_okI)
  have k: "dir_key (f r) = dir_key r" "rr_owner (f r) = rr_owner r" "rr_attempts r \<le> rr_attempts (f r)" for r
    using assms(2) by (auto simp: keeps_key_def)
  show "distinct (map dir_key (sql_update p f t))" using repo_table_okD(1) [OF assms(1)] by (simp add: k)
  fix r assume "r \<in> set (sql_update p f t)"
  then obtain q where q: "q \<in> set t" "r = f q \<or> r = q" by (cases rule: sql_updateE) auto
  have "rr_owner r = rr_owner q" "rr_name r = rr_name q" "rr_attempts q \<le> rr_attempts r"
    using q(2) k [of q] by (auto simp: dir_key_def)
  then show "segment_ok (rr_owner r)" "segment_ok (rr_name r)" "0 \<le> rr_attempts r"
    using repo_table_okD(2) [OF assms(1) q(1)] by auto
qed

lemma keeps_keys:
  "keeps_key (reselect now)" "keeps_key (start_clone now)" "keeps_key (\<lambda>r. r\<lparr>rr_deselected_at := d\<rparr>)"
  "keeps_key (\<lambda>r. r\<lparr>rr_status := st, rr_ready_at := d, rr_error := e\<rparr>)"
  "keeps_key (\<lambda>r. r\<lparr>rr_status := st, rr_error := e\<rparr>)"
  by (simp_all add: keeps_key_def dir_key_def reselect_def start_clone_def)

lemma repo_table_ok_upsert:
  assumes "repo_table_ok t" "upsert_repo org u now repo touched t = Inr t'"
  shows "repo_table_ok t'"
proof -
  consider "t' = sql_update (is_repo org u repo) (reselect now) t"
    | "t' = new_repo org u now repo # t" "\<not> sql_exists (same_dir org u repo) t"
      "segment_ok (repo_owner repo)" "segment_ok (repo_name repo)"
    using assms(2) by (auto simp: upsert_repo_def split: if_splits)
  then show ?thesis
  proof cases
    case 1
    then show ?thesis using repo_table_ok_update [OF assms(1)] keeps_keys by simp
  next
    case 2
    then show ?thesis using assms(1)
      by (auto simp: repo_table_ok_def new_repo_def dir_key_def sql_exists_iff same_dir_def of_member_def)
  qed
qed

lemma repo_table_ok_upserts: "repo_table_ok t \<Longrightarrow> upsert_repos org u now repos touched t = Inr t' \<Longrightarrow> repo_table_ok t'"
  by (induction repos arbitrary: touched t) (auto split: sum.splits intro: repo_table_ok_upsert)

lemma repo_table_ok_select: "repo_table_ok t \<Longrightarrow> repo_table_ok (snd (select_repos org accounts u now repos t))"
  by (auto simp: select_repos_def keeps_keys split: sum.splits intro: repo_table_ok_upserts repo_table_ok_update)

lemma repo_table_ok_claim: "repo_table_ok t \<Longrightarrow> claimPending org limit now locked t = (cs, t') \<Longrightarrow> repo_table_ok t'"
  by (auto simp: claimPending_def Let_def keeps_keys split: if_splits intro: repo_table_ok_update)

lemma repo_table_ok_record: "repo_table_ok t \<Longrightarrow> repo_table_ok (record_outcome org now job r r1 r2 t)"
  by (auto simp: record_outcome_def record_failure_def markReady_def markFailed_def keeps_keys
      split: sum.splits option.splits intro: repo_table_ok_update)

lemma pass_rows:
  "qw_rows (pass cfg now locked refused w) = qw_rows w \<or>
   (\<exists>room cs. claimPending (qc_orgId cfg) room now locked (qw_rows w) = (cs, qw_rows (pass cfg now locked refused w)))"
  by (auto simp: pass_def split: option.splits prod.splits)

lemma record_rows:
  "qw_rows (record_step cfg now r1 r2 i w) = qw_rows w \<or>
   (\<exists>job r. qw_rows (record_step cfg now r1 r2 i w) = record_outcome (qc_orgId cfg) now job r r1 r2 (qw_rows w))"
  by (cases rule: record_step_cases [of cfg now r1 r2 i w]) auto

lemma repo_table_ok_step: "repo_table_ok (qw_rows w) \<Longrightarrow> repo_table_ok (qw_rows (queue_do cfg accounts ev w))"
proof (cases ev)
  case (QPass now locked refused)
  assume "repo_table_ok (qw_rows w)"
  with QPass pass_rows [of cfg now locked refused w] show ?thesis by (auto intro: repo_table_ok_claim)
next
  case (QRecord now r1 r2 i)
  assume "repo_table_ok (qw_rows w)"
  with QRecord record_rows [of cfg now r1 r2 i w] show ?thesis by (auto intro: repo_table_ok_record)
qed (simp_all add: clone_step_fields repo_table_ok_select)

lemma repo_table_ok_run: "repo_table_ok (qw_rows w) \<Longrightarrow> repo_table_ok (qw_rows (queue_run cfg accounts evs w))"
  by (induction evs arbitrary: w) (simp_all add: repo_table_ok_step)

lemma repo_table_ok_boot: "repo_table_ok t \<Longrightarrow> repo_table_ok (qw_rows (boot cfg t f))"
  by (simp add: boot_def start_def requeueStranded_def repo_table_ok_update keeps_keys)

section \<open>A selection\<close>

text \<open>What the insert makes of the table: the rows of the selection, and all others as they were.\<close>

definition hit :: "string \<Rightarrow> uuid \<Rightarrow> Repo list \<Rightarrow> repo_row \<Rightarrow> bool" where
  "hit org u repos r \<longleftrightarrow> of_member org u r \<and> row_repo r \<in> set repos"

lemma is_repo_iff: "is_repo org u repo r \<longleftrightarrow> of_member org u r \<and> row_repo r = repo"
  by (cases repo) (auto simp: is_repo_def row_repo_def)

definition inserted :: "string \<Rightarrow> uuid \<Rightarrow> int \<Rightarrow> Repo list \<Rightarrow> repo_row list \<Rightarrow> repo_row set" where
  "inserted org u now repos t =
     new_repo org u now ` {repo \<in> set repos. \<not> sql_exists (is_repo org u repo) t}"

lemma row_repo_reselect [simp]: "row_repo (reselect now r) = row_repo r" "of_member org u (reselect now r) = of_member org u r"
  by (simp_all add: row_repo_def reselect_def of_member_def)

lemma row_repo_new [simp]: "row_repo (new_repo org u now repo) = repo" "of_member org u (new_repo org u now repo)"
  by (simp_all add: row_repo_def new_repo_def of_member_def)

lemma inserted_one:
  "inserted org u now [repo] t = (if sql_exists (is_repo org u repo) t then {} else {new_repo org u now repo})"
  by (auto simp: inserted_def)

lemma upsert_set:
  assumes "upsert_repo org u now repo touched t = Inr t'"
  shows "repo \<notin> set touched"
    "set t' = (\<lambda>r. if is_repo org u repo r then reselect now r else r) ` set t \<union> inserted org u now [repo] t"
proof -
  show "repo \<notin> set touched" using assms by (auto simp: upsert_repo_def split: if_splits)
  show "set t' = (\<lambda>r. if is_repo org u repo r then reselect now r else r) ` set t \<union> inserted org u now [repo] t"
  proof (cases "sql_exists (is_repo org u repo) t")
    case True
    then have "t' = sql_update (is_repo org u repo) (reselect now) t"
      using assms by (auto simp: upsert_repo_def split: if_splits)
    then show ?thesis using True by (simp add: set_sql_update inserted_one)
  next
    case False
    then have "t' = new_repo org u now repo # t" using assms by (auto simp: upsert_repo_def split: if_splits)
    moreover have "(\<lambda>r. if is_repo org u repo r then reselect now r else r) ` set t = set t"
      using False by (auto simp: sql_exists_iff)
    ultimately show ?thesis using False by (simp add: inserted_one)
  qed
qed

lemma upserts_set:
  "upsert_repos org u now repos touched t = Inr t' \<Longrightarrow>
   distinct repos \<and> set repos \<inter> set touched = {} \<and>
   set t' = (\<lambda>r. if hit org u repos r then reselect now r else r) ` set t \<union> inserted org u now repos t"
proof (induction repos arbitrary: touched t)
  case Nil
  then show ?case by (auto simp: hit_def inserted_def)
next
  case (Cons repo repos)
  then obtain t1 where t1: "upsert_repo org u now repo touched t = Inr t1"
    "upsert_repos org u now repos (repo # touched) t1 = Inr t'"
    by (auto split: sum.splits)
  note one = upsert_set [OF t1(1)]
  from Cons.IH [OF t1(2)] have ih: "distinct repos" "set repos \<inter> set (repo # touched) = {}"
    "set t' = (\<lambda>r. if hit org u repos r then reselect now r else r) ` set t1 \<union> inserted org u now repos t1" by auto
  have other: "sql_exists (is_repo org u p) t1 = sql_exists (is_repo org u p) t" if "p \<in> set repos" for p
  proof -
    have "p \<noteq> repo" using ih(2) that by auto
    then show ?thesis unfolding sql_exists_iff one(2) by (auto simp: is_repo_iff inserted_def)
  qed
  have ins: "inserted org u now repos t1 \<union> inserted org u now [repo] t = inserted org u now (repo # repos) t"
    using other by (auto simp: inserted_def)
  define h where "h = (\<lambda>r. if hit org u repos r then reselect now r else r)"
  define g where "g = (\<lambda>r. if is_repo org u repo r then reselect now r else r)"
  have still: "h r = r" if "r \<in> inserted org u now [repo] t" for r
    using that ih(2) by (auto simp: inserted_one hit_def h_def split: if_splits)
  have both: "h (g r) = (if hit org u (repo # repos) r then reselect now r else r)" for r
    using ih(2) by (auto simp: hit_def is_repo_iff h_def g_def)
  have "set t' = h ` (g ` set t \<union> inserted org u now [repo] t) \<union> inserted org u now repos t1"
    using ih(3) unfolding one(2) h_def g_def .
  also have "h ` (g ` set t \<union> inserted org u now [repo] t) = (\<lambda>r. h (g r)) ` set t \<union> inserted org u now [repo] t"
    using still by (simp add: image_Un image_image)
  finally show ?case using ih(1,2) one(1) ins unfolding both by auto
qed

text \<open>\<open>owner/name\<close> names one repository, as neither part holds a slash.\<close>

lemma full_key_inj:
  assumes "CHR ''/'' \<notin> set a" "CHR ''/'' \<notin> set c" "a @ ''/'' @ b = c @ ''/'' @ d"
  shows "a = c \<and> b = d"
  using assms
proof (induction a arbitrary: c)
  case Nil
  then show ?case by (cases c) auto
next
  case (Cons x a)
  then show ?case by (cases c) auto
qed

lemma full_key_row: "full_key r = fullName (row_repo r)"
  by (simp add: full_key_def fullName_def row_repo_def)

lemma fullName_inj:
  "segment_ok (repo_owner p) \<Longrightarrow> segment_ok (repo_owner q) \<Longrightarrow> fullName p = fullName q \<Longrightarrow> p = q"
  using full_key_inj [of "repo_owner p" "repo_owner q" "repo_name p" "repo_name q"]
  by (cases p; cases q) (simp add: fullName_def segment_ok_def)

lemma select_ok:
  assumes "select_repos org accounts u now repos t = (Inr v, t')"
  obtains t1 where "upsert_repos org u now repos [] t = Inr t1"
    "t' = sql_update (deselected org u (map fullName repos)) (\<lambda>r. r\<lparr>rr_deselected_at := Some now\<rparr>) t1"
  using assms by (auto simp: select_repos_def split: if_splits sum.splits)

lemma upserts_segments: "upsert_repos org u now repos touched t = Inr t' \<Longrightarrow> repo \<in> set repos \<Longrightarrow>
    segment_ok (repo_owner repo) \<and> segment_ok (repo_name repo)"
  by (induction repos arbitrary: touched t) (auto simp: upsert_repo_def split: sum.splits if_splits)

definition picked_repos :: "string \<Rightarrow> uuid \<Rightarrow> repo_row list \<Rightarrow> Repo set" where
  "picked_repos org u t = row_repo ` {r \<in> set t. of_member org u r \<and> rr_deselected_at r = None}"

lemma select_picks:
  assumes "repo_table_ok t" "select_repos org accounts u now repos t = (Inr v, t')"
  shows "picked_repos org u t' = set repos"
proof -
  obtain t1 where t1: "upsert_repos org u now repos [] t = Inr t1"
    and t': "t' = sql_update (deselected org u (map fullName repos)) (\<lambda>r. r\<lparr>rr_deselected_at := Some now\<rparr>) t1"
    using select_ok [OF assms(2)] .
  note st = upserts_set [OF t1]
  have ok: "segment_ok (rr_owner r)" if "r \<in> set t1" for r
    using repo_table_okD(2) [OF repo_table_ok_upserts [OF assms(1) t1] that] by simp
  have key: "full_key r \<in> set (map fullName repos) \<longleftrightarrow> row_repo r \<in> set repos" if "r \<in> set t1" for r
  proof -
    have "segment_ok (repo_owner (row_repo r))" using ok [OF that] by (simp add: row_repo_def)
    then show ?thesis
      using fullName_inj upserts_segments [OF t1] unfolding full_key_row by (metis (no_types, lifting) image_iff list.set_map)
  qed
  show ?thesis
  proof (intro equalityI subsetI)
    fix p assume "p \<in> picked_repos org u t'"
    then obtain r where r: "r \<in> set t'" "of_member org u r" "rr_deselected_at r = None" "p = row_repo r"
      by (auto simp: picked_repos_def)
    from r(1) [unfolded t'] show "p \<in> set repos"
    proof (cases rule: sql_updateE)
      case (changed q)
      then show ?thesis using r(3) by simp
    next
      case kept
      then show ?thesis using r key [OF kept(1)] by (auto simp: deselected_def)
    qed
  next
    fix p assume p: "p \<in> set repos"
    obtain r where r: "r \<in> set t1" "of_member org u r" "row_repo r = p" "rr_deselected_at r = None"
    proof (cases "sql_exists (is_repo org u p) t")
      case True
      then obtain q where "q \<in> set t" "of_member org u q" "row_repo q = p" by (auto simp: sql_exists_iff is_repo_iff)
      then have "reselect now q \<in> set t1" using st p by (auto simp: hit_def intro!: image_eqI [of _ _ q])
      then show thesis using that [of "reselect now q"] \<open>of_member org u q\<close> \<open>row_repo q = p\<close> by (simp add: reselect_def row_repo_def of_member_def)
    next
      case False
      then have "new_repo org u now p \<in> set t1" using st p by (auto simp: inserted_def)
      moreover have "rr_deselected_at (new_repo org u now p) = None" by (simp add: new_repo_def)
      ultimately show thesis using that row_repo_new by blast
    qed
    then have "\<not> deselected org u (map fullName repos) r" using key [OF r(1)] p by (simp add: deselected_def)
    then have "r \<in> set t'" using r(1) unfolding t' set_sql_update by force
    then show "p \<in> picked_repos org u t'" using r by (auto simp: picked_repos_def)
  qed
qed

text \<open>No row goes away, a checkout that is ready stays ready, and no other member's row changes.\<close>

lemma select_keeps:
  assumes "select_repos org accounts u now repos t = (Inr v, t')" "r \<in> set t"
  obtains r' where "r' \<in> set t'" "rr_org_id r' = rr_org_id r" "rr_user_id r' = rr_user_id r" "row_repo r' = row_repo r"
    "rr_status r = CsReady \<longrightarrow> rr_status r' = CsReady" "rr_attempts r' = rr_attempts r" "\<not> of_member org u r \<longrightarrow> r' = r"
proof -
  obtain t1 where t1: "upsert_repos org u now repos [] t = Inr t1"
    and t': "t' = sql_update (deselected org u (map fullName repos)) (\<lambda>r. r\<lparr>rr_deselected_at := Some now\<rparr>) t1"
    using select_ok [OF assms(1)] .
  let ?r1 = "if hit org u repos r then reselect now r else r"
  have r1: "?r1 \<in> set t1" using upserts_set [OF t1] assms(2) by blast
  let ?r' = "if deselected org u (map fullName repos) ?r1 then ?r1\<lparr>rr_deselected_at := Some now\<rparr> else ?r1"
  have "?r' \<in> set t'" unfolding t' set_sql_update using r1 by (intro image_eqI [of _ _ ?r1]) simp_all
  then show thesis
    by (rule that) (auto simp: reselect_def row_repo_def hit_def deselected_def of_member_def)
qed

lemma select_others:
  assumes "select_repos org accounts u now repos t = (r, t')" "\<not> of_member org u q"
  shows "q \<in> set t' \<longleftrightarrow> q \<in> set t"
proof (cases r)
  case (Inl e)
  then show ?thesis using assms(1) by (auto simp: select_repos_def split: if_splits sum.splits)
next
  case (Inr v)
  obtain t1 where t1: "upsert_repos org u now repos [] t = Inr t1"
    and t': "t' = sql_update (deselected org u (map fullName repos)) (\<lambda>r. r\<lparr>rr_deselected_at := Some now\<rparr>) t1"
    using select_ok assms(1) Inr by metis
  have "q \<in> set t1 \<longleftrightarrow> q \<in> set t"
    using upserts_set [OF t1] assms(2) by (auto simp: hit_def inserted_def)
  moreover have "q \<in> set t' \<longleftrightarrow> q \<in> set t1"
    unfolding t' set_sql_update using assms(2) by (auto simp: deselected_def of_member_def)
  ultimately show ?thesis by simp
qed

end
