(* ===== verification/WorkspaceTheorems.thy ===== *)
theory WorkspaceTheorems
  imports CloneFacts RepoFacts
begin

text \<open>
  The properties of members' checkouts: where a clone writes, what a saved selection makes of the table, and
  what the queue promises.
\<close>

section \<open>A clone\<close>

lemma clone_confined_effect:
  assumes clone: "cloneRepo git env pid opts f = (r, f')" and git: "git_confined git"
    and ids: "isAbsolute (co_root opts)" "is_org_id (co_orgId opts)" "is_uuid (co_userId opts)"
    and name: "badName (co_repo opts) = None"
  defines "userDir \<equiv> member_path (co_root opts) (co_orgId opts) (co_userId opts)"
  defines "dest \<equiv> userDir @ ''/'' @ repo_name (co_repo opts)"
  shows "existsSync dest f \<Longrightarrow> f' = f"
    "existsSync dest f' \<longleftrightarrow> existsSync dest f \<or> r = Inr Cloned"
    "fs_at q f' = fs_at q f \<or> at_or_below dest q \<or> at_or_below (stagingDir dest pid) q \<or>
       (q \<in> set (path_prefixes userDir) \<and> fs_at q f = None \<and> fs_at q f' = Some FsDir)"
proof -
  have plain: "plain_segment (repo_name (co_repo opts))"
    using name plain_of_badSegment by (auto simp: badName_def split: option.splits)
  have dir: "workspaceDir (co_root opts) (co_orgId opts) (co_userId opts) = Inr userDir"
    using workspaceDir_path [OF ids(1,2)] ids(3) by (simp add: userDir_def)
  have dest: "path_join [userDir, repo_name (co_repo opts)] = dest"
    using join_in_member [OF ids(2,3) plain] by (simp add: userDir_def dest_def)
  consider "f' = f" "r \<noteq> Inr Cloned" | "clone_into git env pid opts userDir dest f = (r, f')" "\<not> existsSync dest f"
    using clone unfolding cloneRepo_def dir dest by (auto simp: Let_def dest split: if_splits)
  note cases = this
  have "dest \<notin> set (path_prefixes userDir)"
    using prefix_shorter [OF _ _ _ userDir_def [unfolded member_path_def, THEN meta_eq_to_obj_eq], of dest]
      path_segments_plain ids plain_org plain_uuid by (fastforce simp: dest_def)
  then show "existsSync dest f' \<longleftrightarrow> existsSync dest f \<or> r = Inr Cloned"
    using cases clone_into_outcome [OF _ git] by metis
  show "f' = f" if "existsSync dest f" using cases that by blast
  show "fs_at q f' = fs_at q f \<or> at_or_below dest q \<or> at_or_below (stagingDir dest pid) q \<or>
       (q \<in> set (path_prefixes userDir) \<and> fs_at q f = None \<and> fs_at q f' = Some FsDir)"
    using cases clone_into_effect [OF _ git] by metis
qed

lemma clone_spares_other_members:
  assumes "cloneRepo git env pid opts f = (r, f')" "git_confined git"
    "isAbsolute (co_root opts)" "is_org_id (co_orgId opts)" "is_uuid (co_userId opts)" "badName (co_repo opts) = None"
    "is_uuid v" "v \<noteq> co_userId opts" "at_or_below (member_path (co_root opts) (co_orgId opts) v) q"
  shows "fs_at q f' = fs_at q f"
proof -
  let ?u = "co_userId opts"
  have "\<not> at_or_below (member_path (co_root opts) (co_orgId opts) ?u) q"
    using members_apart [OF assms(5,7) _ assms(9)] assms(8) by blast
  moreover have "at_or_below d (stagingDir (d @ ''/'' @ n) pid)" for d n
    by (simp add: at_or_below_def stagingDir_def starts_with_iff)
  moreover have "at_or_below a b \<Longrightarrow> at_or_below b c \<Longrightarrow> at_or_below a c" for a b c
    by (auto simp: at_or_below_def starts_with_iff)
  ultimately show ?thesis
    using clone_confined_effect(3) [OF assms(1-6), of q] below_append
      prefix_of_member_outside [OF assms(4,5,7) _ _, of q "co_root opts"] assms(8,9) by metis
qed

text \<open>
  C23: A clone stays in its place: with a git that writes only at or below the directory it is told, a checkout that is there is never
  touched, the checkout appears exactly when the clone is reported done, nothing changes but the checkout, the
  staging directory beside it and the missing parents, and nothing below another member's directory changes.
\<close>

theorem clone_is_confined:
  assumes "cloneRepo git env pid opts f = (r, f')" "git_confined git"
    "isAbsolute (co_root opts)" "is_org_id (co_orgId opts)" "is_uuid (co_userId opts)" "badName (co_repo opts) = None"
  shows "case workspaceDir (co_root opts) (co_orgId opts) (co_userId opts) of
      Inl e \<Rightarrow> False
    | Inr userDir \<Rightarrow>
        (let dest = userDir @ ''/'' @ repo_name (co_repo opts) in
         (existsSync dest f \<longrightarrow> f' = f) \<and> (existsSync dest f' \<longleftrightarrow> existsSync dest f \<or> r = Inr Cloned) \<and>
         (\<forall>q. fs_at q f' = fs_at q f \<or> at_or_below dest q \<or> at_or_below (stagingDir dest pid) q \<or>
            (q \<in> set (path_prefixes userDir) \<and> fs_at q f = None \<and> fs_at q f' = Some FsDir))) \<and>
        (\<forall>v other q. workspaceDir (co_root opts) (co_orgId opts) v = Inr other \<longrightarrow> v \<noteq> co_userId opts \<longrightarrow>
           at_or_below other q \<longrightarrow> fs_at q f' = fs_at q f)"
proof -
  have "workspaceDir (co_root opts) (co_orgId opts) (co_userId opts) =
      Inr (member_path (co_root opts) (co_orgId opts) (co_userId opts))"
    using workspaceDir_path [OF assms(3,4)] assms(5) by simp
  moreover have "fs_at q f' = fs_at q f"
    if "workspaceDir (co_root opts) (co_orgId opts) v = Inr other" "v \<noteq> co_userId opts" "at_or_below other q" for v other q
    using clone_spares_other_members [OF assms(1-6)] that workspaceDir_path [OF assms(3,4)] by metis
  ultimately show ?thesis using clone_confined_effect [OF assms(1-6)] unfolding Let_def by simp
qed

definition sample_member :: uuid where
  "sample_member = ''0b5c1f0e-7a44-4d1e-9a55-2f1d3c4b5a69''"

definition sample_repo :: Repo where
  "sample_repo = \<lparr>repo_owner = ''acme'', repo_name = ''web''\<rparr>"

definition sample_git :: git where
  "sample_git args e f = (Inr (), fs_put (last args) FsDir f)"

definition sample_clone :: CloneOptions where
  "sample_clone = \<lparr>co_root = ''/w'', co_orgId = ''acme'', co_userId = sample_member, co_repo = sample_repo, co_token = None\<rparr>"

definition empty_fs :: fs where
  "empty_fs = \<lparr>fs_nodes = [], fs_refuses = (\<lambda>p. False)\<rparr>"

lemma sample_git_confined: "git_confined sample_git"
  by (auto simp: git_confined_def sample_git_def)

lemma sample_clone_ok:
  "isAbsolute (co_root sample_clone)" "is_org_id (co_orgId sample_clone)" "is_uuid (co_userId sample_clone)"
  "badName (co_repo sample_clone) = None" "fst (cloneRepo sample_git Map.empty 7 sample_clone empty_fs) = Inr Cloned"
  "workspaceDir (co_root sample_clone) (co_orgId sample_clone) (co_userId sample_clone) = Inr (''/w/acme/'' @ sample_member)"
  by code_simp+

theorem clone_is_confined_witness:
  "existsSync (''/w/acme/'' @ sample_member @ ''/web'') (snd (cloneRepo sample_git Map.empty 7 sample_clone empty_fs))"
  using clone_is_confined [where env = "Map.empty" and pid = 7 and f = empty_fs,
      OF prod.collapse [symmetric] sample_git_confined sample_clone_ok(1-4)]
    sample_clone_ok(5)
  unfolding sample_clone_ok(6) by (simp add: Let_def sample_clone_def sample_repo_def)

section \<open>A selection\<close>

lemma name_conflict_None:
  "name_conflict m repos = None \<Longrightarrow> (\<And>n v. map_of m n = Some v \<Longrightarrow> v \<noteq> []) \<Longrightarrow>
   (\<And>r. r \<in> set repos \<Longrightarrow> repo_owner r \<noteq> []) \<Longrightarrow>
   distinct (map repo_name repos) \<and> (\<forall>r \<in> set repos. map_of m (repo_name r) = None)"
proof (induction m repos rule: name_conflict.induct)
  case (2 m r rs)
  have fresh: "map_of m (repo_name r) = None"
    using 2(2,3) by (cases "map_of m (repo_name r)") (auto simp: truthy_def split: if_splits)
  then have nc: "name_conflict (map_set (repo_name r) (repo_owner r) m) rs = None" "\<not> truthy (map_of m (repo_name r))"
    using 2(2) by (auto simp: truthy_def)
  have "distinct (map repo_name rs) \<and> (\<forall>q \<in> set rs. map_of (map_set (repo_name r) (repo_owner r) m) (repo_name q) = None)"
    by (rule 2(1) [OF nc(2,1)]) (use 2(3,4) in \<open>auto split: if_splits\<close>)
  then show ?case using fresh by (auto split: if_splits)
qed simp

lemma bad_repo_None: "bad_repo repos = None \<longleftrightarrow> (\<forall>r \<in> set repos. badName r = None)"
  by (induction repos) (auto split: option.splits)

lemma bad_repo_code: "bad_repo repos = Some rep \<Longrightarrow> code rep = 400"
  by (induction repos) (auto split: option.splits)

lemma name_conflict_code: "name_conflict m repos = Some rep \<Longrightarrow> code rep = 400"
  by (induction m repos rule: name_conflict.induct) (auto split: if_splits)

lemma check_selection_code: "check_selection ctx repos = Some rep \<Longrightarrow> code rep \<noteq> 202"
  by (auto simp: check_selection_def unknown_repo_def split: option.splits if_splits
      dest!: bad_repo_code name_conflict_code)

lemma check_selection_None:
  assumes "check_selection ctx repos = None"
  shows "distinct (map repo_name repos)" "fullName ` set repos \<subseteq> fullName ` set (wc_available ctx)"
    "\<forall>r \<in> set repos. badName r = None"
proof -
  have parts: "bad_repo repos = None" "name_conflict [] repos = None" "unknown_repo (map fullName (wc_available ctx)) repos = None"
    using assms by (auto simp: check_selection_def split: option.splits if_splits)
  show names: "\<forall>r \<in> set repos. badName r = None" using parts(1) by (simp add: bad_repo_None)
  then have "repo_owner r \<noteq> []" if "r \<in> set repos" for r
    using that by (auto simp: badName_is_check segment_ok_def)
  then show "distinct (map repo_name repos)" using name_conflict_None [OF parts(2)] by simp
  show "fullName ` set repos \<subseteq> fullName ` set (wc_available ctx)"
    using parts(3) by (auto simp: unknown_repo_def find_None_iff split: option.splits)
qed

lemma parseSelection_length: "parseSelection raw = Inr repos \<Longrightarrow> length repos \<le> MAX_REPOS_PER_USER"
proof -
  have "length rs = length xs" if "parse_repos xs = Inr rs" for xs rs
    using that by (induction xs arbitrary: rs) (auto split: option.splits json.splits sum.splits)
  then show "parseSelection raw = Inr repos \<Longrightarrow> length repos \<le> MAX_REPOS_PER_USER"
    by (auto simp: parseSelection_def split: option.splits json.splits if_splits)
qed

text \<open>A request either saves its selection and is answered 202, or leaves the rows alone.\<close>

lemma put_repos_cases:
  assumes "put_repos ctx raw s = (rep, s')" "wc_caller ctx = Some c"
  obtains (refused) "code rep \<noteq> 202" "ws_rows s' = ws_rows s" "ws_executors s' = ws_executors s"
  | (saved) sel u where "code rep = 202" "parseSelection raw = Inr sel" "check_selection ctx sel = None"
      "select_repos (ac_orgId (wc_config ctx)) (wc_accounts ctx) (ur_id (cr_user c)) (wc_now ctx) sel (ws_rows s) = (Inr u, ws_rows s')"
      "ws_executors s' = ws_executors s"
proof -
  have left: "snd (select_repos org acc u now repos t) = t" if "fst (select_repos org acc u now repos t) = Inl e" for org acc u now repos t e
    using that by (auto simp: select_repos_def split: if_splits sum.splits)
  show thesis
  proof (cases "\<exists>sel. truthy (ac_workspaceRoot (wc_config ctx)) \<and> parseSelection raw = Inr sel \<and> check_selection ctx sel = None")
    case False
    then have "code rep \<noteq> 202 \<and> s' = s"
      using assms by (auto simp: put_repos_def split: sum.splits option.splits if_splits dest: check_selection_code)
    then show thesis using refused by blast
  next
    case True
    then obtain sel where sel: "truthy (ac_workspaceRoot (wc_config ctx))" "parseSelection raw = Inr sel" "check_selection ctx sel = None"
      by blast
    obtain p f where p: "provision ctx c (ws_fs s) = (p, f)" by fastforce
    let ?run = "select_repos (ac_orgId (wc_config ctx)) (wc_accounts ctx) (ur_id (cr_user c)) (wc_now ctx) sel (ws_rows s)"
    obtain v t where v: "?run = (v, t)" by fastforce
    have same: "v = Inl e \<Longrightarrow> t = ws_rows s" for e using left [of _ _ _ _ sel] v by (metis fst_conv snd_conv)
    show thesis
    proof (cases "\<exists>m u. p = Inr m \<and> wc_down ctx = None \<and> v = Inr u")
      case True
      then show thesis using saved [OF _ sel(2,3)] assms sel p v by (auto simp: put_repos_def store_call_def)
    next
      case False
      then show thesis using refused assms sel p v same
        by (cases p; cases v; cases "wc_down ctx") (auto simp: put_repos_def store_call_def)
    qed
  qed
qed

text \<open>
  C24: A saved selection is what the member has: answered 202, the request leaves the caller exactly the
  repositories of its body, at most twenty of distinct names that the installation sees; answered otherwise,
  it changes no row. Either way no row goes away, a checkout that is ready stays ready, the table keeps its
  constraints, and nobody else's rows change.
\<close>

theorem saved_selection_is_the_members:
  assumes "put_repos ctx raw s = (rep, s')" "wc_caller ctx = Some c" "repo_table_ok (ws_rows s)"
  shows "(if code rep = 202
      then (\<exists>sel. parseSelection raw = Inr sel \<and> length sel \<le> 20 \<and> distinct (map repo_name sel) \<and>
        fullName ` set sel \<subseteq> fullName ` set (wc_available ctx) \<and>
        picked_repos (ac_orgId (wc_config ctx)) (ur_id (cr_user c)) (ws_rows s') = set sel)
      else ws_rows s' = ws_rows s) \<and>
    repo_table_ok (ws_rows s') \<and> ws_executors s' = ws_executors s \<and>
    (\<forall>r \<in> set (ws_rows s). \<exists>r' \<in> set (ws_rows s'). rr_org_id r' = rr_org_id r \<and> rr_user_id r' = rr_user_id r \<and>
       row_repo r' = row_repo r \<and> (rr_status r = CsReady \<longrightarrow> rr_status r' = CsReady)) \<and>
    (\<forall>q. \<not> of_member (ac_orgId (wc_config ctx)) (ur_id (cr_user c)) q \<longrightarrow> q \<in> set (ws_rows s') \<longleftrightarrow> q \<in> set (ws_rows s))"
  using assms(1,2)
proof (cases rule: put_repos_cases)
  case refused
  then show ?thesis using assms(3) by auto
next
  case (saved sel u)
  have rows: "\<exists>r' \<in> set (ws_rows s'). rr_org_id r' = rr_org_id r \<and> rr_user_id r' = rr_user_id r \<and>
      row_repo r' = row_repo r \<and> (rr_status r = CsReady \<longrightarrow> rr_status r' = CsReady)" if "r \<in> set (ws_rows s)" for r
    using select_keeps [OF saved(4) that] by metis
  have ok: "repo_table_ok (ws_rows s')" using repo_table_ok_select [OF assms(3)] saved(4) by (metis snd_conv)
  show ?thesis
    using saved(1,2,5) parseSelection_length [OF saved(2)] check_selection_None(1,2) [OF saved(3)]
      select_picks [OF assms(3) saved(4)] select_others [OF saved(4)] ok rows by (simp add: Bex_def)
qed

definition sample_row :: repo_row where
  "sample_row =
     \<lparr>rr_org_id = ''acme'', rr_user_id = sample_member, rr_owner = ''acme'', rr_name = ''api'', rr_status = CsReady,
      rr_error = None, rr_attempts = 1, rr_selected_at = 0, rr_deselected_at = None, rr_started_at = Some 1, rr_ready_at = Some 2\<rparr>"

definition sample_ctx :: workspace_ctx where
  "sample_ctx =
     \<lparr>wc_config = \<lparr>ac_orgId = ''acme'', ac_orgName = ''acme'', ac_github = GitHubNone, ac_baseBranch = ''main'', ac_bots = [],
        ac_syncTtlMs = 60000, ac_port = 8080, ac_host = ''localhost'', ac_webRoot = None, ac_telemetrySource = TsOff,
        ac_databaseUrl = ''postgres://db/x'', ac_telemetryTtlMs = 5000, ac_workspaceRoot = Some ''/w'', ac_auth = AuthNone None\<rparr>,
      wc_caller = Some \<lparr>cr_user = \<lparr>ur_id = sample_member, ur_githubUserId = 7, ur_login = ''ann'', ur_displayName = None\<rparr>,
        cr_role = RMember\<rparr>,
      wc_accounts = (\<lambda>u. u = sample_member), wc_now = 5, wc_nowMs = 5, wc_down = None, wc_available = [sample_repo],
      wc_lastError = None, wc_executors = False, wc_types = [], wc_queue = None, wc_jsonPretty = (\<lambda>j. ''{}'')\<rparr>"

definition sample_workspace :: workspace_state where
  "sample_workspace =
     \<lparr>ws_rows = [sample_row], ws_executors = [], ws_fs = empty_fs, ws_facts = [], ws_queue = new_queue\<rparr>"

definition sample_body :: "json option" where
  "sample_body = Some (JObj [(''repos'', JArr [JObj [(''owner'', JStr ''acme''), (''name'', JStr ''web'')]])])"

lemma sample_put: "code (fst (put_repos sample_ctx sample_body sample_workspace)) = 202"
  by code_simp

lemma sample_selection: "parseSelection sample_body = Inr [sample_repo]"
  by code_simp

lemma sample_caller: "wc_caller sample_ctx = Some (the (wc_caller sample_ctx))"
  by (simp add: sample_ctx_def)

lemma sample_rows_ok: "repo_table_ok (ws_rows sample_workspace)"
  by (simp add: sample_workspace_def repo_table_ok_def sample_row_def segment_ok_def)

theorem saved_selection_is_the_members_witness:
  "picked_repos ''acme'' sample_member (ws_rows (snd (put_repos sample_ctx sample_body sample_workspace))) = {sample_repo}"
  using saved_selection_is_the_members [where raw = sample_body, OF prod.collapse [symmetric] sample_caller sample_rows_ok]
    sample_put sample_selection
  by (simp add: sample_ctx_def)

text \<open>
  A name that another owner's repository had takes its directory even when that one was deselected: the
  statement fails, and nothing can be selected in its place.
\<close>

lemma deselected_name_is_taken:
  assumes "accounts u" "pg_text (repo_owner repo)" "pg_text (repo_name repo)" "badName repo = None"
    "q \<in> set t" "of_member org u q" "rr_name q = repo_name repo" "rr_owner q \<noteq> repo_owner repo" "repo_table_ok t"
  shows "select_repos org accounts u now [repo] t = (Inl dir_unique_error, t)"
proof -
  have "\<not> sql_exists (is_repo org u repo) t"
  proof
    assume "sql_exists (is_repo org u repo) t"
    then obtain p where p: "p \<in> set t" "of_member org u p" "row_repo p = repo" by (auto simp: sql_exists_iff is_repo_iff)
    then have "rr_owner p = repo_owner repo" "dir_key p = dir_key q"
      using assms(6,7) by (auto simp: row_repo_def dir_key_def of_member_def)
    then show False using distinct_key_unique [OF repo_table_okD(1) [OF assms(9)] p(1) assms(5)] assms(8) by auto
  qed
  moreover have "sql_exists (same_dir org u repo) t" using assms(5-7) by (auto simp: sql_exists_iff same_dir_def)
  ultimately show ?thesis using assms(1-4) by (simp add: select_repos_def upsert_repo_def badName_is_check)
qed

section \<open>The queue\<close>

definition names_valid :: "queue_world \<Rightarrow> bool" where
  "names_valid w \<longleftrightarrow> repo_table_ok (qw_rows w) \<and> list_all (\<lambda>(c, st). badName (pc_repo c) = None) (qu_running (qw_queue w))"

lemma claimed_valid:
  assumes "repo_table_ok t" "claimPending org limit now locked t = (claimed, t')" "c \<in> set claimed"
  shows "badName (pc_repo c) = None"
proof -
  obtain q where "q \<in> set t" "pc_repo c = row_repo q"
    using assms(2,3) by (auto simp: claimPending_def pending_picked_def Let_def split: if_splits dest!: in_set_takeD)
  then show ?thesis using repo_table_okD(2) [OF assms(1)] by (simp add: badName_is_check row_repo_def)
qed

lemma list_all_fst: "list_all (\<lambda>(c, st). P c) xs \<longleftrightarrow> list_all P (map fst xs)"
  by (induction xs) auto

lemma names_valid_step: "names_valid w \<Longrightarrow> names_valid (queue_do cfg accounts ev w)"
proof -
  assume w: "names_valid w"
  then have rows: "repo_table_ok (qw_rows w)" and run: "list_all (\<lambda>c. badName (pc_repo c) = None) (map fst (qu_running (qw_queue w)))"
    by (auto simp: names_valid_def list_all_fst)
  have "list_all (\<lambda>c. badName (pc_repo c) = None) (map fst (qu_running (qw_queue (queue_do cfg accounts ev w))))"
  proof (cases ev)
    case (QPass now locked refused)
    then show ?thesis using run claimed_valid [OF rows]
      by (auto simp: pass_def start_clones_def list_all_iff split: option.splits prod.splits)
  next
    case (QRecord now r1 r2 i)
    have "list_all P (map fst (drop_nth i xs))" if "list_all P (map fst xs)" for P and xs :: "(PendingClone \<times> clone_stage) list"
      using that by (auto simp: drop_nth_def list_all_iff dest: in_set_takeD in_set_dropD)
    then show ?thesis using run QRecord by (cases rule: record_step_cases [of cfg now r1 r2 i w]) auto
  qed (use run in \<open>simp_all add: clone_step_fields tick_def poll_def kick_def stop_def\<close>)
  then show ?thesis using repo_table_ok_step [OF rows] by (simp add: names_valid_def list_all_fst)
qed

lemma names_valid_run: "names_valid w \<Longrightarrow> names_valid (queue_run cfg accounts evs w)"
  by (induction evs arbitrary: w) (simp_all add: names_valid_step)

lemma names_valid_boot: "repo_table_ok t \<Longrightarrow> names_valid (boot cfg t f)"
  using repo_table_ok_boot [of t cfg f] by (simp add: names_valid_def boot_def start_def poll_def new_queue_def)

text \<open>
  Whatever happens to a started queue, selections included, its state stays well formed: the table keeps the
  constraints it is declared with (one row for each directory, names that are single path segments) and every clone in
  flight is of a repository whose name may become a directory, which is what keeps a clone in its place.
\<close>

theorem queue_state_is_well_formed:
  assumes "repo_table_ok t" "w = queue_run cfg accounts evs (boot cfg t f)"
  shows "repo_table_ok (qw_rows w) \<and> list_all (\<lambda>(c, st). badName (pc_repo c) = None) (qu_running (qw_queue w))"
  using names_valid_run [OF names_valid_boot [OF assms(1)]] assms(2) by (simp add: names_valid_def)

definition sample_queue :: queue_config where
  "sample_queue = \<lparr>qc_root = ''/w'', qc_orgId = ''acme'', qc_concurrency = 2, qc_git = sample_git, qc_env = Map.empty, qc_pid = 7\<rparr>"

definition sample_boot :: queue_world where
  "sample_boot = boot sample_queue [sample_row] empty_fs"

definition sample_events :: "queue_event list" where
  "sample_events = [QSelect sample_member 5 [sample_repo], QPass 6 (\<lambda>r. False) None, QKick, QPass 7 (\<lambda>r. False) None]"

definition sample_world :: queue_world where
  "sample_world = queue_run sample_queue (\<lambda>u. True) sample_events sample_boot"

lemma sample_row_ok: "repo_table_ok [sample_row]"
  by (simp add: repo_table_ok_def sample_row_def segment_ok_def)

theorem queue_state_is_well_formed_witness: "repo_table_ok (qw_rows sample_world)"
  using queue_state_is_well_formed [OF sample_row_ok sample_world_def [unfolded sample_boot_def]] by blast

text \<open>
  C25: The queue never has more clones in flight than its setting, whose count is exact, whatever happens. A row that says
  \<open>cloning\<close> has its clone in flight, whatever was selected meanwhile, as long as what the clones came to
  could be recorded; a failure whose own record the store refused leaves its row in \<open>cloning\<close> with no clone.
\<close>

theorem queue_keeps_its_slots:
  assumes "w = queue_run cfg accounts evs (boot cfg t f)"
  shows "qu_inFlight (qw_queue w) = int (length (qu_running (qw_queue w))) \<and>
     int (length (qu_running (qw_queue w))) \<le> max 0 (qc_concurrency cfg) \<and>
     (all_recorded cfg accounts evs (boot cfg t f) \<longrightarrow>
       (\<forall>r \<in> set (qw_rows w). rr_org_id r = qc_orgId cfg \<longrightarrow> rr_status r = CsCloning \<longrightarrow>
          (\<exists>(c, st) \<in> set (qu_running (qw_queue w)). pc_userId c = rr_user_id r \<and> pc_repo c = row_repo r)))"
proof -
  have slots: "slots_ok cfg (qw_queue w)" using slots_run [OF slots_boot] assms by simp
  have "clones_owned (qc_orgId cfg) (map fst (qu_running (qw_queue w))) (qw_rows w)"
    if "all_recorded cfg accounts evs (boot cfg t f)"
    using owned_run [OF owned_boot that] assms by simp
  then show ?thesis
    using slots_okD(1,2) [OF slots] clones_ownedD by (fastforce simp: stranded_def clone_of_def)
qed

lemma sample_recorded: "all_recorded sample_queue (\<lambda>u. True) sample_events (boot sample_queue [sample_row] empty_fs)"
  by code_simp

lemma sample_cloning: "map rr_status (qw_rows sample_world) = [CsCloning, CsReady]"
  by code_simp

theorem queue_keeps_its_slots_witness: "\<exists>(c, st) \<in> set (qu_running (qw_queue sample_world)). pc_repo c = sample_repo"
proof -
  have "row_repo (hd (qw_rows sample_world)) = sample_repo" "rr_org_id (hd (qw_rows sample_world)) = qc_orgId sample_queue"
    by code_simp+
  moreover have "hd (qw_rows sample_world) \<in> set (qw_rows sample_world)" "rr_status (hd (qw_rows sample_world)) = CsCloning"
    using sample_cloning by (cases "qw_rows sample_world"; simp)+
  ultimately show ?thesis
    using queue_keeps_its_slots [OF sample_world_def [unfolded sample_boot_def]] sample_recorded by fastforce
qed

text \<open>
  C26: The queue works itself off on its own timer: from whatever state it reached, when it is not stopped and nobody
  selects or kicks, the answers of its clones and passes and, between them, the ticks of the timer it armed leave, after
  a bounded number, nothing queued and nothing in flight; and where every outcome could be recorded,
  each selected repository is then ready or failed.
\<close>

theorem queue_works_itself_off:
  assumes "w = queue_run cfg accounts evs (boot cfg t f)" "\<not> qu_stopped (qw_queue w)" "1 \<le> qc_concurrency cfg"
    "plan = schedule cfg now token accounts (queue_work cfg w) w"
  shows "length plan \<le> queue_work cfg w \<and> worked_off cfg (queue_run cfg accounts plan w) \<and>
    (all_recorded cfg accounts evs (boot cfg t f) \<longrightarrow> all_recorded cfg accounts plan w \<longrightarrow>
      (\<forall>r \<in> set (qw_rows (queue_run cfg accounts plan w)). rr_org_id r = qc_orgId cfg \<longrightarrow> rr_deselected_at r = None \<longrightarrow>
         rr_status r = CsReady \<or> rr_status r = CsFailed))"
proof -
  let ?w = "queue_run cfg accounts plan w"
  have "slots_ok cfg (qw_queue w)" using slots_run [OF slots_boot] assms(1) by simp
  moreover have "poll_ahead (qw_queue w)" using ahead_run [OF ahead_boot] assms(1) by simp
  ultimately have ready: "ready_to_work cfg w" using assms(2,3) by (simp add: ready_to_work_def)
  have off: "worked_off cfg ?w" using schedule_ends [OF ready order.refl] assms(4) by simp
  have "rr_status r = CsReady \<or> rr_status r = CsFailed"
    if rec: "all_recorded cfg accounts evs (boot cfg t f)" "all_recorded cfg accounts plan w"
      and r: "r \<in> set (qw_rows ?w)" "rr_org_id r = qc_orgId cfg" "rr_deselected_at r = None" for r
  proof -
    have "clones_owned (qc_orgId cfg) (map fst (qu_running (qw_queue ?w))) (qw_rows ?w)"
      using owned_run [OF owned_run [OF owned_boot rec(1), folded assms(1)] rec(2)] .
    then have "\<not> stranded (qc_orgId cfg) r" using off r(1) by (auto simp: worked_off_def clones_owned_def)
    moreover have "\<not> pending (qc_orgId cfg) r" using off r(1) by (auto simp: worked_off_def selected_and_queued_def filter_empty_conv)
    ultimately show ?thesis using r(2,3) by (cases "rr_status r") (simp_all add: stranded_def pending_def)
  qed
  then show ?thesis using off length_schedule assms(4) by blast
qed

definition sample_plan :: "queue_event list" where
  "sample_plan = schedule sample_queue 9 (Inr None) (\<lambda>u. True) (queue_work sample_queue sample_world) sample_world"

lemma sample_running: "\<not> qu_stopped (qw_queue sample_world)" "1 \<le> qc_concurrency sample_queue"
  by code_simp+

theorem queue_works_itself_off_witness:
  "worked_off sample_queue (queue_run sample_queue (\<lambda>u. True) sample_plan sample_world)"
  using queue_works_itself_off [OF sample_world_def [unfolded sample_boot_def] sample_running sample_plan_def] by blast

text \<open>
  Saving the same selection again while its clone is in flight queues the row once more, and the next pass
  clones the repository a second time beside the first.
\<close>

lemma reselected_clone_runs_twice:
  "map fst (qu_running (qw_queue (queue_run sample_queue (\<lambda>u. True)
     [QSelect sample_member 5 [sample_repo], QPass 6 (\<lambda>r. False) None, QKick, QPass 7 (\<lambda>r. False) None,
      QSelect sample_member 8 [sample_repo], QKick, QPass 9 (\<lambda>r. False) None] sample_boot))) =
   [\<lparr>pc_userId = sample_member, pc_repo = sample_repo\<rparr>, \<lparr>pc_userId = sample_member, pc_repo = sample_repo\<rparr>]"
  by code_simp

end
