(* ===== verification/Tables.thy ===== *)
theory Tables
  imports Prelude
begin

text \<open>
  What the stores share about tables: the two conflict clauses of an insert, and rows made one by one of a list, any of which may
  be refused. A table with an \<open>on conflict do update\<close> clause is an interface, whose one law is that the update keeps the key; every
  table of the stores is an instance. Then sequences of statements.
\<close>

section \<open>Inserts with a conflict clause\<close>

text \<open>\<open>on conflict do update\<close>, which a statement may not do twice to one row, and \<open>on conflict do nothing\<close>.\<close>

definition upsert_row :: "('r \<Rightarrow> 'k) \<Rightarrow> ('r \<Rightarrow> 'r \<Rightarrow> 'r) \<Rightarrow> 'r \<Rightarrow> 'r list \<Rightarrow> 'r list" where
  "upsert_row key upd r t =
     (if sql_exists (\<lambda>q. key q = key r) t then sql_update (\<lambda>q. key q = key r) (\<lambda>q. upd q r) t else t @ [r])"

definition upsert_rows :: "('r \<Rightarrow> 'k) \<Rightarrow> ('r \<Rightarrow> 'r \<Rightarrow> 'r) \<Rightarrow> 'r list \<Rightarrow> 'r list \<Rightarrow> string + 'r list" where
  "upsert_rows key upd rs t =
     (if \<not> distinct (map key rs) then Inl ''ON CONFLICT DO UPDATE command cannot affect row a second time''
      else Inr (fold (upsert_row key upd) rs t))"

definition insert_new :: "('r \<Rightarrow> 'k) \<Rightarrow> 'r \<Rightarrow> 'r list \<Rightarrow> 'r list" where
  "insert_new key r t = (if sql_exists (\<lambda>q. key q = key r) t then t else t @ [r])"

section \<open>Tables with a conflict clause\<close>

lemma sql_exists_key: "sql_exists (\<lambda>q. key q = k) t \<longleftrightarrow> k \<in> key ` set t"
  unfolding sql_exists_iff by (metis imageE image_eqI)

locale conflict_table =
  fixes key :: "'r \<Rightarrow> 'k" and upd :: "'r \<Rightarrow> 'r \<Rightarrow> 'r"
  assumes upd_key: "key new = key old \<Longrightarrow> key (upd old new) = key old"
begin

lemma upsert_map_key:
  "map key (upsert_row key upd r t) = (if key r \<in> key ` set t then map key t else map key t @ [key r])"
  by (auto simp: upsert_row_def sql_exists_key sql_update_def upd_key)

lemma upsert_keys: "key ` set (upsert_row key upd r t) = insert (key r) (key ` set t)"
  using arg_cong [OF upsert_map_key, of set r t] by (auto split: if_splits)

lemma upsert_distinct: "distinct (map key t) \<Longrightarrow> distinct (map key (upsert_row key upd r t))"
  by (simp add: upsert_map_key)

lemma upsert_elsewhere:
  assumes "\<not> P (key r)" shows "filter (\<lambda>q. P (key q)) (upsert_row key upd r t) = filter (\<lambda>q. P (key q)) t"
proof -
  have "filter (\<lambda>q. P (key q)) (sql_update (\<lambda>q. key q = key r) (\<lambda>q. upd q r) t) = filter (\<lambda>q. P (key q)) t"
    using assms by (induction t) (auto simp: sql_update_def upd_key)
  then show ?thesis using assms by (simp add: upsert_row_def)
qed

lemma upsert_new: "key r \<notin> key ` set t \<Longrightarrow> upsert_row key upd r t = t @ [r]"
  by (simp add: upsert_row_def sql_exists_key)

lemma upsert_stored:
  assumes "distinct (map key t)" "old \<in> set t" "key old = key r"
  shows "filter (\<lambda>q. key q = key r) (upsert_row key upd r t) = [upd old r]"
proof -
  obtain a b where t: "t = a @ old # b" using assms(2) by (auto simp: in_set_conv_decomp)
  have "key r \<notin> key ` set (a @ b)" using assms(1,3) by (simp add: t image_Un)
  then have no: "\<forall>q \<in> set (a @ b). key q \<noteq> key r" by (metis image_eqI)
  have "sql_update (\<lambda>q. key q = key r) (\<lambda>q. upd q r) t = a @ upd old r # b"
    using no assms(3) by (auto simp: t sql_update_def intro: map_idI)
  moreover have "key (upd old r) = key r" using assms(3) by (simp add: upd_key)
  moreover have "sql_exists (\<lambda>q. key q = key r) t" using assms(2,3) by (auto simp: sql_exists_iff)
  ultimately show ?thesis using no by (auto simp: upsert_row_def filter_empty_conv)
qed

lemma fold_upsert_keys: "key ` set (fold (upsert_row key upd) rs t) = key ` set t \<union> key ` set rs"
  by (induction rs arbitrary: t) (auto simp: upsert_keys)

lemma fold_upsert_distinct: "distinct (map key t) \<Longrightarrow> distinct (map key (fold (upsert_row key upd) rs t))"
  by (induction rs arbitrary: t) (auto simp: upsert_distinct)

lemma fold_upsert_elsewhere:
  "(\<And>r. r \<in> set rs \<Longrightarrow> \<not> P (key r)) \<Longrightarrow>
   filter (\<lambda>q. P (key q)) (fold (upsert_row key upd) rs t) = filter (\<lambda>q. P (key q)) t"
  by (induction rs arbitrary: t) (simp_all add: upsert_elsewhere)

lemma fold_upsert_new:
  "distinct (map key rs) \<Longrightarrow> key ` set rs \<inter> key ` set t = {} \<Longrightarrow> fold (upsert_row key upd) rs t = t @ rs"
proof (induction rs arbitrary: t)
  case (Cons r rs)
  then have "key r \<notin> key ` set t" by auto
  then have e: "upsert_row key upd r t = t @ [r]" by (rule upsert_new)
  have "key ` set rs \<inter> key ` set (t @ [r]) = {}" using Cons.prems by auto
  then show ?case using Cons.IH [of "t @ [r]"] Cons.prems by (simp add: e)
qed simp

end

text \<open>Inserts that do nothing on a conflict.\<close>

lemma insert_new_keys: "key ` set (insert_new key r t) = insert (key r) (key ` set t)"
  by (auto simp: insert_new_def sql_exists_key)

lemma fold_insert_new_keys: "key ` set (fold (insert_new key) rs t) = key ` set t \<union> key ` set rs"
  by (induction rs arbitrary: t) (auto simp: insert_new_keys)

lemma fold_insert_new_distinct: "distinct (map key t) \<Longrightarrow> distinct (map key (fold (insert_new key) rs t))"
proof (induction rs arbitrary: t)
  case (Cons r rs)
  have "distinct (map key (insert_new key r t))" using Cons.prems by (simp add: insert_new_def sql_exists_key)
  then show ?case using Cons.IH by simp
qed simp

lemma fold_insert_new_elsewhere:
  "(\<And>r. r \<in> set rs \<Longrightarrow> \<not> P r) \<Longrightarrow> filter P (fold (insert_new key) rs t) = filter P t"
  by (induction rs arbitrary: t) (simp_all add: insert_new_def)

lemma fold_insert_new:
  "distinct (map key rs) \<Longrightarrow> key ` set rs \<inter> key ` set t = {} \<Longrightarrow> fold (insert_new key) rs t = t @ rs"
proof (induction rs arbitrary: t)
  case (Cons r rs)
  then have "key r \<notin> key ` set t" by auto
  then have e: "insert_new key r t = t @ [r]" by (simp add: insert_new_def sql_exists_key)
  have "key ` set rs \<inter> key ` set (t @ [r]) = {}" using Cons.prems by auto
  then show ?case using Cons.IH [of "t @ [r]"] Cons.prems by (simp add: e)
qed simp

lemma fold_insert_new_keeps: "set t \<subseteq> set (fold (insert_new key) rs t)"
proof (induction rs arbitrary: t)
  case (Cons r rs)
  have "set t \<subseteq> set (insert_new key r t)" by (auto simp: insert_new_def)
  then show ?case using Cons.IH [of "insert_new key r t"] by auto
qed simp

section \<open>Lists of which an element may be refused\<close>

fun all_or_throw :: "('a \<Rightarrow> 'e + 'b) \<Rightarrow> 'a list \<Rightarrow> 'e + 'b list" where
  "all_or_throw f [] = Inr []"
| "all_or_throw f (x # xs) =
     (case f x of Inl e \<Rightarrow> Inl e | Inr y \<Rightarrow> (case all_or_throw f xs of Inl e \<Rightarrow> Inl e | Inr ys \<Rightarrow> Inr (y # ys)))"

lemma all_or_throw_map:
  "all_or_throw f xs = Inr rs \<Longrightarrow> length rs = length xs \<and> (\<forall>i < length xs. f (xs ! i) = Inr (rs ! i))"
proof (induction xs arbitrary: rs)
  case (Cons x xs)
  then obtain r qs where "f x = Inr r" "all_or_throw f xs = Inr qs" "rs = r # qs" by (auto split: sum.splits)
  then show ?case using Cons.IH [of qs] by (auto simp: nth_Cons split: nat.splits)
qed simp

lemma all_or_throw_list_all2: "all_or_throw f xs = Inr rs \<Longrightarrow> list_all2 (\<lambda>x r. f x = Inr r) xs rs"
  using all_or_throw_map by (auto simp: list_all2_conv_all_nth)

lemma list_all2_map_eq: "list_all2 (\<lambda>x r. g r = h x) xs rs \<Longrightarrow> map g rs = map h xs"
  by (induction rule: list_all2_induct) auto

lemma all_or_throw_image:
  assumes "all_or_throw f xs = Inr rs" "\<And>x r. x \<in> set xs \<Longrightarrow> f x = Inr r \<Longrightarrow> g r = h x"
  shows "map g rs = map h xs"
proof -
  have "list_all2 (\<lambda>x r. g r = h x) xs rs"
    using all_or_throw_map [OF assms(1)] assms(2) by (auto simp: list_all2_conv_all_nth)
  then show ?thesis by (rule list_all2_map_eq)
qed

lemma all_or_throw_all:
  assumes "all_or_throw f xs = Inr rs" "r \<in> set rs" shows "\<exists>x \<in> set xs. f x = Inr r"
  using all_or_throw_map [OF assms(1)] assms(2) by (metis in_set_conv_nth)

lemma all_or_throw_ok: "(\<And>x. x \<in> set xs \<Longrightarrow> f x = Inr (g x)) \<Longrightarrow> all_or_throw f xs = Inr (map g xs)"
  by (induction xs) auto

section \<open>Statements\<close>

text \<open>
  A statement, or a transaction, changes the tables or is refused and changes nothing. Of a sequence the first that
  is refused ends it, and those before it stay. \<open>Some (n, e)\<close> is a database that stops answering, with \<open>e\<close>, after
  \<open>n\<close> of them; \<open>n = 0\<close> also stands for migrations that gave up.
\<close>

type_synonym 'd statement = "'d \<Rightarrow> string + 'd"

fun run_statements :: "(nat \<times> string) option \<Rightarrow> 'd statement list \<Rightarrow> 'd \<Rightarrow> (string + unit) \<times> 'd" where
  "run_statements (Some (0, e)) sts db = (Inl e, db)"
| "run_statements flt [] db = (Inr (), db)"
| "run_statements flt (st # sts) db =
     (case st db of Inl e \<Rightarrow> (Inl e, db) | Inr db' \<Rightarrow> run_statements (map_option (\<lambda>(n, e). (n - 1, e)) flt) sts db')"

lemma run_statements_append:
  "run_statements flt (xs @ ys) db =
     (case run_statements flt xs db of
        (Inl e, d) \<Rightarrow> (Inl e, d)
      | (Inr u, d) \<Rightarrow> run_statements (map_option (\<lambda>(n, e). (n - length xs, e)) flt) ys d)"
  by (induction flt xs db rule: run_statements.induct) (simp_all split: sum.split prod.split)

lemma run_statements_induct:
  assumes "\<And>st a b. st \<in> set sts \<Longrightarrow> st a = Inr b \<Longrightarrow> P a \<Longrightarrow> P b" "P db"
  shows "P (snd (run_statements flt sts db))"
  using assms by (induction flt sts db rule: run_statements.induct) (auto split: sum.split)

lemma run_statements_rel:
  assumes "\<And>st a b. st \<in> set sts \<Longrightarrow> st a = Inr b \<Longrightarrow> R a b" "\<And>a. R a a" "\<And>a b c. R a b \<Longrightarrow> R b c \<Longrightarrow> R a c"
  shows "R db (snd (run_statements flt sts db))"
  by (rule run_statements_induct [where P = "R db"]) (use assms in blast)+

text \<open>A property every statement hands on, with what each of a successful run established.\<close>

lemma run_statements_all:
  assumes "run_statements flt sts db = (Inr u, db')" "st \<in> set sts"
    "\<And>a b. st a = Inr b \<Longrightarrow> Q b" "\<And>s a b. s \<in> set sts \<Longrightarrow> s a = Inr b \<Longrightarrow> Q a \<Longrightarrow> Q b"
  shows "Q db'"
proof -
  obtain xs ys where s: "sts = xs @ st # ys" using assms(2) by (auto simp: in_set_conv_decomp)
  obtain d where d: "run_statements flt xs db = (Inr (), d)"
      and r: "run_statements (map_option (\<lambda>(n, e). (n - length xs, e)) flt) (st # ys) d = (Inr u, db')"
    using assms(1) unfolding s run_statements_append by (auto split: prod.splits sum.splits)
  obtain f c where c: "st d = Inr c" and y: "run_statements f ys c = (Inr u, db')"
    using r by (cases "(map_option (\<lambda>(n, e). (n - length xs, e)) flt, st # ys, d)" rule: run_statements.cases)
      (auto split: sum.splits)
  have "Q (snd (run_statements f ys c))"
    by (rule run_statements_induct [where P = Q]) (use assms(4) s assms(3) [OF c] in auto)
  then show ?thesis by (simp add: y)
qed

end
