(* ===== verification/GithubMap.thy ===== *)
theory GithubMap
  imports ServerConfig Canonical Tables
begin

text \<open>
  GitHub's reply and what is made of it: the shape its queries ask for (\<open>github/schema.ts\<close>), the mapping to the
  canonical pull request (\<open>github/map.ts\<close>) and the failures of a request (\<open>github/errors.ts\<close>). That a reply has the
  shape is a cast in the code; here replies come typed.
\<close>

section \<open>The shape of a reply\<close>

datatype raw_state = RawOpen | RawClosed | RawMerged

record raw_commit =
  rc_oid :: string
  rc_committedDate :: string

record raw_review =
  rr_id :: string
  rr_author :: "CanonicalActor option"
  rr_state :: string
  rr_submittedAt :: "string option"

record raw_comment =
  ro_author :: "CanonicalActor option"
  ro_createdAt :: string
  ro_pullRequestReview :: "string option"

record raw_thread =
  rt_id :: string
  rt_isResolved :: bool
  rt_isOutdated :: bool
  rt_comments :: "raw_comment list"

record RawPullRequest =
  rp_number :: int
  rp_title :: string
  rp_state :: raw_state
  rp_isDraft :: bool
  rp_baseRefName :: string
  rp_headRefName :: string
  rp_createdAt :: string
  rp_updatedAt :: string
  rp_mergedAt :: "string option"
  rp_closedAt :: "string option"
  rp_additions :: int
  rp_deletions :: int
  rp_changedFiles :: int
  rp_author :: "CanonicalActor option"
  rp_commitCount :: int
  rp_commits :: "raw_commit list"
  rp_commentCount :: int
  rp_labels :: "string list"
  rp_reviewCount :: int
  rp_reviews :: "raw_review list"
  rp_threadCount :: int
  rp_threads :: "raw_thread list"
  rp_forcePushes :: nat
  rp_readyForReview :: "string list"

section \<open>The mapping\<close>

abbreviation INNER_LIMIT :: int where "INNER_LIMIT \<equiv> 100"

definition REVIEW_STATES :: "(string \<times> CanonicalReviewState) list" where
  "REVIEW_STATES = [(''PENDING'', RPending), (''COMMENTED'', RCommented), (''APPROVED'', RApproved),
     (''CHANGES_REQUESTED'', RChangesRequested), (''DISMISSED'', RDismissed)]"

text \<open>\<open>Inl\<close> is the message of what is thrown. The lookup is of GitHub's upper-case names, which no built-in member of an object has.\<close>

definition reviewState :: "string \<Rightarrow> string + CanonicalReviewState" where
  "reviewState raw =
     (case map_of REVIEW_STATES raw of None \<Rightarrow> Inl (''Unknown GitHub review state '' @ quoted raw) | Some s \<Rightarrow> Inr s)"

definition truncatedConnections :: "RawPullRequest \<Rightarrow> PrConnection list" where
  "truncatedConnections pr =
     (if int (length (rp_reviews pr)) < rp_reviewCount pr then [CReviews] else []) @
     (if int (length (rp_threads pr)) < rp_threadCount pr then [CReviewThreads] else []) @
     (if int (length (rp_commits pr)) < rp_commitCount pr then [CCommits] else [])"

fun connection_count :: "RawPullRequest \<Rightarrow> PrConnection \<Rightarrow> int" where
  "connection_count pr CReviews = rp_reviewCount pr"
| "connection_count pr CReviewThreads = rp_threadCount pr"
| "connection_count pr CCommits = rp_commitCount pr"

definition oversizedConnections :: "RawPullRequest \<Rightarrow> PrConnection list" where
  "oversizedConnections pr = filter (\<lambda>c. connection_count pr c > INNER_LIMIT) [CReviews, CReviewThreads, CCommits]"

definition canonical_review :: "raw_review \<Rightarrow> string + CanonicalReview" where
  "canonical_review r =
     (case reviewState (rr_state r) of
        Inl e \<Rightarrow> Inl e
      | Inr s \<Rightarrow> Inr \<lparr>cr_reviewKey = rr_id r, cr_author = rr_author r, cr_state = s, cr_providerState = rr_state r,
          cr_submittedAt = rr_submittedAt r\<rparr>)"

definition canonical_thread :: "raw_thread \<Rightarrow> CanonicalReviewThread" where
  "canonical_thread th =
     (let first = (case rt_comments th of [] \<Rightarrow> None | c # cs \<Rightarrow> Some c) in
      \<lparr>ct_threadKey = rt_id th, ct_isResolved = rt_isResolved th, ct_isOutdated = rt_isOutdated th,
       ct_firstCommentAuthor = Option.bind first ro_author, ct_firstCommentAt = map_option ro_createdAt first,
       ct_parentReviewKey = Option.bind first ro_pullRequestReview\<rparr>)"

definition toCanonical :: "RawPullRequest \<Rightarrow> string \<Rightarrow> string + CanonicalPr" where
  "toCanonical raw repo =
     (case all_or_throw canonical_review (rp_reviews raw) of
        Inl e \<Rightarrow> Inl e
      | Inr reviews \<Rightarrow> Inr
          \<lparr>cp_provider = GitHub, cp_repo = repo, cp_number = rp_number raw, cp_title = rp_title raw,
           cp_state = (case rp_state raw of RawMerged \<Rightarrow> PrMerged | RawClosed \<Rightarrow> PrClosed | RawOpen \<Rightarrow> PrOpen),
           cp_isDraft = rp_isDraft raw, cp_baseRef = rp_baseRefName raw, cp_headRef = rp_headRefName raw,
           cp_createdAt = rp_createdAt raw, cp_mergedAt = rp_mergedAt raw, cp_closedAt = rp_closedAt raw,
           cp_updatedAt = rp_updatedAt raw, cp_additions = rp_additions raw, cp_deletions = rp_deletions raw,
           cp_changedFiles = rp_changedFiles raw, cp_author = rp_author raw, cp_commitCount = rp_commitCount raw,
           cp_reviewCount = rp_reviewCount raw, cp_threadCount = rp_threadCount raw,
           cp_issueCommentCount = rp_commentCount raw, cp_forcePushCount = Some (int (rp_forcePushes raw)),
           cp_readyAt = (case rp_readyForReview raw of [] \<Rightarrow> None | t # ts \<Rightarrow> Some t),
           cp_commits = map (\<lambda>c. \<lparr>cc_sha = rc_oid c, cc_committedAt = rc_committedDate c\<rparr>) (rp_commits raw),
           cp_reviews = reviews, cp_threads = map canonical_thread (rp_threads raw), cp_labels = rp_labels raw,
           cp_truncated = truncatedConnections raw\<rparr>)"

section \<open>Failures\<close>

datatype GitHubErrorCode = TOKEN_REJECTED | FORBIDDEN | RATE_LIMITED | NOT_FOUND | UPSTREAM | NETWORK | GRAPHQL | REPO_LIST

fun error_code_str :: "GitHubErrorCode \<Rightarrow> string" where
  "error_code_str TOKEN_REJECTED = ''TOKEN_REJECTED''"
| "error_code_str FORBIDDEN = ''FORBIDDEN''"
| "error_code_str RATE_LIMITED = ''RATE_LIMITED''"
| "error_code_str NOT_FOUND = ''NOT_FOUND''"
| "error_code_str UPSTREAM = ''UPSTREAM''"
| "error_code_str NETWORK = ''NETWORK''"
| "error_code_str GRAPHQL = ''GRAPHQL''"
| "error_code_str REPO_LIST = ''REPO_LIST''"

record HttpFailure =
  hf_message :: string
  hf_code :: GitHubErrorCode

record refused_response =
  rf_status :: nat
  rf_remaining :: "string option"
  rf_reset :: "string option"
  rf_text :: string

text \<open>\<open>new Date(n)\<close>: the whole part of a number, if it is within the range of dates.\<close>

definition date_of_number :: "rat option \<Rightarrow> int option" where
  "date_of_number n =
     (case n of None \<Rightarrow> None
      | Some q \<Rightarrow> let t = (if 0 \<le> q then \<lfloor>q\<rfloor> else \<lceil>q\<rceil>) in if \<bar>t\<bar> \<le> 8640000000000000 then Some t else None)"

text \<open>\<open>Inl\<close>: a reset that is no number makes the description itself throw.\<close>

definition rate_limit_failure :: "string option \<Rightarrow> string + HttpFailure" where
  "rate_limit_failure reset =
     (case (if truthy reset then map_option to_iso (date_of_number (map_option (\<lambda>q. q * 1000) (js_number (the reset))))
            else Some ''an unknown time'') of
        None \<Rightarrow> Inl ''Invalid time value''
      | Some at' \<Rightarrow> Inr \<lparr>hf_message = ''Rate limit exhausted. Resets at '' @ at' @ ''.'', hf_code = RATE_LIMITED\<rparr>)"

definition describeHttpFailure :: "refused_response \<Rightarrow> string \<Rightarrow> Repo \<Rightarrow> string + HttpFailure" where
  "describeHttpFailure r text repo =
     (let status = nat_str (rf_status r); name = repo_owner repo @ ''/'' @ repo_name repo in
      if rf_status r = 401
      then Inr \<lparr>hf_message = ''Token rejected (401). It is invalid, expired, or revoked.'', hf_code = TOKEN_REJECTED\<rparr>
      else if rf_status r = 403 \<or> rf_status r = 429
      then (if rf_remaining r = Some ''0'' \<or> includes_str (js_lower text) ''rate limit'' then rate_limit_failure (rf_reset r)
            else Inr \<lparr>hf_message = ''Forbidden ('' @ status @ ''). The token likely lacks access to '' @ name @
              '', or the org has not approved it.'', hf_code = FORBIDDEN\<rparr>)
      else if rf_status r = 404
      then Inr \<lparr>hf_message = ''Repository '' @ name @ '' not visible to this token.'', hf_code = NOT_FOUND\<rparr>
      else Inr \<lparr>hf_message = ''GitHub returned '' @ status @ ''. '' @ take 200 text, hf_code = UPSTREAM\<rparr>)"

end
