(* ===== verification/Forge.thy ===== *)
theory Forge
  imports Canonical
begin

text \<open>
  What the server needs of a code forge, \<open>server/src/forge.ts\<close>: the data its client exchanges, and the one
  in-memory slot with single-flight refresh of \<open>server/src/cache.ts\<close>.
\<close>

section \<open>Data\<close>

record RateLimit =
  rl_remaining :: int
  rl_resetAt :: string

datatype ProgressPhase = PhPrs | PhBackfill | PhHistory

record Progress =
  pg_phase :: ProgressPhase
  pg_repo :: "string option"
  pg_prsFetched :: "nat option"
  pg_backfillingPr :: "int option"
  pg_historyScanned :: "nat option"

datatype SyncMode = SyncFull | SyncIncremental

record PullRequestsResult =
  pq_prs :: "CanonicalPr list"
  pq_rateLimit :: "RateLimit option"
  pq_completed :: "(string \<times> bool) list"

record BranchCommit =
  bk_sha :: string
  bk_committedAt :: string
  bk_messageHeadline :: string

record RepoBranchHistory =
  rh_repo :: string
  rh_branch :: string
  rh_history :: "BranchHistory option"
  rh_commits :: "BranchCommit list"

section \<open>A slot\<close>

text \<open>
  \<open>produce\<close> is in flight or not; what it comes to is an event. \<open>None\<close> is a rejection, which leaves the entry
  as it was.
\<close>

record 'a slot =
  sl_entry :: "('a \<times> int) option"
  sl_pending :: bool

definition new_slot :: "'a slot" where
  "new_slot = \<lparr>sl_entry = None, sl_pending = False\<rparr>"

definition slot_isStale :: "int \<Rightarrow> int \<Rightarrow> 'a slot \<Rightarrow> bool" where
  "slot_isStale ttl now c \<longleftrightarrow> (case sl_entry c of None \<Rightarrow> True | Some (v, fetchedAt) \<Rightarrow> now - fetchedAt \<ge> ttl)"

text \<open>The slot, and whether \<open>produce\<close> was called.\<close>

definition slot_refresh :: "'a slot \<Rightarrow> 'a slot \<times> bool" where
  "slot_refresh c = (c\<lparr>sl_pending := True\<rparr>, \<not> sl_pending c)"

definition slot_produced :: "int \<Rightarrow> 'a option \<Rightarrow> 'a slot \<Rightarrow> 'a slot" where
  "slot_produced now r c =
     (case r of None \<Rightarrow> c\<lparr>sl_pending := False\<rparr> | Some v \<Rightarrow> c\<lparr>sl_pending := False, sl_entry := Some (v, now)\<rparr>)"

definition slot_seed :: "'a \<Rightarrow> int \<Rightarrow> 'a slot \<Rightarrow> 'a slot \<times> bool" where
  "slot_seed v fetchedAt c =
     (case sl_entry c of Some e \<Rightarrow> (c, False) | None \<Rightarrow> (c\<lparr>sl_entry := Some (v, fetchedAt)\<rparr>, True))"

lemma seed_never_overwrites: "sl_entry c \<noteq> None \<Longrightarrow> slot_seed v t c = (c, False)"
  by (auto simp: slot_seed_def)

lemma failed_refresh_keeps_entry: "sl_entry (slot_produced now None c) = sl_entry c"
  by (simp add: slot_produced_def)

end
