(* ===== verification/RepoSource.thy ===== *)
theory RepoSource
  imports Forge ServerConfig
begin

text \<open>
  The repository list, \<open>server/src/github/repo-source.ts\<close>: the slot of \<open>cache.ts\<close> over the answer of the App
  installation (\<open>app-client.ts\<close>), or, without a credential, over the names the database has rows for. Asking is two
  steps: \<open>list_begin\<close> starts a refresh when the list is stale, and the answer, which may be awaited by several callers, is
  \<open>list_answered\<close>; a caller then reads the snapshot, which is what \<open>load\<close> resolves to whether the refresh came to
  something or not.
\<close>

record InstallationRepo =
  ir_owner :: string
  ir_name :: string
  ir_private :: bool
  ir_defaultBranch :: "string option"
  ir_pushedAt :: "string option"

record Installation =
  il_id :: string
  il_account :: "string option"
  il_repositorySelection :: "string option"

record repo_listing =
  li_repos :: "InstallationRepo list"
  li_installation :: "Installation option"

record repo_source =
  so_slot :: "repo_listing slot"
  so_error :: "string option"

abbreviation INSTALLATION_REPOS_TTL_MS :: int where "INSTALLATION_REPOS_TTL_MS \<equiv> 10 * 60 * 1000"

definition new_repo_source :: repo_source where
  "new_repo_source = \<lparr>so_slot = new_slot, so_error = None\<rparr>"

definition parseFullName :: "string \<Rightarrow> InstallationRepo option" where
  "parseFullName name =
     (let owner = takeWhile (\<lambda>c. c \<noteq> CHR ''/'') name; rest = drop (length owner) name in
      if rest = [] \<or> owner = [] \<or> length owner + 1 = length name then None
      else Some \<lparr>ir_owner = owner, ir_name = drop 1 rest, ir_private = False, ir_defaultBranch = None, ir_pushedAt = None\<rparr>)"

text \<open>What \<open>produce\<close> makes of an answer: of the installation, or of the database when there is no credential.\<close>

datatype repos_answer =
    FromClient "string + repo_listing"
  | FromStore "string + string list"
  | NoSource

definition list_answered :: "int \<Rightarrow> repos_answer \<Rightarrow> repo_source \<Rightarrow> repo_source" where
  "list_answered now a s =
     (case a of
        FromClient (Inr l) \<Rightarrow> s\<lparr>so_slot := slot_produced now (Some l) (so_slot s), so_error := None\<rparr>
      | FromClient (Inl e) \<Rightarrow> s\<lparr>so_slot := slot_produced now None (so_slot s), so_error := Some e\<rparr>
      | FromStore (Inr names) \<Rightarrow>
          s\<lparr>so_slot := slot_produced now
             (Some \<lparr>li_repos = List.map_filter parseFullName names, li_installation = None\<rparr>) (so_slot s)\<rparr>
      | FromStore (Inl e) \<Rightarrow> s\<lparr>so_slot := slot_produced now None (so_slot s)\<rparr>
      | NoSource \<Rightarrow> s\<lparr>so_slot := slot_produced now (Some \<lparr>li_repos = [], li_installation = None\<rparr>) (so_slot s)\<rparr>)"

text \<open>\<open>load\<close>: whether the caller has to wait for an answer.\<close>

definition list_begin :: "int \<Rightarrow> repo_source \<Rightarrow> repo_source \<times> bool" where
  "list_begin now s =
     (if slot_isStale INSTALLATION_REPOS_TTL_MS now (so_slot s)
      then (s\<lparr>so_slot := fst (slot_refresh (so_slot s))\<rparr>, True) else (s, False))"

definition snapshot :: "repo_source \<Rightarrow> InstallationRepo list" where
  "snapshot s = (case sl_entry (so_slot s) of None \<Rightarrow> [] | Some (l, t) \<Rightarrow> li_repos l)"

definition snapshotNames :: "repo_source \<Rightarrow> string list" where
  "snapshotNames s = map (\<lambda>r. fullName \<lparr>repo_owner = ir_owner r, repo_name = ir_name r\<rparr>) (snapshot s)"

definition source_detail :: "repo_source \<Rightarrow> repo_listing" where
  "source_detail s = (case sl_entry (so_slot s) of None \<Rightarrow> \<lparr>li_repos = [], li_installation = None\<rparr> | Some (l, t) \<Rightarrow> l)"

definition source_fetchedAt :: "repo_source \<Rightarrow> int option" where
  "source_fetchedAt s = map_option snd (sl_entry (so_slot s))"

section \<open>Facts\<close>

text \<open>A stored name reads back: the owner has no slash.\<close>

lemma parse_fullName:
  assumes "CHR ''/'' \<notin> set (repo_owner r)" "repo_owner r \<noteq> []" "repo_name r \<noteq> []"
  shows "map_option (\<lambda>i. (ir_owner i, ir_name i)) (parseFullName (fullName r)) = Some (repo_owner r, repo_name r)"
proof -
  have "takeWhile (\<lambda>c. c \<noteq> CHR ''/'') (repo_owner r @ ''/'' @ repo_name r) = repo_owner r"
    using assms(1) by (subst takeWhile_append2) auto
  then show ?thesis using assms(2,3) by (simp add: parseFullName_def fullName_def Let_def)
qed

text \<open>A failure to list keeps the last list.\<close>

lemma failed_list_keeps_snapshot:
  "a = FromClient (Inl e) \<or> a = FromStore (Inl e) \<Longrightarrow> snapshot (list_answered now a s) = snapshot s"
  by (auto simp: list_answered_def snapshot_def slot_produced_def)

end
