(* ===== verification/GithubClient.thy ===== *)
theory GithubClient
  imports GithubMap RepoSource
begin

text \<open>
  The GraphQL client, \<open>server/src/github/client.ts\<close>: a request with its retries, the paging of pull requests, of what a first page
  cut off and of a base branch's commits. GitHub is a parameter with a state of its own, which every
  request may change: what it answers to each of the queries of \<open>queries.ts\<close>. A thrown error is its message and its code,
  \<open>UNKNOWN\<close> for one that is no \<open>GitHubError\<close>. The waits between attempts are left out.
\<close>

section \<open>Requests\<close>

record 'n Connection =
  co_nodes :: "'n list"
  co_hasNextPage :: bool
  co_endCursor :: string

record PrPage =
  pp_page :: "RawPullRequest Connection"
  pp_rateLimit :: "RateLimit option"

record HistoryCommit =
  hc_oid :: string
  hc_messageHeadline :: string
  hc_committedDate :: string

record HistoryPage =
  hp_connection :: "HistoryCommit Connection"
  hp_totalCount :: int

text \<open>
  What a request comes to: no response, a refusal, a body that is no JSON or not of the declared shape (with the message
  that is thrown), or an answer with its errors.
\<close>

datatype 'd gql_answer =
    NoResponse string
  | RefusedResponse refused_response
  | BrokenBody string
  | Answer "string list" 'd

type_synonym thrown = "string \<times> string"

datatype walk_order = UPDATED_DESC | CREATED_DESC

text \<open>
  The credential (none under \<open>GITHUB_MODE=none\<close>), and the answers to the queries: of the pull requests in an order, of one pull request's reviews and
  threads, of a branch's history since an instant; each from a cursor, with a token. A history is \<open>None\<close> where the branch is not
  readable.
\<close>

record 's github_api =
  ga_tokens :: "('s \<Rightarrow> (thrown + string) \<times> 's) option"
  ga_pulls :: "string \<Rightarrow> Repo \<Rightarrow> walk_order \<Rightarrow> string option \<Rightarrow> 's \<Rightarrow> PrPage gql_answer \<times> 's"
  ga_reviews :: "string \<Rightarrow> Repo \<Rightarrow> int \<Rightarrow> string option \<Rightarrow> 's \<Rightarrow> raw_review Connection gql_answer \<times> 's"
  ga_threads :: "string \<Rightarrow> Repo \<Rightarrow> int \<Rightarrow> string option \<Rightarrow> 's \<Rightarrow> raw_thread Connection gql_answer \<times> 's"
  ga_history :: "string \<Rightarrow> Repo \<Rightarrow> string \<Rightarrow> string \<Rightarrow> string option \<Rightarrow> 's \<Rightarrow> HistoryPage option gql_answer \<times> 's"

abbreviation MAX_INNER_PAGES :: nat where "MAX_INNER_PAGES \<equiv> 50"
abbreviation MAX_HISTORY_PAGES :: nat where "MAX_HISTORY_PAGES \<equiv> 400"
abbreviation GRAPHQL_ATTEMPTS :: nat where "GRAPHQL_ATTEMPTS \<equiv> 3"

definition github_error :: "string \<Rightarrow> GitHubErrorCode \<Rightarrow> thrown" where
  "github_error message c = (message, error_code_str c)"

definition failure_thrown :: "string + HttpFailure \<Rightarrow> thrown" where
  "failure_thrown f = (case f of Inl e \<Rightarrow> (e, ''UNKNOWN'') | Inr h \<Rightarrow> github_error (hf_message h) (hf_code h))"

definition no_response :: "string \<Rightarrow> thrown" where
  "no_response e = github_error (''Could not reach api.github.com ('' @ e @ '').'') NETWORK"

text \<open>The loop over the attempts: only what may pass by itself is tried again.\<close>

fun graphql_attempts :: "nat \<Rightarrow> ('s \<Rightarrow> 'd gql_answer \<times> 's) \<Rightarrow> Repo \<Rightarrow> 's \<Rightarrow> (thrown + 'd) \<times> 's" where
  "graphql_attempts 0 post repo s = (Inl (github_error [] UPSTREAM), s)"
| "graphql_attempts (Suc n) post repo s =
     (case post s of
        (NoResponse e, s') \<Rightarrow> if n = 0 then (Inl (no_response e), s') else graphql_attempts n post repo s'
      | (RefusedResponse r, s') \<Rightarrow>
          if 500 \<le> rf_status r
          then (if n = 0 then (Inl (failure_thrown (describeHttpFailure r [] repo)), s') else graphql_attempts n post repo s')
          else (Inl (failure_thrown (describeHttpFailure r (rf_text r) repo)), s')
      | (BrokenBody e, s') \<Rightarrow> (Inl (e, ''UNKNOWN''), s')
      | (Answer errors d, s') \<Rightarrow>
          if errors \<noteq> [] then (Inl (github_error (join_with ''; '' errors) GRAPHQL), s') else (Inr d, s'))"

definition no_credential :: thrown where
  "no_credential = github_error
     (''GITHUB_MODE is '' @ quoted ''none'' @ '', so this deployment has no GitHub credential and serves only what is already stored'')
     TOKEN_REJECTED"

definition graphql :: "'s github_api \<Rightarrow> (string \<Rightarrow> 's \<Rightarrow> 'd gql_answer \<times> 's) \<Rightarrow> Repo \<Rightarrow> 's \<Rightarrow> (thrown + 'd) \<times> 's" where
  "graphql api post repo s =
     (case ga_tokens api of
        None \<Rightarrow> (Inl no_credential, s)
      | Some get \<Rightarrow>
          (case get s of
             (Inl e, s') \<Rightarrow> (Inl e, s')
           | (Inr token, s') \<Rightarrow> graphql_attempts GRAPHQL_ATTEMPTS (post token) repo s'))"

section \<open>What a first page cut off\<close>

definition inner_limit_error :: "Repo \<Rightarrow> int \<Rightarrow> thrown" where
  "inner_limit_error repo number = github_error
     (fullName repo @ ''#'' @ int_str number @ '' exceeded '' @ nat_str MAX_INNER_PAGES @ '' inner pages; refusing to loop.'') UPSTREAM"

fun collect_pages ::
  "nat \<Rightarrow> (string option \<Rightarrow> 's \<Rightarrow> (thrown + 'n Connection) \<times> 's) \<Rightarrow> thrown \<Rightarrow> string option \<Rightarrow> 'n list \<Rightarrow> 's \<Rightarrow> (thrown + 'n list) \<times> 's"
where
  "collect_pages 0 ask refusal cursor nodes s = (Inl refusal, s)"
| "collect_pages (Suc n) ask refusal cursor nodes s =
     (case ask cursor s of
        (Inl e, s') \<Rightarrow> (Inl e, s')
      | (Inr c, s') \<Rightarrow>
          if \<not> co_hasNextPage c then (Inr (nodes @ co_nodes c), s')
          else collect_pages n ask refusal (Some (co_endCursor c)) (nodes @ co_nodes c) s')"

definition collectNodes ::
  "'s github_api \<Rightarrow> (string \<Rightarrow> Repo \<Rightarrow> int \<Rightarrow> string option \<Rightarrow> 's \<Rightarrow> 'n Connection gql_answer \<times> 's) \<Rightarrow> Repo \<Rightarrow> int \<Rightarrow> 's \<Rightarrow>
    (thrown + 'n list) \<times> 's"
where
  "collectNodes api query repo number s =
     collect_pages MAX_INNER_PAGES (\<lambda>cursor. graphql api (\<lambda>token. query token repo number cursor) repo)
       (inner_limit_error repo number) None [] s"

definition backfill ::
  "'s github_api \<Rightarrow> Repo \<Rightarrow> RawPullRequest \<Rightarrow> PrConnection list \<Rightarrow> 's \<Rightarrow> (thrown + RawPullRequest) \<times> 's"
where
  "backfill api repo pr connections s =
     (case (if CReviewThreads \<in> set connections
            then (case collectNodes api (ga_threads api) repo (rp_number pr) s of
                (Inl e, s') \<Rightarrow> (Inl e, s') | (Inr ns, s') \<Rightarrow> (Inr (pr\<lparr>rp_threads := ns\<rparr>), s'))
            else (Inr pr, s)) of
        (Inl e, s1) \<Rightarrow> (Inl e, s1)
      | (Inr pr1, s1) \<Rightarrow>
          if CReviews \<in> set connections
          then (case collectNodes api (ga_reviews api) repo (rp_number pr) s1 of
              (Inl e, s2) \<Rightarrow> (Inl e, s2) | (Inr ns, s2) \<Rightarrow> (Inr (pr1\<lparr>rp_reviews := ns\<rparr>), s2))
          else (Inr pr1, s1))"

section \<open>The walk\<close>

text \<open>
  The page loop has no bound of its own, so it is partial: \<open>None\<close> is a walk that never ends. It hands back what it added to \<open>raw\<close>, the last rate
  limit and its progress. \<open>before\<close> is how many were fetched before it.
\<close>

type_synonym page_walk = "RawPullRequest list \<times> RateLimit option \<times> Progress list"

definition prs_progress :: "string \<Rightarrow> nat \<Rightarrow> Progress" where
  "prs_progress name n = \<lparr>pg_phase = PhPrs, pg_repo = Some name, pg_prsFetched = Some n, pg_backfillingPr = None, pg_historyScanned = None\<rparr>"

definition below_cutoff :: "string option \<Rightarrow> RawPullRequest list \<Rightarrow> bool" where
  "below_cutoff stopAt nodes \<longleftrightarrow> truthy stopAt \<and> nodes \<noteq> [] \<and> (\<forall>pr \<in> set nodes. rp_updatedAt pr < the stopAt)"

partial_function (option) walk_pages ::
  "'s github_api \<Rightarrow> Repo \<Rightarrow> string option \<Rightarrow> nat \<Rightarrow> string option \<Rightarrow> page_walk \<Rightarrow> 's \<Rightarrow> ((thrown + page_walk) \<times> 's) option"
where
  "walk_pages api repo stopAt before cursor w s =
     (case graphql api (\<lambda>token. ga_pulls api token repo (if truthy stopAt then UPDATED_DESC else CREATED_DESC) cursor) repo s of
        (Inl e, s') \<Rightarrow> Some (Inl e, s')
      | (Inr page, s') \<Rightarrow>
          let prs = fst w @ co_nodes (pp_page page);
              w' = (prs, pp_rateLimit page, snd (snd w) @ [prs_progress (fullName repo) (before + length prs)]) in
          if below_cutoff stopAt (co_nodes (pp_page page)) \<or> \<not> co_hasNextPage (pp_page page) then Some (Inr w', s')
          else walk_pages api repo stopAt before (Some (co_endCursor (pp_page page))) w' s')"

declare walk_pages.simps [code]

text \<open>
  The repositories, one after the other. \<open>raw\<close> holds each pull request with its repository. An error ends the whole
  fetch, so that what is handed back has completed every walk.
\<close>

fun walk_repos ::
  "'s github_api \<Rightarrow> SyncMode \<Rightarrow> (string \<times> string) list \<Rightarrow> Repo list \<Rightarrow> (Repo \<times> RawPullRequest) list \<times> RateLimit option \<times> Progress list \<Rightarrow> 's \<Rightarrow>
    ((thrown + (Repo \<times> RawPullRequest) list \<times> RateLimit option \<times> Progress list) \<times> 's) option"
where
  "walk_repos api mode cutoff [] w s = Some (Inr w, s)"
| "walk_repos api mode cutoff (repo # repos) w s =
     (case walk_pages api repo (if mode = SyncIncremental then map_of cutoff (fullName repo) else None) (length (fst w)) None
             ([], fst (snd w), []) s of
        None \<Rightarrow> None
      | Some (Inl e, s') \<Rightarrow> Some (Inl e, s')
      | Some (Inr (prs, rl, ps), s') \<Rightarrow>
          walk_repos api mode cutoff repos (fst w @ map (Pair repo) prs, rl, snd (snd w) @ ps) s')"

text \<open>The second pass, over those of \<open>raw\<close> a first page cut off, in place.\<close>

definition backfill_progress :: "Repo \<Rightarrow> RawPullRequest \<Rightarrow> Progress" where
  "backfill_progress repo pr = \<lparr>pg_phase = PhBackfill, pg_repo = Some (fullName repo), pg_prsFetched = None,
     pg_backfillingPr = Some (rp_number pr), pg_historyScanned = None\<rparr>"

fun backfill_all ::
  "'s github_api \<Rightarrow> (Repo \<times> RawPullRequest) list \<Rightarrow> Progress list \<Rightarrow> 's \<Rightarrow> (thrown + (Repo \<times> RawPullRequest) list \<times> Progress list) \<times> 's"
where
  "backfill_all api [] ps s = (Inr ([], ps), s)"
| "backfill_all api ((repo, pr) # raw) ps s =
     (let cut = oversizedConnections pr in
      case (if cut = [] then (Inr pr, s) else backfill api repo pr cut s) of
        (Inl e, s') \<Rightarrow> (Inl e, s')
      | (Inr pr', s') \<Rightarrow>
          (case backfill_all api raw (if cut = [] then ps else ps @ [backfill_progress repo pr]) s' of
             (Inl e, s'') \<Rightarrow> (Inl e, s'')
           | (Inr (raw', ps'), s'') \<Rightarrow> (Inr ((repo, pr') # raw', ps'), s'')))"

definition canonical_pulls :: "(Repo \<times> RawPullRequest) list \<Rightarrow> string + CanonicalPr list" where
  "canonical_pulls raw = all_or_throw (\<lambda>(repo, pr). toCanonical pr (fullName repo)) raw"

definition fetchPullRequests ::
  "'s github_api \<Rightarrow> Repo list \<Rightarrow> SyncMode \<Rightarrow> (string \<times> string) list \<Rightarrow> 's \<Rightarrow>
    ((thrown + PullRequestsResult \<times> Progress list) \<times> 's) option"
where
  "fetchPullRequests api measured mode cutoff s =
     (case walk_repos api mode cutoff measured ([], None, []) s of
        None \<Rightarrow> None
      | Some (Inl e, s1) \<Rightarrow> Some (Inl e, s1)
      | Some (Inr (raw, rl, ps), s1) \<Rightarrow>
          (case backfill_all api raw ps s1 of
             (Inl e, s2) \<Rightarrow> Some (Inl e, s2)
           | (Inr (raw', ps'), s2) \<Rightarrow>
               (case canonical_pulls raw' of
                  Inl e \<Rightarrow> Some (Inl (e, ''UNKNOWN''), s2)
                | Inr prs \<Rightarrow>
                    Some (Inr (\<lparr>pq_prs = prs, pq_rateLimit = rl, pq_completed = map (\<lambda>repo. (fullName repo, True)) measured\<rparr>, ps'), s2))))"

section \<open>The history of the base branches\<close>

text \<open>What a scan has so far: the reported total, the reverts, the commits, and how many were scanned over all repositories.\<close>

type_synonym branch_scan = "int \<times> int \<times> BranchCommit list \<times> nat"

definition scan_page :: "HistoryPage \<Rightarrow> branch_scan \<Rightarrow> branch_scan" where
  "scan_page page w =
     (case w of (commits, reverts, collected, scanned) \<Rightarrow>
        (hp_totalCount page,
         reverts + int (length (filter (\<lambda>c. isRevertHeadline (hc_messageHeadline c)) (co_nodes (hp_connection page)))),
         collected @ map (\<lambda>c. \<lparr>bk_sha = hc_oid c, bk_committedAt = hc_committedDate c, bk_messageHeadline = hc_messageHeadline c\<rparr>)
           (co_nodes (hp_connection page)),
         scanned + length (co_nodes (hp_connection page))))"

definition history_limit_error :: "string \<Rightarrow> string \<Rightarrow> thrown" where
  "history_limit_error name since = github_error
     (name @ '' exceeded '' @ nat_str MAX_HISTORY_PAGES @ '' history pages since '' @ since @ ''; refusing to loop.'') UPSTREAM"

definition history_progress :: "string \<Rightarrow> nat \<Rightarrow> Progress" where
  "history_progress name n = \<lparr>pg_phase = PhHistory, pg_repo = Some name, pg_prsFetched = None, pg_backfillingPr = None,
     pg_historyScanned = Some n\<rparr>"

text \<open>\<open>None\<close> in the result is a branch that is not readable.\<close>

fun history_pages ::
  "nat \<Rightarrow> 's github_api \<Rightarrow> string \<Rightarrow> Repo \<Rightarrow> string \<Rightarrow> string option \<Rightarrow> branch_scan \<Rightarrow> Progress list \<Rightarrow> 's \<Rightarrow>
    (thrown + branch_scan option \<times> nat \<times> Progress list) \<times> 's"
where
  "history_pages 0 api branch repo since cursor w ps s = (Inl (history_limit_error (fullName repo) since), s)"
| "history_pages (Suc n) api branch repo since cursor w ps s =
     (case graphql api (\<lambda>token. ga_history api token repo branch since cursor) repo s of
        (Inl e, s') \<Rightarrow> (Inl e, s')
      | (Inr None, s') \<Rightarrow> (Inr (None, snd (snd (snd w)), ps), s')
      | (Inr (Some page), s') \<Rightarrow>
          let w' = scan_page page w; ps' = ps @ [history_progress (fullName repo) (snd (snd (snd w')))] in
          if \<not> co_hasNextPage (hp_connection page) then (Inr (Some w', snd (snd (snd w')), ps'), s')
          else history_pages n api branch repo since (Some (co_endCursor (hp_connection page))) w' ps' s')"

definition missing_since_error :: "string \<Rightarrow> thrown" where
  "missing_since_error name = github_error (''fetchBranchHistories called without a since for '' @ name) UPSTREAM"

definition branch_result :: "string \<Rightarrow> Repo \<Rightarrow> string \<Rightarrow> branch_scan option \<Rightarrow> RepoBranchHistory" where
  "branch_result branch repo since scan =
     (case scan of
        None \<Rightarrow> \<lparr>rh_repo = fullName repo, rh_branch = branch, rh_history = None, rh_commits = []\<rparr>
      | Some (commits, reverts, collected, scanned) \<Rightarrow>
          \<lparr>rh_repo = fullName repo, rh_branch = branch,
           rh_history = Some \<lparr>bh_branch = branch, bh_since = since, bh_commits = commits, bh_reverts = reverts\<rparr>,
           rh_commits = collected\<rparr>)"

fun history_repos ::
  "'s github_api \<Rightarrow> string \<Rightarrow> (string \<times> string) list \<Rightarrow> Repo list \<Rightarrow> nat \<Rightarrow> Progress list \<Rightarrow> 's \<Rightarrow>
    (thrown + RepoBranchHistory list \<times> Progress list) \<times> 's"
where
  "history_repos api branch since [] scanned ps s = (Inr ([], ps), s)"
| "history_repos api branch since (repo # repos) scanned ps s =
     (let from' = map_of since (fullName repo) in
      if \<not> truthy from' then (Inl (missing_since_error (fullName repo)), s)
      else
        (case history_pages MAX_HISTORY_PAGES api branch repo (the from') None (0, 0, [], scanned) ps s of
           (Inl e, s') \<Rightarrow> (Inl e, s')
         | (Inr (scan, n, ps'), s') \<Rightarrow>
             (case history_repos api branch since repos n ps' s' of
                (Inl e, s'') \<Rightarrow> (Inl e, s'')
              | (Inr (rs, ps''), s'') \<Rightarrow> (Inr (branch_result branch repo (the from') scan # rs, ps''), s''))))"

definition fetchBranchHistories ::
  "'s github_api \<Rightarrow> string \<Rightarrow> Repo list \<Rightarrow> (string \<times> string) list \<Rightarrow> 's \<Rightarrow> (thrown + RepoBranchHistory list \<times> Progress list) \<times> 's"
where
  "fetchBranchHistories api branch measured since s = history_repos api branch since measured 0 [] s"

end
