(* ===== verification/GithubFacts.thy ===== *)
theory GithubFacts
  imports GithubClient
begin

text \<open>
  Facts about the GitHub client. What GitHub documents of a connection is a predicate on its answers: asked from a cursor, it
  answers with the page there, says whether another follows, and names the cursor of that. Asking is with
  retries, so that an answer may fail twice. Under it each of the loops brings what the connection holds.
\<close>

section \<open>Connections\<close>

definition serves :: "(string option \<Rightarrow> 's \<Rightarrow> ('e + 'p) \<times> 's) \<Rightarrow> ('p \<Rightarrow> 'n Connection) \<Rightarrow> (nat \<Rightarrow> string option) \<Rightarrow> 'n list list \<Rightarrow> bool" where
  "serves ask conn cur pages \<longleftrightarrow> pages \<noteq> [] \<and> cur 0 = None \<and>
     (\<forall>i < length pages. \<forall>s. \<exists>p s'. ask (cur i) s = (Inr p, s') \<and> co_nodes (conn p) = pages ! i \<and>
        co_hasNextPage (conn p) = (Suc i < length pages) \<and> (Suc i < length pages \<longrightarrow> cur (Suc i) = Some (co_endCursor (conn p))))"

lemma serves_page:
  assumes "serves ask conn cur pages" "i < length pages"
  obtains p s' where "ask (cur i) s = (Inr p, s')" "co_nodes (conn p) = pages ! i" "co_hasNextPage (conn p) = (Suc i < length pages)"
    "Suc i < length pages \<longrightarrow> cur (Suc i) = Some (co_endCursor (conn p))"
  using assms unfolding serves_def by metis

lemma concat_take_Suc: "i < length pages \<Longrightarrow> concat (take (Suc i) pages) = concat (take i pages) @ pages ! i"
  by (simp add: take_Suc_conv_app_nth)

lemma collect_pages_from:
  assumes "serves ask (\<lambda>c. c) cur pages"
  shows "i < length pages \<Longrightarrow> length pages - i \<le> n \<Longrightarrow>
    \<exists>s'. collect_pages n ask refusal (cur i) (concat (take i pages)) s = (Inr (concat pages), s')"
proof (induction n arbitrary: i s)
  case (Suc n)
  obtain p s' where p: "ask (cur i) s = (Inr p, s')" "co_nodes p = pages ! i" "co_hasNextPage p = (Suc i < length pages)"
      "Suc i < length pages \<longrightarrow> cur (Suc i) = Some (co_endCursor p)"
    by (rule serves_page [OF assms Suc.prems(1), of s])
  show ?case
  proof (cases "Suc i < length pages")
    case True
    then have "\<exists>s''. collect_pages n ask refusal (cur (Suc i)) (concat (take (Suc i) pages)) s' = (Inr (concat pages), s'')"
      using Suc.prems by (intro Suc.IH) auto
    then show ?thesis using True Suc.prems(1) p by (simp add: concat_take_Suc)
  next
    case False
    then have "take (Suc i) pages = pages" by simp
    then show ?thesis using False Suc.prems(1) p concat_take_Suc [OF Suc.prems(1)] by simp
  qed
qed simp

lemma collect_pages_served:
  assumes "serves ask (\<lambda>c. c) cur pages" "length pages \<le> n"
  shows "\<exists>s'. collect_pages n ask refusal None [] s = (Inr (concat pages), s')"
proof -
  have "0 < length pages" "cur 0 = None" using assms(1) by (simp_all add: serves_def)
  with collect_pages_from [OF assms(1), of 0 n refusal s] assms(2) show ?thesis by simp
qed

section \<open>The page loop\<close>

definition pulls_ask ::
  "'s github_api \<Rightarrow> Repo \<Rightarrow> string option \<Rightarrow> string option \<Rightarrow> 's \<Rightarrow> (thrown + PrPage) \<times> 's"
where
  "pulls_ask api repo stopAt cursor =
     graphql api (\<lambda>token. ga_pulls api token repo (if truthy stopAt then UPDATED_DESC else CREATED_DESC) cursor) repo"

lemma walk_pages_step:
  "pulls_ask api repo stopAt cursor s = (Inr page, s') \<Longrightarrow>
   walk_pages api repo stopAt before cursor w s =
     (let prs = fst w @ co_nodes (pp_page page);
          w' = (prs, pp_rateLimit page, snd (snd w) @ [prs_progress (fullName repo) (before + length prs)]) in
      if below_cutoff stopAt (co_nodes (pp_page page)) \<or> \<not> co_hasNextPage (pp_page page) then Some (Inr w', s')
      else walk_pages api repo stopAt before (Some (co_endCursor (pp_page page))) w' s')"
  by (subst walk_pages.simps) (simp add: pulls_ask_def)

lemma walk_pages_from:
  assumes "serves (pulls_ask api repo stopAt) pp_page cur pages"
  shows "i < length pages \<Longrightarrow> fst w = concat (take i pages) \<Longrightarrow>
    \<exists>k rl ps s'. walk_pages api repo stopAt before (cur i) w s = Some (Inr (concat (take k pages), rl, ps), s') \<and>
      0 < k \<and> k \<le> length pages \<and> (k < length pages \<longrightarrow> below_cutoff stopAt (pages ! (k - 1)))"
proof (induction "length pages - i" arbitrary: i w s)
  case (Suc n)
  obtain p s' where p: "pulls_ask api repo stopAt (cur i) s = (Inr p, s')" "co_nodes (pp_page p) = pages ! i"
      "co_hasNextPage (pp_page p) = (Suc i < length pages)" "Suc i < length pages \<longrightarrow> cur (Suc i) = Some (co_endCursor (pp_page p))"
    by (rule serves_page [OF assms Suc.prems(1), of s])
  let ?w = "(concat (take (Suc i) pages), pp_rateLimit p,
      snd (snd w) @ [prs_progress (fullName repo) (before + length (concat (take (Suc i) pages)))])"
  have step: "walk_pages api repo stopAt before (cur i) w s =
      (if below_cutoff stopAt (pages ! i) \<or> \<not> Suc i < length pages then Some (Inr ?w, s')
       else walk_pages api repo stopAt before (Some (co_endCursor (pp_page p))) ?w s')"
    unfolding walk_pages_step [OF p(1)] Let_def p(2,3) Suc.prems(2) concat_take_Suc [OF Suc.prems(1)] by simp
  show ?case
  proof (cases "below_cutoff stopAt (pages ! i) \<or> \<not> Suc i < length pages")
    case True
    then show ?thesis
      unfolding step using Suc.prems(1) by (intro exI [of _ "Suc i"]) (auto simp: less_Suc_eq)
  next
    case False
    then have "\<exists>k rl ps s''. walk_pages api repo stopAt before (cur (Suc i)) ?w s' = Some (Inr (concat (take k pages), rl, ps), s'') \<and>
        0 < k \<and> k \<le> length pages \<and> (k < length pages \<longrightarrow> below_cutoff stopAt (pages ! (k - 1)))"
      using Suc.hyps(2) by (intro Suc.hyps(1)) auto
    then show ?thesis unfolding step using False p(4) by simp
  qed
qed simp

text \<open>A walk of a served listing ends, and what it leaves out is older than the cutoff.\<close>

definition newest_first :: "RawPullRequest list \<Rightarrow> bool" where
  "newest_first = sorted_wrt (\<lambda>a b. rp_updatedAt b \<le> rp_updatedAt a)"

definition wanted :: "string option \<Rightarrow> RawPullRequest \<Rightarrow> bool" where
  "wanted stopAt pr \<longleftrightarrow> \<not> truthy stopAt \<or> the stopAt \<le> rp_updatedAt pr"

lemma left_out_older:
  assumes "truthy stopAt \<longrightarrow> newest_first (concat pages)" "0 < k" "k \<le> length pages"
    "k < length pages \<longrightarrow> below_cutoff stopAt (pages ! (k - 1))" "pr \<in> set (concat pages)" "wanted stopAt pr"
  shows "pr \<in> set (concat (take k pages))"
proof (cases "k < length pages")
  case True
  then have b: "below_cutoff stopAt (pages ! (k - 1))" using assms(4) by simp
  then obtain q where q: "q \<in> set (pages ! (k - 1))" "rp_updatedAt q < the stopAt" by (cases "pages ! (k - 1)") (auto simp: below_cutoff_def)
  have split: "concat pages = concat (take k pages) @ concat (drop k pages)" by (simp flip: concat_append)
  have "q \<in> set (concat (take k pages))"
    using q(1) assms(2) True concat_take_Suc [of "k - 1" pages] by simp
  moreover have "newest_first (concat (take k pages) @ concat (drop k pages))"
    using assms(1) b split by (simp add: below_cutoff_def)
  ultimately have "\<forall>r \<in> set (concat (drop k pages)). rp_updatedAt r \<le> rp_updatedAt q"
    unfolding newest_first_def sorted_wrt_append by blast
  moreover have "the stopAt \<le> rp_updatedAt pr" using assms(6) b by (auto simp: wanted_def below_cutoff_def)
  ultimately have "pr \<notin> set (concat (drop k pages))" using q(2) by force
  then show ?thesis using assms(5) unfolding split by simp
next
  case False
  then show ?thesis using assms(3,5) by simp
qed

lemma walk_pages_served:
  assumes "serves (pulls_ask api repo stopAt) pp_page cur pages" "truthy stopAt \<longrightarrow> newest_first (concat pages)"
  shows "\<exists>prs rl ps s'. walk_pages api repo stopAt before None ([], rl0, []) s = Some (Inr (prs, rl, ps), s') \<and>
    set prs \<subseteq> set (concat pages) \<and> (\<forall>pr \<in> set (concat pages). wanted stopAt pr \<longrightarrow> pr \<in> set prs) \<and>
    (distinct (map rp_number (concat pages)) \<longrightarrow> distinct (map rp_number prs))"
proof -
  have c: "0 < length pages" "cur 0 = None" using assms(1) by (simp_all add: serves_def)
  obtain k rl ps s' where k: "walk_pages api repo stopAt before None ([], rl0, []) s = Some (Inr (concat (take k pages), rl, ps), s')"
      "0 < k" "k \<le> length pages" "k < length pages \<longrightarrow> below_cutoff stopAt (pages ! (k - 1))"
    using walk_pages_from [OF assms(1) c(1), of "([], rl0, [])" before s] c(2) by auto
  have split: "concat pages = concat (take k pages) @ concat (drop k pages)" by (simp flip: concat_append)
  have "set (concat (take k pages)) \<subseteq> set (concat pages)" unfolding split by simp
  moreover have "distinct (map rp_number (concat pages)) \<longrightarrow> distinct (map rp_number (concat (take k pages)))"
    unfolding split map_append distinct_append by blast
  ultimately show ?thesis using k(1) left_out_older [OF assms(2) k(2-4)] by blast
qed

section \<open>All of GitHub\<close>

definition stop_at :: "SyncMode \<Rightarrow> (string \<times> string) list \<Rightarrow> Repo \<Rightarrow> string option" where
  "stop_at mode cutoff repo = (if mode = SyncIncremental then map_of cutoff (fullName repo) else None)"

definition inner_ask ::
  "'s github_api \<Rightarrow> (string \<Rightarrow> Repo \<Rightarrow> int \<Rightarrow> string option \<Rightarrow> 's \<Rightarrow> 'n Connection gql_answer \<times> 's) \<Rightarrow> Repo \<Rightarrow> int \<Rightarrow> string option \<Rightarrow> 's \<Rightarrow>
    (thrown + 'n Connection) \<times> 's"
where
  "inner_ask api query repo number cursor = graphql api (\<lambda>token. query token repo number cursor) repo"

text \<open>A reading of GitHub: the pages of each repository's pull requests, and those of a pull request's threads and reviews.\<close>

record listing =
  ls_pulls :: "Repo \<Rightarrow> RawPullRequest list list"
  ls_threads :: "Repo \<Rightarrow> int \<Rightarrow> raw_thread list list"
  ls_reviews :: "Repo \<Rightarrow> int \<Rightarrow> raw_review list list"

definition serves_pull :: "'s github_api \<Rightarrow> listing \<Rightarrow> Repo \<Rightarrow> RawPullRequest \<Rightarrow> bool" where
  "serves_pull api L repo pr \<longleftrightarrow>
     (\<exists>cur. serves (inner_ask api (ga_threads api) repo (rp_number pr)) (\<lambda>c. c) cur (ls_threads L repo (rp_number pr))) \<and>
     length (ls_threads L repo (rp_number pr)) \<le> MAX_INNER_PAGES \<and>
     (\<exists>cur. serves (inner_ask api (ga_reviews api) repo (rp_number pr)) (\<lambda>c. c) cur (ls_reviews L repo (rp_number pr))) \<and>
     length (ls_reviews L repo (rp_number pr)) \<le> MAX_INNER_PAGES \<and>
     (\<forall>r \<in> set (rp_reviews pr) \<union> set (concat (ls_reviews L repo (rp_number pr))). rr_state r \<in> fst ` set REVIEW_STATES)"

definition github_serves :: "'s github_api \<Rightarrow> SyncMode \<Rightarrow> (string \<times> string) list \<Rightarrow> Repo list \<Rightarrow> listing \<Rightarrow> bool" where
  "github_serves api mode cutoff repos L \<longleftrightarrow>
     (\<forall>repo \<in> set repos.
        (\<exists>cur. serves (pulls_ask api repo (stop_at mode cutoff repo)) pp_page cur (ls_pulls L repo)) \<and>
        (truthy (stop_at mode cutoff repo) \<longrightarrow> newest_first (concat (ls_pulls L repo))) \<and>
        distinct (map rp_number (concat (ls_pulls L repo))) \<and>
        (\<forall>pr \<in> set (concat (ls_pulls L repo)). serves_pull api L repo pr))"

text \<open>A pull request with the lists a first page cut off.\<close>

definition refilled :: "listing \<Rightarrow> Repo \<Rightarrow> RawPullRequest \<Rightarrow> RawPullRequest" where
  "refilled L repo pr = pr
     \<lparr>rp_threads := (if INNER_LIMIT < rp_threadCount pr then concat (ls_threads L repo (rp_number pr)) else rp_threads pr),
      rp_reviews := (if INNER_LIMIT < rp_reviewCount pr then concat (ls_reviews L repo (rp_number pr)) else rp_reviews pr)\<rparr>"

lemma oversized_iff:
  "CReviewThreads \<in> set (oversizedConnections pr) \<longleftrightarrow> INNER_LIMIT < rp_threadCount pr"
  "CReviews \<in> set (oversizedConnections pr) \<longleftrightarrow> INNER_LIMIT < rp_reviewCount pr"
  by (auto simp: oversizedConnections_def)

lemma inner_ask_eq: "inner_ask api query repo number = (\<lambda>cursor. graphql api (\<lambda>token. query token repo number cursor) repo)"
  by (simp add: fun_eq_iff inner_ask_def)

lemma collectNodes_served:
  assumes "serves (inner_ask api query repo number) (\<lambda>c. c) cur pages" "length pages \<le> MAX_INNER_PAGES"
  obtains s' where "collectNodes api query repo number s = (Inr (concat pages), s')"
  using collect_pages_served [OF assms, of "inner_limit_error repo number" s] that
  unfolding collectNodes_def inner_ask_eq [symmetric] by blast

lemma backfill_served:
  assumes "serves_pull api L repo pr"
  shows "\<exists>s'. (if oversizedConnections pr = [] then (Inr pr, s) else backfill api repo pr (oversizedConnections pr) s) =
    (Inr (refilled L repo pr), s')"
proof (cases "oversizedConnections pr = []")
  case True
  then have "\<not> INNER_LIMIT < rp_threadCount pr" "\<not> INNER_LIMIT < rp_reviewCount pr"
    by (simp_all flip: oversized_iff)
  then show ?thesis using True by (simp add: refilled_def)
next
  case False
  obtain cur cur' where c: "serves (inner_ask api (ga_threads api) repo (rp_number pr)) (\<lambda>c. c) cur (ls_threads L repo (rp_number pr))"
      "serves (inner_ask api (ga_reviews api) repo (rp_number pr)) (\<lambda>c. c) cur' (ls_reviews L repo (rp_number pr))"
      "length (ls_threads L repo (rp_number pr)) \<le> MAX_INNER_PAGES" "length (ls_reviews L repo (rp_number pr)) \<le> MAX_INNER_PAGES"
    using assms by (auto simp: serves_pull_def)
  obtain s1 where t: "collectNodes api (ga_threads api) repo (rp_number pr) s = (Inr (concat (ls_threads L repo (rp_number pr))), s1)"
    by (rule collectNodes_served [OF c(1,3)])
  obtain s2 where r1: "collectNodes api (ga_reviews api) repo (rp_number pr) s1 = (Inr (concat (ls_reviews L repo (rp_number pr))), s2)"
    by (rule collectNodes_served [OF c(2,4)])
  obtain s3 where r2: "collectNodes api (ga_reviews api) repo (rp_number pr) s = (Inr (concat (ls_reviews L repo (rp_number pr))), s3)"
    by (rule collectNodes_served [OF c(2,4)])
  show ?thesis using False by (simp add: backfill_def oversized_iff t r1 r2 refilled_def)
qed

lemma backfill_all_served:
  "\<forall>(repo, pr) \<in> set raw. serves_pull api L repo pr \<Longrightarrow>
   \<exists>ps' s'. backfill_all api raw ps s = (Inr (map (\<lambda>(repo, pr). (repo, refilled L repo pr)) raw, ps'), s')"
proof (induction api raw ps s rule: backfill_all.induct)
  case (2 api repo pr raw ps s)
  obtain s' where b: "(if oversizedConnections pr = [] then (Inr pr, s) else backfill api repo pr (oversizedConnections pr) s) =
      (Inr (refilled L repo pr), s')"
    using backfill_served [of api L repo pr s] 2(2) by auto
  have "\<exists>ps' s''. backfill_all api raw (if oversizedConnections pr = [] then ps else ps @ [backfill_progress repo pr]) s' =
      (Inr (map (\<lambda>(repo, pr). (repo, refilled L repo pr)) raw, ps'), s'')"
    by (rule 2(1) [OF refl b [symmetric] refl]) (use 2(2) in auto)
  then show ?case unfolding backfill_all.simps Let_def b by auto
qed simp

lemma walk_repos_served:
  "github_serves api mode cutoff repos L \<Longrightarrow>
   \<exists>raw rl ps s'. walk_repos api mode cutoff repos w s = Some (Inr (fst w @ raw, rl, ps), s') \<and>
     (\<forall>(repo, pr) \<in> set raw. repo \<in> set repos \<and> pr \<in> set (concat (ls_pulls L repo))) \<and>
     (\<forall>repo \<in> set repos. \<forall>pr \<in> set (concat (ls_pulls L repo)). wanted (stop_at mode cutoff repo) pr \<longrightarrow> (repo, pr) \<in> set raw)"
proof (induction api mode cutoff repos w s rule: walk_repos.induct)
  case (1 api mode cutoff w s)
  show ?case by (rule exI [of _ "[]"]) (cases w; simp)
next
  case (2 api mode cutoff repo repos w s)
  let ?stop = "stop_at mode cutoff repo"
  obtain cur where c: "serves (pulls_ask api repo ?stop) pp_page cur (ls_pulls L repo)"
      "truthy ?stop \<longrightarrow> newest_first (concat (ls_pulls L repo))"
    using 2(2) by (auto simp: github_serves_def)
  obtain prs rl ps s' where p: "walk_pages api repo ?stop (length (fst w)) None ([], fst (snd w), []) s = Some (Inr (prs, rl, ps), s')"
      "set prs \<subseteq> set (concat (ls_pulls L repo))" "\<forall>pr \<in> set (concat (ls_pulls L repo)). wanted ?stop pr \<longrightarrow> pr \<in> set prs"
    using walk_pages_served [OF c] by blast
  let ?w = "(fst w @ map (Pair repo) prs, rl, snd (snd w) @ ps)"
  have "github_serves api mode cutoff repos L" using 2(2) by (simp add: github_serves_def)
  from 2(1) [OF p(1) [unfolded stop_at_def] refl refl refl refl this]
  obtain raw rl' ps' s'' where r: "walk_repos api mode cutoff repos ?w s' = Some (Inr (fst ?w @ raw, rl', ps'), s'')"
      "\<forall>(repo, pr) \<in> set raw. repo \<in> set repos \<and> pr \<in> set (concat (ls_pulls L repo))"
      "\<forall>repo \<in> set repos. \<forall>pr \<in> set (concat (ls_pulls L repo)). wanted (stop_at mode cutoff repo) pr \<longrightarrow> (repo, pr) \<in> set raw"
    by blast
  have "walk_repos api mode cutoff (repo # repos) w s = Some (Inr (fst w @ (map (Pair repo) prs @ raw), rl', ps'), s'')"
    using r(1) p(1) by (simp add: stop_at_def)
  moreover have "\<forall>(q, pr) \<in> set (map (Pair repo) prs @ raw). q \<in> set (repo # repos) \<and> pr \<in> set (concat (ls_pulls L q))"
    using r(2) p(2) by auto
  moreover have "\<forall>q \<in> set (repo # repos). \<forall>pr \<in> set (concat (ls_pulls L q)).
      wanted (stop_at mode cutoff q) pr \<longrightarrow> (q, pr) \<in> set (map (Pair repo) prs @ raw)"
    using r(3) p(3) by auto
  ultimately show ?case by blast
qed


end
