(* ===== verification/PrStore.thy ===== *)
theory PrStore
  imports Forge JobStore Tables
begin

text \<open>
  The stored pull requests, the base branches' commits and the state of the syncs, \<open>server/src/db/pr-store.ts\<close>.
  A statement is one atomic step; the writes of one pull request and its children are one transaction, which
  leaves the tables as they were when any of them is refused. Reads are of tables that answer; the caller says
  when they do not. Names of repositories and branches are texts a column can hold. Instants are microseconds; a text that is no
  date is refused by the driver. \<open>coll\<close> is the collation of the database. The organization's own row is
  there, as \<open>migrate\<close> leaves it.
\<close>

section \<open>Tables\<close>

record pull_row =
  pu_org :: string
  pu_provider :: ProviderId
  pu_repo :: string
  pu_number :: int
  pu_title :: string
  pu_state :: CanonicalPrState
  pu_is_draft :: bool
  pu_base_ref :: string
  pu_head_ref :: string
  pu_author :: "string option"
  pu_created_at :: int
  pu_merged_at :: "int option"
  pu_closed_at :: "int option"
  pu_ready_at :: "int option"
  pu_additions :: int
  pu_deletions :: int
  pu_changed_files :: int
  pu_commit_count :: int
  pu_review_count :: int
  pu_thread_count :: int
  pu_issue_comment_count :: int
  pu_force_push_count :: "int option"
  pu_truncated :: "PrConnection list"
  pu_updated_at :: int
  pu_fetched_at :: int

text \<open>A child row belongs to the pull request of its key: organization, provider, repository, number.\<close>

type_synonym pr_key = "string \<times> ProviderId \<times> string \<times> int"

record review_row =
  rv_pr :: pr_key
  rv_review_key :: string
  rv_author :: "string option"
  rv_state :: CanonicalReviewState
  rv_provider_state :: string
  rv_submitted_at :: "int option"

record thread_row =
  tw_pr :: pr_key
  tw_thread_key :: string
  tw_is_resolved :: bool
  tw_is_outdated :: bool
  tw_first_comment_author :: "string option"
  tw_first_comment_at :: "int option"
  tw_parent_review_key :: "string option"

record commit_row =
  cw_pr :: pr_key
  cw_sha :: string
  cw_committed_at :: int

record label_row =
  lw_pr :: pr_key
  lw_label :: string

text \<open>A base branch: organization, provider, repository, branch.\<close>

type_synonym branch_key = "string \<times> ProviderId \<times> string \<times> string"

record branch_commit_row =
  bc_branch :: branch_key
  bc_sha :: string
  bc_committed_at :: int
  bc_message_headline :: string

record branch_history_row =
  bw_branch :: branch_key
  bw_covered_from :: int
  bw_commits :: int
  bw_reverts :: int
  bw_scanned_at :: int

record sync_row =
  sy_key :: "string \<times> ProviderId \<times> string \<times> string"
  sy_watermark_at :: "int option"
  sy_last_sync_at :: "int option"
  sy_last_full_at :: "int option"
  sy_synced_epoch :: int
  sy_last_rate_limit :: "RateLimit option"

record pr_db =
  pd_pulls :: "pull_row list"
  pd_reviews :: "review_row list"
  pd_threads :: "thread_row list"
  pd_commits :: "commit_row list"
  pd_labels :: "label_row list"
  pd_branch_commits :: "branch_commit_row list"
  pd_branch_history :: "branch_history_row list"
  pd_sync :: "sync_row list"

record SyncState =
  sy_watermarkAt :: "string option"
  sy_lastSyncAt :: "string option"
  sy_lastFullAt :: "string option"
  sy_syncedEpoch :: int
  sy_lastRateLimit :: "RateLimit option"

record BranchCoverage =
  bv_repo :: string
  bv_branch :: string
  bv_from :: string
  bv_commits :: int
  bv_reverts :: int
  bv_scannedAt :: string

record StoredBranchCommit =
  sb_repo :: string
  sb_branch :: string
  sb_sha :: string
  sb_committedAt :: string
  sb_messageHeadline :: string

definition SCHEMA_EPOCH :: int where "SCHEMA_EPOCH = 1"

section \<open>From a pull request to its rows\<close>

abbreviation date_error :: string where "date_error \<equiv> ''Invalid time value''"

definition date_us :: "string \<Rightarrow> int option" where
  "date_us s = map_option (\<lambda>ms. ms * 1000) (parse_date s)"

definition opt_date :: "string option \<Rightarrow> int option option" where
  "opt_date s = (case s of None \<Rightarrow> Some None | Some d \<Rightarrow> map_option Some (date_us d))"

definition login_opt :: "CanonicalActor option \<Rightarrow> string option" where
  "login_opt a = map_option login_of a"

definition key_of_pr :: "string \<Rightarrow> CanonicalPr \<Rightarrow> pr_key" where
  "key_of_pr org pr = (org, cp_provider pr, cp_repo pr, cp_number pr)"

definition pull_key :: "pull_row \<Rightarrow> pr_key" where
  "pull_key r = (pu_org r, pu_provider r, pu_repo r, pu_number r)"

text \<open>Values the columns of one pull request refuse.\<close>

definition pull_refusal :: "CanonicalPr \<Rightarrow> string option" where
  "pull_refusal pr =
     (if \<not> list_all pg_text [cp_repo pr, cp_title pr, cp_baseRef pr, cp_headRef pr] \<or> \<not> opt_ok pg_text (login_opt (cp_author pr))
      then Some text_error
      else if \<not> list_all pg_int4 [cp_number pr, cp_additions pr, cp_deletions pr, cp_changedFiles pr, cp_commitCount pr,
          cp_reviewCount pr, cp_threadCount pr, cp_issueCommentCount pr] \<or> \<not> opt_ok pg_int4 (cp_forcePushCount pr)
      then Some int4_error else None)"

definition pull_row_of :: "string \<Rightarrow> int \<Rightarrow> CanonicalPr \<Rightarrow> string + pull_row" where
  "pull_row_of org now pr =
     (case (date_us (cp_createdAt pr), opt_date (cp_mergedAt pr), opt_date (cp_closedAt pr), opt_date (cp_readyAt pr),
            date_us (cp_updatedAt pr)) of
        (Some created, Some merged, Some closedAt, Some ready, Some updated) \<Rightarrow>
          (case pull_refusal pr of
             Some e \<Rightarrow> Inl e
           | None \<Rightarrow> Inr
              \<lparr>pu_org = org, pu_provider = cp_provider pr, pu_repo = cp_repo pr, pu_number = cp_number pr, pu_title = cp_title pr,
               pu_state = cp_state pr, pu_is_draft = cp_isDraft pr, pu_base_ref = cp_baseRef pr, pu_head_ref = cp_headRef pr,
               pu_author = login_opt (cp_author pr), pu_created_at = created, pu_merged_at = merged, pu_closed_at = closedAt,
               pu_ready_at = ready, pu_additions = cp_additions pr, pu_deletions = cp_deletions pr,
               pu_changed_files = cp_changedFiles pr, pu_commit_count = cp_commitCount pr, pu_review_count = cp_reviewCount pr,
               pu_thread_count = cp_threadCount pr, pu_issue_comment_count = cp_issueCommentCount pr,
               pu_force_push_count = cp_forcePushCount pr, pu_truncated = cp_truncated pr, pu_updated_at = updated,
               pu_fetched_at = now\<rparr>)
      | _ \<Rightarrow> Inl date_error)"

text \<open>The first day a pull request was stored keeps its \<open>created_at\<close>; everything else is the new row's.\<close>

definition pull_conflict :: "pull_row \<Rightarrow> pull_row \<Rightarrow> pull_row" where
  "pull_conflict old new = new\<lparr>pu_created_at := pu_created_at old\<rparr>"

definition review_row_of :: "pr_key \<Rightarrow> CanonicalReview \<Rightarrow> string + review_row" where
  "review_row_of k r =
     (case opt_date (cr_submittedAt r) of
        None \<Rightarrow> Inl date_error
      | Some at' \<Rightarrow>
          if \<not> pg_text (cr_reviewKey r) \<or> \<not> pg_text (cr_providerState r) \<or> \<not> opt_ok pg_text (login_opt (cr_author r))
          then Inl text_error
          else Inr \<lparr>rv_pr = k, rv_review_key = cr_reviewKey r, rv_author = login_opt (cr_author r), rv_state = cr_state r,
                 rv_provider_state = cr_providerState r, rv_submitted_at = at'\<rparr>)"

definition thread_row_of :: "pr_key \<Rightarrow> CanonicalReviewThread \<Rightarrow> string + thread_row" where
  "thread_row_of k th =
     (case opt_date (ct_firstCommentAt th) of
        None \<Rightarrow> Inl date_error
      | Some at' \<Rightarrow>
          if \<not> pg_text (ct_threadKey th) \<or> \<not> opt_ok pg_text (login_opt (ct_firstCommentAuthor th)) \<or>
             \<not> opt_ok pg_text (ct_parentReviewKey th)
          then Inl text_error
          else Inr \<lparr>tw_pr = k, tw_thread_key = ct_threadKey th, tw_is_resolved = ct_isResolved th,
                 tw_is_outdated = ct_isOutdated th, tw_first_comment_author = login_opt (ct_firstCommentAuthor th),
                 tw_first_comment_at = at', tw_parent_review_key = ct_parentReviewKey th\<rparr>)"

definition commit_row_of :: "pr_key \<Rightarrow> CanonicalCommit \<Rightarrow> string + commit_row" where
  "commit_row_of k c =
     (case date_us (cc_committedAt c) of
        None \<Rightarrow> Inl date_error
      | Some at' \<Rightarrow>
          if \<not> pg_text (cc_sha c) then Inl text_error
          else Inr \<lparr>cw_pr = k, cw_sha = cc_sha c, cw_committed_at = at'\<rparr>)"

definition label_row_of :: "pr_key \<Rightarrow> string \<Rightarrow> string + label_row" where
  "label_row_of k l = (if \<not> pg_text l then Inl text_error else Inr \<lparr>lw_pr = k, lw_label = l\<rparr>)"

section \<open>Writing a pull request\<close>

definition complete_list :: "CanonicalPr \<Rightarrow> PrConnection \<Rightarrow> bool" where
  "complete_list pr c \<longleftrightarrow> c \<notin> set (cp_truncated pr)"

definition write_reviews :: "pr_key \<Rightarrow> CanonicalPr \<Rightarrow> review_row list \<Rightarrow> string + review_row list" where
  "write_reviews k pr t =
     (let t1 = (if complete_list pr CReviews then sql_delete (\<lambda>r. rv_pr r = k) t else t) in
      case all_or_throw (review_row_of k) (cp_reviews pr) of
        Inl e \<Rightarrow> Inl e
      | Inr rs \<Rightarrow> upsert_rows (\<lambda>r. (rv_pr r, rv_review_key r)) (\<lambda>old new. new) rs t1)"

definition write_threads :: "pr_key \<Rightarrow> CanonicalPr \<Rightarrow> thread_row list \<Rightarrow> string + thread_row list" where
  "write_threads k pr t =
     (let t1 = (if complete_list pr CReviewThreads then sql_delete (\<lambda>r. tw_pr r = k) t else t) in
      case all_or_throw (thread_row_of k) (cp_threads pr) of
        Inl e \<Rightarrow> Inl e
      | Inr rs \<Rightarrow> upsert_rows (\<lambda>r. (tw_pr r, tw_thread_key r)) (\<lambda>old new. new) rs t1)"

definition write_commits :: "pr_key \<Rightarrow> CanonicalPr \<Rightarrow> commit_row list \<Rightarrow> string + commit_row list" where
  "write_commits k pr t =
     (let t1 = (if complete_list pr CCommits then sql_delete (\<lambda>r. cw_pr r = k) t else t) in
      case all_or_throw (commit_row_of k) (cp_commits pr) of
        Inl e \<Rightarrow> Inl e
      | Inr rs \<Rightarrow> Inr (fold (insert_new (\<lambda>r. (cw_pr r, cw_sha r))) rs t1))"

definition write_labels :: "pr_key \<Rightarrow> CanonicalPr \<Rightarrow> label_row list \<Rightarrow> string + label_row list" where
  "write_labels k pr t =
     (case all_or_throw (label_row_of k) (cp_labels pr) of
        Inl e \<Rightarrow> Inl e
      | Inr rs \<Rightarrow> Inr (fold (insert_new (\<lambda>r. (lw_pr r, lw_label r))) rs (sql_delete (\<lambda>r. lw_pr r = k) t)))"

definition writeChildren :: "string \<Rightarrow> CanonicalPr \<Rightarrow> pr_db \<Rightarrow> string + pr_db" where
  "writeChildren org pr db =
     (let k = key_of_pr org pr in
      case write_reviews k pr (pd_reviews db) of
        Inl e \<Rightarrow> Inl e
      | Inr reviews \<Rightarrow>
          (case write_threads k pr (pd_threads db) of
             Inl e \<Rightarrow> Inl e
           | Inr threads \<Rightarrow>
               (case write_commits k pr (pd_commits db) of
                  Inl e \<Rightarrow> Inl e
                | Inr commits \<Rightarrow>
                    (case write_labels k pr (pd_labels db) of
                       Inl e \<Rightarrow> Inl e
                     | Inr labels \<Rightarrow>
                         Inr (db\<lparr>pd_reviews := reviews, pd_threads := threads, pd_commits := commits, pd_labels := labels\<rparr>)))))"

definition save_pull :: "string \<Rightarrow> int \<Rightarrow> CanonicalPr \<Rightarrow> pr_db \<Rightarrow> string + pr_db" where
  "save_pull org now pr db =
     (case pull_row_of org now pr of
        Inl e \<Rightarrow> Inl e
      | Inr row \<Rightarrow> writeChildren org pr (db\<lparr>pd_pulls := upsert_row pull_key pull_conflict row (pd_pulls db)\<rparr>))"

text \<open>One transaction for each.\<close>

definition savePullRequests :: "string \<Rightarrow> int \<Rightarrow> CanonicalPr list \<Rightarrow> pr_db statement list" where
  "savePullRequests org now prs = map (save_pull org now) prs"

section \<open>Reading\<close>

definition scoped :: "string \<Rightarrow> ProviderId \<Rightarrow> string list \<Rightarrow> pull_row \<Rightarrow> bool" where
  "scoped org provider repos r \<longleftrightarrow> pu_org r = org \<and> pu_provider r = provider \<and> pu_repo r \<in> set repos"

definition actor_opt :: "string option \<Rightarrow> CanonicalActor option" where
  "actor_opt l = map_option (\<lambda>s. \<lparr>login_of = s\<rparr>) l"

definition read_review :: "review_row \<Rightarrow> CanonicalReview" where
  "read_review r =
     \<lparr>cr_reviewKey = rv_review_key r, cr_author = actor_opt (rv_author r), cr_state = rv_state r,
      cr_providerState = rv_provider_state r, cr_submittedAt = map_option iso_us (rv_submitted_at r)\<rparr>"

definition read_thread :: "thread_row \<Rightarrow> CanonicalReviewThread" where
  "read_thread r =
     \<lparr>ct_threadKey = tw_thread_key r, ct_isResolved = tw_is_resolved r, ct_isOutdated = tw_is_outdated r,
      ct_firstCommentAuthor = actor_opt (tw_first_comment_author r), ct_firstCommentAt = map_option iso_us (tw_first_comment_at r),
      ct_parentReviewKey = tw_parent_review_key r\<rparr>"

definition read_commit :: "commit_row \<Rightarrow> CanonicalCommit" where
  "read_commit r = \<lparr>cc_sha = cw_sha r, cc_committedAt = iso_us (cw_committed_at r)\<rparr>"

definition read_pull :: "(string \<Rightarrow> 'k :: linorder) \<Rightarrow> pr_db \<Rightarrow> pull_row \<Rightarrow> CanonicalPr" where
  "read_pull coll db r =
     (let k = pull_key r in
      \<lparr>cp_provider = pu_provider r, cp_repo = pu_repo r, cp_number = pu_number r, cp_title = pu_title r, cp_state = pu_state r,
       cp_isDraft = pu_is_draft r, cp_baseRef = pu_base_ref r, cp_headRef = pu_head_ref r, cp_createdAt = iso_us (pu_created_at r),
       cp_mergedAt = map_option iso_us (pu_merged_at r), cp_closedAt = map_option iso_us (pu_closed_at r),
       cp_updatedAt = iso_us (pu_updated_at r), cp_additions = pu_additions r, cp_deletions = pu_deletions r,
       cp_changedFiles = pu_changed_files r, cp_author = actor_opt (pu_author r), cp_commitCount = pu_commit_count r,
       cp_reviewCount = pu_review_count r, cp_threadCount = pu_thread_count r, cp_issueCommentCount = pu_issue_comment_count r,
       cp_forcePushCount = pu_force_push_count r, cp_readyAt = map_option iso_us (pu_ready_at r),
       cp_commits = map read_commit (sort_key cw_committed_at (filter (\<lambda>c. cw_pr c = k) (pd_commits db))),
       cp_reviews = map read_review (filter (\<lambda>c. rv_pr c = k) (pd_reviews db)),
       cp_threads = map read_thread (filter (\<lambda>c. tw_pr c = k) (pd_threads db)),
       cp_labels = map lw_label (sort_key (\<lambda>l. coll (lw_label l)) (filter (\<lambda>l. lw_pr l = k) (pd_labels db))),
       cp_truncated = pu_truncated r\<rparr>)"

definition loadPullRequests ::
  "(string \<Rightarrow> 'k :: linorder) \<Rightarrow> string \<Rightarrow> ProviderId \<Rightarrow> string list \<Rightarrow> pr_db \<Rightarrow> CanonicalPr list"
where
  "loadPullRequests coll org provider repos db =
     map (read_pull coll db)
       (sort_key (\<lambda>r. (- pu_created_at r, coll (pu_repo r), - pu_number r)) (filter (scoped org provider repos) (pd_pulls db)))"

definition storedRepos :: "(string \<Rightarrow> 'k :: linorder) \<Rightarrow> string \<Rightarrow> ProviderId \<Rightarrow> pr_db \<Rightarrow> string list" where
  "storedRepos coll org provider db =
     sort_key coll (remdups (map pu_repo (filter (\<lambda>r. pu_org r = org \<and> pu_provider r = provider) (pd_pulls db))))"

text \<open>\<open>select repo, min(provider_updated_at) \<dots> group by repo\<close>.\<close>

definition oldestOpenUpdatedAt :: "string \<Rightarrow> ProviderId \<Rightarrow> string list \<Rightarrow> pr_db \<Rightarrow> (string \<times> string) list" where
  "oldestOpenUpdatedAt org provider repos db =
     (let open_rows = filter (\<lambda>r. scoped org provider repos r \<and> pu_state r = PrOpen) (pd_pulls db) in
      map (\<lambda>repo. (repo, iso_us (Min (set (map pu_updated_at (filter (\<lambda>r. pu_repo r = repo) open_rows))))))
        (remdups (map pu_repo open_rows)))"

section \<open>Base branches\<close>

definition branch_of :: "string \<Rightarrow> ProviderId \<Rightarrow> string list \<Rightarrow> string \<Rightarrow> branch_key \<Rightarrow> bool" where
  "branch_of org provider repos branch k \<longleftrightarrow> (case k of (o', p, r, b) \<Rightarrow> o' = org \<and> p = provider \<and> r \<in> set repos \<and> b = branch)"

definition loadBranchCommits ::
  "string \<Rightarrow> ProviderId \<Rightarrow> string list \<Rightarrow> string \<Rightarrow> pr_db \<Rightarrow> StoredBranchCommit list"
where
  "loadBranchCommits org provider repos branch db =
     map (\<lambda>r. \<lparr>sb_repo = fst (snd (snd (bc_branch r))), sb_branch = snd (snd (snd (bc_branch r))), sb_sha = bc_sha r,
         sb_committedAt = iso_us (bc_committed_at r), sb_messageHeadline = bc_message_headline r\<rparr>)
       (sort_key bc_committed_at (filter (\<lambda>r. branch_of org provider repos branch (bc_branch r)) (pd_branch_commits db)))"

definition branch_commit_row_of :: "branch_key \<Rightarrow> BranchCommit \<Rightarrow> string + branch_commit_row" where
  "branch_commit_row_of k c =
     (case date_us (bk_committedAt c) of
        None \<Rightarrow> Inl date_error
      | Some at' \<Rightarrow>
          if \<not> pg_text (bk_sha c) \<or> \<not> pg_text (bk_messageHeadline c) then Inl text_error
          else Inr \<lparr>bc_branch = k, bc_sha = bk_sha c, bc_committed_at = at', bc_message_headline = bk_messageHeadline c\<rparr>)"

text \<open>Two statements: the commits that are new, then the totals, whose lower bound only ever goes back.\<close>

definition add_branch_commits :: "branch_key \<Rightarrow> BranchCommit list \<Rightarrow> pr_db statement" where
  "add_branch_commits k newCommits db =
     (case all_or_throw (branch_commit_row_of k) newCommits of
        Inl e \<Rightarrow> Inl e
      | Inr rs \<Rightarrow> Inr (db\<lparr>pd_branch_commits := fold (insert_new (\<lambda>r. (bc_branch r, bc_sha r))) rs (pd_branch_commits db)\<rparr>))"

definition history_conflict :: "branch_history_row \<Rightarrow> branch_history_row \<Rightarrow> branch_history_row" where
  "history_conflict old new = new\<lparr>bw_covered_from := min (bw_covered_from old) (bw_covered_from new)\<rparr>"

definition set_branch_history :: "branch_key \<Rightarrow> int \<Rightarrow> string \<Rightarrow> int \<Rightarrow> int \<Rightarrow> pr_db statement" where
  "set_branch_history k now coveredFrom commits reverts db =
     (case date_us coveredFrom of
        None \<Rightarrow> Inl date_error
      | Some from' \<Rightarrow>
          if \<not> pg_int4 commits \<or> \<not> pg_int4 reverts then Inl int4_error
          else Inr (db\<lparr>pd_branch_history := upsert_row bw_branch history_conflict
            \<lparr>bw_branch = k, bw_covered_from = from', bw_commits = commits, bw_reverts = reverts, bw_scanned_at = now\<rparr>
            (pd_branch_history db)\<rparr>))"

definition saveBranchHistory ::
  "string \<Rightarrow> int \<Rightarrow> ProviderId \<Rightarrow> string \<Rightarrow> string \<Rightarrow> string \<Rightarrow> int \<Rightarrow> int \<Rightarrow> BranchCommit list \<Rightarrow> pr_db statement list"
where
  "saveBranchHistory org now provider repo branch coveredFrom commits reverts newCommits =
     (let k = (org, provider, repo, branch) in
      (if newCommits \<noteq> [] then [add_branch_commits k newCommits] else []) @
      [set_branch_history k now coveredFrom commits reverts])"

definition loadBranchCoverage ::
  "string \<Rightarrow> ProviderId \<Rightarrow> string list \<Rightarrow> string \<Rightarrow> pr_db \<Rightarrow> BranchCoverage list"
where
  "loadBranchCoverage org provider repos branch db =
     map (\<lambda>r. \<lparr>bv_repo = fst (snd (snd (bw_branch r))), bv_branch = snd (snd (snd (bw_branch r))),
         bv_from = iso_us (bw_covered_from r), bv_commits = bw_commits r, bv_reverts = bw_reverts r,
         bv_scannedAt = iso_us (bw_scanned_at r)\<rparr>)
       (filter (\<lambda>r. branch_of org provider repos branch (bw_branch r)) (pd_branch_history db))"

section \<open>The state of the syncs\<close>

definition read_sync :: "sync_row \<Rightarrow> SyncState" where
  "read_sync r =
     \<lparr>sy_watermarkAt = map_option iso_us (sy_watermark_at r), sy_lastSyncAt = map_option iso_us (sy_last_sync_at r),
      sy_lastFullAt = map_option iso_us (sy_last_full_at r), sy_syncedEpoch = sy_synced_epoch r,
      sy_lastRateLimit = sy_last_rate_limit r\<rparr>"

definition readSyncState :: "string \<Rightarrow> ProviderId \<Rightarrow> string list \<Rightarrow> string \<Rightarrow> pr_db \<Rightarrow> (string \<times> SyncState) list" where
  "readSyncState org provider repos kind db =
     map (\<lambda>r. (fst (snd (snd (sy_key r))), read_sync r))
       (filter (\<lambda>r. branch_of org provider repos kind (sy_key r)) (pd_sync db))"

text \<open>\<open>greatest\<close> and \<open>coalesce\<close>, for which null is no value.\<close>

fun greatest_opt :: "int option \<Rightarrow> int option \<Rightarrow> int option" where
  "greatest_opt None b = b"
| "greatest_opt a None = a"
| "greatest_opt (Some a) (Some b) = Some (max a b)"

definition coalesce :: "'a option \<Rightarrow> 'a option \<Rightarrow> 'a option" where
  "coalesce a b = (case a of None \<Rightarrow> b | Some v \<Rightarrow> Some v)"

definition sync_conflict :: "sync_row \<Rightarrow> sync_row \<Rightarrow> sync_row" where
  "sync_conflict old new =
     new\<lparr>sy_watermark_at := greatest_opt (sy_watermark_at old) (sy_watermark_at new),
         sy_last_full_at := coalesce (sy_last_full_at new) (sy_last_full_at old),
         sy_synced_epoch := max (sy_synced_epoch old) (sy_synced_epoch new),
         sy_last_rate_limit := coalesce (sy_last_rate_limit new) (sy_last_rate_limit old)\<rparr>"

definition recordSync ::
  "string \<Rightarrow> int \<Rightarrow> ProviderId \<Rightarrow> string \<Rightarrow> string \<Rightarrow> string option \<Rightarrow> SyncMode \<Rightarrow> RateLimit option \<Rightarrow> int \<Rightarrow> pr_db statement"
where
  "recordSync org now provider repo kind watermarkAt mode rateLimit syncedEpoch db =
     (case opt_date watermarkAt of
        None \<Rightarrow> Inl date_error
      | Some watermark \<Rightarrow>
          Inr (db\<lparr>pd_sync := upsert_row sy_key sync_conflict
             \<lparr>sy_key = (org, provider, repo, kind), sy_watermark_at = watermark, sy_last_sync_at = Some now,
              sy_last_full_at = (if mode = SyncFull then Some now else None), sy_synced_epoch = syncedEpoch,
              sy_last_rate_limit = rateLimit\<rparr> (pd_sync db)\<rparr>))"

end
