(* ===== verification/StatsSync.thy ===== *)
theory StatsSync
  imports RepoSource PrStore Telemetry
begin

text \<open>
  The state of the statistics service and the decisions of a sync, \<open>server/src/stats-service.ts\<close>: which kind of walk to
  run, from where, what to write, what to make of the base branches' history. The service runs \<open>produce\<close>, the telemetry
  read and \<open>prime\<close> concurrently; each is a point between two of its awaits, and \<open>StatsService\<close> has the events that
  move them. \<open>new Date(s).getTime()\<close> of what is no date is \<open>NaN\<close>, which \<open>toISOString\<close> refuses.
\<close>

section \<open>State\<close>

datatype revert_status = RvOk | RvUnavailable

record RevertStatus =
  rx_status :: revert_status
  rx_reason :: "string option"

datatype persistence_status = PsOk | PsUnavailable | PsMigrating

record PersistenceMeta =
  pm_status :: persistence_status
  pm_reason :: "string option"
  pm_lastSyncAt :: "string option"
  pm_mode :: "SyncMode option"

record CommitPoint =
  cm_repo :: string
  cm_committedAt :: string
  cm_isRevert :: bool

record CoveragePoint =
  cg_repo :: string
  cg_from :: string

record StatsSnapshot =
  sn_derived :: "DerivedPr list"
  sn_history :: "BranchHistory option"
  sn_commits :: "CommitPoint list"
  sn_coverage :: "CoveragePoint list"
  sn_rateLimit :: "RateLimit option"
  sn_revert :: RevertStatus

datatype fetch_status = FtIdle | FtLoading | FtError

text \<open>An error is its message and its code; \<open>UNKNOWN\<close> is the code of one that is no \<open>GitHubError\<close>.\<close>

type_synonym fetch_error = "string \<times> string"

record FetchState =
  ft_state :: fetch_status
  ft_phase :: "ProgressPhase option"
  ft_repo :: "string option"
  ft_mode :: "SyncMode option"
  ft_prsFetched :: "nat option"
  ft_backfillingPr :: "int option"
  ft_historyScanned :: "nat option"
  ft_startedAt :: "string option"
  ft_finishedAt :: "string option"
  ft_error :: "fetch_error option"

definition idleState :: FetchState where
  "idleState = \<lparr>ft_state = FtIdle, ft_phase = None, ft_repo = None, ft_mode = None, ft_prsFetched = None,
     ft_backfillingPr = None, ft_historyScanned = None, ft_startedAt = None, ft_finishedAt = None, ft_error = None\<rparr>"

text \<open>Where \<open>produce\<close> waits, with what it holds there.\<close>

datatype produce_point =
    AtRepos
  | AtSyncState "StatsSnapshot option"
  | AtOpenPrs "StatsSnapshot option" "(string \<times> SyncState) list"
  | AtFetch "StatsSnapshot option" SyncMode "(string \<times> string) list"
  | AtWrite "StatsSnapshot option" SyncMode PullRequestsResult
  | AtRead "StatsSnapshot option" SyncMode PullRequestsResult
  | AtHistories "StatsSnapshot option" SyncMode "RateLimit option" "CanonicalPr list" string "(string \<times> string) list"
  | AtWriteHistory "StatsSnapshot option" SyncMode "RateLimit option" "CanonicalPr list" string "RepoBranchHistory list"
  | AtReadHistory "StatsSnapshot option" SyncMode "RateLimit option" "CanonicalPr list" string "RepoBranchHistory list"

datatype read_point = ReadAtRepos | ReadAtRollups
datatype prime_point = PrimeAtRepos | PrimeAtRead

record stats_service =
  sx_fetchState :: FetchState
  sx_lastFailureAt :: "int option"
  sx_telemetryFailure :: "(int \<times> string) option"
  sx_persistence :: PersistenceMeta
  sx_cache :: "StatsSnapshot slot"
  sx_telemetry :: "TelemetryInput slot"
  sx_produce :: "produce_point option"
  sx_reading :: "read_point option"
  sx_priming :: "prime_point option"
  sx_repos :: repo_source
  sx_db :: pr_db

definition createStatsService :: "pr_db \<Rightarrow> stats_service" where
  "createStatsService db =
     \<lparr>sx_fetchState = idleState, sx_lastFailureAt = None, sx_telemetryFailure = None,
      sx_persistence = \<lparr>pm_status = PsMigrating, pm_reason = None, pm_lastSyncAt = None, pm_mode = None\<rparr>,
      sx_cache = new_slot, sx_telemetry = new_slot, sx_produce = None, sx_reading = None, sx_priming = None,
      sx_repos = new_repo_source, sx_db = db\<rparr>"

section \<open>Constants\<close>

abbreviation ERROR_COOLDOWN_MS :: int where "ERROR_COOLDOWN_MS \<equiv> 30 * 1000"
abbreviation TELEMETRY_COOLDOWN_MS :: int where "TELEMETRY_COOLDOWN_MS \<equiv> 5 * 1000"
abbreviation FULL_RESYNC_INTERVAL_MS :: int where "FULL_RESYNC_INTERVAL_MS \<equiv> 24 * 3600 * 1000"
abbreviation SYNC_OVERLAP_MS :: int where "SYNC_OVERLAP_MS \<equiv> 5 * 60 * 1000"
abbreviation RECENT_WINDOW_MS :: int where "RECENT_WINDOW_MS \<equiv> 14 * 24 * 3600 * 1000"
abbreviation HISTORY_OVERLAP_MS :: int where "HISTORY_OVERLAP_MS \<equiv> 3600 * 1000"
abbreviation FULL_WALK_POINTS_PER_REPO :: int where "FULL_WALK_POINTS_PER_REPO \<equiv> 243"
abbreviation PR_KIND :: string where "PR_KIND \<equiv> ''pull_requests''"
abbreviation date_failure :: fetch_error where "date_failure \<equiv> (''Invalid time value'', ''UNKNOWN'')"

definition GITHUB_CAPABILITIES :: ProviderCapabilities where
  "GITHUB_CAPABILITIES = \<lparr>reviewLinkage = True\<rparr>"

section \<open>The store, at arm's length\<close>

definition tryStore :: "string \<Rightarrow> string + 'a \<Rightarrow> stats_service \<Rightarrow> 'a option \<times> stats_service" where
  "tryStore what r w =
     (case r of
        Inr v \<Rightarrow> (Some v, if pm_status (sx_persistence w) \<noteq> PsOk
                    then w\<lparr>sx_persistence := (sx_persistence w)\<lparr>pm_status := PsOk, pm_reason := None\<rparr>\<rparr> else w)
      | Inl e \<Rightarrow> (None, w\<lparr>sx_persistence :=
                    (sx_persistence w)\<lparr>pm_status := PsUnavailable, pm_reason := Some (what @ '': '' @ e)\<rparr>\<rparr>))"

text \<open>A read, by a database that may not answer.\<close>

definition answered :: "string option \<Rightarrow> 'a \<Rightarrow> string + 'a" where
  "answered down v = (case down of Some e \<Rightarrow> Inl e | None \<Rightarrow> Inr v)"

section \<open>What kind of walk, and from where\<close>

definition repoNames :: "stats_service \<Rightarrow> string list" where
  "repoNames w = snapshotNames (sx_repos w)"

definition syncTtlMs :: "AppConfig \<Rightarrow> stats_service \<Rightarrow> int" where
  "syncTtlMs config w =
     max (ac_syncTtlMs config) (MIN_SYNC_TTL_SECONDS_PER_REPO * 1000 * max 1 (int (length (snapshot (sx_repos w)))))"

definition full_due :: "int \<Rightarrow> (string \<times> SyncState) list \<Rightarrow> string \<Rightarrow> bool" where
  "full_due now st repo =
     (case Option.bind (map_of st repo) sy_lastFullAt of
        None \<Rightarrow> True
      | Some d \<Rightarrow> d = [] \<or> (case parse_date d of None \<Rightarrow> False | Some t \<Rightarrow> FULL_RESYNC_INTERVAL_MS < now - t))"

definition chooseMode :: "string list \<Rightarrow> int \<Rightarrow> (string \<times> SyncState) list \<Rightarrow> SyncMode" where
  "chooseMode names now st =
     (if list_ex (\<lambda>repo. \<not> truthy (Option.bind (map_of st repo) sy_watermarkAt)) names then SyncFull
      else if list_ex (\<lambda>repo. (case map_of st repo of None \<Rightarrow> 0 | Some s \<Rightarrow> sy_syncedEpoch s) < SCHEMA_EPOCH) names
        then SyncFull
      else if \<not> list_ex (full_due now st) names then SyncIncremental
      else
        let remaining = map rl_remaining (List.map_filter (\<lambda>repo. Option.bind (map_of st repo) sy_lastRateLimit) names) in
        if remaining \<noteq> [] \<and> 2 * Min (set remaining) < 3 * FULL_WALK_POINTS_PER_REPO * int (length names)
        then SyncIncremental else SyncFull)"

definition repo_cutoff :: "int \<Rightarrow> string \<Rightarrow> string option \<Rightarrow> string option" where
  "repo_cutoff now watermark oldest =
     (case parse_date watermark of
        None \<Rightarrow> None
      | Some t \<Rightarrow>
          let c = min (t - SYNC_OVERLAP_MS) (now - RECENT_WINDOW_MS) in
          if truthy oldest then map_option (\<lambda>d. to_iso (min c d)) (parse_date (the oldest)) else Some (to_iso c))"

fun buildCutoff ::
  "string list \<Rightarrow> int \<Rightarrow> (string \<times> SyncState) list \<Rightarrow> (string \<times> string) list \<Rightarrow> (string \<times> string) list option"
where
  "buildCutoff [] now st oldestOpen = Some []"
| "buildCutoff (repo # names) now st oldestOpen =
     (let watermark = Option.bind (map_of st repo) sy_watermarkAt in
      if \<not> truthy watermark then buildCutoff names now st oldestOpen
      else Option.bind (repo_cutoff now (the watermark) (map_of oldestOpen repo)) (\<lambda>c.
        map_option (Cons (repo, c)) (buildCutoff names now st oldestOpen)))"

section \<open>What to write\<close>

definition newest_seen :: "string \<Rightarrow> CanonicalPr list \<Rightarrow> string option" where
  "newest_seen repo prs =
     (case map cp_updatedAt (filter (\<lambda>pr. cp_repo pr = repo) prs) of
        [] \<Rightarrow> None
      | t # ts \<Rightarrow> Some (fold (\<lambda>b a. if b < a then a else b) ts t))"

definition walk_completed :: "PullRequestsResult \<Rightarrow> string \<Rightarrow> bool" where
  "walk_completed res repo \<longleftrightarrow> map_of (pq_completed res) repo = Some True"

text \<open>The pull requests, then the watermark of each repository whose walk reached its end.\<close>

definition pull_statements ::
  "AppConfig \<Rightarrow> int \<Rightarrow> string list \<Rightarrow> SyncMode \<Rightarrow> PullRequestsResult \<Rightarrow> pr_db statement list"
where
  "pull_statements config dbnow names mode res =
     savePullRequests (ac_orgId config) dbnow (pq_prs res) @
     map (\<lambda>repo. recordSync (ac_orgId config) dbnow GitHub repo PR_KIND (newest_seen repo (pq_prs res)) mode
            (pq_rateLimit res) SCHEMA_EPOCH)
       (filter (walk_completed res) names)"

definition history_statements :: "AppConfig \<Rightarrow> int \<Rightarrow> RepoBranchHistory list \<Rightarrow> pr_db statement list" where
  "history_statements config dbnow histories =
     concat (map (\<lambda>h. saveBranchHistory (ac_orgId config) dbnow GitHub (rh_repo h) (rh_branch h)
        (bh_since (the (rh_history h))) (bh_commits (the (rh_history h))) (bh_reverts (the (rh_history h))) (rh_commits h))
       histories)"

section \<open>The history of the base branches\<close>

definition earliest_merge :: "CanonicalPr list \<Rightarrow> string option" where
  "earliest_merge all =
     (case List.map_filter cp_mergedAt all of [] \<Rightarrow> None | m # ms \<Rightarrow> Some (fold (\<lambda>a b. if a < b then a else b) ms m))"

definition newest_commit :: "CommitPoint list \<Rightarrow> string \<Rightarrow> string option" where
  "newest_commit commits repo =
     fold (\<lambda>c held. if cm_repo c = repo \<and> (\<not> truthy held \<or> the held < cm_committedAt c) then Some (cm_committedAt c) else held)
       commits None"

fun history_since :: "string list \<Rightarrow> CommitPoint list \<Rightarrow> string \<Rightarrow> (string \<times> string) list option" where
  "history_since [] commits earliest = Some []"
| "history_since (repo # names) commits earliest =
     (let tip = newest_commit commits repo in
      Option.bind (if truthy tip then map_option (\<lambda>t. to_iso (t - HISTORY_OVERLAP_MS)) (parse_date (the tip)) else Some earliest)
        (\<lambda>from'. map_option (Cons (repo, from')) (history_since names commits earliest)))"

text \<open>Their outcome: the combined history, the commits, the coverage, and what to say of it.\<close>

type_synonym history_outcome = "BranchHistory option \<times> CommitPoint list \<times> CoveragePoint list \<times> RevertStatus"

definition unavailable :: "StatsSnapshot option \<Rightarrow> string \<Rightarrow> history_outcome" where
  "unavailable previous reason =
     (None, case previous of None \<Rightarrow> [] | Some s \<Rightarrow> sn_commits s, case previous of None \<Rightarrow> [] | Some s \<Rightarrow> sn_coverage s,
      \<lparr>rx_status = RvUnavailable, rx_reason = Some reason\<rparr>)"

definition unreadable_repos :: "RepoBranchHistory list \<Rightarrow> string list" where
  "unreadable_repos histories = map rh_repo (filter (\<lambda>h. rh_history h = None) histories)"

definition commit_point :: "StoredBranchCommit \<Rightarrow> CommitPoint" where
  "commit_point c = \<lparr>cm_repo = sb_repo c, cm_committedAt = sb_committedAt c, cm_isRevert = isRevertHeadline (sb_messageHeadline c)\<rparr>"

definition fetched_points :: "RepoBranchHistory list \<Rightarrow> CommitPoint list" where
  "fetched_points histories =
     concat (map (\<lambda>h. map (\<lambda>c. \<lparr>cm_repo = rh_repo h, cm_committedAt = bk_committedAt c,
        cm_isRevert = isRevertHeadline (bk_messageHeadline c)\<rparr>) (rh_commits h)) histories)"

definition earliest_coverage :: "BranchCoverage list \<Rightarrow> string" where
  "earliest_coverage cov = fold (\<lambda>c m. if m = [] \<or> bv_from c < m then bv_from c else m) cov []"

definition stored_history :: "AppConfig \<Rightarrow> BranchCoverage list \<Rightarrow> BranchHistory" where
  "stored_history config cov =
     \<lparr>bh_branch = ac_baseBranch config, bh_since = earliest_coverage cov, bh_commits = sum_list (map bv_commits cov),
      bh_reverts = sum_list (map bv_reverts cov)\<rparr>"

definition fetched_history :: "AppConfig \<Rightarrow> string \<Rightarrow> RepoBranchHistory list \<Rightarrow> BranchHistory" where
  "fetched_history config earliest histories =
     \<lparr>bh_branch = ac_baseBranch config, bh_since = earliest,
      bh_commits = sum_list (map (\<lambda>h. bh_commits (the (rh_history h))) histories),
      bh_reverts = sum_list (map (\<lambda>h. bh_reverts (the (rh_history h))) histories)\<rparr>"

definition coverage_point :: "BranchCoverage \<Rightarrow> CoveragePoint" where
  "coverage_point c = \<lparr>cg_repo = bv_repo c, cg_from = bv_from c\<rparr>"

definition read_outcome ::
  "AppConfig \<Rightarrow> string \<Rightarrow> RepoBranchHistory list \<Rightarrow> (StoredBranchCommit list \<times> BranchCoverage list) option \<Rightarrow> history_outcome"
where
  "read_outcome config earliest histories persisted =
     (case persisted of
        Some (commits, cov) \<Rightarrow>
          (Some (stored_history config cov), map commit_point commits, map coverage_point cov,
           \<lparr>rx_status = RvOk, rx_reason = None\<rparr>)
      | None \<Rightarrow>
          (Some (fetched_history config earliest histories), fetched_points histories,
           map (\<lambda>h. \<lparr>cg_repo = rh_repo h, cg_from = bh_since (the (rh_history h))\<rparr>) histories,
           \<lparr>rx_status = RvOk, rx_reason = None\<rparr>))"

definition snapshotFrom ::
  "(string \<Rightarrow> 'k :: linorder) \<Rightarrow> AppConfig \<Rightarrow> CanonicalPr list \<Rightarrow> history_outcome \<Rightarrow> RateLimit option \<Rightarrow> StatsSnapshot option"
where
  "snapshotFrom coll config prs out rateLimit =
     (case out of (history, commits, coverage, revert) \<Rightarrow>
        map_option (\<lambda>d. \<lparr>sn_derived = d, sn_history = history, sn_commits = commits, sn_coverage = coverage,
            sn_rateLimit = rateLimit, sn_revert = revert\<rparr>)
          (deriveAll coll (set (ac_bots config)) GITHUB_CAPABILITIES prs))"

end
