(* ===== verification/StatsService.thy ===== *)
theory StatsService
  imports StatsSync
begin

text \<open>
  The statistics service at work, \<open>createStatsService\<close> of \<open>server/src/stats-service.ts\<close>: a sync, a read of the telemetry and
  the priming from the store, each advanced by the answers of its awaits, in any order; and what it answers to a
  request. An event happens at an instant of the process clock; a statement carries the instant of the database.
  What follows an answer up to the next await is one step, as is the settling of a slot. \<open>coll\<close> is the collation.
\<close>

section \<open>A sync\<close>

text \<open>The catch of \<open>produce\<close>, and the rejection of its promise.\<close>

definition produce_failed :: "int \<Rightarrow> fetch_error \<Rightarrow> stats_service \<Rightarrow> stats_service" where
  "produce_failed now e w =
     w\<lparr>sx_lastFailureAt := Some now,
       sx_fetchState := (sx_fetchState w)\<lparr>ft_state := FtError, ft_finishedAt := Some (to_iso now), ft_error := Some e\<rparr>,
       sx_produce := None, sx_cache := slot_produced now None (sx_cache w)\<rparr>"

text \<open>The answer of \<open>repos.list()\<close>. The throw comes before the \<open>try\<close>.\<close>

definition produce_listed :: "int \<Rightarrow> stats_service \<Rightarrow> stats_service" where
  "produce_listed now w =
     (if snapshot (sx_repos w) = [] \<and> truthy (so_error (sx_repos w))
      then w\<lparr>sx_produce := None, sx_cache := slot_produced now None (sx_cache w)\<rparr>
      else w\<lparr>sx_produce := Some (AtSyncState (map_option fst (sl_entry (sx_cache w))))\<rparr>)"

definition start :: "int \<Rightarrow> stats_service \<Rightarrow> stats_service" where
  "start now w =
     (let (src, wait) = list_begin now (sx_repos w);
          w1 = w\<lparr>sx_cache := fst (slot_refresh (sx_cache w)), sx_repos := src, sx_produce := Some AtRepos,
                 sx_fetchState := idleState\<lparr>ft_state := FtLoading, ft_startedAt := Some (to_iso now)\<rparr>\<rparr> in
      if wait then w1 else produce_listed now w1)"

definition got_sync_state :: "AppConfig \<Rightarrow> string option \<Rightarrow> StatsSnapshot option \<Rightarrow> stats_service \<Rightarrow> stats_service" where
  "got_sync_state config down prev w =
     (let (r, w1) = tryStore ''read sync state''
            (answered down (readSyncState (ac_orgId config) GitHub (repoNames w) PR_KIND (sx_db w))) w in
      w1\<lparr>sx_produce := Some (AtOpenPrs prev (case r of None \<Rightarrow> [] | Some st \<Rightarrow> st))\<rparr>)"

definition got_open_prs ::
  "AppConfig \<Rightarrow> int \<Rightarrow> string option \<Rightarrow> StatsSnapshot option \<Rightarrow> (string \<times> SyncState) list \<Rightarrow> stats_service \<Rightarrow> stats_service"
where
  "got_open_prs config now down prev st w =
     (let (r, w1) = tryStore ''read open PRs''
            (answered down (oldestOpenUpdatedAt (ac_orgId config) GitHub (repoNames w) (sx_db w))) w;
          oldestOpen = (case r of None \<Rightarrow> [] | Some os \<Rightarrow> os);
          mode = chooseMode (repoNames w) now st;
          w2 = w1\<lparr>sx_fetchState := (sx_fetchState w1)\<lparr>ft_mode := Some mode\<rparr>\<rparr> in
      case buildCutoff (repoNames w) now st oldestOpen of
        None \<Rightarrow> produce_failed now date_failure w2
      | Some cutoff \<Rightarrow> w2\<lparr>sx_produce := Some (AtFetch prev mode cutoff)\<rparr>)"

definition onProgress :: "Progress \<Rightarrow> FetchState \<Rightarrow> FetchState" where
  "onProgress p ft =
     ft\<lparr>ft_phase := Some (pg_phase p), ft_repo := coalesce (pg_repo p) (ft_repo ft),
        ft_prsFetched := coalesce (pg_prsFetched p) (ft_prsFetched ft),
        ft_backfillingPr := coalesce (pg_backfillingPr p) (ft_backfillingPr ft),
        ft_historyScanned := coalesce (pg_historyScanned p) (ft_historyScanned ft)\<rparr>"

definition got_pull_requests ::
  "int \<Rightarrow> fetch_error + PullRequestsResult \<Rightarrow> StatsSnapshot option \<Rightarrow> SyncMode \<Rightarrow> stats_service \<Rightarrow> stats_service"
where
  "got_pull_requests now r prev mode w =
     (case r of Inl e \<Rightarrow> produce_failed now e w | Inr res \<Rightarrow> w\<lparr>sx_produce := Some (AtWrite prev mode res)\<rparr>)"

definition wrote_pull_requests ::
  "AppConfig \<Rightarrow> int \<Rightarrow> (nat \<times> string) option \<Rightarrow> StatsSnapshot option \<Rightarrow> SyncMode \<Rightarrow> PullRequestsResult \<Rightarrow> stats_service \<Rightarrow> stats_service"
where
  "wrote_pull_requests config dbnow flt prev mode res w =
     (let (r, db) = run_statements flt (pull_statements config dbnow (repoNames w) mode res) (sx_db w);
          w1 = snd (tryStore ''write pull requests'' r w) in
      w1\<lparr>sx_db := db, sx_produce := Some (AtRead prev mode res)\<rparr>)"

text \<open>The tail of \<open>produce\<close>, once the history is known.\<close>

definition produce_done ::
  "(string \<Rightarrow> 'k :: linorder) \<Rightarrow> AppConfig \<Rightarrow> int \<Rightarrow> SyncMode \<Rightarrow> RateLimit option \<Rightarrow> CanonicalPr list \<Rightarrow> history_outcome \<Rightarrow>
    stats_service \<Rightarrow> stats_service"
where
  "produce_done coll config now mode rateLimit all out w =
     (let w1 = w\<lparr>sx_fetchState := (sx_fetchState w)\<lparr>ft_state := FtIdle, ft_phase := None, ft_finishedAt := Some (to_iso now)\<rparr>,
              sx_lastFailureAt := None,
              sx_persistence := (sx_persistence w)\<lparr>pm_mode := Some mode, pm_lastSyncAt := Some (to_iso now)\<rparr>\<rparr> in
      case snapshotFrom coll config all out rateLimit of
        None \<Rightarrow> produce_failed now date_failure w1
      | Some s \<Rightarrow> w1\<lparr>sx_produce := None, sx_cache := slot_produced now (Some s) (sx_cache w1)\<rparr>)"

definition read_pull_requests ::
  "(string \<Rightarrow> 'k :: linorder) \<Rightarrow> AppConfig \<Rightarrow> int \<Rightarrow> string option \<Rightarrow> StatsSnapshot option \<Rightarrow> SyncMode \<Rightarrow> PullRequestsResult \<Rightarrow>
    stats_service \<Rightarrow> stats_service"
where
  "read_pull_requests coll config now down prev mode res w =
     (let (r, w1) = tryStore ''read pull requests''
            (answered down (loadPullRequests coll (ac_orgId config) GitHub (repoNames w) (sx_db w))) w;
          all = (case r of None \<Rightarrow> pq_prs res | Some prs \<Rightarrow> prs);
          earliest = earliest_merge all in
      if \<not> truthy earliest
      then produce_done coll config now mode (pq_rateLimit res) all
             (unavailable prev ''No merged PRs to bound the history query'') w1
      else
        (case history_since (repoNames w) (case prev of None \<Rightarrow> [] | Some s \<Rightarrow> sn_commits s) (the earliest) of
           None \<Rightarrow> produce_failed now date_failure w1
         | Some since \<Rightarrow>
             w1\<lparr>sx_produce := Some (AtHistories prev mode (pq_rateLimit res) all (the earliest) since)\<rparr>))"

definition unreadable_reason :: "AppConfig \<Rightarrow> string list \<Rightarrow> string" where
  "unreadable_reason config repos =
     ''Branch '' @ ac_baseBranch config @ '' is not readable in '' @ join_with '', '' repos @
     '' with this token (Contents: read missing?)''"

definition got_histories ::
  "(string \<Rightarrow> 'k :: linorder) \<Rightarrow> AppConfig \<Rightarrow> int \<Rightarrow> fetch_error + RepoBranchHistory list \<Rightarrow> StatsSnapshot option \<Rightarrow> SyncMode \<Rightarrow>
    RateLimit option \<Rightarrow> CanonicalPr list \<Rightarrow> string \<Rightarrow> stats_service \<Rightarrow> stats_service"
where
  "got_histories coll config now r prev mode rateLimit all earliest w =
     (case r of
        Inl e \<Rightarrow> produce_done coll config now mode rateLimit all (unavailable prev (fst e)) w
      | Inr histories \<Rightarrow>
          if unreadable_repos histories \<noteq> []
          then produce_done coll config now mode rateLimit all
                 (unavailable prev (unreadable_reason config (unreadable_repos histories))) w
          else w\<lparr>sx_produce := Some (AtWriteHistory prev mode rateLimit all earliest histories)\<rparr>)"

definition wrote_history ::
  "AppConfig \<Rightarrow> int \<Rightarrow> (nat \<times> string) option \<Rightarrow> StatsSnapshot option \<Rightarrow> SyncMode \<Rightarrow> RateLimit option \<Rightarrow> CanonicalPr list \<Rightarrow>
    string \<Rightarrow> RepoBranchHistory list \<Rightarrow> stats_service \<Rightarrow> stats_service"
where
  "wrote_history config dbnow flt prev mode rateLimit all earliest histories w =
     (let (r, db) = run_statements flt (history_statements config dbnow histories) (sx_db w);
          w1 = snd (tryStore ''write branch history'' r w) in
      w1\<lparr>sx_db := db, sx_produce := Some (AtReadHistory prev mode rateLimit all earliest histories)\<rparr>)"

definition read_history ::
  "(string \<Rightarrow> 'k :: linorder) \<Rightarrow> AppConfig \<Rightarrow> int \<Rightarrow> string option \<Rightarrow> SyncMode \<Rightarrow> RateLimit option \<Rightarrow> CanonicalPr list \<Rightarrow>
    string \<Rightarrow> RepoBranchHistory list \<Rightarrow> stats_service \<Rightarrow> stats_service"
where
  "read_history coll config now down mode rateLimit all earliest histories w =
     (let (r, w1) = tryStore ''read branch history'' (answered down
            (loadBranchCommits (ac_orgId config) GitHub (repoNames w) (ac_baseBranch config) (sx_db w),
             loadBranchCoverage (ac_orgId config) GitHub (repoNames w) (ac_baseBranch config) (sx_db w))) w in
      produce_done coll config now mode rateLimit all (read_outcome config earliest histories r) w1)"

section \<open>The telemetry\<close>

definition startTelemetry :: "int \<Rightarrow> stats_service \<Rightarrow> stats_service" where
  "startTelemetry now w =
     (let (src, wait) = list_begin now (sx_repos w) in
      w\<lparr>sx_telemetry := fst (slot_refresh (sx_telemetry w)), sx_repos := src,
        sx_reading := Some (if wait then ReadAtRepos else ReadAtRollups)\<rparr>)"

definition got_rollups :: "int \<Rightarrow> string + TelemetryInput \<Rightarrow> stats_service \<Rightarrow> stats_service" where
  "got_rollups now r w =
     (case r of
        Inr inp \<Rightarrow> w\<lparr>sx_telemetryFailure := None, sx_reading := None, sx_telemetry := slot_produced now (Some inp) (sx_telemetry w)\<rparr>
      | Inl e \<Rightarrow> w\<lparr>sx_telemetryFailure := Some (now, e), sx_reading := None, sx_telemetry := slot_produced now None (sx_telemetry w)\<rparr>)"

section \<open>Priming\<close>

definition prime :: "int \<Rightarrow> stats_service \<Rightarrow> stats_service" where
  "prime now w =
     (if sx_priming w \<noteq> None then w
      else
        (let (src, wait) = list_begin now (sx_repos w) in
         w\<lparr>sx_repos := src, sx_priming := Some (if wait then PrimeAtRepos else PrimeAtRead)\<rparr>))"

definition oldest_sync :: "string list \<Rightarrow> (string \<times> SyncState) list \<Rightarrow> string option" where
  "oldest_sync names st =
     (case List.map_filter (\<lambda>repo. Option.bind (map_of st repo) sy_lastSyncAt) names of
        [] \<Rightarrow> None | t # ts \<Rightarrow> Some (fold (\<lambda>a b. if a < b then a else b) ts t))"

definition first_rate_limit :: "string list \<Rightarrow> (string \<times> SyncState) list \<Rightarrow> RateLimit option" where
  "first_rate_limit names st =
     (case List.map_filter (\<lambda>repo. Option.bind (map_of st repo) sy_lastRateLimit) names of [] \<Rightarrow> None | l # ls \<Rightarrow> Some l)"

definition primed_outcome :: "AppConfig \<Rightarrow> StoredBranchCommit list \<Rightarrow> BranchCoverage list \<Rightarrow> history_outcome" where
  "primed_outcome config commits cov =
     (if cov = [] then None else Some (stored_history config cov), map commit_point commits, map coverage_point cov,
      if cov = [] then \<lparr>rx_status = RvUnavailable, rx_reason = Some ''No persisted branch history yet''\<rparr>
      else \<lparr>rx_status = RvOk, rx_reason = None\<rparr>)"

text \<open>The four reads, and the seeding of the slot, dated by the oldest sync (an instant the store printed, so a date).\<close>

definition primed ::
  "(string \<Rightarrow> 'k :: linorder) \<Rightarrow> AppConfig \<Rightarrow> string option \<Rightarrow> stats_service \<Rightarrow> stats_service"
where
  "primed coll config down w =
     (let names = repoNames w; org = ac_orgId config;
          (r, w1) = tryStore ''prime'' (answered down
            (loadPullRequests coll org GitHub names (sx_db w), loadBranchCommits org GitHub names (ac_baseBranch config) (sx_db w),
             loadBranchCoverage org GitHub names (ac_baseBranch config) (sx_db w), readSyncState org GitHub names PR_KIND (sx_db w))) w;
          w2 = w1\<lparr>sx_priming := None\<rparr> in
      case r of
        None \<Rightarrow> w2
      | Some (prs, commits, cov, st) \<Rightarrow>
          if prs = [] then w2
          else
            let lastSyncAt = oldest_sync names st in
            (case snapshotFrom coll config prs (primed_outcome config commits cov) (first_rate_limit names st) of
               None \<Rightarrow> w2
             | Some s \<Rightarrow>
                 w2\<lparr>sx_cache := fst (slot_seed s
                      (if truthy lastSyncAt then (case parse_date (the lastSyncAt) of None \<Rightarrow> 0 | Some t \<Rightarrow> t) else 0) (sx_cache w2)),
                    sx_persistence := (sx_persistence w2)\<lparr>pm_status := PsOk, pm_reason := None, pm_lastSyncAt := lastSyncAt\<rparr>\<rparr>))"

section \<open>What the routes ask for\<close>

definition telemetry_due :: "AppConfig \<Rightarrow> int \<Rightarrow> stats_service \<Rightarrow> bool" where
  "telemetry_due config now w \<longleftrightarrow>
     ac_telemetrySource config \<noteq> TsOff \<and> slot_isStale (ac_telemetryTtlMs config) now (sx_telemetry w) \<and>
     \<not> sl_pending (sx_telemetry w) \<and>
     \<not> (case sx_telemetryFailure w of None \<Rightarrow> False | Some (t, e) \<Rightarrow> now - t < TELEMETRY_COOLDOWN_MS)"

definition sync_due :: "AppConfig \<Rightarrow> int \<Rightarrow> stats_service \<Rightarrow> bool" where
  "sync_due config now w \<longleftrightarrow>
     sx_priming w = None \<and> slot_isStale (syncTtlMs config w) now (sx_cache w) \<and> \<not> sl_pending (sx_cache w) \<and>
     \<not> (case sx_lastFailureAt w of None \<Rightarrow> False | Some t \<Rightarrow> now - t < ERROR_COOLDOWN_MS)"

definition ensureFresh :: "AppConfig \<Rightarrow> int \<Rightarrow> stats_service \<Rightarrow> stats_service" where
  "ensureFresh config now w =
     (let w1 = (if telemetry_due config now w then startTelemetry now w else w) in
      if sync_due config now w1 then start now w1 else w1)"

definition refresh :: "AppConfig \<Rightarrow> int \<Rightarrow> stats_service \<Rightarrow> stats_service" where
  "refresh config now w =
     (let w1 = (if \<not> sl_pending (sx_cache w) then start now w else w) in
      if ac_telemetrySource config \<noteq> TsOff \<and> \<not> sl_pending (sx_telemetry w1) then startTelemetry now w1 else w1)"

section \<open>Events\<close>

datatype svc_event =
    EvEnsureFresh
  | EvRefresh
  | EvPrime
  | EvDetail
  | EvRepos repos_answer
  | EvRead "string option"
  | EvWrite "(nat \<times> string) option" int
  | EvPullRequests "fetch_error + PullRequestsResult"
  | EvHistories "fetch_error + RepoBranchHistory list"
  | EvProgress Progress
  | EvRollups "string + TelemetryInput"
  | EvPrimed "string option"

text \<open>\<open>EvDetail\<close> is another route that asks for the list. Its settling wakes whoever waits for it.\<close>

definition repos_settled :: "int \<Rightarrow> repos_answer \<Rightarrow> stats_service \<Rightarrow> stats_service" where
  "repos_settled now a w =
     (let w1 = w\<lparr>sx_repos := list_answered now a (sx_repos w)\<rparr>;
          w2 = (if sx_reading w1 = Some ReadAtRepos then w1\<lparr>sx_reading := Some ReadAtRollups\<rparr> else w1);
          w3 = (if sx_priming w2 = Some PrimeAtRepos then w2\<lparr>sx_priming := Some PrimeAtRead\<rparr> else w2) in
      if sx_produce w3 = Some AtRepos then produce_listed now w3 else w3)"

definition svc_step :: "(string \<Rightarrow> 'k :: linorder) \<Rightarrow> AppConfig \<Rightarrow> int \<Rightarrow> svc_event \<Rightarrow> stats_service \<Rightarrow> stats_service" where
  "svc_step coll config now ev w =
     (case ev of
        EvEnsureFresh \<Rightarrow> ensureFresh config now w
      | EvRefresh \<Rightarrow> refresh config now w
      | EvPrime \<Rightarrow> prime now w
      | EvDetail \<Rightarrow> w\<lparr>sx_repos := fst (list_begin now (sx_repos w))\<rparr>
      | EvRepos a \<Rightarrow> if sl_pending (so_slot (sx_repos w)) then repos_settled now a w else w
      | EvRead down \<Rightarrow>
          (case sx_produce w of
             Some (AtSyncState prev) \<Rightarrow> got_sync_state config down prev w
           | Some (AtOpenPrs prev st) \<Rightarrow> got_open_prs config now down prev st w
           | Some (AtRead prev mode res) \<Rightarrow> read_pull_requests coll config now down prev mode res w
           | Some (AtReadHistory prev mode rl all earliest hs) \<Rightarrow> read_history coll config now down mode rl all earliest hs w
           | _ \<Rightarrow> w)
      | EvWrite flt dbnow \<Rightarrow>
          (case sx_produce w of
             Some (AtWrite prev mode res) \<Rightarrow> wrote_pull_requests config dbnow flt prev mode res w
           | Some (AtWriteHistory prev mode rl all earliest hs) \<Rightarrow> wrote_history config dbnow flt prev mode rl all earliest hs w
           | _ \<Rightarrow> w)
      | EvPullRequests r \<Rightarrow>
          (case sx_produce w of Some (AtFetch prev mode cutoff) \<Rightarrow> got_pull_requests now r prev mode w | _ \<Rightarrow> w)
      | EvHistories r \<Rightarrow>
          (case sx_produce w of
             Some (AtHistories prev mode rl all earliest since) \<Rightarrow> got_histories coll config now r prev mode rl all earliest w
           | _ \<Rightarrow> w)
      | EvProgress p \<Rightarrow>
          (case sx_produce w of
             Some (AtFetch prev mode cutoff) \<Rightarrow> w\<lparr>sx_fetchState := onProgress p (sx_fetchState w)\<rparr>
           | Some (AtHistories prev mode rl all earliest since) \<Rightarrow> w\<lparr>sx_fetchState := onProgress p (sx_fetchState w)\<rparr>
           | _ \<Rightarrow> w)
      | EvRollups r \<Rightarrow> if sx_reading w = Some ReadAtRollups then got_rollups now r w else w
      | EvPrimed down \<Rightarrow> if sx_priming w = Some PrimeAtRead then primed coll config down w else w)"

fun svc_run :: "(string \<Rightarrow> 'k :: linorder) \<Rightarrow> AppConfig \<Rightarrow> (int \<times> svc_event) list \<Rightarrow> stats_service \<Rightarrow> stats_service" where
  "svc_run coll config [] w = w"
| "svc_run coll config ((now, ev) # evs) w = svc_run coll config evs (svc_step coll config now ev w)"

end
