(* ===== verification/StatsPage.thy ===== *)
theory StatsPage
  imports StatsService Http
begin

text \<open>
  What the statistics service answers: \<open>revertForRange\<close>, \<open>telemetryMeta\<close> and \<open>current\<close> of \<open>server/src/stats-service.ts\<close>, and
  the routes of \<open>server/src/routes/stats.ts\<close> over them. The serialization of a payload is Fastify's.
\<close>

section \<open>The revert rate of a range\<close>

definition revert_unavailable :: "string \<Rightarrow> BranchHistory option \<times> RevertStatus" where
  "revert_unavailable reason = (None, \<lparr>rx_status = RvUnavailable, rx_reason = Some reason\<rparr>)"

definition uncovered :: "string list \<Rightarrow> StatsSnapshot \<Rightarrow> DateRange \<Rightarrow> string list" where
  "uncovered names s rng =
     map cg_repo (filter (\<lambda>c. case rg_from rng of None \<Rightarrow> False | Some f \<Rightarrow> f < cg_from c) (sn_coverage s)) @
     filter (\<lambda>repo. repo \<notin> set (map cg_repo (sn_coverage s))) names"

definition commits_in :: "StatsSnapshot \<Rightarrow> DateRange \<Rightarrow> CommitPoint list" where
  "commits_in s rng =
     filter (\<lambda>c. (case rg_from rng of None \<Rightarrow> True | Some f \<Rightarrow> f \<le> cm_committedAt c) \<and>
       (case rg_to rng of None \<Rightarrow> True | Some t \<Rightarrow> cm_committedAt c < t)) (sn_commits s)"

definition revertForRange ::
  "AppConfig \<Rightarrow> string list \<Rightarrow> StatsSnapshot \<Rightarrow> DateRange \<Rightarrow> BranchHistory option \<times> RevertStatus"
where
  "revertForRange config names s rng =
     (if isAllTime rng then (sn_history s, sn_revert s)
      else if rx_status (sn_revert s) \<noteq> RvOk \<or> sn_history s = None then (None, sn_revert s)
      else if sn_commits s = []
        then revert_unavailable ''Revert rate is measured over the full fetch window, not a selected range''
      else
        let h = the (sn_history s) in
        if int (length (sn_commits s)) \<noteq> bh_commits h
        then revert_unavailable (''Persisted commits ('' @ int_str (int (length (sn_commits s))) @
          '') disagree with the reported total ('' @ int_str (bh_commits h) @ ''); a range cannot be sliced from an incomplete scan'')
        else if uncovered names s rng \<noteq> []
        then revert_unavailable (''Persisted history for '' @ join_with '', '' (uncovered names s rng) @
          '' does not reach back to the start of this range'')
        else
          (Some \<lparr>bh_branch = ac_baseBranch config, bh_since = (case rg_from rng of Some f \<Rightarrow> f | None \<Rightarrow> bh_since h),
             bh_commits = int (length (commits_in s rng)),
             bh_reverts = int (length (filter cm_isRevert (commits_in s rng)))\<rparr>,
           \<lparr>rx_status = RvOk, rx_reason = None\<rparr>))"

section \<open>The payload\<close>

datatype telemetry_status = TmOk | TmEmpty | TmUnreachable | TmDisabled

record TelemetryMeta =
  tm_status :: telemetry_status
  tm_reason :: "string option"
  tm_postgres :: bool
  tm_fetchedAt :: "string option"
  tm_ageSeconds :: "int option"
  tm_stale :: bool
  tm_repoFilter :: "string list"
  tm_otherRepoSessions :: int
  tm_sessionsWithoutHook :: int

record StatsPayload =
  py_stats :: Stats
  py_telemetry :: "TelemetryStats option"
  py_fetchedAt :: string
  py_ageSeconds :: int
  py_stale :: bool
  py_rateLimit :: "RateLimit option"
  py_revert :: RevertStatus
  py_organization :: "string \<times> string"
  py_available :: "(string \<times> string) list"
  py_repos :: "(string \<times> string) list"
  py_baseBranch :: string
  py_range :: DateRange
  py_telemetryMeta :: TelemetryMeta
  py_persistence :: PersistenceMeta

definition toJoinKey :: "DerivedPr \<Rightarrow> PrTelemetryKey" where
  "toJoinKey pr =
     \<lparr>pk_repo = dp_repo pr, pk_number = dp_number pr, pk_author = dp_author pr, pk_headRefName = dp_headRefName pr,
      pk_createdAt = dp_createdAt pr, pk_mergedAt = dp_mergedAt pr, pk_size = dp_size pr, pk_cycleHours = dp_cycleHours pr,
      pk_commitsAfterHumanReview = dp_commitsAfterHumanReview pr\<rparr>"

definition telemetryMeta ::
  "AppConfig \<Rightarrow> int \<Rightarrow> stats_service \<Rightarrow> (TelemetryInput \<times> int) option \<Rightarrow> TelemetryStats option \<Rightarrow> TelemetryMeta"
where
  "telemetryMeta config now w entry stats =
     (let b = \<lparr>tm_status = TmDisabled, tm_reason = None, tm_postgres = (ac_telemetrySource config = TsPostgres), tm_fetchedAt = None,
            tm_ageSeconds = None, tm_stale = False, tm_repoFilter = repoNames w,
            tm_otherRepoSessions = (case stats of None \<Rightarrow> 0 | Some s \<Rightarrow> ts_otherRepoSessions s),
            tm_sessionsWithoutHook = (case stats of None \<Rightarrow> 0 | Some s \<Rightarrow> ts_sessionsWithoutHook s)\<rparr> in
      if ac_telemetrySource config = TsOff then b
      else
        (case entry of
           None \<Rightarrow> b\<lparr>tm_status := TmUnreachable,
             tm_reason := Some (case sx_telemetryFailure w of Some (t, e) \<Rightarrow> e | None \<Rightarrow> ''No telemetry has been read yet'')\<rparr>
         | Some (inp, fetchedAt) \<Rightarrow>
             b\<lparr>tm_status := (if ti_sessions inp = [] then TmEmpty else TmOk),
               tm_reason := map_option snd (sx_telemetryFailure w), tm_fetchedAt := Some (to_iso fetchedAt),
               tm_ageSeconds := Some ((now - fetchedAt) div 1000),
               tm_stale := slot_isStale (ac_telemetryTtlMs config) now (sx_telemetry w)\<rparr>))"

text \<open>\<open>Inl\<close> is a throw: a timestamp of the figures that is no date.\<close>

definition current ::
  "(string \<Rightarrow> 'k :: linorder) \<Rightarrow> AppConfig \<Rightarrow> int \<Rightarrow> stats_service \<Rightarrow> DateRange \<Rightarrow> string + StatsPayload option"
where
  "current coll config now w rng =
     (case sl_entry (sx_cache w) of
        None \<Rightarrow> Inr None
      | Some (s, fetchedAt) \<Rightarrow>
          let prs = filterPrs (sn_derived s) rng;
              (history, revert) = revertForRange config (repoNames w) s rng;
              entry = (if ac_telemetrySource config = TsOff then None else sl_entry (sx_telemetry w)) in
          (case compute coll history (ac_baseBranch config) (set (ac_bots config)) now prs of
             None \<Rightarrow> Inl ''Invalid time value''
           | Some stats \<Rightarrow>
               (case (case entry of
                        None \<Rightarrow> Some None
                      | Some (inp, t) \<Rightarrow>
                          map_option Some (attribute coll (Some (repoNames w)) now (map toJoinKey prs) (filterTelemetryInput inp rng))) of
                  None \<Rightarrow> Inl ''Invalid time value''
                | Some tel \<Rightarrow>
                    Inr (Some
                      \<lparr>py_stats = stats, py_telemetry = tel, py_fetchedAt = to_iso fetchedAt,
                       py_ageSeconds = (now - fetchedAt) div 1000, py_stale = slot_isStale (syncTtlMs config w) now (sx_cache w),
                       py_rateLimit = sn_rateLimit s, py_revert = revert,
                       py_organization = (ac_orgId config, ac_orgName config),
                       py_available = [(ac_orgId config, ac_orgName config)],
                       py_repos = map (\<lambda>r. (ir_owner r, ir_name r)) (snapshot (sx_repos w)),
                       py_baseBranch = ac_baseBranch config, py_range = rng,
                       py_telemetryMeta = telemetryMeta config now w entry tel, py_persistence = sx_persistence w\<rparr>))))"

section \<open>The routes\<close>

record StatsQuery =
  sq_range :: "string option"
  sq_from :: "string option"
  sq_to :: "string option"
  sq_org :: "string option"

text \<open>
  \<open>other_date\<close> is the platform's reading of a date in a spelling other than those of \<open>JsDate\<close>, which the language leaves to it.
\<close>

definition ticked :: "string \<Rightarrow> string" where
  "ticked s = [CHR 0x27] @ s @ [CHR 0x27]"

datatype bound_edge = EdgeFrom | EdgeTo

definition day_only :: "string \<Rightarrow> bool" where
  "day_only raw \<longleftrightarrow> has_shape ''dddd-dd-dd'' raw"

definition parseBound :: "(string \<Rightarrow> int option) \<Rightarrow> string \<Rightarrow> bound_edge \<Rightarrow> string option" where
  "parseBound other_date raw edge =
     (if day_only raw
      then map_option (\<lambda>t. to_iso (if edge = EdgeTo then set_utc_date t (utc_date t + 1) else t)) (parse_date (raw @ ''T00:00:00.000Z''))
      else map_option to_iso (case parse_date raw of Some t \<Rightarrow> Some t | None \<Rightarrow> other_date raw))"

definition preset_named :: "string \<Rightarrow> RangePreset option" where
  "preset_named s = find (\<lambda>p. preset_str p = s) RANGE_PRESETS"

definition parseRange :: "(string \<Rightarrow> int option) \<Rightarrow> StatsQuery \<Rightarrow> int \<Rightarrow> string + DateRange" where
  "parseRange other_date q now =
     (let preset = (case sq_range q of None \<Rightarrow> ''all'' | Some r \<Rightarrow> r) in
      case preset_named preset of
        None \<Rightarrow> Inl (''Unknown range '' @ ticked preset)
      | Some p \<Rightarrow>
          if p \<noteq> PCustom then Inr (resolveRange p now None None)
          else if \<not> truthy (sq_from q) \<and> \<not> truthy (sq_to q) then Inl ''A custom range needs from, to, or both''
          else
            let from' = (if truthy (sq_from q) then parseBound other_date (the (sq_from q)) EdgeFrom else None);
                to' = (if truthy (sq_to q) then parseBound other_date (the (sq_to q)) EdgeTo else None) in
            if truthy (sq_from q) \<and> from' = None then Inl (''Unparseable from '' @ ticked (the (sq_from q)))
            else if truthy (sq_to q) \<and> to' = None then Inl (''Unparseable to '' @ ticked (the (sq_to q)))
            else if from' \<noteq> None \<and> to' \<noteq> None \<and> the to' \<le> the from' then Inl ''from must precede to''
            else Inr \<lparr>rg_preset = PCustom, rg_from = from', rg_to = to'\<rparr>)"

definition resolveOrg :: "AppConfig \<Rightarrow> string option \<Rightarrow> string + (string \<times> string)" where
  "resolveOrg config requested =
     (if \<not> truthy requested \<or> requested = Some (ac_orgId config) then Inr (ac_orgId config, ac_orgName config)
      else Inl (''Unknown organization '' @ ticked (the requested) @ ''; this deployment serves '' @ ticked (ac_orgId config) @ '' only''))"

datatype stats_reply =
    StatsRefused reply
  | StatsThrew string
  | StatsServed StatsPayload
  | StatsFailed fetch_error FetchState
  | StatsPending FetchState

definition get_stats ::
  "(string \<Rightarrow> 'k :: linorder) \<Rightarrow> (string \<Rightarrow> int option) \<Rightarrow> AppConfig \<Rightarrow> int \<Rightarrow> StatsQuery \<Rightarrow> stats_service \<Rightarrow> stats_reply \<times> stats_service"
where
  "get_stats coll other_date config now q w =
     (case resolveOrg config (sq_org q) of
        Inl e \<Rightarrow> (StatsRefused (bad ''UNKNOWN_ORG'' e 400), w)
      | Inr org \<Rightarrow>
          (case parseRange other_date q now of
             Inl e \<Rightarrow> (StatsRefused (bad ''BAD_RANGE'' e 400), w)
           | Inr rng \<Rightarrow>
               let w1 = ensureFresh config now w in
               (case current coll config now w1 rng of
                  Inl e \<Rightarrow> (StatsThrew e, w1)
                | Inr (Some p) \<Rightarrow> (StatsServed p, w1)
                | Inr None \<Rightarrow>
                    if ft_state (sx_fetchState w1) = FtError
                    then (StatsFailed (case ft_error (sx_fetchState w1) of Some e \<Rightarrow> e | None \<Rightarrow> (''Fetch failed'', ''UNKNOWN''))
                            (sx_fetchState w1), w1)
                    else (StatsPending (sx_fetchState w1), w1))))"

definition post_refresh :: "AppConfig \<Rightarrow> int \<Rightarrow> stats_service \<Rightarrow> stats_reply \<times> stats_service" where
  "post_refresh config now w = (let w1 = refresh config now w in (StatsPending (sx_fetchState w1), w1))"

end
