(* ===== verification/PrFacts.thy ===== *)
theory PrFacts
  imports PrStore
begin

text \<open>
  Facts about the statements of the pull request store: its tables as instances of \<open>conflict_table\<close>, the
  constraints of the tables are kept, what a write leaves alone, and what is read back.
\<close>

section \<open>The tables of the store\<close>

interpretation pulls: conflict_table pull_key pull_conflict
  by unfold_locales (simp add: pull_key_def pull_conflict_def)

interpretation reviews: conflict_table "\<lambda>r. (rv_pr r, rv_review_key r)" "\<lambda>old new. new"
  by unfold_locales

interpretation threads: conflict_table "\<lambda>r. (tw_pr r, tw_thread_key r)" "\<lambda>old new. new"
  by unfold_locales

interpretation histories: conflict_table bw_branch history_conflict
  by unfold_locales (simp add: history_conflict_def)

interpretation syncs: conflict_table sy_key sync_conflict
  by unfold_locales (simp add: sync_conflict_def)

lemma review_row_of_key: "review_row_of k r = Inr w \<Longrightarrow> rv_pr w = k \<and> rv_review_key w = cr_reviewKey r"
  by (auto simp: review_row_of_def split: option.splits if_splits)

lemma thread_row_of_key: "thread_row_of k r = Inr w \<Longrightarrow> tw_pr w = k \<and> tw_thread_key w = ct_threadKey r"
  by (auto simp: thread_row_of_def split: option.splits if_splits)

lemma commit_row_of_key: "commit_row_of k r = Inr w \<Longrightarrow> cw_pr w = k \<and> cw_sha w = cc_sha r"
  by (auto simp: commit_row_of_def split: option.splits if_splits)

lemma label_row_of_key: "label_row_of k r = Inr w \<Longrightarrow> lw_pr w = k \<and> lw_label w = r"
  by (auto simp: label_row_of_def split: if_splits)

lemma pull_row_of_key: "pull_row_of org now pr = Inr w \<Longrightarrow> pull_key w = key_of_pr org pr"
  by (auto simp: pull_row_of_def pull_key_def key_of_pr_def split: option.splits)


section \<open>Writing the lists of a pull request\<close>

abbreviation review_keys :: "review_row list \<Rightarrow> (pr_key \<times> string) set" where
  "review_keys t \<equiv> (\<lambda>r. (rv_pr r, rv_review_key r)) ` set t"

abbreviation thread_keys :: "thread_row list \<Rightarrow> (pr_key \<times> string) set" where
  "thread_keys t \<equiv> (\<lambda>r. (tw_pr r, tw_thread_key r)) ` set t"

abbreviation commit_keys :: "commit_row list \<Rightarrow> (pr_key \<times> string) set" where
  "commit_keys t \<equiv> (\<lambda>r. (cw_pr r, cw_sha r)) ` set t"

abbreviation label_keys :: "label_row list \<Rightarrow> (pr_key \<times> string) set" where
  "label_keys t \<equiv> (\<lambda>r. (lw_pr r, lw_label r)) ` set t"

text \<open>The keys a list leaves: what was stored, unless the list is complete, and what was fetched.\<close>

definition keys_after :: "bool \<Rightarrow> 'p \<Rightarrow> ('p \<times> 'x) set \<Rightarrow> 'x list \<Rightarrow> ('p \<times> 'x) set" where
  "keys_after whole k K fetched = {e \<in> K. \<not> (whole \<and> fst e = k)} \<union> Pair k ` set fetched"

lemma image_restrict: "{e \<in> f ` A. P e} = f ` {x \<in> A. P (f x)}"
  by blast

lemma cleared_keys:
  "(\<lambda>r. (own r, sub r)) ` set (if c then sql_delete (\<lambda>r. own r = k) t else t) =
   {e \<in> (\<lambda>r. (own r, sub r)) ` set t. \<not> (c \<and> fst e = k)}"
  by (simp add: set_sql_delete image_restrict)

lemma cleared_elsewhere:
  "filter (\<lambda>r. own r \<noteq> k) (if c then sql_delete (\<lambda>r. own r = k) t else t) = filter (\<lambda>r. own r \<noteq> k) t"
  by (simp add: sql_delete_def)

lemma cleared_distinct:
  "distinct (map f t) \<Longrightarrow> distinct (map f (if c then sql_delete (\<lambda>r. own r = k) t else t))"
  by (simp add: distinct_map_sql_delete)

lemma fetched_keys:
  assumes "all_or_throw f xs = Inr rs" "\<And>x w. f x = Inr w \<Longrightarrow> own w = k \<and> sub w = h x"
  shows "(\<lambda>r. (own r, sub r)) ` set rs = Pair k ` set (map h xs)"
proof -
  have "map (\<lambda>r. (own r, sub r)) rs = map (\<lambda>x. (k, h x)) xs"
    using assms(1) by (rule all_or_throw_image) (drule assms(2), simp)
  then have "set (map (\<lambda>r. (own r, sub r)) rs) = set (map (\<lambda>x. (k, h x)) xs)" by (rule arg_cong)
  then show ?thesis by (simp add: image_image)
qed

lemma upsert_rows_Inr: "upsert_rows key upd rs t = Inr t' \<longleftrightarrow> distinct (map key rs) \<and> t' = fold (upsert_row key upd) rs t"
  by (auto simp: upsert_rows_def)

lemma write_reviews_spec:
  assumes "write_reviews k pr t = Inr t'"
  shows "review_keys t' = keys_after (complete_list pr CReviews) k (review_keys t) (map cr_reviewKey (cp_reviews pr))"
    "filter (\<lambda>r. rv_pr r \<noteq> k) t' = filter (\<lambda>r. rv_pr r \<noteq> k) t"
    "distinct (map (\<lambda>r. (rv_pr r, rv_review_key r)) t) \<Longrightarrow> distinct (map (\<lambda>r. (rv_pr r, rv_review_key r)) t')"
proof -
  let ?t = "if complete_list pr CReviews then sql_delete (\<lambda>r. rv_pr r = k) t else t"
  obtain rs where rs: "all_or_throw (review_row_of k) (cp_reviews pr) = Inr rs"
      and t': "t' = fold (upsert_row (\<lambda>r. (rv_pr r, rv_review_key r)) (\<lambda>old new. new)) rs ?t"
    using assms by (auto simp: write_reviews_def Let_def upsert_rows_Inr split: sum.splits)
  show "review_keys t' = keys_after (complete_list pr CReviews) k (review_keys t) (map cr_reviewKey (cp_reviews pr))"
    unfolding t' reviews.fold_upsert_keys cleared_keys keys_after_def
    using fetched_keys [OF rs review_row_of_key, of k] by simp
  have "\<not> fst (rv_pr r, rv_review_key r) \<noteq> k" if "r \<in> set rs" for r
    using all_or_throw_all [OF rs that] by (auto dest: review_row_of_key)
  from reviews.fold_upsert_elsewhere [of rs "\<lambda>e. fst e \<noteq> k", OF this]
  show "filter (\<lambda>r. rv_pr r \<noteq> k) t' = filter (\<lambda>r. rv_pr r \<noteq> k) t"
    unfolding t' by (simp add: cleared_elsewhere)
  show "distinct (map (\<lambda>r. (rv_pr r, rv_review_key r)) t) \<Longrightarrow> distinct (map (\<lambda>r. (rv_pr r, rv_review_key r)) t')"
    unfolding t' by (intro reviews.fold_upsert_distinct cleared_distinct)
qed

lemma write_threads_spec:
  assumes "write_threads k pr t = Inr t'"
  shows "thread_keys t' = keys_after (complete_list pr CReviewThreads) k (thread_keys t) (map ct_threadKey (cp_threads pr))"
    "filter (\<lambda>r. tw_pr r \<noteq> k) t' = filter (\<lambda>r. tw_pr r \<noteq> k) t"
    "distinct (map (\<lambda>r. (tw_pr r, tw_thread_key r)) t) \<Longrightarrow> distinct (map (\<lambda>r. (tw_pr r, tw_thread_key r)) t')"
proof -
  let ?t = "if complete_list pr CReviewThreads then sql_delete (\<lambda>r. tw_pr r = k) t else t"
  obtain rs where rs: "all_or_throw (thread_row_of k) (cp_threads pr) = Inr rs"
      and t': "t' = fold (upsert_row (\<lambda>r. (tw_pr r, tw_thread_key r)) (\<lambda>old new. new)) rs ?t"
    using assms by (auto simp: write_threads_def Let_def upsert_rows_Inr split: sum.splits)
  show "thread_keys t' = keys_after (complete_list pr CReviewThreads) k (thread_keys t) (map ct_threadKey (cp_threads pr))"
    unfolding t' threads.fold_upsert_keys cleared_keys keys_after_def
    using fetched_keys [OF rs thread_row_of_key, of k] by simp
  have "\<not> fst (tw_pr r, tw_thread_key r) \<noteq> k" if "r \<in> set rs" for r
    using all_or_throw_all [OF rs that] by (auto dest: thread_row_of_key)
  from threads.fold_upsert_elsewhere [of rs "\<lambda>e. fst e \<noteq> k", OF this]
  show "filter (\<lambda>r. tw_pr r \<noteq> k) t' = filter (\<lambda>r. tw_pr r \<noteq> k) t"
    unfolding t' by (simp add: cleared_elsewhere)
  show "distinct (map (\<lambda>r. (tw_pr r, tw_thread_key r)) t) \<Longrightarrow> distinct (map (\<lambda>r. (tw_pr r, tw_thread_key r)) t')"
    unfolding t' by (intro threads.fold_upsert_distinct cleared_distinct)
qed

lemma write_commits_spec:
  assumes "write_commits k pr t = Inr t'"
  shows "commit_keys t' = keys_after (complete_list pr CCommits) k (commit_keys t) (map cc_sha (cp_commits pr))"
    "filter (\<lambda>r. cw_pr r \<noteq> k) t' = filter (\<lambda>r. cw_pr r \<noteq> k) t"
    "distinct (map (\<lambda>r. (cw_pr r, cw_sha r)) t) \<Longrightarrow> distinct (map (\<lambda>r. (cw_pr r, cw_sha r)) t')"
proof -
  let ?t = "if complete_list pr CCommits then sql_delete (\<lambda>r. cw_pr r = k) t else t"
  obtain rs where rs: "all_or_throw (commit_row_of k) (cp_commits pr) = Inr rs"
      and t': "t' = fold (insert_new (\<lambda>r. (cw_pr r, cw_sha r))) rs ?t"
    using assms by (auto simp: write_commits_def Let_def split: sum.splits)
  show "commit_keys t' = keys_after (complete_list pr CCommits) k (commit_keys t) (map cc_sha (cp_commits pr))"
    unfolding t' fold_insert_new_keys cleared_keys keys_after_def
    using fetched_keys [OF rs commit_row_of_key, of k] by simp
  have e: "\<not> cw_pr r \<noteq> k" if "r \<in> set rs" for r
    using all_or_throw_all [OF rs that] by (auto dest: commit_row_of_key)
  show "filter (\<lambda>r. cw_pr r \<noteq> k) t' = filter (\<lambda>r. cw_pr r \<noteq> k) t"
    unfolding t' by (simp add: fold_insert_new_elsewhere [of rs "\<lambda>r. cw_pr r \<noteq> k", OF e] cleared_elsewhere)
  show "distinct (map (\<lambda>r. (cw_pr r, cw_sha r)) t) \<Longrightarrow> distinct (map (\<lambda>r. (cw_pr r, cw_sha r)) t')"
    unfolding t' by (intro fold_insert_new_distinct cleared_distinct)
qed

lemma write_labels_spec:
  assumes "write_labels k pr t = Inr t'"
  shows "label_keys t' = keys_after True k (label_keys t) (cp_labels pr)"
    "filter (\<lambda>r. lw_pr r \<noteq> k) t' = filter (\<lambda>r. lw_pr r \<noteq> k) t"
    "distinct (map (\<lambda>r. (lw_pr r, lw_label r)) t) \<Longrightarrow> distinct (map (\<lambda>r. (lw_pr r, lw_label r)) t')"
proof -
  obtain rs where rs: "all_or_throw (label_row_of k) (cp_labels pr) = Inr rs"
      and t': "t' = fold (insert_new (\<lambda>r. (lw_pr r, lw_label r))) rs (if True then sql_delete (\<lambda>r. lw_pr r = k) t else t)"
    using assms by (auto simp: write_labels_def Let_def split: sum.splits)
  show "label_keys t' = keys_after True k (label_keys t) (cp_labels pr)"
    unfolding t' fold_insert_new_keys cleared_keys keys_after_def
    using fetched_keys [OF rs label_row_of_key, of k] by simp
  have e: "\<not> lw_pr r \<noteq> k" if "r \<in> set rs" for r
    using all_or_throw_all [OF rs that] by (auto dest: label_row_of_key)
  show "filter (\<lambda>r. lw_pr r \<noteq> k) t' = filter (\<lambda>r. lw_pr r \<noteq> k) t"
    unfolding t' by (simp add: fold_insert_new_elsewhere [of rs "\<lambda>r. lw_pr r \<noteq> k", OF e] cleared_elsewhere [where c = True, simplified])
  show "distinct (map (\<lambda>r. (lw_pr r, lw_label r)) t) \<Longrightarrow> distinct (map (\<lambda>r. (lw_pr r, lw_label r)) t')"
    unfolding t' by (intro fold_insert_new_distinct cleared_distinct)
qed

section \<open>The rows a list leaves\<close>

text \<open>The first element of each key, which is what inserts that do nothing on a conflict leave of a list.\<close>

fun firsts :: "('a \<Rightarrow> 'k) \<Rightarrow> 'a list \<Rightarrow> 'a list" where
  "firsts f [] = []"
| "firsts f (x # xs) = x # filter (\<lambda>y. f y \<noteq> f x) (firsts f xs)"

lemma firsts_filter: "filter (\<lambda>x. P (f x)) (firsts f xs) = firsts f (filter (\<lambda>x. P (f x)) xs)"
proof (induction xs)
  case (Cons x xs)
  have "filter (\<lambda>y. P (f y)) (filter (\<lambda>y. f y \<noteq> f x) (firsts f xs)) =
      filter (\<lambda>y. f y \<noteq> f x) (filter (\<lambda>y. P (f y)) (firsts f xs))"
    by (simp add: conj_commute)
  moreover have "filter (\<lambda>y. f y \<noteq> f x \<and> P (f y)) (firsts f xs) = filter (\<lambda>y. P (f y)) (firsts f xs)" if "\<not> P (f x)"
    using that by (intro filter_cong) auto
  ultimately show ?case using Cons.IH by (auto simp: conj_commute)
qed simp

lemma fold_insert_new_firsts:
  "fold (insert_new key) rs t = t @ firsts key (filter (\<lambda>r. key r \<notin> key ` set t) rs)"
proof (induction rs arbitrary: t)
  case (Cons r rs)
  show ?case
  proof (cases "key r \<in> key ` set t")
    case True
    then have "insert_new key r t = t" by (simp add: insert_new_def sql_exists_key)
    then show ?thesis using Cons.IH [of t] True by simp
  next
    case False
    then have e: "insert_new key r t = t @ [r]" by (simp add: insert_new_def sql_exists_key)
    have "filter (\<lambda>q. key q \<noteq> key r) (firsts key (filter (\<lambda>q. key q \<notin> key ` set t) rs)) =
        firsts key (filter (\<lambda>q. key q \<notin> key ` set (t @ [r])) rs)"
      by (simp add: firsts_filter [where P = "\<lambda>k. k \<noteq> key r"] conj_commute)
    then show ?thesis using Cons.IH [of "t @ [r]"] False e by simp
  qed
qed simp

lemma firsts_map: "firsts f (map h xs) = map h (firsts (\<lambda>x. f (h x)) xs)"
  by (induction xs) (simp_all add: filter_map comp_def)

lemma set_firsts: "set (firsts f xs) \<subseteq> set xs"
  by (induction xs) auto

lemma firsts_cong: "(\<And>x y. x \<in> set xs \<Longrightarrow> y \<in> set xs \<Longrightarrow> (f x = f y) = (g x = g y)) \<Longrightarrow> firsts f xs = firsts g xs"
proof (induction xs)
  case (Cons x xs)
  have "firsts f xs = firsts g xs" using Cons by simp
  moreover have "filter (\<lambda>y. f y \<noteq> f x) (firsts g xs) = filter (\<lambda>y. g y \<noteq> g x) (firsts g xs)"
    using Cons.prems set_firsts [of g xs] by (intro filter_cong) auto
  ultimately show ?case by simp
qed simp

lemma firsts_distinct: "distinct (map f xs) \<Longrightarrow> firsts f xs = xs"
proof (induction xs)
  case (Cons x xs)
  then have "filter (\<lambda>y. f y \<noteq> f x) xs = xs" by (metis (mono_tags, lifting) distinct.simps(2) filter_True image_eqI list.simps(9) set_map)
  then show ?case using Cons by simp
qed simp

text \<open>
  The rows of a pull request after its lists were written: a list that came in full is there as it came, of each sha and
  label the first; of one that was cut short every element is there.
\<close>

definition holds_list :: "bool \<Rightarrow> 'r list \<Rightarrow> 'r list \<Rightarrow> bool" where
  "holds_list whole rs rows \<longleftrightarrow> (if whole then rows = rs else set rs \<subseteq> set rows)"

definition lists_stored :: "string \<Rightarrow> CanonicalPr \<Rightarrow> pr_db \<Rightarrow> bool" where
  "lists_stored org pr db \<longleftrightarrow>
     (let k = key_of_pr org pr in
      \<exists>rs ts cs ls. all_or_throw (review_row_of k) (cp_reviews pr) = Inr rs \<and> all_or_throw (thread_row_of k) (cp_threads pr) = Inr ts \<and>
        all_or_throw (commit_row_of k) (cp_commits pr) = Inr cs \<and> all_or_throw (label_row_of k) (cp_labels pr) = Inr ls \<and>
        holds_list (complete_list pr CReviews) rs (filter (\<lambda>r. rv_pr r = k) (pd_reviews db)) \<and>
        holds_list (complete_list pr CReviewThreads) ts (filter (\<lambda>r. tw_pr r = k) (pd_threads db)) \<and>
        (if complete_list pr CCommits then filter (\<lambda>r. cw_pr r = k) (pd_commits db) = firsts cw_sha cs
         else cw_sha ` set cs \<subseteq> cw_sha ` set (filter (\<lambda>r. cw_pr r = k) (pd_commits db))) \<and>
        filter (\<lambda>r. lw_pr r = k) (pd_labels db) = firsts lw_label ls)"

text \<open>One transaction, taken apart.\<close>

lemma save_pullE:
  assumes "save_pull org now pr db = Inr db'"
  obtains row reviews threads commits labels where
    "pull_row_of org now pr = Inr row" "pull_key row = key_of_pr org pr"
    "write_reviews (key_of_pr org pr) pr (pd_reviews db) = Inr reviews"
    "write_threads (key_of_pr org pr) pr (pd_threads db) = Inr threads"
    "write_commits (key_of_pr org pr) pr (pd_commits db) = Inr commits"
    "write_labels (key_of_pr org pr) pr (pd_labels db) = Inr labels"
    "db' = db\<lparr>pd_pulls := upsert_row pull_key pull_conflict row (pd_pulls db), pd_reviews := reviews,
       pd_threads := threads, pd_commits := commits, pd_labels := labels\<rparr>"
proof -
  obtain row where row: "pull_row_of org now pr = Inr row"
    and w: "writeChildren org pr (db\<lparr>pd_pulls := upsert_row pull_key pull_conflict row (pd_pulls db)\<rparr>) = Inr db'"
    using assms by (auto simp: save_pull_def split: sum.splits)
  show ?thesis
    using w by (auto simp: writeChildren_def Let_def split: sum.splits intro!: that [OF row pull_row_of_key [OF row]])
qed

text \<open>A complete list leaves exactly the rows that came in.\<close>

lemma replaced_rows:
  assumes "\<And>r. r \<in> set rs \<Longrightarrow> own r = k" shows "filter (\<lambda>r. own r = k) (sql_delete (\<lambda>r. own r = k) t @ rs) = rs"
  using assms by (simp add: sql_delete_def filter_id_conv filter_empty_conv)

lemma cleared_disjoint:
  "(\<And>r. r \<in> set rs \<Longrightarrow> own r = k) \<Longrightarrow>
   (\<lambda>r. (own r, sub r)) ` set rs \<inter> (\<lambda>r. (own r, sub r)) ` set (sql_delete (\<lambda>r. own r = k) t) = {}"
  by (auto simp: set_sql_delete)

lemma upserted_is_there: "r \<in> set (upsert_row key (\<lambda>old new. new) r t)"
  by (auto simp: upsert_row_def sql_exists_iff set_sql_update)

lemma upsert_other: "x \<in> set t \<Longrightarrow> key x \<noteq> key r \<Longrightarrow> x \<in> set (upsert_row key upd r t)"
  by (auto simp: upsert_row_def set_sql_update)

lemma fold_upsert_other: "x \<in> set t \<Longrightarrow> key x \<notin> key ` set rs \<Longrightarrow> x \<in> set (fold (upsert_row key upd) rs t)"
  by (induction rs arbitrary: t) (auto intro: upsert_other)

lemma fold_upsert_present:
  "distinct (map key rs) \<Longrightarrow> set rs \<subseteq> set (fold (upsert_row key (\<lambda>old new. new)) rs t)"
proof (induction rs arbitrary: t)
  case (Cons r rs)
  have "r \<in> set (fold (upsert_row key (\<lambda>old new. new)) rs (upsert_row key (\<lambda>old new. new) r t))"
    using Cons.prems by (intro fold_upsert_other upserted_is_there) auto
  then show ?case using Cons.IH [of "upsert_row key (\<lambda>old new. new) r t"] Cons.prems by simp
qed simp

text \<open>What is true of every table a list is upserted into, and of every table it is inserted into.\<close>

lemma upserted_list:
  assumes "conflict_table (\<lambda>r. (own r, sub r)) (\<lambda>old new. new)"
    "upsert_rows (\<lambda>r. (own r, sub r)) (\<lambda>old new. new) rs (if whole then sql_delete (\<lambda>r. own r = k) t else t) = Inr t'"
    "\<And>r. r \<in> set rs \<Longrightarrow> own r = k"
  shows "holds_list whole rs (filter (\<lambda>r. own r = k) t')"
proof -
  let ?t = "if whole then sql_delete (\<lambda>r. own r = k) t else t"
  have d: "distinct (map (\<lambda>r. (own r, sub r)) rs)" and t': "t' = fold (upsert_row (\<lambda>r. (own r, sub r)) (\<lambda>old new. new)) rs ?t"
    using assms(2) by (simp_all only: upsert_rows_Inr)
  show ?thesis
  proof (cases whole)
    case True
    have "t' = sql_delete (\<lambda>r. own r = k) t @ rs"
      using conflict_table.fold_upsert_new [OF assms(1) d cleared_disjoint] assms(3) True by (simp add: t')
    then show ?thesis using replaced_rows [of rs own k t] assms(3) True by (simp add: holds_list_def)
  next
    case False
    then show ?thesis using fold_upsert_present [OF d] assms(3) by (auto simp: holds_list_def t')
  qed
qed

lemma inserted_list:
  assumes "\<And>r. r \<in> set rs \<Longrightarrow> own r = k"
  shows "filter (\<lambda>r. own r = k) (fold (insert_new (\<lambda>r. (own r, sub r))) rs (sql_delete (\<lambda>r. own r = k) t)) = firsts sub rs"
proof -
  have "filter (\<lambda>r. (own r, sub r) \<notin> (\<lambda>r. (own r, sub r)) ` set (sql_delete (\<lambda>r. own r = k) t)) rs = rs"
    using assms by (auto simp: filter_id_conv set_sql_delete)
  moreover have "firsts (\<lambda>r. (own r, sub r)) rs = firsts sub rs"
    using assms by (intro firsts_cong) simp
  ultimately have "fold (insert_new (\<lambda>r. (own r, sub r))) rs (sql_delete (\<lambda>r. own r = k) t) = sql_delete (\<lambda>r. own r = k) t @ firsts sub rs"
    by (simp add: fold_insert_new_firsts)
  then show ?thesis using replaced_rows [of "firsts sub rs" own k t] assms set_firsts by (metis subsetD)
qed

lemma save_lists_stored:
  assumes "save_pull org now pr db = Inr db'" shows "lists_stored org pr db'"
  using assms
proof (cases rule: save_pullE)
  case (1 row reviews threads commits labels)
  let ?k = "key_of_pr org pr"
  obtain rs where rs: "all_or_throw (review_row_of ?k) (cp_reviews pr) = Inr rs"
      "upsert_rows (\<lambda>r. (rv_pr r, rv_review_key r)) (\<lambda>old new. new) rs
        (if complete_list pr CReviews then sql_delete (\<lambda>r. rv_pr r = ?k) (pd_reviews db) else pd_reviews db) = Inr reviews"
    using 1(3) by (auto simp: write_reviews_def Let_def split: sum.splits)
  obtain ts where ts: "all_or_throw (thread_row_of ?k) (cp_threads pr) = Inr ts"
      "upsert_rows (\<lambda>r. (tw_pr r, tw_thread_key r)) (\<lambda>old new. new) ts
        (if complete_list pr CReviewThreads then sql_delete (\<lambda>r. tw_pr r = ?k) (pd_threads db) else pd_threads db) = Inr threads"
    using 1(4) by (auto simp: write_threads_def Let_def split: sum.splits)
  obtain cs where cs: "all_or_throw (commit_row_of ?k) (cp_commits pr) = Inr cs"
      "commits = fold (insert_new (\<lambda>r. (cw_pr r, cw_sha r))) cs
        (if complete_list pr CCommits then sql_delete (\<lambda>r. cw_pr r = ?k) (pd_commits db) else pd_commits db)"
    using 1(5) by (auto simp: write_commits_def Let_def split: sum.splits)
  obtain ls where ls: "all_or_throw (label_row_of ?k) (cp_labels pr) = Inr ls"
      "labels = fold (insert_new (\<lambda>r. (lw_pr r, lw_label r))) ls (sql_delete (\<lambda>r. lw_pr r = ?k) (pd_labels db))"
    using 1(6) by (auto simp: write_labels_def Let_def split: sum.splits)
  have own: "r \<in> set rs \<Longrightarrow> rv_pr r = ?k" "th \<in> set ts \<Longrightarrow> tw_pr th = ?k" "c \<in> set cs \<Longrightarrow> cw_pr c = ?k" "l \<in> set ls \<Longrightarrow> lw_pr l = ?k"
    for r th c l
    using all_or_throw_all [OF rs(1)] all_or_throw_all [OF ts(1)] all_or_throw_all [OF cs(1)] all_or_throw_all [OF ls(1)]
      review_row_of_key thread_row_of_key commit_row_of_key label_row_of_key by blast+
  have "holds_list (complete_list pr CReviews) rs (filter (\<lambda>r. rv_pr r = ?k) reviews)"
    by (rule upserted_list [OF reviews.conflict_table_axioms rs(2) own(1)])
  moreover have "holds_list (complete_list pr CReviewThreads) ts (filter (\<lambda>r. tw_pr r = ?k) threads)"
    by (rule upserted_list [OF threads.conflict_table_axioms ts(2) own(2)])
  moreover have "cw_sha ` set cs \<subseteq> cw_sha ` set (filter (\<lambda>r. cw_pr r = ?k) commits)" if "\<not> complete_list pr CCommits"
  proof
    fix s assume "s \<in> cw_sha ` set cs"
    then have "(?k, s) \<in> (\<lambda>r. (cw_pr r, cw_sha r)) ` set cs" using own(3) by force
    then have "(?k, s) \<in> (\<lambda>r. (cw_pr r, cw_sha r)) ` set commits" using that cs(2) by (simp add: fold_insert_new_keys)
    then show "s \<in> cw_sha ` set (filter (\<lambda>r. cw_pr r = ?k) commits)" by auto
  qed
  moreover have "filter (\<lambda>r. cw_pr r = ?k) commits = firsts cw_sha cs" if "complete_list pr CCommits"
    using that inserted_list [of cs cw_pr ?k] own(3) cs(2) by simp
  moreover have "filter (\<lambda>r. lw_pr r = ?k) labels = firsts lw_label ls"
    using inserted_list [of ls lw_pr ?k] own(4) ls(2) by simp
  ultimately show ?thesis
    using rs(1) ts(1) cs(1) ls(1) unfolding lists_stored_def Let_def
    by (intro exI [of _ rs] exI [of _ ts] exI [of _ cs] exI [of _ ls]) (simp add: 1(7))
qed

end
