(* ===== verification/PrTheorems.thy ===== *)
theory PrTheorems
  imports PrFacts
begin

text \<open>
  What the pull request store promises: its tables keep the constraints they are declared with, a save touches the
  lists of its own pull request only and never shortens one it did not see in full, what was saved is what is
  read, and the state of the syncs only moves forward.
\<close>

section \<open>The constraints of the tables\<close>

text \<open>One row for each primary key, and no child of a pull request that is not there.\<close>

definition child_owners :: "pr_db \<Rightarrow> pr_key set" where
  "child_owners db =
     fst ` (review_keys (pd_reviews db) \<union> thread_keys (pd_threads db) \<union> commit_keys (pd_commits db) \<union> label_keys (pd_labels db))"

definition pr_tables_ok :: "pr_db \<Rightarrow> bool" where
  "pr_tables_ok db \<longleftrightarrow>
     distinct (map pull_key (pd_pulls db)) \<and>
     distinct (map (\<lambda>r. (rv_pr r, rv_review_key r)) (pd_reviews db)) \<and>
     distinct (map (\<lambda>r. (tw_pr r, tw_thread_key r)) (pd_threads db)) \<and>
     distinct (map (\<lambda>r. (cw_pr r, cw_sha r)) (pd_commits db)) \<and>
     distinct (map (\<lambda>r. (lw_pr r, lw_label r)) (pd_labels db)) \<and>
     distinct (map (\<lambda>r. (bc_branch r, bc_sha r)) (pd_branch_commits db)) \<and>
     distinct (map bw_branch (pd_branch_history db)) \<and> distinct (map sy_key (pd_sync db)) \<and>
     child_owners db \<subseteq> pull_key ` set (pd_pulls db)"

definition empty_pr_db :: pr_db where
  "empty_pr_db = \<lparr>pd_pulls = [], pd_reviews = [], pd_threads = [], pd_commits = [], pd_labels = [],
     pd_branch_commits = [], pd_branch_history = [], pd_sync = []\<rparr>"

lemma empty_pr_db_ok: "pr_tables_ok empty_pr_db"
  by (simp add: pr_tables_ok_def child_owners_def empty_pr_db_def)

lemma fst_keys_after: "fst ` keys_after c k K xs \<subseteq> insert k (fst ` K)"
  by (auto simp: keys_after_def)

lemma save_pull_ok:
  assumes "save_pull org now pr db = Inr db'" "pr_tables_ok db" shows "pr_tables_ok db'"
  using assms(1)
proof (cases rule: save_pullE)
  case (1 row reviews threads commits labels)
  note ok = assms(2) [unfolded pr_tables_ok_def]
  note ws = write_reviews_spec [OF 1(3)] write_threads_spec [OF 1(4)] write_commits_spec [OF 1(5)] write_labels_spec [OF 1(6)]
  have d: "distinct (map pull_key (upsert_row pull_key pull_conflict row (pd_pulls db)))"
    using assms(2) by (auto simp: pr_tables_ok_def intro: pulls.upsert_distinct)
  have own: "fst ` review_keys (pd_reviews db) \<subseteq> pull_key ` set (pd_pulls db)"
      "fst ` thread_keys (pd_threads db) \<subseteq> pull_key ` set (pd_pulls db)"
      "fst ` commit_keys (pd_commits db) \<subseteq> pull_key ` set (pd_pulls db)"
      "fst ` label_keys (pd_labels db) \<subseteq> pull_key ` set (pd_pulls db)"
    using ok by (simp_all only: child_owners_def image_Un Un_subset_iff)
  have "fst ` (review_keys reviews \<union> thread_keys threads \<union> commit_keys commits \<union> label_keys labels)
      \<subseteq> insert (key_of_pr org pr) (pull_key ` set (pd_pulls db))"
    unfolding ws(1,4,7,10) image_Un
    by (intro Un_least; rule order_trans [OF fst_keys_after insert_mono]) (rule own)+
  also have "\<dots> = pull_key ` set (upsert_row pull_key pull_conflict row (pd_pulls db))"
    by (simp add: pulls.upsert_keys 1(2))
  finally have "child_owners db' \<subseteq> pull_key ` set (pd_pulls db')" by (simp add: child_owners_def 1(7) del: image_Un)
  moreover have "distinct (map pull_key (pd_pulls db'))" using d by (simp add: 1(7))
  moreover have "distinct (map (\<lambda>r. (rv_pr r, rv_review_key r)) (pd_reviews db'))"
    using ok ws(3) by (simp add: 1(7))
  moreover have "distinct (map (\<lambda>r. (tw_pr r, tw_thread_key r)) (pd_threads db'))"
    using ok ws(6) by (simp add: 1(7))
  moreover have "distinct (map (\<lambda>r. (cw_pr r, cw_sha r)) (pd_commits db'))"
    using ok ws(9) by (simp add: 1(7))
  moreover have "distinct (map (\<lambda>r. (lw_pr r, lw_label r)) (pd_labels db'))"
    using ok ws(12) by (simp add: 1(7))
  ultimately show ?thesis using ok by (simp add: pr_tables_ok_def 1(7))
qed

lemma child_owners_other [simp]:
  "child_owners (db\<lparr>pd_sync := x\<rparr>) = child_owners db" "child_owners (db\<lparr>pd_branch_commits := y\<rparr>) = child_owners db"
  "child_owners (db\<lparr>pd_branch_history := z\<rparr>) = child_owners db"
  by (simp_all add: child_owners_def)

lemma add_branch_commits_ok: "add_branch_commits k cs db = Inr db' \<Longrightarrow> pr_tables_ok db \<Longrightarrow> pr_tables_ok db'"
  by (auto simp: add_branch_commits_def pr_tables_ok_def fold_insert_new_distinct split: sum.splits)

lemma set_branch_history_ok: "set_branch_history k now since n m db = Inr db' \<Longrightarrow> pr_tables_ok db \<Longrightarrow> pr_tables_ok db'"
  by (auto simp: set_branch_history_def pr_tables_ok_def histories.upsert_distinct
      split: option.splits if_splits)

lemma recordSync_ok:
  "recordSync org now provider repo kind watermarkAt mode rateLimit epoch db = Inr db' \<Longrightarrow> pr_tables_ok db \<Longrightarrow> pr_tables_ok db'"
  by (auto simp: recordSync_def pr_tables_ok_def syncs.upsert_distinct split: option.splits)

section \<open>What a save touches\<close>

text \<open>The keys of the rows a pull request has in a list, and that two states agree but for its rows.\<close>

definition stored_reviews :: "pr_key \<Rightarrow> pr_db \<Rightarrow> string set" where
  "stored_reviews k db = {x. (k, x) \<in> review_keys (pd_reviews db)}"

definition stored_threads :: "pr_key \<Rightarrow> pr_db \<Rightarrow> string set" where
  "stored_threads k db = {x. (k, x) \<in> thread_keys (pd_threads db)}"

definition stored_commits :: "pr_key \<Rightarrow> pr_db \<Rightarrow> string set" where
  "stored_commits k db = {x. (k, x) \<in> commit_keys (pd_commits db)}"

definition stored_labels :: "pr_key \<Rightarrow> pr_db \<Rightarrow> string set" where
  "stored_labels k db = {x. (k, x) \<in> label_keys (pd_labels db)}"

definition same_elsewhere :: "pr_key \<Rightarrow> pr_db \<Rightarrow> pr_db \<Rightarrow> bool" where
  "same_elsewhere k db db' \<longleftrightarrow>
     filter (\<lambda>r. pull_key r \<noteq> k) (pd_pulls db') = filter (\<lambda>r. pull_key r \<noteq> k) (pd_pulls db) \<and>
     filter (\<lambda>r. rv_pr r \<noteq> k) (pd_reviews db') = filter (\<lambda>r. rv_pr r \<noteq> k) (pd_reviews db) \<and>
     filter (\<lambda>r. tw_pr r \<noteq> k) (pd_threads db') = filter (\<lambda>r. tw_pr r \<noteq> k) (pd_threads db) \<and>
     filter (\<lambda>r. cw_pr r \<noteq> k) (pd_commits db') = filter (\<lambda>r. cw_pr r \<noteq> k) (pd_commits db) \<and>
     filter (\<lambda>r. lw_pr r \<noteq> k) (pd_labels db') = filter (\<lambda>r. lw_pr r \<noteq> k) (pd_labels db) \<and>
     pd_branch_commits db' = pd_branch_commits db \<and> pd_branch_history db' = pd_branch_history db \<and> pd_sync db' = pd_sync db"

lemma save_elsewhere:
  assumes "save_pull org now pr db = Inr db'" shows "same_elsewhere (key_of_pr org pr) db db'"
  using assms
proof (cases rule: save_pullE)
  case (1 row reviews threads commits labels)
  have "filter (\<lambda>r. pull_key r \<noteq> key_of_pr org pr) (pd_pulls db') = filter (\<lambda>r. pull_key r \<noteq> key_of_pr org pr) (pd_pulls db)"
    using pulls.upsert_elsewhere [of "\<lambda>q. q \<noteq> key_of_pr org pr" row "pd_pulls db"] by (simp add: 1(2,7))
  then show ?thesis
    using write_reviews_spec(2) [OF 1(3)] write_threads_spec(2) [OF 1(4)] write_commits_spec(2) [OF 1(5)] write_labels_spec(2) [OF 1(6)]
    by (simp add: same_elsewhere_def 1(7))
qed

lemma keys_after_own:
  "{x. (k, x) \<in> keys_after c k K xs} = (if c then set xs else {x. (k, x) \<in> K} \<union> set xs)"
  by (auto simp: keys_after_def)

lemma save_lists:
  assumes "save_pull org now pr db = Inr db'" "k = key_of_pr org pr"
  shows "stored_reviews k db' =
      (if CReviews \<in> set (cp_truncated pr) then stored_reviews k db else {}) \<union> cr_reviewKey ` set (cp_reviews pr)"
    "stored_threads k db' =
      (if CReviewThreads \<in> set (cp_truncated pr) then stored_threads k db else {}) \<union> ct_threadKey ` set (cp_threads pr)"
    "stored_commits k db' =
      (if CCommits \<in> set (cp_truncated pr) then stored_commits k db else {}) \<union> cc_sha ` set (cp_commits pr)"
    "stored_labels k db' = set (cp_labels pr)"
proof -
  from assms(1) obtain row reviews threads commits labels where
    e: "pull_row_of org now pr = Inr row" "pull_key row = k"
      "write_reviews k pr (pd_reviews db) = Inr reviews" "write_threads k pr (pd_threads db) = Inr threads"
      "write_commits k pr (pd_commits db) = Inr commits" "write_labels k pr (pd_labels db) = Inr labels"
      "db' = db\<lparr>pd_pulls := upsert_row pull_key pull_conflict row (pd_pulls db), pd_reviews := reviews,
         pd_threads := threads, pd_commits := commits, pd_labels := labels\<rparr>"
    unfolding assms(2) by (rule save_pullE)
  note ws = write_reviews_spec(1) [OF e(3)] write_threads_spec(1) [OF e(4)] write_commits_spec(1) [OF e(5)] write_labels_spec(1) [OF e(6)]
  show "stored_reviews k db' =
      (if CReviews \<in> set (cp_truncated pr) then stored_reviews k db else {}) \<union> cr_reviewKey ` set (cp_reviews pr)"
    by (simp add: stored_reviews_def e(7) ws(1) keys_after_own complete_list_def)
  show "stored_threads k db' =
      (if CReviewThreads \<in> set (cp_truncated pr) then stored_threads k db else {}) \<union> ct_threadKey ` set (cp_threads pr)"
    by (simp add: stored_threads_def e(7) ws(2) keys_after_own complete_list_def)
  show "stored_commits k db' =
      (if CCommits \<in> set (cp_truncated pr) then stored_commits k db else {}) \<union> cc_sha ` set (cp_commits pr)"
    by (simp add: stored_commits_def e(7) ws(3) keys_after_own complete_list_def)
  show "stored_labels k db' = set (cp_labels pr)"
    by (simp add: stored_labels_def e(7) ws(4) keys_after_own)
qed

lemma save_keeps_creation:
  assumes "save_pull org now pr db = Inr db'" "pr_tables_ok db"
    "old \<in> set (pd_pulls db)" "new \<in> set (pd_pulls db')" "pull_key old = pull_key new"
  shows "pu_created_at new = pu_created_at old"
  using assms(1)
proof (cases rule: save_pullE)
  case (1 row reviews threads commits labels)
  let ?k = "key_of_pr org pr"
  have d: "distinct (map pull_key (pd_pulls db))" using assms(2) by (simp add: pr_tables_ok_def)
  show ?thesis
  proof (cases "pull_key old = ?k")
    case True
    have "filter (\<lambda>q. pull_key q = ?k) (pd_pulls db') = [pull_conflict old row]"
      using pulls.upsert_stored [of "pd_pulls db" old row] d assms(3) True by (simp add: 1(2,7))
    moreover have "new \<in> set (filter (\<lambda>q. pull_key q = ?k) (pd_pulls db'))" using assms(4,5) True by simp
    ultimately show ?thesis by (simp add: pull_conflict_def)
  next
    case False
    then have "new \<in> set (filter (\<lambda>r. pull_key r \<noteq> ?k) (pd_pulls db'))" using assms(4,5) by simp
    then have "new \<in> set (filter (\<lambda>r. pull_key r \<noteq> ?k) (pd_pulls db))"
      using save_elsewhere [OF assms(1)] by (simp only: same_elsewhere_def)
    then have "new \<in> set (pd_pulls db)" by simp
    then show ?thesis using distinct_key_unique [OF d, of new old] assms(3,5) by simp
  qed
qed

text \<open>
  C27: Saving a pull request is safe for what is stored. The rows of every other pull request, of any
  organization, stay as they are, and so do the base branches and the syncs. Of its own lists, one that was fetched in
  full is replaced, so that what was deleted upstream goes; one that was cut short only gains: no stored review,
  thread or commit is lost to a fetch that saw fewer of them. Labels are always replaced, and the creation it was first
  stored with stays.
\<close>

theorem save_loses_nothing_unseen:
  assumes "save_pull org now pr db = Inr db'" "k = key_of_pr org pr" "pr_tables_ok db"
  shows "same_elsewhere k db db' \<and>
    stored_reviews k db' =
      (if CReviews \<in> set (cp_truncated pr) then stored_reviews k db else {}) \<union> cr_reviewKey ` set (cp_reviews pr) \<and>
    stored_threads k db' =
      (if CReviewThreads \<in> set (cp_truncated pr) then stored_threads k db else {}) \<union> ct_threadKey ` set (cp_threads pr) \<and>
    stored_commits k db' =
      (if CCommits \<in> set (cp_truncated pr) then stored_commits k db else {}) \<union> cc_sha ` set (cp_commits pr) \<and>
    stored_labels k db' = set (cp_labels pr) \<and>
    (\<forall>old \<in> set (pd_pulls db). \<forall>new \<in> set (pd_pulls db'). pull_key old = pull_key new \<longrightarrow>
       pu_created_at new = pu_created_at old)"
  using save_elsewhere [OF assms(1)] save_lists [OF assms(1,2)] save_keeps_creation [OF assms(1,3)] assms(2) by simp


definition sample_pr :: CanonicalPr where
  "sample_pr =
     \<lparr>cp_provider = GitHub, cp_repo = ''o/r'', cp_number = 7, cp_title = ''t'', cp_state = PrMerged, cp_isDraft = False,
      cp_baseRef = ''dev'', cp_headRef = ''f'', cp_createdAt = ''2026-01-05T00:00:00.000Z'',
      cp_mergedAt = Some ''2026-01-06T00:00:00.000Z'', cp_closedAt = Some ''2026-01-06T00:00:00.000Z'',
      cp_updatedAt = ''2026-01-06T00:00:00.000Z'', cp_additions = 1, cp_deletions = 0, cp_changedFiles = 1,
      cp_author = Some \<lparr>login_of = ''ann''\<rparr>, cp_commitCount = 1, cp_reviewCount = 1, cp_threadCount = 0,
      cp_issueCommentCount = 0, cp_forcePushCount = Some 0, cp_readyAt = None,
      cp_commits = [\<lparr>cc_sha = ''c1'', cc_committedAt = ''2026-01-05T00:00:00.000Z''\<rparr>],
      cp_reviews = [\<lparr>cr_reviewKey = ''r2'', cr_author = None, cr_state = RApproved, cr_providerState = ''APPROVED'',
        cr_submittedAt = None\<rparr>],
      cp_threads = [], cp_labels = [''ai''], cp_truncated = []\<rparr>"

abbreviation sample_key :: pr_key where "sample_key \<equiv> (''org'', GitHub, ''o/r'', 7)"

definition sample_db :: pr_db where
  "sample_db = empty_pr_db\<lparr>
     pd_pulls := [\<lparr>pu_org = ''org'', pu_provider = GitHub, pu_repo = ''o/r'', pu_number = 7, pu_title = ''t'', pu_state = PrOpen,
       pu_is_draft = False, pu_base_ref = ''dev'', pu_head_ref = ''f'', pu_author = None, pu_created_at = 1767571200000000,
       pu_merged_at = None, pu_closed_at = None, pu_ready_at = None, pu_additions = 1, pu_deletions = 0, pu_changed_files = 1,
       pu_commit_count = 1, pu_review_count = 1, pu_thread_count = 0, pu_issue_comment_count = 0, pu_force_push_count = None,
       pu_truncated = [], pu_updated_at = 1767571200000000, pu_fetched_at = 0\<rparr>],
     pd_reviews := [\<lparr>rv_pr = sample_key, rv_review_key = ''r1'', rv_author = None, rv_state = RCommented,
       rv_provider_state = ''COMMENTED'', rv_submitted_at = None\<rparr>]\<rparr>"

lemma sample_db_ok: "pr_tables_ok sample_db"
  by (simp add: pr_tables_ok_def child_owners_def sample_db_def empty_pr_db_def pull_key_def)

lemma sample_saves:
  "\<not> isl (save_pull ''org'' 0 (sample_pr\<lparr>cp_truncated := [CReviews]\<rparr>) sample_db)"
  "\<not> isl (save_pull ''org'' 0 sample_pr sample_db)"
  by code_simp+

theorem save_loses_nothing_unseen_witness:
  "\<exists>db'. save_pull ''org'' 0 (sample_pr\<lparr>cp_truncated := [CReviews]\<rparr>) sample_db = Inr db' \<and>
     stored_reviews sample_key db' = {''r1'', ''r2''} \<and> stored_commits sample_key db' = {''c1''}"
proof -
  obtain db' where s: "save_pull ''org'' 0 (sample_pr\<lparr>cp_truncated := [CReviews]\<rparr>) sample_db = Inr db'"
    using sample_saves(1) by (cases "save_pull ''org'' 0 (sample_pr\<lparr>cp_truncated := [CReviews]\<rparr>) sample_db") auto
  have k: "sample_key = key_of_pr ''org'' (sample_pr\<lparr>cp_truncated := [CReviews]\<rparr>)"
    by (simp add: key_of_pr_def sample_pr_def)
  have "stored_reviews sample_key sample_db = {''r1''}" by (simp add: stored_reviews_def sample_db_def)
  with save_loses_nothing_unseen [OF s k sample_db_ok] s show ?thesis
    by (intro exI [of _ db']) (simp add: sample_pr_def insert_commute)
qed

section \<open>What was saved is what is read\<close>

text \<open>
  What is stored of a pull request: every instant as \<open>toISOString\<close> prints it, the creation the first save of it gave, of
  commits of one sha and of equal labels the first, the commits by date and the labels in the order of the collation.
\<close>

definition iso_form :: "string \<Rightarrow> string" where
  "iso_form s = (case date_us s of None \<Rightarrow> s | Some us \<Rightarrow> iso_us us)"

definition review_form :: "CanonicalReview \<Rightarrow> CanonicalReview" where
  "review_form r = r\<lparr>cr_submittedAt := map_option iso_form (cr_submittedAt r)\<rparr>"

definition thread_form :: "CanonicalReviewThread \<Rightarrow> CanonicalReviewThread" where
  "thread_form r = r\<lparr>ct_firstCommentAt := map_option iso_form (ct_firstCommentAt r)\<rparr>"

definition commit_form :: "CanonicalCommit \<Rightarrow> CanonicalCommit" where
  "commit_form c = c\<lparr>cc_committedAt := iso_form (cc_committedAt c)\<rparr>"

definition commits_form :: "CanonicalCommit list \<Rightarrow> CanonicalCommit list" where
  "commits_form cs = map commit_form (sort_key (\<lambda>c. the (date_us (cc_committedAt c))) (firsts cc_sha cs))"

definition labels_form :: "(string \<Rightarrow> 'k :: linorder) \<Rightarrow> string list \<Rightarrow> string list" where
  "labels_form coll ls = sort_key coll (firsts (\<lambda>l. l) ls)"

definition pull_form :: "(string \<Rightarrow> 'k :: linorder) \<Rightarrow> int \<Rightarrow> CanonicalPr \<Rightarrow> CanonicalPr" where
  "pull_form coll created pr =
     pr\<lparr>cp_createdAt := iso_us created, cp_updatedAt := iso_form (cp_updatedAt pr),
       cp_mergedAt := map_option iso_form (cp_mergedAt pr), cp_closedAt := map_option iso_form (cp_closedAt pr),
       cp_readyAt := map_option iso_form (cp_readyAt pr), cp_reviews := map review_form (cp_reviews pr),
       cp_threads := map thread_form (cp_threads pr), cp_commits := commits_form (cp_commits pr),
       cp_labels := labels_form coll (cp_labels pr)\<rparr>"

text \<open>The creation that stays: the one stored, else the one that came.\<close>

definition first_created :: "string \<Rightarrow> CanonicalPr \<Rightarrow> pr_db \<Rightarrow> int" where
  "first_created org pr db =
     (case find (\<lambda>r. pull_key r = key_of_pr org pr) (pd_pulls db) of
        Some r \<Rightarrow> pu_created_at r | None \<Rightarrow> the (date_us (cp_createdAt pr)))"

lemma opt_form: "opt_date x = Some w \<Longrightarrow> map_option iso_us w = map_option iso_form x"
  by (auto simp: opt_date_def iso_form_def split: option.splits)

lemma actor_login [simp]: "actor_opt (login_opt a) = a"
  by (cases a) (auto simp: actor_opt_def login_opt_def)

lemma read_review_row: "review_row_of k r = Inr w \<Longrightarrow> read_review w = review_form r"
  by (auto simp: review_row_of_def read_review_def review_form_def opt_form split: option.splits if_splits)

lemma read_thread_row: "thread_row_of k r = Inr w \<Longrightarrow> read_thread w = thread_form r"
  by (auto simp: thread_row_of_def read_thread_def thread_form_def opt_form split: option.splits if_splits)

lemma commit_row_is:
  "commit_row_of k c = Inr w \<Longrightarrow> w = \<lparr>cw_pr = k, cw_sha = cc_sha c, cw_committed_at = the (date_us (cc_committedAt c))\<rparr>"
  by (auto simp: commit_row_of_def split: option.splits if_splits)

lemma read_commit_row: "commit_row_of k c = Inr w \<Longrightarrow> read_commit w = commit_form c"
  by (auto simp: commit_row_of_def read_commit_def commit_form_def iso_form_def split: option.splits if_splits)

lemma label_row_is: "label_row_of k l = Inr w \<Longrightarrow> w = \<lparr>lw_pr = k, lw_label = l\<rparr>"
  by (auto simp: label_row_of_def split: if_splits)

lemma read_commits:
  assumes "all_or_throw (commit_row_of k) cs = Inr rs"
  shows "map read_commit (sort_key cw_committed_at (firsts cw_sha rs)) = commits_form cs"
proof -
  let ?row = "\<lambda>c. \<lparr>cw_pr = k, cw_sha = cc_sha c, cw_committed_at = the (date_us (cc_committedAt c))\<rparr>"
  have "map (\<lambda>r. r) rs = map ?row cs" by (rule all_or_throw_image [OF assms]) (rule commit_row_is)
  then have rs: "rs = map ?row cs" by simp
  have reads: "read_commit (?row c) = commit_form c" if "c \<in> set cs" for c
  proof -
    obtain i where i: "i < length cs" "cs ! i = c" using \<open>c \<in> set cs\<close> by (auto simp: in_set_conv_nth)
    then have w: "commit_row_of k c = Inr (rs ! i)" using all_or_throw_map [OF assms] by auto
    show ?thesis using read_commit_row [OF w] unfolding commit_row_is [OF w] .
  qed
  show ?thesis
    unfolding rs firsts_map sort_key_map commits_form_def map_map
    by (rule map_cong) (use reads set_firsts [of cc_sha cs] in \<open>auto simp: subset_eq\<close>)
qed

lemma read_labels:
  assumes "all_or_throw (label_row_of k) ls = Inr rs"
  shows "map lw_label (sort_key (\<lambda>l. coll (lw_label l)) (firsts lw_label rs)) = labels_form coll ls"
proof -
  let ?row = "\<lambda>l. \<lparr>lw_pr = k, lw_label = l\<rparr>"
  have "map (\<lambda>r. r) rs = map ?row ls" by (rule all_or_throw_image [OF assms]) (rule label_row_is)
  then have rs: "rs = map ?row ls" by simp
  show ?thesis unfolding rs firsts_map sort_key_map labels_form_def by (simp add: comp_def)
qed

text \<open>The row written, and the one pull request of its key that is then stored.\<close>

lemma pull_row_reads:
  assumes "pull_row_of org now pr = Inr row"
  shows "iso_us (pu_updated_at row) = iso_form (cp_updatedAt pr)"
    "map_option iso_us (pu_merged_at row) = map_option iso_form (cp_mergedAt pr)"
    "map_option iso_us (pu_closed_at row) = map_option iso_form (cp_closedAt pr)"
    "map_option iso_us (pu_ready_at row) = map_option iso_form (cp_readyAt pr)"
    "pu_created_at row = the (date_us (cp_createdAt pr))"
proof -
  have "date_us (cp_createdAt pr) = Some (pu_created_at row)" "opt_date (cp_mergedAt pr) = Some (pu_merged_at row)"
      "opt_date (cp_closedAt pr) = Some (pu_closed_at row)" "opt_date (cp_readyAt pr) = Some (pu_ready_at row)"
      "date_us (cp_updatedAt pr) = Some (pu_updated_at row)"
    using assms by (auto simp: pull_row_of_def split: option.splits)
  then show "iso_us (pu_updated_at row) = iso_form (cp_updatedAt pr)"
    "map_option iso_us (pu_merged_at row) = map_option iso_form (cp_mergedAt pr)"
    "map_option iso_us (pu_closed_at row) = map_option iso_form (cp_closedAt pr)"
    "map_option iso_us (pu_ready_at row) = map_option iso_form (cp_readyAt pr)"
    "pu_created_at row = the (date_us (cp_createdAt pr))"
    by (simp_all add: opt_form iso_form_def)
qed

lemma saved_pull_row:
  assumes "distinct (map pull_key t)" "pull_key row = k"
  shows "filter (\<lambda>r. pull_key r = k) (upsert_row pull_key pull_conflict row t) =
    [row\<lparr>pu_created_at := (case find (\<lambda>r. pull_key r = k) t of Some r \<Rightarrow> pu_created_at r | None \<Rightarrow> pu_created_at row)\<rparr>]"
proof (cases "find (\<lambda>r. pull_key r = k) t")
  case (Some old)
  then have "old \<in> set t" "pull_key old = pull_key row" using assms(2) by (auto simp: find_Some_iff)
  with pulls.upsert_stored [OF assms(1) this] Some show ?thesis by (simp add: pull_conflict_def assms(2))
next
  case None
  then have no: "\<forall>r \<in> set t. pull_key r \<noteq> k" by (simp add: find_None_iff)
  then have "pull_key row \<notin> pull_key ` set t" using assms(2) by auto
  then have "upsert_row pull_key pull_conflict row t = t @ [row]" by (rule pulls.upsert_new)
  then show ?thesis using None no assms(2) by (simp add: filter_empty_conv)
qed

lemma saved_pull_reads:
  assumes "save_pull org now pr db = Inr db'" "cp_truncated pr = []" "pull_row_of org now pr = Inr row"
  shows "read_pull coll db' (row\<lparr>pu_created_at := created\<rparr>) = pull_form coll created pr"
proof -
  let ?k = "key_of_pr org pr"
  have key: "pull_key (row\<lparr>pu_created_at := created\<rparr>) = ?k"
    using pull_row_of_key [OF assms(3)] by (simp add: pull_key_def)
  have "complete_list pr x" for x using assms(2) by (simp add: complete_list_def)
  then obtain rs ts cs ls where rows:
      "all_or_throw (review_row_of ?k) (cp_reviews pr) = Inr rs" "all_or_throw (thread_row_of ?k) (cp_threads pr) = Inr ts"
      "all_or_throw (commit_row_of ?k) (cp_commits pr) = Inr cs" "all_or_throw (label_row_of ?k) (cp_labels pr) = Inr ls"
      "filter (\<lambda>r. rv_pr r = ?k) (pd_reviews db') = rs" "filter (\<lambda>r. tw_pr r = ?k) (pd_threads db') = ts"
      "filter (\<lambda>r. cw_pr r = ?k) (pd_commits db') = firsts cw_sha cs" "filter (\<lambda>r. lw_pr r = ?k) (pd_labels db') = firsts lw_label ls"
    using save_lists_stored [OF assms(1)] unfolding lists_stored_def Let_def holds_list_def by auto
  have lists: "map read_review rs = map review_form (cp_reviews pr)" "map read_thread ts = map thread_form (cp_threads pr)"
    using all_or_throw_image [OF rows(1) read_review_row] all_or_throw_image [OF rows(2) read_thread_row] by simp_all
  have fields: "pu_provider row = cp_provider pr" "pu_repo row = cp_repo pr" "pu_number row = cp_number pr" "pu_title row = cp_title pr"
    "pu_state row = cp_state pr" "pu_is_draft row = cp_isDraft pr" "pu_base_ref row = cp_baseRef pr" "pu_head_ref row = cp_headRef pr"
    "pu_author row = login_opt (cp_author pr)" "pu_additions row = cp_additions pr" "pu_deletions row = cp_deletions pr"
    "pu_changed_files row = cp_changedFiles pr" "pu_commit_count row = cp_commitCount pr" "pu_review_count row = cp_reviewCount pr"
    "pu_thread_count row = cp_threadCount pr" "pu_issue_comment_count row = cp_issueCommentCount pr"
    "pu_force_push_count row = cp_forcePushCount pr" "pu_truncated row = cp_truncated pr"
    using assms(3) by (auto simp: pull_row_of_def split: option.splits)
  show ?thesis
    by (rule CanonicalPr.equality)
      (simp_all add: read_pull_def Let_def key rows(5-8) lists read_commits [OF rows(3)] read_labels [OF rows(4)] fields
        pull_row_reads(1-4) [OF assms(3)] pull_form_def)
qed

text \<open>A pull request whose rows are the same is read the same.\<close>

lemma filter_other_key:
  assumes "filter (\<lambda>r. own r \<noteq> k) t' = filter (\<lambda>r. own r \<noteq> k) t" "q \<noteq> k"
  shows "filter (\<lambda>r. own r = q) t' = filter (\<lambda>r. own r = q) t"
proof -
  have e: "filter (\<lambda>r. own r = q) u = filter (\<lambda>r. own r = q) (filter (\<lambda>r. own r \<noteq> k) u)" for u
    using assms(2) by (auto intro: filter_cong)
  show ?thesis unfolding e [of t'] e [of t] assms(1) ..
qed

lemma read_other_pull:
  assumes "same_elsewhere k db db'" "pull_key r \<noteq> k" shows "read_pull coll db' r = read_pull coll db r"
proof -
  have f: "filter (\<lambda>c. rv_pr c = pull_key r) (pd_reviews db') = filter (\<lambda>c. rv_pr c = pull_key r) (pd_reviews db)"
    "filter (\<lambda>c. tw_pr c = pull_key r) (pd_threads db') = filter (\<lambda>c. tw_pr c = pull_key r) (pd_threads db)"
    "filter (\<lambda>c. cw_pr c = pull_key r) (pd_commits db') = filter (\<lambda>c. cw_pr c = pull_key r) (pd_commits db)"
    "filter (\<lambda>c. lw_pr c = pull_key r) (pd_labels db') = filter (\<lambda>c. lw_pr c = pull_key r) (pd_labels db)"
    using assms(1) unfolding same_elsewhere_def by (metis filter_other_key [OF _ assms(2)])+
  show ?thesis by (simp only: read_pull_def Let_def f)
qed

abbreviation pull_order :: "(string \<Rightarrow> 'k :: linorder) \<Rightarrow> pull_row \<Rightarrow> int \<times> 'k \<times> int" where
  "pull_order coll r \<equiv> (- pu_created_at r, coll (pu_repo r), - pu_number r)"

lemma load_filter:
  "filter (\<lambda>p. P (cp_repo p, cp_number p)) (loadPullRequests coll org provider repos db) =
   map (read_pull coll db) (sort_key (pull_order coll)
     (filter (\<lambda>r. scoped org provider repos r \<and> P (pu_repo r, pu_number r)) (pd_pulls db)))"
proof -
  have "(\<lambda>p. P (cp_repo p, cp_number p)) \<circ> read_pull coll db = (\<lambda>r. P (pu_repo r, pu_number r))"
    by (auto simp: read_pull_def Let_def)
  then show ?thesis by (simp add: loadPullRequests_def filter_map filter_sort conj_commute)
qed


text \<open>
  C28: What was saved is what is read. A pull request whose lists arrived in full is read back, once, as it was saved, its
  instants in the form of \<open>toISOString\<close> (GitHub's have no milliseconds), its commits by date and each sha once,
  its labels in the order of the collation and each once, and with the creation it was first stored with; and
  every other pull request reads as before.
\<close>

theorem saved_pull_is_read_back:
  assumes "save_pull org now pr db = Inr db'" "pr_tables_ok db" "cp_truncated pr = []" "cp_repo pr \<in> set repos"
    "mine = (\<lambda>p. (cp_repo p, cp_number p) = (cp_repo pr, cp_number pr))"
  shows "filter mine (loadPullRequests coll org (cp_provider pr) repos db') = [pull_form coll (first_created org pr db) pr] \<and>
    filter (\<lambda>p. \<not> mine p) (loadPullRequests coll org (cp_provider pr) repos db') =
    filter (\<lambda>p. \<not> mine p) (loadPullRequests coll org (cp_provider pr) repos db)"
  using assms(1)
proof (cases rule: save_pullE)
  case (1 row reviews threads commits labels)
  let ?k = "key_of_pr org pr" and ?p = "cp_provider pr" and ?i = "(cp_repo pr, cp_number pr)"
    and ?row = "row\<lparr>pu_created_at := first_created org pr db\<rparr>"
  have mine_key: "scoped org ?p repos r \<and> (pu_repo r, pu_number r) = ?i \<longleftrightarrow> pull_key r = ?k" for r
    using assms(4) by (auto simp: scoped_def pull_key_def key_of_pr_def)
  have d: "distinct (map pull_key (pd_pulls db))" using assms(2) by (simp add: pr_tables_ok_def)
  have "filter (\<lambda>r. pull_key r = ?k) (pd_pulls db') = [?row]"
    using saved_pull_row [OF d 1(2)] unfolding first_created_def pull_row_reads(5) [OF 1(1), symmetric] by (simp add: 1(7))
  then have "filter (\<lambda>r. scoped org ?p repos r \<and> (pu_repo r, pu_number r) = ?i) (pd_pulls db') = [?row]"
    by (simp only: mine_key)
  then have one: "filter mine (loadPullRequests coll org ?p repos db') = [pull_form coll (first_created org pr db) pr]"
    unfolding assms(5) load_filter [of "\<lambda>i. i = ?i"] by (simp add: saved_pull_reads [OF assms(1,3) 1(1)])
  have same: "same_elsewhere ?k db db'" by (rule save_elsewhere [OF assms(1)])
  let ?other = "\<lambda>r. scoped org ?p repos r \<and> (pu_repo r, pu_number r) \<noteq> ?i"
  have other: "pull_key r \<noteq> ?k" if "?other r" for r using that mine_key by blast
  have sub: "filter ?other u = filter ?other (filter (\<lambda>r. pull_key r \<noteq> ?k) u)" for u
    using other by (auto intro: filter_cong)
  have "filter ?other (pd_pulls db') = filter ?other (pd_pulls db)"
    using same by (subst (1 2) sub) (simp add: same_elsewhere_def)
  then have "filter (\<lambda>p. \<not> mine p) (loadPullRequests coll org ?p repos db') =
      map (read_pull coll db') (sort_key (pull_order coll) (filter ?other (pd_pulls db)))"
    unfolding assms(5) load_filter [of "\<lambda>i. i \<noteq> ?i"] by simp
  also have "\<dots> = map (read_pull coll db) (sort_key (pull_order coll) (filter ?other (pd_pulls db)))"
    using read_other_pull [OF same] other by auto
  also have "\<dots> = filter (\<lambda>p. \<not> mine p) (loadPullRequests coll org ?p repos db)"
    unfolding assms(5) load_filter [of "\<lambda>i. i \<noteq> ?i"] ..
  finally show ?thesis using one by simp
qed


text \<open>A pull request as GitHub sends it, without milliseconds and with the newest label first.\<close>

definition sample_github_pr :: CanonicalPr where
  "sample_github_pr = sample_pr\<lparr>cp_createdAt := ''2026-01-05T00:00:00Z'', cp_updatedAt := ''2026-01-06T00:00:00Z'',
     cp_mergedAt := Some ''2026-01-06T00:00:00Z'', cp_closedAt := Some ''2026-01-06T00:00:00Z'',
     cp_commits := [\<lparr>cc_sha = ''c1'', cc_committedAt = ''2026-01-05T00:00:00Z''\<rparr>], cp_labels := [''bug'', ''ai'']\<rparr>"

lemma sample_github_form:
  "pull_form (\<lambda>s. s) (first_created ''org'' sample_github_pr sample_db) sample_github_pr = sample_pr\<lparr>cp_labels := [''ai'', ''bug'']\<rparr>"
  "\<not> isl (save_pull ''org'' 0 sample_github_pr sample_db)"
  by code_simp+

theorem saved_pull_is_read_back_witness:
  "\<exists>db'. save_pull ''org'' 0 sample_github_pr sample_db = Inr db' \<and>
     loadPullRequests (\<lambda>s. s) ''org'' GitHub [''o/r''] db' = [sample_pr\<lparr>cp_labels := [''ai'', ''bug'']\<rparr>]"
proof -
  let ?pr = "sample_github_pr"
  obtain db' where s: "save_pull ''org'' 0 ?pr sample_db = Inr db'"
    using sample_github_form(2) by (cases "save_pull ''org'' 0 ?pr sample_db") auto
  have p: "cp_truncated ?pr = []" "cp_repo ?pr \<in> set [''o/r'']" "cp_provider ?pr = GitHub" "cp_repo ?pr = ''o/r''" "cp_number ?pr = 7"
    by (simp_all add: sample_github_pr_def sample_pr_def)
  note r = saved_pull_is_read_back [OF s sample_db_ok p(1,2) refl, where coll = "\<lambda>s. s"]
  have other: "filter (\<lambda>p. (cp_repo p, cp_number p) \<noteq> (cp_repo ?pr, cp_number ?pr))
      (loadPullRequests (\<lambda>s. s) ''org'' GitHub [''o/r''] sample_db) = []"
    unfolding load_filter [of "\<lambda>i. i \<noteq> (cp_repo ?pr, cp_number ?pr)"] by (simp add: sample_db_def p)
  let ?l = "loadPullRequests (\<lambda>s. s) ''org'' GitHub [''o/r''] db'"
    and ?m = "\<lambda>p. (cp_repo p, cp_number p) = (cp_repo ?pr, cp_number ?pr)"
  have "filter ?m ?l = [sample_pr\<lparr>cp_labels := [''ai'', ''bug'']\<rparr>]" "filter (\<lambda>p. \<not> ?m p) ?l = []"
    using r other sample_github_form(1) unfolding p(3) by simp_all
  then have "filter ?m ?l = ?l" by (auto simp: filter_id_conv filter_empty_conv)
  with \<open>filter ?m ?l = [sample_pr\<lparr>cp_labels := [''ai'', ''bug'']\<rparr>]\<close> s show ?thesis by auto
qed

end
