(* ===== verification/StatsFacts.thy ===== *)
theory StatsFacts
  imports StatsPage PrTheorems
begin

text \<open>
  The states the statistics service reaches, and facts about its steps: a slot is pending exactly while somebody will
  settle it, whoever waits for the repository list is woken, a sync has at most nine answers to wait for, and the last
  figures stay.
\<close>

section \<open>Well-formed states\<close>

definition svc_ok :: "stats_service \<Rightarrow> bool" where
  "svc_ok w \<longleftrightarrow>
     (sl_pending (sx_cache w) \<longleftrightarrow> sx_produce w \<noteq> None) \<and>
     (sl_pending (sx_telemetry w) \<longleftrightarrow> sx_reading w \<noteq> None) \<and>
     (sx_produce w = Some AtRepos \<or> sx_reading w = Some ReadAtRepos \<or> sx_priming w = Some PrimeAtRepos \<longrightarrow>
        sl_pending (so_slot (sx_repos w))) \<and>
     (sx_produce w \<noteq> None \<longrightarrow> ft_state (sx_fetchState w) = FtLoading) \<and>
     (ft_state (sx_fetchState w) = FtError \<longrightarrow> sx_lastFailureAt w \<noteq> None \<and> ft_error (sx_fetchState w) \<noteq> None) \<and>
     pr_tables_ok (sx_db w)"

lemma createStatsService_ok: "pr_tables_ok db \<Longrightarrow> svc_ok (createStatsService db)"
  by (simp add: svc_ok_def createStatsService_def new_slot_def idleState_def)

lemma slot_simps [simp]:
  "sl_pending (fst (slot_refresh c))" "sl_entry (fst (slot_refresh c)) = sl_entry c"
  "\<not> sl_pending (slot_produced now r c)" "sl_entry (slot_produced now None c) = sl_entry c"
  "sl_entry (slot_produced now (Some v) c) = Some (v, now)"
  "sl_pending (fst (slot_seed v t c)) = sl_pending c" "sl_entry c \<noteq> None \<Longrightarrow> fst (slot_seed v t c) = c"
  by (auto simp: slot_refresh_def slot_produced_def slot_seed_def split: option.split)

lemma list_begin_pending:
  "snd (list_begin now s) \<Longrightarrow> sl_pending (so_slot (fst (list_begin now s)))"
  "sl_pending (so_slot s) \<Longrightarrow> sl_pending (so_slot (fst (list_begin now s)))"
  by (auto simp: list_begin_def)

lemma list_begin_keeps [simp]:
  "snapshot (fst (list_begin now s)) = snapshot s" "so_error (fst (list_begin now s)) = so_error s"
  by (auto simp: list_begin_def snapshot_def)

text \<open>A store that is reached or not changes what is said of it, and nothing else.\<close>

lemma tryStore_fields [simp]:
  "sx_fetchState (snd (tryStore what r w)) = sx_fetchState w" "sx_lastFailureAt (snd (tryStore what r w)) = sx_lastFailureAt w"
  "sx_telemetryFailure (snd (tryStore what r w)) = sx_telemetryFailure w" "sx_cache (snd (tryStore what r w)) = sx_cache w"
  "sx_telemetry (snd (tryStore what r w)) = sx_telemetry w" "sx_produce (snd (tryStore what r w)) = sx_produce w"
  "sx_reading (snd (tryStore what r w)) = sx_reading w" "sx_priming (snd (tryStore what r w)) = sx_priming w"
  "sx_repos (snd (tryStore what r w)) = sx_repos w" "sx_db (snd (tryStore what r w)) = sx_db w"
  by (auto simp: tryStore_def split: sum.split)

lemma tryStore_ok [simp]: "svc_ok (snd (tryStore what r w)) \<longleftrightarrow> svc_ok w"
  by (simp add: svc_ok_def)

lemma produce_failed_ok: "svc_ok w \<Longrightarrow> svc_ok (produce_failed now e w)"
  by (auto simp: svc_ok_def produce_failed_def)

lemma produce_listed_ok: "svc_ok (w\<lparr>sx_produce := Some AtRepos\<rparr>) \<or> svc_ok w \<and> sx_produce w \<noteq> None \<Longrightarrow> svc_ok (produce_listed now w)"
  by (auto simp: svc_ok_def produce_listed_def)

lemma start_ok:
  assumes "svc_ok w" shows "svc_ok (start now w)"
proof -
  obtain src wait where l: "list_begin now (sx_repos w) = (src, wait)" by force
  have p: "wait \<Longrightarrow> sl_pending (so_slot src)" "sl_pending (so_slot (sx_repos w)) \<Longrightarrow> sl_pending (so_slot src)"
    using list_begin_pending(1) [of now "sx_repos w"] list_begin_pending(2) [of "sx_repos w" now] l by auto
  show ?thesis
    using assms p by (cases wait) (simp_all add: start_def l Let_def svc_ok_def produce_listed_def idleState_def)
qed

lemma startTelemetry_ok:
  assumes "svc_ok w" shows "svc_ok (startTelemetry now w)"
proof -
  obtain src wait where l: "list_begin now (sx_repos w) = (src, wait)" by force
  have p: "wait \<Longrightarrow> sl_pending (so_slot src)" "sl_pending (so_slot (sx_repos w)) \<Longrightarrow> sl_pending (so_slot src)"
    using list_begin_pending(1) [of now "sx_repos w"] list_begin_pending(2) [of "sx_repos w" now] l by auto
  show ?thesis using assms p by (cases wait) (simp_all add: startTelemetry_def l Let_def svc_ok_def)
qed

lemma prime_ok:
  assumes "svc_ok w" shows "svc_ok (prime now w)"
proof -
  obtain src wait where l: "list_begin now (sx_repos w) = (src, wait)" by force
  have p: "wait \<Longrightarrow> sl_pending (so_slot src)" "sl_pending (so_slot (sx_repos w)) \<Longrightarrow> sl_pending (so_slot src)"
    using list_begin_pending(1) [of now "sx_repos w"] list_begin_pending(2) [of "sx_repos w" now] l by auto
  show ?thesis using assms p by (cases wait) (simp_all add: prime_def l Let_def svc_ok_def)
qed

lemma ensureFresh_ok: "svc_ok w \<Longrightarrow> svc_ok (ensureFresh config now w)"
  by (simp add: ensureFresh_def Let_def start_ok startTelemetry_ok)

lemma refresh_ok: "svc_ok w \<Longrightarrow> svc_ok (refresh config now w)"
  by (simp add: refresh_def Let_def start_ok startTelemetry_ok)

lemma produce_done_ok: "svc_ok w \<Longrightarrow> svc_ok (produce_done coll config now mode rl all out w)"
  by (auto simp: produce_done_def Let_def svc_ok_def produce_failed_def split: option.split)

text \<open>Going on to another point.\<close>

lemma move_ok: "svc_ok w \<Longrightarrow> sx_produce w \<noteq> None \<Longrightarrow> p \<noteq> AtRepos \<Longrightarrow> svc_ok (w\<lparr>sx_produce := Some p\<rparr>)"
  by (simp add: svc_ok_def)

lemma got_sync_state_ok: "svc_ok w \<Longrightarrow> sx_produce w \<noteq> None \<Longrightarrow> svc_ok (got_sync_state config down prev w)"
  by (auto simp: got_sync_state_def Let_def split_beta intro!: move_ok)

lemma got_open_prs_ok: "svc_ok w \<Longrightarrow> sx_produce w \<noteq> None \<Longrightarrow> svc_ok (got_open_prs config now down prev st w)"
  by (auto simp: got_open_prs_def Let_def split_beta svc_ok_def produce_failed_def split: option.split)

lemma got_pull_requests_ok: "svc_ok w \<Longrightarrow> sx_produce w \<noteq> None \<Longrightarrow> svc_ok (got_pull_requests now r prev mode w)"
  by (auto simp: got_pull_requests_def intro: produce_failed_ok move_ok split: sum.split)

lemma pull_statements_ok:
  "st \<in> set (pull_statements config dbnow names mode res) \<Longrightarrow> st a = Inr b \<Longrightarrow> pr_tables_ok a \<Longrightarrow> pr_tables_ok b"
  by (auto simp: pull_statements_def savePullRequests_def intro: save_pull_ok recordSync_ok)

lemma saveBranchHistory_ok:
  "st \<in> set (saveBranchHistory org now provider repo branch since n m cs) \<Longrightarrow> st a = Inr b \<Longrightarrow> pr_tables_ok a \<Longrightarrow> pr_tables_ok b"
  by (auto simp: saveBranchHistory_def Let_def intro: add_branch_commits_ok set_branch_history_ok split: if_splits)

lemma history_statements_ok:
  "st \<in> set (history_statements config dbnow hs) \<Longrightarrow> st a = Inr b \<Longrightarrow> pr_tables_ok a \<Longrightarrow> pr_tables_ok b"
  unfolding history_statements_def set_concat set_map by (blast intro: saveBranchHistory_ok)

lemma wrote_pull_requests_ok:
  assumes "svc_ok w" "sx_produce w \<noteq> None" shows "svc_ok (wrote_pull_requests config dbnow flt prev mode res w)"
proof -
  have "pr_tables_ok (sx_db w)" using assms(1) by (simp add: svc_ok_def)
  then have "pr_tables_ok (snd (run_statements flt (pull_statements config dbnow (repoNames w) mode res) (sx_db w)))"
    by (rule run_statements_induct [where P = pr_tables_ok, rotated]) (rule pull_statements_ok)
  then show ?thesis using assms by (simp add: wrote_pull_requests_def Let_def split_beta svc_ok_def)
qed

lemma wrote_history_ok:
  assumes "svc_ok w" "sx_produce w \<noteq> None" shows "svc_ok (wrote_history config dbnow flt prev mode rl all earliest hs w)"
proof -
  have "pr_tables_ok (sx_db w)" using assms(1) by (simp add: svc_ok_def)
  then have "pr_tables_ok (snd (run_statements flt (history_statements config dbnow hs) (sx_db w)))"
    by (rule run_statements_induct [where P = pr_tables_ok, rotated]) (rule history_statements_ok)
  then show ?thesis using assms by (simp add: wrote_history_def Let_def split_beta svc_ok_def)
qed

lemma read_pull_requests_ok:
  "svc_ok w \<Longrightarrow> sx_produce w \<noteq> None \<Longrightarrow> svc_ok (read_pull_requests coll config now down prev mode res w)"
  by (auto simp: read_pull_requests_def Let_def split_beta intro!: move_ok produce_done_ok produce_failed_ok split: option.split)

lemma got_histories_ok:
  "svc_ok w \<Longrightarrow> sx_produce w \<noteq> None \<Longrightarrow> svc_ok (got_histories coll config now r prev mode rl all earliest w)"
  by (auto simp: got_histories_def intro!: move_ok produce_done_ok split: sum.split)

lemma read_history_ok: "svc_ok w \<Longrightarrow> svc_ok (read_history coll config now down mode rl all earliest hs w)"
  by (simp add: read_history_def Let_def split_beta produce_done_ok)

lemma got_rollups_ok: "svc_ok w \<Longrightarrow> svc_ok (got_rollups now r w)"
  by (auto simp: svc_ok_def got_rollups_def split: sum.split)

lemma primed_ok: "svc_ok w \<Longrightarrow> svc_ok (primed coll config down w)"
  by (auto simp: primed_def Let_def split_beta svc_ok_def split: option.split)

lemma repos_settled_ok: "svc_ok w \<Longrightarrow> svc_ok (repos_settled now a w)"
  by (auto simp: repos_settled_def Let_def svc_ok_def produce_listed_def)

lemma onProgress_state [simp]: "ft_state (onProgress p ft) = ft_state ft" "ft_error (onProgress p ft) = ft_error ft"
  by (simp_all add: onProgress_def)

lemma svc_step_ok: "svc_ok w \<Longrightarrow> svc_ok (svc_step coll config now ev w)"
proof (cases ev)
  case (EvProgress p)
  then show "svc_ok w \<Longrightarrow> ?thesis"
    by (auto simp: svc_step_def svc_ok_def split: option.split produce_point.split)
next
  case EvDetail
  then show "svc_ok w \<Longrightarrow> ?thesis" by (auto simp: svc_step_def svc_ok_def list_begin_pending)
qed (auto simp: svc_step_def ensureFresh_ok refresh_ok prime_ok repos_settled_ok got_sync_state_ok got_open_prs_ok
    got_pull_requests_ok wrote_pull_requests_ok wrote_history_ok read_pull_requests_ok got_histories_ok read_history_ok
    got_rollups_ok primed_ok split: option.split produce_point.split)

lemma svc_run_ok: "svc_ok w \<Longrightarrow> svc_ok (svc_run coll config evs w)"
  by (induction coll config evs w rule: svc_run.induct) (auto intro: svc_step_ok)


section \<open>A sync comes to its end\<close>

fun rank :: "produce_point \<Rightarrow> nat" where
  "rank AtRepos = 9"
| "rank (AtSyncState _) = 8"
| "rank (AtOpenPrs _ _) = 7"
| "rank (AtFetch _ _ _) = 6"
| "rank (AtWrite _ _ _) = 5"
| "rank (AtRead _ _ _) = 4"
| "rank (AtHistories _ _ _ _ _ _) = 3"
| "rank (AtWriteHistory _ _ _ _ _ _) = 2"
| "rank (AtReadHistory _ _ _ _ _ _) = 1"

text \<open>The event a point waits for.\<close>

fun awaits :: "produce_point \<Rightarrow> svc_event \<Rightarrow> bool" where
  "awaits AtRepos ev = (case ev of EvRepos a \<Rightarrow> True | _ \<Rightarrow> False)"
| "awaits (AtSyncState _) ev = (case ev of EvRead down \<Rightarrow> True | _ \<Rightarrow> False)"
| "awaits (AtOpenPrs _ _) ev = (case ev of EvRead down \<Rightarrow> True | _ \<Rightarrow> False)"
| "awaits (AtFetch _ _ _) ev = (case ev of EvPullRequests r \<Rightarrow> True | _ \<Rightarrow> False)"
| "awaits (AtWrite _ _ _) ev = (case ev of EvWrite flt dbnow \<Rightarrow> True | _ \<Rightarrow> False)"
| "awaits (AtRead _ _ _) ev = (case ev of EvRead down \<Rightarrow> True | _ \<Rightarrow> False)"
| "awaits (AtHistories _ _ _ _ _ _) ev = (case ev of EvHistories r \<Rightarrow> True | _ \<Rightarrow> False)"
| "awaits (AtWriteHistory _ _ _ _ _ _) ev = (case ev of EvWrite flt dbnow \<Rightarrow> True | _ \<Rightarrow> False)"
| "awaits (AtReadHistory _ _ _ _ _ _) ev = (case ev of EvRead down \<Rightarrow> True | _ \<Rightarrow> False)"

definition closer :: "produce_point \<Rightarrow> produce_point option \<Rightarrow> bool" where
  "closer p q \<longleftrightarrow> (case q of None \<Rightarrow> True | Some r \<Rightarrow> rank r < rank p)"

lemma produce_done_ends [simp]: "sx_produce (produce_done coll config now mode rl all out w) = None"
  by (simp add: produce_done_def Let_def produce_failed_def split: option.split)

lemma produce_failed_ends [simp]: "sx_produce (produce_failed now e w) = None"
  by (simp add: produce_failed_def)

lemma start_when_pending: "sl_pending (sx_cache w) \<Longrightarrow> ensureFresh config now w = (if telemetry_due config now w then startTelemetry now w else w)"
  by (simp add: ensureFresh_def Let_def sync_due_def startTelemetry_def split_beta)

lemma startTelemetry_produce [simp]:
  "sx_produce (startTelemetry now w) = sx_produce w" "sx_cache (startTelemetry now w) = sx_cache w"
  "sx_lastFailureAt (startTelemetry now w) = sx_lastFailureAt w" "sx_fetchState (startTelemetry now w) = sx_fetchState w"
  "sx_priming (startTelemetry now w) = sx_priming w" "sx_persistence (startTelemetry now w) = sx_persistence w"
  "snapshot (sx_repos (startTelemetry now w)) = snapshot (sx_repos w)"
  by (simp_all add: startTelemetry_def split_beta)

lemma prime_produce [simp]:
  "sx_produce (prime now w) = sx_produce w" "sx_cache (prime now w) = sx_cache w" "sx_lastFailureAt (prime now w) = sx_lastFailureAt w"
  by (simp_all add: prime_def split_beta)

lemma got_rollups_produce [simp]:
  "sx_produce (got_rollups now r w) = sx_produce w" "sx_cache (got_rollups now r w) = sx_cache w"
  "sx_lastFailureAt (got_rollups now r w) = sx_lastFailureAt w"
  by (simp_all add: got_rollups_def split: sum.split)

lemma primed_produce [simp]:
  "sx_produce (primed coll config down w) = sx_produce w" "sx_lastFailureAt (primed coll config down w) = sx_lastFailureAt w"
  by (auto simp: primed_def Let_def split_beta split: option.split)

lemma repos_settled_produce:
  "sx_produce (repos_settled now a w) = (if sx_produce w = Some AtRepos
     then (if snapshot (list_answered now a (sx_repos w)) = [] \<and> truthy (so_error (list_answered now a (sx_repos w))) then None
           else Some (AtSyncState (map_option fst (sl_entry (sx_cache w)))))
     else sx_produce w)"
  by (simp add: repos_settled_def Let_def produce_listed_def)

lemma sync_step:
  assumes "svc_ok w" "sx_produce w = Some p"
  shows "if awaits p ev then closer p (sx_produce (svc_step coll config now ev w))
    else sx_produce (svc_step coll config now ev w) = Some p"
proof (cases ev)
  case EvEnsureFresh
  have "sl_pending (sx_cache w)" using assms by (simp add: svc_ok_def)
  then show ?thesis using assms(2) by (cases p) (simp_all add: EvEnsureFresh svc_step_def start_when_pending)
next
  case EvRefresh
  have "sl_pending (sx_cache w)" using assms by (simp add: svc_ok_def)
  then show ?thesis using assms(2) by (cases p) (simp_all add: EvRefresh svc_step_def refresh_def Let_def)
next
  case (EvRepos a)
  then show ?thesis
    using assms by (cases p) (simp_all add: svc_step_def repos_settled_produce closer_def svc_ok_def)
next
  case (EvRead down)
  then show ?thesis
    using assms(2) by (cases p)
      (simp_all add: svc_step_def closer_def got_sync_state_def got_open_prs_def read_pull_requests_def read_history_def
        Let_def split_beta split: option.split)
next
  case (EvWrite flt dbnow)
  then show ?thesis
    using assms(2) by (cases p) (simp_all add: svc_step_def closer_def wrote_pull_requests_def wrote_history_def Let_def split_beta)
next
  case (EvPullRequests r)
  then show ?thesis
    using assms(2) by (cases p) (simp_all add: svc_step_def closer_def got_pull_requests_def split: sum.split)
next
  case (EvHistories r)
  then show ?thesis
    using assms(2) by (cases p) (simp_all add: svc_step_def closer_def got_histories_def split: sum.split)
qed (use assms(2) in \<open>cases p; simp add: svc_step_def\<close>)+

text \<open>How many of the events are answers the sync in flight waits for, until it ends.\<close>

fun answers_got :: "(string \<Rightarrow> 'k :: linorder) \<Rightarrow> AppConfig \<Rightarrow> (int \<times> svc_event) list \<Rightarrow> stats_service \<Rightarrow> nat" where
  "answers_got coll config [] w = 0"
| "answers_got coll config ((now, ev) # evs) w =
     (case sx_produce w of None \<Rightarrow> 0
      | Some p \<Rightarrow> (if awaits p ev then 1 else 0) + answers_got coll config evs (svc_step coll config now ev w))"

lemma sync_ends:
  "svc_ok w \<Longrightarrow> sx_produce w = Some p \<Longrightarrow> rank p \<le> answers_got coll config evs w \<Longrightarrow>
   \<exists>k \<le> length evs. sx_produce (svc_run coll config (take k evs) w) = None"
proof (induction coll config evs w arbitrary: p rule: answers_got.induct)
  case (1 coll config w)
  then show ?case by (cases p) auto
next
  case (2 coll config now ev evs w)
  let ?w = "svc_step coll config now ev w"
  have ok: "svc_ok ?w" using 2(2) by (rule svc_step_ok)
  note s = sync_step [OF 2(2,3), of ev coll config now]
  show ?case
  proof (cases "sx_produce ?w")
    case None
    then show ?thesis by (intro exI [of _ 1]) simp
  next
    case (Some q)
    have "rank q \<le> answers_got coll config evs ?w"
      using s Some 2(3,4) by (cases "awaits p ev") (simp_all add: closer_def)
    from 2(1) [OF 2(3) ok Some this] obtain k where "k \<le> length evs" "sx_produce (svc_run coll config (take k evs) ?w) = None"
      by blast
    then show ?thesis by (intro exI [of _ "Suc k"]) simp
  qed
qed

section \<open>The last figures stay\<close>

definition entry_kept :: "int \<Rightarrow> stats_service \<Rightarrow> stats_service \<Rightarrow> bool" where
  "entry_kept now w w' \<longleftrightarrow> sl_entry (sx_cache w') = sl_entry (sx_cache w) \<or>
     (\<exists>s. sl_entry (sx_cache w') = Some (s, now) \<and> sx_produce w \<noteq> None \<and> sx_produce w' = None \<and>
        ft_state (sx_fetchState w') = FtIdle \<and> sx_lastFailureAt w' = None)"

lemma entry_keptI: "sl_entry (sx_cache w') = sl_entry (sx_cache w) \<Longrightarrow> entry_kept now w w'"
  by (simp add: entry_kept_def)

lemma produce_failed_entry [simp]: "sl_entry (sx_cache (produce_failed now e w)) = sl_entry (sx_cache w)"
  by (simp add: produce_failed_def)

lemma produce_done_entry:
  "sx_produce w \<noteq> None \<Longrightarrow> sl_entry (sx_cache v) = sl_entry (sx_cache w) \<Longrightarrow>
   entry_kept now w (produce_done coll config now mode rl all out v)"
  by (auto simp: entry_kept_def produce_done_def Let_def split: option.split)

lemma start_entry [simp]: "sl_entry (sx_cache (start now w)) = sl_entry (sx_cache w)"
  by (simp add: start_def produce_listed_def Let_def split_beta)

lemma ensureFresh_entry [simp]: "sl_entry (sx_cache (ensureFresh config now w)) = sl_entry (sx_cache w)"
  by (simp add: ensureFresh_def Let_def)

lemma refresh_entry [simp]: "sl_entry (sx_cache (refresh config now w)) = sl_entry (sx_cache w)"
  by (simp add: refresh_def Let_def)

lemma repos_settled_entry [simp]: "sl_entry (sx_cache (repos_settled now a w)) = sl_entry (sx_cache w)"
  by (simp add: repos_settled_def Let_def produce_listed_def)

lemma primed_entry: "sl_entry (sx_cache w) \<noteq> None \<Longrightarrow> sx_cache (primed coll config down w) = sx_cache w"
  by (auto simp: primed_def Let_def split_beta split: option.split)

lemma sync_entry [simp]:
  "sx_cache (got_sync_state config down prev w) = sx_cache w"
  "sl_entry (sx_cache (got_open_prs config now down prev st w)) = sl_entry (sx_cache w)"
  "sl_entry (sx_cache (got_pull_requests now r prev mode w)) = sl_entry (sx_cache w)"
  "sx_cache (wrote_pull_requests config dbnow flt prev mode res w) = sx_cache w"
  "sx_cache (wrote_history config dbnow flt prev mode rl all earliest hs w) = sx_cache w"
  by (simp_all add: got_sync_state_def got_open_prs_def got_pull_requests_def wrote_pull_requests_def wrote_history_def
      Let_def split_beta split: option.split sum.split)

lemma read_pull_requests_entry:
  assumes "sx_produce w \<noteq> None" shows "entry_kept now w (read_pull_requests coll config now down prev mode res w)"
  unfolding read_pull_requests_def Let_def split_beta
  by (split if_split option.split)+ (simp add: entry_keptI produce_done_entry assms)

lemma got_histories_entry:
  assumes "sx_produce w \<noteq> None" shows "entry_kept now w (got_histories coll config now r prev mode rl all earliest w)"
  by (simp add: got_histories_def entry_keptI produce_done_entry assms split: sum.split)

lemma read_history_entry:
  assumes "sx_produce w \<noteq> None" shows "entry_kept now w (read_history coll config now down mode rl all earliest hs w)"
  by (simp add: read_history_def Let_def split_beta produce_done_entry assms)

lemma step_entry:
  assumes "sl_entry (sx_cache w) \<noteq> None" shows "entry_kept now w (svc_step coll config now ev w)"
proof (cases ev)
  case (EvRead down)
  then show ?thesis
    by (simp add: svc_step_def entry_keptI read_pull_requests_entry read_history_entry split: option.split produce_point.split)
next
  case (EvWrite flt dbnow)
  then show ?thesis by (simp add: svc_step_def entry_keptI split: option.split produce_point.split)
next
  case (EvPullRequests r)
  then show ?thesis by (simp add: svc_step_def entry_keptI split: option.split produce_point.split)
next
  case (EvHistories r)
  then show ?thesis by (simp add: svc_step_def entry_keptI got_histories_entry split: option.split produce_point.split)
next
  case (EvProgress p)
  then show ?thesis by (simp add: svc_step_def entry_keptI split: option.split produce_point.split)
qed (use assms in \<open>simp_all add: svc_step_def entry_keptI primed_entry\<close>)

lemma entry_stays: "sl_entry (sx_cache w) \<noteq> None \<Longrightarrow> sl_entry (sx_cache (svc_step coll config now ev w)) \<noteq> None"
  using step_entry [of w now coll config ev] by (auto simp: entry_kept_def)

lemma run_entry: "sl_entry (sx_cache w) \<noteq> None \<Longrightarrow> sl_entry (sx_cache (svc_run coll config evs w)) \<noteq> None"
  by (induction coll config evs w rule: svc_run.induct) (simp_all add: entry_stays)

end
