(* ===== verification/StatsTheorems.thy ===== *)
theory StatsTheorems
  imports StatsFacts
begin

text \<open>
  What the statistics service promises, over every order of its events: its states are well formed, a sync ends, the
  last figures stay on the page, a failure is followed by a pause; and where the code falls short of it.
\<close>

section \<open>Samples\<close>

definition sample_config :: AppConfig where
  "sample_config = \<lparr>ac_orgId = ''org'', ac_orgName = ''Org'', ac_github = GitHubNone, ac_baseBranch = ''dev'', ac_bots = [],
     ac_syncTtlMs = 60000, ac_port = 8080, ac_host = ''127.0.0.1'', ac_webRoot = None, ac_telemetrySource = TsOff,
     ac_databaseUrl = ''postgres://db'', ac_telemetryTtlMs = 30000, ac_workspaceRoot = None, ac_auth = AuthNone None\<rparr>"

definition sample_listing :: repo_listing where
  "sample_listing = \<lparr>li_repos = [\<lparr>ir_owner = ''o'', ir_name = ''r'', ir_private = False, ir_defaultBranch = None, ir_pushedAt = None\<rparr>],
     li_installation = None\<rparr>"

definition no_pulls :: PullRequestsResult where
  "no_pulls = \<lparr>pq_prs = [], pq_rateLimit = None, pq_completed = []\<rparr>"

text \<open>A first sync of an empty repository, up to its end.\<close>

definition sample_run :: "(int \<times> svc_event) list" where
  "sample_run = [(0, EvEnsureFresh), (1, EvRepos (FromClient (Inr sample_listing))), (2, EvRead None), (3, EvRead None),
     (4, EvPullRequests (Inr no_pulls)), (5, EvWrite None 5), (6, EvRead None)]"

section \<open>The state\<close>

text \<open>
  C29: Whatever happens, and in whatever order answers and requests come, the service's state is well formed: a slot is
  in flight exactly while one call is there to settle it, whoever waits for the repository list has a listing under way
  that wakes them, a sync in flight is reported as loading and an error with its message and its time, and the
  tables keep their constraints.
\<close>

theorem statistics_state_is_well_formed:
  assumes "pr_tables_ok db" "w = svc_run coll config evs (createStatsService db)"
  shows "svc_ok w"
  unfolding assms(2) by (intro svc_run_ok createStatsService_ok assms(1))

theorem statistics_state_is_well_formed_witness:
  "svc_ok (svc_run (\<lambda>s. s) sample_config sample_run (createStatsService empty_pr_db))"
  by (rule statistics_state_is_well_formed [OF empty_pr_db_ok refl])

text \<open>
  C30: A sync comes to its end: from any well-formed state, at most nine of the answers it waits for (as many as its
  point has left) bring it to one, there is always an answer it waits for, and nothing else that happens meanwhile holds
  it up.
\<close>

theorem sync_reaches_its_end:
  assumes "svc_ok w" "sx_produce w = Some p" "rank p \<le> answers_got coll config evs w"
  shows "(\<exists>k \<le> length evs. sx_produce (svc_run coll config (take k evs) w) = None) \<and> rank p \<le> 9 \<and> (\<exists>ev. awaits p ev)"
proof (intro conjI)
  show "\<exists>k \<le> length evs. sx_produce (svc_run coll config (take k evs) w) = None" by (rule sync_ends [OF assms])
  show "rank p \<le> 9" by (cases p) simp_all
  show "\<exists>ev. awaits p ev" by (cases p) (auto intro: exI [of _ "EvRepos NoSource"] exI [of _ "EvRead None"]
      exI [of _ "EvPullRequests (Inl e)" for e] exI [of _ "EvWrite None 0"] exI [of _ "EvHistories (Inl e)" for e])
qed

text \<open>A service that waits for the answer to \<open>fetchPullRequests\<close>, and for that to the histories.\<close>

definition sample_waiting :: "produce_point \<Rightarrow> stats_service" where
  "sample_waiting p = (createStatsService empty_pr_db)\<lparr>sx_produce := Some p, sx_cache := fst (slot_refresh new_slot),
     sx_fetchState := idleState\<lparr>ft_state := FtLoading\<rparr>\<rparr>"

lemma sample_waiting_ok: "p \<noteq> AtRepos \<Longrightarrow> svc_ok (sample_waiting p)"
  by (simp add: svc_ok_def sample_waiting_def createStatsService_def empty_pr_db_ok new_slot_def)

theorem sync_reaches_its_end_witness:
  "\<exists>k \<le> length [(1, EvEnsureFresh), (2, EvRead (Some ''down''))].
     sx_produce (svc_run (\<lambda>s. s) sample_config (take k [(1, EvEnsureFresh), (2, EvRead (Some ''down''))])
       (sample_waiting (AtReadHistory None SyncFull None [] ''x'' []))) = None"
proof -
  let ?p = "AtReadHistory None SyncFull None [] ''x'' []"
  have p: "sx_produce (sample_waiting ?p) = Some ?p" by (simp add: sample_waiting_def)
  have pending: "sl_pending (sx_cache (sample_waiting ?p))" by (simp add: sample_waiting_def)
  have off: "ensureFresh sample_config 1 (sample_waiting ?p) = sample_waiting ?p"
    by (simp add: start_when_pending [OF pending] telemetry_due_def sample_config_def)
  have "rank ?p \<le> answers_got (\<lambda>s. s) sample_config [(1, EvEnsureFresh), (2, EvRead (Some ''down''))] (sample_waiting ?p)"
    by (simp add: svc_step_def off p)
  from sync_reaches_its_end [OF sample_waiting_ok p this] show ?thesis by simp
qed

section \<open>What the page shows\<close>

definition keeps_figures :: "stats_reply \<Rightarrow> bool" where
  "keeps_figures r \<longleftrightarrow> (case r of StatsPending ft \<Rightarrow> False | StatsFailed e ft \<Rightarrow> False | _ \<Rightarrow> True)"

lemma served_entry:
  "fst (get_stats coll od config now q w) = StatsServed p \<Longrightarrow> sl_entry (sx_cache (snd (get_stats coll od config now q w))) \<noteq> None"
  by (auto simp: get_stats_def current_def Let_def split: sum.splits option.splits if_splits)

lemma entry_keeps_figures: "sl_entry (sx_cache w) \<noteq> None \<Longrightarrow> keeps_figures (fst (get_stats coll od config now q w))"
  by (auto simp: get_stats_def current_def keeps_figures_def Let_def split: sum.splits option.splits prod.splits)

text \<open>
  C31: Once figures have been served, no later request is told that they are loading or that they failed: whatever
  fails meanwhile, the last good figures are served, of any range, until a sync that succeeds replaces them.
\<close>

theorem last_good_figures_stay:
  assumes "fst (get_stats coll od config now q w) = StatsServed p"
    "w' = svc_run coll config evs (snd (get_stats coll od config now q w))"
  shows "keeps_figures (fst (get_stats coll od config now' q' w'))"
  unfolding assms(2) by (intro entry_keeps_figures run_entry served_entry [OF assms(1)])

text \<open>Figures of no pull requests, fetched at \<open>t\<close>.\<close>

definition sample_served :: "int \<Rightarrow> stats_service" where
  "sample_served t = (createStatsService empty_pr_db)\<lparr>sx_cache := slot_produced t (Some \<lparr>sn_derived = [], sn_history = None,
     sn_commits = [], sn_coverage = [], sn_rateLimit = None, sn_revert = \<lparr>rx_status = RvUnavailable, rx_reason = None\<rparr>\<rparr>) new_slot\<rparr>"

definition all_query :: StatsQuery where
  "all_query = \<lparr>sq_range = None, sq_from = None, sq_to = None, sq_org = None\<rparr>"

definition is_served :: "stats_reply \<Rightarrow> bool" where
  "is_served r \<longleftrightarrow> (case r of StatsServed p \<Rightarrow> True | _ \<Rightarrow> False)"

lemma sample_is_served: "is_served (fst (get_stats (\<lambda>s. s) (\<lambda>s. None) sample_config 1 all_query (sample_served 0)))"
  by code_simp

theorem last_good_figures_stay_witness:
  "keeps_figures (fst (get_stats (\<lambda>s. s) (\<lambda>s. None) sample_config 90000 all_query
     (svc_run (\<lambda>s. s) sample_config [(80000, EvRefresh), (80001, EvRepos (FromClient (Inl ''gone'')))]
       (snd (get_stats (\<lambda>s. s) (\<lambda>s. None) sample_config 1 all_query (sample_served 0))))))"
proof -
  obtain p where "fst (get_stats (\<lambda>s. s) (\<lambda>s. None) sample_config 1 all_query (sample_served 0)) = StatsServed p"
    using sample_is_served by (auto simp: is_served_def split: stats_reply.splits)
  from last_good_figures_stay [OF this refl] show ?thesis .
qed

section \<open>After a failure\<close>

lemma idle_step:
  assumes "sx_produce w = None" "ev \<noteq> EvRefresh" "\<not> sync_due config now (if telemetry_due config now w then startTelemetry now w else w)"
  shows "sx_produce (svc_step coll config now ev w) = None \<and> sx_lastFailureAt (svc_step coll config now ev w) = sx_lastFailureAt w \<and>
    sx_fetchState (svc_step coll config now ev w) = sx_fetchState w"
proof (cases ev)
  case EvEnsureFresh
  then show ?thesis using assms by (simp add: svc_step_def ensureFresh_def Let_def)
next
  case (EvPrimed down)
  then show ?thesis using assms by (auto simp: svc_step_def primed_def Let_def split_beta split: option.split)
next
  case (EvRepos a)
  then show ?thesis using assms by (simp add: svc_step_def repos_settled_def Let_def produce_listed_def)
next
  case EvPrime
  then show ?thesis using assms by (simp add: svc_step_def prime_def split_beta)
next
  case (EvRollups r)
  then show ?thesis using assms by (simp add: svc_step_def got_rollups_def split: sum.split)
qed (use assms in \<open>simp_all add: svc_step_def\<close>)

lemma cooling_not_due: "sx_lastFailureAt w = Some t \<Longrightarrow> now < t + ERROR_COOLDOWN_MS \<Longrightarrow> \<not> sync_due config now w"
  by (simp add: sync_due_def)

lemma cooling_run:
  "sx_produce w = None \<Longrightarrow> sx_lastFailureAt w = Some t \<Longrightarrow> \<forall>(now, ev) \<in> set evs. ev \<noteq> EvRefresh \<and> now < t + ERROR_COOLDOWN_MS \<Longrightarrow>
   sx_produce (svc_run coll config evs w) = None \<and> sx_lastFailureAt (svc_run coll config evs w) = Some t \<and>
   sx_fetchState (svc_run coll config evs w) = sx_fetchState w"
proof (induction coll config evs w rule: svc_run.induct)
  case (2 coll config now ev evs w)
  have "\<not> sync_due config now (if telemetry_due config now w then startTelemetry now w else w)"
    using 2(3,4) by (intro cooling_not_due [of _ t]) auto
  then have s: "sx_produce (svc_step coll config now ev w) = None" "sx_lastFailureAt (svc_step coll config now ev w) = Some t"
      "sx_fetchState (svc_step coll config now ev w) = sx_fetchState w"
    using idle_step [of w ev config now coll] 2(2-4) by auto
  from 2(1) [OF s(1,2)] 2(4) s(3) show ?case by auto
qed simp

text \<open>The instant of a failure is the instant it is reported.\<close>

definition failing :: "int \<Rightarrow> stats_service \<Rightarrow> bool" where
  "failing now w \<longleftrightarrow> ft_state (sx_fetchState w) = FtError \<longrightarrow> sx_lastFailureAt w = Some now"

lemma produce_failed_failing [simp]: "failing now (produce_failed now e w)"
  by (simp add: failing_def produce_failed_def)

lemma produce_done_failing [simp]: "failing now (produce_done coll config now mode rl all out w)"
  by (simp add: produce_done_def failing_def produce_failed_def Let_def split: option.split)

lemma still_failing: "ft_state (sx_fetchState w') \<noteq> FtError \<Longrightarrow> failing now w'"
  by (simp add: failing_def)

lemma start_state [simp]: "ft_state (sx_fetchState (start now w)) = FtLoading"
  by (simp add: start_def produce_listed_def Let_def split_beta)

lemma step_failing:
  assumes "ft_state (sx_fetchState w) \<noteq> FtError" shows "failing now (svc_step coll config now ev w)"
proof (cases ev)
  case (EvRead down)
  then show ?thesis
    using assms
    by (auto simp: svc_step_def got_sync_state_def got_open_prs_def read_pull_requests_def read_history_def Let_def split_beta
        intro: still_failing split: option.split produce_point.split)
next
  case (EvRepos a)
  then show ?thesis using assms by (auto simp: svc_step_def repos_settled_def produce_listed_def Let_def intro: still_failing)
next
  case (EvPrimed down)
  then show ?thesis
    using assms by (auto simp: svc_step_def primed_def Let_def split_beta intro: still_failing split: option.split)
qed (use assms in \<open>auto simp: svc_step_def ensureFresh_def refresh_def prime_def got_pull_requests_def got_histories_def
      wrote_pull_requests_def wrote_history_def got_rollups_def Let_def split_beta
      intro: still_failing split: option.split produce_point.split sum.split\<close>)

text \<open>
  C32: A sync whose failure is reported is followed by a pause. Over the thirty seconds after a step that turned the reported state into
  an error no request starts another sync, whatever else happens, and the failure stays reported; the request for a refresh is not
  held back. A sync that failed before it had listed its repositories does not turn the state into an error and is followed by no
  pause: that is \<open>unlisted_sync_is_unreported\<close>.
\<close>

theorem failed_sync_cools_down:
  assumes "svc_ok v" "ft_state (sx_fetchState v) \<noteq> FtError" "w = svc_step coll config t ev v" "ft_state (sx_fetchState w) = FtError"
    "\<forall>(now, e) \<in> set evs. e \<noteq> EvRefresh \<and> now < t + ERROR_COOLDOWN_MS" "w' = svc_run coll config evs w"
  shows "sx_produce w' = None \<and> sx_fetchState w' = sx_fetchState w \<and>
    (snapshot (sx_repos w') \<noteq> [] \<longrightarrow> sx_produce (refresh config now w') \<noteq> None)"
proof -
  have ok: "svc_ok w" unfolding assms(3) by (rule svc_step_ok [OF assms(1)])
  then have "sx_produce w = None" using assms(4) by (auto simp: svc_ok_def)
  moreover have "sx_lastFailureAt w = Some t"
    using step_failing [OF assms(2), of t coll config ev] assms(4) by (simp add: assms(3) failing_def)
  ultimately have r: "sx_produce w' = None" "sx_lastFailureAt w' = Some t" "sx_fetchState w' = sx_fetchState w"
    using cooling_run [of w t evs coll config] assms(5) by (simp_all add: assms(6))
  have "svc_ok w'" unfolding assms(6) by (rule svc_run_ok [OF ok])
  then have "\<not> sl_pending (sx_cache w')" using r(1) by (simp add: svc_ok_def)
  then have "sx_produce (refresh config now w') \<noteq> None" if "snapshot (sx_repos w') \<noteq> []"
    using that by (simp add: refresh_def Let_def start_def produce_listed_def split_beta)
  with r show ?thesis by simp
qed


theorem failed_sync_cools_down_witness:
  "sx_produce (svc_run (\<lambda>s. s) sample_config [(1000, EvEnsureFresh), (29999, EvEnsureFresh)]
     (svc_step (\<lambda>s. s) sample_config 0 (EvPullRequests (Inl (''gone'', ''NETWORK''))) (sample_waiting (AtFetch None SyncFull [])))) = None"
proof -
  let ?v = "sample_waiting (AtFetch None SyncFull [])"
  let ?w = "svc_step (\<lambda>s. s) sample_config 0 (EvPullRequests (Inl (''gone'', ''NETWORK''))) ?v"
  have 1: "ft_state (sx_fetchState ?v) \<noteq> FtError" by (simp add: sample_waiting_def)
  have 2: "ft_state (sx_fetchState ?w) = FtError"
    by (simp add: svc_step_def sample_waiting_def got_pull_requests_def produce_failed_def)
  have 3: "\<forall>(now, e) \<in> set [(1000, EvEnsureFresh), (29999, EvEnsureFresh)]. e \<noteq> EvRefresh \<and> now < 0 + ERROR_COOLDOWN_MS"
    by simp
  from failed_sync_cools_down [OF sample_waiting_ok 1 refl 2 3 refl] show ?thesis by simp
qed

end
