(* ===== verification/SyncTheorems.thy ===== *)
theory SyncTheorems
  imports StatsTheorems
begin

text \<open>
  What a sync writes to the store: what a sequence of statements hands on however far the database lets it come, and what
  moves a watermark.
\<close>

section \<open>Watermarks\<close>

fun opt_le :: "int option \<Rightarrow> int option \<Rightarrow> bool" where
  "opt_le None b = True"
| "opt_le (Some a) b = (case b of None \<Rightarrow> False | Some c \<Rightarrow> a \<le> c)"

lemma opt_le_refl [simp]: "opt_le a a"
  by (cases a) simp_all

lemma opt_le_trans: "opt_le a b \<Longrightarrow> opt_le b c \<Longrightarrow> opt_le a c"
  by (cases a; cases b; cases c) simp_all

lemma opt_le_greatest: "opt_le a (greatest_opt a b)" "opt_le b (greatest_opt a b)"
  by (cases a; cases b; simp)+

definition row_grows :: "sync_row \<Rightarrow> sync_row \<Rightarrow> bool" where
  "row_grows old new \<longleftrightarrow> sy_key new = sy_key old \<and> opt_le (sy_watermark_at old) (sy_watermark_at new) \<and>
     sy_synced_epoch old \<le> sy_synced_epoch new \<and> (sy_last_full_at old \<noteq> None \<longrightarrow> sy_last_full_at new \<noteq> None)"

definition syncs_grow :: "pr_db \<Rightarrow> pr_db \<Rightarrow> bool" where
  "syncs_grow a b \<longleftrightarrow> (\<forall>old \<in> set (pd_sync a). \<exists>new \<in> set (pd_sync b). row_grows old new)"

lemma row_grows_refl [simp]: "row_grows r r"
  by (simp add: row_grows_def)

lemma row_grows_trans: "row_grows a b \<Longrightarrow> row_grows b c \<Longrightarrow> row_grows a c"
  by (auto simp: row_grows_def intro: opt_le_trans)

lemma syncs_grow_refl: "syncs_grow a a"
  unfolding syncs_grow_def by (blast intro: row_grows_refl)

lemma syncs_grow_trans: "syncs_grow a b \<Longrightarrow> syncs_grow b c \<Longrightarrow> syncs_grow a c"
  unfolding syncs_grow_def by (meson row_grows_trans)

lemma sync_conflict_grows: "sy_key new = sy_key old \<Longrightarrow> row_grows old (sync_conflict old new)"
  by (auto simp: row_grows_def sync_conflict_def opt_le_greatest coalesce_def split: option.split)

lemma upsert_sync_grows:
  assumes "old \<in> set t" shows "\<exists>new \<in> set (upsert_row sy_key sync_conflict r t). row_grows old new"
proof (cases "sy_key old = sy_key r")
  case True
  then have "sync_conflict old r \<in> set (upsert_row sy_key sync_conflict r t)"
    using assms by (force simp: upsert_row_def sql_exists_iff set_sql_update)
  then show ?thesis using sync_conflict_grows [of r old] True by auto
next
  case False
  then have "old \<in> set (upsert_row sy_key sync_conflict r t)"
    using assms by (force simp: upsert_row_def set_sql_update)
  then show ?thesis by (blast intro: row_grows_refl)
qed

lemma recordSyncE:
  assumes "recordSync org now provider repo kind wm mode rl epoch a = Inr b"
  obtains row where "sy_key row = (org, provider, repo, kind)" "opt_date wm = Some (sy_watermark_at row)"
    "pd_sync b = upsert_row sy_key sync_conflict row (pd_sync a)"
proof -
  from assms obtain t where t: "opt_date wm = Some t" by (auto simp: recordSync_def split: option.splits)
  show ?thesis
    by (rule that [of "\<lparr>sy_key = (org, provider, repo, kind), sy_watermark_at = t, sy_last_sync_at = Some now,
        sy_last_full_at = (if mode = SyncFull then Some now else None), sy_synced_epoch = epoch, sy_last_rate_limit = rl\<rparr>"])
      (use assms t in \<open>auto simp: recordSync_def\<close>)
qed

lemma recordSync_grows: "recordSync org now provider repo kind wm mode rl epoch a = Inr b \<Longrightarrow> syncs_grow a b"
  by (auto simp: recordSync_def syncs_grow_def intro: upsert_sync_grows split: option.splits)

lemma save_pull_syncs: "save_pull org now pr a = Inr b \<Longrightarrow> pd_sync b = pd_sync a"
  using save_elsewhere by (simp add: same_elsewhere_def)

lemma pull_statement_grows: "st \<in> set (pull_statements config dbnow names mode res) \<Longrightarrow> st a = Inr b \<Longrightarrow> syncs_grow a b"
  using syncs_grow_refl
  by (auto simp: pull_statements_def savePullRequests_def syncs_grow_def dest: recordSync_grows save_pull_syncs)

text \<open>The rows a walk may touch.\<close>

definition walked :: "AppConfig \<Rightarrow> string list \<Rightarrow> PullRequestsResult \<Rightarrow> sync_row \<Rightarrow> bool" where
  "walked config names res r \<longleftrightarrow>
     (\<exists>repo \<in> set names. walk_completed res repo \<and> sy_key r = (ac_orgId config, GitHub, repo, PR_KIND))"

lemma pull_statement_elsewhere:
  assumes "st \<in> set (pull_statements config dbnow names mode res)" "st a = Inr b"
  shows "filter (\<lambda>r. \<not> walked config names res r) (pd_sync b) = filter (\<lambda>r. \<not> walked config names res r) (pd_sync a)"
proof -
  let ?K = "{k. \<exists>repo \<in> set names. walk_completed res repo \<and> k = (ac_orgId config, GitHub, repo, PR_KIND)}"
  have w: "walked config names res = (\<lambda>r. sy_key r \<in> ?K)" by (auto simp: walked_def)
  consider pr where "save_pull (ac_orgId config) dbnow pr a = Inr b"
    | repo where "repo \<in> set names" "walk_completed res repo"
        "recordSync (ac_orgId config) dbnow GitHub repo PR_KIND (newest_seen repo (pq_prs res)) mode (pq_rateLimit res) SCHEMA_EPOCH a = Inr b"
    using assms by (auto simp: pull_statements_def savePullRequests_def)
  then show ?thesis
  proof cases
    case (2 repo)
    from 2(3) obtain row where row: "sy_key row = (ac_orgId config, GitHub, repo, PR_KIND)"
        "pd_sync b = upsert_row sy_key sync_conflict row (pd_sync a)"
      by (rule recordSyncE)
    then show ?thesis
      unfolding w using syncs.upsert_elsewhere [of "\<lambda>k. k \<notin> ?K" row "pd_sync a"] 2(1,2) by auto
  qed (simp add: save_pull_syncs)
qed

lemma recorded_watermark:
  assumes "recordSync org now provider repo kind (Some d) mode rl epoch a = Inr b" "date_us d = Some us"
  shows "\<exists>r \<in> set (pd_sync b). sy_key r = (org, provider, repo, kind) \<and> opt_le (Some us) (sy_watermark_at r)"
  using assms(1)
proof (cases rule: recordSyncE)
  case (1 row)
  have w: "sy_watermark_at row = Some us" using 1(2) assms(2) by (simp add: opt_date_def)
  show ?thesis
  proof (cases "sql_exists (\<lambda>q. sy_key q = sy_key row) (pd_sync a)")
    case True
    then obtain old where old: "old \<in> set (pd_sync a)" "sy_key old = sy_key row" by (auto simp: sql_exists_iff)
    then have "sync_conflict old row \<in> set (pd_sync b)" using True by (force simp: 1(3) upsert_row_def set_sql_update)
    moreover have "opt_le (Some us) (sy_watermark_at (sync_conflict old row))"
      using opt_le_greatest(2) [of "sy_watermark_at row"] by (simp only: w [symmetric]) (simp add: sync_conflict_def)
    ultimately show ?thesis using 1(1) by (intro bexI [of _ "sync_conflict old row"]) (simp_all add: sync_conflict_def)
  next
    case False
    then show ?thesis using 1(1,3) w by (intro bexI [of _ row]) (simp_all add: upsert_row_def)
  qed
qed

lemma watermark_stays:
  "syncs_grow a b \<Longrightarrow> \<exists>r \<in> set (pd_sync a). sy_key r = k \<and> opt_le t (sy_watermark_at r) \<Longrightarrow>
   \<exists>r \<in> set (pd_sync b). sy_key r = k \<and> opt_le t (sy_watermark_at r)"
  unfolding syncs_grow_def row_grows_def by (metis opt_le_trans)

text \<open>What is stored of a pull request stays stored, so that a write that got to the watermarks saved every one.\<close>

lemma save_pull_keys: "save_pull org now pr a = Inr b \<Longrightarrow> pull_key ` set (pd_pulls b) = insert (key_of_pr org pr) (pull_key ` set (pd_pulls a))"
  by (erule save_pullE) (simp add: pulls.upsert_keys)

lemma recordSync_pulls: "recordSync org now provider repo kind wm mode rl epoch a = Inr b \<Longrightarrow> pd_pulls b = pd_pulls a"
  by (auto simp: recordSync_def split: option.splits)

lemma saves_before_watermarks:
  assumes "run_statements flt (savePullRequests org now prs @ syncs) db = (r, db')"
    "\<And>st a b. st \<in> set syncs \<Longrightarrow> st a = Inr b \<Longrightarrow> pd_pulls b = pd_pulls a" "pd_sync db' \<noteq> pd_sync db"
  shows "\<forall>pr \<in> set prs. key_of_pr org pr \<in> pull_key ` set (pd_pulls db')"
proof
  fix pr assume pr: "pr \<in> set prs"
  have same: "pd_sync (snd (run_statements f (savePullRequests org now prs) db)) = pd_sync db" for f
    by (rule run_statements_rel [where R = "\<lambda>a b. pd_sync b = pd_sync a"]) (auto simp: savePullRequests_def save_pull_syncs)
  obtain d where d: "run_statements flt (savePullRequests org now prs) db = (Inr (), d)"
      and s: "run_statements (map_option (\<lambda>(n, e). (n - length (savePullRequests org now prs), e)) flt) syncs d = (r, db')"
    using assms(1,3) same [of flt] unfolding run_statements_append by (auto split: prod.splits sum.splits)
  have "key_of_pr org pr \<in> pull_key ` set (pd_pulls d)"
    by (rule run_statements_all [OF d, of "save_pull org now pr" "\<lambda>d. key_of_pr org pr \<in> pull_key ` set (pd_pulls d)"])
      (use pr in \<open>auto simp: savePullRequests_def save_pull_keys\<close>)
  moreover have "pd_pulls (snd (run_statements f syncs d)) = pd_pulls d" for f
    by (rule run_statements_rel [where R = "\<lambda>a b. pd_pulls b = pd_pulls a"]) (use assms(2) in auto)
  ultimately show "key_of_pr org pr \<in> pull_key ` set (pd_pulls db')" using s by (metis snd_conv)
qed

text \<open>
  C33: A watermark follows the walk. Writing down what a walk found, however far the database lets it come, changes no
  row of the syncs but that of a measured repository whose walk reached its end, moves no watermark back, and moves none
  before every pull request of the walk is stored; and when the writing came through, each such repository's
  watermark is at least the newest change its walk saw.
\<close>

theorem watermark_follows_the_walk:
  assumes "sx_produce w = Some (AtWrite prev mode res)" "w' = svc_step coll config now (EvWrite flt dbnow) w"
    "run_statements flt (pull_statements config dbnow (repoNames w) mode res) (sx_db w) = (r, db')"
  shows "sx_db w' = db' \<and> syncs_grow (sx_db w) db' \<and>
    filter (\<lambda>y. \<not> walked config (repoNames w) res y) (pd_sync db') = filter (\<lambda>y. \<not> walked config (repoNames w) res y) (pd_sync (sx_db w)) \<and>
    (pd_sync db' \<noteq> pd_sync (sx_db w) \<longrightarrow>
       (\<forall>pr \<in> set (pq_prs res). key_of_pr (ac_orgId config) pr \<in> pull_key ` set (pd_pulls db'))) \<and>
    (\<forall>repo \<in> set (repoNames w). \<forall>d us. r = Inr () \<and> walk_completed res repo \<and> newest_seen repo (pq_prs res) = Some d \<and>
       date_us d = Some us \<longrightarrow>
       (\<exists>y \<in> set (pd_sync db'). sy_key y = (ac_orgId config, GitHub, repo, PR_KIND) \<and> opt_le (Some us) (sy_watermark_at y)))"
proof (intro conjI ballI allI impI)
  let ?sts = "pull_statements config dbnow (repoNames w) mode res"
  have db: "db' = snd (run_statements flt ?sts (sx_db w))" by (simp add: assms(3))
  show "sx_db w' = db'" by (simp add: assms(1-3) svc_step_def wrote_pull_requests_def)
  show "syncs_grow (sx_db w) db'"
    unfolding db by (rule run_statements_rel) (blast intro: pull_statement_grows syncs_grow_refl syncs_grow_trans)+
  show "filter (\<lambda>y. \<not> walked config (repoNames w) res y) (pd_sync db') = filter (\<lambda>y. \<not> walked config (repoNames w) res y) (pd_sync (sx_db w))"
    unfolding db
    by (rule run_statements_rel [where R = "\<lambda>a b. filter (\<lambda>y. \<not> walked config (repoNames w) res y) (pd_sync b) =
        filter (\<lambda>y. \<not> walked config (repoNames w) res y) (pd_sync a)"]) (use pull_statement_elsewhere in auto)
  show "key_of_pr (ac_orgId config) pr \<in> pull_key ` set (pd_pulls db')"
    if "pd_sync db' \<noteq> pd_sync (sx_db w)" "pr \<in> set (pq_prs res)" for pr
  proof -
    have "\<forall>pr \<in> set (pq_prs res). key_of_pr (ac_orgId config) pr \<in> pull_key ` set (pd_pulls db')"
      by (rule saves_before_watermarks [OF assms(3) [unfolded pull_statements_def] _ that(1)]) (auto dest: recordSync_pulls)
    then show ?thesis using that(2) by blast
  qed
  show "\<exists>y \<in> set (pd_sync db'). sy_key y = (ac_orgId config, GitHub, repo, PR_KIND) \<and> opt_le (Some us) (sy_watermark_at y)"
    if m: "repo \<in> set (repoNames w)" and
      q: "r = Inr () \<and> walk_completed res repo \<and> newest_seen repo (pq_prs res) = Some d \<and> date_us d = Some us" for repo d us
  proof (rule run_statements_all [where db' = db' and
        Q = "\<lambda>b. \<exists>y \<in> set (pd_sync b). sy_key y = (ac_orgId config, GitHub, repo, PR_KIND) \<and> opt_le (Some us) (sy_watermark_at y)"])
    show "run_statements flt ?sts (sx_db w) = (Inr (), db')" using assms(3) q by simp
    let ?st = "recordSync (ac_orgId config) dbnow GitHub repo PR_KIND (newest_seen repo (pq_prs res)) mode (pq_rateLimit res) SCHEMA_EPOCH"
    have "?st \<in> (\<lambda>x. recordSync (ac_orgId config) dbnow GitHub x PR_KIND (newest_seen x (pq_prs res)) mode (pq_rateLimit res)
        SCHEMA_EPOCH) ` set (filter (walk_completed res) (repoNames w))" by (rule imageI) (use m q in simp)
    then show "?st \<in> set ?sts" by (simp only: pull_statements_def set_append set_map Un_iff simp_thms)
    show "\<exists>y \<in> set (pd_sync b). sy_key y = (ac_orgId config, GitHub, repo, PR_KIND) \<and> opt_le (Some us) (sy_watermark_at y)"
      if "?st a = Inr b" for a b
      using recorded_watermark [of "ac_orgId config" dbnow GitHub repo PR_KIND d] that q by auto
    show "\<exists>y \<in> set (pd_sync b). sy_key y = (ac_orgId config, GitHub, repo, PR_KIND) \<and> opt_le (Some us) (sy_watermark_at y)"
      if "s \<in> set ?sts" "s a = Inr b"
        "\<exists>y \<in> set (pd_sync a). sy_key y = (ac_orgId config, GitHub, repo, PR_KIND) \<and> opt_le (Some us) (sy_watermark_at y)" for s a b
      using watermark_stays [OF pull_statement_grows [OF that(1,2)] that(3)] .
  qed
qed


definition sample_pulls :: PullRequestsResult where
  "sample_pulls = \<lparr>pq_prs = [sample_pr], pq_rateLimit = None, pq_completed = [(''o/r'', True)]\<rparr>"

definition sample_writing :: stats_service where
  "sample_writing = (sample_waiting (AtWrite None SyncFull sample_pulls))\<lparr>sx_repos := list_answered 0 (FromClient (Inr sample_listing)) new_repo_source\<rparr>"

theorem watermark_follows_the_walk_witness:
  "syncs_grow empty_pr_db (sx_db (svc_step (\<lambda>s. s) sample_config 1 (EvWrite (Some (1, ''down'')) 5) sample_writing))"
proof -
  have p: "sx_produce sample_writing = Some (AtWrite None SyncFull sample_pulls)" "sx_db sample_writing = empty_pr_db"
    by (simp_all add: sample_writing_def sample_waiting_def createStatsService_def)
  note t = watermark_follows_the_walk [where coll = "\<lambda>s. s" and config = sample_config and now = 1 and flt = "Some (1, ''down'')"
      and dbnow = 5, OF p(1) refl prod.collapse [symmetric]]
  show ?thesis unfolding t [unfolded p(2), THEN conjunct1] by (rule t [unfolded p(2), THEN conjunct2, THEN conjunct1])
qed

end
