(* ===== verification/WalkTheorems.thy ===== *)
theory WalkTheorems
  imports SyncTheorems
begin

text \<open>
  What is made of what a sync stored: how far back the next walk starts, which range has a revert rate, and what an
  incremental scan of a base branch does to the figures of all time.
\<close>

section \<open>Where a walk starts\<close>

lemma repo_cutoffE:
  assumes "repo_cutoff now watermark oldest = Some c"
  obtains t u where "parse_date watermark = Some t" "c = to_iso u" "u \<le> t - SYNC_OVERLAP_MS" "u \<le> now - RECENT_WINDOW_MS"
    "\<And>d v. oldest = Some d \<Longrightarrow> parse_date d = Some v \<Longrightarrow> u \<le> v"
    "u = t - SYNC_OVERLAP_MS \<or> u = now - RECENT_WINDOW_MS \<or> (\<exists>d. oldest = Some d \<and> parse_date d = Some u)"
proof -
  from assms obtain t where t: "parse_date watermark = Some t" by (auto simp: repo_cutoff_def split: option.splits)
  let ?c = "min (t - SYNC_OVERLAP_MS) (now - RECENT_WINDOW_MS)"
  show ?thesis
  proof (cases "truthy oldest")
    case True
    then obtain v where v: "parse_date (the oldest) = Some v" "c = to_iso (min ?c v)"
      using assms t by (auto simp: repo_cutoff_def)
    show ?thesis by (rule that [OF t v(2)]) (use v(1) True in \<open>auto simp: min_def truthy_def split: option.splits\<close>)
  next
    case False
    then have c: "c = to_iso ?c" using assms t by (simp add: repo_cutoff_def)
    have "parse_date [] = None" by (simp add: parse_date_def parse_day_def has_shape_def)
    then show ?thesis using False by (intro that [OF t c]) (auto simp: truthy_def min_def)
  qed
qed

lemma buildCutoff_mem:
  "buildCutoff names now st oldestOpen = Some cutoff \<Longrightarrow> (repo, c) \<in> set cutoff \<Longrightarrow>
   repo \<in> set names \<and> (\<exists>wm. Option.bind (map_of st repo) sy_watermarkAt = Some wm \<and> wm \<noteq> [] \<and>
     repo_cutoff now wm (map_of oldestOpen repo) = Some c)"
proof (induction names arbitrary: cutoff)
  case (Cons n names)
  show ?case
  proof (cases "truthy (Option.bind (map_of st n) sy_watermarkAt)")
    case False
    then show ?thesis using Cons by (simp add: Let_def)
  next
    case True
    then obtain wm where wm: "Option.bind (map_of st n) sy_watermarkAt = Some wm" "wm \<noteq> []" by (rule truthyE)
    obtain d cs where d: "repo_cutoff now wm (map_of oldestOpen n) = Some d" "buildCutoff names now st oldestOpen = Some cs"
        "cutoff = (n, d) # cs"
      using Cons.prems(1) True by (auto simp: wm bind_eq_Some_conv Let_def)
    then show ?thesis using Cons wm by auto
  qed
qed simp

lemma buildCutoff_covers:
  "buildCutoff names now st oldestOpen = Some cutoff \<Longrightarrow> repo \<in> set names \<Longrightarrow>
   truthy (Option.bind (map_of st repo) sy_watermarkAt) \<Longrightarrow> repo \<in> fst ` set cutoff"
proof (induction names arbitrary: cutoff)
  case (Cons n names)
  show ?case
  proof (cases "truthy (Option.bind (map_of st n) sy_watermarkAt)")
    case False
    then show ?thesis using Cons by (auto simp: Let_def)
  next
    case True
    then obtain d cs where "buildCutoff names now st oldestOpen = Some cs" "cutoff = (n, d) # cs"
      using Cons.prems(1) by (auto simp: bind_eq_Some_conv Let_def)
    then show ?thesis using Cons by auto
  qed
qed simp

lemma chooseMode_incremental:
  "chooseMode names now st = SyncIncremental \<Longrightarrow> repo \<in> set names \<Longrightarrow>
   truthy (Option.bind (map_of st repo) sy_watermarkAt) \<and> (case map_of st repo of None \<Rightarrow> 0 | Some y \<Rightarrow> sy_syncedEpoch y) \<ge> SCHEMA_EPOCH"
  by (auto simp: chooseMode_def list_ex_iff not_less split: if_splits)

text \<open>The oldest change of an open pull request, as the store reports it.\<close>

lemma oldest_open_is_least:
  assumes "r \<in> set (pd_pulls db)" "scoped org provider repos r" "pu_state r = PrOpen"
  shows "\<exists>m. map_of (oldestOpenUpdatedAt org provider repos db) (pu_repo r) = Some (iso_us m) \<and> m \<le> pu_updated_at r \<and>
    (\<exists>q \<in> set (pd_pulls db). m = pu_updated_at q)"
proof -
  let ?open = "filter (\<lambda>r. scoped org provider repos r \<and> pu_state r = PrOpen) (pd_pulls db)"
  let ?m = "Min (set (map pu_updated_at (filter (\<lambda>q. pu_repo q = pu_repo r) ?open)))"
  have in_open: "r \<in> set (filter (\<lambda>q. pu_repo q = pu_repo r) ?open)" using assms by simp
  then have "pu_updated_at r \<in> set (map pu_updated_at (filter (\<lambda>q. pu_repo q = pu_repo r) ?open))"
    unfolding set_map by (rule imageI)
  then have "?m \<le> pu_updated_at r" "?m \<in> set (map pu_updated_at (filter (\<lambda>q. pu_repo q = pu_repo r) ?open))"
    by (intro Min_le Min_in; auto)+
  moreover have "map_of (oldestOpenUpdatedAt org provider repos db) (pu_repo r) = Some (iso_us ?m)"
    using in_open unfolding oldestOpenUpdatedAt_def Let_def by (subst map_of_map_restrict [of _ "remdups (map pu_repo ?open)", simplified]) auto
  ultimately show ?thesis by auto
qed

lemma oldest_is_stamp:
  assumes "map_of (oldestOpenUpdatedAt org provider repos db) repo = Some d"
  shows "\<exists>q \<in> set (pd_pulls db). d = iso_us (pu_updated_at q)"
proof -
  let ?open = "filter (\<lambda>r. scoped org provider repos r \<and> pu_state r = PrOpen) (pd_pulls db)"
  let ?us = "set (map pu_updated_at (filter (\<lambda>r. pu_repo r = repo) ?open))"
  have d: "repo \<in> pu_repo ` set ?open" "d = iso_us (Min ?us)"
    using map_of_SomeD [OF assms] by (auto simp: oldestOpenUpdatedAt_def Let_def)
  then have "?us \<noteq> {}" by auto
  then have "Min ?us \<in> ?us" by (intro Min_in) simp_all
  then show ?thesis using d(2) by auto
qed

lemma read_sync_row:
  "Option.bind (map_of (readSyncState org provider repos kind db) repo) sy_watermarkAt = Some wm \<Longrightarrow>
   \<exists>y t. y \<in> set (pd_sync db) \<and> sy_key y = (org, provider, repo, kind) \<and> sy_watermark_at y = Some t \<and> wm = iso_us t"
  by (fastforce simp: readSyncState_def read_sync_def branch_of_def bind_eq_Some_conv dest: map_of_SomeD)

lemma floor_us: "common_era (m div 1000) \<Longrightarrow> parse_date (iso_us m) = Some (m div 1000)"
  by (simp add: iso_us_def parse_to_iso)

text \<open>What a read that may be refused leaves the service with, and the two reads a walk is decided by.\<close>

definition read_or_none :: "string option \<Rightarrow> 'a list \<Rightarrow> 'a list" where
  "read_or_none down xs = (case down of None \<Rightarrow> xs | Some e \<Rightarrow> [])"

lemma read_or_none_simps [simp]: "read_or_none None xs = xs" "read_or_none (Some e) xs = []"
  by (simp_all add: read_or_none_def)

lemma decided_walk:
  assumes "sx_produce w = Some (AtSyncState prev)" "w' = svc_run coll config [(t1, EvRead d1), (now, EvRead d2)] w"
    "sx_produce w' = Some (AtFetch prev' mode cutoff)"
  defines "st \<equiv> read_or_none d1 (readSyncState (ac_orgId config) GitHub (repoNames w) PR_KIND (sx_db w))"
  shows "mode = chooseMode (repoNames w) now st"
    "buildCutoff (repoNames w) now st (read_or_none d2 (oldestOpenUpdatedAt (ac_orgId config) GitHub (repoNames w) (sx_db w))) = Some cutoff"
  using assms(1,3) unfolding assms(2) st_def
  by (cases d1; cases d2; auto simp: svc_step_def got_sync_state_def got_open_prs_def tryStore_def answered_def repoNames_def
      produce_failed_def Let_def split: option.splits if_splits)+


text \<open>The instants of the tables a walk is decided by are within the years a date is written with four digits.\<close>

definition dated_db :: "pr_db \<Rightarrow> bool" where
  "dated_db db \<longleftrightarrow> (\<forall>r \<in> set (pd_pulls db). common_era (pu_updated_at r div 1000)) \<and>
     (\<forall>y \<in> set (pd_sync db). case sy_watermark_at y of None \<Rightarrow> True
        | Some t \<Rightarrow> common_era (t div 1000) \<and> common_era (t div 1000 - SYNC_OVERLAP_MS))"

text \<open>How far back a walk of a repository reaches: no later than any of these, the last if the open pull requests could be read.\<close>

definition reaches_back :: "AppConfig \<Rightarrow> int \<Rightarrow> pr_db \<Rightarrow> bool \<Rightarrow> string \<Rightarrow> int \<Rightarrow> bool" where
  "reaches_back config now db open_read repo u \<longleftrightarrow> u \<le> now - RECENT_WINDOW_MS \<and>
     (\<exists>y \<in> set (pd_sync db). sy_key y = (ac_orgId config, GitHub, repo, PR_KIND) \<and>
        (\<exists>t. sy_watermark_at y = Some t \<and> u \<le> t div 1000 - SYNC_OVERLAP_MS)) \<and>
     (open_read \<longrightarrow>
        (\<forall>r \<in> set (pd_pulls db). scoped (ac_orgId config) GitHub [repo] r \<and> pu_state r = PrOpen \<longrightarrow> u \<le> pu_updated_at r div 1000))"

lemma cutoff_reaches:
  assumes "buildCutoff names now (read_or_none d1 (readSyncState (ac_orgId config) GitHub names PR_KIND db))
      (read_or_none d2 (oldestOpenUpdatedAt (ac_orgId config) GitHub names db)) = Some cutoff" "(repo, c) \<in> set cutoff" "dated_db db"
  shows "d1 = None \<and> repo \<in> set names \<and>
    (\<exists>u. c = to_iso u \<and> reaches_back config now db (d2 = None) repo u \<and> (common_era (now - RECENT_WINDOW_MS) \<longrightarrow> common_era u))"
proof -
  let ?org = "ac_orgId config"
  let ?st = "readSyncState ?org GitHub names PR_KIND db" and ?oldest = "read_or_none d2 (oldestOpenUpdatedAt ?org GitHub names db)"
  from buildCutoff_mem [OF assms(1,2)] obtain wm where names: "repo \<in> set names"
      and wm0: "Option.bind (map_of (read_or_none d1 ?st) repo) sy_watermarkAt = Some wm" and rc: "repo_cutoff now wm (map_of ?oldest repo) = Some c" by blast
  from wm0 have d1: "d1 = None" and wm: "Option.bind (map_of ?st repo) sy_watermarkAt = Some wm" by (cases d1; simp)+
  from read_sync_row [OF wm] obtain y t where y: "y \<in> set (pd_sync db)" "sy_key y = (?org, GitHub, repo, PR_KIND)"
      "sy_watermark_at y = Some t" "wm = iso_us t" by blast
  have t: "common_era (t div 1000)" "common_era (t div 1000 - SYNC_OVERLAP_MS)" using assms(3) y(1,3) by (force simp: dated_db_def)+
  have pt: "parse_date wm = Some (t div 1000)" using floor_us [OF t(1)] by (simp add: y(4))
  have stamp: "parse_date (iso_us (pu_updated_at q)) = Some (pu_updated_at q div 1000)" "common_era (pu_updated_at q div 1000)"
    if "q \<in> set (pd_pulls db)" for q
    using assms(3) that by (simp_all add: dated_db_def floor_us)
  from rc show ?thesis
  proof (cases rule: repo_cutoffE)
    case (1 t' u)
    have "u \<le> pu_updated_at r div 1000"
      if d2: "d2 = None" and r: "r \<in> set (pd_pulls db)" "scoped ?org GitHub [repo] r" "pu_state r = PrOpen" for r
    proof -
      have "scoped ?org GitHub names r" "pu_repo r = repo" using r(2) names by (auto simp: scoped_def)
      from oldest_open_is_least [OF r(1) this(1) r(3)] this(2) obtain q
        where q: "map_of ?oldest repo = Some (iso_us (pu_updated_at q))" "pu_updated_at q \<le> pu_updated_at r" "q \<in> set (pd_pulls db)"
        by (auto simp: d2)
      from 1(5) [OF q(1) stamp(1) [OF q(3)]] show ?thesis using q(2) by (meson order_trans zdiv_mono1 zero_less_numeral)
    qed
    moreover have "u \<le> t div 1000 - SYNC_OVERLAP_MS" using 1(1,3) pt by simp
    moreover have "common_era u" if "common_era (now - RECENT_WINDOW_MS)"
    proof -
      have "\<exists>q \<in> set (pd_pulls db). d = iso_us (pu_updated_at q)" if "map_of ?oldest repo = Some d" for d
        using oldest_is_stamp that by (cases d2) auto
      then show ?thesis using 1(1,6) pt t(2) that stamp by auto
    qed
    ultimately show ?thesis using d1 names 1(2,4) y(1-3) by (auto simp: reaches_back_def)
  qed
qed

text \<open>
  C34: A walk reaches far enough back, whatever the tables hold and whichever of the two reads it is decided by are refused. The cutoff of
  a repository is the time of an instant that is at least five minutes before its watermark, at least fourteen days ago and, if the
  open pull requests could be read, no later than the last change of any pull request of it that is stored as open. A walk is
  incremental only when every measured repository has such a cutoff, so that a repository never walked, or walked for an
  older schema, is walked from its beginning; and when the watermarks could not be read no repository has a cutoff.
\<close>

theorem walk_reaches_back:
  assumes "sx_produce w = Some (AtSyncState prev)" "w' = svc_run coll config [(t1, EvRead d1), (now, EvRead d2)] w"
    "sx_produce w' = Some (AtFetch prev' mode cutoff)" "dated_db (sx_db w)"
  shows "(\<forall>(repo, c) \<in> set cutoff. d1 = None \<and> repo \<in> set (repoNames w) \<and>
      (\<exists>u. c = to_iso u \<and> reaches_back config now (sx_db w) (d2 = None) repo u)) \<and>
    (mode = SyncIncremental \<longrightarrow> (\<forall>repo \<in> set (repoNames w). repo \<in> fst ` set cutoff \<and>
       (\<exists>y \<in> set (pd_sync (sx_db w)). sy_key y = (ac_orgId config, GitHub, repo, PR_KIND) \<and> SCHEMA_EPOCH \<le> sy_synced_epoch y)))"
proof (intro conjI impI)
  let ?db = "sx_db w" and ?names = "repoNames w" and ?org = "ac_orgId config"
  let ?st = "read_or_none d1 (readSyncState ?org GitHub ?names PR_KIND ?db)"
  note d = decided_walk [OF assms(1-3)]
  show "\<forall>(repo, c) \<in> set cutoff. d1 = None \<and> repo \<in> set ?names \<and> (\<exists>u. c = to_iso u \<and> reaches_back config now ?db (d2 = None) repo u)"
  proof clarify
    fix repo c assume "(repo, c) \<in> set cutoff"
    from cutoff_reaches [OF d(2) this assms(4)]
    show "d1 = None \<and> repo \<in> set ?names \<and> (\<exists>u. c = to_iso u \<and> reaches_back config now ?db (d2 = None) repo u)" by blast
  qed
  show "\<forall>repo \<in> set ?names. repo \<in> fst ` set cutoff \<and>
      (\<exists>y \<in> set (pd_sync ?db). sy_key y = (?org, GitHub, repo, PR_KIND) \<and> SCHEMA_EPOCH \<le> sy_synced_epoch y)"
    if "mode = SyncIncremental"
  proof
    fix repo assume repo: "repo \<in> set ?names"
    have i: "truthy (Option.bind (map_of ?st repo) sy_watermarkAt)"
        "SCHEMA_EPOCH \<le> (case map_of ?st repo of None \<Rightarrow> 0 | Some y \<Rightarrow> sy_syncedEpoch y)"
      using chooseMode_incremental [OF d(1) [symmetric, unfolded that] repo] by blast+
    obtain s where s: "map_of ?st repo = Some s" "SCHEMA_EPOCH \<le> sy_syncedEpoch s"
      using i by (cases "map_of ?st repo") (auto simp: truthy_def)
    then have "map_of (readSyncState ?org GitHub ?names PR_KIND ?db) repo = Some s" by (cases d1) simp_all
    then obtain y where "y \<in> set (pd_sync ?db)" "sy_key y = (?org, GitHub, repo, PR_KIND)" "s = read_sync y"
      using map_of_SomeD by (fastforce simp: readSyncState_def branch_of_def)
    then show "repo \<in> fst ` set cutoff \<and>
        (\<exists>y \<in> set (pd_sync ?db). sy_key y = (?org, GitHub, repo, PR_KIND) \<and> SCHEMA_EPOCH \<le> sy_synced_epoch y)"
      using buildCutoff_covers [OF d(2) repo i(1)] s(2) by (auto simp: read_sync_def)
  qed
qed


text \<open>A service that starts a sync of one repository, walked to the end half an hour before the instant 1736931600000.\<close>

definition walked_db :: pr_db where
  "walked_db = empty_pr_db\<lparr>pd_sync := [\<lparr>sy_key = (''org'', GitHub, ''o/r'', PR_KIND), sy_watermark_at = Some 1735925400000000,
     sy_last_sync_at = Some 1736929800000000, sy_last_full_at = Some 1736929800000000, sy_synced_epoch = 1, sy_last_rate_limit = None\<rparr>]\<rparr>"

definition sample_deciding :: stats_service where
  "sample_deciding = (sample_waiting (AtSyncState None))\<lparr>sx_repos := list_answered 0 (FromClient (Inr sample_listing)) new_repo_source,
     sx_db := walked_db\<rparr>"

lemma sample_decided:
  "sx_produce (svc_run (\<lambda>s. s) sample_config [(1736931600000, EvRead None), (1736931600000, EvRead None)] sample_deciding) =
     Some (AtFetch None SyncIncremental [(''o/r'', ''2025-01-01T09:00:00.000Z'')])"
  by code_simp

lemma walked_db_dated: "dated_db walked_db"
  by code_simp

theorem walk_reaches_back_witness:
  "\<exists>u. ''2025-01-01T09:00:00.000Z'' = to_iso u \<and> reaches_back sample_config 1736931600000 walked_db True ''o/r'' u"
proof -
  have s: "sx_produce sample_deciding = Some (AtSyncState None)" "sx_db sample_deciding = walked_db"
    by (simp_all add: sample_deciding_def sample_waiting_def)
  from walk_reaches_back [OF s(1) refl sample_decided, unfolded s(2), OF walked_db_dated] show ?thesis by simp
qed


section \<open>The revert rate of a range\<close>

lemma revertForRangeE:
  assumes "revertForRange config names s rng = (Some h, st)" "\<not> isAllTime rng"
  obtains H where "sn_history s = Some H" "rx_status (sn_revert s) = RvOk" "sn_commits s \<noteq> []"
    "int (length (sn_commits s)) = bh_commits H" "uncovered names s rng = []"
    "bh_commits h = int (length (commits_in s rng))" "bh_reverts h = int (length (filter cm_isRevert (commits_in s rng)))"
  using assms
  by (auto simp: revertForRange_def revert_unavailable_def Let_def split: if_splits)

lemma revertForRangeI:
  assumes "\<not> isAllTime rng" "sn_history s = Some H" "rx_status (sn_revert s) = RvOk" "sn_commits s \<noteq> []"
    "int (length (sn_commits s)) = bh_commits H" "uncovered names s rng = []"
  shows "\<exists>h st. revertForRange config names s rng = (Some h, st) \<and> bh_commits h = int (length (commits_in s rng)) \<and>
    bh_reverts h = int (length (filter cm_isRevert (commits_in s rng)))"
  using assms by (simp add: revertForRange_def Let_def)

lemma covered_iff:
  "uncovered names s \<lparr>rg_preset = p, rg_from = Some a, rg_to = t\<rparr> = [] \<longleftrightarrow>
   (\<forall>c \<in> set (sn_coverage s). cg_from c \<le> a) \<and> (\<forall>repo \<in> set names. \<exists>c \<in> set (sn_coverage s). cg_repo c = repo)"
  by (auto simp: uncovered_def filter_empty_conv not_less)

lemma split_at:
  fixes a m b :: string
  assumes "a \<le> m" "m \<le> b"
  shows "length (filter (\<lambda>c. P c \<and> a \<le> f c \<and> f c < b) cs) =
    length (filter (\<lambda>c. P c \<and> a \<le> f c \<and> f c < m) cs) + length (filter (\<lambda>c. P c \<and> m \<le> f c \<and> f c < b) cs)"
proof (induction cs)
  case (Cons c cs)
  have "(a \<le> f c \<and> f c < b) = ((a \<le> f c \<and> f c < m) \<or> (m \<le> f c \<and> f c < b))" "\<not> ((a \<le> f c \<and> f c < m) \<and> (m \<le> f c \<and> f c < b))"
    using assms by auto
  then show ?case using Cons by auto
qed simp

text \<open>
  A range has a revert rate only where the stored commits are all there: each measured repository's history reaches back to
  its start and there are as many commits as the history reports. Then each of the two ranges an instant within it gives
  has a rate too, and their commits and their reverts add up to those of the whole.
\<close>

theorem range_rates_add_up:
  assumes "revertForRange config names s \<lparr>rg_preset = PCustom, rg_from = Some a, rg_to = Some b\<rparr> = (Some h, st)"
    "a \<le> m" "m \<le> b"
  shows "(\<forall>repo \<in> set names. \<exists>c \<in> set (sn_coverage s). cg_repo c = repo \<and> cg_from c \<le> a) \<and>
    map_option bh_commits (sn_history s) = Some (int (length (sn_commits s))) \<and>
    (\<exists>h1 h2 st1 st2.
       revertForRange config names s \<lparr>rg_preset = PCustom, rg_from = Some a, rg_to = Some m\<rparr> = (Some h1, st1) \<and>
       revertForRange config names s \<lparr>rg_preset = PCustom, rg_from = Some m, rg_to = Some b\<rparr> = (Some h2, st2) \<and>
       bh_commits h = bh_commits h1 + bh_commits h2 \<and> bh_reverts h = bh_reverts h1 + bh_reverts h2)"
proof -
  let ?r = "\<lambda>a b. \<lparr>rg_preset = PCustom, rg_from = Some a, rg_to = Some b\<rparr>"
  have all: "\<not> isAllTime (?r x y)" for x y by (simp add: isAllTime_def)
  from assms(1) all show ?thesis
  proof (cases rule: revertForRangeE)
    case (1 H)
    have cov: "\<forall>c \<in> set (sn_coverage s). cg_from c \<le> a" "\<forall>repo \<in> set names. \<exists>c \<in> set (sn_coverage s). cg_repo c = repo"
      using 1(5) by (simp_all add: covered_iff)
    have u: "uncovered names s (?r a m) = []" "uncovered names s (?r m b) = []"
      using cov assms(2) by (auto simp: covered_iff intro: order_trans)
    obtain h1 st1 where h1: "revertForRange config names s (?r a m) = (Some h1, st1)"
        "bh_commits h1 = int (length (commits_in s (?r a m)))" "bh_reverts h1 = int (length (filter cm_isRevert (commits_in s (?r a m))))"
      using revertForRangeI [OF all 1(1-4) u(1)] by blast
    obtain h2 st2 where h2: "revertForRange config names s (?r m b) = (Some h2, st2)"
        "bh_commits h2 = int (length (commits_in s (?r m b)))" "bh_reverts h2 = int (length (filter cm_isRevert (commits_in s (?r m b))))"
      using revertForRangeI [OF all 1(1-4) u(2)] by blast
    have "bh_commits h = bh_commits h1 + bh_commits h2"
      using split_at [OF assms(2,3), of "\<lambda>c. True" cm_committedAt "sn_commits s"] by (simp add: 1(6) h1(2) h2(2) commits_in_def)
    moreover have "bh_reverts h = bh_reverts h1 + bh_reverts h2"
      using split_at [OF assms(2,3), of cm_isRevert cm_committedAt "sn_commits s"] by (simp add: 1(7) h1(3) h2(3) commits_in_def conj_commute)
    ultimately show ?thesis using h1(1) h2(1) cov 1(1,4) by auto
  qed
qed

text \<open>Three commits of one repository, one of them a revert.\<close>

definition sample_sliced :: StatsSnapshot where
  "sample_sliced = \<lparr>sn_derived = [], sn_history = Some \<lparr>bh_branch = ''dev'', bh_since = ''2025-01-01'', bh_commits = 3, bh_reverts = 1\<rparr>,
     sn_commits = map (\<lambda>(t, r). \<lparr>cm_repo = ''o/r'', cm_committedAt = t, cm_isRevert = r\<rparr>)
       [(''2025-01-02'', False), (''2025-01-04'', True), (''2025-01-06'', False)],
     sn_coverage = [\<lparr>cg_repo = ''o/r'', cg_from = ''2025-01-01''\<rparr>], sn_rateLimit = None,
     sn_revert = \<lparr>rx_status = RvOk, rx_reason = None\<rparr>\<rparr>"

lemma sample_slice:
  "revertForRange sample_config [''o/r''] sample_sliced \<lparr>rg_preset = PCustom, rg_from = Some ''2025-01-02'', rg_to = Some ''2025-01-06''\<rparr> =
     (Some \<lparr>bh_branch = ''dev'', bh_since = ''2025-01-02'', bh_commits = 2, bh_reverts = 1\<rparr>, \<lparr>rx_status = RvOk, rx_reason = None\<rparr>)"
  by (simp add: revertForRange_def sample_sliced_def isAllTime_def uncovered_def commits_in_def sample_config_def)

theorem range_rates_add_up_witness:
  "\<exists>h1 h2 st1 st2.
     revertForRange sample_config [''o/r''] sample_sliced \<lparr>rg_preset = PCustom, rg_from = Some ''2025-01-02'', rg_to = Some ''2025-01-03''\<rparr> = (Some h1, st1) \<and>
     revertForRange sample_config [''o/r''] sample_sliced \<lparr>rg_preset = PCustom, rg_from = Some ''2025-01-03'', rg_to = Some ''2025-01-06''\<rparr> = (Some h2, st2) \<and>
     (2::int) = bh_commits h1 + bh_commits h2 \<and> (1::int) = bh_reverts h1 + bh_reverts h2"
proof -
  have o: "''2025-01-02'' \<le> (''2025-01-03'' :: string)" "''2025-01-03'' \<le> (''2025-01-06'' :: string)" by simp_all
  from range_rates_add_up [OF sample_slice o] show ?thesis by simp
qed


section \<open>A rescan of a base branch\<close>

lemma branch_of_one: "branch_of org provider [repo] branch k \<longleftrightarrow> k = (org, provider, repo, branch)"
  by (cases k) (auto simp: branch_of_def)

lemma stored_commits_grow: "length (filter P t) \<le> length (filter P (fold (insert_new key) rs t))"
proof (induction rs arbitrary: t)
  case (Cons r rs)
  have "length (filter P t) \<le> length (filter P (insert_new key r t))" by (simp add: insert_new_def)
  then show ?case using Cons [of "insert_new key r t"] by (simp add: order_trans)
qed simp

lemma set_branch_historyE:
  assumes "set_branch_history k now since n m db = Inr db'"
  obtains row where "bw_branch row = k" "bw_commits row = n" "pd_branch_history db' = upsert_row bw_branch history_conflict row (pd_branch_history db)"
    "pd_branch_commits db' = pd_branch_commits db"
proof -
  from assms obtain t where t: "date_us since = Some t" by (auto simp: set_branch_history_def split: option.splits)
  show ?thesis
    by (rule that [of "\<lparr>bw_branch = k, bw_covered_from = t, bw_commits = n, bw_reverts = m, bw_scanned_at = now\<rparr>"])
      (use assms t in \<open>auto simp: set_branch_history_def split: if_splits\<close>)
qed

lemma totals_replaced:
  assumes "distinct (map bw_branch t)"
  shows "map bw_commits (filter (\<lambda>q. bw_branch q = bw_branch r) (upsert_row bw_branch history_conflict r t)) = [bw_commits r]"
proof (cases "bw_branch r \<in> bw_branch ` set t")
  case True
  then obtain old where "old \<in> set t" "bw_branch old = bw_branch r" by auto
  from histories.upsert_stored [OF assms this] show ?thesis by (simp add: history_conflict_def)
next
  case False
  then have "filter (\<lambda>q. bw_branch q = bw_branch r) t = []" unfolding filter_empty_conv by (metis image_eqI)
  with histories.upsert_new [OF False] show ?thesis by simp
qed

text \<open>What the two tables hold of a branch after a scan of it is written.\<close>

lemma scan_written:
  assumes "run_statements None (saveBranchHistory org now provider repo branch since n m cs) db = (Inr u, db')" "pr_tables_ok db"
  shows "map bv_commits (loadBranchCoverage org provider [repo] branch db') = [n] \<and>
    length (loadBranchCommits org provider [repo] branch db) \<le> length (loadBranchCommits org provider [repo] branch db')"
proof -
  let ?k = "(org, provider, repo, branch)" and ?P = "\<lambda>r. bc_branch r = (org, provider, repo, branch)"
  obtain d where d: "length (filter ?P (pd_branch_commits db)) \<le> length (filter ?P (pd_branch_commits d))"
      "pd_branch_history d = pd_branch_history db" "set_branch_history ?k now since n m d = Inr db'"
  proof (cases "cs = []")
    case True
    then show ?thesis using that [of db] assms(1) by (auto simp: saveBranchHistory_def split: sum.splits)
  next
    case False
    then obtain d where a: "add_branch_commits ?k cs db = Inr d" "set_branch_history ?k now since n m d = Inr db'"
      using assms(1) by (auto simp: saveBranchHistory_def Let_def split: sum.splits)
    then show ?thesis by (intro that [of d]) (auto simp: add_branch_commits_def stored_commits_grow split: sum.splits)
  qed
  from d(3) obtain row where row: "bw_branch row = ?k" "bw_commits row = n"
      "pd_branch_history db' = upsert_row bw_branch history_conflict row (pd_branch_history d)" "pd_branch_commits db' = pd_branch_commits d"
    by (rule set_branch_historyE)
  have "distinct (map bw_branch (pd_branch_history db))" using assms(2) by (simp add: pr_tables_ok_def)
  from totals_replaced [OF this, of row] have "map bw_commits (filter (\<lambda>q. bw_branch q = ?k) (pd_branch_history db')) = [n]"
    by (simp add: row d(2))
  then show ?thesis using d(1) by (simp add: loadBranchCoverage_def loadBranchCommits_def branch_of_one row(4) comp_def)
qed

text \<open>
  A rescan forgets the history. What is said of all time after an incremental scan of a base branch, whose totals cover only
  what is newer than its newest stored commit less an hour, is the totals of that scan: however many commits are stored,
  the number reported is that of the scan, and as it disagrees with the stored commits, no narrower range has a rate.
\<close>

theorem rescan_forgets_the_history:
  assumes "run_statements None (history_statements config dbnow [h]) db = (Inr u, db')" "pr_tables_ok db"
    "rh_repo h = repo" "rh_branch h = ac_baseBranch config" "rh_history h = Some H"
    "bh_commits H < int (length (loadBranchCommits (ac_orgId config) GitHub [repo] (ac_baseBranch config) db))"
    "(sn_history s, sn_commits s, sn_coverage s, sn_revert s) = read_outcome config earliest [h]
       (Some (loadBranchCommits (ac_orgId config) GitHub [repo] (ac_baseBranch config) db',
         loadBranchCoverage (ac_orgId config) GitHub [repo] (ac_baseBranch config) db'))"
  shows "map_option bh_commits (sn_history s) = Some (bh_commits H) \<and> rx_status (sn_revert s) = RvOk \<and>
    bh_commits H < int (length (sn_commits s)) \<and> (isAllTime rng \<or> fst (revertForRange config [repo] s rng) = None)"
proof -
  let ?org = "ac_orgId config" and ?b = "ac_baseBranch config"
  have w: "run_statements None (saveBranchHistory ?org dbnow GitHub repo ?b (bh_since H) (bh_commits H) (bh_reverts H) (rh_commits h)) db = (Inr u, db')"
    using assms(1) by (simp add: history_statements_def assms(3-5))
  from scan_written [OF w assms(2)] have v: "map bv_commits (loadBranchCoverage ?org GitHub [repo] ?b db') = [bh_commits H]"
      "length (loadBranchCommits ?org GitHub [repo] ?b db) \<le> length (loadBranchCommits ?org GitHub [repo] ?b db')" by blast+
  have s: "sn_history s = Some (stored_history config (loadBranchCoverage ?org GitHub [repo] ?b db'))" "rx_status (sn_revert s) = RvOk"
      "sn_commits s = map commit_point (loadBranchCommits ?org GitHub [repo] ?b db')"
    using assms(7) by (simp_all add: read_outcome_def)
  have n: "bh_commits (stored_history config (loadBranchCoverage ?org GitHub [repo] ?b db')) = bh_commits H"
    unfolding stored_history_def by (simp add: v(1))
  have "bh_commits H < int (length (sn_commits s))" using assms(6) v(2) by (simp add: s(3))
  moreover then have "fst (revertForRange config [repo] s rng) = None" if "\<not> isAllTime rng"
    using that by (simp add: revertForRange_def revert_unavailable_def Let_def s(1,2) n)
  ultimately show ?thesis using s n by (cases "isAllTime rng") simp_all
qed


text \<open>The revert rate after a scan that found the newest of three stored commits again.\<close>

definition scanned_db :: pr_db where
  "scanned_db = empty_pr_db\<lparr>pd_branch_commits := map (\<lambda>(sha, t). \<lparr>bc_branch = (''org'', GitHub, ''o/r'', ''dev''), bc_sha = sha,
       bc_committed_at = t, bc_message_headline = ''Fix''\<rparr>) [(''a'', 1000), (''b'', 2000), (''c'', 3000)],
     pd_branch_history := [\<lparr>bw_branch = (''org'', GitHub, ''o/r'', ''dev''), bw_covered_from = 0, bw_commits = 3, bw_reverts = 0,
       bw_scanned_at = 0\<rparr>]\<rparr>"

definition rescan :: RepoBranchHistory where
  "rescan = \<lparr>rh_repo = ''o/r'', rh_branch = ''dev'',
     rh_history = Some \<lparr>bh_branch = ''dev'', bh_since = ''1970-01-01T00:00:00.000Z'', bh_commits = 1, bh_reverts = 0\<rparr>,
     rh_commits = [\<lparr>bk_sha = ''c'', bk_committedAt = ''1970-01-01T00:00:00.003Z'', bk_messageHeadline = ''Fix''\<rparr>]\<rparr>"

definition rescanned_db :: pr_db where
  "rescanned_db = scanned_db\<lparr>pd_branch_history := [\<lparr>bw_branch = (''org'', GitHub, ''o/r'', ''dev''), bw_covered_from = 0,
       bw_commits = 1, bw_reverts = 0, bw_scanned_at = 5\<rparr>]\<rparr>"

lemma rescan_written: "run_statements None (history_statements sample_config 5 [rescan]) scanned_db = (Inr (), rescanned_db)"
  by code_simp

lemma scanned_db_ok: "pr_tables_ok scanned_db"
  by (simp add: pr_tables_ok_def scanned_db_def empty_pr_db_def child_owners_def)

definition rescanned :: StatsSnapshot where
  "rescanned = (case read_outcome sample_config ''x'' [rescan] (Some (loadBranchCommits ''org'' GitHub [''o/r''] ''dev'' rescanned_db,
       loadBranchCoverage ''org'' GitHub [''o/r''] ''dev'' rescanned_db)) of
     (h, cs, cov, r) \<Rightarrow> \<lparr>sn_derived = [], sn_history = h, sn_commits = cs, sn_coverage = cov, sn_rateLimit = None, sn_revert = r\<rparr>)"

theorem rescan_forgets_the_history_witness:
  "map_option bh_commits (sn_history rescanned) = Some 1 \<and> 1 < length (sn_commits rescanned) \<and>
   fst (revertForRange sample_config [''o/r''] rescanned \<lparr>rg_preset = PCustom, rg_from = Some ''1970'', rg_to = None\<rparr>) = None"
proof -
  let ?H = "\<lparr>bh_branch = ''dev'', bh_since = ''1970-01-01T00:00:00.000Z'', bh_commits = 1, bh_reverts = 0\<rparr>"
  have h: "rh_repo rescan = ''o/r''" "rh_branch rescan = ac_baseBranch sample_config" "rh_history rescan = Some ?H"
    by (simp_all add: rescan_def sample_config_def)
  have n: "bh_commits ?H < int (length (loadBranchCommits (ac_orgId sample_config) GitHub [''o/r''] (ac_baseBranch sample_config) scanned_db))"
    by (simp add: loadBranchCommits_def scanned_db_def branch_of_def sample_config_def empty_pr_db_def)
  have r: "(sn_history rescanned, sn_commits rescanned, sn_coverage rescanned, sn_revert rescanned) = read_outcome sample_config ''x'' [rescan]
      (Some (loadBranchCommits (ac_orgId sample_config) GitHub [''o/r''] (ac_baseBranch sample_config) rescanned_db,
        loadBranchCoverage (ac_orgId sample_config) GitHub [''o/r''] (ac_baseBranch sample_config) rescanned_db))"
    by (simp add: rescanned_def sample_config_def split_beta)
  from rescan_forgets_the_history [OF rescan_written scanned_db_ok h n r,
      of "\<lparr>rg_preset = PCustom, rg_from = Some ''1970'', rg_to = None\<rparr>"] show ?thesis
    by (simp add: isAllTime_def)
qed


section \<open>A sync without repositories\<close>

text \<open>
  A sync the installation's list fails is not reported: it ends before the part of it whose failures are recorded, so that a
  service with no figures yet still says it is loading, keeps no instant to pause from, and has another sync due at
  once, of the next request and of every one after it.
\<close>

theorem unlisted_sync_is_unreported:
  assumes "svc_ok w" "sx_produce w = Some AtRepos" "snapshot (sx_repos w) = []" "e \<noteq> []" "sl_entry (sx_cache w) = None"
    "w' = svc_step coll config now (EvRepos (FromClient (Inl e))) w"
  shows "sx_produce w' = None \<and> ft_state (sx_fetchState w') = FtLoading \<and> ft_error (sx_fetchState w') = ft_error (sx_fetchState w) \<and>
    sx_lastFailureAt w' = sx_lastFailureAt w \<and> sl_entry (sx_cache w') = None \<and>
    (sx_lastFailureAt w = None \<and> sx_priming w = None \<longrightarrow> sync_due config later w')"
proof -
  have p: "sl_pending (so_slot (sx_repos w))" and l: "ft_state (sx_fetchState w) = FtLoading"
    using assms(1,2) by (auto simp: svc_ok_def)
  have s: "snapshot (list_answered now (FromClient (Inl e)) (sx_repos w)) = []"
    by (subst failed_list_keeps_snapshot) (simp_all add: assms(3))
  have t: "truthy (so_error (list_answered now (FromClient (Inl e)) (sx_repos w)))"
    using assms(4) by (simp add: list_answered_def truthy_def)
  show ?thesis
    using l s t assms(2,5) by (simp add: assms(6) svc_step_def p repos_settled_def produce_listed_def Let_def slot_produced_def
        sync_due_def slot_isStale_def)
qed

theorem unlisted_sync_is_unreported_witness:
  "sync_due sample_config 3 (svc_run (\<lambda>s. s) sample_config [(0, EvEnsureFresh), (1, EvRepos (FromClient (Inl ''gone'')))] (createStatsService empty_pr_db))"
proof -
  let ?w = "svc_step (\<lambda>s. s) sample_config 0 EvEnsureFresh (createStatsService empty_pr_db)"
  have ok: "svc_ok ?w" by (rule svc_step_ok [OF createStatsService_ok [OF empty_pr_db_ok]])
  have w: "sx_produce ?w = Some AtRepos" "snapshot (sx_repos ?w) = []" "sl_entry (sx_cache ?w) = None" "sx_lastFailureAt ?w = None"
      "sx_priming ?w = None"
    by (simp_all add: svc_step_def ensureFresh_def createStatsService_def sync_due_def telemetry_due_def start_def list_begin_def
        slot_isStale_def new_repo_source_def new_slot_def sample_config_def slot_refresh_def snapshot_def)
  have "''gone'' \<noteq> ([] :: string)" by simp
  from unlisted_sync_is_unreported [OF ok w(1,2) this w(3) refl, where coll = "\<lambda>s. s" and config = sample_config and now = 1 and later = 3]
  show ?thesis using w(4,5) by simp
qed


end
