(* ===== verification/GithubTheorems.thy ===== *)
theory GithubTheorems
  imports GithubFacts WalkTheorems
begin

text \<open>
  What a fetch from GitHub brings, and the client, the service and the store together: a sync that starts from a watermark leaves
  stored whatever a walk of everything would have.
\<close>

section \<open>What a fetch brings\<close>

text \<open>The pull request a listed one is handed on as.\<close>

definition fetched_as :: "listing \<Rightarrow> Repo \<Rightarrow> RawPullRequest \<Rightarrow> CanonicalPr \<Rightarrow> bool" where
  "fetched_as L repo pr c \<longleftrightarrow> toCanonical (refilled L repo pr) (fullName repo) = Inr c"

lemma toCanonical_known:
  assumes "\<forall>r \<in> set (rp_reviews raw). rr_state r \<in> fst ` set REVIEW_STATES"
  shows "\<exists>c. toCanonical raw repo = Inr c"
proof -
  have "\<exists>c. canonical_review r = Inr c" if "r \<in> set (rp_reviews raw)" for r
  proof -
    have "map_of REVIEW_STATES (rr_state r) \<noteq> None" using assms that by (simp add: map_of_eq_None_iff)
    then show ?thesis by (auto simp: canonical_review_def reviewState_def)
  qed
  then obtain g where "\<And>r. r \<in> set (rp_reviews raw) \<Longrightarrow> canonical_review r = Inr (g r)" by metis
  then have "all_or_throw canonical_review (rp_reviews raw) = Inr (map g (rp_reviews raw))"
    by (rule all_or_throw_ok)
  then show ?thesis by (simp add: toCanonical_def)
qed

lemma fetched_as_known: "serves_pull api L repo pr \<Longrightarrow> \<exists>c. fetched_as L repo pr c"
  unfolding fetched_as_def by (rule toCanonical_known) (auto simp: serves_pull_def refilled_def)

lemma fetch_served:
  assumes "github_serves api mode cutoff repos L"
  shows "\<exists>res ps s'. fetchPullRequests api repos mode cutoff s = Some (Inr (res, ps), s') \<and>
    (\<forall>repo \<in> set repos. walk_completed res (fullName repo)) \<and>
    (\<forall>repo \<in> set repos. \<forall>pr \<in> set (concat (ls_pulls L repo)). wanted (stop_at mode cutoff repo) pr \<longrightarrow>
       (\<exists>c \<in> set (pq_prs res). fetched_as L repo pr c)) \<and>
    (\<forall>c \<in> set (pq_prs res). \<exists>repo \<in> set repos. \<exists>pr \<in> set (concat (ls_pulls L repo)). fetched_as L repo pr c)"
proof -
  obtain raw rl ps s1 where w: "walk_repos api mode cutoff repos ([], None, []) s = Some (Inr (raw, rl, ps), s1)"
      "\<forall>(repo, pr) \<in> set raw. repo \<in> set repos \<and> pr \<in> set (concat (ls_pulls L repo))"
      "\<forall>repo \<in> set repos. \<forall>pr \<in> set (concat (ls_pulls L repo)). wanted (stop_at mode cutoff repo) pr \<longrightarrow> (repo, pr) \<in> set raw"
    using walk_repos_served [OF assms, of "([], None, [])" s] by auto
  have sp: "serves_pull api L repo pr" if "(repo, pr) \<in> set raw" for repo pr
    using w(2) that assms by (auto simp: github_serves_def)
  then have "\<forall>(repo, pr) \<in> set raw. serves_pull api L repo pr" by auto
  from backfill_all_served [OF this, of ps s1] obtain ps' s2
    where b: "backfill_all api raw ps s1 = (Inr (map (\<lambda>(repo, pr). (repo, refilled L repo pr)) raw, ps'), s2)" by blast
  have "\<forall>x. \<exists>c. x \<in> set raw \<longrightarrow> fetched_as L (fst x) (snd x) c" using fetched_as_known sp by force
  then obtain g where g: "\<And>x. x \<in> set raw \<Longrightarrow> fetched_as L (fst x) (snd x) (g x)" by metis
  have "all_or_throw (\<lambda>(repo, pr). toCanonical pr (fullName repo)) (map (\<lambda>(repo, pr). (repo, refilled L repo pr)) raw) = Inr (map g raw)"
    using g by (induction raw) (auto simp: fetched_as_def)
  then have c: "canonical_pulls (map (\<lambda>(repo, pr). (repo, refilled L repo pr)) raw) = Inr (map g raw)"
    by (simp add: canonical_pulls_def)
  let ?res = "\<lparr>pq_prs = map g raw, pq_rateLimit = rl, pq_completed = map (\<lambda>repo. (fullName repo, True)) repos\<rparr>"
  have "fetchPullRequests api repos mode cutoff s = Some (Inr (?res, ps'), s2)"
    by (simp add: fetchPullRequests_def w(1) b c)
  moreover have "walk_completed ?res (fullName repo)" if "repo \<in> set repos" for repo
    using that unfolding walk_completed_def by (induction repos) auto
  moreover have "\<exists>c \<in> set (pq_prs ?res). fetched_as L repo pr c"
    if "repo \<in> set repos" "pr \<in> set (concat (ls_pulls L repo))" "wanted (stop_at mode cutoff repo) pr" for repo pr
    using w(3) that g [of "(repo, pr)"] by force
  moreover have "\<exists>repo \<in> set repos. \<exists>pr \<in> set (concat (ls_pulls L repo)). fetched_as L repo pr c" if "c \<in> set (pq_prs ?res)" for c
    using that w(2) g by fastforce
  ultimately show ?thesis by blast
qed

text \<open>
  C35: A fetch brings every change. Of repositories whose pull requests GitHub serves in pages (in the order asked for, each request
  answered within its three attempts), the fetch comes to its end, completes every walk, and brings every
  listed pull request that is no older than its repository's cutoff, with all of its reviews and threads where the first page
  cut them off; a repository without a cutoff it brings whole. It brings nothing that is not listed.
\<close>

theorem fetch_brings_every_change:
  assumes "github_serves api mode cutoff repos L"
  shows "\<exists>res ps s'. fetchPullRequests api repos mode cutoff s = Some (Inr (res, ps), s') \<and>
    (\<forall>repo \<in> set repos. walk_completed res (fullName repo)) \<and>
    (\<forall>repo \<in> set repos. \<forall>pr \<in> set (concat (ls_pulls L repo)). wanted (stop_at mode cutoff repo) pr \<longrightarrow>
       (\<exists>c \<in> set (pq_prs res). fetched_as L repo pr c)) \<and>
    (\<forall>c \<in> set (pq_prs res). \<exists>repo \<in> set repos. \<exists>pr \<in> set (concat (ls_pulls L repo)). fetched_as L repo pr c)"
  by (rule fetch_served [OF assms])

text \<open>A GitHub that answers every other request with a 502: two pull requests of \<open>k\<close> reviews, one to a page.\<close>

definition flaky :: "'d \<Rightarrow> nat \<Rightarrow> 'd gql_answer \<times> nat" where
  "flaky d n = (if even n then RefusedResponse \<lparr>rf_status = 502, rf_remaining = None, rf_reset = None, rf_text = []\<rparr> else Answer [] d, n + 1)"

definition sample_raw :: "int \<Rightarrow> int \<Rightarrow> string \<Rightarrow> RawPullRequest" where
  "sample_raw k n updated = \<lparr>rp_number = n, rp_title = ''t'', rp_state = RawMerged, rp_isDraft = False, rp_baseRefName = ''dev'',
     rp_headRefName = ''f'', rp_createdAt = ''2025-01-01T00:00:00Z'', rp_updatedAt = updated, rp_mergedAt = Some updated,
     rp_closedAt = Some updated, rp_additions = 1, rp_deletions = 0, rp_changedFiles = 1, rp_author = None, rp_commitCount = 0,
     rp_commits = [], rp_commentCount = 0, rp_labels = [], rp_reviewCount = k, rp_reviews = [], rp_threadCount = 0, rp_threads = [],
     rp_forcePushes = 0, rp_readyForReview = []\<rparr>"

definition sample_reviews :: "raw_review list" where
  "sample_reviews = replicate 101 \<lparr>rr_id = ''r'', rr_author = None, rr_state = ''APPROVED'', rr_submittedAt = None\<rparr>"

definition one_page :: "'n list \<Rightarrow> 'n Connection" where
  "one_page ns = \<lparr>co_nodes = ns, co_hasNextPage = False, co_endCursor = []\<rparr>"

abbreviation newer_raw :: "int \<Rightarrow> RawPullRequest" where "newer_raw k \<equiv> sample_raw k 2 ''2025-02-01T00:00:00Z''"
abbreviation older_raw :: "int \<Rightarrow> RawPullRequest" where "older_raw k \<equiv> sample_raw k 1 ''2025-01-05T00:00:00Z''"

definition sample_page :: "int \<Rightarrow> string option \<Rightarrow> PrPage" where
  "sample_page k cursor = \<lparr>pp_page = (case cursor of None \<Rightarrow> \<lparr>co_nodes = [newer_raw k], co_hasNextPage = True, co_endCursor = ''p1''\<rparr>
     | Some c \<Rightarrow> one_page [older_raw k]), pp_rateLimit = None\<rparr>"

definition sample_api :: "int \<Rightarrow> nat github_api" where
  "sample_api k = \<lparr>ga_tokens = Some (\<lambda>s. (Inr ''t'', s)), ga_pulls = (\<lambda>token repo order cursor. flaky (sample_page k cursor)),
     ga_reviews = (\<lambda>token repo number cursor. flaky (one_page sample_reviews)),
     ga_threads = (\<lambda>token repo number cursor. flaky (one_page [])), ga_history = (\<lambda>token repo branch since cursor. flaky None)\<rparr>"

definition sample_served_listing :: "int \<Rightarrow> listing" where
  "sample_served_listing k = \<lparr>ls_pulls = (\<lambda>repo. [[newer_raw k], [older_raw k]]), ls_threads = (\<lambda>repo number. [[]]),
     ls_reviews = (\<lambda>repo number. [sample_reviews])\<rparr>"

definition sample_repo :: Repo where
  "sample_repo = \<lparr>repo_owner = ''o'', repo_name = ''r''\<rparr>"

lemma flaky_answers: "\<exists>s'. graphql (sample_api k) (\<lambda>token. flaky d) repo s = (Inr d, s')"
  by (simp add: graphql_def sample_api_def flaky_def numeral_3_eq_3 describeHttpFailure_def)

lemma sample_inner:
  "serves (\<lambda>cursor. graphql (sample_api k) (\<lambda>token. flaky (one_page ns)) repo) (\<lambda>c. c) (\<lambda>i. None) [ns]"
  using flaky_answers [of k "one_page ns" repo] by (fastforce simp: serves_def one_page_def)

lemma sample_pulls_served:
  "serves (pulls_ask (sample_api k) repo stop) pp_page (\<lambda>i. if i = 0 then None else Some ''p1'') [[newer_raw k], [older_raw k]]"
proof -
  have ask: "pulls_ask (sample_api k) repo stop cursor s = graphql (sample_api k) (\<lambda>token. flaky (sample_page k cursor)) repo s" for cursor s
    by (simp add: pulls_ask_def) (simp add: sample_api_def)
  have "\<exists>p s'. pulls_ask (sample_api k) repo stop (if i = 0 then None else Some ''p1'') s = (Inr p, s') \<and>
      co_nodes (pp_page p) = [[newer_raw k], [older_raw k]] ! i \<and> co_hasNextPage (pp_page p) = (Suc i < 2) \<and>
      (Suc i < 2 \<longrightarrow> Some ''p1'' = Some (co_endCursor (pp_page p)))" if "i < 2" for i s
  proof (cases i)
    case 0
    then show ?thesis using flaky_answers [of k "sample_page k None" repo s] by (fastforce simp: ask sample_page_def)
  next
    case (Suc j)
    then have "i = 1" using that by simp
    then show ?thesis using flaky_answers [of k "sample_page k (Some ''p1'')" repo s] by (fastforce simp: ask sample_page_def one_page_def)
  qed
  then show ?thesis by (simp add: serves_def numeral_2_eq_2)
qed

lemma sample_pull_served: "pr \<in> {newer_raw k, older_raw k} \<Longrightarrow> serves_pull (sample_api k) (sample_served_listing k) repo pr"
proof -
  assume pr: "pr \<in> {newer_raw k, older_raw k}"
  have t: "inner_ask (sample_api k) (ga_threads (sample_api k)) repo n = (\<lambda>cursor. graphql (sample_api k) (\<lambda>token. flaky (one_page [])) repo)"
    "inner_ask (sample_api k) (ga_reviews (sample_api k)) repo n = (\<lambda>cursor. graphql (sample_api k) (\<lambda>token. flaky (one_page sample_reviews)) repo)" for n
    by (simp_all add: inner_ask_eq) (simp_all add: sample_api_def)
  show ?thesis
    unfolding serves_pull_def t using pr sample_inner [of k "[]" repo] sample_inner [of k sample_reviews repo]
    by (auto simp: sample_served_listing_def sample_raw_def sample_reviews_def REVIEW_STATES_def)
qed

lemma sample_github: "github_serves (sample_api k) SyncIncremental cutoff [sample_repo] (sample_served_listing k)"
proof -
  have "\<exists>cur. serves (pulls_ask (sample_api k) sample_repo stop) pp_page cur (ls_pulls (sample_served_listing k) sample_repo)" for stop
    using sample_pulls_served [of k sample_repo stop] by (auto simp: sample_served_listing_def)
  moreover have "newest_first (concat (ls_pulls (sample_served_listing k) sample_repo))"
    by (simp add: sample_served_listing_def newest_first_def sample_raw_def)
  moreover have "\<forall>pr \<in> set (concat (ls_pulls (sample_served_listing k) sample_repo)). serves_pull (sample_api k) (sample_served_listing k) sample_repo pr"
    using sample_pull_served by (simp add: sample_served_listing_def)
  ultimately show ?thesis by (simp add: github_serves_def) (simp add: sample_served_listing_def sample_raw_def)
qed

theorem fetch_brings_every_change_witness:
  "\<exists>res ps s'. fetchPullRequests (sample_api 101) [sample_repo] SyncIncremental [(''o/r'', ''2025-01-20T00:00:00.000Z'')] 0 = Some (Inr (res, ps), s') \<and>
     walk_completed res ''o/r'' \<and> (\<exists>c \<in> set (pq_prs res). fetched_as (sample_served_listing 101) sample_repo (newer_raw 101) c)"
proof -
  let ?cut = "[(''o/r'', ''2025-01-20T00:00:00.000Z'')]"
  have n: "fullName sample_repo = ''o/r''" by (simp add: sample_repo_def fullName_def)
  have "wanted (stop_at SyncIncremental ?cut sample_repo) (newer_raw 101)"
    by (simp add: wanted_def stop_at_def n sample_raw_def)
  moreover have "(newer_raw 101) \<in> set (concat (ls_pulls (sample_served_listing 101) sample_repo))" by (simp add: sample_served_listing_def)
  ultimately show ?thesis
    using fetch_brings_every_change [OF sample_github [of 101 ?cut], of 0] unfolding n [symmetric] by fastforce
qed

end
