(* ===== verification/LiveSync.thy ===== *)
theory LiveSync
  imports GithubTheorems
begin

text \<open>
  The client, the service and the store together: a sync that starts from its watermarks leaves stored whatever a walk of
  everything would have.
\<close>

section \<open>What is stored of a pull request\<close>

text \<open>
  The row of the pull request, with the creation it was first stored with, and the rows of its reviews, threads, commits and labels:
  those of a list that came in full and no others, at least those of one that was cut short.
\<close>

definition stored_as :: "string \<Rightarrow> CanonicalPr \<Rightarrow> pr_db \<Rightarrow> bool" where
  "stored_as org c db \<longleftrightarrow>
     (\<exists>now row. pull_row_of org now c = Inr row \<and> (\<exists>r \<in> set (pd_pulls db). r = row\<lparr>pu_created_at := pu_created_at r\<rparr>)) \<and>
     lists_stored org c db"

definition same_pulls :: "pr_db \<Rightarrow> pr_db \<Rightarrow> bool" where
  "same_pulls x y \<longleftrightarrow> pd_pulls y = pd_pulls x \<and> pd_reviews y = pd_reviews x \<and> pd_threads y = pd_threads x \<and>
     pd_commits y = pd_commits x \<and> pd_labels y = pd_labels x"

lemma stored_as_same: "same_pulls x y \<Longrightarrow> stored_as org c y = stored_as org c x"
  by (simp add: same_pulls_def stored_as_def lists_stored_def)

lemma lists_stored_elsewhere:
  assumes "same_elsewhere k a b" "key_of_pr org d \<noteq> k" shows "lists_stored org d b = lists_stored org d a"
proof -
  let ?q = "key_of_pr org d"
  have "filter (\<lambda>c. rv_pr c = ?q) (pd_reviews b) = filter (\<lambda>c. rv_pr c = ?q) (pd_reviews a)"
    "filter (\<lambda>c. tw_pr c = ?q) (pd_threads b) = filter (\<lambda>c. tw_pr c = ?q) (pd_threads a)"
    "filter (\<lambda>c. cw_pr c = ?q) (pd_commits b) = filter (\<lambda>c. cw_pr c = ?q) (pd_commits a)"
    "filter (\<lambda>c. lw_pr c = ?q) (pd_labels b) = filter (\<lambda>c. lw_pr c = ?q) (pd_labels a)"
    using assms(1) unfolding same_elsewhere_def by (metis filter_other_key [OF _ assms(2)])+
  then show ?thesis by (simp only: lists_stored_def Let_def)
qed

lemma save_pull_stores:
  assumes "save_pull org now c a = Inr b" shows "stored_as org c b"
  using assms
proof (cases rule: save_pullE)
  case (1 row reviews threads commits labels)
  have "\<exists>r \<in> set (upsert_row pull_key pull_conflict row (pd_pulls a)). r = row\<lparr>pu_created_at := pu_created_at r\<rparr>"
  proof (cases "pull_key row \<in> pull_key ` set (pd_pulls a)")
    case True
    then obtain old where "old \<in> set (pd_pulls a)" "pull_key old = pull_key row" by (metis imageE)
    then have "pull_conflict old row \<in> set (upsert_row pull_key pull_conflict row (pd_pulls a))"
      by (force simp: upsert_row_def sql_exists_iff set_sql_update)
    then show ?thesis by (intro bexI [of _ "pull_conflict old row"]) (simp_all add: pull_conflict_def)
  next
    case False
    from pulls.upsert_new [OF this] show ?thesis by (intro bexI [of _ row]) simp_all
  qed
  then show ?thesis unfolding stored_as_def using 1(1) save_lists_stored [OF assms] by (auto simp: 1(7))
qed

lemma save_pull_keeps:
  assumes "save_pull org now c a = Inr b" "stored_as org d a" "key_of_pr org d \<noteq> key_of_pr org c" shows "stored_as org d b"
proof -
  from assms(2) obtain at' row r where r: "pull_row_of org at' d = Inr row" "r \<in> set (pd_pulls a)" "r = row\<lparr>pu_created_at := pu_created_at r\<rparr>"
    by (auto simp: stored_as_def)
  have "pull_key r = pull_key row" by (subst r(3)) (simp add: pull_key_def)
  then have "pull_key r \<noteq> key_of_pr org c" using pull_row_of_key [OF r(1)] assms(3) by simp
  then have "r \<in> set (filter (\<lambda>q. pull_key q \<noteq> key_of_pr org c) (pd_pulls b))"
    using save_elsewhere [OF assms(1)] r(2) by (simp add: same_elsewhere_def)
  then show ?thesis
    using r(1,3) assms(2) lists_stored_elsewhere [OF save_elsewhere [OF assms(1)] assms(3)] by (auto simp: stored_as_def)
qed

lemma saves_store:
  "run_statements None (savePullRequests org now prs @ sts) a = (Inr u, b) \<Longrightarrow>
   (\<And>st x y. st \<in> set sts \<Longrightarrow> st x = Inr y \<Longrightarrow> same_pulls x y) \<Longrightarrow>
   c \<in> set prs \<or> stored_as org c a \<Longrightarrow> (\<forall>d \<in> set prs. key_of_pr org d = key_of_pr org c \<longrightarrow> d = c) \<Longrightarrow> stored_as org c b"
proof (induction prs arbitrary: a)
  case Nil
  have "same_pulls a (snd (run_statements None sts a))"
    by (rule run_statements_rel [where R = same_pulls]) (use Nil(2) in \<open>auto simp: same_pulls_def\<close>)
  then show ?case using Nil stored_as_same by (auto simp: savePullRequests_def)
next
  case (Cons p ps)
  then obtain a1 where p: "save_pull org now p a = Inr a1"
      and r: "run_statements None (savePullRequests org now ps @ sts) a1 = (Inr u, b)"
    by (auto simp: savePullRequests_def split: sum.splits)
  have "c \<in> set ps \<or> stored_as org c a1"
    using Cons.prems(3,4) save_pull_stores [OF p] save_pull_keeps [OF p] by fastforce
  from Cons.IH [OF r Cons.prems(2) this] Cons.prems(4) show ?case by simp
qed

lemma recordSync_same: "recordSync org now provider repo kind watermarkAt mode rateLimit epoch x = Inr y \<Longrightarrow> same_pulls x y"
  by (auto simp: recordSync_def same_pulls_def split: option.splits)

section \<open>A sync from its watermarks\<close>

definition measured_repos :: "stats_service \<Rightarrow> Repo list" where
  "measured_repos w = map (\<lambda>r. \<lparr>repo_owner = ir_owner r, repo_name = ir_name r\<rparr>) (snapshot (sx_repos w))"

text \<open>A change no older than the watermarks of its repository, less the overlap.\<close>

definition changed_since :: "AppConfig \<Rightarrow> pr_db \<Rightarrow> Repo \<Rightarrow> RawPullRequest \<Rightarrow> bool" where
  "changed_since config db repo pr \<longleftrightarrow>
     (\<forall>y \<in> set (pd_sync db). \<forall>t. sy_key y = (ac_orgId config, GitHub, fullName repo, PR_KIND) \<and> sy_watermark_at y = Some t \<longrightarrow>
        to_iso (t div 1000 - SYNC_OVERLAP_MS) \<le> rp_updatedAt pr)"

lemma to_iso_le: "u \<le> v \<Longrightarrow> common_era u \<Longrightarrow> common_era v \<Longrightarrow> to_iso u \<le> to_iso v"
  using to_iso_less_iff [of u v] by (cases "u = v") auto

lemma changed_is_wanted:
  assumes "buildCutoff names now (read_or_none d1 (readSyncState (ac_orgId config) GitHub names PR_KIND db))
      (read_or_none d2 (oldestOpenUpdatedAt (ac_orgId config) GitHub names db)) = Some cutoff" "dated_db db" "common_era (now - RECENT_WINDOW_MS)" "changed_since config db repo pr"
  shows "wanted (stop_at mode cutoff repo) pr"
proof (cases "truthy (stop_at mode cutoff repo)")
  case True
  then obtain c where c: "stop_at mode cutoff repo = Some c" "map_of cutoff (fullName repo) = Some c"
    by (auto simp: stop_at_def truthy_def split: if_splits)
  from cutoff_reaches [OF assms(1) map_of_SomeD [OF c(2)] assms(2)] assms(3)
  obtain u y t where u: "c = to_iso u" "common_era u" "y \<in> set (pd_sync db)" "sy_key y = (ac_orgId config, GitHub, fullName repo, PR_KIND)"
      "sy_watermark_at y = Some t" "u \<le> t div 1000 - SYNC_OVERLAP_MS"
    by (auto simp: reaches_back_def)
  have "common_era (t div 1000 - SYNC_OVERLAP_MS)" using assms(2) u(3,5) by (force simp: dated_db_def)
  from to_iso_le [OF u(6,2) this] have "c \<le> rp_updatedAt pr"
    using assms(4) u(1,3-5) by (auto simp: changed_since_def)
  then show ?thesis by (simp add: wanted_def c(1))
qed (simp add: wanted_def)

lemma fetched_key: "fetched_as L repo pr c \<Longrightarrow> key_of_pr org c = (org, GitHub, fullName repo, rp_number pr)"
  by (auto simp: fetched_as_def toCanonical_def key_of_pr_def refilled_def split: sum.splits)

lemma reads_keep:
  assumes "w1 = svc_run coll config [(t1, EvRead d1), (now, EvRead d2)] w" "sx_produce w = Some (AtSyncState prev)"
  shows "sx_db w1 = sx_db w" "sx_repos w1 = sx_repos w"
  using assms(2) unfolding assms(1)
  by (cases d1; cases d2; auto simp: svc_step_def got_sync_state_def got_open_prs_def tryStore_def answered_def produce_failed_def
      Let_def split: option.splits)+

text \<open>
  C36: An incremental sync misses nothing. Take a sync decided from what the store answered, at any time, of repositories GitHub serves in pages,
  and let every listed pull request be stored as it is, or have changed no longer than five minutes before the watermark of
  its repository (however late GitHub showed the change). When the sync has fetched and its writing came through, every listed
  pull request is stored as a walk of everything would have brought it, with its reviews, threads, commits and labels: a list
  that came in full replaces what was stored of it, one that was cut short is among what is stored.
\<close>

theorem incremental_sync_misses_nothing:
  assumes "sx_produce w = Some (AtSyncState prev)" "dated_db (sx_db w)" "common_era (now - RECENT_WINDOW_MS)"
    "w1 = svc_run coll config [(t1, EvRead d1), (now, EvRead d2)] w" "sx_produce w1 = Some (AtFetch prev' mode cutoff)"
    "repos = measured_repos w" "inj_on fullName (set repos)" "github_serves api mode cutoff repos L"
    "fetchPullRequests api repos mode cutoff s = Some (Inr (res, ps), s')"
    "w2 = svc_run coll config [(t2, EvPullRequests (Inr res)), (t3, EvWrite None dbnow)] w1"
    "fst (run_statements None (pull_statements config dbnow (repoNames w) mode res) (sx_db w)) = Inr ()"
    "\<forall>repo \<in> set repos. \<forall>pr \<in> set (concat (ls_pulls L repo)). \<forall>c. fetched_as L repo pr c \<longrightarrow>
       stored_as (ac_orgId config) c (sx_db w) \<or> changed_since config (sx_db w) repo pr"
  shows "\<forall>repo \<in> set repos. \<forall>pr \<in> set (concat (ls_pulls L repo)). \<forall>c. fetched_as L repo pr c \<longrightarrow> stored_as (ac_orgId config) c (sx_db w2)"
proof (intro ballI allI impI)
  fix repo pr c
  assume repo: "repo \<in> set repos" and pr: "pr \<in> set (concat (ls_pulls L repo))" and c: "fetched_as L repo pr c"
  let ?org = "ac_orgId config" and ?sts = "pull_statements config dbnow (repoNames w) mode res"
  note keep = reads_keep [OF assms(4,1)]
  have names: "repoNames w1 = repoNames w" by (simp add: repoNames_def keep(2))
  have db: "run_statements None ?sts (sx_db w) = (Inr (), sx_db w2)"
    using assms(5,11) by (simp add: assms(10) svc_step_def got_pull_requests_def wrote_pull_requests_def keep Let_def
        split_beta prod_eq_iff repoNames_def)
  from fetch_served [OF assms(8), of s] assms(9)
  have brought: "\<forall>repo \<in> set repos. \<forall>pr \<in> set (concat (ls_pulls L repo)). wanted (stop_at mode cutoff repo) pr \<longrightarrow>
        (\<exists>c \<in> set (pq_prs res). fetched_as L repo pr c)"
      and listed: "\<forall>c \<in> set (pq_prs res). \<exists>repo \<in> set repos. \<exists>pr \<in> set (concat (ls_pulls L repo)). fetched_as L repo pr c"
    by auto
  have "c \<in> set (pq_prs res) \<or> stored_as ?org c (sx_db w)"
  proof (cases "changed_since config (sx_db w) repo pr")
    case True
    from changed_is_wanted [OF decided_walk(2) [OF assms(1,4,5)] assms(2,3) this]
    obtain d where "d \<in> set (pq_prs res)" "fetched_as L repo pr d" using brought repo pr by blast
    then show ?thesis using c by (simp add: fetched_as_def)
  next
    case False
    then show ?thesis using assms(12) repo pr c by blast
  qed
  moreover have "d = c" if m: "d \<in> set (pq_prs res)" and k: "key_of_pr ?org d = key_of_pr ?org c" for d
  proof -
    obtain repo' pr' where d: "repo' \<in> set repos" "pr' \<in> set (concat (ls_pulls L repo'))" "fetched_as L repo' pr' d"
      using bspec [OF listed m] by (elim bexE) (rule that)
    have same: "fullName repo' = fullName repo" "rp_number pr' = rp_number pr"
      using k unfolding fetched_key [OF d(3)] fetched_key [OF c] by simp_all
    have r: "repo' = repo" by (rule inj_onD [OF assms(7) same(1) d(1) repo])
    have "inj_on rp_number (set (concat (ls_pulls L repo)))"
      using assms(8) repo unfolding github_serves_def distinct_map by blast
    from inj_onD [OF this same(2)] have "pr' = pr" using d(2) pr r by blast
    then show ?thesis using d(3) c r unfolding fetched_as_def by simp
  qed
  ultimately show "stored_as ?org c (sx_db w2)"
    by (intro saves_store [OF db [unfolded pull_statements_def]]) (auto dest: recordSync_same)
qed

text \<open>The sample repository, with a watermark before both of its pull requests.\<close>

definition brought :: PullRequestsResult where
  "brought = (case fetchPullRequests (sample_api 0) [sample_repo] SyncIncremental [(''o/r'', ''2025-01-01T09:00:00.000Z'')] 0 of
     Some (Inr (res, ps), s) \<Rightarrow> res | _ \<Rightarrow> no_pulls)"

lemma brought_written:
  "fst (run_statements None (pull_statements sample_config 5 [''o/r''] SyncIncremental brought) walked_db) = Inr () \<and>
   common_era (1736931600000 - RECENT_WINDOW_MS) \<and> to_iso 1735925100000 = ''2025-01-03T17:25:00.000Z''"
  by code_simp

theorem incremental_sync_misses_nothing_witness:
  "\<exists>c. fetched_as (sample_served_listing 0) sample_repo (newer_raw 0) c \<and>
     stored_as ''org'' c (sx_db (svc_run (\<lambda>s. s) sample_config [(2, EvPullRequests (Inr brought)), (3, EvWrite None 5)]
       (svc_run (\<lambda>s. s) sample_config [(1736931600000, EvRead None), (1736931600000, EvRead None)] sample_deciding)))"
proof -
  let ?cut = "[(''o/r'', ''2025-01-01T09:00:00.000Z'')]"
  have n: "fullName sample_repo = ''o/r''" by (simp add: sample_repo_def fullName_def)
  have w: "sx_produce sample_deciding = Some (AtSyncState None)" "sx_db sample_deciding = walked_db"
    by (simp_all add: sample_deciding_def sample_waiting_def)
  have repos: "[sample_repo] = measured_repos sample_deciding"
    by (simp add: measured_repos_def sample_deciding_def sample_listing_def list_answered_def snapshot_def slot_produced_def sample_repo_def)
  have names: "repoNames sample_deciding = [''o/r'']"
    by (simp add: repoNames_def snapshotNames_def sample_deciding_def sample_listing_def list_answered_def snapshot_def slot_produced_def fullName_def)
  note served = sample_github [of 0 ?cut]
  obtain ps s' where fetched: "fetchPullRequests (sample_api 0) [sample_repo] SyncIncremental ?cut 0 = Some (Inr (brought, ps), s')"
    using fetch_served [OF served, of 0] by (auto simp: brought_def)
  have ok: "fst (run_statements None (pull_statements sample_config 5 (repoNames sample_deciding) SyncIncremental brought) (sx_db sample_deciding)) = Inr ()"
    using brought_written by (simp add: w(2) names)
  have changed: "changed_since sample_config walked_db sample_repo pr"
    if "pr \<in> set (concat (ls_pulls (sample_served_listing 0) sample_repo))" for pr
    using that brought_written by (auto simp: changed_since_def walked_db_def sample_served_listing_def sample_raw_def)
  have inj: "inj_on fullName (set [sample_repo])" by simp
  have all: "\<forall>repo \<in> set [sample_repo]. \<forall>pr \<in> set (concat (ls_pulls (sample_served_listing 0) repo)). \<forall>c.
      fetched_as (sample_served_listing 0) repo pr c \<longrightarrow>
      stored_as (ac_orgId sample_config) c (sx_db sample_deciding) \<or> changed_since sample_config (sx_db sample_deciding) repo pr"
    using changed by (simp add: w(2))
  have m: "newer_raw 0 \<in> set (concat (ls_pulls (sample_served_listing 0) sample_repo))" by (simp add: sample_served_listing_def)
  obtain c where c: "fetched_as (sample_served_listing 0) sample_repo (newer_raw 0) c"
    using fetched_as_known [OF sample_pull_served [of "newer_raw 0" 0]] by blast
  note t = incremental_sync_misses_nothing [where ?t2.0 = 2 and ?t3.0 = 3, OF w(1) walked_db_dated [folded w(2)]
      brought_written [THEN conjunct2, THEN conjunct1] refl sample_decided repos inj served fetched refl ok all]
  have "stored_as (ac_orgId sample_config) c (sx_db (svc_run (\<lambda>s. s) sample_config [(2, EvPullRequests (Inr brought)), (3, EvWrite None 5)]
       (svc_run (\<lambda>s. s) sample_config [(1736931600000, EvRead None), (1736931600000, EvRead None)] sample_deciding)))"
    by (rule t [rule_format, OF _ m c]) simp
  then show ?thesis using c by (auto simp: sample_config_def)
qed

end
