(* ===== verification/Otlp.thy ===== *)
theory Otlp
  imports Http Env Tables
begin

text \<open>
  From an OTLP export to rows: \<open>server/src/telemetry/metric-map.ts\<close> and \<open>server/src/telemetry/otlp.ts\<close>. The body is whatever JSON a client sends, so every read is
  written out as the language does it: a property of \<open>null\<close>, an iteration over what is no list and a call of what is
  no function throw. \<open>num_text\<close> is the language's printing of a number.
\<close>

section \<open>Values of the language\<close>

datatype js_error = JsTypeError | JsSyntaxError | JsRangeError

datatype double = Fin rat | NaN | PosInf | NegInf

definition js_double :: "string \<Rightarrow> double" where
  "js_double s =
     (case js_number s of Some q \<Rightarrow> Fin q
      | None \<Rightarrow> let t = js_trim s in
          if t = ''Infinity'' \<or> t = ''+Infinity'' then PosInf else if t = ''-Infinity'' then NegInf else NaN)"

fun json_truthy :: "json \<Rightarrow> bool" where
  "json_truthy JNull = False"
| "json_truthy (JBool b) = b"
| "json_truthy (JNum q) = (q \<noteq> 0)"
| "json_truthy (JStr s) = (s \<noteq> [])"
| "json_truthy (JArr vs) = True"
| "json_truthy (JObj m) = True"

definition holds :: "json option \<Rightarrow> bool" where
  "holds v = (case v of None \<Rightarrow> False | Some j \<Rightarrow> json_truthy j)"

definition nullish :: "json option \<Rightarrow> bool" where
  "nullish v \<longleftrightarrow> v = None \<or> v = Some JNull"

text \<open>A property of a value that is not \<open>null\<close>, and the read that throws on \<open>null\<close>.\<close>

fun property :: "string \<Rightarrow> json \<Rightarrow> json option" where
  "property k (JObj m) = member_of k m"
| "property k v = None"

definition read_property :: "string \<Rightarrow> json \<Rightarrow> js_error + json option" where
  "read_property k v = (if v = JNull then Inl JsTypeError else Inr (property k v))"

definition optional_property :: "string \<Rightarrow> json option \<Rightarrow> json option" where
  "optional_property k v = Option.bind v (property k)"

text \<open>\<open>typeof v === 'string'\<close>.\<close>

definition some_text :: "json option \<Rightarrow> string option" where
  "some_text v = (case v of Some (JStr s) \<Rightarrow> Some s | _ \<Rightarrow> None)"

text \<open>\<open>for (const x of v ?? [])\<close>: a list or the characters of a text.\<close>

definition elements :: "json option \<Rightarrow> js_error + json list" where
  "elements v =
     (case v of None \<Rightarrow> Inr [] | Some JNull \<Rightarrow> Inr []
      | Some (JArr vs) \<Rightarrow> Inr vs
      | Some (JStr s) \<Rightarrow> Inr (map (\<lambda>c. JStr [c]) s)
      | _ \<Rightarrow> Inl JsTypeError)"

text \<open>\<open>String(v)\<close>: an object that has a \<open>toString\<close> of its own, which parsed JSON cannot call, throws.\<close>

fun js_text :: "(rat \<Rightarrow> string) \<Rightarrow> json \<Rightarrow> js_error + string"
  and js_texts :: "(rat \<Rightarrow> string) \<Rightarrow> json list \<Rightarrow> js_error + string list" where
  "js_text num_text JNull = Inr ''null''"
| "js_text num_text (JBool b) = Inr (if b then ''true'' else ''false'')"
| "js_text num_text (JNum q) = Inr (num_text q)"
| "js_text num_text (JStr s) = Inr s"
| "js_text num_text (JArr vs) = (case js_texts num_text vs of Inl e \<Rightarrow> Inl e | Inr ts \<Rightarrow> Inr (join_with '','' ts))"
| "js_text num_text (JObj m) = (if member_of ''toString'' m \<noteq> None then Inl JsTypeError else Inr ''[object Object]'')"
| "js_texts num_text [] = Inr []"
| "js_texts num_text (v # vs) =
     (case (if v = JNull then Inr [] else js_text num_text v) of Inl e \<Rightarrow> Inl e
      | Inr t \<Rightarrow> (case js_texts num_text vs of Inl e \<Rightarrow> Inl e | Inr ts \<Rightarrow> Inr (t # ts)))"

definition number_of :: "(rat \<Rightarrow> string) \<Rightarrow> json \<Rightarrow> js_error + double" where
  "number_of num_text v =
     (case v of JNull \<Rightarrow> Inr (Fin 0) | JBool b \<Rightarrow> Inr (Fin (if b then 1 else 0)) | JNum q \<Rightarrow> Inr (Fin q)
      | _ \<Rightarrow> and_then (js_text num_text v) (\<lambda>s. Inr (js_double s)))"

text \<open>\<open>BigInt(s)\<close> of a text: blank is 0, a sign goes with decimal digits only.\<close>

definition text_bigint :: "string \<Rightarrow> int option" where
  "text_bigint s =
     (let t = js_trim s; p = js_lower (take 2 t); ds = drop 2 t in
      if t = [] then Some 0
      else if p = ''0x'' then (if ds \<noteq> [] \<and> list_all is_hex_i ds then Some (int (radix_val 16 ds)) else None)
      else if p = ''0o'' then (if ds \<noteq> [] \<and> list_all is_octal ds then Some (int (radix_val 8 ds)) else None)
      else if p = ''0b'' then (if ds \<noteq> [] \<and> list_all is_binary ds then Some (int (radix_val 2 ds)) else None)
      else (case signed t of (sg, u) \<Rightarrow> if u \<noteq> [] \<and> list_all is_digit u then Some (sg * int (digits_val u)) else None))"

definition to_bigint :: "(rat \<Rightarrow> string) \<Rightarrow> json \<Rightarrow> js_error + int" where
  "to_bigint num_text v =
     (case v of JNum q \<Rightarrow> if is_integer q then Inr \<lfloor>q\<rfloor> else Inl JsRangeError
      | JBool b \<Rightarrow> Inr (if b then 1 else 0)
      | _ \<Rightarrow> and_then (js_text num_text v) (\<lambda>s. case text_bigint s of None \<Rightarrow> Inl JsSyntaxError | Some n \<Rightarrow> Inr n))"

section \<open>The fields of a metric\<close>

datatype CanonicalField =
    FTokensInput | FTokensOutput | FTokensCacheRead | FTokensCacheCreation | FLinesAdded | FLinesRemoved
  | FEditsAccept | FEditsReject | FActiveSeconds | FCommits | FPullRequests | FSessions

fun field_str :: "CanonicalField \<Rightarrow> string" where
  "field_str FTokensInput = ''tokens_input''"
| "field_str FTokensOutput = ''tokens_output''"
| "field_str FTokensCacheRead = ''tokens_cacheRead''"
| "field_str FTokensCacheCreation = ''tokens_cacheCreation''"
| "field_str FLinesAdded = ''lines_added''"
| "field_str FLinesRemoved = ''lines_removed''"
| "field_str FEditsAccept = ''edits_accept''"
| "field_str FEditsReject = ''edits_reject''"
| "field_str FActiveSeconds = ''active_seconds''"
| "field_str FCommits = ''commits''"
| "field_str FPullRequests = ''pull_requests''"
| "field_str FSessions = ''sessions''"

type_synonym attrs = "(string \<times> json) list"

text \<open>
  The two tables are plain objects, so a name they lack may still be one that every object has: such a name of a metric has no
  \<open>field\<close> to call, and such a value of an attribute yields that member of every object (\<open>Inherited\<close>).
\<close>

datatype Rule = Enumerated string "(string \<times> CanonicalField) list" | Always CanonicalField

datatype field_value = Known CanonicalField | Inherited string

definition OBJECT_MEMBERS :: "string list" where
  "OBJECT_MEMBERS = [''constructor'', ''__defineGetter__'', ''__defineSetter__'', ''hasOwnProperty'', ''__lookupGetter__'',
     ''__lookupSetter__'', ''isPrototypeOf'', ''propertyIsEnumerable'', ''toString'', ''valueOf'', ''__proto__'', ''toLocaleString'']"

definition RULES :: "(string \<times> Rule) list" where
  "RULES =
     [(''claude_code.token.usage'', Enumerated ''type''
        [(''input'', FTokensInput), (''output'', FTokensOutput), (''cacheRead'', FTokensCacheRead), (''cacheCreation'', FTokensCacheCreation)]),
      (''claude_code.lines_of_code.count'', Enumerated ''type'' [(''added'', FLinesAdded), (''removed'', FLinesRemoved)]),
      (''claude_code.code_edit_tool.decision'', Enumerated ''decision'' [(''accept'', FEditsAccept), (''reject'', FEditsReject)]),
      (''claude_code.active_time.total'', Always FActiveSeconds),
      (''claude_code.commit.count'', Always FCommits),
      (''claude_code.pull_request.count'', Always FPullRequests),
      (''claude_code.session.count'', Always FSessions)]"

definition agentOf :: "string \<Rightarrow> string" where
  "agentOf metric = (if starts_with metric ''claude_code.'' then ''claude-code'' else ''unknown'')"

fun rule_field :: "(rat \<Rightarrow> string) \<Rightarrow> Rule \<Rightarrow> attrs \<Rightarrow> js_error + field_value option" where
  "rule_field num_text (Always f) attrs = Inr (Some (Known f))"
| "rule_field num_text (Enumerated attr values) attrs =
     and_then (js_text num_text (case map_of attrs attr of None \<Rightarrow> JStr [] | Some v \<Rightarrow> v)) (\<lambda>k.
     Inr (case map_of values k of Some f \<Rightarrow> Some (Known f)
          | None \<Rightarrow> if k \<in> set OBJECT_MEMBERS then Some (Inherited k) else None))"

definition canonicalField :: "(rat \<Rightarrow> string) \<Rightarrow> string \<Rightarrow> attrs \<Rightarrow> js_error + field_value option" where
  "canonicalField num_text metric attrs =
     (case map_of RULES metric of Some r \<Rightarrow> rule_field num_text r attrs
      | None \<Rightarrow> if metric \<in> set OBJECT_MEMBERS then Inl JsTypeError else Inr None)"

section \<open>Attributes\<close>

definition ATTR_ALLOWLIST :: "string list" where
  "ATTR_ALLOWLIST = [''session.id'', ''agent'', ''type'', ''model'', ''query_source'', ''speed'', ''effort'', ''tool_name'', ''decision'',
     ''source'', ''terminal.type'', ''app.version'']"

definition METRIC_DENYLIST :: "string list" where
  "METRIC_DENYLIST = [''claude_code.cost.usage'']"

text \<open>\<open>None\<close> where there is no scalar reading.\<close>

definition scalar :: "(rat \<Rightarrow> string) \<Rightarrow> json option \<Rightarrow> js_error + json option" where
  "scalar num_text value =
     (if \<not> holds value then Inr None
      else
        case property ''stringValue'' (the value) of
          Some v \<Rightarrow> Inr (if v = JNull then None else Some v)
        | None \<Rightarrow>
            (case find (\<lambda>k. property k (the value) \<noteq> None) [''intValue'', ''doubleValue'', ''boolValue''] of
               None \<Rightarrow> Inr None
             | Some k \<Rightarrow> and_then (js_text num_text (the (property k (the value)))) (\<lambda>t. Inr (Some (JStr t)))))"

fun add_attributes :: "(rat \<Rightarrow> string) \<Rightarrow> json list \<Rightarrow> attrs \<Rightarrow> js_error + attrs" where
  "add_attributes num_text [] out = Inr out"
| "add_attributes num_text (e # es) out =
     and_then (read_property ''key'' e) (\<lambda>key.
     case some_text key of
       Some k \<Rightarrow>
         if k \<in> set ATTR_ALLOWLIST
         then and_then (scalar num_text (property ''value'' e)) (\<lambda>t.
              add_attributes num_text es (case t of None \<Rightarrow> out | Some v \<Rightarrow> map_set k v out))
         else add_attributes num_text es out
     | None \<Rightarrow> add_attributes num_text es out)"

definition attributes :: "(rat \<Rightarrow> string) \<Rightarrow> json option \<Rightarrow> js_error + attrs" where
  "attributes num_text v = and_then (elements v) (\<lambda>es. add_attributes num_text es [])"

section \<open>Datapoints\<close>

text \<open>Milliseconds beyond what a date can be throw; those beyond every number are no instant.\<close>

definition isoFromNanos :: "(rat \<Rightarrow> string) \<Rightarrow> json option \<Rightarrow> js_error + string option" where
  "isoFromNanos num_text nanos =
     (if nullish nanos \<or> nanos = Some (JStr []) then Inr None
      else and_then (to_bigint num_text (the nanos)) (\<lambda>n.
        let ms = (if 0 \<le> n then n div 1000000 else - (- n div 1000000)) in
        if 2 ^ 1024 - 2 ^ 970 \<le> \<bar>ms\<bar> then Inr None
        else if 8640000000000000 < \<bar>ms\<bar> then Inl JsRangeError
        else Inr (Some (to_iso ms))))"

datatype temporality = TDelta | TCumulative | TUnspecified

definition temporalityOf :: "json option \<Rightarrow> temporality" where
  "temporalityOf raw =
     (if raw = Some (JNum 1) \<or> raw = Some (JStr ''AGGREGATION_TEMPORALITY_DELTA'') then TDelta
      else if raw = Some (JNum 2) \<or> raw = Some (JStr ''AGGREGATION_TEMPORALITY_CUMULATIVE'') then TCumulative
      else TUnspecified)"

definition numeric :: "(rat \<Rightarrow> string) \<Rightarrow> json \<Rightarrow> js_error + double option" where
  "numeric num_text point =
     and_then (read_property ''asDouble'' point) (\<lambda>d.
     if \<not> nullish d then and_then (number_of num_text (the d)) (\<lambda>v. Inr (Some v))
     else if \<not> nullish (property ''asInt'' point)
       then and_then (number_of num_text (the (property ''asInt'' point))) (\<lambda>v. Inr (Some v))
     else Inr None)"

record MetricRow =
  mt_agent :: json
  mt_metric :: string
  mt_field :: "field_value option"
  mt_sessionId :: "json option"
  mt_value :: double
  mt_temporality :: temporality
  mt_startTime :: "string option"
  mt_time :: string
  mt_attrs :: attrs

text \<open>What comes of a datapoint, or of a metric that is passed over: a row or a reason to skip it.\<close>

datatype flattened = Row MetricRow | SkippedHistogram | SkippedNoValue | SkippedDenied

definition row_agent :: "string \<Rightarrow> attrs \<Rightarrow> json" where
  "row_agent name attrs = (case map_of attrs ''agent'' of Some a \<Rightarrow> a | None \<Rightarrow> JStr (agentOf name))"

definition flatten_point ::
  "(rat \<Rightarrow> string) \<Rightarrow> string \<Rightarrow> temporality \<Rightarrow> attrs \<Rightarrow> json \<Rightarrow> js_error + flattened"
where
  "flatten_point num_text name temporality resourceAttrs point =
     and_then (numeric num_text point) (\<lambda>value.
     and_then (isoFromNanos num_text (property ''timeUnixNano'' point)) (\<lambda>time.
     if value = None \<or> time = None then Inr SkippedNoValue
     else
       and_then (attributes num_text (property ''attributes'' point)) (\<lambda>own.
       let attrs = fold (\<lambda>(k, x). map_set k x) own resourceAttrs in
       and_then (canonicalField num_text name attrs) (\<lambda>field.
       and_then (isoFromNanos num_text (property ''startTimeUnixNano'' point)) (\<lambda>startTime.
       Inr (Row \<lparr>mt_agent = row_agent name attrs, mt_metric = name, mt_field = field, mt_sessionId = map_of attrs ''session.id'',
         mt_value = the value, mt_temporality = temporality, mt_startTime = startTime, mt_time = the time, mt_attrs = attrs\<rparr>))))))"

text \<open>The metric's name decides first; then the kind of its data.\<close>

definition flatten_named :: "(rat \<Rightarrow> string) \<Rightarrow> attrs \<Rightarrow> string \<Rightarrow> json \<Rightarrow> js_error + flattened list" where
  "flatten_named num_text resourceAttrs name metric =
     (if name \<in> set METRIC_DENYLIST then Inr [SkippedDenied]
      else if holds (property ''histogram'' metric) \<or> holds (property ''exponentialHistogram'' metric) \<or> holds (property ''summary'' metric)
      then Inr [SkippedHistogram]
      else
        let sum = property ''sum'' metric; container = (if nullish sum then property ''gauge'' metric else sum);
            temporality = (if nullish sum then TUnspecified else temporalityOf (property ''aggregationTemporality'' (the sum))) in
        if \<not> holds container then Inr []
        else and_then (elements (property ''dataPoints'' (the container))) (\<lambda>points.
          all_or_throw (flatten_point num_text name temporality resourceAttrs) points))"

definition flatten_metric :: "(rat \<Rightarrow> string) \<Rightarrow> attrs \<Rightarrow> json \<Rightarrow> js_error + flattened list" where
  "flatten_metric num_text resourceAttrs metric =
     and_then (read_property ''name'' metric) (\<lambda>name.
     case some_text name of
       Some n \<Rightarrow> if n = [] then Inr [] else flatten_named num_text resourceAttrs n metric
     | None \<Rightarrow> Inr [])"

definition flatten_within ::
  "string \<Rightarrow> (json \<Rightarrow> js_error + flattened list) \<Rightarrow> json \<Rightarrow> js_error + flattened list"
where
  "flatten_within k f v =
     and_then (read_property k v) (\<lambda>inner. and_then (elements inner) (\<lambda>vs. and_then (all_or_throw f vs) (\<lambda>fss. Inr (concat fss))))"

definition flatten_resource :: "(rat \<Rightarrow> string) \<Rightarrow> json \<Rightarrow> js_error + flattened list" where
  "flatten_resource num_text resource =
     and_then (read_property ''resource'' resource) (\<lambda>r.
     and_then (attributes num_text (optional_property ''attributes'' r)) (\<lambda>resourceAttrs.
     flatten_within ''scopeMetrics'' (flatten_within ''metrics'' (flatten_metric num_text resourceAttrs)) resource))"

record FlattenResult =
  fl_rows :: "MetricRow list"
  fl_histogram :: nat
  fl_noValue :: nat
  fl_deniedMetric :: nat

fun rows_among :: "flattened list \<Rightarrow> MetricRow list" where
  "rows_among [] = []"
| "rows_among (Row r # fs) = r # rows_among fs"
| "rows_among (f # fs) = rows_among fs"

definition flattenMetrics :: "(rat \<Rightarrow> string) \<Rightarrow> json option \<Rightarrow> js_error + FlattenResult" where
  "flattenMetrics num_text raw =
     and_then (elements (optional_property ''resourceMetrics'' raw)) (\<lambda>resources.
     and_then (all_or_throw (flatten_resource num_text) resources) (\<lambda>fss.
     Inr \<lparr>fl_rows = rows_among (concat fss), fl_histogram = count_list (concat fss) SkippedHistogram,
          fl_noValue = count_list (concat fss) SkippedNoValue, fl_deniedMetric = count_list (concat fss) SkippedDenied\<rparr>))"

end
