(* ===== verification/TelemetryStore.thy ===== *)
theory TelemetryStore
  imports Otlp JobStore
begin

text \<open>
  The stored telemetry: \<open>server/src/telemetry/store.ts\<close> over the tables \<open>metric_point\<close>, \<open>session_branch\<close> and \<open>session_pr\<close>, and the intake
  \<open>server/src/routes/ingest.ts\<close>. Body limits are Fastify's. \<open>telemetry_ctx\<close> holds the organization and what
  is supplied from outside: the database's clock, the message with which the database or its driver refuses a statement as a whole, the
  digest of a set of attributes, the platform's reading of other spellings of a date, and what the driver makes of a parameter of a text column that is
  no text.
\<close>

section \<open>Tables\<close>

record point_row =
  mp_agent :: string
  mp_metric :: string
  mp_field :: "string option"
  mp_session_id :: "string option"
  mp_value :: double
  mp_temporality :: temporality
  mp_start_time :: "int option"
  mp_time :: int
  mp_attrs :: attrs
  mp_received_at :: int
  mp_source :: string

record branch_row =
  br_org :: string
  br_agent :: string
  br_session_id :: string
  br_repo :: string
  br_branch :: string
  br_head_sha :: "string option"
  br_first_seen :: int
  br_last_seen :: int
  br_samples :: int

record link_row =
  pl_org :: string
  pl_agent :: string
  pl_session_id :: string
  pl_repo :: string
  pl_pr_number :: int
  pl_first_seen :: int

record telemetry_db =
  td_points :: "point_row list"
  td_branches :: "branch_row list"
  td_links :: "link_row list"

record telemetry_ctx =
  tx_org :: string
  tx_now :: int
  tx_refused :: "string option"
  tx_digest :: "attrs \<Rightarrow> string"
  tx_other_date :: "string \<Rightarrow> int option"
  tx_num_text :: "rat \<Rightarrow> string"
  tx_send_json :: "json \<Rightarrow> string + string"
  tx_send_member :: "string \<Rightarrow> string + string"

text \<open>
  The unique index of \<open>metric_point\<close>: \<open>null\<close> equals nothing, so that a point without a session conflicts with none.
\<close>

definition same_point :: "(attrs \<Rightarrow> string) \<Rightarrow> point_row \<Rightarrow> point_row \<Rightarrow> bool" where
  "same_point digest p q \<longleftrightarrow>
     mp_session_id p \<noteq> None \<and> mp_metric p = mp_metric q \<and> mp_session_id p = mp_session_id q \<and> mp_time p = mp_time q \<and>
     mp_source p = mp_source q \<and> digest (mp_attrs p) = digest (mp_attrs q)"

definition insert_point :: "(attrs \<Rightarrow> string) \<Rightarrow> point_row \<Rightarrow> point_row list \<Rightarrow> point_row list" where
  "insert_point digest p t = (if sql_exists (same_point digest p) t then t else t @ [p])"

definition session_branch_key :: "branch_row \<Rightarrow> string \<times> string \<times> string \<times> string \<times> string" where
  "session_branch_key r = (br_org r, br_agent r, br_session_id r, br_repo r, br_branch r)"

definition link_key :: "link_row \<Rightarrow> string \<times> string \<times> string \<times> string \<times> int" where
  "link_key r = (pl_org r, pl_agent r, pl_session_id r, pl_repo r, pl_pr_number r)"

section \<open>Writing datapoints\<close>

definition date_ms :: "telemetry_ctx \<Rightarrow> string \<Rightarrow> int option" where
  "date_ms ctx s = (case parse_date s of Some t \<Rightarrow> Some t | None \<Rightarrow> tx_other_date ctx s)"

definition instant_of :: "telemetry_ctx \<Rightarrow> string \<Rightarrow> string + int" where
  "instant_of ctx s = (case date_ms ctx s of None \<Rightarrow> Inl ''Invalid time value'' | Some ms \<Rightarrow> Inr (ms * 1000))"

definition text_column :: "telemetry_ctx \<Rightarrow> json \<Rightarrow> string + string" where
  "text_column ctx j =
     (case j of JStr s \<Rightarrow> if pg_text s then Inr s else Inl text_error | _ \<Rightarrow> tx_send_json ctx j)"

definition opt_column :: "('a \<Rightarrow> 'e + 'b) \<Rightarrow> 'a option \<Rightarrow> 'e + 'b option" where
  "opt_column f v = (case v of None \<Rightarrow> Inr None | Some x \<Rightarrow> and_then (f x) (\<lambda>y. Inr (Some y)))"

definition field_column :: "telemetry_ctx \<Rightarrow> field_value \<Rightarrow> string + string" where
  "field_column ctx f = (case f of Known c \<Rightarrow> Inr (field_str c) | Inherited k \<Rightarrow> tx_send_member ctx k)"

text \<open>\<open>jsonb\<close> cannot hold the character 0 either.\<close>

fun json_clean :: "json \<Rightarrow> bool" where
  "json_clean (JStr s) = pg_text s"
| "json_clean (JArr vs) = list_all json_clean vs"
| "json_clean (JObj m) = list_all (\<lambda>kv. pg_text (fst kv) \<and> json_clean (snd kv)) m"
| "json_clean v = True"

definition jsonb_column :: "attrs \<Rightarrow> string + attrs" where
  "jsonb_column a = (if list_all (\<lambda>kv. json_clean (snd kv)) a then Inr a else Inl ''unsupported Unicode escape sequence'')"

definition point_row_of :: "telemetry_ctx \<Rightarrow> MetricRow \<Rightarrow> string + point_row" where
  "point_row_of ctx row =
     and_then (text_column ctx (mt_agent row)) (\<lambda>agent.
     and_then (text_column ctx (JStr (mt_metric row))) (\<lambda>metric.
     and_then (opt_column (field_column ctx) (mt_field row)) (\<lambda>field.
     and_then (opt_column (text_column ctx) (mt_sessionId row)) (\<lambda>session.
     and_then (opt_column (instant_of ctx) (mt_startTime row)) (\<lambda>start.
     and_then (instant_of ctx (mt_time row)) (\<lambda>time.
     and_then (jsonb_column (mt_attrs row)) (\<lambda>attrs.
     Inr \<lparr>mp_agent = agent, mp_metric = metric, mp_field = field, mp_session_id = session, mp_value = mt_value row,
       mp_temporality = mt_temporality row, mp_start_time = start, mp_time = time, mp_attrs = attrs,
       mp_received_at = tx_now ctx, mp_source = ''otel''\<rparr>)))))))"

definition insertMetrics :: "telemetry_ctx \<Rightarrow> MetricRow list \<Rightarrow> telemetry_db \<Rightarrow> (string + nat) \<times> telemetry_db" where
  "insertMetrics ctx rows db =
     (if rows = [] then (Inr 0, db)
      else
        case tx_refused ctx of
          Some e \<Rightarrow> (Inl e, db)
        | None \<Rightarrow>
            (case all_or_throw (point_row_of ctx) rows of
               Inl e \<Rightarrow> (Inl e, db)
             | Inr ps \<Rightarrow>
                 let t = fold (insert_point (tx_digest ctx)) ps (td_points db) in
                 (Inr (length t - length (td_points db)), db\<lparr>td_points := t\<rparr>)))"

section \<open>Reports of a session's branch\<close>

record SessionBranchReport =
  bp_agent :: string
  bp_sessionId :: string
  bp_repo :: string
  bp_branch :: "string option"
  bp_headSha :: "string option"
  bp_at :: string

definition branch_conflict :: "branch_row \<Rightarrow> branch_row \<Rightarrow> branch_row" where
  "branch_conflict old new =
     old\<lparr>br_first_seen := min (br_first_seen old) (br_first_seen new), br_last_seen := max (br_last_seen old) (br_last_seen new),
       br_head_sha := (case br_head_sha new of None \<Rightarrow> br_head_sha old | Some h \<Rightarrow> Some h), br_samples := br_samples old + 1\<rparr>"

text \<open>\<open>branch\<close> is part of the primary key, which takes no \<open>null\<close>.\<close>

abbreviation null_error :: string where
  "null_error \<equiv> ''null value in column branch of relation session_branch violates not-null constraint''"

definition report_row :: "telemetry_ctx \<Rightarrow> SessionBranchReport \<Rightarrow> string \<Rightarrow> int \<Rightarrow> branch_row" where
  "report_row ctx report branch at' =
     \<lparr>br_org = tx_org ctx, br_agent = bp_agent report, br_session_id = bp_sessionId report, br_repo = bp_repo report,
      br_branch = branch, br_head_sha = bp_headSha report, br_first_seen = at', br_last_seen = at', br_samples = 1\<rparr>"

definition recordBranch :: "telemetry_ctx \<Rightarrow> SessionBranchReport \<Rightarrow> telemetry_db \<Rightarrow> (string + unit) \<times> telemetry_db" where
  "recordBranch ctx report db =
     (case tx_refused ctx of
        Some e \<Rightarrow> (Inl e, db)
      | None \<Rightarrow>
          case instant_of ctx (bp_at report) of
            Inl e \<Rightarrow> (Inl e, db)
          | Inr at' \<Rightarrow>
              if \<not> list_all pg_text [bp_agent report, bp_sessionId report, bp_repo report] \<or> \<not> opt_ok pg_text (bp_branch report) \<or>
                 \<not> opt_ok pg_text (bp_headSha report)
              then (Inl text_error, db)
              else
                case bp_branch report of
                  None \<Rightarrow> (Inl null_error, db)
                | Some branch \<Rightarrow>
                    let row = report_row ctx report branch at' in
                    if \<exists>q \<in> set (td_branches db). session_branch_key q = session_branch_key row \<and> \<not> pg_int4 (br_samples q + 1)
                    then (Inl int4_error, db)
                    else (Inr (), db\<lparr>td_branches := upsert_row session_branch_key branch_conflict row (td_branches db)\<rparr>))"

section \<open>The intake\<close>

definition word_char :: "char \<Rightarrow> bool" where
  "word_char c \<longleftrightarrow> is_digit c \<or> is_lower (lower_char c) \<or> c = CHR ''_''"

definition isJson :: "string option \<Rightarrow> bool" where
  "isJson type =
     (case type of None \<Rightarrow> False
      | Some t \<Rightarrow> starts_with t ''application/json'' \<and> (case drop 16 t of [] \<Rightarrow> True | c # _ \<Rightarrow> \<not> word_char c))"

definition text_of :: "json option \<Rightarrow> string option" where
  "text_of j = (case some_text j of Some s \<Rightarrow> if s = [] then None else Some s | None \<Rightarrow> None)"

definition branchReport :: "telemetry_ctx \<Rightarrow> json option \<Rightarrow> SessionBranchReport option" where
  "branchReport ctx raw =
     (let get = (\<lambda>k. optional_property k raw); branch = get ''branch'' in
      case (text_of (get ''sessionId''), text_of (get ''repo''), some_text (get ''at'')) of
        (Some sessionId, Some repo, Some at') \<Rightarrow>
          if date_ms ctx at' = None then None
          else if branch \<noteq> Some JNull \<and> (text_of branch = None \<or> text_of branch = Some ''HEAD'') then None
          else Some \<lparr>bp_agent = (case text_of (get ''agent'') of Some a \<Rightarrow> a | None \<Rightarrow> ''claude-code''), bp_sessionId = sessionId,
            bp_repo = repo, bp_branch = text_of branch, bp_headSha = text_of (get ''headSha''), bp_at = at'\<rparr>
      | _ \<Rightarrow> None)"

definition error_reply :: "nat \<Rightarrow> string \<Rightarrow> reply" where
  "error_reply status message = send status (JObj [(''error'', JStr message)])"

definition not_json :: reply where "not_json = error_reply 415 ''Expected application/json''"

definition partial_success :: reply where "partial_success = send 200 (JObj [(''partialSuccess'', JObj [])])"

text \<open>What a handler throws, the framework answers with a 500.\<close>

definition handler_threw :: reply where "handler_threw = \<lparr>code = 500, payload = None\<rparr>"

definition post_metrics :: "telemetry_ctx \<Rightarrow> string option \<Rightarrow> json option \<Rightarrow> telemetry_db \<Rightarrow> reply \<times> telemetry_db" where
  "post_metrics ctx contentType raw db =
     (if \<not> isJson contentType then (not_json, db)
      else
        case flattenMetrics (tx_num_text ctx) raw of
          Inl e \<Rightarrow> (handler_threw, db)
        | Inr f \<Rightarrow>
            (case insertMetrics ctx (fl_rows f) db of
               (Inl e, db') \<Rightarrow> (error_reply 503 e, db')
             | (Inr n, db') \<Rightarrow> (partial_success, db')))"

definition post_logs :: "string option \<Rightarrow> reply" where
  "post_logs contentType = (if \<not> isJson contentType then not_json else partial_success)"

definition post_branch :: "telemetry_ctx \<Rightarrow> json option \<Rightarrow> telemetry_db \<Rightarrow> reply \<times> telemetry_db" where
  "post_branch ctx raw db =
     (case branchReport ctx raw of
        None \<Rightarrow> (error_reply 400 ''Malformed session branch report'', db)
      | Some report \<Rightarrow>
          (case recordBranch ctx report db of
             (Inl e, db') \<Rightarrow> (error_reply 503 e, db')
           | (Inr u, db') \<Rightarrow> (send 202 (JObj [(''ok'', JBool True)]), db')))"

end
