(* ===== verification/TelemetryClient.thy ===== *)
theory TelemetryClient
  imports TelemetryStore Canonical
begin

text \<open>
  Reading telemetry back: the views of \<open>server/migrations/002_views.repeatable.sql\<close>, \<open>server/src/telemetry/postgres-client.ts\<close>, and the
  clients without a database of \<open>fixture-client.ts\<close> and \<open>errors.ts\<close>. A view is the list of its rows. A figure that is no finite number is \<open>None\<close> once
  it leaves for \<open>core/\<close>, which knows numbers and \<open>null\<close>.
\<close>

section \<open>Sums of the database\<close>

fun double_add :: "double \<Rightarrow> double \<Rightarrow> double" where
  "double_add (Fin a) (Fin b) = Fin (a + b)"
| "double_add NaN y = NaN"
| "double_add x NaN = NaN"
| "double_add PosInf NegInf = NaN"
| "double_add NegInf PosInf = NaN"
| "double_add PosInf y = PosInf"
| "double_add x PosInf = PosInf"
| "double_add NegInf y = NegInf"
| "double_add x NegInf = NegInf"

text \<open>The order of the database puts NaN above every number.\<close>

fun double_max :: "double \<Rightarrow> double \<Rightarrow> double" where
  "double_max (Fin a) (Fin b) = Fin (max a b)"
| "double_max NaN y = NaN"
| "double_max x NaN = NaN"
| "double_max PosInf y = PosInf"
| "double_max x PosInf = PosInf"
| "double_max NegInf y = y"
| "double_max x NegInf = x"

definition double_sum :: "double list \<Rightarrow> double" where
  "double_sum vs = fold (\<lambda>v acc. double_add acc v) vs (Fin 0)"

definition double_greatest :: "double list \<Rightarrow> double" where
  "double_greatest vs = fold double_max (tl vs) (hd vs)"

definition figure_of :: "double \<Rightarrow> rat option" where
  "figure_of v = (case v of Fin q \<Rightarrow> Some q | _ \<Rightarrow> None)"

section \<open>The views\<close>

text \<open>One source for a session: the live export if there is any of it.\<close>

definition session_source :: "point_row list \<Rightarrow> string \<Rightarrow> string \<Rightarrow> string" where
  "session_source t agent session =
     (let sources = map mp_source (filter (\<lambda>p. mp_agent p = agent \<and> mp_session_id p = Some session) t) in
      if ''otel'' \<in> set sources then ''otel'' else fold min (tl sources) (hd sources))"

definition metric_point_used :: "point_row list \<Rightarrow> point_row list" where
  "metric_point_used t =
     filter (\<lambda>p. case mp_session_id p of None \<Rightarrow> False | Some s \<Rightarrow> mp_source p = session_source t (mp_agent p) s) t"

text \<open>The row after a row, in the order of their beginnings within its organization, agent and session.\<close>

fun lead :: "'a \<Rightarrow> 'a list \<Rightarrow> 'a option" where
  "lead r [] = None"
| "lead r (x # xs) = (if x = r then (case xs of [] \<Rightarrow> None | y # _ \<Rightarrow> Some y) else lead r xs)"

definition session_of_branch :: "branch_row \<Rightarrow> string \<times> string \<times> string" where
  "session_of_branch r = (br_org r, br_agent r, br_session_id r)"

definition next_branch :: "branch_row list \<Rightarrow> branch_row \<Rightarrow> branch_row option" where
  "next_branch t r = lead r (sort_key br_first_seen (filter (\<lambda>q. session_of_branch q = session_of_branch r) t))"

definition slice_of :: "branch_row list \<Rightarrow> branch_row \<Rightarrow> branch_row" where
  "slice_of t r =
     r\<lparr>br_last_seen := min (br_last_seen r) (case next_branch t r of None \<Rightarrow> br_last_seen r | Some q \<Rightarrow> br_first_seen q - 1)\<rparr>"

definition session_branch_slice :: "branch_row list \<Rightarrow> branch_row list" where
  "session_branch_slice t = map (slice_of t) t"

text \<open>The total of a session's field: increments are added, of a running total only the last counts, for each of its starts.\<close>

record FieldRow =
  fw_session_id :: string
  fw_field :: string
  fw_value :: double

definition series_of :: "point_row \<Rightarrow> temporality \<times> int option" where
  "series_of p = (mp_temporality p, mp_start_time p)"

definition series_total :: "point_row list \<Rightarrow> temporality \<times> int option \<Rightarrow> double" where
  "series_total ps k =
     (let vs = map mp_value (filter (\<lambda>p. series_of p = k) ps) in
      if fst k = TCumulative then double_greatest vs else double_sum vs)"

definition field_total :: "point_row list \<Rightarrow> double" where
  "field_total ps = double_sum (map (series_total ps) (first_seen (map series_of ps)))"

definition field_key :: "point_row \<Rightarrow> string \<times> string option \<times> string option" where
  "field_key p = (mp_agent p, mp_session_id p, mp_field p)"

definition session_field_total :: "point_row list \<Rightarrow> FieldRow list" where
  "session_field_total t =
     (let used = filter (\<lambda>p. mp_field p \<noteq> None) (metric_point_used t) in
      map (\<lambda>k. \<lparr>fw_session_id = the (fst (snd k)), fw_field = the (snd (snd k)),
             fw_value = field_total (filter (\<lambda>p. field_key p = k) used)\<rparr>)
        (first_seen (map field_key used)))"

text \<open>What falls into a slice, and its totals by branch.\<close>

record BranchFieldRow =
  bf_session_id :: string
  bf_branch :: string
  bf_field :: string
  bf_value :: double

definition in_slice :: "branch_row \<Rightarrow> point_row \<Rightarrow> bool" where
  "in_slice slice p \<longleftrightarrow>
     br_agent slice = mp_agent p \<and> mp_session_id p = Some (br_session_id slice) \<and> br_first_seen slice \<le> mp_time p \<and>
     mp_time p \<le> br_last_seen slice \<and> mp_field p \<noteq> None \<and> mp_temporality p \<noteq> TCumulative"

definition branch_field_key :: "branch_row \<times> point_row \<Rightarrow> string \<times> string \<times> string \<times> string \<times> string" where
  "branch_field_key x = (case x of (slice, p) \<Rightarrow>
     (br_org slice, mp_agent p, br_session_id slice, br_branch slice, the (mp_field p)))"

definition branch_points :: "telemetry_db \<Rightarrow> (branch_row \<times> point_row) list" where
  "branch_points db =
     concat (map (\<lambda>slice. map (Pair slice) (filter (in_slice slice) (metric_point_used (td_points db))))
       (session_branch_slice (td_branches db)))"

definition branch_field_total :: "string \<Rightarrow> telemetry_db \<Rightarrow> BranchFieldRow list" where
  "branch_field_total org db =
     (let joined = filter (\<lambda>x. br_org (fst x) = org) (branch_points db) in
      map (\<lambda>k. case k of (o', agent, session, branch, field) \<Rightarrow>
             \<lparr>bf_session_id = session, bf_branch = branch, bf_field = field,
              bf_value = double_sum (map (mp_value \<circ> snd) (filter (\<lambda>x. branch_field_key x = k) joined))\<rparr>)
        (first_seen (map branch_field_key joined)))"

record SummaryRow =
  sm_agent :: string
  sm_session_id :: string
  sm_org_id :: "string option"
  sm_repo :: "string option"
  sm_branch_count :: nat
  sm_first_seen :: int
  sm_last_seen :: int
  sm_granularity :: Granularity

definition branches_of :: "branch_row list \<Rightarrow> string \<Rightarrow> string \<Rightarrow> branch_row list" where
  "branches_of t agent session = filter (\<lambda>r. br_agent r = agent \<and> br_session_id r = session) t"

definition least_of :: "('a :: linorder) list \<Rightarrow> 'a option" where
  "least_of xs = (case xs of [] \<Rightarrow> None | x # rest \<Rightarrow> Some (fold min rest x))"

definition summary_row :: "telemetry_db \<Rightarrow> point_row list \<Rightarrow> string \<times> string option \<Rightarrow> SummaryRow" where
  "summary_row db used k =
     (let observed = filter (\<lambda>p. (mp_agent p, mp_session_id p) = k) used; times = map mp_time observed;
          bs = branches_of (td_branches db) (fst k) (the (snd k)) in
      \<lparr>sm_agent = fst k, sm_session_id = the (snd k), sm_org_id = least_of (map br_org bs), sm_repo = least_of (map br_repo bs),
       sm_branch_count = length bs, sm_first_seen = fold min (tl times) (hd times), sm_last_seen = fold max (tl times) (hd times),
       sm_granularity = (if list_all (\<lambda>p. mp_temporality p = TCumulative) observed then GSession else GWindow)\<rparr>)"

definition session_summary :: "telemetry_db \<Rightarrow> SummaryRow list" where
  "session_summary db =
     (let used = metric_point_used (td_points db) in
      map (summary_row db used) (first_seen (map (\<lambda>p. (mp_agent p, mp_session_id p)) used)))"

section \<open>The client\<close>

datatype TelemetryErrorCode = TE_UNREACHABLE | TE_AUTH | TE_MIGRATION | TE_QUERY | TE_TIMEOUT

type_synonym telemetry_error = "string \<times> TelemetryErrorCode"

record picked =
  pf_tokens :: TokenTotals
  pf_linesAdded :: "rat option"
  pf_linesRemoved :: "rat option"
  pf_editsAccepted :: "rat option"
  pf_editsRejected :: "rat option"
  pf_activeSeconds :: "rat option"

text \<open>The \<open>Map\<close> of a session's fields: of two rows with one field the later counts.\<close>

type_synonym field_values = "string \<Rightarrow> double option"

definition values_of :: "(string \<times> double) list \<Rightarrow> field_values" where
  "values_of rows = map_of (rev rows)"

definition get_field :: "field_values \<Rightarrow> CanonicalField \<Rightarrow> rat option" where
  "get_field vs f = Option.bind (vs (field_str f)) figure_of"

definition pick :: "field_values \<Rightarrow> picked" where
  "pick vs =
     \<lparr>pf_tokens = \<lparr>tk_input = get_field vs FTokensInput, tk_output = get_field vs FTokensOutput,
        tk_cacheRead = get_field vs FTokensCacheRead, tk_cacheCreation = get_field vs FTokensCacheCreation\<rparr>,
      pf_linesAdded = get_field vs FLinesAdded, pf_linesRemoved = get_field vs FLinesRemoved,
      pf_editsAccepted = get_field vs FEditsAccept, pf_editsRejected = get_field vs FEditsReject,
      pf_activeSeconds = get_field vs FActiveSeconds\<rparr>"

definition group_rows :: "('r \<Rightarrow> string) \<Rightarrow> 'r list \<Rightarrow> (string \<times> 'r list) list" where
  "group_rows session_id rows = fold (\<lambda>row out. map_bump (session_id row) [] (\<lambda>l. l @ [row]) out) rows []"

definition rows_for :: "(string \<times> 'r list) list \<Rightarrow> string \<Rightarrow> 'r list" where
  "rows_for groups session = (case map_of groups session of None \<Rightarrow> [] | Some rows \<Rightarrow> rows)"

definition session_values :: "(string \<times> FieldRow list) list \<Rightarrow> string \<Rightarrow> field_values" where
  "session_values byField session = values_of (map (\<lambda>r. (fw_field r, fw_value r)) (rows_for byField session))"

definition stamp :: "int \<Rightarrow> string" where
  "stamp t = to_iso (t div 1000)"

definition rollup_of :: "(string \<times> FieldRow list) list \<Rightarrow> SummaryRow \<Rightarrow> SessionRollup" where
  "rollup_of byField s =
     (let vs = session_values byField (sm_session_id s); p = pick vs in
      \<lparr>sr_sessionId = sm_session_id s, sr_agent = sm_agent s, sr_repo = sm_repo s, sr_firstSeen = stamp (sm_first_seen s),
       sr_lastSeen = stamp (sm_last_seen s), sr_tokens = pf_tokens p, sr_linesAdded = pf_linesAdded p, sr_linesRemoved = pf_linesRemoved p,
       sr_editsAccepted = pf_editsAccepted p, sr_editsRejected = pf_editsRejected p, sr_activeSeconds = pf_activeSeconds p,
       sr_commits = get_field vs FCommits, sr_pullRequests = get_field vs FPullRequests, sr_granularity = sm_granularity s\<rparr>)"

definition span_of :: "branch_row \<Rightarrow> SessionBranchSpan" where
  "span_of s = \<lparr>ss_sessionId = br_session_id s, ss_repo = br_repo s, ss_branch = Some (br_branch s), ss_headSha = br_head_sha s,
     ss_from = stamp (br_first_seen s), ss_to = stamp (br_last_seen s), ss_samples = br_samples s\<rparr>"

definition split_with :: "branch_row \<Rightarrow> rat option \<Rightarrow> picked \<Rightarrow> SessionSpanSplit" where
  "split_with s share p =
     \<lparr>sl_sessionId = br_session_id s, sl_repo = br_repo s, sl_branch = Some (br_branch s), sl_from = stamp (br_first_seen s),
      sl_to = stamp (br_last_seen s), sl_share = share, sl_tokens = pf_tokens p, sl_linesAdded = pf_linesAdded p,
      sl_linesRemoved = pf_linesRemoved p, sl_editsAccepted = pf_editsAccepted p, sl_editsRejected = pf_editsRejected p,
      sl_activeSeconds = pf_activeSeconds p\<rparr>"

text \<open>\<open>sessionInput ? part / sessionInput : 1\<close>, where the part is 0 if there is none.\<close>

definition share_of :: "double option \<Rightarrow> double \<Rightarrow> rat option" where
  "share_of part whole =
     (case whole of
        NaN \<Rightarrow> Some 1
      | Fin w \<Rightarrow> if w = 0 then Some 1 else (case part of None \<Rightarrow> Some 0 | Some (Fin p) \<Rightarrow> Some (p / w) | Some _ \<Rightarrow> None)
      | _ \<Rightarrow> (case part of None \<Rightarrow> Some 0 | Some (Fin p) \<Rightarrow> Some 0 | Some _ \<Rightarrow> None))"

definition session_input :: "FieldRow list \<Rightarrow> double" where
  "session_input rows = (case find (\<lambda>r. fw_field r = field_str FTokensInput) rows of None \<Rightarrow> Fin 0 | Some r \<Rightarrow> fw_value r)"

definition split_of ::
  "SummaryRow list \<Rightarrow> (string \<times> FieldRow list) list \<Rightarrow> (string \<times> BranchFieldRow list) list \<Rightarrow> branch_row \<Rightarrow> SessionSpanSplit"
where
  "split_of summaries byField byBranchField slice =
     (let session = br_session_id slice;
          rows = filter (\<lambda>r. bf_branch r = br_branch slice) (rows_for byBranchField session);
          vs = values_of (map (\<lambda>r. (bf_field r, bf_value r)) rows);
          branchCount = (case map_of (rev (map (\<lambda>s. (sm_session_id s, sm_branch_count s)) summaries)) session of None \<Rightarrow> 0 | Some n \<Rightarrow> n);
          granularity = map_of (rev (map (\<lambda>s. (sm_session_id s, sm_granularity s)) summaries)) session in
      if granularity = Some GSession \<and> 1 < branchCount then split_with slice None (pick (\<lambda>f. None))
      else if branchCount = 1 then split_with slice (Some 1) (pick (session_values byField session))
      else split_with slice (share_of (vs (field_str FTokensInput)) (session_input (rows_for byField session))) (pick vs))"

definition link_of :: "link_row \<Rightarrow> SessionPrLink" where
  "link_of l = \<lparr>lk_sessionId = pl_session_id l, lk_repo = pl_repo l, lk_prNumber = pl_pr_number l, lk_at = stamp (pl_first_seen l)\<rparr>"

definition coverage_of :: "SummaryRow list \<Rightarrow> Coverage" where
  "coverage_of summaries =
     (let times = concat (map (\<lambda>s. [sm_first_seen s, sm_last_seen s]) summaries) in
      \<lparr>cv_from = map_option stamp (least_of times), cv_to = (if times = [] then None else Some (stamp (fold max (tl times) (hd times))))\<rparr>)"

definition rollups_from ::
  "SummaryRow list \<Rightarrow> FieldRow list \<Rightarrow> BranchFieldRow list \<Rightarrow> branch_row list \<Rightarrow> link_row list \<Rightarrow> TelemetryInput"
where
  "rollups_from summaries sessionFields branchFields slices prLinks =
     (let byField = group_rows fw_session_id sessionFields; byBranchField = group_rows bf_session_id branchFields in
      \<lparr>ti_sessions = map (rollup_of byField) summaries, ti_spans = map span_of slices,
       ti_splits = map (split_of summaries byField byBranchField) slices, ti_links = map link_of prLinks,
       ti_coverage = coverage_of summaries\<rparr>)"

text \<open>
  The five queries run at once, on connections of their own: each sees a state of the tables. \<open>ready\<close> is the error the migrations ended
  with, \<open>refused\<close> the message of the first query that is refused.
\<close>

definition fetchRollups ::
  "telemetry_error option \<Rightarrow> string option \<Rightarrow> string \<Rightarrow> telemetry_db \<Rightarrow> telemetry_db \<Rightarrow> telemetry_db \<Rightarrow> telemetry_db \<Rightarrow> telemetry_db \<Rightarrow>
    telemetry_error + TelemetryInput"
where
  "fetchRollups ready refused org db1 db2 db3 db4 db5 =
     (case ready of
        Some e \<Rightarrow> Inl e
      | None \<Rightarrow>
          (case refused of
             Some message \<Rightarrow> Inl (message, TE_QUERY)
           | None \<Rightarrow> Inr (rollups_from
               (filter (\<lambda>s. sm_org_id s = Some org \<or> sm_org_id s = None) (session_summary db1))
               (session_field_total (td_points db2))
               (branch_field_total org db3)
               (filter (\<lambda>r. br_org r = org) (session_branch_slice (td_branches db4)))
               (filter (\<lambda>l. pl_org l = org) (td_links db5)))))"

datatype health_status = HOk | HEmpty | HUnreachable

record TelemetryHealth =
  hs_status :: health_status
  hs_reason :: "string option"

definition health :: "telemetry_error option \<Rightarrow> string option \<Rightarrow> telemetry_db \<Rightarrow> TelemetryHealth" where
  "health ready refused db =
     (case ready of Some e \<Rightarrow> \<lparr>hs_status = HUnreachable, hs_reason = Some (fst e)\<rparr>
      | None \<Rightarrow>
          (case refused of Some message \<Rightarrow> \<lparr>hs_status = HUnreachable, hs_reason = Some message\<rparr>
           | None \<Rightarrow> if td_points db = [] then \<lparr>hs_status = HEmpty, hs_reason = Some ''No telemetry datapoints have arrived yet''\<rparr>
                     else \<lparr>hs_status = HOk, hs_reason = None\<rparr>))"

section \<open>Clients without a database\<close>

definition null_rollups :: "telemetry_error + TelemetryInput" where
  "null_rollups = Inl (''Telemetry is disabled (TELEMETRY_SOURCE=off)'', TE_UNREACHABLE)"

definition null_health :: TelemetryHealth where
  "null_health = \<lparr>hs_status = HUnreachable, hs_reason = Some ''Telemetry is disabled (TELEMETRY_SOURCE=off)''\<rparr>"

text \<open>The fixture is read once; a copy of it is handed out.\<close>

definition fixture_load :: "string + 'a \<Rightarrow> 'a option \<Rightarrow> (string + 'a) \<times> 'a option" where
  "fixture_load file cached =
     (case cached of Some v \<Rightarrow> (Inr v, cached)
      | None \<Rightarrow> (case file of Inl e \<Rightarrow> (Inl e, None) | Inr v \<Rightarrow> (Inr v, Some v)))"

end
