(* ===== verification/TelemetryFacts.thy ===== *)
theory TelemetryFacts
  imports TelemetryClient
begin

text \<open>
  Facts about the telemetry: what an export is flattened to, that the intake only adds datapoints, that a retried export adds none
  that counts, and that the slices of a session do not overlap.
\<close>

section \<open>What an export is flattened to\<close>

definition plain_attrs :: "attrs \<Rightarrow> bool" where
  "plain_attrs a \<longleftrightarrow> fst ` set a \<subseteq> set ATTR_ALLOWLIST \<and> distinct (map fst a)"

definition row_allowed :: "MetricRow \<Rightarrow> bool" where
  "row_allowed r \<longleftrightarrow> plain_attrs (mt_attrs r) \<and> mt_metric r \<noteq> [] \<and> mt_metric r \<notin> set METRIC_DENYLIST"

lemma plain_map_set: "plain_attrs a \<Longrightarrow> k \<in> set ATTR_ALLOWLIST \<Longrightarrow> plain_attrs (map_set k v a)"
  by (simp add: plain_attrs_def keys_map_set distinct_map_set)

lemma add_attributes_plain: "add_attributes num_text es out = Inr a \<Longrightarrow> plain_attrs out \<Longrightarrow> plain_attrs a"
  by (induction es arbitrary: out) (auto intro: plain_map_set split: option.splits if_splits)

lemma attributes_plain: "attributes num_text v = Inr a \<Longrightarrow> plain_attrs a"
  by (auto simp: attributes_def plain_attrs_def [of "[]"] dest: add_attributes_plain)

lemma merged_plain: "plain_attrs a \<Longrightarrow> fst ` set own \<subseteq> set ATTR_ALLOWLIST \<Longrightarrow> plain_attrs (fold (\<lambda>(k, x). map_set k x) own a)"
  by (induction own arbitrary: a) (auto simp: plain_map_set)

lemma flatten_point_allowed:
  assumes "flatten_point num_text n k ra p = Inr (Row r)" "plain_attrs ra" "n \<noteq> []" "n \<notin> set METRIC_DENYLIST"
  shows "row_allowed r"
proof -
  obtain own where own: "attributes num_text (property ''attributes'' p) = Inr own"
      and r: "mt_attrs r = fold (\<lambda>(k, x). map_set k x) own ra" "mt_metric r = n"
    using assms(1) by (auto simp: flatten_point_def Let_def split: if_splits)
  from attributes_plain [OF own] have "plain_attrs (mt_attrs r)"
    unfolding r by (intro merged_plain assms(2)) (simp add: plain_attrs_def)
  then show ?thesis using assms(3,4) by (simp add: row_allowed_def r(2))
qed

lemma flatten_metric_allowed:
  assumes "flatten_metric num_text ra m = Inr fs" "plain_attrs ra" "Row r \<in> set fs" shows "row_allowed r"
proof -
  from assms(1,3) obtain n where n: "n \<noteq> []" and f: "flatten_named num_text ra n m = Inr fs"
    by (auto simp: flatten_metric_def split: option.splits if_splits)
  then have deny: "n \<notin> set METRIC_DENYLIST" using assms(3) by (auto simp: flatten_named_def)
  obtain k ps where ps: "all_or_throw (flatten_point num_text n k ra) ps = Inr fs"
    using f assms(3) deny by (auto simp: flatten_named_def Let_def split: if_split_asm)
  from all_or_throw_all [OF ps assms(3)] obtain p where "flatten_point num_text n k ra p = Inr (Row r)" by blast
  from flatten_point_allowed [OF this assms(2) n deny] show ?thesis .
qed

lemma flatten_within_all:
  assumes "flatten_within k f v = Inr fs" "x \<in> set fs" "\<And>u gs. f u = Inr gs \<Longrightarrow> x \<in> set gs \<Longrightarrow> P" shows P
proof -
  obtain vs fss where "all_or_throw f vs = Inr fss" "fs = concat fss" using assms(1) by (auto simp: flatten_within_def)
  moreover then obtain gs where "gs \<in> set fss" "x \<in> set gs" using assms(2) by auto
  ultimately show P using all_or_throw_all assms(3) by metis
qed

lemma flatten_resource_allowed:
  assumes "flatten_resource num_text v = Inr fs" "Row r \<in> set fs" shows "row_allowed r"
proof -
  obtain ra where ra: "plain_attrs ra"
      and w: "flatten_within ''scopeMetrics'' (flatten_within ''metrics'' (flatten_metric num_text ra)) v = Inr fs"
    using assms(1) by (auto simp: flatten_resource_def dest: attributes_plain)
  show ?thesis
    by (rule flatten_within_all [OF w assms(2)], erule (1) flatten_within_all, erule flatten_metric_allowed [OF _ ra])
qed

lemma rows_among_iff: "r \<in> set (rows_among fs) \<longleftrightarrow> Row r \<in> set fs"
  by (induction fs rule: rows_among.induct) auto

lemma flattened_rows_allowed:
  assumes "flattenMetrics num_text raw = Inr f" "r \<in> set (fl_rows f)" shows "row_allowed r"
proof -
  obtain vs fss where fss: "all_or_throw (flatten_resource num_text) vs = Inr fss" "fl_rows f = rows_among (concat fss)"
    using assms(1) by (auto simp: flattenMetrics_def)
  then obtain fs where fs: "fs \<in> set fss" "Row r \<in> set fs" using assms(2) by (auto simp: rows_among_iff)
  from all_or_throw_all [OF fss(1) fs(1)] obtain v where "flatten_resource num_text v = Inr fs" by blast
  from flatten_resource_allowed [OF this fs(2)] show ?thesis .
qed

section \<open>The intake only adds\<close>

lemma insert_point_grows: "\<exists>new. insert_point d p t = t @ new \<and> set new \<subseteq> {p}"
  by (simp add: insert_point_def)

lemma insert_points_grow: "\<exists>new. fold (insert_point d) ps t = t @ new \<and> set new \<subseteq> set ps"
proof (induction ps arbitrary: t)
  case (Cons p ps)
  obtain a where a: "insert_point d p t = t @ a" "set a \<subseteq> {p}" using insert_point_grows by blast
  obtain b where "fold (insert_point d) ps (t @ a) = t @ a @ b" "set b \<subseteq> set ps" using Cons [of "t @ a"] by auto
  then show ?case using a by (intro exI [of _ "a @ b"]) auto
qed simp

lemma insertMetrics_points:
  "td_points (snd (insertMetrics ctx rows db)) =
     (if tx_refused ctx \<noteq> None then td_points db
      else case all_or_throw (point_row_of ctx) rows of Inl e \<Rightarrow> td_points db
           | Inr ps \<Rightarrow> fold (insert_point (tx_digest ctx)) ps (td_points db))"
  by (auto simp: insertMetrics_def Let_def split: option.splits sum.splits)

lemma insertMetrics_else: "td_branches (snd (insertMetrics ctx rows db)) = td_branches db" "td_links (snd (insertMetrics ctx rows db)) = td_links db"
  by (auto simp: insertMetrics_def Let_def split: option.splits sum.splits)

lemma post_metrics_db:
  "snd (post_metrics ctx ct raw db) =
     (if isJson ct then case flattenMetrics (tx_num_text ctx) raw of Inl e \<Rightarrow> db | Inr f \<Rightarrow> snd (insertMetrics ctx (fl_rows f) db) else db)"
  by (auto simp: post_metrics_def split: sum.splits prod.splits)

lemma recordBranch_else: "td_points (snd (recordBranch ctx r db)) = td_points db" "td_links (snd (recordBranch ctx r db)) = td_links db"
  by (auto simp: recordBranch_def Let_def split: option.splits sum.splits)

lemma post_branch_db:
  "snd (post_branch ctx raw db) = (case branchReport ctx raw of None \<Rightarrow> db | Some r \<Rightarrow> snd (recordBranch ctx r db))"
  by (auto simp: post_branch_def split: option.splits sum.splits prod.splits)

section \<open>A retried export\<close>

text \<open>Datapoints without a session are in no view.\<close>

lemma source_ignores: "list_all (\<lambda>p. mp_session_id p = None) new \<Longrightarrow> session_source (t @ new) a s = session_source t a s"
  by (induction new) (auto simp: session_source_def)

lemma used_ignores:
  assumes "list_all (\<lambda>p. mp_session_id p = None) new" shows "metric_point_used (t @ new) = metric_point_used t"
proof -
  have "filter (\<lambda>p. case mp_session_id p of None \<Rightarrow> False | Some s \<Rightarrow> P p s) new = []" for P
    using assms by (induction new) auto
  moreover have same: "session_source (t @ new) = session_source t" by (intro ext source_ignores assms)
  ultimately show ?thesis unfolding metric_point_used_def same by simp
qed

lemma insert_present:
  "(\<And>p. p \<in> set ps \<Longrightarrow> mp_session_id p \<noteq> None \<Longrightarrow> sql_exists (same_point d p) t) \<Longrightarrow>
   \<exists>new. fold (insert_point d) ps t = t @ new \<and> list_all (\<lambda>p. mp_session_id p = None) new"
proof (induction ps arbitrary: t)
  case (Cons p ps)
  show ?case
  proof (cases "sql_exists (same_point d p) t")
    case True
    then show ?thesis using Cons by (simp add: insert_point_def)
  next
    case False
    then have none: "mp_session_id p = None" using Cons.prems [of p] by (cases "mp_session_id p") auto
    have "\<exists>new. fold (insert_point d) ps (t @ [p]) = (t @ [p]) @ new \<and> list_all (\<lambda>p. mp_session_id p = None) new"
      by (rule Cons.IH) (use Cons.prems in \<open>force simp: sql_exists_iff\<close>)
    then obtain new where "fold (insert_point d) ps (t @ [p]) = t @ p # new" "list_all (\<lambda>p. mp_session_id p = None) new" by auto
    moreover have "insert_point d p t = t @ [p]" using False by (simp add: insert_point_def)
    ultimately show ?thesis using none by (intro exI [of _ "p # new"]) simp
  qed
qed simp

lemma inserted_present:
  assumes "p \<in> set ps" "mp_session_id p \<noteq> None" shows "sql_exists (same_point d p) (fold (insert_point d) ps t)"
  using assms(1)
proof (induction ps arbitrary: t)
  case (Cons q ps)
  show ?case
  proof (cases "p \<in> set ps")
    case False
    then have q: "q = p" using Cons.prems by simp
    have "sql_exists (same_point d p) (insert_point d p t)"
      using assms(2) by (auto simp: insert_point_def sql_exists_iff same_point_def)
    moreover obtain new where "fold (insert_point d) ps (insert_point d p t) = insert_point d p t @ new"
      using insert_points_grow by blast
    ultimately show ?thesis by (auto simp: q sql_exists_iff)
  qed (use Cons.IH in simp)
qed simp

definition received :: "int \<Rightarrow> point_row \<Rightarrow> point_row" where
  "received n p = p\<lparr>mp_received_at := n\<rparr>"

lemma same_point_received: "same_point d (received n p) = same_point d p"
  by (intro ext) (simp add: same_point_def received_def)

lemma date_ms_now: "date_ms (ctx\<lparr>tx_now := n\<rparr>) s = date_ms ctx s"
  by (simp add: date_ms_def split: option.split)

lemma columns_now:
  "text_column (ctx\<lparr>tx_now := n\<rparr>) = text_column ctx" "field_column (ctx\<lparr>tx_now := n\<rparr>) = field_column ctx"
  "instant_of (ctx\<lparr>tx_now := n\<rparr>) = instant_of ctx"
  by (intro ext, simp add: text_column_def field_column_def instant_of_def date_ms_now split: json.split field_value.split)+

lemma point_row_of_now:
  "point_row_of (ctx\<lparr>tx_now := n\<rparr>) row = (case point_row_of ctx row of Inl e \<Rightarrow> Inl e | Inr p \<Rightarrow> Inr (received n p))"
  unfolding point_row_of_def columns_now
  by (simp add: and_then_def received_def split: sum.splits)

lemma rows_now:
  "all_or_throw (point_row_of (ctx\<lparr>tx_now := n\<rparr>)) rows =
     (case all_or_throw (point_row_of ctx) rows of Inl e \<Rightarrow> Inl e | Inr ps \<Rightarrow> Inr (map (received n) ps))"
  by (induction rows) (auto simp: point_row_of_now split: sum.splits)

lemma inserted_not_Nil: "ps \<noteq> [] \<Longrightarrow> fold (insert_point d) ps t \<noteq> []"
proof (cases ps)
  case (Cons p qs)
  obtain new where "fold (insert_point d) qs (insert_point d p t) = insert_point d p t @ new" using insert_points_grow by blast
  moreover have "insert_point d p t \<noteq> []" by (auto simp: insert_point_def sql_exists_iff)
  ultimately show ?thesis by (simp add: Cons)
qed simp

lemma retried_points:
  assumes "set (td_points (snd (insertMetrics ctx rows db0))) \<subseteq> set (td_points db)"
  shows "\<exists>new. td_points (snd (insertMetrics (ctx\<lparr>tx_now := n\<rparr>) rows db)) = td_points db @ new \<and>
    list_all (\<lambda>p. mp_session_id p = None) new \<and> (td_points db = [] \<longrightarrow> new = [])"
proof (cases "tx_refused ctx = None \<and> (\<exists>ps. all_or_throw (point_row_of ctx) rows = Inr ps)")
  case True
  then obtain ps where ps: "all_or_throw (point_row_of ctx) rows = Inr ps" "tx_refused ctx = None" by auto
  let ?d = "tx_digest ctx"
  have sub: "set (fold (insert_point ?d) ps (td_points db0)) \<subseteq> set (td_points db)"
    using assms ps by (simp add: insertMetrics_points)
  have "sql_exists (same_point ?d p) (td_points db)" if p: "p \<in> set (map (received n) ps)" "mp_session_id p \<noteq> None" for p :: point_row
  proof -
    obtain q where q: "q \<in> set ps" "p = received n q" using p(1) by auto
    then have "mp_session_id q \<noteq> None" using p(2) by (simp add: received_def)
    from inserted_present [OF q(1) this, of ?d "td_points db0"] sub show ?thesis
      unfolding q(2) same_point_received sql_exists_iff by blast
  qed
  from insert_present [where ps = "map (received n) ps", OF this]
  obtain new where new: "fold (insert_point ?d) (map (received n) ps) (td_points db) = td_points db @ new"
      "list_all (\<lambda>p. mp_session_id p = None) new" by blast
  have "new = []" if "td_points db = []"
    using sub that inserted_not_Nil [of ps ?d "td_points db0"] new(1) by (cases "ps = []") auto
  then show ?thesis using ps new by (simp add: insertMetrics_points rows_now)
next
  case False
  then have "td_points (snd (insertMetrics (ctx\<lparr>tx_now := n\<rparr>) rows db)) = td_points db"
    by (auto simp: insertMetrics_points rows_now split: sum.splits)
  then show ?thesis by (intro exI [of _ "[]"]) simp
qed

text \<open>What is fetched of two databases that differ in datapoints without a session.\<close>

lemma rollups_ignore:
  assumes "td_points db' = td_points db @ new" "list_all (\<lambda>p. mp_session_id p = None) new" "td_branches db' = td_branches db"
    "td_links db' = td_links db"
  shows "fetchRollups ready refused org db' db' db' db' db' = fetchRollups ready refused org db db db db db"
proof -
  note used = used_ignores [OF assms(2), of "td_points db"]
  have "summary_row db' = summary_row db" by (intro ext) (simp add: summary_row_def assms(3))
  then have "session_summary db' = session_summary db"
    by (simp add: session_summary_def assms(1) used)
  moreover have "session_field_total (td_points db') = session_field_total (td_points db)"
    by (simp add: session_field_total_def assms(1) used)
  moreover have "branch_field_total org db' = branch_field_total org db"
    by (simp add: branch_field_total_def branch_points_def assms(1,3) used)
  ultimately show ?thesis by (simp add: fetchRollups_def assms(3,4) split: option.split)
qed

lemma health_ignores:
  "(td_points db' = [] \<longleftrightarrow> td_points db = []) \<Longrightarrow> health ready refused db' = health ready refused db"
  by (simp add: health_def split: option.split)

end
