(* ===== verification/Transcripts.thy ===== *)
theory Transcripts
  imports TelemetryStore FileSystem
begin

text \<open>
  The import of session transcripts, \<open>server/src/backfill/transcripts.ts\<close>. What a line of a file parses to is a
  parameter (\<open>None\<close> where \<open>JSON.parse\<close> throws) of the shape the code declares, and so is what \<open>git remote get-url origin\<close> prints in a
  directory (\<open>None\<close> where it fails) and which directories cannot be listed.
\<close>

section \<open>Records\<close>

record Record_ =
  rc_type :: "string option"
  rc_sessionId :: "string option"
  rc_timestamp :: "string option"
  rc_cwd :: "string option"
  rc_gitBranch :: "string option"
  rc_prNumber :: "int option"
  rc_prRepository :: "string option"
  rc_usage :: "(string \<times> rat) list option"

definition USAGE_FIELDS :: "(string \<times> CanonicalField) list" where
  "USAGE_FIELDS = [(''input_tokens'', FTokensInput), (''output_tokens'', FTokensOutput),
     (''cache_read_input_tokens'', FTokensCacheRead), (''cache_creation_input_tokens'', FTokensCacheCreation)]"

record BackfillSummary =
  bs_files :: nat
  bs_sessions :: nat
  bs_datapoints :: nat
  bs_branchSpans :: nat
  bs_prLinks :: nat
  bs_unresolvedCwds :: "string list"

section \<open>Finding the files and their repositories\<close>

definition project_files :: "(string \<Rightarrow> bool) \<Rightarrow> string \<Rightarrow> fs \<Rightarrow> string \<Rightarrow> string list" where
  "project_files unreadable rootDir f project =
     (let dir = path_join [rootDir, project] in
      if fs_at dir f \<noteq> Some FsDir \<or> unreadable dir then []
      else case readdirSync dir f of
        Inl e \<Rightarrow> []
      | Inr files \<Rightarrow> map (\<lambda>file. path_join [dir, file]) (filter (\<lambda>file. ends_with file ''.jsonl'') files))"

definition transcriptFiles :: "(string \<Rightarrow> bool) \<Rightarrow> string \<Rightarrow> fs \<Rightarrow> string + string list" where
  "transcriptFiles unreadable rootDir f =
     (if \<not> existsSync rootDir f then Inr []
      else case readdirSync rootDir f of
        Inl e \<Rightarrow> Inl e
      | Inr projects \<Rightarrow> Inr (sort (concat (map (project_files unreadable rootDir f) projects))))"

text \<open>\<open>/(?:[:\/])([^\/:]+\/[^\/]+?)(?:\.git)?\/?$/\<close>: the last two segments of a URL.\<close>

definition slug_of :: "string \<Rightarrow> string option" where
  "slug_of url =
     (let u = (if url \<noteq> [] \<and> last url = CHR ''/'' then butlast url else url);
          seg = rev (takeWhile (\<lambda>c. c \<noteq> CHR ''/'') (rev u));
          front = tl (dropWhile (\<lambda>c. c \<noteq> CHR ''/'') (rev u));
          owner = rev (takeWhile (\<lambda>c. c \<noteq> CHR ''/'' \<and> c \<noteq> CHR '':'') front) in
      if seg = [] \<or> owner = [] \<or> length owner = length front then None
      else Some (owner @ ''/'' @ (if ends_with seg ''.git'' \<and> 4 < length seg then take (length seg - 4) seg else seg)))"

fun repo_above :: "nat \<Rightarrow> fs \<Rightarrow> (string \<Rightarrow> string option) \<Rightarrow> string \<Rightarrow> string option" where
  "repo_above 0 f git_remote dir = None"
| "repo_above (Suc n) f git_remote dir =
     (if dir = ''/'' \<or> dir = ''.'' then None
      else if existsSync (path_join [dir, ''.git'']) f
        then (case git_remote dir of None \<Rightarrow> None | Some out \<Rightarrow> slug_of (js_trim out))
      else repo_above n f git_remote (path_join [dir, ''..'']))"

definition repoSlug ::
  "fs \<Rightarrow> (string \<Rightarrow> string option) \<Rightarrow> string \<Rightarrow> (string \<times> string option) list \<Rightarrow> string option \<times> (string \<times> string option) list"
where
  "repoSlug f git_remote cwd cache =
     (case map_of cache cwd of
        Some slug \<Rightarrow> (slug, cache)
      | None \<Rightarrow> let slug = repo_above 8 f git_remote cwd in (slug, map_set cwd slug cache))"

section \<open>Reading the records\<close>

record BranchSpan =
  sp_repo :: string
  sp_branch :: "string option"
  sp_first :: string
  sp_last :: string
  sp_samples :: int

record transcript_point =
  tp_session :: string
  tp_field :: CanonicalField
  tp_value :: rat
  tp_at :: string

record transcript_link =
  tl_session :: string
  tl_repo :: string
  tl_prNumber :: int
  tl_at :: string

record backfill_state =
  bx_points :: "transcript_point list"
  bx_spans :: "(string \<times> BranchSpan) list"
  bx_links :: "(string \<times> transcript_link) list"
  bx_sessions :: "string list"
  bx_slugs :: "(string \<times> string option) list"
  bx_unresolved :: "string list"

definition nul_key :: "string list \<Rightarrow> string" where
  "nul_key parts = join_with [CHR 0x00] parts"

definition set_add :: "'a \<Rightarrow> 'a list \<Rightarrow> 'a list" where
  "set_add x xs = (if x \<in> set xs then xs else xs @ [x])"

definition add_link :: "string \<Rightarrow> string \<Rightarrow> int \<Rightarrow> string \<Rightarrow> backfill_state \<Rightarrow> backfill_state" where
  "add_link sessionId repo number at' st =
     (let key = nul_key [sessionId, repo, int_str number] in
      if (case map_of (bx_links st) key of None \<Rightarrow> True | Some l \<Rightarrow> at' < tl_at l)
      then st\<lparr>bx_links := map_set key \<lparr>tl_session = sessionId, tl_repo = repo, tl_prNumber = number, tl_at = at'\<rparr> (bx_links st)\<rparr>
      else st)"

definition add_span :: "string \<Rightarrow> string \<Rightarrow> string option \<Rightarrow> string \<Rightarrow> backfill_state \<Rightarrow> backfill_state" where
  "add_span sessionId repo branch at' st =
     (let key = nul_key [sessionId, repo, case branch of None \<Rightarrow> [] | Some b \<Rightarrow> b] in
      st\<lparr>bx_spans := map_set key
        (case map_of (bx_spans st) key of
           None \<Rightarrow> \<lparr>sp_repo = repo, sp_branch = branch, sp_first = at', sp_last = at', sp_samples = 1\<rparr>
         | Some s \<Rightarrow> s\<lparr>sp_first := (if at' < sp_first s then at' else sp_first s), sp_last := (if sp_last s < at' then at' else sp_last s),
             sp_samples := sp_samples s + 1\<rparr>) (bx_spans st)\<rparr>)"

definition span_branch :: "Record_ \<Rightarrow> string option" where
  "span_branch r = (if truthy (rc_gitBranch r) \<and> rc_gitBranch r \<noteq> Some ''HEAD'' then rc_gitBranch r else None)"

definition place_record ::
  "fs \<Rightarrow> (string \<Rightarrow> string option) \<Rightarrow> Record_ \<Rightarrow> string \<Rightarrow> string \<Rightarrow> backfill_state \<Rightarrow> backfill_state"
where
  "place_record f git_remote r sessionId at' st =
     (if \<not> truthy (rc_cwd r) then st
      else
        case repoSlug f git_remote (the (rc_cwd r)) (bx_slugs st) of
          (None, slugs) \<Rightarrow> st\<lparr>bx_slugs := slugs, bx_unresolved := set_add (the (rc_cwd r)) (bx_unresolved st)\<rparr>
        | (Some repo, slugs) \<Rightarrow> add_span sessionId repo (span_branch r) at' (st\<lparr>bx_slugs := slugs\<rparr>))"

definition usage_points :: "Record_ \<Rightarrow> string \<Rightarrow> string \<Rightarrow> transcript_point list" where
  "usage_points r sessionId at' =
     (case rc_usage r of
        None \<Rightarrow> []
      | Some usage \<Rightarrow>
          if rc_type r \<noteq> Some ''assistant'' then []
          else List.map_filter (\<lambda>(k, field). case map_of usage k of
              None \<Rightarrow> None
            | Some v \<Rightarrow> if v = 0 then None else Some \<lparr>tp_session = sessionId, tp_field = field, tp_value = v, tp_at = at'\<rparr>) USAGE_FIELDS)"

definition read_record :: "fs \<Rightarrow> (string \<Rightarrow> string option) \<Rightarrow> Record_ \<Rightarrow> backfill_state \<Rightarrow> backfill_state" where
  "read_record f git_remote r st =
     (if \<not> truthy (rc_sessionId r) then st
      else
        let sessionId = the (rc_sessionId r) in
        if rc_type r = Some ''pr-link'' \<and> rc_prNumber r \<noteq> None \<and> rc_prNumber r \<noteq> Some 0 \<and> truthy (rc_prRepository r) \<and> truthy (rc_timestamp r)
        then add_link sessionId (the (rc_prRepository r)) (the (rc_prNumber r)) (the (rc_timestamp r)) st
        else if \<not> truthy (rc_timestamp r) then st
        else
          let at' = the (rc_timestamp r);
              st' = place_record f git_remote r sessionId at' (st\<lparr>bx_sessions := set_add sessionId (bx_sessions st)\<rparr>) in
          st'\<lparr>bx_points := bx_points st' @ usage_points r sessionId at'\<rparr>)"

definition read_line ::
  "fs \<Rightarrow> (string \<Rightarrow> string option) \<Rightarrow> (string \<Rightarrow> Record_ option) \<Rightarrow> string \<Rightarrow> backfill_state \<Rightarrow> backfill_state"
where
  "read_line f git_remote parse line st =
     (if line = [] then st else case parse line of None \<Rightarrow> st | Some r \<Rightarrow> read_record f git_remote r st)"

definition read_transcript ::
  "fs \<Rightarrow> (string \<Rightarrow> string option) \<Rightarrow> (string \<Rightarrow> Record_ option) \<Rightarrow> string \<Rightarrow> backfill_state \<Rightarrow> backfill_state"
where
  "read_transcript f git_remote parse file st =
     (case fs_at file f of
        Some (FsFile content) \<Rightarrow> fold (read_line f git_remote parse) (split_on (CHR 0x0A) content) st
      | _ \<Rightarrow> st)"

definition new_backfill :: backfill_state where
  "new_backfill = \<lparr>bx_points = [], bx_spans = [], bx_links = [], bx_sessions = [], bx_slugs = [], bx_unresolved = []\<rparr>"

section \<open>Writing them\<close>

abbreviation CHUNK :: nat where "CHUNK \<equiv> 2000"

definition transcript_attrs :: "transcript_point \<Rightarrow> attrs" where
  "transcript_attrs p = [(''session.id'', JStr (tp_session p)), (''type'', JStr (drop 7 (field_str (tp_field p))))]"

definition transcript_row :: "telemetry_ctx \<Rightarrow> transcript_point \<Rightarrow> string + point_row" where
  "transcript_row ctx p =
     and_then (instant_of ctx (tp_at p)) (\<lambda>time.
     if \<not> pg_text (tp_session p) then Inl text_error
     else Inr \<lparr>mp_agent = ''claude-code'', mp_metric = ''claude_code.token.usage'', mp_field = Some (field_str (tp_field p)),
       mp_session_id = Some (tp_session p), mp_value = Fin (tp_value p), mp_temporality = TDelta, mp_start_time = None, mp_time = time,
       mp_attrs = transcript_attrs p, mp_received_at = tx_now ctx, mp_source = ''transcript''\<rparr>)"

definition import_points :: "telemetry_ctx \<Rightarrow> transcript_point list \<Rightarrow> telemetry_db statement" where
  "import_points ctx batch db =
     and_then (all_or_throw (transcript_row ctx) batch) (\<lambda>rows.
     Inr (db\<lparr>td_points := fold (insert_point (tx_digest ctx)) rows (td_points db)\<rparr>))"

definition span_conflict :: "branch_row \<Rightarrow> branch_row \<Rightarrow> branch_row" where
  "span_conflict old new =
     old\<lparr>br_first_seen := min (br_first_seen old) (br_first_seen new), br_last_seen := max (br_last_seen old) (br_last_seen new),
       br_samples := max (br_samples old) (br_samples new)\<rparr>"

definition span_row :: "telemetry_ctx \<Rightarrow> string \<times> BranchSpan \<Rightarrow> string + branch_row" where
  "span_row ctx entry =
     (let sessionId = hd (split_on (CHR 0x00) (fst entry)); s = snd entry in
      and_then (instant_of ctx (sp_first s)) (\<lambda>first.
      and_then (instant_of ctx (sp_last s)) (\<lambda>last.
      if \<not> list_all pg_text [sessionId, sp_repo s] \<or> \<not> opt_ok pg_text (sp_branch s) then Inl text_error
      else if \<not> pg_int4 (sp_samples s) then Inl int4_error
      else case sp_branch s of
        None \<Rightarrow> Inl null_error
      | Some branch \<Rightarrow> Inr \<lparr>br_org = tx_org ctx, br_agent = ''claude-code'', br_session_id = sessionId, br_repo = sp_repo s,
          br_branch = branch, br_head_sha = None, br_first_seen = first, br_last_seen = last, br_samples = sp_samples s\<rparr>)))"

definition import_span :: "telemetry_ctx \<Rightarrow> string \<times> BranchSpan \<Rightarrow> telemetry_db statement" where
  "import_span ctx entry db =
     and_then (span_row ctx entry) (\<lambda>row.
     Inr (db\<lparr>td_branches := upsert_row session_branch_key span_conflict row (td_branches db)\<rparr>))"

definition imported_link :: "telemetry_ctx \<Rightarrow> transcript_link \<Rightarrow> string + link_row" where
  "imported_link ctx l =
     and_then (instant_of ctx (tl_at l)) (\<lambda>first.
     if \<not> list_all pg_text [tl_session l, tl_repo l] then Inl text_error
     else if \<not> pg_int4 (tl_prNumber l) then Inl int4_error
     else Inr \<lparr>pl_org = tx_org ctx, pl_agent = ''claude-code'', pl_session_id = tl_session l, pl_repo = tl_repo l,
       pl_pr_number = tl_prNumber l, pl_first_seen = first\<rparr>)"

definition import_link :: "telemetry_ctx \<Rightarrow> transcript_link \<Rightarrow> telemetry_db statement" where
  "import_link ctx l db =
     and_then (imported_link ctx l) (\<lambda>row. Inr (db\<lparr>td_links := insert_new link_key row (td_links db)\<rparr>))"

fun chunks :: "nat \<Rightarrow> 'a list \<Rightarrow> 'a list list" where
  "chunks n xs = (if xs = [] \<or> n = 0 then [] else take n xs # chunks n (drop n xs))"

declare chunks.simps [simp del]

definition import_statements :: "telemetry_ctx \<Rightarrow> backfill_state \<Rightarrow> telemetry_db statement list" where
  "import_statements ctx st =
     map (import_points ctx) (chunks CHUNK (bx_points st)) @ map (import_span ctx) (bx_spans st) @
     map (import_link ctx \<circ> snd) (bx_links st)"

definition read_transcripts ::
  "fs \<Rightarrow> (string \<Rightarrow> string option) \<Rightarrow> (string \<Rightarrow> Record_ option) \<Rightarrow> string list \<Rightarrow> backfill_state"
where
  "read_transcripts f git_remote parse files = fold (read_transcript f git_remote parse) files new_backfill"

definition backfillTranscripts ::
  "telemetry_ctx \<Rightarrow> (nat \<times> string) option \<Rightarrow> fs \<Rightarrow> (string \<Rightarrow> bool) \<Rightarrow> (string \<Rightarrow> string option) \<Rightarrow> (string \<Rightarrow> Record_ option) \<Rightarrow> string \<Rightarrow> telemetry_db \<Rightarrow>
    (string + BackfillSummary) \<times> telemetry_db"
where
  "backfillTranscripts ctx flt f unreadable git_remote parse rootDir db =
     (case transcriptFiles unreadable rootDir f of
        Inl e \<Rightarrow> (Inl e, db)
      | Inr files \<Rightarrow>
          let st = read_transcripts f git_remote parse files in
          (case run_statements flt (import_statements ctx st) db of
            (Inl e, db') \<Rightarrow> (Inl e, db')
          | (Inr u, db') \<Rightarrow>
              (Inr \<lparr>bs_files = length files, bs_sessions = length (bx_sessions st), bs_datapoints = length (bx_points st),
                 bs_branchSpans = length (bx_spans st), bs_prLinks = length (bx_links st), bs_unresolvedCwds = sort (bx_unresolved st)\<rparr>, db')))"

end
