(* ===== verification/IntakeFacts.thy ===== *)
theory IntakeFacts
  imports TelemetryFacts Transcripts
begin

text \<open>
  Sequences of intakes: exports, reports of a branch and imports of transcripts, in any order. What is stored only grows, keeps the
  constraints of the tables, and an import that came through changes nothing when it is run again.
\<close>

section \<open>Tables with a conflict clause\<close>

interpretation branches: conflict_table session_branch_key branch_conflict
  by unfold_locales (simp add: session_branch_key_def branch_conflict_def)

interpretation spans: conflict_table session_branch_key span_conflict
  by unfold_locales (simp add: session_branch_key_def span_conflict_def)

section \<open>Intakes\<close>

datatype intake =
    IMetrics telemetry_ctx "string option" "json option"
  | IBranch telemetry_ctx "json option"
  | IImport telemetry_ctx "(nat \<times> string) option" fs "string \<Rightarrow> bool" "string \<Rightarrow> string option" "string \<Rightarrow> Record_ option" string

text \<open>Of one database, so with one digest.\<close>

fun intake_step :: "(attrs \<Rightarrow> string) \<Rightarrow> intake \<Rightarrow> telemetry_db \<Rightarrow> telemetry_db" where
  "intake_step d (IMetrics ctx ct raw) db = snd (post_metrics (ctx\<lparr>tx_digest := d\<rparr>) ct raw db)"
| "intake_step d (IBranch ctx raw) db = snd (post_branch (ctx\<lparr>tx_digest := d\<rparr>) raw db)"
| "intake_step d (IImport ctx flt f unreadable git_remote parse rootDir) db =
     snd (backfillTranscripts (ctx\<lparr>tx_digest := d\<rparr>) flt f unreadable git_remote parse rootDir db)"

lemma backfill_db:
  "snd (backfillTranscripts ctx flt f unreadable git_remote parse rootDir db) =
     (case transcriptFiles unreadable rootDir f of Inl e \<Rightarrow> db
      | Inr files \<Rightarrow> snd (run_statements flt (import_statements ctx (read_transcripts f git_remote parse files)) db))"
  by (simp add: backfillTranscripts_def Let_def split_beta split: sum.split)

text \<open>What every step of an intake hands on, it hands on.\<close>

lemma intake_step_inv:
  assumes "P db"
    "\<And>ctx ps db. tx_digest ctx = d \<Longrightarrow> (\<And>p. p \<in> set ps \<Longrightarrow> \<exists>row. row_allowed row \<and> point_row_of ctx row = Inr p) \<Longrightarrow> P db \<Longrightarrow>
      P (db\<lparr>td_points := fold (insert_point d) ps (td_points db)\<rparr>)"
    "\<And>ctx r db. P db \<Longrightarrow> bp_branch r \<noteq> Some ''HEAD'' \<Longrightarrow> bp_branch r \<noteq> Some [] \<Longrightarrow> P (snd (recordBranch ctx r db))"
    "\<And>ctx f git_remote parse files st db db'. tx_digest ctx = d \<Longrightarrow> st \<in> set (import_statements ctx (read_transcripts f git_remote parse files)) \<Longrightarrow>
      st db = Inr db' \<Longrightarrow> P db \<Longrightarrow> P db'"
  shows "P (intake_step d e db)"
proof (cases e)
  case (IMetrics ctx ct raw)
  show ?thesis
  proof (cases "isJson ct \<and> tx_refused ctx = None")
    case True
    have "P (snd (insertMetrics (ctx\<lparr>tx_digest := d\<rparr>) (fl_rows f) db))" if f: "flattenMetrics (tx_num_text ctx) raw = Inr f" for f
    proof (cases "all_or_throw (point_row_of (ctx\<lparr>tx_digest := d\<rparr>)) (fl_rows f)")
      case (Inr ps)
      have "\<exists>row. row_allowed row \<and> point_row_of (ctx\<lparr>tx_digest := d\<rparr>) row = Inr p" if "p \<in> set ps" for p
        using all_or_throw_all [OF Inr that] flattened_rows_allowed [OF f] by blast
      from assms(2) [OF _ this assms(1)] show ?thesis using True Inr assms(1) by (simp add: insertMetrics_def Let_def)
    qed (use True assms(1) in \<open>simp add: insertMetrics_def\<close>)
    then show ?thesis using True assms(1) by (simp add: IMetrics post_metrics_db split: sum.split)
  qed (use assms(1) in \<open>auto simp: IMetrics post_metrics_db insertMetrics_def split: sum.split\<close>)
next
  case (IBranch ctx raw)
  have "bp_branch r \<noteq> Some ''HEAD''" "bp_branch r \<noteq> Some []" if "branchReport c raw = Some r" for r c
    using that by (auto simp: branchReport_def Let_def text_of_def some_text_def split: option.splits if_splits)
  then show ?thesis using assms(1,3) by (simp add: IBranch post_branch_db split: option.split)
next
  case (IImport ctx flt f unreadable git_remote parse rootDir)
  have "P (snd (run_statements flt (import_statements (ctx\<lparr>tx_digest := d\<rparr>) (read_transcripts f git_remote parse files)) db))" for files
    by (rule run_statements_induct [where P = P]) (use assms(1) assms(4) [of "ctx\<lparr>tx_digest := d\<rparr>"] in auto)
  then show ?thesis using assms(1) by (simp add: IImport backfill_db split: sum.split)
qed

section \<open>What is stored only grows\<close>

definition widened :: "branch_row \<Rightarrow> branch_row \<Rightarrow> bool" where
  "widened q r \<longleftrightarrow> session_branch_key r = session_branch_key q \<and> br_first_seen r \<le> br_first_seen q \<and>
     br_last_seen q \<le> br_last_seen r \<and> br_samples q \<le> br_samples r"

definition branches_widen :: "branch_row list \<Rightarrow> branch_row list \<Rightarrow> bool" where
  "branches_widen t t' \<longleftrightarrow> session_branch_key ` set t \<subseteq> session_branch_key ` set t' \<and>
     (\<forall>r \<in> set t'. session_branch_key r \<in> session_branch_key ` set t \<longrightarrow> (\<exists>q \<in> set t. widened q r))"

definition telemetry_grows :: "telemetry_db \<Rightarrow> telemetry_db \<Rightarrow> bool" where
  "telemetry_grows a b \<longleftrightarrow> set (td_points a) \<subseteq> set (td_points b) \<and> branches_widen (td_branches a) (td_branches b) \<and>
     link_key ` set (td_links a) \<subseteq> link_key ` set (td_links b)"

lemma widened_refl [simp]: "widened q q"
  by (simp add: widened_def)

lemma widened_trans: "widened a b \<Longrightarrow> widened b c \<Longrightarrow> widened a c"
  by (auto simp: widened_def)

lemma branches_widen_refl [simp]: "branches_widen t t"
  by (auto simp: branches_widen_def intro: widened_refl)

lemma branches_widen_trans:
  assumes "branches_widen a b" "branches_widen b c" shows "branches_widen a c"
  unfolding branches_widen_def
proof (intro conjI ballI impI)
  show "session_branch_key ` set a \<subseteq> session_branch_key ` set c"
    using assms unfolding branches_widen_def by (meson subset_trans)
  fix r assume r: "r \<in> set c" "session_branch_key r \<in> session_branch_key ` set a"
  then have "session_branch_key r \<in> session_branch_key ` set b" using assms(1) unfolding branches_widen_def by (meson subsetD)
  then obtain q where q: "q \<in> set b" "widened q r" using assms(2) r(1) by (auto simp: branches_widen_def)
  then have "session_branch_key q \<in> session_branch_key ` set a" using r(2) by (simp add: widened_def)
  then obtain p where "p \<in> set a" "widened p q" using assms(1) q(1) by (auto simp: branches_widen_def)
  then show "\<exists>q \<in> set a. widened q r" using q(2) widened_trans by blast
qed

lemma telemetry_grows_refl [simp]: "telemetry_grows a a"
  by (simp add: telemetry_grows_def)

lemma telemetry_grows_trans: "telemetry_grows a b \<Longrightarrow> telemetry_grows b c \<Longrightarrow> telemetry_grows a c"
  unfolding telemetry_grows_def by (meson branches_widen_trans subset_trans)

lemma upsert_present:
  "key r \<in> key ` set t \<Longrightarrow> upsert_row key upd r t = map (\<lambda>q. if key q = key r then upd q r else q) t"
  by (simp add: upsert_row_def sql_exists_key sql_update_def eq_commute)

lemma upsert_widens:
  assumes "\<And>old. session_branch_key r = session_branch_key old \<Longrightarrow> widened old (upd old r)"
  shows "branches_widen t (upsert_row session_branch_key upd r t)"
proof (cases "session_branch_key r \<in> session_branch_key ` set t")
  case False
  then show ?thesis by (auto simp: upsert_row_def sql_exists_key branches_widen_def intro: widened_refl)
next
  case True
  let ?g = "\<lambda>q. if session_branch_key q = session_branch_key r then upd q r else q"
  have t': "upsert_row session_branch_key upd r t = map ?g t"
    using True by (rule upsert_present)
  have w: "widened q (?g q)" for q using assms [of q] by simp
  then have key: "session_branch_key (?g q) = session_branch_key q" for q by (simp add: widened_def)
  show ?thesis unfolding branches_widen_def t'
  proof (intro conjI ballI impI)
    show "session_branch_key ` set t \<subseteq> session_branch_key ` set (map ?g t)"
      unfolding set_map image_image key by (rule subset_refl)
    show "\<exists>q \<in> set t. widened q p" if p: "p \<in> set (map ?g t)" for p
    proof -
      obtain q where "q \<in> set t" "p = ?g q" using p unfolding set_map by (rule imageE)
      then show ?thesis using w [of q] by (intro bexI [of _ q]) simp_all
    qed
  qed
qed

lemma conflict_widens: "session_branch_key r = session_branch_key old \<Longrightarrow> widened old (branch_conflict old r)"
  by (simp add: widened_def branch_conflict_def session_branch_key_def)

lemma span_widens: "session_branch_key r = session_branch_key old \<Longrightarrow> widened old (span_conflict old r)"
  by (simp add: widened_def span_conflict_def session_branch_key_def)

lemma points_grow: "set t \<subseteq> set (fold (insert_point d) ps t)"
  using insert_points_grow [of d ps t] by auto

lemma recordBranch_grows: "telemetry_grows db (snd (recordBranch ctx r db))"
  by (auto simp: telemetry_grows_def recordBranch_def Let_def upsert_widens conflict_widens split: option.split sum.split)

lemma import_grows: "st \<in> set (import_statements ctx bx) \<Longrightarrow> st db = Inr db' \<Longrightarrow> telemetry_grows db db'"
  by (auto simp: import_statements_def import_points_def import_span_def import_link_def telemetry_grows_def upsert_widens span_widens
      insert_new_keys points_grow [THEN subsetD] split: if_splits)

lemma intake_grows: "telemetry_grows db (intake_step d e db)"
proof (rule intake_step_inv [where P = "telemetry_grows db"])
  show "telemetry_grows db (db'\<lparr>td_points := fold (insert_point d) ps (td_points db')\<rparr>)" if "telemetry_grows db db'" for ps db'
    using that points_grow [of "td_points db'" d ps] by (auto simp: telemetry_grows_def)
  show "telemetry_grows db (snd (recordBranch ctx r db'))" if "telemetry_grows db db'" for ctx r db'
    using that recordBranch_grows telemetry_grows_trans by blast
  show "telemetry_grows db b" if "st \<in> set (import_statements ctx bx)" "st a = Inr b" "telemetry_grows db a" for st ctx bx a b
    using that import_grows telemetry_grows_trans by blast
qed simp

lemma intakes_grow: "telemetry_grows db (fold (intake_step d) es db)"
proof (induction es arbitrary: db)
  case (Cons e es)
  show ?case using telemetry_grows_trans [OF intake_grows Cons.IH] by simp
qed simp

end
