(* ===== verification/SliceFacts.thy ===== *)
theory SliceFacts
  imports TelemetryFacts
begin

text \<open>
  Facts about the views: the slices of a session do not overlap, what the client looks up of a session's fields, and the totals of
  datapoints that are increments.
\<close>

section \<open>Slices\<close>

lemma lead_nth:
  "distinct xs \<Longrightarrow> i < length xs \<Longrightarrow> lead (xs ! i) xs = (if Suc i < length xs then Some (xs ! Suc i) else None)"
proof (induction xs arbitrary: i)
  case (Cons x xs)
  show ?case
  proof (cases i)
    case 0
    then show ?thesis by (cases xs) auto
  next
    case (Suc j)
    then have "xs ! j \<noteq> x" using Cons.prems by (metis distinct.simps(2) length_Cons not_less_eq nth_mem)
    then show ?thesis using Cons Suc by simp
  qed
qed simp

lemma slice_ends_before:
  assumes "distinct t" "r \<in> set t" "q \<in> set t" "r \<noteq> q" "session_of_branch q = session_of_branch r"
  shows "br_last_seen (slice_of t r) < br_first_seen q \<or> br_last_seen (slice_of t q) < br_first_seen r"
proof -
  let ?S = "sort_key br_first_seen (filter (\<lambda>x. session_of_branch x = session_of_branch r) t)"
  have S: "distinct ?S" "sorted (map br_first_seen ?S)" using assms(1) by (simp_all add: distinct_filter)
  have "r \<in> set ?S" "q \<in> set ?S" using assms by simp_all
  then obtain i j where ij: "i < length ?S" "?S ! i = r" "j < length ?S" "?S ! j = q" by (meson in_set_conv_nth)
  have before: "br_last_seen (slice_of t x) < br_first_seen y"
    if "k < l" "l < length ?S" "?S ! k = x" "?S ! l = y" "session_of_branch x = session_of_branch r" for k l x y
  proof -
    have "lead x ?S = Some (?S ! Suc k)" using lead_nth [OF S(1), of k] that by simp
    moreover have "br_first_seen (?S ! Suc k) \<le> br_first_seen y"
      using sorted_nth_mono [OF S(2), of "Suc k" l] that by simp
    ultimately show ?thesis using that(5) by (simp add: slice_of_def next_branch_def)
  qed
  have "i \<noteq> j" using ij assms(4) by auto
  then consider "i < j" | "j < i" by linarith
  then show ?thesis
    by cases (use before [of i j r q] before [of j i q r] ij assms(5) in auto)
qed

lemma slice_fields [simp]:
  "br_org (slice_of t r) = br_org r" "br_agent (slice_of t r) = br_agent r" "br_session_id (slice_of t r) = br_session_id r"
  "br_repo (slice_of t r) = br_repo r" "br_branch (slice_of t r) = br_branch r" "br_first_seen (slice_of t r) = br_first_seen r"
  by (simp_all add: slice_of_def)

lemma slices_disjoint:
  assumes "distinct t" "r \<in> set t" "q \<in> set t" "br_org r = br_org q" "in_slice (slice_of t r) p" "in_slice (slice_of t q) p"
  shows "r = q"
proof (rule ccontr)
  assume ne: "r \<noteq> q"
  have "session_of_branch q = session_of_branch r" using assms(4-6) by (auto simp: session_of_branch_def in_slice_def)
  from slice_ends_before [OF assms(1-3) ne this] show False using assms(5,6) by (auto simp: in_slice_def)
qed

section \<open>Lookups\<close>

lemma rows_for_group: "rows_for (group_rows k rows) s = filter (\<lambda>r. k r = s) rows"
proof (induction rows rule: rev_induct)
  case (snoc r rows)
  have "group_rows k (rows @ [r]) = map_bump (k r) [] (\<lambda>l. l @ [r]) (group_rows k rows)" by (simp add: group_rows_def)
  then show ?case using snoc by (auto simp: rows_for_def split: option.splits)
qed (simp add: rows_for_def group_rows_def)

lemma map_of_at_key: "map_of xs k = map_of (filter (\<lambda>x. fst x = k) xs) k"
  by (induction xs) auto

lemma filter_eq_distinct: "distinct xs \<Longrightarrow> filter (\<lambda>x. x = a) xs = (if a \<in> set xs then [a] else [])"
  by (induction xs) auto

text \<open>A value of a view that is grouped by a key: looked up where one key alone has the name.\<close>

lemma map_of_grouped:
  assumes "\<And>k. k \<in> set ks \<Longrightarrow> P k \<and> name k = n \<longleftrightarrow> k = k0"
  shows "map_of (rev (map (\<lambda>k. (name k, val k)) (filter P (first_seen ks)))) n = (if k0 \<in> set ks then Some (val k0) else None)"
proof -
  have "filter (\<lambda>x. fst x = n) (map (\<lambda>k. (name k, val k)) (filter P (first_seen ks))) =
      map (\<lambda>k. (name k, val k)) (filter (\<lambda>k. P k \<and> name k = n) (first_seen ks))"
    by (simp add: filter_map o_def conj_commute)
  also have "filter (\<lambda>k. P k \<and> name k = n) (first_seen ks) = filter (\<lambda>k. k = k0) (first_seen ks)"
    using assms by (intro filter_cong) auto
  also have "\<dots> = (if k0 \<in> set ks then [k0] else [])" by (simp add: filter_eq_distinct)
  finally have eq: "filter (\<lambda>x. fst x = n) (map (\<lambda>k. (name k, val k)) (filter P (first_seen ks))) =
      map (\<lambda>k. (name k, val k)) (if k0 \<in> set ks then [k0] else [])" .
  have "name k0 = n" if "k0 \<in> set ks" using assms [OF that] by simp
  then show ?thesis by (subst map_of_at_key, subst rev_filter [symmetric], subst eq) simp
qed

lemma values_of_grouped:
  assumes "\<And>k. k \<in> set ks \<Longrightarrow> P k \<and> name k = n \<longleftrightarrow> k = k0"
  shows "values_of (map (\<lambda>k. (name k, val k)) (filter P (first_seen ks))) n = (if k0 \<in> set ks then Some (val k0) else None)"
  unfolding values_of_def by (rule map_of_grouped) (rule assms)

section \<open>Totals of increments\<close>

definition amount :: "point_row \<Rightarrow> rat" where
  "amount p = (case mp_value p of Fin q \<Rightarrow> q | _ \<Rightarrow> 0)"

definition increment :: "point_row \<Rightarrow> bool" where
  "increment p \<longleftrightarrow> mp_temporality p \<noteq> TCumulative \<and> (case mp_value p of Fin q \<Rightarrow> 0 \<le> q | _ \<Rightarrow> False)"

lemma increment_iff: "increment p \<longleftrightarrow> mp_temporality p \<noteq> TCumulative \<and> (\<exists>q. mp_value p = Fin q \<and> 0 \<le> q)"
  by (auto simp: increment_def split: double.split)

lemma amount_nonneg: "increment p \<Longrightarrow> 0 \<le> amount p"
  by (auto simp: increment_iff amount_def)

lemma double_sum_snoc: "double_sum (vs @ [v]) = double_add (double_sum vs) v"
  by (simp add: double_sum_def)

lemma double_sum_fin: "\<forall>v \<in> set vs. v = Fin (f v) \<Longrightarrow> double_sum vs = Fin (\<Sum>v \<leftarrow> vs. f v)"
proof (induction vs rule: rev_induct)
  case (snoc v vs)
  then have "double_sum vs = Fin (\<Sum>v \<leftarrow> vs. f v)" by simp
  moreover have "double_add (Fin a) v = Fin (a + f v)" for a using snoc.prems by (metis double_add.simps(1) in_set_conv_decomp)
  ultimately show ?case by (simp add: double_sum_snoc)
qed (simp add: double_sum_def)

lemma increments_sum:
  assumes "\<forall>p \<in> set ps. increment p" shows "double_sum (map mp_value ps) = Fin (\<Sum>p \<leftarrow> ps. amount p)"
proof -
  have "double_sum (map mp_value ps) = Fin (\<Sum>v \<leftarrow> map mp_value ps. case v of Fin q \<Rightarrow> q | _ \<Rightarrow> 0)"
    by (rule double_sum_fin) (use assms in \<open>auto simp: increment_iff\<close>)
  then show ?thesis by (simp add: amount_def [abs_def] o_def)
qed

lemma sum_list_single: "distinct ks \<Longrightarrow> (\<Sum>k \<leftarrow> ks. if a = k then c else 0) = (if a \<in> set ks then c else (0 :: rat))"
  by (induction ks) auto

lemma sum_by_first_seen:
  "(\<Sum>k \<leftarrow> first_seen (map f xs). \<Sum>x \<leftarrow> filter (\<lambda>x. f x = k) xs. g x) = (\<Sum>x \<leftarrow> xs. (g x :: rat))"
proof -
  have "(\<Sum>k \<leftarrow> ks. \<Sum>x \<leftarrow> filter (\<lambda>x. f x = k) xs. g x) = (\<Sum>x \<leftarrow> xs. g x)"
    if "distinct ks" "f ` set xs \<subseteq> set ks" for ks
    using that(2)
  proof (induction xs)
    case (Cons x xs)
    have "(\<Sum>k \<leftarrow> ks. if f x = k then g x else 0) = g x"
      using that(1) Cons.prems by (simp add: sum_list_single)
    moreover have "(\<Sum>k \<leftarrow> ks. \<Sum>y \<leftarrow> filter (\<lambda>y. f y = k) (x # xs). g y) =
        (\<Sum>k \<leftarrow> ks. (if f x = k then g x else 0) + (\<Sum>y \<leftarrow> filter (\<lambda>y. f y = k) xs. g y))"
      by (intro arg_cong [where f = sum_list] map_cong) auto
    ultimately show ?case using Cons by (simp add: sum_list_addf)
  qed (simp add: sum_list_0)
  then show ?thesis by simp
qed

lemma field_total_increments:
  assumes "\<forall>p \<in> set ps. increment p" shows "field_total ps = Fin (\<Sum>p \<leftarrow> ps. amount p)"
proof -
  have series: "series_total ps k = Fin (\<Sum>p \<leftarrow> filter (\<lambda>p. series_of p = k) ps. amount p)" if "k \<in> set (map series_of ps)" for k
  proof -
    have "fst k \<noteq> TCumulative" using that assms by (auto simp: series_of_def increment_iff)
    then show ?thesis using assms by (simp add: series_total_def increments_sum)
  qed
  let ?vs = "map (series_total ps) (first_seen (map series_of ps))"
  have "double_sum ?vs = Fin (\<Sum>v \<leftarrow> ?vs. case v of Fin q \<Rightarrow> q | _ \<Rightarrow> 0)"
    by (rule double_sum_fin) (use series in auto)
  also have "(\<Sum>v \<leftarrow> ?vs. case v of Fin q \<Rightarrow> q | _ \<Rightarrow> 0) =
      (\<Sum>k \<leftarrow> first_seen (map series_of ps). \<Sum>p \<leftarrow> filter (\<lambda>p. series_of p = k) ps. amount p)"
    unfolding map_map by (intro arg_cong [where f = sum_list] map_cong) (use series in auto)
  finally show ?thesis by (simp add: field_total_def sum_by_first_seen)
qed

end
