(* ===== verification/TelemetryTheorems.thy ===== *)
theory TelemetryTheorems
  imports IntakeFacts SliceFacts
begin

text \<open>
  The properties of the telemetry: what may be stored, that exports and imports may be repeated, and how a session's figures are divided among
  its branches.
\<close>

section \<open>What is stored\<close>

definition point_key :: "(attrs \<Rightarrow> string) \<Rightarrow> point_row \<Rightarrow> string \<times> string option \<times> int \<times> string \<times> string" where
  "point_key d p = (mp_metric p, mp_session_id p, mp_time p, mp_source p, d (mp_attrs p))"

definition allowed_point :: "point_row \<Rightarrow> bool" where
  "allowed_point p \<longleftrightarrow> plain_attrs (mp_attrs p) \<and> mp_metric p \<noteq> [] \<and> mp_metric p \<notin> set METRIC_DENYLIST"

definition with_session :: "point_row list \<Rightarrow> point_row list" where
  "with_session t = filter (\<lambda>p. mp_session_id p \<noteq> None) t"

definition telemetry_ok :: "(attrs \<Rightarrow> string) \<Rightarrow> telemetry_db \<Rightarrow> bool" where
  "telemetry_ok d db \<longleftrightarrow>
     (\<forall>p \<in> set (td_points db). allowed_point p) \<and>
     distinct (map (point_key d) (with_session (td_points db))) \<and>
     distinct (map session_branch_key (td_branches db)) \<and>
     (\<forall>r \<in> set (td_branches db). br_branch r \<noteq> [] \<and> br_branch r \<noteq> ''HEAD'') \<and>
     distinct (map link_key (td_links db))"

definition no_telemetry :: telemetry_db where
  "no_telemetry = \<lparr>td_points = [], td_branches = [], td_links = []\<rparr>"

lemma same_point_key: "same_point d p q \<longleftrightarrow> mp_session_id p \<noteq> None \<and> point_key d p = point_key d q"
  by (auto simp: same_point_def point_key_def)

lemma insert_point_distinct:
  "distinct (map (point_key d) (with_session t)) \<Longrightarrow> distinct (map (point_key d) (with_session (insert_point d p t)))"
  by (auto simp: with_session_def insert_point_def sql_exists_iff same_point_key)

lemma insert_points_distinct:
  "distinct (map (point_key d) (with_session t)) \<Longrightarrow> distinct (map (point_key d) (with_session (fold (insert_point d) ps t)))"
  by (induction ps arbitrary: t) (simp_all add: insert_point_distinct)

lemma insert_points_all:
  assumes "\<forall>p \<in> set t. P p" "\<forall>p \<in> set ps. P p" shows "\<forall>p \<in> set (fold (insert_point d) ps t). P p"
proof -
  obtain new where "fold (insert_point d) ps t = t @ new" "set new \<subseteq> set ps" using insert_points_grow by blast
  then show ?thesis using assms by auto
qed

lemma point_of_allowed:
  assumes "row_allowed row" "point_row_of ctx row = Inr p"
  shows "allowed_point p"
  using assms by (auto simp: allowed_point_def row_allowed_def point_row_of_def text_column_def jsonb_column_def split: if_splits)

lemma transcript_row_allowed:
  "transcript_row ctx p = Inr r \<Longrightarrow> allowed_point r"
  by (auto simp: allowed_point_def transcript_row_def plain_attrs_def transcript_attrs_def ATTR_ALLOWLIST_def METRIC_DENYLIST_def split: if_splits)

text \<open>A span is of a branch that has a name, or of none.\<close>

definition spans_named :: "backfill_state \<Rightarrow> bool" where
  "spans_named st \<longleftrightarrow> (\<forall>(k, s) \<in> set (bx_spans st). sp_branch s \<noteq> Some [] \<and> sp_branch s \<noteq> Some ''HEAD'')"

lemma map_set_all: "(\<forall>(k, v) \<in> set m. P v) \<Longrightarrow> P w \<Longrightarrow> \<forall>(k, v) \<in> set (map_set k' w m). P v"
  by (induction k' w m rule: map_set.induct) (auto split: if_splits)

lemma add_span_named:
  assumes "spans_named st" "b \<noteq> Some []" "b \<noteq> Some ''HEAD''" shows "spans_named (add_span s r b at' st)"
proof -
  define key where "key = nul_key [s, r, case b of None \<Rightarrow> [] | Some x \<Rightarrow> x]"
  obtain v where v: "add_span s r b at' st = st\<lparr>bx_spans := map_set key v (bx_spans st)\<rparr>"
      "sp_branch v = (case map_of (bx_spans st) key of None \<Rightarrow> b | Some w \<Rightarrow> sp_branch w)"
    by (simp add: add_span_def Let_def key_def split: option.split)
  have "sp_branch w \<noteq> Some [] \<and> sp_branch w \<noteq> Some ''HEAD''" if "map_of (bx_spans st) key = Some w" for w
    using assms(1) map_of_SomeD [OF that] by (force simp: spans_named_def)
  then have "sp_branch v \<noteq> Some [] \<and> sp_branch v \<noteq> Some ''HEAD''" using assms(2,3) by (simp add: v(2) split: option.split)
  with assms(1) show ?thesis unfolding v(1) spans_named_def by (simp add: map_set_all)
qed

lemma span_branch_named: "span_branch r \<noteq> Some []" "span_branch r \<noteq> Some ''HEAD''"
  by (auto simp: span_branch_def truthy_def)

lemma spans_named_other [simp]:
  "spans_named (st\<lparr>bx_points := ps\<rparr>) = spans_named st" "spans_named (st\<lparr>bx_links := ls\<rparr>) = spans_named st"
  "spans_named (st\<lparr>bx_sessions := ss\<rparr>) = spans_named st" "spans_named (st\<lparr>bx_slugs := cs\<rparr>) = spans_named st"
  "spans_named (st\<lparr>bx_unresolved := us\<rparr>) = spans_named st"
  by (simp_all add: spans_named_def)

lemma place_record_named: "spans_named st \<Longrightarrow> spans_named (place_record f git_remote r s at' st)"
  by (simp add: place_record_def add_span_named span_branch_named split: prod.split option.split)

lemma read_record_named: "spans_named st \<Longrightarrow> spans_named (read_record f git_remote r st)"
  by (simp add: read_record_def Let_def add_link_def place_record_named)

lemma read_transcripts_named: "spans_named (read_transcripts f git_remote parse files)"
proof -
  have lines: "spans_named st \<Longrightarrow> spans_named (fold (read_line f git_remote parse) ls st)" for ls st
    by (induction ls arbitrary: st) (auto simp: read_line_def read_record_named split: option.split)
  have "spans_named st \<Longrightarrow> spans_named (fold (read_transcript f git_remote parse) files st)" for st
    by (induction files arbitrary: st) (auto simp: read_transcript_def lines split: option.split fs_node.split)
  moreover have "spans_named new_backfill" by (simp add: new_backfill_def spans_named_def)
  ultimately show ?thesis by (simp add: read_transcripts_def)
qed

lemma span_row_named:
  "span_row ctx entry = Inr r \<Longrightarrow> sp_branch (snd entry) = Some (br_branch r)"
  by (auto simp: span_row_def Let_def split: if_splits option.splits)

lemma upsert_branches:
  assumes "\<forall>q \<in> set t. P (br_branch q)" "P (br_branch r)" "\<And>a. br_branch (upd a r) = br_branch a"
  shows "\<forall>q \<in> set (upsert_row session_branch_key upd r t). P (br_branch q)"
  using assms by (auto simp: upsert_row_def set_sql_update)

lemma recordBranch_cases:
  obtains "snd (recordBranch ctx r db) = db"
  | row where "bp_branch r = Some (br_branch row)"
      "snd (recordBranch ctx r db) = db\<lparr>td_branches := upsert_row session_branch_key branch_conflict row (td_branches db)\<rparr>"
proof -
  have "snd (recordBranch ctx r db) = db \<or> (\<exists>branch at'. bp_branch r = Some branch \<and>
      snd (recordBranch ctx r db) =
        db\<lparr>td_branches := upsert_row session_branch_key branch_conflict (report_row ctx r branch at') (td_branches db)\<rparr>)"
    by (simp add: recordBranch_def Let_def split: option.split sum.split) blast
  moreover have "br_branch (report_row ctx r branch at') = branch" for branch at' by (simp add: report_row_def)
  ultimately show thesis using that by metis
qed

lemma upsert_ok:
  assumes "telemetry_ok d db" "distinct (map session_branch_key (upsert_row session_branch_key upd row (td_branches db)))"
    "br_branch row \<noteq> []" "br_branch row \<noteq> ''HEAD''" "\<And>a. br_branch (upd a row) = br_branch a"
  shows "telemetry_ok d (db\<lparr>td_branches := upsert_row session_branch_key upd row (td_branches db)\<rparr>)"
proof -
  have "\<forall>q \<in> set (upsert_row session_branch_key upd row (td_branches db)). br_branch q \<noteq> [] \<and> br_branch q \<noteq> ''HEAD''"
    by (rule upsert_branches) (use assms(1,3-5) in \<open>simp_all add: telemetry_ok_def\<close>)
  then show ?thesis using assms(1,2) by (simp add: telemetry_ok_def)
qed

lemma recordBranch_ok:
  assumes "telemetry_ok d db" "bp_branch r \<noteq> Some ''HEAD''" "bp_branch r \<noteq> Some []"
  shows "telemetry_ok d (snd (recordBranch ctx r db))"
proof (cases rule: recordBranch_cases [of ctx r db])
  case (2 row)
  have "distinct (map session_branch_key (td_branches db))" using assms(1) by (simp add: telemetry_ok_def)
  then show ?thesis unfolding 2(2)
    by (intro upsert_ok branches.upsert_distinct) (use assms 2(1) in \<open>auto simp: branch_conflict_def\<close>)
qed (use assms in simp)

lemma import_ok:
  assumes "st \<in> set (import_statements ctx bx)" "st db = Inr db'" "telemetry_ok (tx_digest ctx) db" "spans_named bx"
  shows "telemetry_ok (tx_digest ctx) db'"
proof -
  consider batch where "st = import_points ctx batch" | entry where "st = import_span ctx entry" "entry \<in> set (bx_spans bx)"
    | l where "st = import_link ctx l"
    using assms(1) by (auto simp: import_statements_def)
  then show ?thesis
  proof cases
    case 1
    then obtain rows where rows: "all_or_throw (transcript_row ctx) batch = Inr rows"
        "db' = db\<lparr>td_points := fold (insert_point (tx_digest ctx)) rows (td_points db)\<rparr>"
      using assms(2) by (auto simp: import_points_def)
    have "\<forall>p \<in> set rows. allowed_point p" using all_or_throw_all [OF rows(1)] transcript_row_allowed by blast
    then have "\<forall>p \<in> set (fold (insert_point (tx_digest ctx)) rows (td_points db)). allowed_point p"
      by (intro insert_points_all) (use assms(3) in \<open>auto simp: telemetry_ok_def\<close>)
    then show ?thesis using assms(3) by (simp add: rows(2) telemetry_ok_def insert_points_distinct)
  next
    case 2
    then obtain row where row: "span_row ctx entry = Inr row"
        "db' = db\<lparr>td_branches := upsert_row session_branch_key span_conflict row (td_branches db)\<rparr>"
      using assms(2) by (auto simp: import_span_def)
    have "br_branch row \<noteq> []" "br_branch row \<noteq> ''HEAD''"
      using assms(4) 2(2) span_row_named [OF row(1)] by (force simp: spans_named_def)+
    moreover have "distinct (map session_branch_key (td_branches db))" using assms(3) by (simp add: telemetry_ok_def)
    ultimately show ?thesis unfolding row(2)
      by (intro upsert_ok spans.upsert_distinct assms(3)) (simp_all add: span_conflict_def)
  next
    case 3
    then show ?thesis using assms(2,3) fold_insert_new_distinct [of link_key "td_links db" "[x]" for x]
      by (auto simp: import_link_def telemetry_ok_def)
  qed
qed

lemma intakes_ok: "telemetry_ok d (fold (intake_step d) es no_telemetry)"
proof -
  have step: "telemetry_ok d (intake_step d e db)" if ok: "telemetry_ok d db" for e db
  proof (rule intake_step_inv [where P = "telemetry_ok d", OF ok])
    fix ctx :: telemetry_ctx and ps and a :: telemetry_db
    assume "telemetry_ok d a" and p: "\<And>p. p \<in> set ps \<Longrightarrow> \<exists>row. row_allowed row \<and> point_row_of ctx row = Inr p"
    moreover have "\<forall>p \<in> set (fold (insert_point d) ps (td_points a)). allowed_point p"
      by (rule insert_points_all) (use calculation p point_of_allowed in \<open>auto simp: telemetry_ok_def\<close>)
    ultimately show "telemetry_ok d (a\<lparr>td_points := fold (insert_point d) ps (td_points a)\<rparr>)"
      by (simp add: telemetry_ok_def insert_points_distinct)
  next
    fix ctx f git_remote parse files st and a b :: telemetry_db
    assume "tx_digest ctx = d" "st \<in> set (import_statements ctx (read_transcripts f git_remote parse files))" "st a = Inr b" "telemetry_ok d a"
    then show "telemetry_ok d b" using import_ok [of st ctx _ a b] read_transcripts_named by simp
  qed (rule recordBranch_ok)
  have "telemetry_ok d db \<Longrightarrow> telemetry_ok d (fold (intake_step d) es db)" for db
    by (induction es arbitrary: db) (auto intro: step)
  moreover have "telemetry_ok d no_telemetry" by (simp add: no_telemetry_def telemetry_ok_def with_session_def)
  ultimately show ?thesis by blast
qed

text \<open>
  C37: Only what is allowed is stored. Whatever exporters, hooks and imports send, in any order, every stored datapoint carries
  attributes of the allowlist only and no metric of the denylist. Of the datapoints that belong to a session there is one of each
  session, metric, instant, source and attributes; those of no session are not compared, as the dedup index has none of them, and may be
  stored again. A session has one row for each branch, whose name is never empty nor \<open>HEAD\<close>, and one for each pull request it names.
\<close>

theorem stored_telemetry_is_allowed: "telemetry_ok d (fold (intake_step d) es no_telemetry)"
  by (rule intakes_ok)

section \<open>Repetitions\<close>

lemma post_metrics_refused: "tx_refused ctx \<noteq> None \<Longrightarrow> snd (post_metrics ctx ct raw db) = db"
  by (auto simp: post_metrics_db insertMetrics_def split: sum.split)

lemma post_metrics_answer:
  "fst (post_metrics (ctx\<lparr>tx_now := n, tx_refused := r\<rparr>) ct raw db) =
     (case r of
        None \<Rightarrow> fst (post_metrics (ctx\<lparr>tx_refused := None\<rparr>) ct raw db0)
      | Some e \<Rightarrow>
          (case flattenMetrics (tx_num_text ctx) raw of
             Inr f \<Rightarrow> if isJson ct \<and> fl_rows f \<noteq> [] then error_reply 503 e
               else fst (post_metrics (ctx\<lparr>tx_refused := None\<rparr>) ct raw db0)
           | Inl x \<Rightarrow> fst (post_metrics (ctx\<lparr>tx_refused := None\<rparr>) ct raw db0)))"
proof -
  have rows: "all_or_throw (point_row_of (ctx\<lparr>tx_now := n, tx_refused := None\<rparr>)) rows =
      (case all_or_throw (point_row_of (ctx\<lparr>tx_refused := None\<rparr>)) rows of Inl e \<Rightarrow> Inl e | Inr ps \<Rightarrow> Inr (map (received n) ps))" for rows
  proof -
    have swap: "ctx\<lparr>tx_now := n, tx_refused := None\<rparr> = ctx\<lparr>tx_refused := None, tx_now := n\<rparr>"
      by (intro telemetry_ctx.equality) simp_all
    show ?thesis unfolding swap by (rule rows_now)
  qed
  show ?thesis
    by (cases r) (simp_all add: post_metrics_def insertMetrics_def rows Let_def split: sum.split prod.split)
qed

text \<open>
  C38: An export may be sent again. One that found the database refusing left nothing behind, so that sending it again is sending it
  for the first time. One that did not may be sent again at any later time, whatever was taken in meanwhile: no figure
  changes, that is, what the database is asked for, for any organization, is what it was, and so is the health; and the answer is the
  first one again, unless the database refuses this time, when it is 503 and nothing is written.
\<close>

theorem retried_export_changes_no_figure:
  assumes "post_metrics ctx ct raw db0 = (answer, db1)" "db = fold (intake_step d) es db1"
    "post_metrics (ctx\<lparr>tx_now := n, tx_refused := r\<rparr>) ct raw db = (again, db2)"
  shows "(tx_refused ctx \<noteq> None \<longrightarrow> db1 = db0) \<and>
    (tx_refused ctx = None \<longrightarrow>
       fetchRollups ready refused org db2 db2 db2 db2 db2 = fetchRollups ready refused org db db db db db \<and>
       health ready refused db2 = health ready refused db \<and>
       (case r of None \<Rightarrow> again = answer | Some e \<Rightarrow> db2 = db \<and> (again = answer \<or> again = error_reply 503 e)))"
proof (intro conjI impI)
  show "db1 = db0" if "tx_refused ctx \<noteq> None"
    using post_metrics_refused [OF that, of ct raw db0] assms(1) by simp
next
  assume up: "tx_refused ctx = None"
  let ?ctx = "ctx\<lparr>tx_now := n\<rparr>"
  have ctx: "ctx\<lparr>tx_refused := None\<rparr> = ctx" using up by (intro telemetry_ctx.equality) simp_all
  have now: "ctx\<lparr>tx_now := n, tx_refused := None\<rparr> = ?ctx" using up by (intro telemetry_ctx.equality) simp_all
  have d1: "db1 = snd (post_metrics ctx ct raw db0)" and d2: "db2 = snd (post_metrics (ctx\<lparr>tx_now := n, tx_refused := r\<rparr>) ct raw db)"
    by (simp_all add: assms(1,3))
  have a: "fst (post_metrics ctx ct raw db0) = answer" "fst (post_metrics (ctx\<lparr>tx_now := n, tx_refused := r\<rparr>) ct raw db) = again"
    by (simp_all add: assms(1,3))
  have down: "db2 = db" if "r = Some e" for e
    unfolding d2 by (rule post_metrics_refused) (simp add: that)
  show "case r of None \<Rightarrow> again = answer | Some e \<Rightarrow> db2 = db \<and> (again = answer \<or> again = error_reply 503 e)"
    using a down post_metrics_answer [where ctx = ctx and n = n and r = r and ct = ct and raw = raw and db = db and ?db0.0 = db0]
    by (auto simp: ctx split: option.splits sum.splits if_splits)
  obtain new where new: "td_points db2 = td_points db @ new" "list_all (\<lambda>p. mp_session_id p = None) new" "td_points db = [] \<longrightarrow> new = []"
  proof (cases "r = None \<and> isJson ct \<and> (\<exists>f. flattenMetrics (tx_num_text ctx) raw = Inr f)")
    case True
    then obtain f where f: "flattenMetrics (tx_num_text ctx) raw = Inr f" by blast
    have "set (td_points (snd (insertMetrics ctx (fl_rows f) db0))) \<subseteq> set (td_points db)"
      using intakes_grow [of db1 d es] True f by (simp add: assms(2) d1 post_metrics_db telemetry_grows_def)
    have "db2 = snd (insertMetrics ?ctx (fl_rows f) db)" using True f now by (simp add: d2 post_metrics_db)
    with retried_points [OF \<open>set _ \<subseteq> _\<close>, of n] that show ?thesis by blast
  next
    case False
    then have "db2 = db" using down by (cases r) (auto simp: d2 post_metrics_db split: sum.split)
    then show ?thesis using that [of "[]"] by simp
  qed
  have same: "td_branches db2 = td_branches db" "td_links db2 = td_links db"
    by (simp_all add: d2 post_metrics_db insertMetrics_else split: sum.split)
  show "fetchRollups ready refused org db2 db2 db2 db2 db2 = fetchRollups ready refused org db db db db db"
    by (rule rollups_ignore [OF new(1,2) same])
  show "health ready refused db2 = health ready refused db"
    using health_ignores [of db2 db] new(1,3) same by auto
qed

section \<open>Imports\<close>

definition covered :: "branch_row list \<Rightarrow> branch_row \<Rightarrow> bool" where
  "covered t row \<longleftrightarrow> session_branch_key row \<in> session_branch_key ` set t \<and>
     (\<forall>q \<in> set t. session_branch_key q = session_branch_key row \<longrightarrow> widened row q)"

lemma span_conflict_covers:
  "session_branch_key q = session_branch_key row \<Longrightarrow> widened row (span_conflict q row)"
  by (auto simp: widened_def span_conflict_def session_branch_key_def)

lemma covered_after: "covered (upsert_row session_branch_key span_conflict row t) row"
proof (cases "session_branch_key row \<in> session_branch_key ` set t")
  case True
  have "widened row p"
    if p: "p \<in> set (upsert_row session_branch_key span_conflict row t)" "session_branch_key p = session_branch_key row" for p
  proof -
    obtain q where q: "q \<in> set t" "p = (if session_branch_key q = session_branch_key row then span_conflict q row else q)"
      using p(1) unfolding upsert_present [where key = session_branch_key, OF True] set_map by (rule imageE)
    have "session_branch_key q = session_branch_key row" using p(2) by (auto simp: q(2) split: if_splits)
    then show ?thesis by (simp add: q(2) span_conflict_covers)
  qed
  then show ?thesis unfolding covered_def spans.upsert_keys by blast
next
  case False
  then show ?thesis by (auto simp: covered_def upsert_row_def sql_exists_key intro: rev_image_eqI)
qed

lemma covered_widen:
  assumes "covered t row" "branches_widen t t'" shows "covered t' row"
  unfolding covered_def
proof (intro conjI ballI impI)
  show "session_branch_key row \<in> session_branch_key ` set t'" using assms by (auto simp: covered_def branches_widen_def)
  fix q assume q: "q \<in> set t'" "session_branch_key q = session_branch_key row"
  then obtain p where p: "p \<in> set t" "widened p q" using assms by (auto simp: covered_def branches_widen_def)
  then have "widened row p" using assms(1) q(2) by (auto simp: covered_def widened_def)
  then show "widened row q" using p(2) widened_trans by blast
qed

lemma covered_upsert: "covered t row \<Longrightarrow> upsert_row session_branch_key span_conflict row t = t"
  by (auto simp: covered_def upsert_row_def sql_exists_key sql_update_def span_conflict_def widened_def min_def max_def intro!: map_idI)

lemma transcript_row_now:
  "transcript_row (ctx\<lparr>tx_now := n\<rparr>) p = (case transcript_row ctx p of Inl e \<Rightarrow> Inl e | Inr r \<Rightarrow> Inr (received n r))"
  by (simp add: transcript_row_def columns_now and_then_def received_def split: sum.split)

lemma transcript_rows_now:
  "all_or_throw (transcript_row (ctx\<lparr>tx_now := n\<rparr>)) ps =
     (case all_or_throw (transcript_row ctx) ps of Inl e \<Rightarrow> Inl e | Inr rs \<Rightarrow> Inr (map (received n) rs))"
  by (induction ps) (auto simp: transcript_row_now split: sum.splits)

lemma span_row_now: "span_row (ctx\<lparr>tx_now := n\<rparr>) = span_row ctx"
  by (intro ext) (simp add: span_row_def columns_now Let_def and_then_def split: sum.split option.split)

lemma insert_all_present: "(\<And>p. p \<in> set ps \<Longrightarrow> sql_exists (same_point d p) t) \<Longrightarrow> fold (insert_point d) ps t = t"
  by (induction ps) (auto simp: insert_point_def)

text \<open>What a statement of an import that came through established, and that it then has nothing left to do.\<close>

fun imported :: "telemetry_ctx \<Rightarrow> transcript_point list + (string \<times> BranchSpan) + transcript_link \<Rightarrow> telemetry_db \<Rightarrow> bool" where
  "imported ctx (Inl batch) db \<longleftrightarrow>
     (\<exists>rows. all_or_throw (transcript_row ctx) batch = Inr rows \<and> (\<forall>p \<in> set rows. sql_exists (same_point (tx_digest ctx) p) (td_points db)))"
| "imported ctx (Inr (Inl entry)) db \<longleftrightarrow> (\<exists>row. span_row ctx entry = Inr row \<and> covered (td_branches db) row)"
| "imported ctx (Inr (Inr l)) db \<longleftrightarrow>
     (\<exists>row. imported_link ctx l = Inr row \<and> link_key row \<in> link_key ` set (td_links db))"

fun import_of :: "telemetry_ctx \<Rightarrow> transcript_point list + (string \<times> BranchSpan) + transcript_link \<Rightarrow> telemetry_db statement" where
  "import_of ctx (Inl batch) = import_points ctx batch"
| "import_of ctx (Inr (Inl entry)) = import_span ctx entry"
| "import_of ctx (Inr (Inr l)) = import_link ctx l"

lemma imports_of:
  "\<exists>xs. \<forall>ctx. import_statements ctx st = map (import_of ctx) xs"
  by (intro exI [of _ "map Inl (chunks CHUNK (bx_points st)) @ map (Inr \<circ> Inl) (bx_spans st) @ map (Inr \<circ> Inr \<circ> snd) (bx_links st)"])
    (simp add: import_statements_def)

lemma import_establishes: "import_of ctx x a = Inr b \<Longrightarrow> imported ctx x b"
proof (induction ctx x a rule: imported.induct)
  case (1 ctx batch db)
  then obtain rows where rows: "all_or_throw (transcript_row ctx) batch = Inr rows"
      "b = db\<lparr>td_points := fold (insert_point (tx_digest ctx)) rows (td_points db)\<rparr>"
    by (auto simp: import_points_def)
  have "mp_session_id p \<noteq> None" if "p \<in> set rows" for p
    using all_or_throw_all [OF rows(1) that] by (auto simp: transcript_row_def split: if_splits)
  then show ?case using rows inserted_present by auto
next
  case (2 ctx entry db)
  then show ?case using covered_after by (auto simp: import_span_def)
next
  case (3 ctx l db)
  then show ?case by (auto simp: import_link_def insert_new_keys)
qed

lemma imported_grows: "imported ctx x a \<Longrightarrow> telemetry_grows a b \<Longrightarrow> imported ctx x b"
proof (induction ctx x a rule: imported.induct)
  case (1 ctx batch db)
  then obtain rows where rows: "all_or_throw (transcript_row ctx) batch = Inr rows"
      "\<And>p. p \<in> set rows \<Longrightarrow> sql_exists (same_point (tx_digest ctx) p) (td_points db)" by auto
  have "sql_exists (same_point (tx_digest ctx) p) (td_points b)" if "p \<in> set rows" for p
    using rows(2) [OF that] 1(2) by (auto simp: sql_exists_iff telemetry_grows_def)
  then show ?case using rows(1) by simp
next
  case (2 ctx entry db)
  then show ?case using covered_widen by (auto simp: telemetry_grows_def)
next
  case (3 ctx l db)
  then show ?case unfolding imported.simps telemetry_grows_def by (meson subsetD)
qed

lemma imported_idle: "imported ctx x db \<Longrightarrow> import_of (ctx\<lparr>tx_now := n\<rparr>) x db = Inr db"
proof (induction ctx x db rule: imported.induct)
  case (1 ctx batch db)
  then obtain rows where rows: "all_or_throw (transcript_row ctx) batch = Inr rows"
      "\<forall>p \<in> set rows. sql_exists (same_point (tx_digest ctx) p) (td_points db)" by auto
  have "fold (insert_point (tx_digest ctx)) (map (received n) rows) (td_points db) = td_points db"
    by (rule insert_all_present) (use rows(2) same_point_received in auto)
  then show ?case by (simp add: import_points_def transcript_rows_now rows(1))
next
  case (2 ctx entry db)
  then show ?case by (auto simp: import_span_def span_row_now covered_upsert)
next
  case (3 ctx l db)
  have "imported_link (ctx\<lparr>tx_now := n\<rparr>) l = imported_link ctx l"
    by (simp add: imported_link_def columns_now and_then_def split: sum.split)
  then show ?case using 3 by (auto simp: import_link_def insert_new_def sql_exists_key)
qed

lemma run_idle: "(\<And>st. st \<in> set sts \<Longrightarrow> st db = Inr db) \<Longrightarrow> snd (run_statements flt sts db) = db"
  by (rule run_statements_induct [where P = "\<lambda>a. a = db"]) fastforce+

text \<open>
  C39: An import may be run again. When an import of transcripts came through, a second one, at any later time and whatever was
  taken in meanwhile, changes no row, even where the database stops answering in its midst.
\<close>

theorem repeated_import_changes_nothing:
  assumes "backfillTranscripts ctx flt f unreadable git_remote parse rootDir db0 = (Inr summary, db1)"
  shows "let db = fold (intake_step (tx_digest ctx)) es db1 in
    snd (backfillTranscripts (ctx\<lparr>tx_now := n\<rparr>) flt' f unreadable git_remote parse rootDir db) = db"
proof -
  define db where "db = fold (intake_step (tx_digest ctx)) es db1"
  obtain files where files: "transcriptFiles unreadable rootDir f = Inr files"
    using assms(1) by (auto simp: backfillTranscripts_def split: sum.splits)
  let ?st = "read_transcripts f git_remote parse files"
  have r: "run_statements flt (import_statements ctx ?st) db0 = (Inr (), db1)"
    using assms(1) files by (auto simp: backfillTranscripts_def Let_def split: sum.splits prod.splits)
  obtain xs where xs: "\<And>ctx. import_statements ctx ?st = map (import_of ctx) xs" using imports_of by blast
  have "import_of (ctx\<lparr>tx_now := n\<rparr>) x db = Inr db" if "x \<in> set xs" for x
  proof (rule imported_idle)
    have "imported ctx x db1"
      proof (rule run_statements_all [OF r])
      show "import_of ctx x \<in> set (import_statements ctx ?st)" using that by (simp add: xs)
      show "imported ctx x b" if "import_of ctx x a = Inr b" for a b by (rule import_establishes [OF that])
      show "imported ctx x b" if "st \<in> set (import_statements ctx ?st)" "st a = Inr b" "imported ctx x a" for st a b
        by (rule imported_grows [OF that(3) import_grows [OF that(1,2)]])
    qed
    then show "imported ctx x db" unfolding db_def by (rule imported_grows) (rule intakes_grow)
  qed
  then show ?thesis
    by (auto simp: backfill_db files xs db_def [symmetric] intro!: run_idle)
qed

text \<open>The example is a transcript of one line.\<close>

definition example_ctx :: telemetry_ctx where
  "example_ctx = \<lparr>tx_org = ''org'', tx_now = 0, tx_refused = None, tx_digest = (\<lambda>a. concat (map fst a)), tx_other_date = (\<lambda>s. None),
     tx_num_text = (\<lambda>q. []), tx_send_json = (\<lambda>j. Inl []), tx_send_member = (\<lambda>k. Inl [])\<rparr>"

definition example_fs :: fs where
  "example_fs = \<lparr>fs_nodes = [(''/p'', FsDir), (''/p/x'', FsDir), (''/p/x/s.jsonl'', FsFile ''a''), (''/r'', FsDir), (''/r/.git'', FsDir)],
     fs_refuses = (\<lambda>p. False)\<rparr>"

definition example_record :: "string \<Rightarrow> Record_ option" where
  "example_record line = Some \<lparr>rc_type = Some ''assistant'', rc_sessionId = Some ''s1'', rc_timestamp = Some ''2023-11-14T22:13:20.000Z'',
     rc_cwd = Some ''/r'', rc_gitBranch = Some ''main'', rc_prNumber = None, rc_prRepository = None, rc_usage = Some [(''output_tokens'', 7)]\<rparr>"

abbreviation example_import :: "telemetry_ctx \<Rightarrow> (nat \<times> string) option \<Rightarrow> telemetry_db \<Rightarrow> (string + BackfillSummary) \<times> telemetry_db" where
  "example_import ctx flt db \<equiv>
     backfillTranscripts ctx flt example_fs (\<lambda>d. False) (\<lambda>d. Some ''https://github.com/o/r.git'') example_record ''/p'' db"

lemma example_imported:
  "fst (example_import example_ctx None no_telemetry) =
     Inr \<lparr>bs_files = 1, bs_sessions = 1, bs_datapoints = 1, bs_branchSpans = 1, bs_prLinks = 0, bs_unresolvedCwds = []\<rparr>"
  by code_simp

lemma repeated_import_changes_nothing_witness:
  "\<exists>db. example_import example_ctx None no_telemetry =
      (Inr \<lparr>bs_files = 1, bs_sessions = 1, bs_datapoints = 1, bs_branchSpans = 1, bs_prLinks = 0, bs_unresolvedCwds = []\<rparr>, db) \<and>
    snd (example_import (example_ctx\<lparr>tx_now := 5\<rparr>) (Some (1, ''down'')) db) = db"
proof -
  obtain db where db: "example_import example_ctx None no_telemetry =
      (Inr \<lparr>bs_files = 1, bs_sessions = 1, bs_datapoints = 1, bs_branchSpans = 1, bs_prLinks = 0, bs_unresolvedCwds = []\<rparr>, db)"
    using example_imported by (metis prod.collapse)
  from repeated_import_changes_nothing [OF db, of "[]" 5 "Some (1, ''down'')"] db show ?thesis by (auto simp: Let_def)
qed

text \<open>An export of one datapoint of a session, sent twice.\<close>

definition example_export :: json where
  "example_export =
     (let point = JObj [(''asInt'', JNum 7), (''timeUnixNano'', JNum 1000000),
        (''attributes'', JArr [JObj [(''key'', JStr ''session.id''), (''value'', JObj [(''stringValue'', JStr ''s1'')])]])];
      metric = JObj [(''name'', JStr ''m''), (''sum'', JObj [(''aggregationTemporality'', JNum 1), (''dataPoints'', JArr [point])])] in
      JObj [(''resourceMetrics'', JArr [JObj [(''scopeMetrics'', JArr [JObj [(''metrics'', JArr [metric])]])]])])"

lemma example_taken:
  "fst (post_metrics example_ctx (Some ''application/json'') (Some example_export) no_telemetry) = partial_success"
  "length (td_points (snd (post_metrics example_ctx (Some ''application/json'') (Some example_export) no_telemetry))) = 1"
  by code_simp+

lemma retried_export_changes_no_figure_witness:
  "\<exists>db again db2. post_metrics example_ctx (Some ''application/json'') (Some example_export) no_telemetry = (partial_success, db) \<and>
     length (td_points db) = 1 \<and>
     post_metrics (example_ctx\<lparr>tx_now := 9, tx_refused := Some ''down''\<rparr>) (Some ''application/json'') (Some example_export) db = (again, db2) \<and>
     fetchRollups None None ''org'' db2 db2 db2 db2 db2 = fetchRollups None None ''org'' db db db db db \<and>
     (again = partial_success \<or> again = error_reply 503 ''down'')"
proof -
  obtain db where db: "post_metrics example_ctx (Some ''application/json'') (Some example_export) no_telemetry = (partial_success, db)"
      "length (td_points db) = 1"
    using example_taken by (metis prod.collapse)
  obtain again db2 where r: "post_metrics (example_ctx\<lparr>tx_now := 9, tx_refused := Some ''down''\<rparr>) (Some ''application/json'')
      (Some example_export) db = (again, db2)" by fastforce
  have "db = fold (intake_step (tx_digest example_ctx)) [] db" "tx_refused example_ctx = None" by (simp_all add: example_ctx_def)
  from retried_export_changes_no_figure [OF db(1) this(1) r, where org = "''org''" and ready = None and refused = None] this(2) db r
  show ?thesis by fastforce
qed

end
