(* ===== verification/SplitTheorems.thy ===== *)
theory SplitTheorems
  imports TelemetryTheorems Metrics
begin

text \<open>
  How the figures of a session are divided among the branches it worked on: the views, what the client makes of them, and where
  they count twice.
\<close>

section \<open>The figures of a session\<close>

text \<open>The figures that are divided: the field, where a split has it and where the session has it.\<close>

definition figures :: "(CanonicalField \<times> (SessionSpanSplit \<Rightarrow> rat option) \<times> (SessionRollup \<Rightarrow> rat option)) list" where
  "figures =
     [(FTokensInput, \<lambda>l. tk_input (sl_tokens l), \<lambda>r. tk_input (sr_tokens r)),
      (FTokensOutput, \<lambda>l. tk_output (sl_tokens l), \<lambda>r. tk_output (sr_tokens r)),
      (FTokensCacheRead, \<lambda>l. tk_cacheRead (sl_tokens l), \<lambda>r. tk_cacheRead (sr_tokens r)),
      (FTokensCacheCreation, \<lambda>l. tk_cacheCreation (sl_tokens l), \<lambda>r. tk_cacheCreation (sr_tokens r)),
      (FLinesAdded, sl_linesAdded, sr_linesAdded), (FLinesRemoved, sl_linesRemoved, sr_linesRemoved),
      (FEditsAccept, sl_editsAccepted, sr_editsAccepted), (FEditsReject, sl_editsRejected, sr_editsRejected),
      (FActiveSeconds, sl_activeSeconds, sr_activeSeconds)]"

lemma figure_of_split: "(f, g, h) \<in> set figures \<Longrightarrow> g (split_with slice share (pick vs)) = get_field vs f"
  by (auto simp: figures_def split_with_def pick_def)

lemma figure_of_rollup:
  "(f, g, h) \<in> set figures \<Longrightarrow> h (rollup_of byField s) = get_field (session_values byField (sm_session_id s)) f"
  by (auto simp: figures_def rollup_of_def pick_def Let_def)

text \<open>
  A session of one agent whose datapoints are increments, and whose branches, in one organization, differ in their names.
\<close>

definition plain_session :: "string \<Rightarrow> string \<Rightarrow> string \<Rightarrow> telemetry_db \<Rightarrow> bool" where
  "plain_session org agent s db \<longleftrightarrow>
     (\<forall>p \<in> set (td_points db). mp_session_id p = Some s \<longrightarrow> mp_agent p = agent \<and> increment p) \<and>
     (\<forall>r \<in> set (td_branches db). br_session_id r = s \<longrightarrow> br_org r = org \<and> br_agent r = agent) \<and>
     distinct (map br_branch (filter (\<lambda>r. br_session_id r = s) (td_branches db)))"

definition field_points :: "telemetry_db \<Rightarrow> string \<Rightarrow> CanonicalField \<Rightarrow> point_row list" where
  "field_points db s f =
     filter (\<lambda>p. mp_session_id p = Some s \<and> mp_field p = Some (field_str f)) (metric_point_used (td_points db))"

definition sum_of_points :: "point_row list \<Rightarrow> rat option" where
  "sum_of_points ps = (if ps = [] then None else Some (\<Sum>p \<leftarrow> ps. amount p))"

lemma used_mem: "p \<in> set (metric_point_used t) \<Longrightarrow> p \<in> set t \<and> mp_session_id p \<noteq> None"
  by (auto simp: metric_point_used_def split: option.splits)

lemma field_points_increments:
  "plain_session org agent s db \<Longrightarrow> \<forall>p \<in> set (field_points db s f). increment p"
  by (auto simp: field_points_def plain_session_def dest: used_mem)

lemma filter_Nil_iff: "filter P xs = [] \<longleftrightarrow> (\<forall>x \<in> set xs. \<not> P x)"
  by (simp add: filter_empty_conv)

lemma session_figure:
  assumes "plain_session org agent s db"
  shows "get_field (session_values (group_rows fw_session_id (session_field_total (td_points db))) s) f = sum_of_points (field_points db s f)"
proof -
  let ?used = "filter (\<lambda>p. mp_field p \<noteq> None) (metric_point_used (td_points db))"
  let ?ks = "map field_key ?used" and ?k = "(agent, Some s, Some (field_str f))"
  let ?val = "\<lambda>k. field_total (filter (\<lambda>p. field_key p = k) ?used)"
  have one: "the (fst (snd k)) = s \<and> the (snd (snd k)) = field_str f \<longleftrightarrow> k = ?k" if k: "k \<in> set ?ks" for k
  proof -
    obtain p where p: "p \<in> set (metric_point_used (td_points db))" "mp_field p \<noteq> None" "k = field_key p" using k by auto
    then have "mp_session_id p = Some s \<longrightarrow> mp_agent p = agent" using assms used_mem by (auto simp: plain_session_def)
    then show ?thesis using p used_mem [OF p(1)] by (auto simp: field_key_def)
  qed
  have rows: "session_values (group_rows fw_session_id (session_field_total (td_points db))) s =
      values_of (map (\<lambda>k. (the (snd (snd k)), ?val k)) (filter (\<lambda>k. the (fst (snd k)) = s) (first_seen ?ks)))"
    by (simp add: session_values_def rows_for_group session_field_total_def Let_def filter_map o_def)
  have same: "filter (\<lambda>p. field_key p = ?k) ?used = field_points db s f"
    using assms used_mem by (fastforce simp: field_points_def field_key_def plain_session_def intro!: filter_cong)
  have "?k \<in> set ?ks \<longleftrightarrow> field_points db s f \<noteq> []" unfolding same [symmetric] filter_Nil_iff by force
  moreover have "values_of (map (\<lambda>k. (the (snd (snd k)), ?val k)) (filter (\<lambda>k. the (fst (snd k)) = s) (first_seen ?ks))) (field_str f) =
      (if ?k \<in> set ?ks then Some (?val ?k) else None)"
    by (rule values_of_grouped) (rule one)
  moreover have "?val ?k = Fin (\<Sum>p \<leftarrow> field_points db s f. amount p)"
    unfolding same by (rule field_total_increments [OF field_points_increments [OF assms]])
  ultimately show ?thesis unfolding get_field_def rows by (simp only: sum_of_points_def split: if_split) (simp add: figure_of_def)
qed

section \<open>The figures of its splits\<close>

lemma concat_single:
  "distinct t \<Longrightarrow> r \<in> set t \<Longrightarrow> (\<And>q. q \<in> set t \<Longrightarrow> q \<noteq> r \<Longrightarrow> F q = []) \<Longrightarrow> concat (map F t) = F r"
proof (induction t)
  case (Cons x t)
  show ?case
  proof (cases "x = r")
    case True
    then have "concat (map F t) = []" using Cons.prems by auto
    then show ?thesis using True by simp
  qed (use Cons in auto)
qed simp

lemma filter_concat_map: "filter P (concat (map F t)) = concat (map (\<lambda>x. filter P (F x)) t)"
  by (induction t) auto

lemma branch_figure:
  assumes "plain_session org agent s db" "distinct (td_branches db)" "r \<in> set (td_branches db)" "br_session_id r = s"
  shows "get_field (values_of (map (\<lambda>x. (bf_field x, bf_value x)) (filter (\<lambda>x. bf_branch x = br_branch r)
      (rows_for (group_rows bf_session_id (branch_field_total org db)) s)))) f =
    sum_of_points (filter (in_slice (slice_of (td_branches db) r)) (field_points db s f))"
proof -
  let ?t = "td_branches db" and ?used = "metric_point_used (td_points db)"
  let ?joined = "filter (\<lambda>x. br_org (fst x) = org) (branch_points db)"
  let ?ks = "map branch_field_key ?joined" and ?k = "(org, agent, s, br_branch r, field_str f)"
  let ?val = "\<lambda>k. double_sum (map (mp_value \<circ> snd) (filter (\<lambda>x. branch_field_key x = k) ?joined))"
  let ?P = "\<lambda>k :: string \<times> string \<times> string \<times> string \<times> string. fst (snd (snd k)) = s \<and> fst (snd (snd (snd k))) = br_branch r"
  let ?U = "filter (in_slice (slice_of ?t r)) (field_points db s f)"
  have joined: "br_org sl = org \<and> in_slice sl p \<and> p \<in> set ?used \<and> sl \<in> slice_of ?t ` set ?t" if "(sl, p) \<in> set ?joined" for sl p
    using that by (auto simp: branch_points_def session_branch_slice_def)
  have org: "br_org q = org \<and> br_agent q = agent" if "q \<in> set ?t" "br_session_id q = s" for q
    using assms(1) that by (auto simp: plain_session_def)
  have one: "?P k \<and> snd (snd (snd (snd k))) = field_str f \<longleftrightarrow> k = ?k" if k: "k \<in> set ?ks" for k
  proof -
    obtain sl p where x: "(sl, p) \<in> set ?joined" "k = branch_field_key (sl, p)" using k by auto
    obtain q where q: "q \<in> set ?t" "sl = slice_of ?t q" using joined [OF x(1)] by auto
    have "br_session_id q = s \<longrightarrow> mp_agent p = agent" using org [OF q(1)] joined [OF x(1)] by (auto simp: q(2) in_slice_def)
    then show ?thesis using x(2) joined [OF x(1)] by (auto simp: branch_field_key_def q(2))
  qed
  have rows: "map (\<lambda>x. (bf_field x, bf_value x)) (filter (\<lambda>x. bf_branch x = br_branch r)
      (rows_for (group_rows bf_session_id (branch_field_total org db)) s)) =
      map (\<lambda>k. (snd (snd (snd (snd k))), ?val k)) (filter ?P (first_seen ?ks))"
    by (simp add: rows_for_group branch_field_total_def Let_def filter_map o_def split_beta conj_commute)
  let ?G = "\<lambda>q. map (Pair (slice_of ?t q)) (filter (\<lambda>p. in_slice (slice_of ?t q) p \<and> br_org q = org \<and>
      branch_field_key (slice_of ?t q, p) = ?k) ?used)"
  have "filter (\<lambda>x. branch_field_key x = ?k) ?joined = concat (map ?G ?t)"
    by (simp add: branch_points_def session_branch_slice_def filter_concat_map filter_map o_def conj_commute conj_left_commute)
  also have "\<dots> = ?G r"
  proof (rule concat_single [OF assms(2,3)])
    fix q assume q: "q \<in> set ?t" "q \<noteq> r"
    have "br_session_id q = s \<Longrightarrow> br_branch q \<noteq> br_branch r"
      using assms(1,3,4) q by (auto simp: plain_session_def distinct_map inj_on_def)
    then show "?G q = []" by (auto simp: filter_empty_conv branch_field_key_def)
  qed
  also have "\<dots> = map (Pair (slice_of ?t r)) ?U"
  proof -
    have o: "br_org r = org" "br_agent r = agent" using org [OF assms(3,4)] by simp_all
    have "(in_slice (slice_of ?t r) p \<and> br_org r = org \<and> branch_field_key (slice_of ?t r, p) = ?k) =
        ((mp_session_id p = Some s \<and> mp_field p = Some (field_str f)) \<and> in_slice (slice_of ?t r) p)" for p
      by (cases "mp_field p") (simp_all add: branch_field_key_def in_slice_def o assms(4), blast)
    then show ?thesis unfolding field_points_def filter_filter by presburger
  qed
  finally have U: "filter (\<lambda>x. branch_field_key x = ?k) ?joined = map (Pair (slice_of ?t r)) ?U" .
  have "?k \<in> set ?ks \<longleftrightarrow> filter (\<lambda>x. branch_field_key x = ?k) ?joined \<noteq> []" unfolding filter_Nil_iff by force
  then have k: "?k \<in> set ?ks \<longleftrightarrow> ?U \<noteq> []" unfolding U by simp
  have "?val ?k = Fin (\<Sum>p \<leftarrow> ?U. amount p)"
    unfolding U using increments_sum [of ?U] field_points_increments [OF assms(1), of f] by (simp add: o_def)
  moreover have "values_of (map (\<lambda>k. (snd (snd (snd (snd k))), ?val k)) (filter ?P (first_seen ?ks))) (field_str f) =
      (if ?k \<in> set ?ks then Some (?val ?k) else None)"
    by (rule values_of_grouped) (rule one)
  ultimately show ?thesis unfolding get_field_def rows using k by (simp only: sum_of_points_def split: if_split) (simp add: figure_of_def)
qed

section \<open>Adding them up\<close>

lemma at_most_one:
  assumes "distinct B" "\<And>r q. r \<in> set B \<Longrightarrow> q \<in> set B \<Longrightarrow> Q r \<Longrightarrow> Q q \<Longrightarrow> r = q" "0 \<le> c"
  shows "(\<Sum>r \<leftarrow> B. if Q r then c else 0) \<le> (c :: rat)"
  using assms
proof (induction B)
  case (Cons x B)
  show ?case
  proof (cases "Q x")
    case True
    then have "\<not> Q r" if "r \<in> set B" for r using Cons.prems(1,2) that by auto
    then have "map (\<lambda>r. if Q r then c else 0) B = map (\<lambda>r. 0) B" by (intro map_cong) auto
    then have "(\<Sum>r \<leftarrow> B. if Q r then c else 0) = 0" by (simp only: sum_list_0)
    then show ?thesis using True by simp
  qed (use Cons in auto)
qed simp

lemma disjoint_parts:
  assumes "distinct B" "\<And>p r q. r \<in> set B \<Longrightarrow> q \<in> set B \<Longrightarrow> Q r p \<Longrightarrow> Q q p \<Longrightarrow> r = q" "\<forall>p \<in> set U. 0 \<le> a p"
  shows "(\<Sum>r \<leftarrow> B. \<Sum>p \<leftarrow> filter (Q r) U. a p) \<le> (\<Sum>p \<leftarrow> U. a p :: rat)"
  using assms(3)
proof (induction U)
  case (Cons p U)
  have "(\<Sum>r \<leftarrow> B. \<Sum>p \<leftarrow> filter (Q r) (p # U). a p) =
      (\<Sum>r \<leftarrow> B. (if Q r p then a p else 0) + (\<Sum>p \<leftarrow> filter (Q r) U. a p))"
    by (intro arg_cong [where f = sum_list] map_cong) auto
  also have "\<dots> = (\<Sum>r \<leftarrow> B. if Q r p then a p else 0) + (\<Sum>r \<leftarrow> B. \<Sum>p \<leftarrow> filter (Q r) U. a p)" by (simp add: sum_list_addf)
  also have "\<dots> \<le> a p + (\<Sum>p \<leftarrow> U. a p)"
    by (rule add_mono, rule at_most_one [OF assms(1)]) (use assms(2) Cons in auto)
  finally show ?case by simp
qed (simp add: sum_list_0)

lemma num_total: "num (sum_of_points ps) = (\<Sum>p \<leftarrow> ps. amount p)"
  by (simp add: num_def sum_of_points_def)

section \<open>Splits and sessions\<close>

text \<open>What a session's row of the summary says, and that the client looks it up by the session's name alone.\<close>

lemma summary_lookup:
  fixes db :: telemetry_db and Q :: "SummaryRow \<Rightarrow> bool"
  defines "used \<equiv> metric_point_used (td_points db)"
  defines "ks \<equiv> map (\<lambda>p. (mp_agent p, mp_session_id p)) used"
  defines "summaries \<equiv> filter Q (session_summary db)"
  assumes "plain_session org agent s db" "sm \<in> set summaries" "sm_session_id sm = s" "sm_agent sm = agent"
  shows "map_of (rev (map (\<lambda>x. (sm_session_id x, val x)) summaries)) s = Some (val (summary_row db used (agent, Some s)))"
    and "sm_granularity (summary_row db used (agent, Some s)) = GWindow"
proof -
  have Q: "summaries = map (summary_row db used) (filter (Q \<circ> summary_row db used) (first_seen ks))"
    by (simp add: summaries_def session_summary_def Let_def used_def ks_def filter_map)
  have id: "sm_session_id (summary_row db used k) = the (snd k)" "sm_agent (summary_row db used k) = fst k" for k
    by (simp_all add: summary_row_def Let_def)
  have some: "snd k \<noteq> None \<and> (snd k = Some s \<longrightarrow> fst k = agent)" if "k \<in> set ks" for k
    using that assms(4) by (auto simp: ks_def used_def plain_session_def dest: used_mem)
  obtain k where k: "k \<in> set ks" "sm = summary_row db used k" "Q (summary_row db used k)"
    using assms(5) unfolding Q by auto
  have k0: "k = (agent, Some s)" using some [OF k(1)] assms(6,7) by (cases k) (auto simp: k(2) id)
  have one: "(Q \<circ> summary_row db used) k' \<and> the (snd k') = s \<longleftrightarrow> k' = (agent, Some s)" if k': "k' \<in> set ks" for k'
    using some [OF k'] k(3) by (cases k') (auto simp: k0)
  have "map (\<lambda>x. (sm_session_id x, val x)) summaries =
      map (\<lambda>k. (the (snd k), val (summary_row db used k))) (filter (Q \<circ> summary_row db used) (first_seen ks))"
    by (simp add: Q id)
  moreover have "map_of (rev (map (\<lambda>k. (the (snd k), val (summary_row db used k)))
      (filter (Q \<circ> summary_row db used) (first_seen ks)))) s =
      (if (agent, Some s) \<in> set ks then Some (val (summary_row db used (agent, Some s))) else None)"
    by (rule map_of_grouped) (rule one)
  ultimately show "map_of (rev (map (\<lambda>x. (sm_session_id x, val x)) summaries)) s = Some (val (summary_row db used (agent, Some s)))"
    using k(1) by (simp only: k0 if_True)
  obtain p where "p \<in> set used" "mp_agent p = agent" "mp_session_id p = Some s" using k(1) by (auto simp: k0 ks_def)
  moreover from this have "mp_temporality p \<noteq> TCumulative"
    using assms(4) used_mem by (auto simp: used_def plain_session_def increment_iff)
  ultimately show "sm_granularity (summary_row db used (agent, Some s)) = GWindow"
    by (auto simp: summary_row_def Let_def list_all_iff)
qed

lemma splits_of_session:
  "filter (\<lambda>l. sl_sessionId l = s) (map (split_of summaries byField byBranch) (filter (\<lambda>r. br_org r = org) (session_branch_slice t))) =
    map (\<lambda>r. split_of summaries byField byBranch (slice_of t r)) (filter (\<lambda>r. br_org r = org \<and> br_session_id r = s) t)"
proof -
  have "sl_sessionId (split_of summaries byField byBranch r) = br_session_id r" for r
    by (simp add: split_of_def split_with_def Let_def)
  then show ?thesis by (simp add: session_branch_slice_def filter_map o_def conj_commute)
qed

text \<open>
  C40: What a session did on its branches is part of what it did. Of a session of one organization and one agent whose datapoints
  are increments and whose branches differ in their names, the splits that go to the reports add up to no more than the session's own figure, for
  each figure that is divided: tokens of each kind, lines, edits and active time. No datapoint counts for two branches.
\<close>

theorem splits_stay_within_the_session:
  assumes "db = fold (intake_step d) es no_telemetry" "fetchRollups None None org db db db db db = Inr T" "R \<in> set (ti_sessions T)"
    and "plain_session org (sr_agent R) (sr_sessionId R) db" "(f, g, h) \<in> set figures"
  shows "(\<Sum>l \<leftarrow> filter (\<lambda>l. sl_sessionId l = sr_sessionId R) (ti_splits T). num (g l)) \<le> num (h R)"
proof -
  let ?s = "sr_sessionId R" and ?agent = "sr_agent R" and ?t = "td_branches db"
  let ?Q = "\<lambda>x. sm_org_id x = Some org \<or> sm_org_id x = None"
  let ?summaries = "filter ?Q (session_summary db)" and ?byField = "group_rows fw_session_id (session_field_total (td_points db))"
  let ?byBranch = "group_rows bf_session_id (branch_field_total org db)"
  let ?row = "summary_row db (metric_point_used (td_points db)) (?agent, Some ?s)"
  let ?U = "field_points db ?s f" and ?B = "filter (\<lambda>r. br_org r = org \<and> br_session_id r = ?s) ?t"
  have t: "distinct ?t" using intakes_ok [of d es] assms(1) by (simp add: telemetry_ok_def distinct_map)
  have T: "ti_sessions T = map (rollup_of ?byField) ?summaries"
      "ti_splits T = map (split_of ?summaries ?byField ?byBranch) (filter (\<lambda>r. br_org r = org) (session_branch_slice ?t))"
    using assms(2) by (auto simp: fetchRollups_def rollups_from_def Let_def)
  obtain sm where sm: "sm \<in> set ?summaries" "R = rollup_of ?byField sm" using assms(3) by (auto simp: T(1))
  have id: "sm_session_id sm = ?s" "sm_agent sm = ?agent" by (simp_all add: sm(2) rollup_of_def Let_def)
  note look = summary_lookup(1) [OF assms(4) sm(1) id] and window = summary_lookup(2) [OF assms(4) sm(1) id]
  have whole: "h R = sum_of_points ?U"
    using figure_of_rollup [OF assms(5), of ?byField sm] session_figure [OF assms(4), of f] by (simp add: sm(2) [symmetric] id)
  have count: "sm_branch_count ?row = length ?B"
    using assms(4) by (simp add: summary_row_def Let_def branches_of_def plain_session_def)
      (intro arg_cong [where f = length] filter_cong, auto)
  have split: "g (split_of ?summaries ?byField ?byBranch (slice_of ?t r)) =
      (if length ?B = 1 then sum_of_points ?U else sum_of_points (filter (in_slice (slice_of ?t r)) ?U))" if r: "r \<in> set ?B" for r
  proof -
    have rt: "r \<in> set ?t" "br_session_id r = ?s" using r by simp_all
    show ?thesis
      using look [of sm_branch_count] look [of sm_granularity] window count session_figure [OF assms(4), of f]
        branch_figure [OF assms(4) t rt, of f]
      by (simp add: split_of_def Let_def rt(2) figure_of_split [OF assms(5)])
  qed
  have parts: "(\<Sum>l \<leftarrow> filter (\<lambda>l. sl_sessionId l = ?s) (ti_splits T). num (g l)) =
      (\<Sum>r \<leftarrow> ?B. num (if length ?B = 1 then sum_of_points ?U else sum_of_points (filter (in_slice (slice_of ?t r)) ?U)))"
    unfolding T(2) splits_of_session map_map by (intro arg_cong [where f = sum_list] map_cong) (simp_all add: split)
  show ?thesis
  proof (cases "length ?B = 1")
    case True
    then obtain r where "?B = [r]" by (cases ?B) auto
    then show ?thesis unfolding parts whole by simp
  next
    case False
    have "(\<Sum>r \<leftarrow> ?B. \<Sum>p \<leftarrow> filter (in_slice (slice_of ?t r)) ?U. amount p) \<le> (\<Sum>p \<leftarrow> ?U. amount p)"
      by (rule disjoint_parts) (use t slices_disjoint [OF t] field_points_increments [OF assms(4)] in \<open>auto simp: amount_nonneg\<close>)
    then show ?thesis unfolding parts whole using False by (simp add: num_total)
  qed
qed

text \<open>Two branches, and a datapoint on each.\<close>

definition example_attr :: "string \<Rightarrow> string \<Rightarrow> json" where
  "example_attr k v = JObj [(''key'', JStr k), (''value'', JObj [(''stringValue'', JStr v)])]"

definition example_point :: "rat \<Rightarrow> rat \<Rightarrow> json" where
  "example_point nanos v = JObj [(''timeUnixNano'', JNum nanos), (''asDouble'', JNum v),
     (''attributes'', JArr [example_attr ''session.id'' ''s1'', example_attr ''type'' ''added''])]"

definition example_export :: "json list \<Rightarrow> json" where
  "example_export points = JObj [(''resourceMetrics'', JArr [JObj [(''scopeMetrics'', JArr [JObj [(''metrics'', JArr
     [JObj [(''name'', JStr ''claude_code.lines_of_code.count''),
            (''sum'', JObj [(''aggregationTemporality'', JNum 1), (''dataPoints'', JArr points)])]])]])]])]"

definition example_report :: "string \<Rightarrow> string \<Rightarrow> json" where
  "example_report branch at' = JObj [(''sessionId'', JStr ''s1''), (''repo'', JStr ''o/r''), (''branch'', JStr branch), (''at'', JStr at')]"

definition example_intakes :: "intake list" where
  "example_intakes =
     [IBranch example_ctx (Some (example_report ''main'' ''2023-11-14T22:13:20.000Z'')),
      IMetrics example_ctx (Some ''application/json'')
        (Some (example_export [example_point 1700000000000000000 5, example_point 1700000060000000000 7])),
      IBranch example_ctx (Some (example_report ''fix'' ''2023-11-14T22:14:20.000Z''))]"

definition example_db :: telemetry_db where
  "example_db = fold (intake_step (\<lambda>a. concat (map fst a))) example_intakes no_telemetry"



definition example_row :: "int \<Rightarrow> rat \<Rightarrow> point_row" where
  "example_row t v = \<lparr>mp_agent = ''claude-code'', mp_metric = ''claude_code.lines_of_code.count'', mp_field = Some ''lines_added'',
     mp_session_id = Some ''s1'', mp_value = Fin v, mp_temporality = TDelta, mp_start_time = None, mp_time = t,
     mp_attrs = [(''session.id'', JStr ''s1''), (''type'', JStr ''added'')], mp_received_at = 0, mp_source = ''otel''\<rparr>"

definition example_branch :: "string \<Rightarrow> int \<Rightarrow> branch_row" where
  "example_branch b t = \<lparr>br_org = ''org'', br_agent = ''claude-code'', br_session_id = ''s1'', br_repo = ''o/r'', br_branch = b,
     br_head_sha = None, br_first_seen = t, br_last_seen = t, br_samples = 1\<rparr>"

lemma example_db_eq:
  "example_db = \<lparr>td_points = [example_row 1700000000000000 5, example_row 1700000060000000 7],
     td_branches = [example_branch ''main'' 1700000000000000, example_branch ''fix'' 1700000060000000], td_links = []\<rparr>"
  by code_simp


definition example_summary :: SummaryRow where
  "example_summary = \<lparr>sm_agent = ''claude-code'', sm_session_id = ''s1'', sm_org_id = Some ''org'', sm_repo = Some ''o/r'',
     sm_branch_count = 2, sm_first_seen = 1700000000000000, sm_last_seen = 1700000060000000, sm_granularity = GWindow\<rparr>"

lemma example_views:
  "session_summary example_db = [example_summary]"
  "session_field_total (td_points example_db) = [\<lparr>fw_session_id = ''s1'', fw_field = ''lines_added'', fw_value = Fin 12\<rparr>]"
  "plain_session ''org'' ''claude-code'' ''s1'' example_db"
  unfolding example_db_eq by code_simp+

lemma example_rollup:
  "map (\<lambda>R. (sr_agent R, sr_sessionId R, sr_linesAdded R))
     [rollup_of (group_rows fw_session_id [\<lparr>fw_session_id = ''s1'', fw_field = ''lines_added'', fw_value = Fin 12\<rparr>]) example_summary] =
   [(''claude-code'', ''s1'', Some 12)]"
  by code_simp

lemma splits_stay_within_the_session_witness:
  "\<exists>T R. fetchRollups None None ''org'' example_db example_db example_db example_db example_db = Inr T \<and> ti_sessions T = [R] \<and>
    sr_linesAdded R = Some 12 \<and>
    (\<Sum>l \<leftarrow> filter (\<lambda>l. sl_sessionId l = sr_sessionId R) (ti_splits T). num (sl_linesAdded l)) \<le> num (sr_linesAdded R)"
proof -
  obtain T where T: "fetchRollups None None ''org'' example_db example_db example_db example_db example_db = Inr T"
    by (simp add: fetchRollups_def)
  define R where "R = rollup_of (group_rows fw_session_id (session_field_total (td_points example_db))) example_summary"
  have "sm_org_id example_summary = Some ''org''" by (simp add: example_summary_def)
  then have sessions: "ti_sessions T = [R]"
    using T by (auto simp: fetchRollups_def rollups_from_def Let_def example_views R_def)
  have R: "sr_agent R = ''claude-code''" "sr_sessionId R = ''s1''" "sr_linesAdded R = Some 12"
    using example_rollup by (simp_all add: R_def example_views)
  have "(\<Sum>l \<leftarrow> filter (\<lambda>l. sl_sessionId l = sr_sessionId R) (ti_splits T). num (sl_linesAdded l)) \<le> num (sr_linesAdded R)"
    by (rule splits_stay_within_the_session [OF example_db_def T, where f = FLinesAdded])
      (use R sessions example_views(3) in \<open>simp_all add: figures_def\<close>)
  then show ?thesis using T sessions R(3) by blast
qed
section \<open>Where figures are lost or counted twice\<close>

text \<open>One branch name in two repositories: what was done in either counts for both.\<close>

definition two_repos :: telemetry_db where
  "two_repos = \<lparr>td_points = [example_row 1700000000000000 5, example_row 1700000060000000 7],
     td_branches = [example_branch ''main'' 1700000000000000, (example_branch ''main'' 1700000060000000)\<lparr>br_repo := ''o/b''\<rparr>], td_links = []\<rparr>"

lemma two_repos_views:
  "map (\<lambda>r. (bf_session_id r, bf_branch r, bf_field r, bf_value r)) (branch_field_total ''org'' two_repos) =
     [(''s1'', ''main'', ''lines_added'', Fin 12)]"
  "session_field_total (td_points two_repos) = [\<lparr>fw_session_id = ''s1'', fw_field = ''lines_added'', fw_value = Fin 12\<rparr>]"
  "session_summary two_repos = [example_summary\<lparr>sm_repo := Some ''o/b''\<rparr>]"
  by code_simp+

lemma two_repos_one_branch_doubled:
  "(case fetchRollups None None ''org'' two_repos two_repos two_repos two_repos two_repos of
      Inl e \<Rightarrow> None | Inr T \<Rightarrow> Some (map sl_linesAdded (ti_splits T), map sr_linesAdded (ti_sessions T))) =
    Some ([Some 12, Some 12], [Some 12])"
proof -
  have views: "branch_field_total ''org'' two_repos =
      [\<lparr>bf_session_id = ''s1'', bf_branch = ''main'', bf_field = ''lines_added'', bf_value = Fin 12\<rparr>]"
    using two_repos_views(1) by (cases "branch_field_total ''org'' two_repos") auto
  have slices: "filter (\<lambda>r. br_org r = ''org'') (session_branch_slice (td_branches two_repos)) =
      [example_branch ''main'' 1700000000000000, (example_branch ''main'' 1700000060000000)\<lparr>br_repo := ''o/b''\<rparr>]"
    by code_simp
  then show ?thesis
    by (simp add: fetchRollups_def rollups_from_def two_repos_views(2,3) views slices rollup_of_def split_of_def Let_def
        session_values_def rows_for_group pick_def get_field_def values_of_def example_summary_def example_branch_def split_with_def
        figure_of_def)
qed

text \<open>Running totals of two models since one start: only the greater counts.\<close>

lemma totals_of_two_models:
  "map fw_value (session_field_total
     [(example_row 1 5)\<lparr>mp_temporality := TCumulative, mp_start_time := Some 0, mp_attrs := [(''model'', JStr ''a'')]\<rparr>,
      (example_row 1 7)\<lparr>mp_temporality := TCumulative, mp_start_time := Some 0, mp_attrs := [(''model'', JStr ''b'')]\<rparr>]) = [Fin 7]"
  by code_simp

text \<open>Datapoints of one instant that differ in an attribute that is not kept: only the first is stored.\<close>

definition tool_point :: "string \<Rightarrow> rat \<Rightarrow> json" where
  "tool_point lang v = JObj [(''timeUnixNano'', JNum 1700000000000000000), (''asDouble'', JNum v),
     (''attributes'', JArr [example_attr ''session.id'' ''s1'', example_attr ''language'' lang, example_attr ''type'' ''added''])]"

lemma dropped_attribute_loses_datapoints:
  "map mp_value (td_points (snd (post_metrics example_ctx (Some ''application/json'')
     (Some (example_export [tool_point ''TypeScript'' 5, tool_point ''SQL'' 7])) no_telemetry))) = [Fin 5]"
  by code_simp

text \<open>A body the parser rejects is answered as an error of the server, not as a partial success.\<close>

lemma unreadable_export_is_an_error:
  "fst (post_metrics ctx (Some ''application/json'') (Some (JObj [(''resourceMetrics'', JArr [JNull])])) db) = handler_threw"
  by (simp add: post_metrics_def isJson_def flattenMetrics_def optional_property_def member_of_def elements_def
      flatten_resource_def read_property_def and_then_def)

text \<open>A report without a branch is always refused by the database, and a transcript without one ends the import.\<close>

lemma detached_report_is_refused:
  assumes "branchReport ctx raw = Some r" "bp_branch r = None"
  shows "code (fst (post_branch ctx raw db)) = 503" "snd (post_branch ctx raw db) = db"
  using assms by (auto simp: post_branch_def recordBranch_def error_reply_def split: option.splits sum.splits)

lemma detached_transcript_ends_the_import:
  "fst (backfillTranscripts example_ctx None example_fs (\<lambda>d. False) (\<lambda>d. Some ''https://github.com/o/r.git'')
     (\<lambda>line. map_option (\<lambda>r. r\<lparr>rc_gitBranch := Some ''HEAD''\<rparr>) (example_record line)) ''/p'' no_telemetry) = Inl null_error"
  by code_simp

end
