(* ===== verification/AppToken.thy ===== *)
theory AppToken
  imports ServerConfig Otlp Session
begin

text \<open>
  Tokens of a GitHub App installation, \<open>server/src/github/app-token.ts\<close> and \<open>token.ts\<close>. The key's signature and \<open>JSON.stringify\<close> are parameters, as
  is the platform's reading of other spellings of a date. A mint is a discovery of the installation, if none is configured, and a
  request of a token; what follows each answer up to the next await is one step. A member of a
  response that the code takes for a text and that is of another type reads as absent.
\<close>

record app_env =
  ap_github :: GitHubApp
  ap_sign :: "string \<Rightarrow> string"
  ap_json_text :: "json \<Rightarrow> string"
  ap_num_text :: "rat \<Rightarrow> string"
  ap_other_date :: "string \<Rightarrow> int option"

abbreviation JWT_TTL_SECONDS :: int where "JWT_TTL_SECONDS \<equiv> 540"
abbreviation JWT_CLOCK_SKEW_SECONDS :: int where "JWT_CLOCK_SKEW_SECONDS \<equiv> 60"
abbreviation REFRESH_MARGIN_MS :: int where "REFRESH_MARGIN_MS \<equiv> 5 * 60 * 1000"

section \<open>The App's own token\<close>

definition jwt_payload :: "string \<Rightarrow> int \<Rightarrow> json" where
  "jwt_payload appId nowMs =
     (let issued = nowMs div 1000 - JWT_CLOCK_SKEW_SECONDS in
      JObj [(''iat'', JNum (of_int issued)), (''exp'', JNum (of_int (issued + JWT_TTL_SECONDS))), (''iss'', JStr appId)])"

definition appJwt :: "app_env \<Rightarrow> int \<Rightarrow> string" where
  "appJwt env nowMs =
     (let header = b64url (utf8 (ap_json_text env (JObj [(''alg'', JStr ''RS256''), (''typ'', JStr ''JWT'')])));
          content = b64url (utf8 (ap_json_text env (jwt_payload (ga_appId (ap_github env)) nowMs)));
          input = header @ ''.'' @ content in
      input @ ''.'' @ b64url (ap_sign env (utf8 input)))"

section \<open>Answers\<close>

abbreviation property_error :: string where "property_error \<equiv> ''Cannot read properties of null''"

definition app_request :: "string \<Rightarrow> string \<Rightarrow> string \<Rightarrow> http_request" where
  "app_request verb url bearer =
     \<lparr>hq_method = verb, hq_url = url,
      hq_headers = [(''authorization'', ''Bearer '' @ bearer), (''accept'', ''application/vnd.github+json''), (''user-agent'', ''factory-ai'')],
      hq_body = None\<rparr>"

definition response_json :: "http_response \<Rightarrow> string \<Rightarrow> string + json" where
  "response_json r what =
     (if \<not> response_ok r
      then let detail = take 200 (hr_text r) in
        Inl (what @ '' failed with '' @ nat_str (hr_status r) @ (if detail = [] then [] else '': '' @ detail))
      else (case hr_json r of None \<Rightarrow> Inl json_error | Some j \<Rightarrow> Inr j))"

abbreviation not_installed :: string where
  "not_installed \<equiv> ''this GitHub App is not installed anywhere. Install it on the organization or account whose repositories you want measured, then restart.''"

definition account_label :: "app_env \<Rightarrow> json \<Rightarrow> string + string" where
  "account_label env i =
     (if i = JNull then Inl property_error
      else Inr (case some_text (optional_property ''login'' (property ''account'' i)) of
             Some login \<Rightarrow> login
           | None \<Rightarrow> (case property ''id'' i of Some (JNum n) \<Rightarrow> ap_num_text env n | _ \<Rightarrow> ''undefined'')))"

definition installed_twice :: "string list \<Rightarrow> string" where
  "installed_twice labels =
     ''this GitHub App is installed on '' @ nat_str (length labels) @ '' accounts ('' @ join_with '', '' labels @
     ''). Set GITHUB_APP_INSTALLATION_ID to say which one this deployment reports on'' @ em_dash @
     ''guessing would silently measure the wrong organization.''"

definition discoverInstallation :: "app_env \<Rightarrow> http_response \<Rightarrow> string + string" where
  "discoverInstallation env r =
     and_then (response_json r ''installation lookup'') (\<lambda>j.
     case j of
       JArr [] \<Rightarrow> Inl not_installed
     | JArr [only] \<Rightarrow>
         (case (if only = JNull then None else property ''id'' only) of
            Some (JNum n) \<Rightarrow> Inr (ap_num_text env n)
          | _ \<Rightarrow> Inl ''installation lookup returned no id'')
     | JArr several \<Rightarrow> and_then (all_or_throw (account_label env) several) (\<lambda>labels. Inl (installed_twice labels))
     | _ \<Rightarrow> Inl not_installed)"

definition expiry_of :: "app_env \<Rightarrow> int \<Rightarrow> (string \<times> json) list \<Rightarrow> int" where
  "expiry_of env now m =
     (let s = text_member ''expires_at'' m in
      case (if s = [] then None else case parse_date s of Some t \<Rightarrow> Some t | None \<Rightarrow> ap_other_date env s) of
        Some t \<Rightarrow> t | None \<Rightarrow> now + 3600 * 1000)"

text \<open>A token and when it expires.\<close>

definition token_answer :: "app_env \<Rightarrow> int \<Rightarrow> http_response \<Rightarrow> string + string \<times> int" where
  "token_answer env now r =
     and_then (response_json r ''installation token request'') (\<lambda>j.
     if j = JNull then Inl property_error
     else let m = body (Some j) in
       if text_member ''token'' m = [] then Inl ''installation token response carried no token''
       else Inr (text_member ''token'' m, expiry_of env now m))"

section \<open>The provider\<close>

datatype mint_phase = Discovering string | Requesting string string

record token_provider =
  tp_installation :: "string option"
  tp_cached :: "(string \<times> int) option"
  tp_pending :: "mint_phase option"

definition new_provider :: "app_env \<Rightarrow> token_provider" where
  "new_provider env = \<lparr>tp_installation = ga_installationId (ap_github env), tp_cached = None, tp_pending = None\<rparr>"

text \<open>\<open>installationTokenProvider\<close> refuses a text that is no key.\<close>

definition installationTokenProvider :: "(string \<Rightarrow> string + 'k) \<Rightarrow> app_env \<Rightarrow> string + token_provider" where
  "installationTokenProvider createPrivateKey env =
     (case createPrivateKey (ga_privateKeyPem (ap_github env)) of
        Inl e \<Rightarrow> Inl (''GITHUB_APP_PRIVATE_KEY is not a usable private key: '' @ e)
      | Inr key \<Rightarrow> Inr (new_provider env))"

definition phase_request :: "app_env \<Rightarrow> mint_phase \<Rightarrow> http_request" where
  "phase_request env phase =
     (case phase of
        Discovering jwt \<Rightarrow> app_request ''GET'' (ga_apiUrl (ap_github env) @ ''/app/installations?per_page=100'') jwt
      | Requesting jwt i \<Rightarrow>
          app_request ''POST'' (ga_apiUrl (ap_github env) @ ''/app/installations/'' @ i @ ''/access_tokens'') jwt)"

definition mint_begin :: "app_env \<Rightarrow> int \<Rightarrow> token_provider \<Rightarrow> mint_phase" where
  "mint_begin env now s =
     (let jwt = appJwt env now in case tp_installation s of None \<Rightarrow> Discovering jwt | Some i \<Rightarrow> Requesting jwt i)"

text \<open>\<open>get\<close>: the cached token, or the mint in flight, which is begun when there is none.\<close>

definition token_get :: "app_env \<Rightarrow> int \<Rightarrow> token_provider \<Rightarrow> string option \<times> token_provider" where
  "token_get env now s =
     (case tp_cached s of
        Some (token, expiresAt) \<Rightarrow>
          if now < expiresAt - REFRESH_MARGIN_MS then (Some token, s)
          else (None, s\<lparr>tp_pending := (case tp_pending s of None \<Rightarrow> Some (mint_begin env now s) | p \<Rightarrow> p)\<rparr>)
      | None \<Rightarrow> (None, s\<lparr>tp_pending := (case tp_pending s of None \<Rightarrow> Some (mint_begin env now s) | p \<Rightarrow> p)\<rparr>))"

text \<open>An answer to the mint in flight: what those who wait get, if it ends, and what follows.\<close>

definition mint_answered ::
  "app_env \<Rightarrow> int \<Rightarrow> string + http_response \<Rightarrow> token_provider \<Rightarrow> (string + string) option \<times> token_provider"
where
  "mint_answered env now answer s =
     (case tp_pending s of
        None \<Rightarrow> (None, s)
      | Some (Discovering jwt) \<Rightarrow>
          (case and_then answer (discoverInstallation env) of
             Inl e \<Rightarrow> (Some (Inl e), s\<lparr>tp_pending := None\<rparr>)
           | Inr i \<Rightarrow> (None, s\<lparr>tp_installation := Some i, tp_pending := Some (Requesting jwt i)\<rparr>))
      | Some (Requesting jwt i) \<Rightarrow>
          (case and_then answer (token_answer env now) of
             Inl e \<Rightarrow> (Some (Inl e), s\<lparr>tp_pending := None\<rparr>)
           | Inr (token, expiresAt) \<Rightarrow> (Some (Inr token), s\<lparr>tp_cached := Some (token, expiresAt), tp_pending := None\<rparr>)))"

text \<open>\<open>installationId\<close>: what is known, or that it must wait for a token first.\<close>

definition installation_known :: "token_provider \<Rightarrow> string option" where
  "installation_known s = (if truthy (tp_installation s) then tp_installation s else None)"

section \<open>One caller alone\<close>

definition phase_run :: "app_env \<Rightarrow> int \<Rightarrow> 'w fetch \<Rightarrow> token_provider \<Rightarrow> 'w \<Rightarrow> (string + string) option \<times> token_provider \<times> 'w" where
  "phase_run env now fetch s w =
     (case tp_pending s of
        None \<Rightarrow> (None, s, w)
      | Some phase \<Rightarrow>
          (case fetch (phase_request env phase) w of (answer, w') \<Rightarrow>
            (case mint_answered env now answer s of (out, s') \<Rightarrow> (out, s', w'))))"

definition get_token :: "app_env \<Rightarrow> int \<Rightarrow> 'w fetch \<Rightarrow> token_provider \<times> 'w \<Rightarrow> (string + string) \<times> token_provider \<times> 'w" where
  "get_token env now fetch x =
     (case token_get env now (fst x) of
        (Some token, s) \<Rightarrow> (Inr token, s, snd x)
      | (None, s) \<Rightarrow>
          (case phase_run env now fetch s (snd x) of
             (Some out, s', w') \<Rightarrow> (out, s', w')
           | (None, s', w') \<Rightarrow>
               (case phase_run env now fetch s' w' of
                  (Some out, s'', w'') \<Rightarrow> (out, s'', w'')
                | (None, s'', w'') \<Rightarrow> (Inl [], s'', w''))))"

definition get_installation :: "app_env \<Rightarrow> int \<Rightarrow> 'w fetch \<Rightarrow> token_provider \<times> 'w \<Rightarrow> (string + string) \<times> token_provider \<times> 'w" where
  "get_installation env now fetch x =
     (case installation_known (fst x) of
        Some i \<Rightarrow> (Inr i, x)
      | None \<Rightarrow>
          (case get_token env now fetch x of
             (Inl e, x') \<Rightarrow> (Inl e, x')
           | (Inr token, x') \<Rightarrow> (Inr (case tp_installation (fst x') of Some i \<Rightarrow> i | None \<Rightarrow> ''undefined''), x')))"

end
