(* ===== verification/AppClient.thy ===== *)
theory AppClient
  imports AppToken RepoSource
begin

text \<open>
  What the App installation can see: \<open>server/src/github/app-client.ts\<close>, and the route that hands it to the picker,
  \<open>server/src/routes/repos.ts\<close>, with \<open>server/src/routes/health.ts\<close>. The tokens and the platform's \<open>fetch\<close> act on one world. A member
  of a response that the code takes for a text and that is of another type reads as absent.
\<close>

abbreviation MAX_PAGES :: nat where "MAX_PAGES \<equiv> 100"

type_synonym 'w token_source = "'w \<Rightarrow> (string + string) \<times> 'w"

section \<open>One page\<close>

definition page_path :: "nat \<Rightarrow> string" where
  "page_path page = ''/installation/repositories?per_page=100&page='' @ nat_str page"

definition app_call :: "string \<Rightarrow> 'w token_source \<Rightarrow> 'w fetch \<Rightarrow> string \<Rightarrow> 'w \<Rightarrow> (string + json) \<times> 'w" where
  "app_call apiUrl get fetch path w =
     (case get w of
        (Inl e, w') \<Rightarrow> (Inl e, w')
      | (Inr token, w') \<Rightarrow>
          (case fetch (app_request ''GET'' (apiUrl @ path) token) w' of (answer, w'') \<Rightarrow>
            (and_then answer (\<lambda>r. response_json r (''GET '' @ path)), w'')))"

definition repo_payload :: "json \<Rightarrow> string + InstallationRepo option" where
  "repo_payload e =
     (if e = JNull then Inl property_error
      else
        let name = some_text (property ''name'' e); login = some_text (optional_property ''login'' (property ''owner'' e)) in
        if \<not> truthy name \<or> \<not> truthy login then Inr None
        else Inr (Some \<lparr>ir_owner = the login, ir_name = the name, ir_private = (property ''private'' e = Some (JBool True)),
          ir_defaultBranch = some_text (property ''default_branch'' e), ir_pushedAt = some_text (property ''pushed_at'' e)\<rparr>))"

record repo_page =
  rp_batch :: "json list"
  rp_repos :: "InstallationRepo list"
  rp_total :: "rat option"
  rp_selection :: "string option"

definition page_of :: "json \<Rightarrow> string + repo_page" where
  "page_of b =
     (if b = JNull then Inl property_error
      else
        case elements (property ''repositories'' b) of
          Inl e \<Rightarrow> Inl ''object is not iterable''
        | Inr batch \<Rightarrow>
            and_then (all_or_throw repo_payload batch) (\<lambda>found.
            Inr \<lparr>rp_batch = batch, rp_repos = List.map_filter id found,
              rp_total = (case property ''total_count'' b of Some (JNum n) \<Rightarrow> Some n | _ \<Rightarrow> None),
              rp_selection = some_text (property ''repository_selection'' b)\<rparr>))"

definition last_page :: "repo_page \<Rightarrow> InstallationRepo list \<Rightarrow> bool" where
  "last_page p repos \<longleftrightarrow> rp_batch p = [] \<or> (case rp_total p of None \<Rightarrow> False | Some n \<Rightarrow> n \<le> of_nat (length repos))"

section \<open>All pages\<close>

text \<open>\<open>left\<close> counts the pages that may still be asked for, up to the ceiling.\<close>

fun list_pages ::
  "string \<Rightarrow> 'w token_source \<Rightarrow> 'w fetch \<Rightarrow> nat \<Rightarrow> InstallationRepo list \<Rightarrow> string option \<Rightarrow> 'w \<Rightarrow>
    (string + InstallationRepo list \<times> string option) \<times> 'w"
where
  "list_pages apiUrl get fetch 0 repos selection w = (Inr (repos, selection), w)"
| "list_pages apiUrl get fetch (Suc left) repos selection w =
     (case app_call apiUrl get fetch (page_path (MAX_PAGES - left)) w of
        (Inl e, w') \<Rightarrow> (Inl e, w')
      | (Inr b, w') \<Rightarrow>
          (case page_of b of
             Inl e \<Rightarrow> (Inl e, w')
           | Inr p \<Rightarrow>
               let repos' = repos @ rp_repos p; selection' = (if selection = None then rp_selection p else selection) in
               if last_page p repos' then (Inr (repos', selection'), w')
               else list_pages apiUrl get fetch left repos' selection' w'))"

definition installation_of :: "InstallationRepo list \<Rightarrow> string option \<Rightarrow> string \<Rightarrow> Installation" where
  "installation_of repos selection i =
     (let owners = remdups (map ir_owner repos) in
      \<lparr>il_id = i, il_account = (if length owners = 1 then Some (hd owners) else None),
       il_repositorySelection = (if selection = Some ''all'' \<or> selection = Some ''selected'' then selection else None)\<rparr>)"

definition listRepositories ::
  "string \<Rightarrow> 'w token_source \<Rightarrow> 'w token_source \<Rightarrow> 'w fetch \<Rightarrow> 'w \<Rightarrow> (string + repo_listing) \<times> 'w"
where
  "listRepositories apiUrl get installationId fetch w =
     (case list_pages apiUrl get fetch MAX_PAGES [] None w of
        (Inl e, w') \<Rightarrow> (Inl e, w')
      | (Inr (repos, selection), w') \<Rightarrow>
          (case installationId w' of
             (Inl e, w'') \<Rightarrow> (Inl e, w'')
           | (Inr i, w'') \<Rightarrow> (Inr \<lparr>li_repos = repos, li_installation = Some (installation_of repos selection i)\<rparr>, w'')))"

section \<open>The routes\<close>

definition repo_json :: "InstallationRepo \<Rightarrow> json" where
  "repo_json r = JObj [(''owner'', JStr (ir_owner r)), (''name'', JStr (ir_name r)), (''private'', JBool (ir_private r)),
     (''defaultBranch'', json_opt JStr (ir_defaultBranch r)), (''pushedAt'', json_opt JStr (ir_pushedAt r))]"

definition installation_json :: "Installation \<Rightarrow> json" where
  "installation_json i = JObj [(''id'', JStr (il_id i)), (''account'', json_opt JStr (il_account i)),
     (''repositorySelection'', json_opt JStr (il_repositorySelection i))]"

text \<open>Once \<open>detail\<close> has come back.\<close>

definition get_repos :: "repo_source \<Rightarrow> reply" where
  "get_repos src =
     send 200 (JObj [(''repos'', JArr (map repo_json (li_repos (source_detail src)))),
       (''installation'', json_opt installation_json (li_installation (source_detail src))),
       (''meta'', JObj [(''fetchedAt'', json_opt (JStr \<circ> to_iso) (source_fetchedAt src)), (''error'', json_opt JStr (so_error src))])])"

definition get_health :: "AppConfig \<Rightarrow> rat \<Rightarrow> reply" where
  "get_health config uptime =
     send 200 (JObj [(''status'', JStr ''ok''), (''organization'', JStr (ac_orgId config)), (''uptimeSeconds'', JNum (of_int \<lfloor>uptime\<rfloor>))])"

end
