(* ===== verification/AppTheorems.thy ===== *)
theory AppTheorems
  imports AppClient
begin

text \<open>
  The properties of the App's credentials and of the repository list they buy: which tokens are handed out, how many are asked for, and
  that the list is complete.
\<close>

section \<open>Asking and answering\<close>

text \<open>The callers of \<open>get\<close> and the answers from GitHub, in any order, with the log of what came of them.\<close>

datatype token_event = Ask int | Answer int "string + http_response"

datatype token_log = Served int string | Sent http_request | Answered int "string + http_response" | Settled "string + string"

definition sent_for :: "app_env \<Rightarrow> token_provider \<Rightarrow> token_log list" where
  "sent_for env s = (case tp_pending s of None \<Rightarrow> [] | Some phase \<Rightarrow> [Sent (phase_request env phase)])"

fun token_step :: "app_env \<Rightarrow> token_event \<Rightarrow> token_provider \<Rightarrow> token_log list \<times> token_provider" where
  "token_step env (Ask now) s =
     (case token_get env now s of
        (Some token, s') \<Rightarrow> ([Served now token], s')
      | (None, s') \<Rightarrow> (if tp_pending s = None then sent_for env s' else [], s'))"
| "token_step env (Answer now a) s =
     (if tp_pending s = None then ([], s)
      else case mint_answered env now a s of
        (Some out, s') \<Rightarrow> ([Answered now a, Settled out], s')
      | (None, s') \<Rightarrow> (Answered now a # sent_for env s', s'))"

fun token_run :: "app_env \<Rightarrow> token_event list \<Rightarrow> token_log list \<times> token_provider \<Rightarrow> token_log list \<times> token_provider" where
  "token_run env [] x = x"
| "token_run env (e # es) x = (case token_step env e (snd x) of (out, s') \<Rightarrow> token_run env es (fst x @ out, s'))"

definition is_sent :: "token_log \<Rightarrow> bool" where
  "is_sent l = (case l of Sent r \<Rightarrow> True | _ \<Rightarrow> False)"

definition is_answered :: "token_log \<Rightarrow> bool" where
  "is_answered l = (case l of Answered now a \<Rightarrow> True | _ \<Rightarrow> False)"

definition in_flight :: "token_log list \<Rightarrow> int" where
  "in_flight trail = int (length (filter is_sent trail)) - int (length (filter is_answered trail))"

definition issued_until :: "app_env \<Rightarrow> token_log list \<Rightarrow> string \<Rightarrow> int \<Rightarrow> bool" where
  "issued_until env trail token expiresAt \<longleftrightarrow>
     (\<exists>now r. Answered now (Inr r) \<in> set trail \<and> token_answer env now r = Inr (token, expiresAt))"

definition token_url :: "app_env \<Rightarrow> string \<Rightarrow> string" where
  "token_url env i = ga_apiUrl (ap_github env) @ ''/app/installations/'' @ i @ ''/access_tokens''"

definition provider_ok :: "app_env \<Rightarrow> token_log list \<Rightarrow> token_provider \<Rightarrow> bool" where
  "provider_ok env trail s \<longleftrightarrow>
     in_flight trail = (if tp_pending s = None then 0 else 1) \<and>
     (\<forall>token e. tp_cached s = Some (token, e) \<longrightarrow> issued_until env trail token e) \<and>
     (\<forall>now token. Served now token \<in> set trail \<longrightarrow> (\<exists>e. issued_until env trail token e \<and> now < e - REFRESH_MARGIN_MS)) \<and>
     (\<forall>r. Sent r \<in> set trail \<and> hq_method r = ''POST'' \<longrightarrow> (\<exists>i. tp_installation s = Some i \<and> hq_url r = token_url env i)) \<and>
     (\<forall>jwt. tp_pending s = Some (Discovering jwt) \<longrightarrow> tp_installation s = None) \<and>
     (\<forall>jwt i. tp_pending s = Some (Requesting jwt i) \<longrightarrow> tp_installation s = Some i) \<and>
     (\<forall>i. ga_installationId (ap_github env) = Some i \<longrightarrow> tp_installation s = Some i)"

lemma issued_append: "issued_until env trail token e \<Longrightarrow> issued_until env (trail @ out) token e"
  by (auto simp: issued_until_def)

lemma in_flight_append: "in_flight (trail @ out) = in_flight trail + in_flight out"
  by (simp add: in_flight_def)

lemma in_flight_simps [simp]:
  "in_flight [] = 0" "in_flight (Served n t # l) = in_flight l" "in_flight (Settled o' # l) = in_flight l"
  "in_flight (Sent r # l) = in_flight l + 1" "in_flight (Answered n a # l) = in_flight l - 1"
  by (simp_all add: in_flight_def is_sent_def is_answered_def)

lemma request_simps [simp]:
  "hq_method (phase_request env (Discovering jwt)) = ''GET''" "hq_method (phase_request env (Requesting jwt i)) = ''POST''"
  "hq_url (phase_request env (Requesting jwt i)) = token_url env i"
  by (simp_all add: phase_request_def app_request_def token_url_def)

lemma ask_ok:
  assumes "provider_ok env trail s" shows "case token_step env (Ask now) s of (out, s') \<Rightarrow> provider_ok env (trail @ out) s'"
proof (cases "\<exists>token e. tp_cached s = Some (token, e) \<and> now < e - REFRESH_MARGIN_MS")
  case True
  then obtain token e where c: "tp_cached s = Some (token, e)" "now < e - REFRESH_MARGIN_MS" by blast
  then have "token_step env (Ask now) s = ([Served now token], s)" by (simp add: token_get_def)
  moreover have "issued_until env trail token e" using assms c(1) by (simp add: provider_ok_def)
  ultimately show ?thesis
    using assms c(2) issued_append [of env trail _ _ "[Served now token]"]
    by (simp add: provider_ok_def in_flight_append) blast
next
  case False
  then have get: "token_get env now s =
      (None, s\<lparr>tp_pending := (case tp_pending s of None \<Rightarrow> Some (mint_begin env now s) | p \<Rightarrow> p)\<rparr>)"
    by (auto simp: token_get_def split: option.split)
  show ?thesis
  proof (cases "tp_pending s")
    case (Some p)
    then have "token_step env (Ask now) s = ([], s)" by (simp add: get)
    then show ?thesis using assms by simp
  next
    case None
    define p where "p = mint_begin env now s"
    have step: "token_step env (Ask now) s = ([Sent (phase_request env p)], s\<lparr>tp_pending := Some p\<rparr>)"
      using None by (simp add: get sent_for_def p_def)
    have p: "(tp_installation s = None \<and> (\<exists>jwt. p = Discovering jwt)) \<or> (\<exists>i jwt. tp_installation s = Some i \<and> p = Requesting jwt i)"
      by (cases "tp_installation s") (simp_all add: p_def mint_begin_def Let_def)
    show ?thesis unfolding step using assms None p issued_append [of env trail _ _ "[Sent (phase_request env p)]"]
      by (fastforce simp: provider_ok_def in_flight_append)
  qed
qed

lemma answer_ok:
  assumes "provider_ok env trail s" shows "case token_step env (Answer now a) s of (out, s') \<Rightarrow> provider_ok env (trail @ out) s'"
proof (cases "tp_pending s")
  case None
  then show ?thesis using assms by simp
next
  case (Some phase)
  note old = assms [unfolded provider_ok_def]
  note grown = issued_append [of env trail]
  show ?thesis
  proof (cases phase)
    case (Discovering jwt)
    have none: "tp_installation s = None" "ga_installationId (ap_github env) = None"
      using old Some Discovering by auto
    show ?thesis
    proof (cases "and_then a (discoverInstallation env)")
      case (Inl e)
      then show ?thesis
        using old Some Discovering none grown [of _ _ "[Answered now a, Settled (Inl e)]"]
        by (simp add: mint_answered_def provider_ok_def in_flight_append) blast
    next
      case (Inr i)
      have no_post: "\<not> (Sent r \<in> set trail \<and> hq_method r = ''POST'')" for r using old none by fastforce
      let ?s = "s\<lparr>tp_installation := Some i, tp_pending := Some (Requesting jwt i)\<rparr>"
      have "token_step env (Answer now a) s = ([Answered now a, Sent (phase_request env (Requesting jwt i))], ?s)"
        by (simp add: Some Discovering mint_answered_def Inr sent_for_def)
      then show ?thesis
        using old Some none no_post grown [of _ _ "[Answered now a, Sent (phase_request env (Requesting jwt i))]"]
        by (simp add: provider_ok_def in_flight_append del: token_step.simps) (intro conjI allI impI; elim conjE disjE; (blast | simp))
    qed
  next
    case (Requesting jwt i)
    have i: "tp_installation s = Some i" using old Some Requesting by blast
    show ?thesis
    proof (cases "and_then a (token_answer env now)")
      case (Inl e)
      then show ?thesis
        using old Some Requesting i grown [of _ _ "[Answered now a, Settled (Inl e)]"]
        by (simp add: mint_answered_def provider_ok_def in_flight_append) blast
    next
      case (Inr te)
      obtain token e where te: "te = (token, e)" by (cases te)
      let ?out = "[Answered now a, Settled (Inr token)]"
      obtain r where r: "a = Inr r" "token_answer env now r = Inr (token, e)" using Inr te by (cases a) auto
      then have new: "issued_until env (trail @ ?out) token e" unfolding issued_until_def by (intro exI [of _ now] exI [of _ r]) simp
      have "token_step env (Answer now a) s = (Answered now a # [Settled (Inr token)], s\<lparr>tp_cached := Some (token, e), tp_pending := None\<rparr>)"
        by (simp add: Some Requesting mint_answered_def Inr te)
      then show ?thesis
        using old Some i new grown [of _ _ ?out]
        by (simp add: provider_ok_def in_flight_append) blast
    qed
  qed
qed

lemma token_run_ok: "provider_ok env (fst x) (snd x) \<Longrightarrow> provider_ok env (fst (token_run env es x)) (snd (token_run env es x))"
proof (induction es arbitrary: x)
  case (Cons e es)
  obtain out s' where st: "token_step env e (snd x) = (out, s')" by fastforce
  have "provider_ok env (fst x @ out) s'"
    using ask_ok [OF Cons.prems] answer_ok [OF Cons.prems] st by (cases e) (metis prod.case)+
  then show ?case using Cons.IH [of "(fst x @ out, s')"] by (simp add: st)
qed simp

lemma new_provider_ok: "provider_ok env [] (new_provider env)"
  by (simp add: provider_ok_def new_provider_def)

text \<open>
  However calls and answers arrive, at most one request is in flight; every token that is handed out at once was issued by GitHub and
  is at least five minutes from its expiry; and all tokens are asked for of one installation, the configured one where one
  is configured.
\<close>

theorem served_tokens_are_fresh:
  assumes "token_run env es ([], new_provider env) = (trail, s)"
  shows "in_flight trail \<in> {0, 1} \<and>
    (\<forall>now token. Served now token \<in> set trail \<longrightarrow> (\<exists>e. issued_until env trail token e \<and> now < e - REFRESH_MARGIN_MS)) \<and>
    (\<exists>i. \<forall>r. Sent r \<in> set trail \<and> hq_method r = ''POST'' \<longrightarrow> hq_url r = token_url env i \<and>
       (\<forall>j. ga_installationId (ap_github env) = Some j \<longrightarrow> i = j))"
proof -
  have ok: "provider_ok env trail s" using token_run_ok [of env "([], new_provider env)" es] new_provider_ok assms by simp
  then have "\<exists>i. \<forall>r. Sent r \<in> set trail \<and> hq_method r = ''POST'' \<longrightarrow> hq_url r = token_url env i \<and>
       (\<forall>j. ga_installationId (ap_github env) = Some j \<longrightarrow> i = j)"
    by (intro exI [of _ "the (tp_installation s)"]) (auto simp: provider_ok_def)
  then show ?thesis using ok by (simp add: provider_ok_def)
qed

section \<open>The list of repositories\<close>

text \<open>The repositories a list of entries names, those without a name or an owner passed over.\<close>

definition named_entries :: "json list \<Rightarrow> InstallationRepo list" where
  "named_entries es = List.map_filter (\<lambda>e. case repo_payload e of Inl x \<Rightarrow> None | Inr r \<Rightarrow> r) es"

definition page_body :: "nat \<Rightarrow> string \<Rightarrow> json list \<Rightarrow> json" where
  "page_body amount selection batch =
     JObj [(''total_count'', JNum (of_nat amount)), (''repository_selection'', JStr selection), (''repositories'', JArr batch)]"

text \<open>GitHub hands out a listing in pages, whatever happens to its state meanwhile, and an empty page after the last.\<close>

definition serves_listing ::
  "string \<Rightarrow> 'w token_source \<Rightarrow> 'w fetch \<Rightarrow> nat \<Rightarrow> string \<Rightarrow> json list list \<Rightarrow> bool"
where
  "serves_listing apiUrl get fetch amount selection pages \<longleftrightarrow>
     [] \<notin> set pages \<and> JNull \<notin> set (concat pages) \<and> length pages \<le> MAX_PAGES \<and> length (concat pages) \<le> amount \<and>
     (\<forall>n w. fst (app_call apiUrl get fetch (page_path (Suc n)) w) =
        Inr (page_body amount selection (if n < length pages then pages ! n else [])))"

lemma named_append: "named_entries (xs @ ys) = named_entries xs @ named_entries ys"
  by (simp add: named_entries_def map_filter_def)

lemma length_named: "length (named_entries es) \<le> length es"
  by (simp add: named_entries_def map_filter_def)

lemma payloads_read: "JNull \<notin> set es \<Longrightarrow> \<exists>rs. all_or_throw repo_payload es = Inr rs \<and> List.map_filter id rs = named_entries es"
proof (induction es)
  case (Cons e es)
  then have "JNull \<notin> set es" by simp
  from Cons.IH [OF this] obtain rs where rs: "all_or_throw repo_payload es = Inr rs" "List.map_filter id rs = named_entries es" by blast
  obtain r where r: "repo_payload e = Inr r" using Cons.prems
    by (cases "repo_payload e") (auto simp: repo_payload_def Let_def split: if_splits)
  have "List.map_filter id (r # rs) = named_entries (e # es)"
    using rs(2) r by (simp add: named_entries_def map_filter_def split: option.split)
  then show ?case using rs(1) r by (intro exI [of _ "r # rs"]) (simp only: all_or_throw.simps sum.case)
qed (simp add: named_entries_def)

lemma page_read:
  assumes "JNull \<notin> set batch"
  obtains p where "page_of (page_body amount selection batch) = Inr p" "rp_batch p = batch" "rp_repos p = named_entries batch"
    "rp_total p = Some (of_nat amount)" "rp_selection p = Some selection"
proof -
  obtain rs where "all_or_throw repo_payload batch = Inr rs" "List.map_filter id rs = named_entries batch" using payloads_read [OF assms] by blast
  then show thesis
    by (intro that [of "\<lparr>rp_batch = batch, rp_repos = named_entries batch, rp_total = Some (of_nat amount), rp_selection = Some selection\<rparr>"])
      (simp_all add: page_of_def page_body_def member_of_def elements_def some_text_def)
qed

lemma pages_listed:
  assumes "serves_listing apiUrl get fetch amount selection pages" "left \<le> MAX_PAGES" "n = MAX_PAGES - left"
    "repos = named_entries (concat (take n pages))" "sel = (if n = 0 then None else Some selection)"
  shows "\<exists>sel' w'. list_pages apiUrl get fetch left repos sel w = (Inr (named_entries (concat pages), sel'), w')"
  using assms(2-5)
proof (induction left arbitrary: n repos sel w)
  case 0
  then show ?case using assms(1) by (simp add: serves_listing_def)
next
  case (Suc left)
  let ?batch = "if n < length pages then pages ! n else []"
  note served = assms(1) [unfolded serves_listing_def]
  have n: "Suc n = MAX_PAGES - left" using Suc.prems(1,2) by simp
  obtain w' where call: "app_call apiUrl get fetch (page_path (Suc n)) w = (Inr (page_body amount selection ?batch), w')"
    using served by (metis prod.collapse)
  have "JNull \<notin> set ?batch" using served nth_mem [of n pages] by auto
  then obtain p where p: "page_of (page_body amount selection ?batch) = Inr p" "rp_batch p = ?batch" "rp_repos p = named_entries ?batch"
      "rp_total p = Some (of_nat amount)" "rp_selection p = Some selection"
    by (rule page_read)
  define more_repos where "more_repos = repos @ rp_repos p"
  have got: "more_repos = named_entries (concat (take (Suc n) pages))"
    unfolding more_repos_def p(3) Suc.prems(3)
    by (cases "n < length pages") (simp_all add: take_Suc_conv_app_nth named_append named_entries_def map_filter_def)
  show ?case
  proof (cases "last_page p more_repos")
    case True
    have "more_repos = named_entries (concat pages)"
    proof (cases "n < length pages")
      case False
      then show ?thesis using got by simp
    next
      case inside: True
      have "?batch \<noteq> []" using served inside by (metis nth_mem)
      then have "amount \<le> length more_repos" using True p(2,4) by (simp add: last_page_def)
      moreover have "length (named_entries (concat pages)) \<le> amount" using length_named [of "concat pages"] served by linarith
      moreover have "named_entries (concat pages) = more_repos @ named_entries (concat (drop (Suc n) pages))"
        unfolding got named_append [symmetric] concat_append [symmetric] append_take_drop_id ..
      ultimately show ?thesis by (cases "named_entries (concat (drop (Suc n) pages))") simp_all
    qed
    then show ?thesis using True call p(1) by (simp add: n more_repos_def Let_def)
  next
    case False
    have "\<exists>sel' w''. list_pages apiUrl get fetch left more_repos (if sel = None then rp_selection p else sel) w' =
        (Inr (named_entries (concat pages), sel'), w'')"
      by (rule Suc.IH [OF _ n got]) (use Suc.prems(1,4) p(5) in auto)
    then show ?thesis using False call p(1) by (simp add: n more_repos_def Let_def)
  qed
qed

text \<open>
  The list of the installation is complete: where GitHub hands it out in at most a hundred pages, every entry with a name and an owner is in
  it, once for each time it was handed out and in that order, whatever the count GitHub gives beside it, as long as it is not too low.
\<close>

theorem installation_list_is_complete:
  assumes "serves_listing apiUrl get fetch amount selection pages" "\<And>w. \<not> isl (fst (installationId w))"
  shows "\<exists>li w'. listRepositories apiUrl get installationId fetch w = (Inr li, w') \<and> li_repos li = named_entries (concat pages)"
proof -
  obtain sel w1 where "list_pages apiUrl get fetch MAX_PAGES [] None w = (Inr (named_entries (concat pages), sel), w1)"
    using pages_listed [OF assms(1), of MAX_PAGES 0 "[]" None w] by (auto simp: named_entries_def map_filter_def)
  moreover obtain i w2 where "installationId w1 = (Inr i, w2)" using assms(2) [of w1] by (cases "installationId w1"; cases "fst (installationId w1)") auto
  ultimately show ?thesis by (simp add: listRepositories_def)
qed

end
