(* ===== verification/Migrate.thy ===== *)
theory Migrate
  imports AuthStore ServerConfig Tables
begin

text \<open>
  Bringing a database up, \<open>server/src/db/migrate.ts\<close>. The body of a file is run by the database: what it does to a state is a
  parameter, as are the clock and the id the database generates. \<open>mg_owned\<close> holds the organization column of the tables that have
  one, each row with the rest of its key; the four tables below \<open>pull_request\<close> follow their parent. Log lines and the
  waits between attempts are left out.
\<close>

section \<open>State\<close>

record mig_db =
  mg_applied :: "string list"
  mg_owned :: "(string \<times> (string \<times> string) list) list"
  mg_auth :: auth_db

record MigrateOptions =
  mo_orgId :: string
  mo_orgName :: string
  mo_bootstrapAdmin :: "string option"
  mo_localUser :: bool
  mo_attempts :: nat

record migration_file =
  mf_version :: string
  mf_sql :: string
  mf_repeatable :: bool

record mig_env =
  me_directory :: "(string \<times> string) list"
  me_run_sql :: "string \<Rightarrow> mig_db statement"
  me_now :: int
  me_fresh :: uuid

abbreviation LOCAL_LOGIN :: string where "LOCAL_LOGIN \<equiv> ''__local__''"
abbreviation LOCAL_GITHUB_USER_ID :: int where "LOCAL_GITHUB_USER_ID \<equiv> 0"
abbreviation UNCLAIMED_ORG :: string where "UNCLAIMED_ORG \<equiv> ''__unclaimed__''"

definition ORG_OWNED :: "string list" where
  "ORG_OWNED = [''pull_request'', ''branch_commit'', ''branch_history'', ''sync_state'', ''session_branch'', ''session_pr'']"

definition on_auth :: "(auth_db \<Rightarrow> string + auth_db) \<Rightarrow> mig_db statement" where
  "on_auth f db = and_then (f (mg_auth db)) (\<lambda>a. Inr (db\<lparr>mg_auth := a\<rparr>))"

section \<open>Adoption\<close>

definition reserved_org :: "string \<Rightarrow> string" where
  "reserved_org orgId = ''orgId '' @ quoted orgId @ '' is inside the reserved '' @ quoted ''__'' @ '' namespace''"

text \<open>One \<open>update\<close>: a row that would meet one of the organization with its key refuses it.\<close>

definition adopt_table :: "string \<Rightarrow> string \<Rightarrow> mig_db statement" where
  "adopt_table orgId table db =
     (if starts_with orgId ''__'' then Inl (reserved_org orgId)
      else
        case map_of (mg_owned db) table of
          None \<Rightarrow> Inl (''relation '' @ quoted table @ '' does not exist'')
        | Some rows \<Rightarrow>
            if \<exists>r \<in> set rows. fst r = UNCLAIMED_ORG \<and> (orgId, snd r) \<in> set rows then Inl unique_error
            else Inr (db\<lparr>mg_owned := map_set table
              (map (\<lambda>r. if fst r = UNCLAIMED_ORG then (orgId, snd r) else r) rows) (mg_owned db)\<rparr>))"

definition adoptOrg :: "string \<Rightarrow> mig_db statement list" where
  "adoptOrg orgId = map (adopt_table orgId) ORG_OWNED"

section \<open>The organization and its first members\<close>

abbreviation org_check_error :: string where
  "org_check_error \<equiv> ''new row for relation organization violates check constraint organization_id_ck''"

definition seed_org :: "string \<Rightarrow> string \<Rightarrow> auth_db \<Rightarrow> string + auth_db" where
  "seed_org orgId orgName a =
     (if \<not> pg_text orgId \<or> \<not> pg_text orgName then Inl text_error
      else if \<not> is_org_id orgId \<or> starts_with orgId ''__'' then Inl org_check_error
      else if orgId \<in> set (db_orgs a) then Inr a
      else Inr (a\<lparr>db_orgs := orgId # db_orgs a\<rparr>))"

definition seedOrganization :: "string \<Rightarrow> string \<Rightarrow> mig_db statement" where
  "seedOrganization orgId orgName = on_auth (seed_org orgId orgName)"

definition real_member :: "string \<Rightarrow> member_row \<Rightarrow> bool" where
  "real_member orgId m \<longleftrightarrow> mb_org_id m = orgId \<and> mb_github_login m \<noteq> LOCAL_LOGIN"

definition admin_invite :: "string \<Rightarrow> string \<Rightarrow> member_row" where
  "admin_invite orgId login =
     \<lparr>mb_org_id = orgId, mb_github_login = login, mb_user_id = None, mb_role = RAdmin, mb_claimed_at = None\<rparr>"

definition insert_admin :: "string \<Rightarrow> string \<Rightarrow> auth_db \<Rightarrow> string + auth_db" where
  "insert_admin orgId login a =
     (if sql_exists (real_member orgId) (db_members a) then Inr a
      else if \<not> pg_text login then Inl text_error
      else if sql_exists (member_key orgId login) (db_members a) then Inr a
      else if orgId \<notin> set (db_orgs a) then Inl org_fk_error
      else Inr (a\<lparr>db_members := admin_invite orgId login # db_members a\<rparr>))"

definition bootstrap_login :: "string \<Rightarrow> string" where
  "bootstrap_login login = js_lower (js_trim login)"

text \<open>A count and, where it is none, an insert.\<close>

definition bootstrapAdmin :: "string \<Rightarrow> string \<Rightarrow> mig_db statement list" where
  "bootstrapAdmin orgId login =
     (if bootstrap_login login = [] then [] else [Inr, on_auth (insert_admin orgId (bootstrap_login login))])"

definition local_user :: "uuid \<Rightarrow> int \<Rightarrow> user_row" where
  "local_user fresh now =
     \<lparr>us_id = fresh, us_github_user_id = LOCAL_GITHUB_USER_ID, us_github_login = LOCAL_LOGIN, us_display_name = Some ''Local'',
      us_avatar_url = None, us_last_login_at = None\<rparr>"

definition upsert_local_user :: "uuid \<Rightarrow> int \<Rightarrow> auth_db \<Rightarrow> string + auth_db" where
  "upsert_local_user fresh now a =
     (if sql_exists (has_github_id LOCAL_GITHUB_USER_ID) (db_users a)
      then Inr (a\<lparr>db_users := sql_update (has_github_id LOCAL_GITHUB_USER_ID) (\<lambda>u. u\<lparr>us_last_login_at := Some now\<rparr>) (db_users a)\<rparr>)
      else Inr (a\<lparr>db_users := local_user fresh now # db_users a\<rparr>))"

definition local_member :: "string \<Rightarrow> uuid \<Rightarrow> int \<Rightarrow> member_row" where
  "local_member orgId i now =
     \<lparr>mb_org_id = orgId, mb_github_login = LOCAL_LOGIN, mb_user_id = Some i, mb_role = RAdmin, mb_claimed_at = Some now\<rparr>"

definition upsert_local_member :: "string \<Rightarrow> int \<Rightarrow> auth_db \<Rightarrow> string + auth_db" where
  "upsert_local_member orgId now a =
     (case sql_first (has_github_id LOCAL_GITHUB_USER_ID) (db_users a) of
        None \<Rightarrow> Inr a
      | Some u \<Rightarrow>
          if sql_exists (\<lambda>m. in_org orgId (us_id u) m \<and> mb_github_login m \<noteq> LOCAL_LOGIN) (db_members a) then Inl unique_error
          else if sql_exists (member_key orgId LOCAL_LOGIN) (db_members a)
          then Inr (a\<lparr>db_members := sql_update (member_key orgId LOCAL_LOGIN) (\<lambda>m. m\<lparr>mb_user_id := Some (us_id u)\<rparr>) (db_members a)\<rparr>)
          else if orgId \<notin> set (db_orgs a) then Inl org_fk_error
          else Inr (a\<lparr>db_members := local_member orgId (us_id u) now # db_members a\<rparr>))"

definition ensureLocalUser :: "string \<Rightarrow> uuid \<Rightarrow> int \<Rightarrow> mig_db statement list" where
  "ensureLocalUser orgId fresh now = [on_auth (upsert_local_user fresh now), on_auth (upsert_local_member orgId now)]"

definition reapSessions :: "int \<Rightarrow> mig_db statement" where
  "reapSessions now = on_auth (\<lambda>a. Inr (a\<lparr>db_sessions := sql_delete (\<lambda>s. ss_expires_at s < now) (db_sessions a)\<rparr>))"

section \<open>The files\<close>

abbreviation isRepeatable :: "string \<Rightarrow> bool" where
  "isRepeatable name \<equiv> ends_with name ''.repeatable.sql''"

text \<open>Versioned first, repeatable last.\<close>

definition migration_files :: "(string \<times> string) list \<Rightarrow> migration_file list" where
  "migration_files dir =
     (let all = map (\<lambda>(name, sql). \<lparr>mf_version = name, mf_sql = sql, mf_repeatable = isRepeatable name\<rparr>)
            (sort_key fst (filter (\<lambda>(name, sql). ends_with name ''.sql'') dir)) in
      filter (\<lambda>f. \<not> mf_repeatable f) all @ filter mf_repeatable all)"

definition record_version :: "string \<Rightarrow> mig_db statement" where
  "record_version version db =
     Inr (if version \<in> set (mg_applied db) then db else db\<lparr>mg_applied := mg_applied db @ [version]\<rparr>)"

definition apply_file :: "mig_env \<Rightarrow> string list \<Rightarrow> migration_file \<Rightarrow> mig_db statement list" where
  "apply_file env applied f =
     (if \<not> mf_repeatable f \<and> mf_version f \<in> set applied then []
      else if mf_repeatable f then [me_run_sql env (mf_sql f)]
      else [me_run_sql env (mf_sql f), record_version (mf_version f)])"

definition forget_repeatable :: "mig_db statement" where
  "forget_repeatable db = Inr (db\<lparr>mg_applied := filter (\<lambda>v. \<not> isRepeatable v) (mg_applied db)\<rparr>)"

section \<open>The run\<close>

text \<open>What an attempt sends, where \<open>applied\<close> is what it read.\<close>

definition seed_statements :: "mig_env \<Rightarrow> MigrateOptions \<Rightarrow> mig_db statement list" where
  "seed_statements env o' =
     adoptOrg (mo_orgId o') @ [seedOrganization (mo_orgId o') (mo_orgName o')] @
     (if mo_localUser o' then ensureLocalUser (mo_orgId o') (me_fresh env) (me_now env) else []) @
     (case mo_bootstrapAdmin o' of None \<Rightarrow> [] | Some login \<Rightarrow> if login = [] then [] else bootstrapAdmin (mo_orgId o') login) @
     [reapSessions (me_now env)]"

definition attempt_statements :: "mig_env \<Rightarrow> MigrateOptions \<Rightarrow> string list \<Rightarrow> mig_db statement list" where
  "attempt_statements env o' applied =
     [Inr, forget_repeatable, Inr] @ concat (map (apply_file env applied) (migration_files (me_directory env))) @ seed_statements env o'"

definition migrate_attempt :: "mig_env \<Rightarrow> MigrateOptions \<Rightarrow> (nat \<times> string) option \<Rightarrow> mig_db \<Rightarrow> (string + unit) \<times> mig_db" where
  "migrate_attempt env o' flt db =
     run_statements flt (attempt_statements env o' (filter (\<lambda>v. \<not> isRepeatable v) (mg_applied db))) db"

text \<open>Up to \<open>attempts\<close> of them, each with the environment and the refusal it meets.\<close>

fun migrate_attempts ::
  "MigrateOptions \<Rightarrow> (mig_env \<times> (nat \<times> string) option) list \<Rightarrow> string \<Rightarrow> mig_db \<Rightarrow> (string + unit) \<times> mig_db"
where
  "migrate_attempts o' [] lastError db =
     (Inl (''Migrations failed after '' @ nat_str (mo_attempts o') @ '' attempts: '' @ lastError), db)"
| "migrate_attempts o' ((env, flt) # rest) lastError db =
     (case migrate_attempt env o' flt db of
        (Inr u, db') \<Rightarrow> (Inr (), db')
      | (Inl e, db') \<Rightarrow> migrate_attempts o' rest e db')"

definition migrate :: "MigrateOptions \<Rightarrow> (nat \<Rightarrow> mig_env \<times> (nat \<times> string) option) \<Rightarrow> mig_db \<Rightarrow> (string + unit) \<times> mig_db" where
  "migrate o' tries db = migrate_attempts o' (map tries [0..<mo_attempts o']) ''undefined'' db"

end
