(* ===== verification/MigrateTheorems.thy ===== *)
theory MigrateTheorems
  imports Migrate AuthFacts
begin

text \<open>
  The properties of a migration: what a database is like once it came through, and that it lets nobody in but the first administrator.
\<close>

section \<open>What the statements keep\<close>

definition table_claimed :: "string \<Rightarrow> mig_db \<Rightarrow> bool" where
  "table_claimed table db \<longleftrightarrow> (\<exists>rows. map_of (mg_owned db) table = Some rows \<and> UNCLAIMED_ORG \<notin> fst ` set rows)"

definition local_admitted :: "string \<Rightarrow> auth_db \<Rightarrow> bool" where
  "local_admitted org a \<longleftrightarrow>
     (\<exists>u m. sql_first (has_github_id LOCAL_GITHUB_USER_ID) (db_users a) = Some u \<and> m \<in> set (db_members a) \<and> in_org org (us_id u) m)"

definition has_real_member :: "string \<Rightarrow> auth_db \<Rightarrow> bool" where
  "has_real_member org a \<longleftrightarrow> sql_exists (real_member org) (db_members a)"

lemma on_auth_Inr: "on_auth f a = Inr b \<longleftrightarrow> (\<exists>x. f (mg_auth a) = Inr x \<and> b = a\<lparr>mg_auth := x\<rparr>)"
  by (auto simp: on_auth_def)

text \<open>A statement of the last part of an attempt.\<close>

lemma seed_cases:
  assumes "st \<in> set (seed_statements env o')"
  obtains table where "st = adopt_table (mo_orgId o') table" "table \<in> set ORG_OWNED"
  | "st = on_auth (seed_org (mo_orgId o') (mo_orgName o'))"
  | "mo_localUser o'" "st = on_auth (upsert_local_user (me_fresh env) (me_now env))"
  | "mo_localUser o'" "st = on_auth (upsert_local_member (mo_orgId o') (me_now env))"
  | "st = Inr"
  | login where "mo_bootstrapAdmin o' = Some login" "bootstrap_login login \<noteq> []"
      "st = on_auth (insert_admin (mo_orgId o') (bootstrap_login login))"
  | "st = reapSessions (me_now env)"
  using assms
  by (cases "mo_bootstrapAdmin o'")
    (auto simp: seed_statements_def adoptOrg_def seedOrganization_def ensureLocalUser_def bootstrapAdmin_def split: if_splits)

lemma adopt_Inr:
  assumes "adopt_table org table a = Inr b"
  obtains rows where "\<not> starts_with org ''__''" "map_of (mg_owned a) table = Some rows"
    "b = a\<lparr>mg_owned := map_set table (map (\<lambda>r. if fst r = UNCLAIMED_ORG then (org, snd r) else r) rows) (mg_owned a)\<rparr>"
  using assms by (auto simp: adopt_table_def split: if_splits option.splits)

lemma not_unclaimed: "\<not> starts_with org ''__'' \<Longrightarrow> org \<noteq> UNCLAIMED_ORG"
  by auto

lemma seed_keeps_claimed:
  assumes "st \<in> set (seed_statements env o')" "st a = Inr b" "table_claimed table a"
  shows "table_claimed table b"
  using assms(1)
proof (cases rule: seed_cases)
  case (1 other)
  obtain rows where r: "\<not> starts_with (mo_orgId o') ''__''" "map_of (mg_owned a) other = Some rows"
      "b = a\<lparr>mg_owned := map_set other (map (\<lambda>r. if fst r = UNCLAIMED_ORG then (mo_orgId o', snd r) else r) rows) (mg_owned a)\<rparr>"
    using assms(2) unfolding 1(1) by (rule adopt_Inr)
  show ?thesis using assms(3) r(2) not_unclaimed [OF r(1)] unfolding r(3) by (auto simp: table_claimed_def)
qed (use assms(2,3) in \<open>auto simp: on_auth_Inr table_claimed_def reapSessions_def\<close>)

lemma adopt_claims: "adopt_table org table a = Inr b \<Longrightarrow> table_claimed table b"
proof (erule adopt_Inr)
  fix rows
  assume "\<not> starts_with org ''__''"
    and "b = a\<lparr>mg_owned := map_set table (map (\<lambda>r. if fst r = UNCLAIMED_ORG then (org, snd r) else r) rows) (mg_owned a)\<rparr>"
  then show ?thesis using not_unclaimed [of org] by (auto simp: table_claimed_def split: if_splits)
qed

text \<open>What a statement on the accounts keeps, every statement of the last part keeps.\<close>

lemma seed_keeps_auth:
  assumes "st \<in> set (seed_statements env o')" "st a = Inr b" "P (mg_auth a)"
    and "\<And>x y. seed_org (mo_orgId o') (mo_orgName o') x = Inr y \<Longrightarrow> P x \<Longrightarrow> P y"
    and "\<And>x y. mo_localUser o' \<Longrightarrow> upsert_local_user (me_fresh env) (me_now env) x = Inr y \<Longrightarrow> P x \<Longrightarrow> P y"
    and "\<And>x y. mo_localUser o' \<Longrightarrow> upsert_local_member (mo_orgId o') (me_now env) x = Inr y \<Longrightarrow> P x \<Longrightarrow> P y"
    and "\<And>login x y. mo_bootstrapAdmin o' = Some login \<Longrightarrow> insert_admin (mo_orgId o') (bootstrap_login login) x = Inr y \<Longrightarrow> P x \<Longrightarrow> P y"
    and "\<And>x. P x \<Longrightarrow> P (x\<lparr>db_sessions := sql_delete (\<lambda>s. ss_expires_at s < me_now env) (db_sessions x)\<rparr>)"
  shows "P (mg_auth b)"
  using assms(1)
proof (cases rule: seed_cases)
  case (1 table)
  then have "mg_auth b = mg_auth a" using assms(2) by (auto elim!: adopt_Inr)
  then show ?thesis using assms(3) by simp
qed (use assms(2-) in \<open>auto simp: on_auth_Inr reapSessions_def\<close>)

lemma first_local_keeps:
  assumes "sql_first (has_github_id n) us = Some u"
  shows "\<exists>v. sql_first (has_github_id n) (sql_update p (\<lambda>u. u\<lparr>us_last_login_at := t\<rparr>) us) = Some v \<and> us_id v = us_id u"
  using assms by (induction us) (auto simp: sql_first_def sql_update_def has_github_id_def split: if_splits)

lemma local_admitted_keeps:
  "seed_org org n x = Inr y \<Longrightarrow> local_admitted o' x \<Longrightarrow> local_admitted o' y"
  "upsert_local_user fresh now x = Inr y \<Longrightarrow> local_admitted o' x \<Longrightarrow> local_admitted o' y"
  "insert_admin org l x = Inr y \<Longrightarrow> local_admitted o' x \<Longrightarrow> local_admitted o' y"
  "local_admitted o' x \<Longrightarrow> local_admitted o' (x\<lparr>db_sessions := ss\<rparr>)"
proof -
  show "seed_org org n x = Inr y \<Longrightarrow> local_admitted o' x \<Longrightarrow> local_admitted o' y"
    by (auto simp: seed_org_def local_admitted_def split: if_splits)
  show "insert_admin org l x = Inr y \<Longrightarrow> local_admitted o' x \<Longrightarrow> local_admitted o' y"
    by (fastforce simp: insert_admin_def local_admitted_def split: if_splits)
  show "local_admitted o' x \<Longrightarrow> local_admitted o' (x\<lparr>db_sessions := ss\<rparr>)" by (simp add: local_admitted_def)
  assume up: "upsert_local_user fresh now x = Inr y" "local_admitted o' x"
  then obtain u m where um: "sql_first (has_github_id LOCAL_GITHUB_USER_ID) (db_users x) = Some u" "m \<in> set (db_members x)"
      "in_org o' (us_id u) m"
    by (auto simp: local_admitted_def)
  then have "sql_exists (has_github_id LOCAL_GITHUB_USER_ID) (db_users x)"
    by (auto simp: sql_exists_iff sql_first_def find_Some_iff)
  then show "local_admitted o' y"
    using up(1) um first_local_keeps [OF um(1), of "has_github_id LOCAL_GITHUB_USER_ID" "Some now"]
    by (auto simp: upsert_local_user_def local_admitted_def split: if_splits)
qed

section \<open>A successful attempt\<close>

lemma run_append_Inr:
  assumes "run_statements flt (xs @ ys) db = (Inr u, db')"
  obtains d flt' where "run_statements flt xs db = (Inr (), d)" "run_statements flt' ys d = (Inr u, db')"
  using assms unfolding run_statements_append by (auto split: prod.splits sum.splits)

lemma run_Cons_Inr:
  assumes "run_statements flt (st # sts) db = (Inr u, db')"
  obtains d flt' where "st db = Inr d" "run_statements flt' sts d = (Inr u, db')"
  using assms by (cases "(flt, st # sts, db)" rule: run_statements.cases) (auto split: sum.splits)

lemma local_member_admits:
  assumes "upsert_local_member org now x = Inr y" "sql_first (has_github_id LOCAL_GITHUB_USER_ID) (db_users x) = Some v"
  shows "local_admitted org y"
proof (cases "sql_exists (member_key org LOCAL_LOGIN) (db_members x)")
  case True
  then obtain m where m: "m \<in> set (db_members x)" "member_key org LOCAL_LOGIN m" by (auto simp: sql_exists_iff)
  have y: "y = x\<lparr>db_members := sql_update (member_key org LOCAL_LOGIN) (\<lambda>m. m\<lparr>mb_user_id := Some (us_id v)\<rparr>) (db_members x)\<rparr>"
    using assms True by (simp add: upsert_local_member_def split: if_splits)
  have "m\<lparr>mb_user_id := Some (us_id v)\<rparr> \<in> set (db_members y)" using m by (auto simp: y set_sql_update)
  moreover have "in_org org (us_id v) (m\<lparr>mb_user_id := Some (us_id v)\<rparr>)" using m(2) by (simp add: in_org_def member_key_def)
  ultimately show ?thesis using assms(2) by (auto simp: local_admitted_def y)
next
  case False
  then have "y = x\<lparr>db_members := local_member org (us_id v) now # db_members x\<rparr>"
    using assms by (simp add: upsert_local_member_def split: if_splits)
  then show ?thesis using assms(2) by (auto simp: local_admitted_def in_org_def local_member_def)
qed

lemma ensure_local_admits:
  assumes "run_statements flt (ensureLocalUser org fresh now @ sts) db = (Inr u, db')"
    "\<And>st a b. st \<in> set sts \<Longrightarrow> st a = Inr b \<Longrightarrow> local_admitted org (mg_auth a) \<Longrightarrow> local_admitted org (mg_auth b)"
  shows "local_admitted org (mg_auth db')"
proof -
  obtain f1 f2 d1 d2 where d: "on_auth (upsert_local_user fresh now) db = Inr d1" "on_auth (upsert_local_member org now) d1 = Inr d2"
      and r: "run_statements f2 sts d2 = (Inr u, db')"
    using assms(1) unfolding ensureLocalUser_def append_Cons append_Nil by (meson run_Cons_Inr)
  obtain v where v: "sql_first (has_github_id LOCAL_GITHUB_USER_ID) (db_users (mg_auth d1)) = Some v"
  proof (cases "sql_first (has_github_id LOCAL_GITHUB_USER_ID) (db_users (mg_auth db))")
    case None
    then have "\<not> sql_exists (has_github_id LOCAL_GITHUB_USER_ID) (db_users (mg_auth db))"
      by (auto simp: sql_exists_iff sql_first_def find_None_iff)
    then show ?thesis using d(1) that [of "local_user fresh now"]
      by (auto simp: on_auth_Inr upsert_local_user_def sql_first_def local_user_def has_github_id_def)
  next
    case (Some u)
    then have "sql_exists (has_github_id LOCAL_GITHUB_USER_ID) (db_users (mg_auth db))"
      by (auto simp: sql_exists_iff sql_first_def find_Some_iff)
    then show ?thesis
      using d(1) first_local_keeps [OF Some, of "has_github_id LOCAL_GITHUB_USER_ID" "Some now"] that
      by (auto simp: on_auth_Inr upsert_local_user_def)
  qed
  have "local_admitted org (mg_auth d2)" using d(2) v local_member_admits by (auto simp: on_auth_Inr)
  then show ?thesis
    using run_statements_induct [where P = "\<lambda>d. local_admitted org (mg_auth d)" and flt = f2 and sts = sts and db = d2] assms(2)
    by (simp add: r)
qed

lemma migrate_attempts_cases:
  assumes "migrate_attempts o' tries e db = (Inr (), db')"
  shows "\<exists>env flt d. (env, flt) \<in> set tries \<and> migrate_attempt env o' flt d = (Inr (), db')"
  using assms
proof (induction tries arbitrary: e db)
  case (Cons t tries)
  then show ?case by (cases t) (fastforce split: prod.splits sum.splits)
qed simp

text \<open>The last part of the attempt that came through.\<close>

lemma migrated_seed:
  assumes "migrate o' tries db = (Inr (), db')"
  obtains env flt d where "env \<in> (fst \<circ> tries) ` {..<mo_attempts o'}" "run_statements flt (seed_statements env o') d = (Inr (), db')"
proof -
  obtain env flt d where t: "(env, flt) \<in> set (map tries [0..<mo_attempts o'])" "migrate_attempt env o' flt d = (Inr (), db')"
    using migrate_attempts_cases [OF assms [unfolded migrate_def]] by blast
  have "env \<in> (fst \<circ> tries) ` {..<mo_attempts o'}" 
  proof -
    obtain n where "tries n = (env, flt)" "n < mo_attempts o'" using t(1) by auto
    then show ?thesis by (auto intro!: rev_image_eqI [of n])
  qed
  moreover obtain d' flt' where "run_statements flt' (seed_statements env o') d' = (Inr (), db')"
    using t(2) unfolding migrate_attempt_def attempt_statements_def append_assoc [symmetric] by (rule run_append_Inr)
  ultimately show thesis using that by blast
qed

lemma local_admitted_caller:
  assumes "local_admitted org a" "auth_inv a"
  shows "localCaller org a \<noteq> None"
proof -
  obtain u m where um: "sql_first (has_github_id 0) (db_users a) = Some u" "m \<in> set (db_members a)" "in_org org (us_id u) m"
    using assms(1) by (auto simp: local_admitted_def)
  have "sql_first (in_org org (us_id u)) (db_members a) \<noteq> None" using um(2,3) by (auto simp: sql_first_def find_None_iff)
  moreover have "sql_first (is_user (us_id u)) (db_users a) \<noteq> None"
    using um(1) by (auto simp: sql_first_def find_None_iff find_Some_iff is_user_def) (metis nth_mem)
  ultimately show ?thesis by (auto simp: localCaller_def um(1) memberOf_def)
qed

lemma seed_establishes:
  assumes "run_statements flt (seed_statements env o') d = (Inr (), db')"
  shows "\<forall>table \<in> set ORG_OWNED. table_claimed table db'"
    and "mo_orgId o' \<in> set (db_orgs (mg_auth db'))"
    and "mo_bootstrapAdmin o' = Some login \<Longrightarrow> bootstrap_login login \<notin> {[], LOCAL_LOGIN} \<Longrightarrow> has_real_member (mo_orgId o') (mg_auth db')"
    and "\<forall>s \<in> set (db_sessions (mg_auth db')). me_now env \<le> ss_expires_at s"
    and "mo_localUser o' \<Longrightarrow> local_admitted (mo_orgId o') (mg_auth db')"
proof -
  show "\<forall>table \<in> set ORG_OWNED. table_claimed table db'"
  proof
    fix table assume "table \<in> set ORG_OWNED"
    then have "adopt_table (mo_orgId o') table \<in> set (seed_statements env o')" by (simp add: seed_statements_def adoptOrg_def)
    from run_statements_all [OF assms this] show "table_claimed table db'" using adopt_claims seed_keeps_claimed by metis
  qed
  have "on_auth (seed_org (mo_orgId o') (mo_orgName o')) \<in> set (seed_statements env o')"
    by (simp add: seed_statements_def seedOrganization_def)
  then show "mo_orgId o' \<in> set (db_orgs (mg_auth db'))"
  proof (rule run_statements_all [OF assms])
    show "on_auth (seed_org (mo_orgId o') (mo_orgName o')) a = Inr b \<Longrightarrow> mo_orgId o' \<in> set (db_orgs (mg_auth b))" for a b
      by (auto simp: on_auth_Inr seed_org_def split: if_splits)
    show "st \<in> set (seed_statements env o') \<Longrightarrow> st a = Inr b \<Longrightarrow> mo_orgId o' \<in> set (db_orgs (mg_auth a)) \<Longrightarrow>
        mo_orgId o' \<in> set (db_orgs (mg_auth b))" for st a b
      by (erule (1) seed_keeps_auth [where P = "\<lambda>x. mo_orgId o' \<in> set (db_orgs x)"])
        (auto simp: seed_org_def upsert_local_user_def upsert_local_member_def insert_admin_def split: if_splits option.splits)
  qed
  have reap: "reapSessions (me_now env) \<in> set (seed_statements env o')" by (simp add: seed_statements_def)
  let ?P = "\<lambda>x. \<forall>s \<in> set (db_sessions x). me_now env \<le> ss_expires_at s"
  show "?P (mg_auth db')"
  proof (rule run_statements_all [OF assms reap])
    show "reapSessions (me_now env) a = Inr b \<Longrightarrow> ?P (mg_auth b)" for a b
      by (auto simp: reapSessions_def on_auth_Inr sql_delete_def)
    show "st \<in> set (seed_statements env o') \<Longrightarrow> st a = Inr b \<Longrightarrow> ?P (mg_auth a) \<Longrightarrow> ?P (mg_auth b)" for st a b
      by (erule (1) seed_keeps_auth [where P = ?P])
        (auto simp: seed_org_def upsert_local_user_def upsert_local_member_def insert_admin_def sql_delete_def split: if_splits option.splits)
  qed
  show "has_real_member (mo_orgId o') (mg_auth db')"
    if login: "mo_bootstrapAdmin o' = Some login" "bootstrap_login login \<notin> {[], LOCAL_LOGIN}"
  proof (rule run_statements_all [OF assms])
    have "bootstrap_login [] = []" by code_simp
    then have "login \<noteq> []" using login(2) by auto
    then show "on_auth (insert_admin (mo_orgId o') (bootstrap_login login)) \<in> set (seed_statements env o')"
      using login by (simp add: seed_statements_def bootstrapAdmin_def)
    show "on_auth (insert_admin (mo_orgId o') (bootstrap_login login)) a = Inr b \<Longrightarrow> has_real_member (mo_orgId o') (mg_auth b)" for a b
      using login(2) by (auto simp: on_auth_Inr insert_admin_def has_real_member_def real_member_def member_key_def admin_invite_def sql_exists_iff
          split: if_splits)
    show "st \<in> set (seed_statements env o') \<Longrightarrow> st a = Inr b \<Longrightarrow> has_real_member (mo_orgId o') (mg_auth a) \<Longrightarrow>
        has_real_member (mo_orgId o') (mg_auth b)" for st a b
      by (erule (1) seed_keeps_auth [where P = "has_real_member (mo_orgId o')"])
        (auto simp: has_real_member_def real_member_def seed_org_def upsert_local_user_def upsert_local_member_def insert_admin_def sql_exists_iff
          set_sql_update member_key_def split: if_splits option.splits)
  qed
  show "local_admitted (mo_orgId o') (mg_auth db')" if l: "mo_localUser o'"
  proof -
    let ?rest = "(case mo_bootstrapAdmin o' of None \<Rightarrow> [] | Some login \<Rightarrow> if login = [] then [] else bootstrapAdmin (mo_orgId o') login) @
      [reapSessions (me_now env)]"
    obtain d1 f1 where r: "run_statements f1 (ensureLocalUser (mo_orgId o') (me_fresh env) (me_now env) @ ?rest) d1 = (Inr (), db')"
    proof -
      have "seed_statements env o' = (adoptOrg (mo_orgId o') @ [seedOrganization (mo_orgId o') (mo_orgName o')]) @
          ensureLocalUser (mo_orgId o') (me_fresh env) (me_now env) @ ?rest"
        using l by (simp add: seed_statements_def)
      from assms [unfolded this] show thesis by (rule run_append_Inr) (rule that)
    qed
    show ?thesis
      by (rule ensure_local_admits [OF r])
        (auto simp: bootstrapAdmin_def reapSessions_def on_auth_Inr local_admitted_keeps split: option.splits if_splits)
  qed
qed

section \<open>Migrated databases\<close>

text \<open>
  A database that was migrated is ready to be used. When a migration comes through, whatever attempts failed before, then no row of the
  tables of the organization is left in the namespace of the rows of old, the organization exists, no session is kept that had expired; with a login to
  begin with the organization has a member; and, where there are no accounts, requests find the stand-in to be attributed to.
\<close>

theorem migrated_database_is_ready:
  assumes "migrate o' tries db = (Inr (), db')"
  shows "(\<forall>table \<in> set ORG_OWNED. \<exists>rows. map_of (mg_owned db') table = Some rows \<and> UNCLAIMED_ORG \<notin> fst ` set rows) \<and>
    mo_orgId o' \<in> set (db_orgs (mg_auth db')) \<and>
    (\<exists>n < mo_attempts o'. \<forall>s \<in> set (db_sessions (mg_auth db')). me_now (fst (tries n)) \<le> ss_expires_at s) \<and>
    (\<forall>login. mo_bootstrapAdmin o' = Some login \<and> bootstrap_login login \<notin> {[], LOCAL_LOGIN} \<longrightarrow>
      (\<exists>m \<in> set (db_members (mg_auth db')). real_member (mo_orgId o') m)) \<and>
    (mo_localUser o' \<and> auth_inv (mg_auth db') \<longrightarrow> localCaller (mo_orgId o') (mg_auth db') \<noteq> None)"
proof -
  obtain env flt d where env: "env \<in> (fst \<circ> tries) ` {..<mo_attempts o'}" "run_statements flt (seed_statements env o') d = (Inr (), db')"
    using assms by (rule migrated_seed)
  note e = seed_establishes [OF env(2)]
  have "\<exists>n < mo_attempts o'. \<forall>s \<in> set (db_sessions (mg_auth db')). me_now (fst (tries n)) \<le> ss_expires_at s" using e(4) env(1) by auto
  moreover have "\<forall>login. mo_bootstrapAdmin o' = Some login \<and> bootstrap_login login \<notin> {[], LOCAL_LOGIN} \<longrightarrow>
      (\<exists>m \<in> set (db_members (mg_auth db')). real_member (mo_orgId o') m)"
    using e(3) by (auto simp: has_real_member_def sql_exists_iff)
  moreover have "mo_localUser o' \<and> auth_inv (mg_auth db') \<longrightarrow> localCaller (mo_orgId o') (mg_auth db') \<noteq> None"
    using e(5) local_admitted_caller by blast
  ultimately show ?thesis using e(1,2) by (simp add: table_claimed_def)
qed

section \<open>What becomes of the accounts\<close>

definition real_members :: "auth_db \<Rightarrow> member_row list" where
  "real_members a = filter (\<lambda>m. mb_github_login m \<noteq> LOCAL_LOGIN) (db_members a)"

definition real_users :: "auth_db \<Rightarrow> user_row list" where
  "real_users a = filter (\<lambda>u. us_github_user_id u \<noteq> LOCAL_GITHUB_USER_ID) (db_users a)"

definition invites :: "MigrateOptions \<Rightarrow> auth_db \<Rightarrow> auth_db \<Rightarrow> bool" where
  "invites o' a b \<longleftrightarrow>
     (\<exists>login. mo_bootstrapAdmin o' = Some login \<and> bootstrap_login login \<notin> {[], LOCAL_LOGIN} \<and> \<not> has_real_member (mo_orgId o') a \<and>
        real_members b = admin_invite (mo_orgId o') (bootstrap_login login) # real_members a)"

definition admits :: "MigrateOptions \<Rightarrow> auth_db \<Rightarrow> auth_db \<Rightarrow> bool" where
  "admits o' a b \<longleftrightarrow> (real_members b = real_members a \<or> invites o' a b) \<and> real_users b = real_users a \<and>
     set (db_sessions b) \<subseteq> set (db_sessions a) \<and> db_workers b = db_workers a"

lemma has_real_iff: "has_real_member org a \<longleftrightarrow> (\<exists>m \<in> set (real_members a). mb_org_id m = org)"
  by (auto simp: has_real_member_def real_members_def real_member_def sql_exists_iff)

lemma admits_refl: "admits o' a a"
  by (simp add: admits_def)

lemma admits_trans: "admits o' a b \<Longrightarrow> admits o' b c \<Longrightarrow> admits o' a c"
  by (auto simp: admits_def invites_def has_real_iff admin_invite_def)

lemma real_update:
  "(\<And>r. p r \<Longrightarrow> \<not> q r \<and> \<not> q (f r)) \<Longrightarrow> filter q (sql_update p f t) = filter q t"
  by (induction t) (auto simp: sql_update_def)

lemma local_user_admits:
  assumes "upsert_local_user fresh now x = Inr y" shows "admits o' x y"
proof -
  have "filter (\<lambda>u. us_github_user_id u \<noteq> 0) (sql_update (has_github_id 0) (\<lambda>u. u\<lparr>us_last_login_at := Some now\<rparr>) (db_users x)) =
      filter (\<lambda>u. us_github_user_id u \<noteq> 0) (db_users x)"
    by (rule real_update) (simp add: has_github_id_def)
  then show ?thesis using assms
    by (auto simp: upsert_local_user_def admits_def real_members_def real_users_def local_user_def split: if_splits)
qed

lemma local_member_admits_none:
  assumes "upsert_local_member org now x = Inr y" shows "admits o' x y"
proof -
  have "filter (\<lambda>m. mb_github_login m \<noteq> LOCAL_LOGIN) (sql_update (member_key org LOCAL_LOGIN) (\<lambda>m. m\<lparr>mb_user_id := i\<rparr>) (db_members x)) =
      filter (\<lambda>m. mb_github_login m \<noteq> LOCAL_LOGIN) (db_members x)" for i
    by (rule real_update) (simp add: member_key_def)
  then show ?thesis using assms
    by (auto simp: upsert_local_member_def admits_def real_members_def real_users_def local_member_def split: if_splits option.splits)
qed

lemma insert_admin_admits:
  assumes "insert_admin (mo_orgId o') (bootstrap_login login) x = Inr y" "mo_bootstrapAdmin o' = Some login" "bootstrap_login login \<noteq> []"
  shows "admits o' x y"
proof (cases "y = x")
  case False
  then have y: "\<not> has_real_member (mo_orgId o') x"
      "y = x\<lparr>db_members := admin_invite (mo_orgId o') (bootstrap_login login) # db_members x\<rparr>"
    using assms(1) by (auto simp: insert_admin_def has_real_member_def split: if_splits)
  have "real_members y = (if bootstrap_login login = LOCAL_LOGIN then real_members x
      else admin_invite (mo_orgId o') (bootstrap_login login) # real_members x)"
    by (simp add: real_members_def y(2) admin_invite_def)
  then show ?thesis using y(1) assms(2,3) by (simp add: admits_def invites_def real_users_def y(2))
qed (simp add: admits_refl)

lemma seed_admits:
  assumes "st \<in> set (seed_statements env o')" "st a = Inr b" shows "admits o' (mg_auth a) (mg_auth b)"
  using assms(1)
proof (cases rule: seed_cases)
  case (1 table)
  then have "mg_auth b = mg_auth a" using assms(2) by (auto elim!: adopt_Inr)
  then show ?thesis by (simp add: admits_refl)
next
  case 2
  then show ?thesis using assms(2)
    by (auto simp: on_auth_Inr seed_org_def admits_def real_members_def real_users_def split: if_splits)
next
  case 7
  then show ?thesis using assms(2)
    by (auto simp: on_auth_Inr reapSessions_def admits_def real_members_def real_users_def sql_delete_def)
qed (use assms(2) local_user_admits local_member_admits_none insert_admin_admits admits_refl in \<open>auto simp: on_auth_Inr\<close>)

definition leaves_accounts :: "mig_env \<Rightarrow> bool" where
  "leaves_accounts env \<longleftrightarrow> (\<forall>sql a b. me_run_sql env sql a = Inr b \<longrightarrow> mg_auth b = mg_auth a)"

lemma attempt_admits:
  assumes "leaves_accounts env" "st \<in> set (attempt_statements env o' applied)" "st a = Inr b"
  shows "admits o' (mg_auth a) (mg_auth b)"
proof (cases "st \<in> set (seed_statements env o')")
  case False
  then consider "st = Inr" | "st = forget_repeatable" | f where "st \<in> set (apply_file env applied f)"
    using assms(2) by (auto simp: attempt_statements_def)
  then have "mg_auth b = mg_auth a"
    by cases (use assms(1,3) in \<open>auto simp: forget_repeatable_def apply_file_def record_version_def leaves_accounts_def split: if_splits\<close>)
  then show ?thesis by (simp add: admits_refl)
qed (use seed_admits assms(3) in blast)

lemma migrate_attempts_rel:
  assumes "\<And>a. R a a" "\<And>a b c. R a b \<Longrightarrow> R b c \<Longrightarrow> R a c"
  shows "(\<forall>t \<in> set ts. \<forall>applied st a b. st \<in> set (attempt_statements (fst t) o' applied) \<longrightarrow> st a = Inr b \<longrightarrow> R a b) \<Longrightarrow>
    R db (snd (migrate_attempts o' ts e db))"
proof (induction ts arbitrary: e db)
  case (Cons t ts)
  obtain env flt where t: "t = (env, flt)" by (cases t)
  have step: "st \<in> set (attempt_statements env o' applied) \<Longrightarrow> st a = Inr b \<Longrightarrow> R a b" for applied st a b
    using Cons.prems by (simp add: t)
  have first: "R db (snd (migrate_attempt env o' flt db))"
    unfolding migrate_attempt_def by (rule run_statements_rel [where R = R]) (use step assms in blast)+
  have "R d (snd (migrate_attempts o' ts e' d))" for e' d using Cons.IH Cons.prems by simp
  then show ?case using first assms(2) by (auto simp: t split: prod.splits sum.splits)
qed (simp add: assms(1))

lemma migrate_rel:
  assumes "\<And>n applied st a b. st \<in> set (attempt_statements (fst (tries n)) o' applied) \<Longrightarrow> st a = Inr b \<Longrightarrow> R a b"
    "\<And>a. R a a" "\<And>a b c. R a b \<Longrightarrow> R b c \<Longrightarrow> R a c"
  shows "R db (snd (migrate o' tries db))"
  unfolding migrate_def by (rule migrate_attempts_rel [where R = R]) (use assms in auto)

text \<open>
  A migration lets nobody in but the first administrator. However many attempts it takes and wherever they fail, the accounts are those
  there were, but for the stand-in's; no session or worker's token is added; and the members are those there were, but that an organization that has none gets an
  invite for the login to begin with, unclaimed. One that has a member gets none, so that whoever was removed stays removed.
\<close>

theorem migration_admits_only_the_first:
  assumes "\<forall>n. leaves_accounts (fst (tries n))"
  shows "let a = mg_auth db; b = mg_auth (snd (migrate o' tries db)) in
    (real_members b = real_members a \<or>
     (\<exists>login. mo_bootstrapAdmin o' = Some login \<and> bootstrap_login login \<notin> {[], LOCAL_LOGIN} \<and>
        \<not> (\<exists>m \<in> set (db_members a). real_member (mo_orgId o') m) \<and>
        real_members b = admin_invite (mo_orgId o') (bootstrap_login login) # real_members a)) \<and>
    real_users b = real_users a \<and> set (db_sessions b) \<subseteq> set (db_sessions a) \<and> db_workers b = db_workers a"
proof -
  have "admits o' (mg_auth db) (mg_auth (snd (migrate o' tries db)))"
    by (rule migrate_rel [where R = "\<lambda>a b. admits o' (mg_auth a) (mg_auth b)"])
      (use assms attempt_admits admits_refl admits_trans in blast)+
  then show ?thesis by (simp add: admits_def invites_def has_real_member_def sql_exists_iff Let_def)
qed

section \<open>The first administrator\<close>

definition members_in :: "string \<Rightarrow> auth_db \<Rightarrow> member_row list" where
  "members_in org a = filter (\<lambda>m. mb_org_id m = org) (db_members a)"

definition first_invite :: "MigrateOptions \<Rightarrow> string \<Rightarrow> auth_db \<Rightarrow> bool" where
  "first_invite o' login a \<longleftrightarrow>
     members_in (mo_orgId o') a = [] \<or> members_in (mo_orgId o') a = [admin_invite (mo_orgId o') (bootstrap_login login)]"

lemma first_invite_keeps:
  assumes "leaves_accounts env" "\<not> mo_localUser o'" "mo_bootstrapAdmin o' = Some login" "st \<in> set (attempt_statements env o' applied)" "st a = Inr b"
    "first_invite o' login (mg_auth a)"
  shows "first_invite o' login (mg_auth b)"
proof (cases "st \<in> set (seed_statements env o')")
  case True
  then show ?thesis
  proof (rule seed_keeps_auth [where P = "first_invite o' login"])
    show "first_invite o' login y"
      if "mo_bootstrapAdmin o' = Some l" "first_invite o' login x" and ins: "insert_admin (mo_orgId o') (bootstrap_login l) x = Inr y" for l x y
    proof (cases "y = x")
      case False
      then have y: "\<not> sql_exists (member_key (mo_orgId o') (bootstrap_login l)) (db_members x)"
          "y = x\<lparr>db_members := admin_invite (mo_orgId o') (bootstrap_login l) # db_members x\<rparr>"
        using ins by (auto simp: insert_admin_def split: if_splits)
      have "admin_invite (mo_orgId o') (bootstrap_login l) \<notin> set (db_members x)"
        using y(1) by (auto simp: sql_exists_iff member_key_def admin_invite_def)
      then have "members_in (mo_orgId o') x \<noteq> [admin_invite (mo_orgId o') (bootstrap_login l)]"
        by (auto simp: members_in_def filter_eq_Cons_iff)
      then show ?thesis using that(2) assms(3) that(1) by (auto simp: first_invite_def members_in_def y(2) admin_invite_def)
    qed (use that in simp)
  qed (use assms in \<open>auto simp: first_invite_def members_in_def seed_org_def split: if_splits\<close>)
next
  case False
  then consider "st = Inr" | "st = forget_repeatable" | f where "st \<in> set (apply_file env applied f)"
    using assms(4) by (auto simp: attempt_statements_def)
  then have "mg_auth b = mg_auth a"
    by cases (use assms(1,5) in \<open>auto simp: forget_repeatable_def apply_file_def record_version_def leaves_accounts_def split: if_splits\<close>)
  then show ?thesis using assms(6) by simp
qed

lemma filter_sql_update: "(\<And>r. q (f r) = q r) \<Longrightarrow> filter q (sql_update p f t) = sql_update p f (filter q t)"
  by (induction t) (auto simp: sql_update_def)

lemma first_among: "(\<And>r. p r \<Longrightarrow> q r) \<Longrightarrow> sql_first p t = sql_first p (filter q t)"
  by (induction t) (auto simp: sql_first_def)

lemma upsert_user_accepts:
  assumes "pg_text (gi_login g)" "opt_ok pg_text (gi_displayName g)" "opt_ok pg_text (gi_avatarUrl g)" "pg_int8 (gi_githubUserId g)"
  obtains i a' where "upsert_user fresh now g a = (Inr i, a')" "i \<in> us_id ` set (db_users a')" "db_members a' = db_members a"
proof (cases "sql_first (has_github_id \<lfloor>gi_githubUserId g\<rfloor>) (db_users a)")
  case None
  then show ?thesis using assms that by (simp add: upsert_user_def Let_def user_of_identity_def)
next
  case (Some u)
  have "u \<in> set (db_users a)" using Some by (auto simp: sql_first_def find_Some_iff)
  then have "us_id u \<in> us_id ` set (sql_update (has_github_id \<lfloor>gi_githubUserId g\<rfloor>) (relabel now g) (db_users a))"
    by (simp add: ids_sql_update)
  then show ?thesis using assms Some that by (simp add: upsert_user_def Let_def)
qed

lemma lone_invite_claimed:
  assumes "members_in org a = [m]" "mb_user_id m = None" "mb_github_login m = login" "mb_org_id m = org" "i \<in> us_id ` set (db_users a)"
  shows "\<exists>u. memberOf i org (claim_invites i login now a) = Some (toCaller u (claim_member i now m))"
proof -
  have "\<not> sql_exists (in_org org i) (db_members a)"
  proof
    assume "sql_exists (in_org org i) (db_members a)"
    then obtain q where "q \<in> set (members_in org a)" "mb_user_id q = Some i" by (auto simp: sql_exists_iff in_org_def members_in_def)
    then show False using assms(1,2) by simp
  qed
  then have claimable: "claimable_invite i login (db_members a) m" using assms(2-4) by (simp add: claimable_invite_def)
  have "members_in org (claim_invites i login now a) = [claim_member i now m]"
    using assms(1) claimable
    by (simp add: members_in_def claim_invites_def filter_sql_update claim_member_def) (simp add: sql_update_def claim_member_def)
  moreover have "in_org org i (claim_member i now m)" using assms(4) by (simp add: in_org_def claim_member_def)
  ultimately have "sql_first (in_org org i) (db_members (claim_invites i login now a)) = Some (claim_member i now m)"
    using first_among [of "in_org org i" "\<lambda>m. mb_org_id m = org" "db_members (claim_invites i login now a)"]
    by (simp add: in_org_def members_in_def sql_first_def)
  moreover have "sql_first (is_user i) (db_users (claim_invites i login now a)) \<noteq> None"
    using assms(5) by (auto simp: claim_invites_def sql_first_def find_None_iff is_user_def)
  ultimately show ?thesis by (auto simp: memberOf_def)
qed

text \<open>
  A new deployment can be entered. Where a database whose organization has no member was migrated, with accounts and a login to begin with, then
  whoever signs in at GitHub under that login, in whatever case it is written, is let in, as an administrator.
\<close>

theorem first_administrator_gets_in:
  assumes "migrate o' tries db = (Inr (), db')" "\<forall>n. leaves_accounts (fst (tries n))" "\<not> mo_localUser o'"
    and "mo_bootstrapAdmin o' = Some login" "bootstrap_login login \<notin> {[], LOCAL_LOGIN}"
    and "\<forall>m \<in> set (db_members (mg_auth db)). mb_org_id m \<noteq> mo_orgId o'"
    and "js_lower (gi_login g) = bootstrap_login login" "pg_text (gi_login g)" "opt_ok pg_text (gi_displayName g)" "opt_ok pg_text (gi_avatarUrl g)"
      "pg_int8 (gi_githubUserId g)"
  shows "\<exists>caller. fst (signIn fresh now g (mo_orgId o') autoJoin (mg_auth db')) = Inr (Some caller) \<and> cr_role caller = RAdmin"
proof -
  let ?m = "admin_invite (mo_orgId o') (bootstrap_login login)"
  have "first_invite o' login (mg_auth db) \<longrightarrow> first_invite o' login (mg_auth (snd (migrate o' tries db)))"
    by (rule migrate_rel [where R = "\<lambda>a b. first_invite o' login (mg_auth a) \<longrightarrow> first_invite o' login (mg_auth b)"])
      (use assms(2-4) first_invite_keeps in blast)+
  moreover have "first_invite o' login (mg_auth db)" using assms(6) by (simp add: first_invite_def members_in_def filter_empty_conv)
  ultimately have "first_invite o' login (mg_auth db')" using assms(1) by simp
  moreover obtain env flt d where "run_statements flt (seed_statements env o') d = (Inr (), db')"
    using migrated_seed [OF assms(1)] by metis
  from seed_establishes(3) [OF this assms(4,5)] have "members_in (mo_orgId o') (mg_auth db') \<noteq> []"
    by (auto simp: has_real_member_def sql_exists_iff real_member_def members_in_def filter_empty_conv)
  ultimately have lone: "members_in (mo_orgId o') (mg_auth db') = [?m]" by (auto simp: first_invite_def)
  obtain i a where a: "upsert_user fresh now g (mg_auth db') = (Inr i, a)" "i \<in> us_id ` set (db_users a)" "db_members a = db_members (mg_auth db')"
    using upsert_user_accepts assms(8-11) by metis
  have "members_in (mo_orgId o') a = [?m]" using lone a(3) by (simp add: members_in_def)
  then obtain u where "memberOf i (mo_orgId o') (claim_invites i (bootstrap_login login) now a) = Some (toCaller u (claim_member i now ?m))"
    using lone_invite_claimed [of "mo_orgId o'" a ?m "bootstrap_login login" i now] a(2) by (auto simp: admin_invite_def)
  then show ?thesis
    by (simp add: signIn_def a(1) assms(7) Let_def toCaller_def claim_member_def admin_invite_def)
qed

text \<open>An empty database, the first attempt of which meets a database that is not up yet.\<close>

definition example_env :: mig_env where
  "example_env = \<lparr>me_directory = [(''001_init.sql'', ''x'')], me_run_sql = (\<lambda>sql. Inr), me_now = 9, me_fresh = ''u1''\<rparr>"

definition example_options :: MigrateOptions where
  "example_options = \<lparr>mo_orgId = ''acme'', mo_orgName = ''Acme'', mo_bootstrapAdmin = Some '' Ann '', mo_localUser = False, mo_attempts = 2\<rparr>"

definition example_database :: mig_db where
  "example_database = \<lparr>mg_applied = [], mg_owned = map (\<lambda>t. (t, [(UNCLAIMED_ORG, ''k'')])) ORG_OWNED,
     mg_auth = \<lparr>db_orgs = [], db_users = [], db_members = [], db_sessions = [], db_workers = []\<rparr>\<rparr>"

abbreviation example_tries :: "nat \<Rightarrow> mig_env \<times> (nat \<times> string) option" where
  "example_tries n \<equiv> (example_env, if n = 0 then Some (0, ''down'') else None)"

lemma example_migrated: "\<not> isl (fst (migrate example_options example_tries example_database))"
  by code_simp

lemma first_administrator_example:
  "\<exists>db' caller. migrate example_options example_tries example_database = (Inr (), db') \<and>
     fst (signIn ''u2'' 5 \<lparr>gi_githubUserId = 7, gi_login = ''ANN'', gi_displayName = None, gi_avatarUrl = None\<rparr> ''acme'' False (mg_auth db')) =
       Inr (Some caller) \<and> cr_role caller = RAdmin"
proof -
  let ?g = "\<lparr>gi_githubUserId = 7, gi_login = ''ANN'', gi_displayName = None, gi_avatarUrl = None\<rparr>"
  obtain db' where db': "migrate example_options example_tries example_database = (Inr (), db')"
    using example_migrated by (cases "migrate example_options example_tries example_database"; cases "fst (migrate example_options example_tries example_database)") auto
  have "bootstrap_login '' Ann '' \<notin> {[], LOCAL_LOGIN} \<and> js_lower (gi_login ?g) = bootstrap_login '' Ann '' \<and> pg_text (gi_login ?g) \<and>
      opt_ok pg_text (gi_displayName ?g) \<and> opt_ok pg_text (gi_avatarUrl ?g) \<and> pg_int8 (gi_githubUserId ?g)"
    by code_simp
  then show ?thesis
    using first_administrator_gets_in [OF db', of "'' Ann ''" ?g "''u2''" 5 False] db'
    by (simp add: example_options_def example_env_def example_database_def leaves_accounts_def)
qed

end
