(* ===== verification/Spec2Isabelle.thy ===== *)
theory Spec2Isabelle
  imports JobTheorems CoreTheorems DriverTheorems AuthTheorems WorkspaceTheorems LiveSync SplitTheorems AppTheorems MigrateTheorems
begin

text \<open>
  A verification development of factory-ai: a dashboard that measures an AI-heavy delivery process, with a
  job board that hands commands to workers, the driver that runs them in containers, and the members'
  checkouts they run in. This theory holds the documentation and the properties that span components.

  \<^bold>\<open>The program and its parts.\<close> \<open>core/\<close> turns pull requests and telemetry into figures, with no I/O.
  \<open>server/\<close> is a Fastify API over PostgreSQL: it loads its configuration from the environment, signs members
  in through GitHub, asks every request for the credential its path needs, keeps the job board, and clones
  the repositories members select. For the dashboard it walks the pull requests of the organization's repositories at GitHub, keeps them in the database
  with a watermark for each repository, and serves the figures last computed while the next sync runs. It takes in the telemetry of coding sessions, from
  exporters, from a hook that reports their branches and from transcripts, and divides it among the branches. \<open>driver/\<close> polls the board, runs each job in a
  container that starts in the author's directory, keeps its lease alive and reports. They meet at four places: the HTTP routes of the board, which the driver's client calls; the table
  of memberships, which the wall reads on every request; the tables of pull requests, which a sync writes and the next one starts from; and the directory
  \<open><root>/<org>/<user>/<repo>\<close>, which the server's queue fills and the driver mounts.

  \<^bold>\<open>Theories and the code they model.\<close>
  \<^item> \<open>Prelude\<close>: JavaScript strings, maps and sets, and SQL statements over a table as a list of rows (\<open>sql_update\<close>,
    \<open>sql_exists\<close>, \<dots>); \<open>Tables\<close>: inserts with a conflict clause, the interface \<open>conflict_table\<close> that every table with one is an instance of, and
    sequences of statements any of which may be refused; \<open>JsDate\<close>: dates; \<open>Http\<close>: JSON, replies and \<open>routes/helpers.ts\<close>; \<open>Env\<close>: reading the
    environment; \<open>Fetch\<close>: requests a client makes; \<open>NodePath\<close>, \<open>FileSystem\<close>: what is used of \<open>node:path\<close> and \<open>node:fs\<close>.
  \<^item> \<open>Canonical\<close>, \<open>Metrics\<close>, \<open>DateRange\<close>, \<open>Telemetry\<close>: \<open>core/src/\<close>; \<open>IsoWeek\<close>, \<open>WeekSeries\<close>, \<open>MetricsFacts\<close> their
    facts and \<open>CoreTheorems\<close> their properties.
  \<^item> \<open>JobStore\<close>: \<open>server/src/db/job-store.ts\<close>; \<open>JobBoard\<close>, \<open>JobFence\<close>, \<open>JobLife\<close>: its invariant, leases as fencing tokens, and the
    abstract protocol it refines; \<open>JobRoutes\<close>: \<open>routes/jobs.ts\<close>; \<open>JobTheorems\<close>.
  \<^item> \<open>DriverConfig\<close>, \<open>BoardClient\<close>, \<open>Docker\<close>, \<open>DriverLoop\<close>: \<open>driver/src/config.ts\<close>, \<open>board.ts\<close>, \<open>docker.ts\<close>, \<open>loop.ts\<close>;
    \<open>DriverFacts\<close>, \<open>DriverTheorems\<close>.
  \<^item> \<open>ServerConfig\<close>: \<open>server/src/config.ts\<close>; \<open>Session\<close>, \<open>AuthStore\<close>, \<open>OAuthClient\<close>, \<open>AuthPlugin\<close>: \<open>server/src/auth/\<close>;
    \<open>AuthRoutes\<close>: \<open>routes/auth.ts\<close>; \<open>AuthFacts\<close>, \<open>AuthTheorems\<close>.
  \<^item> \<open>Workspace\<close>: \<open>workspace/provision.ts\<close>, \<open>workspace/reconcile.ts\<close> and the sweep; \<open>RepoStore\<close>: \<open>db/user-repo-store.ts\<close>,
    \<open>db/user-executor-store.ts\<close>; \<open>CloneQueue\<close>: \<open>workspace/queue.ts\<close>; \<open>FactsCache\<close>: \<open>workspace/facts.ts\<close>; \<open>WorkspaceRoutes\<close>:
    \<open>routes/workspace.ts\<close>; \<open>QueueFacts\<close>, \<open>RepoFacts\<close>, \<open>CloneFacts\<close>, \<open>WorkspaceTheorems\<close>.
  \<^item> \<open>Forge\<close>: \<open>server/src/forge.ts\<close> and the slot of \<open>cache.ts\<close>; \<open>RepoSource\<close>: the list of repositories of \<open>github/repo-source.ts\<close>;
    \<open>PrStore\<close>: \<open>db/pr-store.ts\<close>, with \<open>PrFacts\<close> and \<open>PrTheorems\<close>.
  \<^item> \<open>GithubMap\<close>: \<open>github/schema.ts\<close>, \<open>map.ts\<close>, \<open>errors.ts\<close>; \<open>GithubClient\<close>: \<open>github/client.ts\<close>; \<open>GithubFacts\<close>, \<open>GithubTheorems\<close>.
  \<^item> \<open>StatsSync\<close>, \<open>StatsService\<close>: \<open>stats-service.ts\<close>, what a sync decides and writes, and the points between its awaits; \<open>StatsPage\<close>: what a
    request is answered and \<open>routes/stats.ts\<close>; \<open>StatsFacts\<close>, \<open>StatsTheorems\<close>, \<open>SyncTheorems\<close> (the watermarks), \<open>WalkTheorems\<close> (where a
    walk starts, and the rates of a range); \<open>LiveSync\<close>: the client, the service and the store together.
  \<^item> \<open>Otlp\<close>: \<open>telemetry/metric-map.ts\<close>, \<open>otlp.ts\<close>; \<open>TelemetryStore\<close>: \<open>telemetry/store.ts\<close>, \<open>routes/ingest.ts\<close>; \<open>TelemetryClient\<close>: the views of
    \<open>migrations/002_views.repeatable.sql\<close>, \<open>telemetry/postgres-client.ts\<close>, \<open>client.ts\<close>, \<open>errors.ts\<close>, \<open>fixture-client.ts\<close>; \<open>Transcripts\<close>:
    \<open>backfill/transcripts.ts\<close>; \<open>TelemetryFacts\<close> (what an export is flattened to, a retried export), \<open>SliceFacts\<close> (the slices of a session do not overlap),
    \<open>IntakeFacts\<close> (sequences of intakes), \<open>TelemetryTheorems\<close>, and \<open>SplitTheorems\<close> (how a session is divided among its branches).
  \<^item> \<open>AppToken\<close>, \<open>AppClient\<close>: \<open>github/app-token.ts\<close>, \<open>app-client.ts\<close>, \<open>routes/repos.ts\<close>, \<open>routes/health.ts\<close>; \<open>AppTheorems\<close>. \<open>Migrate\<close>:
    \<open>db/migrate.ts\<close>; \<open>MigrateTheorems\<close>.

  \<^bold>\<open>How state and operations correspond.\<close> A table of the database is the list of its rows, a record with the columns of
  the migration; one statement is one atomic step, and a method of several statements runs them in order.
  What the database supplies (\<open>now()\<close>, \<open>gen_random_uuid()\<close>, the rows other transactions hold) is an argument; a
  statement it refuses yields \<open>Inl\<close> of its message, and a route turns that into the reply the code sends. A
  handler takes the request and the state and gives the reply and the state after it. What runs
  concurrently (a container's run, an attempt, the polling loop, the clone queue) is a state machine whose events are the answers of its
  awaits, so that every interleaving of them is a sequence of events. Two simplifications: a clone on disk is one step of its queue, and no
  removal of a directory fails. Strings are lists of code units below
  256; numbers are exact; a uuid is its lower-case text; instants of the database are microseconds.

  \<^bold>\<open>What the lemmas show.\<close> Of the job board: its invariant, that a worker whose lease was taken over can no longer write, which job a claim
  takes, the bound on attempts, the refinement of an abstract lease protocol, that an ended job is final, parking and resuming, the isolation of
  organizations, that refused requests keep every job that is not exhausted. Of the figures: weeks and series, totals that add up, attribution that counts
  everything once. Of the driver: a container that starts in its author's directory (the whole workspace volume is mounted, as the documentation
  says), true reports made once, attempts that reach their end, a loop within its bounds; here, the driver and the board over the wire. Of the server: configuration, sign-in, membership and the wall. Of the checkouts: where a
  clone writes, what a selection means, the queue's slots and that it works itself off on its own timer. Of the pull requests: a save deletes nothing its fetch did not
  list in full, and what was saved is read back in a normal form. Of the statistics: the state is well formed under every
  interleaving, a sync ends, figures once served stay, a reported failure cools down, a watermark follows the walk, a walk reaches back far enough whichever of its reads
  are refused, a fetch brings every change, and together: a sync from the watermarks stores whatever a walk of everything would have, the reviews, threads,
  commits and labels included. Of the telemetry: only allowed metrics and attributes are stored, exports and imports may be repeated, and the branches of a
  session share no more than the session did; where that fails is shown by examples (\<open>two_repos_one_branch_doubled\<close>, \<open>totals_of_two_models\<close>). Of the App's
  credentials: \<open>served_tokens_are_fresh\<close> and \<open>installation_list_is_complete\<close>. Of a migration: \<open>migrated_database_is_ready\<close>,
  \<open>migration_admits_only_the_first\<close> and \<open>first_administrator_gets_in\<close>.

  \<^bold>\<open>Bounds and fuel.\<close> Loops are structural recursion or have a measure; the only fuel is that of
  \<open>schedule\<close> (\<open>CloneQueue\<close>), given as \<open>queue_work\<close>, a measure every event of the schedule lowers, so it never
  runs out before the work is done. The page loop of a walk has no bound in the code, so \<open>walk_pages\<close> is a partial function;
  \<open>fetch_brings_every_change\<close> shows that it ends on what GitHub serves in pages. An event of the schedule is the answer of a clone or a pass, or the tick of
  the timer, which does nothing unless the queue armed it. Bounds of the code (65536 characters of output, leases of 1 to 3600 seconds, twenty
  repositories, fifty inner pages, three attempts at a request) are its own constants.

  \<^bold>\<open>Parameters.\<close> \<open>JSON.parse\<close>, \<open>JSON.stringify\<close>, \<open>new URL\<close>, digests, random bytes, \<open>fetch\<close>, \<open>git\<close> and \<open>docker\<close> are
  arguments of the definitions that use them, with no law assumed but where a property names it
  (\<open>git_confined\<close>: git writes only at or below the directory it is given; injectivity of a digest is never assumed). So are the
  language's printing of a number (\<open>num_text\<close>), what the database driver makes of a parameter that is no text, what a line of a transcript parses to, and what
  git names as the origin of a directory. A figure that is no finite number is \<open>None\<close> once it leaves for \<open>core/\<close>. GitHub is a state with
  an answer to each query (\<open>github_api\<close>); \<open>github_serves\<close> says that it hands out a listing in pages, in the order asked for.

  \<^bold>\<open>Not modelled.\<close> \<open>seed/\<close> and \<open>admin/\<close> are operator tools; \<open>app.ts\<close> and the two \<open>index.ts\<close> wire the parts together; \<open>web/\<close> renders what
  the routes answer. What the migrations' SQL does to a database is a parameter; the constraints it declares are part of the stores.
\<close>

section \<open>The driver and the board\<close>

text \<open>One request of the driver reaches the handler, and the handler's reply is what comes back.\<close>

definition carried :: "reply \<times> 's \<Rightarrow> (string + http_response) \<times> 's" where
  "carried x = (Inr \<lparr>hr_status = code (fst x), hr_text = [], hr_json = payload (fst x)\<rparr>, snd x)"

definition serve_claim :: "job_ctx \<Rightarrow> job_table fetch" where
  "serve_claim ctx rq t = carried (post_claim ctx (hq_body rq) t)"

definition serve_complete :: "job_ctx \<Rightarrow> string \<Rightarrow> job_table fetch" where
  "serve_complete ctx i rq t = carried (post_complete ctx i (hq_body rq) t)"

lemma is_workspace_path_of:
  assumes "is_org_id org" "is_uuid u"
  shows "is_workspace_path (org @ ''/'' @ u)"
proof -
  have lower: "is_lower c \<Longrightarrow> lower_char c = c" for c by (auto simp: is_lower_def lower_char_def)
  have org: "CHR ''/'' \<notin> set org" using plain_org [OF assms(1)] by (simp add: plain_segment_def)
  then have half: "takeWhile (\<lambda>c. c \<noteq> CHR ''/'') (org @ ''/'' @ u) = org"
    by (subst takeWhile_append2) auto
  moreover have "org_half org"
    using assms(1) by (auto simp: is_org_id_def org_half_def is_alnum_i_def lower list_all_iff split: list.splits)
  ultimately show ?thesis using assms(2) by (simp add: is_workspace_path_def Let_def)
qed

lemma leaseSeconds_int: "1 \<le> n \<Longrightarrow> n \<le> 3600 \<Longrightarrow> leaseSeconds (Some (JNum (of_int n))) = Some n"
  by (simp add: leaseSeconds_def absent_def is_integer_def)

lemma read_claim_json:
  "read_claim (claim_json c) =
     \<lparr>bj_id = cl_id c, bj_command = cl_command c, bj_attempts = of_int (cl_attempts c), bj_leaseToken = cl_leaseToken c,
      bj_leaseExpiresAt = cl_leaseExpiresAt c, bj_resumeSessionId = cl_resumeSessionId c, bj_userId = cl_userId c,
      bj_workspacePath = cl_workspacePath c\<rparr>"
  by (simp add: read_claim_def claim_json_def body_def text_member_def str_member_def member_of_def json_opt_def
      split: option.splits)

text \<open>
  C19: The driver gets the job the board took: over the wire, a claim yields nothing exactly when the board
  took nothing, and otherwise the job of the row the board leased, with its command, its token, its session and the
  author's checkouts as the directory to mount, whenever the board has workspaces and the job has an author.
\<close>

theorem driver_gets_the_claimed_job:
  assumes "is_org_id (jc_org ctx)" "\<forall>r \<in> set t. \<forall>u. jr_created_by r = Some u \<longrightarrow> is_uuid u"
    "1 \<le> bo_leaseSeconds opts" "bo_leaseSeconds opts \<le> 3600" "jc_down ctx = None"
    "js_trim worker \<noteq> []" "length worker \<le> 128" "pg_text worker"
  shows "case take_job (jc_org ctx) worker (jc_uuid ctx) (jc_now ctx) (bo_leaseSeconds opts) (jc_locked ctx)
      (retire (jc_org ctx) (jc_now ctx) t) of
     (None, t') \<Rightarrow> board_claim opts (serve_claim ctx) worker t = (Inr None, t')
   | (Some row, t') \<Rightarrow>
       (\<exists>job. board_claim opts (serve_claim ctx) worker t = (Inr (Some job), t') \<and>
         bj_id job = jr_id row \<and> bj_command job = jr_command row \<and> bj_attempts job = of_int (jr_attempts row) \<and>
         bj_leaseToken job = jc_uuid ctx \<and> bj_resumeSessionId job = jr_session_id row \<and> bj_userId job = jr_created_by row \<and>
         workspacePathOf job =
           (if jc_workspaces ctx then map_option (\<lambda>u. jc_org ctx @ ''/'' @ u) (jr_created_by row) else None))"
proof -
  let ?t1 = "retire (jc_org ctx) (jc_now ctx) t"
  obtain row t' where take: "take_job (jc_org ctx) worker (jc_uuid ctx) (jc_now ctx) (bo_leaseSeconds opts) (jc_locked ctx) ?t1 = (row, t')"
    by fastforce
  have post: "post_claim ctx (Some (JObj [(''worker'', JStr worker), (''leaseSeconds'', JNum (of_int (bo_leaseSeconds opts)))])) t =
      ((case row of None \<Rightarrow> \<lparr>code = 204, payload = None\<rparr>
        | Some r \<Rightarrow> send 200 (claim_json (to_claim (jc_org ctx) (jc_workspaces ctx) (jc_uuid ctx) r))), t')"
    using assms(5-8) take leaseSeconds_int [OF assms(3,4)]
    by (simp add: post_claim_def body_def member_of_def json_str_def job_call_def job_claim_def Let_def split: option.splits)
  have uuids: "is_uuid u" if "row = Some r" "jr_created_by r = Some u" for r u
  proof -
    note prems = that
    obtain q where q: "q \<in> set ?t1" "r = claim_row worker (jc_uuid ctx) (jc_now ctx) (bo_leaseSeconds opts) q"
      using take [unfolded prems(1)] by (auto simp: take_job_def claim_candidates_def split: list.splits dest!: sort_key_hd_mem)
    then have "jr_created_by q = Some u" using prems(2) by (simp add: claim_row_def)
    moreover have "\<exists>p \<in> set t. jr_created_by p = jr_created_by q"
      using q(1) by (auto simp: retire_def set_sql_update retire_row_def)
    ultimately show ?thesis using assms(2) by metis
  qed
  have claim: "board_claim opts (serve_claim ctx) worker t =
      (Inr (map_option (\<lambda>r. read_claim (claim_json (to_claim (jc_org ctx) (jc_workspaces ctx) (jc_uuid ctx) r))) row), t')"
    using post by (cases row) (simp_all add: board_claim_def board_post_def board_request_def serve_claim_def carried_def
        response_ok_def send_def)
  show ?thesis
  proof (cases row)
    case None
    then show ?thesis using take claim by simp
  next
    case (Some r)
    have "workspacePathOf (read_claim (claim_json (to_claim (jc_org ctx) (jc_workspaces ctx) (jc_uuid ctx) r))) =
        (if jc_workspaces ctx then map_option (\<lambda>u. jc_org ctx @ ''/'' @ u) (jr_created_by r) else None)"
      using is_workspace_path_of [OF assms(1) uuids [OF Some]]
      by (simp add: read_claim_json workspacePathOf_def to_claim_def split: option.splits)
    then show ?thesis using take claim Some by (simp add: read_claim_json to_claim_def)
  qed
qed

definition sample_job_id :: uuid where
  "sample_job_id = ''3f2a9c04-1b6d-4e57-8a90-7c5d2e1f0b38''"

definition sample_board_ctx :: job_ctx where
  "sample_board_ctx =
     \<lparr>jc_org = ''acme'', jc_workspaces = True, jc_users = {}, jc_now = 5, jc_uuid = sample_member, jc_locked = (\<lambda>r. False), jc_down = None\<rparr>"

definition sample_board :: job_table where
  "sample_board = [fresh_job ''acme'' sample_job_id 0 ''run the tests'' (Some sample_member)]"

definition sample_board_options :: board_options where
  "sample_board_options = \<lparr>bo_url = ''http://board'', bo_leaseSeconds = 300, bo_token = None\<rparr>"

lemma sample_board_ok:
  "is_org_id (jc_org sample_board_ctx)" "1 \<le> bo_leaseSeconds sample_board_options" "bo_leaseSeconds sample_board_options \<le> 3600"
  "jc_down sample_board_ctx = None" "js_trim ''w1'' \<noteq> []" "length ''w1'' \<le> 128" "pg_text ''w1''"
  by code_simp+

lemma sample_authors: "\<forall>r \<in> set sample_board. \<forall>u. jr_created_by r = Some u \<longrightarrow> is_uuid u"
proof -
  have "is_uuid sample_member" by code_simp
  then show ?thesis by (simp add: sample_board_def fresh_job_def)
qed

lemma sample_taken:
  "\<exists>t'. take_job (jc_org sample_board_ctx) ''w1'' (jc_uuid sample_board_ctx) (jc_now sample_board_ctx)
      (bo_leaseSeconds sample_board_options) (jc_locked sample_board_ctx)
      (retire (jc_org sample_board_ctx) (jc_now sample_board_ctx) sample_board) =
    (Some (claim_row ''w1'' sample_member 5 300 (hd sample_board)), t')"
  by (simp add: take_job_def claim_candidates_def sample_board_ctx_def sample_board_options_def sample_board_def retire_def
      sql_update_def exhausted_def fresh_job_def claimable_def)

theorem driver_gets_the_claimed_job_witness:
  "\<exists>job t'. board_claim sample_board_options (serve_claim sample_board_ctx) ''w1'' sample_board = (Inr (Some job), t') \<and>
     bj_id job = sample_job_id \<and> workspacePathOf job = Some (''acme/'' @ sample_member)"
proof -
  obtain t' where taken: "take_job (jc_org sample_board_ctx) ''w1'' (jc_uuid sample_board_ctx) (jc_now sample_board_ctx)
      (bo_leaseSeconds sample_board_options) (jc_locked sample_board_ctx)
      (retire (jc_org sample_board_ctx) (jc_now sample_board_ctx) sample_board) =
    (Some (claim_row ''w1'' sample_member 5 300 (hd sample_board)), t')" using sample_taken by blast
  show ?thesis
    using driver_gets_the_claimed_job [OF sample_board_ok(1) sample_authors sample_board_ok(2-7)]
    unfolding taken by (auto simp: claim_row_def sample_board_def fresh_job_def sample_board_ctx_def)
qed

text \<open>
  What the board keeps of a report: a report the board took is stored with its status, its exit code and
  the first 65536 characters of its output. The line that says a run was killed for its time comes last, so of a run that
  was killed with a full buffer the board keeps the output alone.
\<close>

theorem stored_report_is_what_fits:
  assumes "report_of config r = CallComplete st exitCode out"
    "board_complete opts (serve_complete ctx (bj_id job)) job st exitCode out t = (Inr Held, t')"
  shows "\<exists>row \<in> set t'. owned (jc_org ctx) (uuid_value (bj_id job)) row \<and>
     jr_status row = (if ro_exitCode r = Some 0 \<and> \<not> ro_timedOut r then JSucceeded else JFailed) \<and>
     jr_exit_code row = ro_exitCode r \<and> jr_output row = Some (take 65536 out) \<and>
     (65536 \<le> length (ro_output r) \<longrightarrow> jr_output row = Some (take 65536 (ro_output r)))"
proof -
  have report: "st = (if ro_exitCode r = Some 0 \<and> \<not> ro_timedOut r then RunSucceeded else RunFailed)"
      "exitCode = ro_exitCode r" "\<exists>tail. out = ro_output r @ tail"
    using assms(1) by (auto simp: report_of_def split: if_splits)
  let ?b = "Some (JObj [(''leaseToken'', JStr (bj_leaseToken job)), (''status'', JStr (run_status_str st)),
      (''exitCode'', json_opt (\<lambda>i. JNum (of_int i)) exitCode), (''output'', JStr out)])"
  let ?o = "if st = RunSucceeded then OSucceeded else OFailed"
  obtain rep where post: "post_complete ctx (bj_id job) ?b t = (rep, t')" "200 \<le> code rep" "code rep \<le> 299"
    using assms(2) by (cases "post_complete ctx (bj_id job) ?b t")
      (auto simp: board_complete_def verdict_def board_post_def board_request_def serve_complete_def carried_def
        response_ok_def split: if_splits)
  have parts: "outcome_named (Some (JStr (run_status_str st))) = Some ?o"
      "exit_code_of (Some (json_opt (\<lambda>i. JNum (of_int i)) exitCode)) = Some exitCode"
      "output_of (Some (JStr out)) = Some (Some (take 65536 out))"
    by (cases st; simp add: outcome_named_def)
       (auto simp: exit_code_of_def output_of_def absent_def json_opt_def is_integer_def split: option.splits)
  obtain tok where done_: "job_complete (jc_org ctx) (uuid_value (bj_id job)) tok ?o exitCode (Some (take 65536 out)) (jc_now ctx) t = (Inr LOk, t')"
    using post parts
    by (auto simp: post_complete_def body_def member_of_def job_call_def guard_def lease_reply_def
        split: option.splits if_splits sum.splits lease_result.splits prod.splits)
  then obtain q where q: "q \<in> set t" "held_under (jc_org ctx) (uuid_value (bj_id job)) tok q"
      "t' = sql_update (held_under (jc_org ctx) (uuid_value (bj_id job)) tok) (complete_row ?o exitCode (Some (take 65536 out)) (jc_now ctx)) t"
    by (auto simp: job_complete_def sql_exists_iff split: if_splits)
  let ?row = "complete_row ?o exitCode (Some (take 65536 out)) (jc_now ctx) q"
  have "?row \<in> set t'" using q by (auto simp: set_sql_update)
  moreover have "65536 \<le> length (ro_output r) \<Longrightarrow> take 65536 out = take 65536 (ro_output r)" using report(3) by auto
  ultimately show ?thesis using q(2) report(1,2)
    by (intro bexI [of _ ?row]) (auto simp: complete_row_def held_under_def owned_def)
qed

definition sample_run :: RunOutcome where
  "sample_run = \<lparr>ro_exitCode = Some 0, ro_output = ''done'', ro_timedOut = False, ro_idled = False\<rparr>"

definition sample_board_job :: BoardJob where
  "sample_board_job =
     \<lparr>bj_id = sample_job_id, bj_command = ''run the tests'', bj_attempts = 1, bj_leaseToken = sample_member, bj_leaseExpiresAt = [],
      bj_resumeSessionId = None, bj_userId = None, bj_workspacePath = None\<rparr>"

definition sample_leased :: job_table where
  "sample_leased = map (claim_row ''w1'' sample_member 5 300) sample_board"

lemma sample_report: "report_of config sample_run = CallComplete RunSucceeded (Some 0) ''done''"
  by (simp add: report_of_def sample_run_def)

lemma sample_completed:
  "\<exists>t'. board_complete sample_board_options (serve_complete sample_board_ctx (bj_id sample_board_job)) sample_board_job
     RunSucceeded (Some 0) ''done'' sample_leased = (Inr Held, t')"
proof -
  have ids: "is_uuid sample_job_id" "is_uuid sample_member" "uuid_value sample_job_id = sample_job_id"
    "uuid_value sample_member = sample_member" "pg_text ''done''" by code_simp+
  have "held_under ''acme'' sample_job_id sample_member (hd sample_leased)"
    by (simp add: sample_leased_def sample_board_def held_under_def owned_def claim_row_def fresh_job_def)
  then have "sql_exists (held_under ''acme'' sample_job_id sample_member) sample_leased"
    by (simp add: sample_leased_def sample_board_def sql_exists_def)
  then show ?thesis using ids
    by (simp add: board_complete_def board_post_def board_request_def serve_complete_def carried_def verdict_def response_ok_def
        post_complete_def body_def member_of_def uuid_str_def json_str_def outcome_named_def exit_code_of_def output_of_def
        absent_def json_opt_def is_integer_def job_call_def job_complete_def lease_reply_def sample_board_ctx_def
        sample_board_job_def sample_board_options_def pg_int4_def send_def opt_ok_def)
qed

theorem stored_report_is_what_fits_witness:
  "\<exists>t'. board_complete sample_board_options (serve_complete sample_board_ctx (bj_id sample_board_job)) sample_board_job
     RunSucceeded (Some 0) ''done'' sample_leased = (Inr Held, t') \<and> (\<exists>row \<in> set t'. jr_output row = Some ''done'')"
proof -
  obtain t' where t': "board_complete sample_board_options (serve_complete sample_board_ctx (bj_id sample_board_job)) sample_board_job
     RunSucceeded (Some 0) ''done'' sample_leased = (Inr Held, t')" using sample_completed by blast
  show ?thesis using stored_report_is_what_fits [OF sample_report t'] t' by (auto simp: sample_run_def)
qed

end
